(* ===== verification/Prelude.thy ===== *)
theory Prelude
  imports Complex_Main "HOL-Library.Multiset" "HOL-Library.Sublist"
begin

text \<open>
  What the components of the model share: the types that stand for Go's base types and for the
  values of the two value libraries the source uses everywhere (decimals and UUIDs), the text
  formatting of the standard library, and generic lemmas on lists and maps.

  \<^item> A \<open>decimal.Decimal\<close> is an exact decimal fraction. Its value is a \<open>rat\<close>; addition, subtraction,
    multiplication and comparison of decimals are exact, so they are those of \<open>rat\<close>. Operations
    of that library that round or that print are parameters of the definitions that use them.
  \<^item> A \<open>uuid.UUID\<close> is its 128 bits read as a number; \<open>uuid.Nil\<close> is 0. \<open>uuid.New()\<close> and the clock
    are inputs of the operations that call them.
  \<^item> A \<open>time.Time\<close> and a \<open>time.Duration\<close> are nanoseconds; time 0 is Go's zero time.
  \<^item> \<open>int\<close>, \<open>int64\<close> counters and sums of durations are \<open>int\<close>: an overflow would take 2^63 steps or
    a clock reading 292 years away.
\<close>

type_synonym decimal = rat
type_synonym uuid = nat
type_synonym time = int
type_synonym duration = int

abbreviation (input) nil_uuid :: uuid where
  "nil_uuid \<equiv> 0"

abbreviation (input) nanosecond :: duration where
  "nanosecond \<equiv> 1"

abbreviation (input) millisecond :: duration where
  "millisecond \<equiv> 1000000"

abbreviation (input) second :: duration where
  "second \<equiv> 1000000000"

abbreviation (input) minute :: duration where
  "minute \<equiv> 60 * second"

abbreviation (input) hour :: duration where
  "hour \<equiv> 60 * minute"

text \<open>A value of Go type \<open>interface{}\<close>: the types the source stores in one. A finite float is its exact value.\<close>

datatype any =
    ANil | ABool bool | AInt int | AFloat rat | AStr string | AStrs "string list"
  | ADec decimal | AUuid uuid | ATime time

text \<open>
  How a call ends when it may fail to return: it panics, it waits forever (for a mutex that is
  never released), or it returns.
\<close>

datatype 'a outcome = Panics | Blocks | Returns 'a

text \<open>
  Facts that unfold the operations of one component are collected per purpose: \<open>go_defs\<close> holds
  the definitions of small getters and setters, \<open>go_inv\<close> the preservation lemmas of invariants.
\<close>

named_theorems go_defs
named_theorems go_inv

section \<open>Text formatting of the standard library\<close>

text \<open>The verbs \<open>%d\<close> (decimal) and \<open>%x\<close> (bytes in hexadecimal) of \<open>fmt.Sprintf\<close>.\<close>

definition digit_char :: "nat \<Rightarrow> char" where
  "digit_char d = ''0123456789abcdef'' ! (d mod 16)"

fun show_nat :: "nat \<Rightarrow> string" where
  "show_nat n = (if n < 10 then [digit_char n] else show_nat (n div 10) @ [digit_char (n mod 10)])"

declare show_nat.simps [simp del]

definition show_int :: "int \<Rightarrow> string" where
  "show_int i = (if i < 0 then CHR ''-'' # show_nat (nat (- i)) else show_nat (nat i))"

definition hex_byte :: "nat \<Rightarrow> string" where
  "hex_byte b = [digit_char (b div 16), digit_char (b mod 16)]"

definition hex_bytes :: "nat list \<Rightarrow> string" where
  "hex_bytes bs = concat (map hex_byte bs)"

definition bytes :: "nat list \<Rightarrow> bool" where
  "bytes bs \<longleftrightarrow> (\<forall>b \<in> set bs. b < 256)"

lemma digit_char_inj: "a < 16 \<Longrightarrow> b < 16 \<Longrightarrow> digit_char a = digit_char b \<Longrightarrow> a = b"
proof -
  assume a: "a < 16" and b: "b < 16" and eq: "digit_char a = digit_char b"
  have "distinct ''0123456789abcdef''" by simp
  then show "a = b"
    using a b eq by (simp add: digit_char_def nth_eq_iff_index_eq)
qed

lemma hex_byte_inj: "a < 256 \<Longrightarrow> b < 256 \<Longrightarrow> hex_byte a = hex_byte b \<Longrightarrow> a = b"
proof -
  assume a: "a < 256" and b: "b < 256" and eq: "hex_byte a = hex_byte b"
  have "a div 16 = b div 16" and "a mod 16 = b mod 16"
    using a b eq digit_char_inj [of "a div 16" "b div 16"] digit_char_inj [of "a mod 16" "b mod 16"]
    by (auto simp: hex_byte_def)
  then show "a = b" by (metis div_mult_mod_eq)
qed

lemma hex_bytes_Nil [simp]: "hex_bytes [] = []"
  by (simp add: hex_bytes_def)

lemma hex_bytes_Cons [simp]: "hex_bytes (b # bs) = hex_byte b @ hex_bytes bs"
  by (simp add: hex_bytes_def)

lemma length_hex_byte [simp]: "length (hex_byte b) = 2"
  by (simp add: hex_byte_def)

lemma length_hex_bytes [simp]: "length (hex_bytes bs) = 2 * length bs"
  by (induction bs) auto

lemma bytes_Cons [simp]: "bytes (b # bs) \<longleftrightarrow> b < 256 \<and> bytes bs"
  by (simp add: bytes_def)

lemma bytes_Nil [simp]: "bytes []"
  by (simp add: bytes_def)

lemma hex_bytes_inj: "bytes as \<Longrightarrow> bytes bs \<Longrightarrow> hex_bytes as = hex_bytes bs \<Longrightarrow> as = bs"
proof (induction as arbitrary: bs)
  case Nil
  then show ?case by (cases bs) (auto simp: hex_byte_def)
next
  case (Cons a as)
  then obtain b bs' where bs: "bs = b # bs'" by (cases bs) (auto simp: hex_byte_def)
  with Cons.prems have "hex_byte a = hex_byte b" and "hex_bytes as = hex_bytes bs'"
    by (auto simp: hex_byte_def)
  with bs Cons.prems Cons.IH [of bs'] hex_byte_inj [of a b] show ?case by auto
qed

text \<open>Numbers in decimal or hexadecimal text never hold a comma, so a comma ends them.\<close>

lemma digit_char_not_comma [simp]: "digit_char d \<noteq> CHR '',''"
proof -
  have "digit_char d \<in> set ''0123456789abcdef''"
    unfolding digit_char_def by (rule nth_mem) simp
  then show ?thesis by auto
qed

lemma comma_not_digit_char [simp]: "CHR '','' \<noteq> digit_char d"
  using digit_char_not_comma by metis

lemma comma_hex_bytes [simp]: "CHR '','' \<notin> set (hex_bytes bs)"
  by (induction bs) (auto simp: hex_byte_def)

lemma split_at_inj:
  "c \<notin> set as \<Longrightarrow> c \<notin> set bs \<Longrightarrow> as @ c # xs = bs @ c # ys \<longleftrightarrow> as = bs \<and> xs = ys"
proof (induction as arbitrary: bs)
  case Nil
  then show ?case by (cases bs) auto
next
  case (Cons a as)
  then show ?case by (cases bs) auto
qed

text \<open>The decimal digits determine the number.\<close>

lemma show_nat_ne [simp]: "show_nat n \<noteq> []"
  by (subst show_nat.simps) simp

lemma show_nat_ne' [simp]: "[] \<noteq> show_nat n"
  using show_nat_ne by metis

lemma show_nat_inj: "show_nat m = show_nat n \<Longrightarrow> m = n"
proof (induction m arbitrary: n rule: show_nat.induct)
  case (1 m)
  note eq = "1.prems"
  show ?case
  proof (cases "m < 10 \<or> n < 10")
    case True
    then show ?thesis
      using eq digit_char_inj [of m n]
      by (auto simp: show_nat.simps [of m] show_nat.simps [of n] split: if_splits)
  next
    case False
    then have "show_nat (m div 10) = show_nat (n div 10)"
      and "digit_char (m mod 10) = digit_char (n mod 10)"
      using eq by (auto simp: show_nat.simps [of m] show_nat.simps [of n])
    with False "1.IH" have "m div 10 = n div 10" and "m mod 10 = n mod 10"
      using digit_char_inj [of "m mod 10" "n mod 10"] by auto
    then show ?thesis by (metis div_mult_mod_eq)
  qed
qed

lemma comma_show_nat [simp]: "CHR '','' \<notin> set (show_nat n)"
  by (induction n rule: show_nat.induct) (subst show_nat.simps, auto)

lemma minus_not_digit_char [simp]: "digit_char d \<noteq> CHR ''-''"
proof -
  have "digit_char d \<in> set ''0123456789abcdef''"
    unfolding digit_char_def by (rule nth_mem) simp
  then show ?thesis by auto
qed

lemma minus_show_nat [simp]: "CHR ''-'' \<notin> set (show_nat n)"
  by (induction n rule: show_nat.induct)
    (subst show_nat.simps, auto dest: sym [of "CHR ''-''"])

lemma comma_show_int [simp]: "CHR '','' \<notin> set (show_int i)"
  by (simp add: show_int_def)

lemma show_int_inj: "show_int i = show_int j \<Longrightarrow> i = j"
proof -
  assume eq: "show_int i = show_int j"
  have "show_nat m \<noteq> CHR ''-'' # show_nat n" for m n
    using minus_show_nat [of m] by (metis list.set_intros(1))
  then show "i = j"
    using eq show_nat_inj [of "nat i" "nat j"] show_nat_inj [of "nat (- i)" "nat (- j)"]
    by (auto simp: show_int_def split: if_splits dest: sym)
qed

section \<open>Lists, maps and folds\<close>

lemma map_upd_dom_iff: "x \<in> dom (m(k \<mapsto> v)) \<longleftrightarrow> x = k \<or> x \<in> dom m"
  by auto

lemma option_case_Some_iff:
  "(case x of None \<Rightarrow> None | Some y \<Rightarrow> f y) = Some z \<longleftrightarrow> (\<exists>y. x = Some y \<and> f y = Some z)"
  by (cases x) auto

text \<open>A Go map ranged over: the keys come in some order the runtime chooses.\<close>

definition range_order :: "'k list \<Rightarrow> ('k \<rightharpoonup> 'v) \<Rightarrow> bool" where
  "range_order ks m \<longleftrightarrow> distinct ks \<and> set ks = dom m"

lemma range_order_empty [simp]: "range_order [] m \<longleftrightarrow> m = Map.empty"
  by (auto simp: range_order_def)

section \<open>Outcomes and values of any type\<close>

text \<open>Sequencing: what follows a call runs only when the call returns.\<close>

fun bind_outcome :: "'a outcome \<Rightarrow> ('a \<Rightarrow> 'b outcome) \<Rightarrow> 'b outcome" where
  "bind_outcome Panics f = Panics"
| "bind_outcome Blocks f = Blocks"
| "bind_outcome (Returns x) f = f x"

lemma bind_outcome_Returns_iff:
  "bind_outcome m f = Returns y \<longleftrightarrow> (\<exists>x. m = Returns x \<and> f x = Returns y)"
  by (cases m) auto

text \<open>\<open>m[k].(T)\<close>: reading a key whose value is absent or of another type panics.\<close>

definition assert_str :: "(string \<rightharpoonup> any) \<Rightarrow> string \<Rightarrow> string outcome" where
  "assert_str m k = (case m k of Some (AStr s) \<Rightarrow> Returns s | _ \<Rightarrow> Panics)"

definition assert_uuid :: "(string \<rightharpoonup> any) \<Rightarrow> string \<Rightarrow> uuid outcome" where
  "assert_uuid m k = (case m k of Some (AUuid u) \<Rightarrow> Returns u | _ \<Rightarrow> Panics)"

definition assert_float :: "(string \<rightharpoonup> any) \<Rightarrow> string \<Rightarrow> rat outcome" where
  "assert_float m k = (case m k of Some (AFloat f) \<Rightarrow> Returns f | _ \<Rightarrow> Panics)"

lemma no_pair_None [simp]: "(\<forall>x y. a \<noteq> Some (x, y)) \<longleftrightarrow> a = None"
  by (cases a) auto

end
