(* ===== verification/OrderQueue.thy ===== *)
theory OrderQueue
  imports Prelude "HOL-Library.Product_Lexorder"
begin

text \<open>
  The in-memory priority queue of \<open>internal/trading/orderqueue/inmemory_queue.go\<close>: the \<open>Order\<close> and
  \<open>InMemoryQueue\<close> structs, the operations of the \<open>QueueProvider\<close> interface and the insertion sort
  by swaps they rest on. The interface is the locale \<open>queue_provider\<close>; the in-memory queue is its
  interpretation. The two mutexes make every operation atomic once it has passed the check of
  \<open>closed\<close>; \<open>q_Enqueue\<close> is an \<open>Enqueue\<close> with no \<open>Close\<close> between its check and its body.
\<close>

section \<open>Data\<close>

record queue_order =
  qo_ID :: string
  qo_UserID :: string
  qo_Market :: string
  qo_Side :: string
  qo_Type :: string
  qo_Price :: string
  qo_Amount :: string
  qo_Status :: string
  qo_Priority :: int
  qo_CreatedAt :: time
  qo_ExpiresAt :: "time option"
  qo_ComplexData :: "string \<rightharpoonup> any"

record in_memory_queue =
  q_orders :: "queue_order list"
  q_closed :: bool

datatype queue_error = QueueClosed | QueueEmpty | OrderDuplicate string

section \<open>Operations\<close>

definition NewInMemoryQueue :: in_memory_queue where
  "NewInMemoryQueue = \<lparr>q_orders = [], q_closed = False\<rparr>"

text \<open>\<open>orders[j-1], orders[j] = orders[j], orders[j-1]\<close>\<close>

definition swap_prev :: "'a list \<Rightarrow> nat \<Rightarrow> 'a list" where
  "swap_prev os j = os[j - 1 := os ! j, j := os ! (j - 1)]"

text \<open>The inner loop: \<open>j\<close> goes down from \<open>i\<close> while the neighbours are out of order.\<close>

fun sink :: "queue_order list \<Rightarrow> nat \<Rightarrow> queue_order list" where
  "sink os 0 = os"
| "sink os (Suc j) =
     (if qo_Priority (os ! j) < qo_Priority (os ! Suc j) then sink (swap_prev os (Suc j)) j
      else if qo_Priority (os ! j) = qo_Priority (os ! Suc j) then
        (if qo_CreatedAt (os ! j) > qo_CreatedAt (os ! Suc j) then sink (swap_prev os (Suc j)) j
         else os)
      else os)"

definition sortOrdersByPriority :: "queue_order list \<Rightarrow> queue_order list" where
  "sortOrdersByPriority os = foldl sink os [1..<length os]"

text \<open>The defaults \<open>Enqueue\<close> fills in; \<open>newID\<close> and \<open>now\<close> are \<open>uuid.New().String()\<close> and the clock.\<close>

definition fill_defaults :: "string \<Rightarrow> time \<Rightarrow> queue_order \<Rightarrow> queue_order" where
  "fill_defaults newID now ord =
     (let o1 = (if qo_ID ord = [] then ord\<lparr>qo_ID := newID\<rparr> else ord)
      in if qo_CreatedAt o1 = 0 then o1\<lparr>qo_CreatedAt := now\<rparr> else o1)"

text \<open>The part of \<open>Enqueue\<close> under \<open>q.mu\<close>, after the check of \<open>closed\<close>.\<close>

definition enqueue_locked :: "queue_order \<Rightarrow> in_memory_queue \<Rightarrow> queue_error option \<times> in_memory_queue" where
  "enqueue_locked ord q =
     (if \<exists>x \<in> set (q_orders q). qo_ID x = qo_ID ord then (Some (OrderDuplicate (qo_ID ord)), q)
      else (None, q\<lparr>q_orders := sortOrdersByPriority (q_orders q @ [ord])\<rparr>))"

definition q_Enqueue ::
    "string \<Rightarrow> time \<Rightarrow> queue_order \<Rightarrow> in_memory_queue \<Rightarrow> queue_error option \<times> in_memory_queue" where
  "q_Enqueue newID now ord q =
     (if q_closed q then (Some QueueClosed, q)
      else enqueue_locked (fill_defaults newID now ord) q)"

definition q_Dequeue :: "in_memory_queue \<Rightarrow> (queue_error + queue_order) \<times> in_memory_queue" where
  "q_Dequeue q =
     (if q_closed q then (Inl QueueClosed, q)
      else case q_orders q of
        [] \<Rightarrow> (Inl QueueEmpty, q)
      | x # xs \<Rightarrow> (Inr x, q\<lparr>q_orders := xs\<rparr>))"

definition q_Peek :: "in_memory_queue \<Rightarrow> queue_error + queue_order option" where
  "q_Peek q =
     (if q_closed q then Inl QueueClosed
      else case q_orders q of [] \<Rightarrow> Inr None | x # xs \<Rightarrow> Inr (Some x))"

definition q_Size :: "in_memory_queue \<Rightarrow> queue_error + nat" where
  "q_Size q = (if q_closed q then Inl QueueClosed else Inr (length (q_orders q)))"

definition q_Close :: "in_memory_queue \<Rightarrow> in_memory_queue" where
  "q_Close q = q\<lparr>q_closed := True\<rparr>"

section \<open>The interface\<close>

text \<open>A client that takes orders until the queue says it is empty, at most \<open>n\<close> times.\<close>

fun drain :: "('q \<Rightarrow> ('e + 'o) \<times> 'q) \<Rightarrow> nat \<Rightarrow> 'q \<Rightarrow> 'o list \<times> 'q" where
  "drain deq 0 q = ([], q)"
| "drain deq (Suc n) q =
     (case deq q of
        (Inl e, q') \<Rightarrow> ([], q')
      | (Inr x, q') \<Rightarrow> (let (xs, q'') = drain deq n q' in (x # xs, q'')))"

text \<open>A client that enqueues a batch and stops at the first error.\<close>

fun enqueue_all :: "('o \<Rightarrow> 'q \<Rightarrow> 'e option \<times> 'q) \<Rightarrow> 'o list \<Rightarrow> 'q \<Rightarrow> 'e option \<times> 'q" where
  "enqueue_all enq [] q = (None, q)"
| "enqueue_all enq (x # xs) q =
     (case enq x q of (Some e, q') \<Rightarrow> (Some e, q') | (None, q') \<Rightarrow> enqueue_all enq xs q')"

text \<open>
  What a provider promises: the content is a list in the order of service; an accepted order is
  added behind the orders that are served before it; \<open>deq\<close> takes the first; \<open>peek\<close> and \<open>size\<close>
  only read; after \<open>close\<close> everything is refused.
\<close>

locale queue_provider =
  fixes enq :: "'o \<Rightarrow> 'q \<Rightarrow> 'e option \<times> 'q"
    and deq :: "'q \<Rightarrow> ('e + 'o) \<times> 'q"
    and peek :: "'q \<Rightarrow> 'e + 'o option"
    and close :: "'q \<Rightarrow> 'q"
    and content :: "'q \<Rightarrow> 'o list"
    and live :: "'q \<Rightarrow> bool"
    and acceptable :: "'o \<Rightarrow> 'o list \<Rightarrow> bool"
    and insert_at :: "'o \<Rightarrow> 'o list \<Rightarrow> 'o list"
    and invar :: "'q \<Rightarrow> bool"
  assumes enq_accepts: "live q \<Longrightarrow> invar q \<Longrightarrow> acceptable x (content q) \<Longrightarrow>
      fst (enq x q) = None \<and> content (snd (enq x q)) = insert_at x (content q)"
    and enq_live: "live (snd (enq x q)) = live q"
    and enq_invar: "invar q \<Longrightarrow> invar (snd (enq x q))"
    and deq_some: "live q \<Longrightarrow> content q = x # xs \<Longrightarrow>
      fst (deq q) = Inr x \<and> content (snd (deq q)) = xs"
    and deq_none: "live q \<Longrightarrow> content q = [] \<Longrightarrow> \<exists>e. deq q = (Inl e, q)"
    and deq_live: "live (snd (deq q)) = live q"
    and peek_deq: "live q \<Longrightarrow> content q = x # xs \<Longrightarrow> peek q = Inr (Some x)"
    and closed: "\<not> live (close q)"
begin

lemma drain_content:
  "live q \<Longrightarrow> length (content q) \<le> n \<Longrightarrow> fst (drain deq n q) = content q"
proof (induction n arbitrary: q)
  case 0
  then show ?case by simp
next
  case (Suc n)
  show ?case
  proof (cases "content q")
    case Nil
    then show ?thesis using deq_none [OF Suc.prems(1)] by auto
  next
    case (Cons x xs)
    then obtain q' where q': "deq q = (Inr x, q')" "content q' = xs" "live q'"
      using deq_some [OF Suc.prems(1) Cons] deq_live [of q] Suc.prems(1)
      by (cases "deq q") auto
    then show ?thesis using Suc.IH [of q'] Suc.prems Cons by (auto split: prod.splits)
  qed
qed

lemma enqueue_all_content:
  "live q \<Longrightarrow> invar q \<Longrightarrow>
   (\<And>i. i < length xs \<Longrightarrow> acceptable (xs ! i) (foldl (\<lambda>c x. insert_at x c) (content q) (take i xs))) \<Longrightarrow>
   fst (enqueue_all enq xs q) = None \<and>
   content (snd (enqueue_all enq xs q)) = foldl (\<lambda>c x. insert_at x c) (content q) xs \<and>
   live (snd (enqueue_all enq xs q))"
proof (induction xs arbitrary: q)
  case Nil
  then show ?case by simp
next
  case (Cons x xs)
  from Cons.prems(3) [of 0] have "acceptable x (content q)" by simp
  with Cons.prems obtain q' where q': "enq x q = (None, q')" "content q' = insert_at x (content q)"
      "live q'" "invar q'"
    using enq_accepts [of q x] enq_live [of x q] enq_invar [of q x] by (cases "enq x q") auto
  have "acceptable (xs ! i) (foldl (\<lambda>c x. insert_at x c) (content q') (take i xs))"
    if "i < length xs" for i
    using Cons.prems(3) [of "Suc i"] that q'(2) by simp
  from Cons.IH [OF q'(3) q'(4) this] show ?case using q' by simp
qed

end

section \<open>The sort\<close>

text \<open>\<open>served_before x y\<close>: the loop leaves \<open>x\<close> in front of \<open>y\<close>.\<close>

definition served_before :: "queue_order \<Rightarrow> queue_order \<Rightarrow> bool" where
  "served_before x y \<longleftrightarrow> qo_Priority y < qo_Priority x \<or>
     qo_Priority x = qo_Priority y \<and> qo_CreatedAt x \<le> qo_CreatedAt y"

definition service_key :: "queue_order \<Rightarrow> int \<times> time" where
  "service_key x = (- qo_Priority x, qo_CreatedAt x)"

lemma served_before_key: "served_before x y \<longleftrightarrow> service_key x \<le> service_key y"
  by (auto simp: served_before_def service_key_def less_eq_prod_def)

lemma served_before_refl [simp]: "served_before x x"
  by (simp add: served_before_def)

lemma served_before_trans: "served_before x y \<Longrightarrow> served_before y z \<Longrightarrow> served_before x z"
  by (auto simp: served_before_key)

lemma served_before_total: "\<not> served_before x y \<Longrightarrow> served_before y x"
  by (auto simp: served_before_key)

text \<open>Insertion behind everything that is served before the new order.\<close>

fun insert_behind :: "queue_order \<Rightarrow> queue_order list \<Rightarrow> queue_order list" where
  "insert_behind x [] = [x]"
| "insert_behind x (y # ys) = (if served_before y x then y # insert_behind x ys else x # y # ys)"

lemma mset_insert_behind [simp]: "mset (insert_behind x ys) = add_mset x (mset ys)"
  by (induction ys) auto

lemma set_insert_behind [simp]: "set (insert_behind x ys) = insert x (set ys)"
  by (induction ys) auto

lemma sorted_insert_behind:
  "sorted_wrt served_before ys \<Longrightarrow> sorted_wrt served_before (insert_behind x ys)"
  by (induction ys) (auto intro: served_before_total served_before_trans)

lemma insert_behind_last: "\<forall>y \<in> set ys. served_before y x \<Longrightarrow> insert_behind x ys = ys @ [x]"
  by (induction ys) auto

lemma insert_behind_append:
  "\<not> served_before y x \<Longrightarrow> sorted_wrt served_before (ys @ [y]) \<Longrightarrow>
   insert_behind x (ys @ [y]) = insert_behind x ys @ [y]"
  by (induction ys) auto

lemma swap_prev_append:
  "length ys = j \<Longrightarrow> swap_prev (ys @ y # x # zs) (Suc j) = ys @ x # y # zs"
  by (simp add: swap_prev_def nth_append list_update_append)

lemma sink_step:
  "sink os (Suc j) =
     (if served_before (os ! j) (os ! Suc j) then os else sink (swap_prev os (Suc j)) j)"
  by (auto simp: served_before_def)

lemma sink_insert:
  "sorted_wrt served_before ys \<Longrightarrow>
   sink (ys @ x # zs) (length ys) = insert_behind x ys @ zs"
proof (induction ys arbitrary: zs rule: rev_induct)
  case Nil
  then show ?case by simp
next
  case (snoc y ys)
  show ?case
  proof (cases "served_before y x")
    case True
    have "\<forall>z \<in> set (ys @ [y]). served_before z x"
      using True snoc.prems by (auto simp: sorted_wrt_append intro: served_before_trans)
    then show ?thesis
      using True by (simp add: sink_step nth_append insert_behind_last del: sink.simps)
  next
    case False
    have "sorted_wrt served_before ys" using snoc.prems by (simp add: sorted_wrt_append)
    from snoc.IH [OF this, of "y # zs"] show ?thesis
      using False snoc.prems
      by (simp add: sink_step nth_append swap_prev_append insert_behind_append del: sink.simps)
  qed
qed

lemma foldl_sink:
  "sorted_wrt served_before ys \<Longrightarrow>
   foldl sink (ys @ xs) [length ys..<length ys + length xs] = foldl (\<lambda>c x. insert_behind x c) ys xs"
proof (induction xs arbitrary: ys)
  case Nil
  then show ?case by simp
next
  case (Cons x xs)
  have "length (insert_behind x ys) = Suc (length ys)"
    by (metis length_Cons mset.simps(2) mset_insert_behind size_mset)
  moreover have "[length ys..<length ys + length (x # xs)] =
      length ys # [Suc (length ys)..<Suc (length ys) + length xs]"
    using upt_conv_Cons [of "length ys" "length ys + length (x # xs)"] by simp
  ultimately show ?case
    using Cons.IH [OF sorted_insert_behind [OF Cons.prems, of x]] Cons.prems
    by (simp add: sink_insert del: upt_Suc)
qed

lemma sort_as_insertions:
  "sortOrdersByPriority os = foldl (\<lambda>c x. insert_behind x c) [] os"
proof (cases os)
  case Nil
  then show ?thesis by (simp add: sortOrdersByPriority_def)
next
  case (Cons x xs)
  then show ?thesis using foldl_sink [of "[x]" xs] by (simp add: sortOrdersByPriority_def)
qed

lemma sort_snoc:
  "sorted_wrt served_before os \<Longrightarrow> sortOrdersByPriority (os @ [x]) = insert_behind x os"
proof -
  assume s: "sorted_wrt served_before os"
  have "sorted_wrt served_before ys \<Longrightarrow> sorted_wrt served_before (ys @ zs) \<Longrightarrow>
      foldl (\<lambda>c x. insert_behind x c) ys zs = ys @ zs" for ys zs
  proof (induction zs arbitrary: ys)
    case (Cons z zs)
    have "insert_behind z ys = ys @ [z]"
      by (rule insert_behind_last) (use Cons.prems in \<open>auto simp: sorted_wrt_append\<close>)
    then show ?case using Cons.IH [of "ys @ [z]"] Cons.prems by (auto simp: sorted_wrt_append)
  qed simp
  from this [of "[]" os] s show ?thesis by (simp add: sort_as_insertions)
qed

lemma sorted_insertions:
  "sorted_wrt served_before ys \<Longrightarrow> sorted_wrt served_before (foldl (\<lambda>c x. insert_behind x c) ys xs)"
  by (induction xs arbitrary: ys) (auto intro: sorted_insert_behind)

lemma mset_insertions: "mset (foldl (\<lambda>c x. insert_behind x c) ys xs) = mset ys + mset xs"
  by (induction xs arbitrary: ys) auto

lemma filter_insert_behind:
  "sorted_wrt served_before ys \<Longrightarrow>
   filter (\<lambda>z. k = service_key z) (insert_behind x ys) =
   filter (\<lambda>z. k = service_key z) ys @ (if k = service_key x then [x] else [])"
proof (induction ys)
  case (Cons y ys)
  have "filter (\<lambda>z. service_key x = service_key z) (y # ys) = []" if "\<not> served_before y x"
    using Cons.prems that served_before_trans
    by (fastforce simp: filter_empty_conv served_before_key)
  then show ?case using Cons by auto
qed simp

lemma filter_insertions:
  "sorted_wrt served_before ys \<Longrightarrow>
   filter (\<lambda>z. k = service_key z) (foldl (\<lambda>c x. insert_behind x c) ys xs) =
   filter (\<lambda>z. k = service_key z) (ys @ xs)"
  by (induction xs arbitrary: ys) (auto simp: filter_insert_behind sorted_insert_behind)

lemma insertions_sort_key: "foldl (\<lambda>c x. insert_behind x c) [] xs = sort_key service_key xs"
proof (rule properties_for_sort_key [symmetric])
  show "mset (foldl (\<lambda>c x. insert_behind x c) [] xs) = mset xs"
    by (simp add: mset_insertions)
  show "filter (\<lambda>x. service_key k = service_key x) (foldl (\<lambda>c x. insert_behind x c) [] xs) =
      filter (\<lambda>x. service_key k = service_key x) xs" for k
    by (simp add: filter_insertions)
  show "sorted (map service_key (foldl (\<lambda>c x. insert_behind x c) [] xs))"
    using sorted_insertions [of "[]" xs] by (simp add: sorted_map served_before_key [abs_def])
qed

section \<open>The invariant and the in-memory queue as a provider\<close>

definition queue_inv :: "in_memory_queue \<Rightarrow> bool" where
  "queue_inv q \<longleftrightarrow> sorted_wrt served_before (q_orders q) \<and> distinct (map qo_ID (q_orders q))"

lemma queue_inv_new: "queue_inv NewInMemoryQueue"
  by (simp add: queue_inv_def NewInMemoryQueue_def)

lemma distinct_ids_insert_behind:
  "distinct (map qo_ID (insert_behind x ys)) \<longleftrightarrow>
   qo_ID x \<notin> qo_ID ` set ys \<and> distinct (map qo_ID ys)"
  by (induction ys) auto

lemma enqueue_locked_new:
  "queue_inv q \<Longrightarrow> qo_ID x \<notin> qo_ID ` set (q_orders q) \<Longrightarrow>
   enqueue_locked x q = (None, q\<lparr>q_orders := insert_behind x (q_orders q)\<rparr>)"
  by (auto simp: enqueue_locked_def queue_inv_def sort_snoc image_iff)

lemma enqueue_locked_dup:
  "qo_ID x \<in> qo_ID ` set (q_orders q) \<Longrightarrow>
   enqueue_locked x q = (Some (OrderDuplicate (qo_ID x)), q)"
  by (force simp: enqueue_locked_def)

lemma queue_inv_enqueue_locked [go_inv]: "queue_inv q \<Longrightarrow> queue_inv (snd (enqueue_locked x q))"
  by (cases "qo_ID x \<in> qo_ID ` set (q_orders q)")
    (auto simp: enqueue_locked_new enqueue_locked_dup queue_inv_def sorted_insert_behind
      distinct_ids_insert_behind)

lemma queue_inv_Enqueue [go_inv]: "queue_inv q \<Longrightarrow> queue_inv (snd (q_Enqueue newID now x q))"
  by (simp add: q_Enqueue_def queue_inv_enqueue_locked)

lemma queue_inv_Dequeue [go_inv]: "queue_inv q \<Longrightarrow> queue_inv (snd (q_Dequeue q))"
  by (auto simp: q_Dequeue_def queue_inv_def split: list.splits)

lemma queue_inv_Close [go_inv]: "queue_inv q \<Longrightarrow> queue_inv (q_Close q)"
  by (simp add: q_Close_def queue_inv_def)

lemma Enqueue_closed: "q_closed (snd (q_Enqueue newID now x q)) = q_closed q"
  by (simp add: q_Enqueue_def enqueue_locked_def)

interpretation imq: queue_provider "q_Enqueue newID now" q_Dequeue q_Peek q_Close q_orders
    "\<lambda>q. \<not> q_closed q"
    "\<lambda>x c. qo_ID (fill_defaults newID now x) \<notin> qo_ID ` set c"
    "\<lambda>x c. insert_behind (fill_defaults newID now x) c" queue_inv
  for newID now
proof unfold_locales
  fix q :: in_memory_queue and x y xs
  show "\<not> q_closed q \<Longrightarrow> queue_inv q \<Longrightarrow>
      qo_ID (fill_defaults newID now x) \<notin> qo_ID ` set (q_orders q) \<Longrightarrow>
      fst (q_Enqueue newID now x q) = None \<and>
      q_orders (snd (q_Enqueue newID now x q)) =
        insert_behind (fill_defaults newID now x) (q_orders q)"
    by (simp add: q_Enqueue_def enqueue_locked_new)
  show "(\<not> q_closed (snd (q_Enqueue newID now x q))) = (\<not> q_closed q)"
    by (simp add: Enqueue_closed)
  show "queue_inv q \<Longrightarrow> queue_inv (snd (q_Enqueue newID now x q))"
    by (rule queue_inv_Enqueue)
  show "\<not> q_closed q \<Longrightarrow> q_orders q = y # xs \<Longrightarrow>
      fst (q_Dequeue q) = Inr y \<and> q_orders (snd (q_Dequeue q)) = xs"
    by (simp add: q_Dequeue_def)
  show "\<not> q_closed q \<Longrightarrow> q_orders q = [] \<Longrightarrow> \<exists>e. q_Dequeue q = (Inl e, q)"
    by (simp add: q_Dequeue_def)
  show "(\<not> q_closed (snd (q_Dequeue q))) = (\<not> q_closed q)"
    by (simp add: q_Dequeue_def split: list.splits)
  show "\<not> q_closed q \<Longrightarrow> q_orders q = y # xs \<Longrightarrow> q_Peek q = Inr (Some y)"
    by (simp add: q_Peek_def)
  show "\<not> \<not> q_closed (q_Close q)"
    by (simp add: q_Close_def)
qed

section \<open>Histories\<close>

text \<open>
  A history of calls. \<open>enqueue\<close> is split where the code releases \<open>closedLock\<close>: \<open>CallCheck\<close> is
  the check that \<open>closed\<close> is unset, after which the order waits for \<open>q.mu\<close> in the pending list;
  \<open>CallInsert i\<close> is the locked part of the \<open>i\<close>-th pending call. Other calls, \<open>Close\<close> among them, may
  come in between.
\<close>

datatype queue_call =
    CallCheck string time queue_order
  | CallInsert nat
  | CallDequeue
  | CallClose

record queue_history =
  h_queue :: in_memory_queue
  h_pending :: "queue_order list"
  h_accepted :: "queue_order list"
  h_served :: "queue_order list"

definition history_start :: queue_history where
  "history_start = \<lparr>h_queue = NewInMemoryQueue, h_pending = [], h_accepted = [], h_served = []\<rparr>"

fun queue_call_step :: "queue_call \<Rightarrow> queue_history \<Rightarrow> queue_history" where
  "queue_call_step (CallCheck newID now x) h =
     (if q_closed (h_queue h) then h
      else h\<lparr>h_pending := h_pending h @ [fill_defaults newID now x]\<rparr>)"
| "queue_call_step (CallInsert i) h =
     (if i < length (h_pending h) then
        (let x = h_pending h ! i;
             h' = h\<lparr>h_pending := take i (h_pending h) @ drop (Suc i) (h_pending h)\<rparr>
         in case enqueue_locked x (h_queue h) of
              (Some e, q) \<Rightarrow> h'\<lparr>h_queue := q\<rparr>
            | (None, q) \<Rightarrow> h'\<lparr>h_queue := q, h_accepted := h_accepted h @ [x]\<rparr>)
      else h)"
| "queue_call_step CallDequeue h =
     (case q_Dequeue (h_queue h) of
        (Inl e, q) \<Rightarrow> h\<lparr>h_queue := q\<rparr>
      | (Inr x, q) \<Rightarrow> h\<lparr>h_queue := q, h_served := h_served h @ [x]\<rparr>)"
| "queue_call_step CallClose h = h\<lparr>h_queue := q_Close (h_queue h)\<rparr>"

definition run_calls :: "queue_call list \<Rightarrow> queue_history" where
  "run_calls cs = foldl (\<lambda>h c. queue_call_step c h) history_start cs"

definition history_inv :: "queue_history \<Rightarrow> bool" where
  "history_inv h \<longleftrightarrow> queue_inv (h_queue h) \<and>
     mset (h_accepted h) = mset (h_served h) + mset (q_orders (h_queue h))"

lemma history_inv_start: "history_inv history_start"
  by (simp add: history_inv_def history_start_def queue_inv_new) (simp add: NewInMemoryQueue_def)

lemma history_inv_insert [go_inv]: "history_inv h \<Longrightarrow> history_inv (queue_call_step (CallInsert i) h)"
proof -
  assume h: "history_inv h"
  show ?thesis
  proof (cases "i < length (h_pending h)")
    case True
    let ?x = "h_pending h ! i"
    show ?thesis
    proof (cases "qo_ID ?x \<in> qo_ID ` set (q_orders (h_queue h))")
      case True
      then show ?thesis using h \<open>i < _\<close>
        by (simp add: history_inv_def enqueue_locked_dup Let_def)
    next
      case False
      have "queue_inv (h_queue h)" using h by (simp add: history_inv_def)
      from enqueue_locked_new [OF this False] queue_inv_enqueue_locked [OF this, of ?x]
      show ?thesis using h \<open>i < _\<close> by (simp add: history_inv_def Let_def)
    qed
  qed (use h in simp)
qed

lemma history_inv_step [go_inv]: "history_inv h \<Longrightarrow> history_inv (queue_call_step c h)"
proof (cases c)
  case (CallCheck newID now x)
  then show "history_inv h \<Longrightarrow> ?thesis" by (simp add: history_inv_def)
next
  case (CallInsert i)
  then show "history_inv h \<Longrightarrow> ?thesis" using history_inv_insert by simp
next
  case CallDequeue
  then show "history_inv h \<Longrightarrow> ?thesis"
    using queue_inv_Dequeue [of "h_queue h"]
    by (auto simp: history_inv_def q_Dequeue_def split: list.splits)
next
  case CallClose
  then show "history_inv h \<Longrightarrow> ?thesis"
    using queue_inv_Close [of "h_queue h"] by (simp add: history_inv_def q_Close_def)
qed

lemma history_inv_run: "history_inv (run_calls cs)"
  unfolding run_calls_def
  by (induction cs rule: rev_induct) (auto intro: history_inv_step history_inv_start)

section \<open>Properties\<close>

text \<open>
  C13: the hand-written insertion sort by swaps of \<open>sortOrdersByPriority\<close> is the stable sort by
  descending priority, then ascending creation time: orders with equal keys keep their places.
\<close>

theorem sortOrdersByPriority_stable_sort:
  "sortOrdersByPriority os = sort_key (\<lambda>x. (- qo_Priority x, qo_CreatedAt x)) os"
  by (simp add: sort_as_insertions insertions_sort_key service_key_def [abs_def])

text \<open>
  C14: in every history of interleaved calls, \<open>Enqueue\<close> caught between its two critical sections
  included, the queue is sorted by service order, holds no ID twice, and the accepted orders are
  exactly the served ones and the waiting ones: none is lost, duplicated or made up.
\<close>

theorem queue_history_safe:
  "sorted_wrt served_before (q_orders (h_queue (run_calls cs))) \<and>
   distinct (map qo_ID (q_orders (h_queue (run_calls cs)))) \<and>
   mset (h_accepted (run_calls cs)) =
     mset (h_served (run_calls cs)) + mset (q_orders (h_queue (run_calls cs)))"
  using history_inv_run [of cs] by (simp add: history_inv_def queue_inv_def)

text \<open>
  a batch of orders with their own distinct IDs and creation times, enqueued into a new queue,
  comes out of repeated \<open>Dequeue\<close> calls sorted by descending priority, then age, then arrival.
\<close>

theorem enqueue_then_drain:
  assumes "distinct (map qo_ID os)" and "\<forall>x \<in> set os. qo_ID x \<noteq> [] \<and> qo_CreatedAt x \<noteq> 0"
  shows "fst (enqueue_all (q_Enqueue newID now) os NewInMemoryQueue) = None \<and>
    fst (drain q_Dequeue (length os) (snd (enqueue_all (q_Enqueue newID now) os NewInMemoryQueue))) =
      sort_key (\<lambda>x. (- qo_Priority x, qo_CreatedAt x)) os"
proof -
  let ?c = "\<lambda>xs. foldl (\<lambda>c x. insert_behind (fill_defaults newID now x) c) [] xs"
  have fill: "fill_defaults newID now x = x" if "x \<in> set os" for x
    using assms(2) that by (simp add: fill_defaults_def)
  have "?c xs = foldl (\<lambda>c x. insert_behind x c) [] xs" if "set xs \<subseteq> set os" for xs
    using that fill by (induction xs rule: rev_induct) auto
  then have c: "?c xs = sort_key service_key xs" if "set xs \<subseteq> set os" for xs
    using that by (simp add: insertions_sort_key)
  have ok: "qo_ID (fill_defaults newID now (os ! i)) \<notin>
      qo_ID ` set (foldl (\<lambda>c x. insert_behind (fill_defaults newID now x) c)
        (q_orders NewInMemoryQueue) (take i os))" if "i < length os" for i
  proof -
    have "qo_ID (os ! i) \<notin> set (map qo_ID (take i os))"
      using assms(1) that by (auto simp: in_set_conv_nth distinct_conv_nth)
    then show ?thesis using that fill [OF nth_mem [OF that]] c [of "take i os"] set_take_subset [of i os]
      by (simp add: NewInMemoryQueue_def)
  qed
  have new: "\<not> q_closed NewInMemoryQueue" by (simp add: NewInMemoryQueue_def)
  have all: "fst (enqueue_all (q_Enqueue newID now) os NewInMemoryQueue) = None \<and>
      q_orders (snd (enqueue_all (q_Enqueue newID now) os NewInMemoryQueue)) = ?c os \<and>
      \<not> q_closed (snd (enqueue_all (q_Enqueue newID now) os NewInMemoryQueue))"
    using imq.enqueue_all_content [OF new queue_inv_new, of os newID now, OF ok]
    by (simp add: NewInMemoryQueue_def)
  then show ?thesis
    using imq.drain_content [of "snd (enqueue_all (q_Enqueue newID now) os NewInMemoryQueue)"
        "length os"] c [of os]
    by (simp add: service_key_def [abs_def])
qed

definition sample_order :: "string \<Rightarrow> int \<Rightarrow> time \<Rightarrow> queue_order" where
  "sample_order i p t =
     \<lparr>qo_ID = i, qo_UserID = ''u'', qo_Market = ''BTC-USD'', qo_Side = ''buy'', qo_Type = ''limit'',
      qo_Price = ''1'', qo_Amount = ''1'', qo_Status = ''new'', qo_Priority = p, qo_CreatedAt = t,
      qo_ExpiresAt = None, qo_ComplexData = Map.empty\<rparr>"

lemma enqueue_then_drain_witness:
  "fst (drain q_Dequeue 3 (snd (enqueue_all (q_Enqueue ''n'' 9)
      [sample_order ''a'' 1 5, sample_order ''b'' 2 7, sample_order ''c'' 1 4] NewInMemoryQueue))) =
   [sample_order ''b'' 2 7, sample_order ''c'' 1 4, sample_order ''a'' 1 5]"
  using enqueue_then_drain [of "[sample_order ''a'' 1 5, sample_order ''b'' 2 7,
      sample_order ''c'' 1 4]" "''n''" 9]
  by (simp add: sample_order_def eval_nat_numeral)

text \<open>
  \<open>Close\<close> does not wait for an \<open>Enqueue\<close> that has passed the check: the call still reports
  success, and its order stays in a queue from which every \<open>Dequeue\<close>, \<open>Peek\<close> and \<open>Size\<close> is refused.
\<close>

theorem enqueue_races_close:
  "let h = run_calls [CallCheck newID now x, CallClose, CallInsert 0] in
     h_accepted h = [fill_defaults newID now x] \<and>
     q_orders (h_queue h) = [fill_defaults newID now x] \<and>
     q_Dequeue (h_queue h) = (Inl QueueClosed, h_queue h) \<and>
     q_Peek (h_queue h) = Inl QueueClosed \<and> q_Size (h_queue h) = Inl QueueClosed"
  by (simp add: Let_def run_calls_def history_start_def NewInMemoryQueue_def enqueue_locked_def
      q_Close_def q_Dequeue_def q_Peek_def q_Size_def sort_as_insertions)

end
