(* ===== verification/XaProtocol.thy ===== *)
theory XaProtocol
  imports Prelude
begin

text \<open>
  The types of the two-phase-commit protocol in \<open>internal/accounts/transaction/xa_manager.go\<close>:
  states, error codes, the error values and their texts, transaction identifiers, the
  \<open>XAResource\<close> interface as a record of functions over the world \<open>'w\<close> the resources act on, and
  the classification of errors that may be retried.
\<close>

section \<open>States, codes and errors\<close>

datatype XATransactionState =
    XAStateActive | XAStatePreparing | XAStatePrepared | XAStateCommitting | XAStateCommitted
  | XAStateAborting | XAStateAborted | XAStateReadonly | XAStateHeurCommit | XAStateHeurAbort
  | XAStateUnknown

fun state_text :: "XATransactionState \<Rightarrow> string" where
  "state_text XAStateActive = ''ACTIVE''"
| "state_text XAStatePreparing = ''PREPARING''"
| "state_text XAStatePrepared = ''PREPARED''"
| "state_text XAStateCommitting = ''COMMITTING''"
| "state_text XAStateCommitted = ''COMMITTED''"
| "state_text XAStateAborting = ''ABORTING''"
| "state_text XAStateAborted = ''ABORTED''"
| "state_text XAStateReadonly = ''READONLY''"
| "state_text XAStateHeurCommit = ''HEUR_COMMIT''"
| "state_text XAStateHeurAbort = ''HEUR_ABORT''"
| "state_text XAStateUnknown = ''UNKNOWN''"

datatype XAResourceState =
    XAResourceStateActive | XAResourceStateIdle | XAResourceStatePrepared
  | XAResourceStateCommitted | XAResourceStateRolledBack | XAResourceStateRollbackOnly

fun resource_state_text :: "XAResourceState \<Rightarrow> string" where
  "resource_state_text XAResourceStateActive = ''ACTIVE''"
| "resource_state_text XAResourceStateIdle = ''IDLE''"
| "resource_state_text XAResourceStatePrepared = ''PREPARED''"
| "resource_state_text XAResourceStateCommitted = ''COMMITTED''"
| "resource_state_text XAResourceStateRolledBack = ''ROLLED_BACK''"
| "resource_state_text XAResourceStateRollbackOnly = ''ROLLBACK_ONLY''"

text \<open>\<open>XAErrorCode\<close> is a Go \<open>int\<close> with four named values.\<close>

type_synonym XAErrorCode = int

abbreviation (input) XAErrorRMFAIL :: XAErrorCode where "XAErrorRMFAIL \<equiv> - 3"
abbreviation (input) XAErrorXAER_NOTA :: XAErrorCode where "XAErrorXAER_NOTA \<equiv> - 4"
abbreviation (input) XAErrorXAER_PROTO :: XAErrorCode where "XAErrorXAER_PROTO \<equiv> - 6"
abbreviation (input) XAErrorRB_ROLLBACK :: XAErrorCode where "XAErrorRB_ROLLBACK \<equiv> 100"

definition error_code_text :: "XAErrorCode \<Rightarrow> string" where
  "error_code_text e =
     (if e = XAErrorRMFAIL then ''RM_FAIL''
      else if e = XAErrorXAER_NOTA then ''XAER_NOTA''
      else if e = XAErrorXAER_PROTO then ''XAER_PROTO''
      else if e = XAErrorRB_ROLLBACK then ''RB_ROLLBACK''
      else ''UNKNOWN_'' @ show_int e)"

text \<open>The two flags of \<open>XAFlag\<close>: 0x00000000 and 0x20000000.\<close>

definition XAFlagTMSUCCESS :: nat where "XAFlagTMSUCCESS = 0"
definition XAFlagTMFAIL :: nat where "XAFlagTMFAIL = 536870912"

datatype XAErrorType =
    XAErrorTypeTimeout | XAErrorTypeDeadlock | XAErrorTypeResource | XAErrorTypeProtocol
  | XAErrorTypeHeuristic | XAErrorTypeRecovery | XAErrorTypeValidation

fun error_type_text :: "XAErrorType \<Rightarrow> string" where
  "error_type_text XAErrorTypeTimeout = ''TIMEOUT''"
| "error_type_text XAErrorTypeDeadlock = ''DEADLOCK''"
| "error_type_text XAErrorTypeResource = ''RESOURCE''"
| "error_type_text XAErrorTypeProtocol = ''PROTOCOL''"
| "error_type_text XAErrorTypeHeuristic = ''HEURISTIC''"
| "error_type_text XAErrorTypeRecovery = ''RECOVERY''"
| "error_type_text XAErrorTypeValidation = ''VALIDATION''"

text \<open>
  An error value: the result of \<open>fmt.Errorf\<close> or \<open>errors.New\<close> is its text, \<open>XAException\<close> has a
  code, a message and a cause, \<open>EnhancedXAException\<close> in addition a type, the transaction, the
  resource, the phase, a timestamp and a retry count.
\<close>

datatype go_error =
    Errorf string
  | XAException XAErrorCode string "go_error option"
  | EnhancedXAException XAErrorCode XAErrorType string "go_error option" uuid string string time int

text \<open>\<open>Error()\<close>; \<open>ustr\<close> is \<open>uuid.UUID.String\<close>.\<close>

fun error_text :: "(uuid \<Rightarrow> string) \<Rightarrow> go_error \<Rightarrow> string" where
  "error_text ustr (Errorf s) = s"
| "error_text ustr (XAException c m (Some e)) =
     ''XA Error '' @ show_int c @ '': '' @ m @ '' (caused by: '' @ error_text ustr e @ '')''"
| "error_text ustr (XAException c m None) = ''XA Error '' @ show_int c @ '': '' @ m"
| "error_text ustr (EnhancedXAException c t m cause tid res phase ts n) =
     ''XA Error ['' @ error_type_text t @ ''/'' @ error_code_text c @ ''] in '' @ phase @
     '' phase for transaction '' @ ustr tid @ '': '' @ m"

section \<open>Timeouts and identifiers\<close>

record XATimeoutConfig =
  StartTimeout :: duration
  PrepareTimeout :: duration
  CommitTimeout :: duration
  RollbackTimeout :: duration
  RecoveryTimeout :: duration

definition DefaultXATimeoutConfig :: XATimeoutConfig where
  "DefaultXATimeoutConfig =
     \<lparr>StartTimeout = 10 * second, PrepareTimeout = 30 * second, CommitTimeout = 60 * second,
      RollbackTimeout = 30 * second, RecoveryTimeout = 120 * second\<rparr>"

text \<open>An \<open>XID\<close>: an \<open>int32\<close> and two byte strings.\<close>

record XID =
  FormatID :: int
  GlobalTxnID :: "nat list"
  BranchQualID :: "nat list"

definition xid_text :: "XID \<Rightarrow> string" where
  "xid_text x = ''XID{fmt='' @ show_int (FormatID x) @ '',gtxn='' @ hex_bytes (GlobalTxnID x) @
     '',bqual='' @ hex_bytes (BranchQualID x) @ ''}''"

text \<open>The bytes of an ASCII text, and the 16 bytes of a UUID.\<close>

definition text_bytes :: "string \<Rightarrow> nat list" where
  "text_bytes s = map of_char s"

definition uuid_bytes :: "uuid \<Rightarrow> nat list" where
  "uuid_bytes u = map (\<lambda>i. u div 256 ^ (15 - i) mod 256) [0..<16]"

definition new_xid :: "uuid \<Rightarrow> time \<Rightarrow> XID" where
  "new_xid u now = \<lparr>FormatID = 1, GlobalTxnID = uuid_bytes u,
     BranchQualID = text_bytes (''branch-'' @ show_int now)\<rparr>"

section \<open>The resource interface\<close>

record 'w xa_resource =
  res_name :: string
  res_Prepare :: "XID \<Rightarrow> 'w \<Rightarrow> (bool \<times> go_error option) \<times> 'w"
  res_Commit :: "XID \<Rightarrow> bool \<Rightarrow> 'w \<Rightarrow> go_error option \<times> 'w"
  res_Rollback :: "XID \<Rightarrow> 'w \<Rightarrow> go_error option \<times> 'w"

section \<open>Which errors are retried\<close>

definition char_lower :: "char \<Rightarrow> char" where
  "char_lower c = (if of_char c \<ge> (65::nat) \<and> of_char c \<le> (90::nat)
     then char_of ((of_char c :: nat) + 32) else c)"

definition toLower :: "string \<Rightarrow> string" where
  "toLower s = map char_lower s"

text \<open>The loop \<open>for i := 0; i <= len(s)-len(substr); i++\<close> over the lower-cased texts.\<close>

fun search_from :: "string \<Rightarrow> string \<Rightarrow> nat \<Rightarrow> nat \<Rightarrow> bool" where
  "search_from s sub i 0 = False"
| "search_from s sub i (Suc n) =
     (if take (length sub) (drop i s) = sub then True else search_from s sub (Suc i) n)"

definition containsIgnoreCase :: "string \<Rightarrow> string \<Rightarrow> bool" where
  "containsIgnoreCase s sub =
     (let s' = toLower s; sub' = toLower sub
      in if length sub' \<le> length s' then search_from s' sub' 0 (length s' - length sub' + 1)
         else False)"

definition containsError :: "string \<Rightarrow> string \<Rightarrow> bool" where
  "containsError s sub \<longleftrightarrow> length sub \<le> length s \<and>
     (s = sub \<or> length sub = 0 \<or> length sub < length s \<and> containsIgnoreCase s sub)"

definition isRetryableUnderlyingError :: "(uuid \<Rightarrow> string) \<Rightarrow> go_error option \<Rightarrow> bool" where
  "isRetryableUnderlyingError ustr err =
     (case err of None \<Rightarrow> False
      | Some e \<Rightarrow> (let errStr = error_text ustr e in
          containsError errStr ''deadlock'' \<or> containsError errStr ''timeout'' \<or>
          containsError errStr ''serialization failure'' \<or>
          containsError errStr ''concurrent update''))"

definition isRetryableXAError :: "(uuid \<Rightarrow> string) \<Rightarrow> go_error \<Rightarrow> bool" where
  "isRetryableXAError ustr err =
     (case err of
        EnhancedXAException c t m cause tid res phase ts n \<Rightarrow>
          (if t = XAErrorTypeTimeout \<or> t = XAErrorTypeDeadlock then True
           else if t = XAErrorTypeResource \<and> cause \<noteq> None
             then isRetryableUnderlyingError ustr cause
           else isRetryableUnderlyingError ustr (Some err))
      | _ \<Rightarrow> isRetryableUnderlyingError ustr (Some err))"

section \<open>Lemmas\<close>

lemma search_from_iff:
  "search_from s sub i n \<longleftrightarrow> (\<exists>k. i \<le> k \<and> k < i + n \<and> take (length sub) (drop k s) = sub)"
proof (induction n arbitrary: i)
  case 0
  then show ?case by simp
next
  case (Suc n)
  show ?case
  proof (cases "take (length sub) (drop i s) = sub")
    case True
    then show ?thesis by (auto intro!: exI [of _ i])
  next
    case False
    then have "(i \<le> k \<and> k < i + Suc n \<and> take (length sub) (drop k s) = sub) \<longleftrightarrow>
        (Suc i \<le> k \<and> k < Suc i + n \<and> take (length sub) (drop k s) = sub)" for k
      by (cases "k = i") auto
    then show ?thesis using Suc.IH [of "Suc i"] False by simp
  qed
qed

lemma length_toLower [simp]: "length (toLower s) = length s"
  by (simp add: toLower_def)

lemma sublist_take_drop: "sublist sub s \<longleftrightarrow> (\<exists>k. k + length sub \<le> length s \<and> take (length sub) (drop k s) = sub)"
proof
  assume "sublist sub s"
  then obtain ps ss where "s = ps @ sub @ ss" by (auto simp: sublist_def)
  then have "length ps + length sub \<le> length s \<and> take (length sub) (drop (length ps) s) = sub" by simp
  then show "\<exists>k. k + length sub \<le> length s \<and> take (length sub) (drop k s) = sub" by blast
next
  assume "\<exists>k. k + length sub \<le> length s \<and> take (length sub) (drop k s) = sub"
  then obtain k where "take (length sub) (drop k s) = sub" by blast
  then have "s = take k s @ sub @ drop (length sub) (drop k s)"
    by (metis append_take_drop_id)
  then show "sublist sub s" by (auto simp: sublist_def)
qed

lemma containsIgnoreCase_sublist: "containsIgnoreCase s sub \<longleftrightarrow> sublist (toLower sub) (toLower s)"
proof (cases "length sub \<le> length s")
  case True
  then have "k < 0 + (length (toLower s) - length (toLower sub) + 1) \<longleftrightarrow>
      k + length (toLower sub) \<le> length (toLower s)" for k by auto
  with True show ?thesis
    by (simp only: containsIgnoreCase_def Let_def search_from_iff sublist_take_drop length_toLower)
      simp
next
  case False
  then show ?thesis
    by (auto simp: containsIgnoreCase_def dest: sublist_length_le)
qed

lemma text_bytes_bytes: "bytes (text_bytes s)"
  by (auto simp: bytes_def text_bytes_def of_char_def)

lemma uuid_bytes_bytes: "bytes (uuid_bytes u)"
  by (auto simp: bytes_def uuid_bytes_def)

lemma new_xid_wf: "bytes (GlobalTxnID (new_xid u now)) \<and> bytes (BranchQualID (new_xid u now))"
  by (simp add: new_xid_def text_bytes_bytes uuid_bytes_bytes)

section \<open>Properties\<close>

text \<open>
  C15: the text of a transaction identifier, under which resources file their state, determines
  the identifier: two identifiers with the same text have the same format, transaction and branch.
\<close>

theorem xid_text_inj:
  assumes "bytes (GlobalTxnID x)" and "bytes (BranchQualID x)"
    and "bytes (GlobalTxnID y)" and "bytes (BranchQualID y)"
    and "xid_text x = xid_text y"
  shows "FormatID x = FormatID y \<and> GlobalTxnID x = GlobalTxnID y \<and> BranchQualID x = BranchQualID y"
proof -
  have *: "show_int (FormatID x) @ CHR '','' # ''gtxn='' @ hex_bytes (GlobalTxnID x) @
        CHR '','' # ''bqual='' @ hex_bytes (BranchQualID x) @ ''}'' =
      show_int (FormatID y) @ CHR '','' # ''gtxn='' @ hex_bytes (GlobalTxnID y) @
        CHR '','' # ''bqual='' @ hex_bytes (BranchQualID y) @ ''}''"
    using assms(5) by (simp add: xid_text_def)
  then have f: "show_int (FormatID x) = show_int (FormatID y)"
    and r: "hex_bytes (GlobalTxnID x) @ CHR '','' # ''bqual='' @ hex_bytes (BranchQualID x) @ ''}'' =
      hex_bytes (GlobalTxnID y) @ CHR '','' # ''bqual='' @ hex_bytes (BranchQualID y) @ ''}''"
    by (auto simp: split_at_inj)
  from r have "hex_bytes (GlobalTxnID x) = hex_bytes (GlobalTxnID y)"
    and "hex_bytes (BranchQualID x) = hex_bytes (BranchQualID y)"
    by (auto simp: split_at_inj)
  with f assms(1-4) show ?thesis by (simp add: show_int_inj hex_bytes_inj)
qed

lemma xid_text_inj_witness:
  "FormatID (new_xid 7 5) = 1 \<and> GlobalTxnID (new_xid 7 5) = uuid_bytes 7"
  using xid_text_inj [of "new_xid 7 5" "new_xid 7 5"] new_xid_wf [of 7 5]
  by (simp add: new_xid_def)

text \<open>
  what \<open>containsError\<close> decides: a shorter pattern is searched for without regard to case, a
  pattern as long as the text has to be equal to it, case included. So the error text
  \<open>TIMEOUT\<close> alone is not classified as a timeout, while \<open>TIMEOUT!\<close> is.
\<close>

theorem containsError_iff:
  "(containsError s sub \<longleftrightarrow>
     s = sub \<or> sub = [] \<or> length sub \<noteq> length s \<and> sublist (toLower sub) (toLower s)) \<and>
   \<not> containsError ''TIMEOUT'' ''timeout'' \<and> containsError ''TIMEOUT!'' ''timeout''"
proof -
  have "containsError s sub \<longleftrightarrow>
      s = sub \<or> sub = [] \<or> length sub \<noteq> length s \<and> sublist (toLower sub) (toLower s)"
    using sublist_length_le [of "toLower sub" "toLower s"]
    by (auto simp: containsError_def containsIgnoreCase_sublist)
  moreover have "\<not> containsError ''TIMEOUT'' ''timeout''" by (simp add: containsError_def)
  moreover have "containsError ''TIMEOUT!'' ''timeout''" by code_simp
  ultimately show ?thesis by blast
qed

end
