(* ===== verification/XaManager.thy ===== *)
theory XaManager
  imports XaProtocol
begin

text \<open>
  The transaction manager of \<open>internal/accounts/transaction/xa_manager.go\<close>: transactions, the
  registry and the metrics, the prepare, commit and abort phases, and the operations built from
  them. A transaction object is named by its ID (a fresh UUID), so \<open>tm_heap\<close> holds the objects and
  \<open>tm_transactions\<close> is the set of IDs in the registry map. \<open>xt_mu\<close> says that the object's mutex is
  held: the mutex is not reentrant, so an operation that locks it again never returns, which is
  the result \<open>None\<close>. The resources act on the world \<open>'w\<close>.

  \<open>now\<close> is the clock during one call, \<open>elapsed\<close> the time the call took. A goroutine started by
  \<open>go tm.cleanup(txn)\<close> is an entry of \<open>tm_cleanups\<close> until \<open>cleanup\<close> runs it.
\<close>

section \<open>State\<close>

record 'w xa_txn =
  xt_ID :: uuid
  xt_XID :: XID
  xt_State :: XATransactionState
  xt_Resources :: "'w xa_resource list"
  xt_CreatedAt :: time
  xt_UpdatedAt :: time
  xt_TimeoutAt :: time
  xt_mu :: bool
  xt_prepared :: "string set"
  xt_committed :: "string set"
  xt_aborted :: "string set"
  xt_timeout_config :: "XATimeoutConfig option"

record xa_metrics =
  TotalTransactions :: int
  CommittedTransactions :: int
  AbortedTransactions :: int
  HeuristicOutcomes :: int
  RecoveryAttempts :: int
  AverageCommitTime :: duration

record 'w xa_manager =
  tm_heap :: "uuid \<rightharpoonup> 'w xa_txn"
  tm_transactions :: "uuid set"
  tm_defaultTimeout :: duration
  tm_maxRetries :: int
  tm_stopped :: bool
  tm_metrics :: xa_metrics
  tm_cleanups :: "uuid list"

definition NewXATransactionManager :: "duration \<Rightarrow> 'w xa_manager" where
  "NewXATransactionManager timeout =
     \<lparr>tm_heap = Map.empty, tm_transactions = {}, tm_defaultTimeout = timeout, tm_maxRetries = 3,
      tm_stopped = False,
      tm_metrics = \<lparr>TotalTransactions = 0, CommittedTransactions = 0, AbortedTransactions = 0,
        HeuristicOutcomes = 0, RecoveryAttempts = 0, AverageCommitTime = 0\<rparr>,
      tm_cleanups = []\<rparr>"

text \<open>What the phases work on: the locked transaction, the metrics, the goroutines, the world.\<close>

record 'w xa_run =
  r_txn :: "'w xa_txn"
  r_metrics :: xa_metrics
  r_cleanups :: "uuid list"
  r_world :: 'w

abbreviation set_state :: "XATransactionState \<Rightarrow> 'w xa_run \<Rightarrow> 'w xa_run" where
  "set_state st r \<equiv> r\<lparr>r_txn := r_txn r\<lparr>xt_State := st\<rparr>\<rparr>"

section \<open>Starting and enlisting\<close>

definition new_txn :: "uuid \<Rightarrow> time \<Rightarrow> duration \<Rightarrow> 'w xa_txn" where
  "new_txn txnID now timeout =
     \<lparr>xt_ID = txnID, xt_XID = new_xid txnID now, xt_State = XAStateActive, xt_Resources = [],
      xt_CreatedAt = now, xt_UpdatedAt = now, xt_TimeoutAt = now + timeout, xt_mu = False,
      xt_prepared = {}, xt_committed = {}, xt_aborted = {}, xt_timeout_config = None\<rparr>"

definition register_txn :: "'w xa_txn \<Rightarrow> 'w xa_manager \<Rightarrow> 'w xa_manager" where
  "register_txn t tm =
     tm\<lparr>tm_heap := (tm_heap tm)(xt_ID t \<mapsto> t),
        tm_transactions := insert (xt_ID t) (tm_transactions tm),
        tm_metrics := (tm_metrics tm)\<lparr>TotalTransactions := TotalTransactions (tm_metrics tm) + 1\<rparr>\<rparr>"

definition Start :: "uuid \<Rightarrow> time \<Rightarrow> duration \<Rightarrow> 'w xa_manager \<Rightarrow> uuid \<times> 'w xa_manager" where
  "Start txnID now timeout tm =
     (let timeout' = (if timeout = 0 then tm_defaultTimeout tm else timeout)
      in (txnID, register_txn (new_txn txnID now timeout') tm))"

text \<open>\<open>startDone\<close>: the start context was already done when it was polled.\<close>

definition StartWithTimeouts ::
    "bool \<Rightarrow> uuid \<Rightarrow> time \<Rightarrow> XATimeoutConfig option \<Rightarrow> 'w xa_manager \<Rightarrow>
     (go_error + uuid) \<times> 'w xa_manager" where
  "StartWithTimeouts startDone txnID now timeouts tm =
     (let cfg = (case timeouts of None \<Rightarrow> DefaultXATimeoutConfig | Some c \<Rightarrow> c);
          t = (new_txn txnID now (PrepareTimeout cfg + CommitTimeout cfg))\<lparr>xt_timeout_config := Some cfg\<rparr>
      in if startDone then
           (Inl (EnhancedXAException XAErrorRMFAIL XAErrorTypeTimeout ''Transaction start timeout''
              None txnID '''' ''start'' now 0), tm)
         else (Inr txnID, register_txn t tm))"

text \<open>An operation on a transaction object: load it, run, store it. A nil pointer never occurs:
  clients only hold objects of \<open>tm_heap\<close>; an unknown ID blocks, like a held mutex.\<close>

definition lock_txn :: "uuid \<Rightarrow> 'w xa_manager \<Rightarrow> 'w xa_txn option" where
  "lock_txn p tm =
     (case tm_heap tm p of None \<Rightarrow> None | Some t \<Rightarrow> (if xt_mu t then None else Some (t\<lparr>xt_mu := True\<rparr>)))"

definition unlock_txn :: "'w xa_txn \<Rightarrow> 'w xa_manager \<Rightarrow> 'w xa_manager" where
  "unlock_txn t tm = tm\<lparr>tm_heap := (tm_heap tm)(xt_ID t \<mapsto> t\<lparr>xt_mu := False\<rparr>)\<rparr>"

definition Enlist ::
    "time \<Rightarrow> uuid \<Rightarrow> 'w xa_resource \<Rightarrow> 'w xa_manager \<Rightarrow> (go_error option \<times> 'w xa_manager) option" where
  "Enlist now p res tm =
     (case lock_txn p tm of None \<Rightarrow> None
      | Some t \<Rightarrow> Some
         (if xt_State t \<noteq> XAStateActive then
            (Some (Errorf (''cannot enlist resource: transaction not active (state: '' @
               state_text (xt_State t) @ '')'')), unlock_txn t tm)
          else if \<exists>r \<in> set (xt_Resources t). res_name r = res_name res then
            (Some (Errorf (''resource '' @ res_name res @ '' already enlisted'')), unlock_txn t tm)
          else (None, unlock_txn (t\<lparr>xt_Resources := xt_Resources t @ [res], xt_UpdatedAt := now\<rparr>) tm)))"

section \<open>The phases\<close>

text \<open>The prepare loop over the resources, with the votes collected.\<close>

fun prepare_loop ::
    "'w xa_resource list \<Rightarrow> 'w xa_run \<Rightarrow> go_error option \<times> 'w xa_run" where
  "prepare_loop [] r = (None, r)"
| "prepare_loop (res # rs) r =
     (case res_Prepare res (xt_XID (r_txn r)) (r_world r) of
        ((_, Some e), w) \<Rightarrow> (Some e, r\<lparr>r_world := w\<rparr>)
      | ((False, None), w) \<Rightarrow>
          (Some (Errorf (''resource '' @ res_name res @ '' voted to abort'')), r\<lparr>r_world := w\<rparr>)
      | ((True, None), w) \<Rightarrow>
          prepare_loop rs (r\<lparr>r_world := w,
            r_txn := r_txn r\<lparr>xt_prepared := insert (res_name res) (xt_prepared (r_txn r))\<rparr>\<rparr>))"

definition prepare :: "time \<Rightarrow> 'w xa_run \<Rightarrow> go_error option \<times> 'w xa_run" where
  "prepare now r =
     (case xt_Resources (r_txn r) of
        [] \<Rightarrow> (None, set_state XAStateReadonly r)
      | [res] \<Rightarrow>
          (case res_Commit res (xt_XID (r_txn r)) True (r_world r) of
             (Some e, w) \<Rightarrow> (Some e, r\<lparr>r_world := w\<rparr>)
           | (None, w) \<Rightarrow> (None, r\<lparr>r_world := w,
               r_txn := r_txn r\<lparr>xt_State := XAStateCommitted,
                 xt_committed := insert (res_name res) (xt_committed (r_txn r))\<rparr>\<rparr>))
      | rs \<Rightarrow>
          (case prepare_loop rs r of
             (Some e, r') \<Rightarrow> (Some e, r')
           | (None, r') \<Rightarrow>
               (None, r'\<lparr>r_txn := r_txn r'\<lparr>xt_State := XAStatePrepared, xt_UpdatedAt := now\<rparr>\<rparr>)))"

text \<open>The commit loop goes on after a failure and collects the errors.\<close>

fun commit_loop ::
    "'w xa_resource list \<Rightarrow> 'w xa_run \<Rightarrow> go_error list \<times> 'w xa_run" where
  "commit_loop [] r = ([], r)"
| "commit_loop (res # rs) r =
     (case res_Commit res (xt_XID (r_txn r)) False (r_world r) of
        (Some e, w) \<Rightarrow> (let (es, r') = commit_loop rs (r\<lparr>r_world := w\<rparr>) in (e # es, r'))
      | (None, w) \<Rightarrow> commit_loop rs (r\<lparr>r_world := w,
          r_txn := r_txn r\<lparr>xt_committed := insert (res_name res) (xt_committed (r_txn r))\<rparr>\<rparr>))"

definition count_committed :: "'w xa_run \<Rightarrow> 'w xa_run" where
  "count_committed r = r\<lparr>r_metrics := (r_metrics r)
     \<lparr>CommittedTransactions := CommittedTransactions (r_metrics r) + 1\<rparr>\<rparr>"

definition count_aborted :: "'w xa_run \<Rightarrow> 'w xa_run" where
  "count_aborted r = r\<lparr>r_metrics := (r_metrics r)
     \<lparr>AbortedTransactions := AbortedTransactions (r_metrics r) + 1\<rparr>\<rparr>"

definition count_heuristic :: "'w xa_run \<Rightarrow> 'w xa_run" where
  "count_heuristic r = r\<lparr>r_metrics := (r_metrics r)
     \<lparr>HeuristicOutcomes := HeuristicOutcomes (r_metrics r) + 1\<rparr>\<rparr>"

definition spawn_cleanup :: "'w xa_run \<Rightarrow> 'w xa_run" where
  "spawn_cleanup r = r\<lparr>r_cleanups := r_cleanups r @ [xt_ID (r_txn r)]\<rparr>"

definition finish :: "XATransactionState \<Rightarrow> time \<Rightarrow> 'w xa_run \<Rightarrow> 'w xa_run" where
  "finish st now r = r\<lparr>r_txn := r_txn r\<lparr>xt_State := st, xt_UpdatedAt := now\<rparr>\<rparr>"

definition commit :: "time \<Rightarrow> 'w xa_run \<Rightarrow> go_error option \<times> 'w xa_run" where
  "commit now r =
     (if xt_State (r_txn r) = XAStateReadonly then (None, set_state XAStateCommitted r)
      else if xt_State (r_txn r) = XAStateCommitted then (None, count_committed r)
      else (let (errs, r') = commit_loop (xt_Resources (r_txn r)) r
            in if 0 < length errs then
                 (Some (Errorf (''heuristic commit: '' @ show_nat (length errs) @ '' errors occurred'')),
                  count_heuristic (set_state XAStateHeurCommit r'))
               else (None, spawn_cleanup (count_committed (finish XAStateCommitted now r')))))"

fun rollback_loop ::
    "'w xa_resource list \<Rightarrow> 'w xa_run \<Rightarrow> go_error list \<times> 'w xa_run" where
  "rollback_loop [] r = ([], r)"
| "rollback_loop (res # rs) r =
     (case res_Rollback res (xt_XID (r_txn r)) (r_world r) of
        (Some e, w) \<Rightarrow> (let (es, r') = rollback_loop rs (r\<lparr>r_world := w\<rparr>) in (e # es, r'))
      | (None, w) \<Rightarrow> rollback_loop rs (r\<lparr>r_world := w,
          r_txn := r_txn r\<lparr>xt_aborted := insert (res_name res) (xt_aborted (r_txn r))\<rparr>\<rparr>))"

text \<open>\<open>abort\<close> only logs the reason it is given.\<close>

definition abort :: "time \<Rightarrow> 'w xa_run \<Rightarrow> go_error option \<times> 'w xa_run" where
  "abort now r =
     (let (errs, r') = rollback_loop (xt_Resources (r_txn r)) r
      in if 0 < length errs then
           (Some (Errorf (''heuristic abort: '' @ show_nat (length errs) @ '' errors occurred'')),
            count_heuristic (set_state XAStateHeurAbort r'))
         else (None, spawn_cleanup (count_aborted (finish XAStateAborted now r'))))"

section \<open>Commit and Abort\<close>

definition begin_run :: "'w xa_txn \<Rightarrow> 'w xa_manager \<Rightarrow> 'w \<Rightarrow> 'w xa_run" where
  "begin_run t tm w = \<lparr>r_txn = t, r_metrics = tm_metrics tm, r_cleanups = tm_cleanups tm, r_world = w\<rparr>"

text \<open>What the phases have changed becomes visible; the mutex stays as it is in \<open>r_txn\<close>.\<close>

definition store_run :: "'w xa_run \<Rightarrow> 'w xa_manager \<Rightarrow> 'w xa_manager" where
  "store_run r tm = tm\<lparr>tm_heap := (tm_heap tm)(xt_ID (r_txn r) \<mapsto> r_txn r),
     tm_metrics := r_metrics r, tm_cleanups := r_cleanups r\<rparr>"

definition end_run :: "'w xa_run \<Rightarrow> 'w xa_manager \<Rightarrow> 'w xa_manager" where
  "end_run r tm = store_run (r\<lparr>r_txn := r_txn r\<lparr>xt_mu := False\<rparr>\<rparr>) tm"

definition set_commit_time :: "duration \<Rightarrow> 'w xa_manager \<Rightarrow> 'w xa_manager" where
  "set_commit_time elapsed tm = tm\<lparr>tm_metrics := (tm_metrics tm)\<lparr>AverageCommitTime := elapsed\<rparr>\<rparr>"

text \<open>The body of \<open>Commit\<close> under the lock.\<close>

definition commit_body :: "time \<Rightarrow> 'w xa_run \<Rightarrow> go_error option \<times> 'w xa_run" where
  "commit_body now r =
     (if xt_State (r_txn r) \<noteq> XAStateActive then
        (Some (Errorf (''cannot commit: transaction not active (state: '' @
           state_text (xt_State (r_txn r)) @ '')'')), r)
      else if xt_TimeoutAt (r_txn r) < now then abort now r
      else case prepare now r of
          (Some e, r') \<Rightarrow> abort now r'
        | (None, r') \<Rightarrow> commit now r')"

definition Commit ::
    "time \<Rightarrow> duration \<Rightarrow> uuid \<Rightarrow> 'w xa_manager \<Rightarrow> 'w \<Rightarrow>
     (go_error option \<times> 'w xa_manager \<times> 'w) option" where
  "Commit now elapsed p tm w =
     (case lock_txn p tm of None \<Rightarrow> None
      | Some t \<Rightarrow>
          (let (err, r) = commit_body now (begin_run t tm w)
           in Some (err, set_commit_time elapsed (end_run r tm), r_world r)))"

definition Abort ::
    "time \<Rightarrow> uuid \<Rightarrow> 'w xa_manager \<Rightarrow> 'w \<Rightarrow> (go_error option \<times> 'w xa_manager \<times> 'w) option" where
  "Abort now p tm w =
     (case lock_txn p tm of None \<Rightarrow> None
      | Some t \<Rightarrow>
          (let (err, r) = abort now (begin_run t tm w)
           in Some (err, end_run r tm, r_world r)))"

text \<open>The goroutine \<open>cleanup\<close>, once its five seconds are over.\<close>

definition cleanup :: "uuid \<Rightarrow> 'w xa_manager \<Rightarrow> 'w xa_manager" where
  "cleanup p tm =
     (if p \<in> set (tm_cleanups tm) then
        tm\<lparr>tm_transactions := tm_transactions tm - {p}, tm_cleanups := remove1 p (tm_cleanups tm)\<rparr>
      else tm)"

definition GetTransaction :: "uuid \<Rightarrow> 'w xa_manager \<Rightarrow> 'w xa_txn option" where
  "GetTransaction p tm = (if p \<in> tm_transactions tm then tm_heap tm p else None)"

definition GetMetrics :: "'w xa_manager \<Rightarrow> xa_metrics" where
  "GetMetrics tm = tm_metrics tm"

section \<open>Recovery and shutdown\<close>

text \<open>
  One round of the loops of \<open>performRecovery\<close> and \<open>Stop\<close>: read the state under the read lock
  (which waits for a held mutex), abort if the test says so, drop the error.
\<close>

definition abort_if ::
    "('w xa_txn \<Rightarrow> bool) \<Rightarrow> time \<Rightarrow> uuid \<Rightarrow> 'w xa_manager \<Rightarrow> 'w \<Rightarrow> ('w xa_manager \<times> 'w) option" where
  "abort_if test now p tm w =
     (case lock_txn p tm of None \<Rightarrow> None
      | Some t \<Rightarrow>
          (if test t then map_option snd (Abort now p tm w) else Some (tm, w)))"

fun abort_each ::
    "('w xa_txn \<Rightarrow> time \<Rightarrow> bool) \<Rightarrow> (uuid \<Rightarrow> time) \<Rightarrow> uuid list \<Rightarrow> 'w xa_manager \<Rightarrow> 'w \<Rightarrow>
     ('w xa_manager \<times> 'w) option" where
  "abort_each test clock [] tm w = Some (tm, w)"
| "abort_each test clock (p # ps) tm w =
     (case abort_if (\<lambda>t. test t (clock p)) (clock p) p tm w of
        None \<Rightarrow> None
      | Some (tm', w') \<Rightarrow> abort_each test clock ps tm' w')"

definition recoverable :: "'w xa_txn \<Rightarrow> bool" where
  "recoverable t \<longleftrightarrow> xt_State t = XAStateActive \<or> xt_State t = XAStatePrepared"

text \<open>\<open>ps\<close> is the order in which the registry map is ranged over.\<close>

definition performRecovery ::
    "(uuid \<Rightarrow> time) \<Rightarrow> uuid list \<Rightarrow> 'w xa_manager \<Rightarrow> 'w \<Rightarrow> ('w xa_manager \<times> 'w) option" where
  "performRecovery clock ps tm w =
     (case abort_each (\<lambda>t now. xt_TimeoutAt t < now \<and> recoverable t) clock ps tm w of
        None \<Rightarrow> None
      | Some (tm', w') \<Rightarrow> Some (tm'\<lparr>tm_metrics := (tm_metrics tm')
          \<lparr>RecoveryAttempts := RecoveryAttempts (tm_metrics tm') + 1\<rparr>\<rparr>, w'))"

text \<open>Closing \<open>stopChan\<close> a second time panics.\<close>

definition Stop ::
    "(uuid \<Rightarrow> time) \<Rightarrow> uuid list \<Rightarrow> 'w xa_manager \<Rightarrow> 'w \<Rightarrow> ('w xa_manager \<times> 'w) outcome" where
  "Stop clock ps tm w =
     (if tm_stopped tm then Panics
      else case abort_each (\<lambda>t now. recoverable t) clock ps (tm\<lparr>tm_stopped := True\<rparr>) w of
          None \<Rightarrow> Blocks
        | Some x \<Rightarrow> Returns x)"

section \<open>Commit with retries\<close>

text \<open>\<open>done i\<close>: the phase's context is done when it is polled before the \<open>i\<close>-th resource.\<close>

fun prepare_timed_loop ::
    "(nat \<Rightarrow> bool) \<Rightarrow> time \<Rightarrow> nat \<Rightarrow> 'w xa_resource list \<Rightarrow> 'w xa_run \<Rightarrow> go_error option \<times> 'w xa_run" where
  "prepare_timed_loop ended now i [] r = (None, r)"
| "prepare_timed_loop ended now i (res # rs) r =
     (if ended i then
        (Some (EnhancedXAException XAErrorRB_ROLLBACK XAErrorTypeTimeout ''Prepare phase timeout'' None
           (xt_ID (r_txn r)) (res_name res) ''prepare'' now 0), r)
      else case res_Prepare res (xt_XID (r_txn r)) (r_world r) of
        ((_, Some e), w) \<Rightarrow>
          (Some (EnhancedXAException XAErrorRMFAIL XAErrorTypeResource ''Resource prepare failed''
             (Some e) (xt_ID (r_txn r)) (res_name res) ''prepare'' now 0), r\<lparr>r_world := w\<rparr>)
      | ((False, None), w) \<Rightarrow>
          (Some (EnhancedXAException XAErrorRB_ROLLBACK XAErrorTypeValidation
             (''Resource '' @ res_name res @ '' voted to abort'') None
             (xt_ID (r_txn r)) (res_name res) ''prepare'' now 0), r\<lparr>r_world := w\<rparr>)
      | ((True, None), w) \<Rightarrow>
          prepare_timed_loop ended now (Suc i) rs (r\<lparr>r_world := w,
            r_txn := r_txn r\<lparr>xt_prepared := insert (res_name res) (xt_prepared (r_txn r))\<rparr>\<rparr>))"

definition prepareWithTimeout ::
    "(nat \<Rightarrow> bool) \<Rightarrow> time \<Rightarrow> 'w xa_run \<Rightarrow> go_error option \<times> 'w xa_run" where
  "prepareWithTimeout ended now r =
     (case xt_Resources (r_txn r) of
        [] \<Rightarrow> (None, set_state XAStateReadonly r)
      | [res] \<Rightarrow>
          (if ended 0 then
             (Some (EnhancedXAException XAErrorRB_ROLLBACK XAErrorTypeTimeout ''One-phase commit timeout''
                None (xt_ID (r_txn r)) (res_name res) ''one-phase-commit'' now 0), r)
           else case res_Commit res (xt_XID (r_txn r)) True (r_world r) of
             (Some e, w) \<Rightarrow>
               (Some (EnhancedXAException XAErrorRMFAIL XAErrorTypeResource ''One-phase commit failed''
                  (Some e) (xt_ID (r_txn r)) (res_name res) ''one-phase-commit'' now 0), r\<lparr>r_world := w\<rparr>)
           | (None, w) \<Rightarrow> (None, r\<lparr>r_world := w,
               r_txn := r_txn r\<lparr>xt_State := XAStateCommitted,
                 xt_committed := insert (res_name res) (xt_committed (r_txn r))\<rparr>\<rparr>))
      | rs \<Rightarrow>
          (case prepare_timed_loop ended now 0 rs r of
             (Some e, r') \<Rightarrow> (Some e, r')
           | (None, r') \<Rightarrow>
               (None, r'\<lparr>r_txn := r_txn r'\<lparr>xt_State := XAStatePrepared, xt_UpdatedAt := now\<rparr>\<rparr>)))"

fun commit_timed_loop ::
    "(nat \<Rightarrow> bool) \<Rightarrow> time \<Rightarrow> nat \<Rightarrow> 'w xa_resource list \<Rightarrow> 'w xa_run \<Rightarrow> go_error list \<times> 'w xa_run" where
  "commit_timed_loop ended now i [] r = ([], r)"
| "commit_timed_loop ended now i (res # rs) r =
     (if ended i then
        (let (es, r') = commit_timed_loop ended now (Suc i) rs r
         in (EnhancedXAException XAErrorRMFAIL XAErrorTypeTimeout ''Commit phase timeout'' None
               (xt_ID (r_txn r)) (res_name res) ''commit'' now 0 # es, r'))
      else case res_Commit res (xt_XID (r_txn r)) False (r_world r) of
        (Some e, w) \<Rightarrow>
          (let (es, r') = commit_timed_loop ended now (Suc i) rs (r\<lparr>r_world := w\<rparr>)
           in (EnhancedXAException XAErrorRMFAIL XAErrorTypeResource ''Resource commit failed'' (Some e)
                 (xt_ID (r_txn r)) (res_name res) ''commit'' now 0 # es, r'))
      | (None, w) \<Rightarrow> commit_timed_loop ended now (Suc i) rs (r\<lparr>r_world := w,
          r_txn := r_txn r\<lparr>xt_committed := insert (res_name res) (xt_committed (r_txn r))\<rparr>\<rparr>))"

definition commitWithTimeout ::
    "(nat \<Rightarrow> bool) \<Rightarrow> time \<Rightarrow> 'w xa_run \<Rightarrow> go_error option \<times> 'w xa_run" where
  "commitWithTimeout ended now r =
     (if xt_State (r_txn r) = XAStateReadonly then (None, set_state XAStateCommitted r)
      else if xt_State (r_txn r) = XAStateCommitted then (None, count_committed r)
      else (let (errs, r') = commit_timed_loop ended now 0 (xt_Resources (r_txn r)) r
            in if 0 < length errs then
                 (Some (EnhancedXAException XAErrorRMFAIL XAErrorTypeHeuristic
                    (''Heuristic commit: '' @ show_nat (length errs) @ '' errors occurred'')
                    (Some (errs ! 0)) (xt_ID (r_txn r)) [] ''commit'' now 0),
                  count_heuristic (set_state XAStateHeurCommit r'))
               else (None, spawn_cleanup (count_committed (finish XAStateCommitted now r')))))"

text \<open>\<open>abortWithReason\<close> goes through the exported \<open>Abort\<close>, which takes the mutex.\<close>

definition abortWithReason ::
    "time \<Rightarrow> uuid \<Rightarrow> go_error \<Rightarrow> 'w xa_manager \<Rightarrow> 'w \<Rightarrow> (go_error option \<times> 'w xa_manager \<times> 'w) option" where
  "abortWithReason now p reason tm w =
     (case Abort now p tm w of None \<Rightarrow> None
      | Some (Some e, tm', w') \<Rightarrow>
          Some (Some (EnhancedXAException XAErrorRMFAIL XAErrorTypeResource
            ''Failed to abort transaction'' (Some e) p [] ''abort'' now 0), tm', w')
      | Some (None, tm', w') \<Rightarrow> Some (Some reason, tm', w'))"

text \<open>What one call of \<open>CommitWithRetry\<close> reads from outside: \<open>uuid.String\<close>, the polls of the prepare
  and the commit context of each attempt, the clock at each attempt.\<close>

record retry_env =
  env_ustr :: "uuid \<Rightarrow> string"
  env_pdone :: "nat \<Rightarrow> nat \<Rightarrow> bool"
  env_cdone :: "nat \<Rightarrow> nat \<Rightarrow> bool"
  env_clock :: "nat \<Rightarrow> time"

text \<open>The attempts from \<open>attempt\<close> on, \<open>n\<close> of them left.\<close>

fun retry_loop ::
    "retry_env \<Rightarrow> int \<Rightarrow> nat \<Rightarrow> nat \<Rightarrow> go_error option \<Rightarrow> 'w xa_manager \<Rightarrow> 'w xa_run \<Rightarrow>
     (go_error option \<times> 'w xa_manager \<times> 'w) option" where
  "retry_loop env maxRetries attempt 0 lastErr tm r =
     Some (Some (EnhancedXAException XAErrorRMFAIL XAErrorTypeResource
       (''Failed to commit after '' @ show_int (maxRetries + 1) @ '' attempts'') lastErr
       (xt_ID (r_txn r)) [] ''commit'' (env_clock env attempt) (maxRetries + 1)),
       end_run r tm, r_world r)"
| "retry_loop env maxRetries attempt (Suc n) lastErr tm r =
     (case prepareWithTimeout (env_pdone env attempt) (env_clock env attempt) r of
        (Some e, r') \<Rightarrow>
          (if \<not> isRetryableXAError (env_ustr env) e then
             abortWithReason (env_clock env attempt) (xt_ID (r_txn r')) e (store_run r' tm) (r_world r')
           else retry_loop env maxRetries (Suc attempt) n (Some e) tm r')
      | (None, r') \<Rightarrow>
          (case commitWithTimeout (env_cdone env attempt) (env_clock env attempt) r' of
             (Some e, r'') \<Rightarrow>
               (if \<not> isRetryableXAError (env_ustr env) e then Some (Some e, end_run r'' tm, r_world r'')
                else retry_loop env maxRetries (Suc attempt) n (Some e) tm r'')
           | (None, r'') \<Rightarrow> Some (None, end_run r'' tm, r_world r'')))"

definition CommitWithRetry ::
    "retry_env \<Rightarrow> time \<Rightarrow> duration \<Rightarrow> uuid \<Rightarrow> int \<Rightarrow> 'w xa_manager \<Rightarrow> 'w \<Rightarrow>
     (go_error option \<times> 'w xa_manager \<times> 'w) option" where
  "CommitWithRetry env now elapsed p maxRetries tm w =
     map_option (\<lambda>(err, tm', w'). (err, set_commit_time elapsed tm', w'))
     (case lock_txn p tm of None \<Rightarrow> None
      | Some t \<Rightarrow>
          (if xt_State t \<noteq> XAStateActive then
             Some (Some (EnhancedXAException XAErrorXAER_PROTO XAErrorTypeProtocol
               (''cannot commit: transaction not active (state: '' @ state_text (xt_State t) @ '')'')
               None (xt_ID t) [] ''commit'' now 0), unlock_txn t tm, w)
           else if xt_TimeoutAt t < now then
             abortWithReason now p (EnhancedXAException XAErrorRB_ROLLBACK XAErrorTypeTimeout
               ''Transaction timeout'' None (xt_ID t) [] ''commit'' now 0)
               (store_run (begin_run t tm w) tm) w
           else retry_loop env maxRetries 0 (nat (maxRetries + 1)) None tm (begin_run t tm w)))"

section \<open>What the phases keep\<close>

abbreviation res_names :: "'w xa_txn \<Rightarrow> string set" where
  "res_names t \<equiv> res_name ` set (xt_Resources t)"

text \<open>Every enlisted resource is in the book.\<close>

definition in_book :: "'w xa_txn \<Rightarrow> string set \<Rightarrow> bool" where
  "in_book t book \<longleftrightarrow> res_names t \<subseteq> book"

lemma in_book_cong [simp]:
  "in_book (t\<lparr>xt_State := st\<rparr>) b = in_book t b" "in_book (t\<lparr>xt_UpdatedAt := n\<rparr>) b = in_book t b"
  "in_book (t\<lparr>xt_mu := m\<rparr>) b = in_book t b" "in_book (t\<lparr>xt_committed := c\<rparr>) b = in_book t b"
  by (simp_all add: in_book_def)

lemma in_book_nil: "xt_Resources t = [] \<Longrightarrow> in_book t b"
  by (simp add: in_book_def)

text \<open>A transaction that no call holds: which states it can be in, and what its books say there.\<close>

definition txn_sets :: "'w xa_txn \<Rightarrow> bool" where
  "txn_sets t \<longleftrightarrow> distinct (map res_name (xt_Resources t)) \<and>
     xt_prepared t \<subseteq> res_names t \<and> xt_committed t \<subseteq> res_names t \<and> xt_aborted t \<subseteq> res_names t"

definition txn_rest :: "'w xa_txn \<Rightarrow> bool" where
  "txn_rest t \<longleftrightarrow>
     xt_State t \<in> {XAStateActive, XAStateCommitted, XAStateAborted, XAStateHeurCommit, XAStateHeurAbort} \<and>
     (xt_State t = XAStateCommitted \<longrightarrow> in_book t (xt_committed t)) \<and>
     (xt_State t = XAStateAborted \<longrightarrow> in_book t (xt_aborted t))"

lemma txn_sets_cong [simp]:
  "txn_sets (t\<lparr>xt_State := st\<rparr>) = txn_sets t" "txn_sets (t\<lparr>xt_UpdatedAt := n\<rparr>) = txn_sets t"
  "txn_sets (t\<lparr>xt_mu := m\<rparr>) = txn_sets t"
  by (simp_all add: txn_sets_def)

text \<open>What every phase keeps of the run it works on.\<close>

definition run_step :: "'w xa_run \<Rightarrow> 'w xa_run \<Rightarrow> bool" where
  "run_step r r' \<longleftrightarrow>
     xt_ID (r_txn r') = xt_ID (r_txn r) \<and> xt_XID (r_txn r') = xt_XID (r_txn r) \<and>
     xt_mu (r_txn r') = xt_mu (r_txn r) \<and> xt_Resources (r_txn r') = xt_Resources (r_txn r) \<and>
     xt_TimeoutAt (r_txn r') = xt_TimeoutAt (r_txn r) \<and>
     (txn_sets (r_txn r) \<longrightarrow> txn_sets (r_txn r')) \<and>
     (xt_State (r_txn r) \<noteq> XAStateActive \<longrightarrow> xt_State (r_txn r') \<noteq> XAStateActive) \<and>
     (\<exists>n. r_cleanups r' = r_cleanups r @ replicate n (xt_ID (r_txn r)) \<and>
          (0 < n \<longrightarrow> xt_State (r_txn r') \<noteq> XAStateActive))"

lemma run_step_refl [simp]: "run_step r r"
  by (auto simp: run_step_def intro: exI [of _ 0])

lemma run_step_trans: "run_step r1 r2 \<Longrightarrow> run_step r2 r3 \<Longrightarrow> run_step r1 r3"
proof -
  assume a: "run_step r1 r2" and b: "run_step r2 r3"
  from a obtain n where n: "r_cleanups r2 = r_cleanups r1 @ replicate n (xt_ID (r_txn r1))"
      "0 < n \<longrightarrow> xt_State (r_txn r2) \<noteq> XAStateActive"
    by (auto simp: run_step_def)
  from a b obtain m where m: "r_cleanups r3 = r_cleanups r2 @ replicate m (xt_ID (r_txn r1))"
      "0 < m \<longrightarrow> xt_State (r_txn r3) \<noteq> XAStateActive"
    by (auto simp: run_step_def)
  have "r_cleanups r3 = r_cleanups r1 @ replicate (n + m) (xt_ID (r_txn r1)) \<and>
      (0 < n + m \<longrightarrow> xt_State (r_txn r3) \<noteq> XAStateActive)"
    using n m b by (auto simp: run_step_def replicate_add)
  with a b show ?thesis by (auto simp: run_step_def)
qed

text \<open>The loops change the world and one of the books.\<close>

definition loop_frame :: "'w xa_run \<Rightarrow> 'w xa_run \<Rightarrow> bool" where
  "loop_frame r r' \<longleftrightarrow> r_metrics r' = r_metrics r \<and> r_cleanups r' = r_cleanups r \<and>
     xt_ID (r_txn r') = xt_ID (r_txn r) \<and> xt_XID (r_txn r') = xt_XID (r_txn r) \<and>
     xt_State (r_txn r') = xt_State (r_txn r) \<and> xt_Resources (r_txn r') = xt_Resources (r_txn r) \<and>
     xt_TimeoutAt (r_txn r') = xt_TimeoutAt (r_txn r) \<and> xt_mu (r_txn r') = xt_mu (r_txn r)"

abbreviation grows :: "('w xa_txn \<Rightarrow> string set) \<Rightarrow> 'w xa_resource list \<Rightarrow> 'w xa_run \<Rightarrow> 'w xa_run \<Rightarrow> bool" where
  "grows book rs r r' \<equiv> book (r_txn r) \<subseteq> book (r_txn r') \<and>
     book (r_txn r') \<subseteq> book (r_txn r) \<union> res_name ` set rs"

lemma prepare_loop_frame:
  "loop_frame r (snd (prepare_loop rs r)) \<and> grows xt_prepared rs r (snd (prepare_loop rs r)) \<and>
   xt_committed (r_txn (snd (prepare_loop rs r))) = xt_committed (r_txn r) \<and>
   xt_aborted (r_txn (snd (prepare_loop rs r))) = xt_aborted (r_txn r)"
  by (induction rs r rule: prepare_loop.induct)
    (auto simp: loop_frame_def split: prod.splits option.splits bool.splits)

lemma prepare_timed_loop_frame:
  "loop_frame r (snd (prepare_timed_loop ended now i rs r)) \<and>
   grows xt_prepared rs r (snd (prepare_timed_loop ended now i rs r)) \<and>
   xt_committed (r_txn (snd (prepare_timed_loop ended now i rs r))) = xt_committed (r_txn r) \<and>
   xt_aborted (r_txn (snd (prepare_timed_loop ended now i rs r))) = xt_aborted (r_txn r)"
  by (induction ended now i rs r rule: prepare_timed_loop.induct)
    (auto simp: loop_frame_def split: prod.splits option.splits bool.splits)

lemma commit_loop_frame:
  "loop_frame r (snd (commit_loop rs r)) \<and> grows xt_committed rs r (snd (commit_loop rs r)) \<and>
   xt_prepared (r_txn (snd (commit_loop rs r))) = xt_prepared (r_txn r) \<and>
   xt_aborted (r_txn (snd (commit_loop rs r))) = xt_aborted (r_txn r)"
  by (induction rs r rule: commit_loop.induct)
    (auto simp: loop_frame_def split: prod.splits option.splits)

lemma commit_loop_all:
  "fst (commit_loop rs r) = [] \<Longrightarrow> res_name ` set rs \<subseteq> xt_committed (r_txn (snd (commit_loop rs r)))"
proof (induction rs r rule: commit_loop.induct)
  case (2 res rs r)
  obtain ee w where p: "res_Commit res (xt_XID (r_txn r)) False (r_world r) = (ee, w)"
    by (metis surj_pair)
  let ?r = "r\<lparr>r_world := w, r_txn := r_txn r\<lparr>xt_committed := insert (res_name res) (xt_committed (r_txn r))\<rparr>\<rparr>"
  have "ee = None" using 2(3) p by (auto split: option.splits prod.splits)
  with 2 p commit_loop_frame [of ?r rs] show ?case by auto
qed simp

lemma commit_timed_loop_frame:
  "loop_frame r (snd (commit_timed_loop ended now i rs r)) \<and>
   grows xt_committed rs r (snd (commit_timed_loop ended now i rs r)) \<and>
   xt_prepared (r_txn (snd (commit_timed_loop ended now i rs r))) = xt_prepared (r_txn r) \<and>
   xt_aborted (r_txn (snd (commit_timed_loop ended now i rs r))) = xt_aborted (r_txn r)"
  by (induction ended now i rs r rule: commit_timed_loop.induct)
    (auto simp: loop_frame_def split: prod.splits option.splits)

lemma commit_timed_loop_all:
  "fst (commit_timed_loop ended now i rs r) = [] \<Longrightarrow>
   res_name ` set rs \<subseteq> xt_committed (r_txn (snd (commit_timed_loop ended now i rs r)))"
proof (induction ended now i rs r rule: commit_timed_loop.induct)
  case (2 ended now i res rs r)
  obtain ee w where p: "res_Commit res (xt_XID (r_txn r)) False (r_world r) = (ee, w)"
    by (metis surj_pair)
  let ?r = "r\<lparr>r_world := w, r_txn := r_txn r\<lparr>xt_committed := insert (res_name res) (xt_committed (r_txn r))\<rparr>\<rparr>"
  have "ee = None" "\<not> ended i" using 2(4) p by (auto split: option.splits prod.splits if_splits)
  with 2 p commit_timed_loop_frame [of ?r ended now "Suc i" rs] show ?case by auto
qed simp

lemma rollback_loop_frame:
  "loop_frame r (snd (rollback_loop rs r)) \<and> grows xt_aborted rs r (snd (rollback_loop rs r)) \<and>
   xt_prepared (r_txn (snd (rollback_loop rs r))) = xt_prepared (r_txn r) \<and>
   xt_committed (r_txn (snd (rollback_loop rs r))) = xt_committed (r_txn r)"
  by (induction rs r rule: rollback_loop.induct)
    (auto simp: loop_frame_def split: prod.splits option.splits)

lemma rollback_loop_all:
  "fst (rollback_loop rs r) = [] \<Longrightarrow> res_name ` set rs \<subseteq> xt_aborted (r_txn (snd (rollback_loop rs r)))"
proof (induction rs r rule: rollback_loop.induct)
  case (2 res rs r)
  obtain ee w where p: "res_Rollback res (xt_XID (r_txn r)) (r_world r) = (ee, w)"
    by (metis surj_pair)
  let ?r = "r\<lparr>r_world := w, r_txn := r_txn r\<lparr>xt_aborted := insert (res_name res) (xt_aborted (r_txn r))\<rparr>\<rparr>"
  have "ee = None" using 2(3) p by (auto split: option.splits prod.splits)
  with 2 p rollback_loop_frame [of ?r rs] show ?case by auto
qed simp

text \<open>The loops over all resources of the transaction keep the books within the enlisted names.\<close>

lemma grows_sets:
  assumes "loop_frame r r'" and "txn_sets (r_txn r)"
    and "grows xt_prepared (xt_Resources (r_txn r)) r r'"
    and "grows xt_committed (xt_Resources (r_txn r)) r r'"
    and "grows xt_aborted (xt_Resources (r_txn r)) r r'"
  shows "txn_sets (r_txn r')"
  using assms unfolding loop_frame_def txn_sets_def by simp blast

lemma prepare_loop_sets:
  "txn_sets (r_txn r) \<Longrightarrow> txn_sets (r_txn (snd (prepare_loop (xt_Resources (r_txn r)) r)))"
  by (rule grows_sets [of r]) (use prepare_loop_frame [of r "xt_Resources (r_txn r)"] in simp_all)

lemma prepare_timed_loop_sets:
  "txn_sets (r_txn r) \<Longrightarrow>
   txn_sets (r_txn (snd (prepare_timed_loop ended now i (xt_Resources (r_txn r)) r)))"
  by (rule grows_sets [of r])
    (use prepare_timed_loop_frame [of r ended now i "xt_Resources (r_txn r)"] in simp_all)

lemma commit_loop_sets:
  "txn_sets (r_txn r) \<Longrightarrow> txn_sets (r_txn (snd (commit_loop (xt_Resources (r_txn r)) r)))"
  by (rule grows_sets [of r]) (use commit_loop_frame [of r "xt_Resources (r_txn r)"] in simp_all)

lemma commit_timed_loop_sets:
  "txn_sets (r_txn r) \<Longrightarrow>
   txn_sets (r_txn (snd (commit_timed_loop ended now i (xt_Resources (r_txn r)) r)))"
  by (rule grows_sets [of r])
    (use commit_timed_loop_frame [of r ended now i "xt_Resources (r_txn r)"] in simp_all)

lemma rollback_loop_sets:
  "txn_sets (r_txn r) \<Longrightarrow> txn_sets (r_txn (snd (rollback_loop (xt_Resources (r_txn r)) r)))"
  by (rule grows_sets [of r]) (use rollback_loop_frame [of r "xt_Resources (r_txn r)"] in simp_all)

lemmas loop_sets = prepare_loop_sets prepare_timed_loop_sets commit_loop_sets
  commit_timed_loop_sets rollback_loop_sets

lemma loop_all:
  "fst (commit_loop (xt_Resources (r_txn r)) r) = [] \<Longrightarrow>
   in_book (r_txn r) (xt_committed (r_txn (snd (commit_loop (xt_Resources (r_txn r)) r))))"
  "fst (commit_timed_loop ended now i (xt_Resources (r_txn r)) r) = [] \<Longrightarrow>
   in_book (r_txn r) (xt_committed (r_txn (snd (commit_timed_loop ended now i (xt_Resources (r_txn r)) r))))"
  "fst (rollback_loop (xt_Resources (r_txn r)) r) = [] \<Longrightarrow>
   in_book (r_txn r) (xt_aborted (r_txn (snd (rollback_loop (xt_Resources (r_txn r)) r))))"
  unfolding in_book_def by (rule commit_loop_all commit_timed_loop_all rollback_loop_all; assumption)+

lemma loop_frames:
  "loop_frame r (snd (prepare_loop rs r))" "loop_frame r (snd (prepare_timed_loop ended now i rs r))"
  "loop_frame r (snd (commit_loop rs r))" "loop_frame r (snd (commit_timed_loop ended now i rs r))"
  "loop_frame r (snd (rollback_loop rs r))"
  using prepare_loop_frame [of r rs] prepare_timed_loop_frame [of r ended now i rs]
    commit_loop_frame [of r rs] commit_timed_loop_frame [of r ended now i rs]
    rollback_loop_frame [of r rs]
  by blast+

lemma in_book_frame: "loop_frame r r' \<Longrightarrow> in_book (r_txn r') b = in_book (r_txn r) b"
  by (simp add: loop_frame_def in_book_def)

definition outcome_count :: "xa_metrics \<Rightarrow> int" where
  "outcome_count m = CommittedTransactions m + AbortedTransactions m + HeuristicOutcomes m"

lemmas run_simps = count_committed_def count_aborted_def count_heuristic_def spawn_cleanup_def
  finish_def outcome_count_def

definition commit_ready :: "'w xa_txn \<Rightarrow> bool" where
  "commit_ready t \<longleftrightarrow> xt_State t \<in> {XAStateReadonly, XAStateCommitted, XAStatePrepared} \<and>
     (xt_State t = XAStateReadonly \<longrightarrow> xt_Resources t = []) \<and>
     (xt_State t = XAStateCommitted \<longrightarrow> xt_Resources t \<noteq> [] \<and> in_book t (xt_committed t))"

text \<open>A loop, then bookkeeping on its result: the general form of the phases' ends.\<close>

lemma run_step_loop:
  assumes "loop_frame r r1" and "txn_sets (r_txn r) \<Longrightarrow> txn_sets (r_txn r1)"
    and "xt_State t' = st" and "st \<noteq> XAStateActive"
    and "t' = (r_txn r1)\<lparr>xt_State := st, xt_UpdatedAt := xt_UpdatedAt t'\<rparr>"
    and "r_txn r' = t'" and "r_cleanups r' = r_cleanups r1 @ replicate n (xt_ID (r_txn r1))"
  shows "run_step r r'"
proof -
  have "txn_sets t' = txn_sets (r_txn r1)" by (subst assms(5)) simp
  moreover have "xt_ID t' = xt_ID (r_txn r1)" "xt_XID t' = xt_XID (r_txn r1)"
      "xt_mu t' = xt_mu (r_txn r1)" "xt_Resources t' = xt_Resources (r_txn r1)"
      "xt_TimeoutAt t' = xt_TimeoutAt (r_txn r1)"
    by (subst assms(5), simp)+
  ultimately show ?thesis using assms(1-4,6,7)
    by (auto simp: run_step_def loop_frame_def intro: exI [of _ n])
qed

lemma run_step_loop_only:
  "loop_frame r r' \<Longrightarrow> (txn_sets (r_txn r) \<Longrightarrow> txn_sets (r_txn r')) \<Longrightarrow> run_step r r'"
  by (auto simp: run_step_def loop_frame_def intro: exI [of _ 0])

lemma abort_step: "abort now r = (e, r') \<Longrightarrow> run_step r r'"
proof -
  assume a: "abort now r = (e, r')"
  let ?r1 = "snd (rollback_loop (xt_Resources (r_txn r)) r)"
  show ?thesis
  proof (cases "fst (rollback_loop (xt_Resources (r_txn r)) r) = []")
    case True
    show ?thesis
      by (rule run_step_loop [OF loop_frames(5) loop_sets(5), where n = 1])
        (use a True in \<open>auto simp: abort_def run_simps split: prod.splits\<close>)
  next
    case False
    show ?thesis
      by (rule run_step_loop [OF loop_frames(5) loop_sets(5), where n = 0])
        (use a False in \<open>auto simp: abort_def run_simps split: prod.splits\<close>)
  qed
qed

lemma abort_outcome:
  "abort now r = (e, r') \<Longrightarrow>
   (e = None \<and> xt_State (r_txn r') = XAStateAborted \<and> in_book (r_txn r') (xt_aborted (r_txn r')) \<or>
    e \<noteq> None \<and> xt_State (r_txn r') = XAStateHeurAbort) \<and>
   outcome_count (r_metrics r') = outcome_count (r_metrics r) + 1"
  using loop_frames(5) [of r "xt_Resources (r_txn r)"] loop_all(3) [of r]
    in_book_frame [OF loop_frames(5) [of r "xt_Resources (r_txn r)"]]
  by (auto simp: abort_def run_simps loop_frame_def split: prod.splits if_splits)

text \<open>A transaction has no resource, one, or more.\<close>

lemma resources_cases:
  obtains (none) "xt_Resources t = []" | (one) res where "xt_Resources t = [res]"
    | (more) x y zs where "xt_Resources t = x # y # zs"
  by (metis neq_Nil_conv)

lemma run_step_one_phase:
  assumes "xt_Resources (r_txn r) = [res]"
  shows "run_step r (r\<lparr>r_world := w, r_txn := r_txn r\<lparr>xt_State := XAStateCommitted,
    xt_committed := insert (res_name res) (xt_committed (r_txn r))\<rparr>\<rparr>)"
  using assms by (auto simp: run_step_def txn_sets_def intro!: exI [of _ 0])

lemma run_step_world [simp]: "run_step r (r\<lparr>r_world := w\<rparr>)"
  by (auto simp: run_step_def intro!: exI [of _ 0])

lemma run_step_state: "st \<noteq> XAStateActive \<Longrightarrow> run_step r (set_state st r)"
  by (auto simp: run_step_def intro!: exI [of _ 0])

lemma run_step_prepared:
  assumes "loop_frame r r1" and "txn_sets (r_txn r) \<Longrightarrow> txn_sets (r_txn r1)"
  shows "run_step r (r1\<lparr>r_txn := r_txn r1\<lparr>xt_State := XAStatePrepared, xt_UpdatedAt := now\<rparr>\<rparr>)"
  by (rule run_step_loop [OF assms, where n = 0]) auto

lemma prepare_step: "prepare now r = (e, r') \<Longrightarrow> run_step r r'"
proof -
  assume a: "prepare now r = (e, r')"
  show ?thesis
  proof (cases rule: resources_cases [of "r_txn r"])
    case none
    then show ?thesis using a by (auto simp: prepare_def run_step_state)
  next
    case one
    then show ?thesis using a
      by (auto simp: prepare_def run_step_one_phase split: prod.splits option.splits)
  next
    case more
    let ?r1 = "snd (prepare_loop (xt_Resources (r_txn r)) r)"
    from more a have "r' = ?r1 \<or>
        r' = ?r1\<lparr>r_txn := r_txn ?r1\<lparr>xt_State := XAStatePrepared, xt_UpdatedAt := now\<rparr>\<rparr>"
      by (auto simp: prepare_def simp del: prepare_loop.simps split: prod.splits option.splits)
    with run_step_loop_only [OF loop_frames(1) prepare_loop_sets, of r]
      run_step_prepared [OF loop_frames(1) prepare_loop_sets, of r now]
    show ?thesis by auto
  qed
qed

lemma prepare_outcome:
  "prepare now r = (e, r') \<Longrightarrow>
   (e = None \<longrightarrow> commit_ready (r_txn r')) \<and> (e \<noteq> None \<longrightarrow> xt_State (r_txn r') = xt_State (r_txn r)) \<and>
   r_metrics r' = r_metrics r"
proof (cases rule: resources_cases [of "r_txn r"])
  case more
  then show "prepare now r = (e, r') \<Longrightarrow> ?thesis"
    using loop_frames(1) [of r "xt_Resources (r_txn r)"]
    by (auto simp: prepare_def commit_ready_def loop_frame_def simp del: prepare_loop.simps
        split: prod.splits option.splits)
qed (auto simp: prepare_def commit_ready_def in_book_def split: prod.splits option.splits)

lemma prepareWithTimeout_step: "prepareWithTimeout ended now r = (e, r') \<Longrightarrow> run_step r r'"
proof -
  assume a: "prepareWithTimeout ended now r = (e, r')"
  show ?thesis
  proof (cases rule: resources_cases [of "r_txn r"])
    case none
    then show ?thesis using a by (auto simp: prepareWithTimeout_def run_step_state)
  next
    case one
    then show ?thesis using a
      by (auto simp: prepareWithTimeout_def run_step_one_phase split: prod.splits option.splits if_splits)
  next
    case more
    let ?r1 = "snd (prepare_timed_loop ended now 0 (xt_Resources (r_txn r)) r)"
    from more a have "r' = ?r1 \<or>
        r' = ?r1\<lparr>r_txn := r_txn ?r1\<lparr>xt_State := XAStatePrepared, xt_UpdatedAt := now\<rparr>\<rparr>"
      by (auto simp: prepareWithTimeout_def simp del: prepare_timed_loop.simps
          split: prod.splits option.splits)
    moreover have "run_step r ?r1"
      by (rule run_step_loop_only [OF loop_frames(2) prepare_timed_loop_sets])
    moreover have "run_step r (?r1\<lparr>r_txn := r_txn ?r1\<lparr>xt_State := XAStatePrepared, xt_UpdatedAt := now\<rparr>\<rparr>)"
      by (rule run_step_prepared [OF loop_frames(2) prepare_timed_loop_sets])
    ultimately show ?thesis by auto
  qed
qed

lemma prepareWithTimeout_outcome:
  "prepareWithTimeout ended now r = (e, r') \<Longrightarrow>
   (e = None \<longrightarrow> commit_ready (r_txn r')) \<and> (e \<noteq> None \<longrightarrow> xt_State (r_txn r') = xt_State (r_txn r))"
proof (cases rule: resources_cases [of "r_txn r"])
  case more
  then show "prepareWithTimeout ended now r = (e, r') \<Longrightarrow> ?thesis"
    using loop_frames(2) [of r ended now 0 "xt_Resources (r_txn r)"]
    by (auto simp: prepareWithTimeout_def commit_ready_def loop_frame_def simp del: prepare_timed_loop.simps
        split: prod.splits option.splits)
qed (auto simp: prepareWithTimeout_def commit_ready_def in_book_def split: prod.splits option.splits if_splits)

lemma commit_step: "commit now r = (e, r') \<Longrightarrow> run_step r r'"
proof -
  assume a: "commit now r = (e, r')"
  have counted: "run_step r (count_committed r)"
    by (auto simp: count_committed_def run_step_def intro: exI [of _ 0])
  show ?thesis
  proof (cases "xt_State (r_txn r) = XAStateReadonly \<or> xt_State (r_txn r) = XAStateCommitted")
    case True
    then show ?thesis using a counted run_step_state [of XAStateCommitted r]
      by (auto simp: commit_def)
  next
    case False
    show ?thesis
    proof (cases "fst (commit_loop (xt_Resources (r_txn r)) r) = []")
      case True
      show ?thesis
        by (rule run_step_loop [OF loop_frames(3) loop_sets(3), where n = 1])
          (use a True False in \<open>auto simp: commit_def run_simps split: prod.splits\<close>)
    next
      case F2: False
      show ?thesis
        by (rule run_step_loop [OF loop_frames(3) loop_sets(3), where n = 0])
          (use a F2 False in \<open>auto simp: commit_def run_simps split: prod.splits\<close>)
    qed
  qed
qed

lemma commit_outcome:
  "commit now r = (e, r') \<Longrightarrow> commit_ready (r_txn r) \<Longrightarrow>
   (e = None \<and> xt_State (r_txn r') = XAStateCommitted \<and> in_book (r_txn r') (xt_committed (r_txn r')) \<or>
    e \<noteq> None \<and> xt_State (r_txn r') = XAStateHeurCommit) \<and>
   outcome_count (r_metrics r') =
     outcome_count (r_metrics r) + (if xt_State (r_txn r) = XAStateReadonly then 0 else 1)"
  using loop_frames(3) [of r "xt_Resources (r_txn r)"] loop_all(1) [of r]
    in_book_frame [OF loop_frames(3) [of r "xt_Resources (r_txn r)"]]
  by (auto simp: commit_def commit_ready_def run_simps loop_frame_def in_book_nil
      split: prod.splits if_splits)

lemma commitWithTimeout_step: "commitWithTimeout ended now r = (e, r') \<Longrightarrow> run_step r r'"
proof -
  assume a: "commitWithTimeout ended now r = (e, r')"
  have counted: "run_step r (count_committed r)"
    by (auto simp: count_committed_def run_step_def intro: exI [of _ 0])
  show ?thesis
  proof (cases "xt_State (r_txn r) = XAStateReadonly \<or> xt_State (r_txn r) = XAStateCommitted")
    case True
    then show ?thesis using a counted run_step_state [of XAStateCommitted r]
      by (auto simp: commitWithTimeout_def)
  next
    case False
    show ?thesis
    proof (cases "fst (commit_timed_loop ended now 0 (xt_Resources (r_txn r)) r) = []")
      case True
      show ?thesis
        by (rule run_step_loop [OF loop_frames(4) [where ended = ended and now = now and i = 0]
              loop_sets(4), where n = 1])
          (use a True False in \<open>auto simp: commitWithTimeout_def run_simps split: prod.splits\<close>)
    next
      case F2: False
      show ?thesis
        by (rule run_step_loop [OF loop_frames(4) [where ended = ended and now = now and i = 0]
              loop_sets(4), where n = 0])
          (use a F2 False in \<open>auto simp: commitWithTimeout_def run_simps split: prod.splits\<close>)
    qed
  qed
qed

lemma commitWithTimeout_outcome:
  "commitWithTimeout ended now r = (e, r') \<Longrightarrow> commit_ready (r_txn r) \<Longrightarrow>
   e = None \<and> xt_State (r_txn r') = XAStateCommitted \<and> in_book (r_txn r') (xt_committed (r_txn r')) \<or>
   e \<noteq> None \<and> xt_State (r_txn r') = XAStateHeurCommit"
  using loop_frames(4) [of r ended now 0 "xt_Resources (r_txn r)"] loop_all(2) [of ended now 0 r]
    in_book_frame [OF loop_frames(4) [of r ended now 0 "xt_Resources (r_txn r)"]]
  by (auto simp: commitWithTimeout_def commit_ready_def run_simps loop_frame_def in_book_nil
      split: prod.splits if_splits)

lemma commit_body_step: "commit_body now r = (e, r') \<Longrightarrow> run_step r r'"
  by (auto simp: commit_body_def split: if_splits prod.splits option.splits
      intro: abort_step commit_step run_step_trans prepare_step)

lemma commit_body_active:
  assumes "commit_body now r = (e, r')" and "xt_State (r_txn r) = XAStateActive"
  shows "(\<exists>r1. run_step r r1 \<and> r_metrics r1 = r_metrics r \<and> abort now r1 = (e, r')) \<or>
    (\<exists>r1. prepare now r = (None, r1) \<and> commit now r1 = (e, r'))"
proof (cases "xt_TimeoutAt (r_txn r) < now")
  case True
  then have "abort now r = (e, r')" using assms by (simp add: commit_body_def)
  then show ?thesis using run_step_refl by blast
next
  case False
  obtain e1 r1 where p: "prepare now r = (e1, r1)" by (metis surj_pair)
  show ?thesis
  proof (cases e1)
    case None
    then have "commit now r1 = (e, r')" using assms p False by (simp add: commit_body_def)
    with p None show ?thesis by blast
  next
    case (Some x)
    then have "abort now r1 = (e, r')" using assms p False by (simp add: commit_body_def)
    with prepare_step [OF p] prepare_outcome [OF p] show ?thesis by blast
  qed
qed

lemma commit_body_outcome:
  assumes "commit_body now r = (e, r')" and "xt_State (r_txn r) = XAStateActive"
  shows "(e = None \<and> xt_State (r_txn r') = XAStateCommitted \<and> in_book (r_txn r') (xt_committed (r_txn r')) \<or>
     e = None \<and> xt_State (r_txn r') = XAStateAborted \<and> in_book (r_txn r') (xt_aborted (r_txn r')) \<or>
     e \<noteq> None \<and> xt_State (r_txn r') \<in> {XAStateHeurCommit, XAStateHeurAbort}) \<and>
    (xt_Resources (r_txn r) \<noteq> [] \<longrightarrow>
       outcome_count (r_metrics r') = outcome_count (r_metrics r) + 1)"
  using commit_body_active [OF assms]
proof (elim disjE exE conjE)
  fix r1
  assume a: "run_step r r1" "r_metrics r1 = r_metrics r" "abort now r1 = (e, r')"
  show ?thesis using abort_outcome [OF a(3)] a(2) by auto
next
  fix r1
  assume a: "prepare now r = (None, r1)" "commit now r1 = (e, r')"
  have "commit_ready (r_txn r1)" "r_metrics r1 = r_metrics r" "xt_Resources (r_txn r1) = xt_Resources (r_txn r)"
    using prepare_outcome [OF a(1)] prepare_step [OF a(1)] by (auto simp: run_step_def)
  then show ?thesis using commit_outcome [OF a(2)] by (auto simp: commit_ready_def)
qed

text \<open>
  A read-only transaction is committed without a trace; every other active one is counted.
\<close>

lemma commit_body_readonly:
  assumes "commit_body now r = (e, r')" and "xt_State (r_txn r) = XAStateActive"
    and "xt_Resources (r_txn r) = []" and "\<not> xt_TimeoutAt (r_txn r) < now"
  shows "e = None \<and> xt_State (r_txn r') = XAStateCommitted \<and> r_world r' = r_world r \<and>
    r_metrics r' = r_metrics r"
  using assms by (auto simp: commit_body_def prepare_def commit_def)

lemma commit_body_counts:
  assumes "commit_body now r = (e, r')" and "xt_State (r_txn r) = XAStateActive"
    and "xt_Resources (r_txn r) = [] \<longrightarrow> xt_TimeoutAt (r_txn r) < now"
  shows "outcome_count (r_metrics r') = outcome_count (r_metrics r) + 1"
proof (cases "xt_Resources (r_txn r) = []")
  case True
  then have "abort now r = (e, r')" using assms by (simp add: commit_body_def)
  then show ?thesis using abort_outcome by blast
next
  case False
  then show ?thesis using commit_body_outcome [OF assms(1,2)] by blast
qed

section \<open>The manager's invariant\<close>

text \<open>
  At rest every object is free, is filed under its ID, has consistent books, and is in the
  registry unless it is finished; only finished objects wait for cleanup.
\<close>

definition xa_inv :: "'w xa_manager \<Rightarrow> bool" where
  "xa_inv tm \<longleftrightarrow>
     (\<forall>p t. tm_heap tm p = Some t \<longrightarrow>
        xt_ID t = p \<and> \<not> xt_mu t \<and> txn_sets t \<and> txn_rest t \<and>
        (p \<notin> tm_transactions tm \<or> p \<in> set (tm_cleanups tm) \<longrightarrow> xt_State t \<noteq> XAStateActive)) \<and>
     tm_transactions tm \<subseteq> dom (tm_heap tm) \<and> set (tm_cleanups tm) \<subseteq> dom (tm_heap tm)"

lemma xa_invD:
  "xa_inv tm \<Longrightarrow> tm_heap tm p = Some t \<Longrightarrow>
   xt_ID t = p \<and> \<not> xt_mu t \<and> txn_sets t \<and> txn_rest t"
  by (simp add: xa_inv_def)

lemma lock_txn_free:
  "xa_inv tm \<Longrightarrow> tm_heap tm p = Some t \<Longrightarrow> lock_txn p tm = Some (t\<lparr>xt_mu := True\<rparr>)"
  by (simp add: lock_txn_def xa_inv_def)

lemma lock_txn_Some:
  "xa_inv tm \<Longrightarrow> lock_txn p tm = Some t' \<Longrightarrow>
   \<exists>t. tm_heap tm p = Some t \<and> t' = t\<lparr>xt_mu := True\<rparr>"
  by (auto simp: lock_txn_def split: option.splits if_splits)

lemma xa_inv_end_run:
  assumes "xa_inv tm" and "tm_heap tm p = Some t"
    and "run_step (begin_run (t\<lparr>xt_mu := True\<rparr>) tm w) r" and "txn_rest (r_txn r)"
  shows "xa_inv (end_run r tm)"
proof -
  have t: "xt_ID t = p" "\<not> xt_mu t" "txn_sets t"
      "p \<notin> tm_transactions tm \<or> p \<in> set (tm_cleanups tm) \<longrightarrow> xt_State t \<noteq> XAStateActive"
    using assms(1,2) by (auto simp: xa_inv_def)
  from assms(3) t obtain n where r: "xt_ID (r_txn r) = p" "txn_sets (r_txn r)"
      "xt_State t \<noteq> XAStateActive \<longrightarrow> xt_State (r_txn r) \<noteq> XAStateActive"
      "r_cleanups r = tm_cleanups tm @ replicate n p" "0 < n \<longrightarrow> xt_State (r_txn r) \<noteq> XAStateActive"
    by (auto simp: run_step_def begin_run_def)
  have "txn_rest ((r_txn r)\<lparr>xt_mu := False\<rparr>)" using assms(4) by (simp add: txn_rest_def)
  with r t assms(1) show ?thesis
    by (auto simp: xa_inv_def end_run_def store_run_def split: if_splits)
qed

lemma xa_inv_metrics [simp]: "xa_inv (tm\<lparr>tm_metrics := m\<rparr>) = xa_inv tm"
  by (simp add: xa_inv_def)

lemma xa_inv_commit_time [simp]: "xa_inv (set_commit_time el tm) = xa_inv tm"
  by (simp add: set_commit_time_def)

lemma xa_inv_stopped [simp]: "xa_inv (tm\<lparr>tm_stopped := b\<rparr>) = xa_inv tm"
  by (simp add: xa_inv_def)

lemma xa_inv_new: "xa_inv (NewXATransactionManager timeout)"
  by (simp add: xa_inv_def NewXATransactionManager_def)

lemma xa_inv_register:
  "xa_inv tm \<Longrightarrow> tm_heap tm (xt_ID t) = None \<Longrightarrow> xt_Resources t = [] \<Longrightarrow> \<not> xt_mu t \<Longrightarrow>
   txn_sets t \<Longrightarrow> xt_State t = XAStateActive \<Longrightarrow> xa_inv (register_txn t tm)"
  by (auto simp: xa_inv_def register_txn_def txn_rest_def)

lemma xa_inv_Start [go_inv]:
  "xa_inv tm \<Longrightarrow> tm_heap tm i = None \<Longrightarrow> xa_inv (snd (Start i now timeout tm))"
  unfolding Start_def Let_def snd_conv
  by (rule xa_inv_register) (auto simp: new_txn_def txn_sets_def)

lemma xa_inv_StartWithTimeouts [go_inv]:
  "xa_inv tm \<Longrightarrow> tm_heap tm i = None \<Longrightarrow> xa_inv (snd (StartWithTimeouts b i now cfg tm))"
  unfolding StartWithTimeouts_def Let_def
  by (auto intro!: xa_inv_register simp: new_txn_def txn_sets_def)

lemma xa_inv_update:
  assumes "xa_inv tm" and "tm_heap tm p = Some t" and "xt_ID t' = p" and "\<not> xt_mu t'"
    and "txn_sets t'" and "txn_rest t'" and "xt_State t' = xt_State t"
  shows "xa_inv (tm\<lparr>tm_heap := (tm_heap tm)(p \<mapsto> t')\<rparr>)"
  using assms by (auto simp: xa_inv_def split: if_splits)

lemma unlocked_id: "\<not> xt_mu t \<Longrightarrow> t\<lparr>xt_mu := False\<rparr> = t"
  by (cases t) simp

lemma unlock_lock:
  "xa_inv tm \<Longrightarrow> tm_heap tm p = Some t \<Longrightarrow> unlock_txn (t\<lparr>xt_mu := True\<rparr>) tm = tm"
  using xa_invD [of tm p t] by (auto simp: unlock_txn_def unlocked_id map_upd_triv)

lemma xa_inv_Enlist [go_inv]:
  assumes "xa_inv tm" and "Enlist now p res tm = Some (e, tm')"
  shows "xa_inv tm'"
proof -
  from assms(2) obtain t' where l: "lock_txn p tm = Some t'" by (auto simp: Enlist_def split: option.splits)
  from lock_txn_Some [OF assms(1) l] obtain t where t: "tm_heap tm p = Some t" "t' = t\<lparr>xt_mu := True\<rparr>"
    by blast
  note d = xa_invD [OF assms(1) t(1)]
  let ?t = "t\<lparr>xt_Resources := xt_Resources t @ [res], xt_UpdatedAt := now, xt_mu := False\<rparr>"
  show ?thesis
  proof (cases "xt_State t = XAStateActive \<and> \<not> (\<exists>r \<in> set (xt_Resources t). res_name r = res_name res)")
    case True
    have "xa_inv (tm\<lparr>tm_heap := (tm_heap tm)(p \<mapsto> ?t)\<rparr>)"
      by (rule xa_inv_update [OF assms(1) t(1)])
        (use d True in \<open>auto simp: txn_sets_def txn_rest_def image_iff\<close>)
    then show ?thesis using assms(2) l t d True by (auto simp: Enlist_def unlock_txn_def)
  next
    case False
    then show ?thesis using assms l t unlock_lock [OF assms(1) t(1)]
      by (auto simp: Enlist_def split: if_splits)
  qed
qed

lemma xa_inv_Abort [go_inv]:
  assumes "xa_inv tm" and "Abort now p tm w = Some (e, tm', w')"
  shows "xa_inv tm'"
proof -
  from assms(2) obtain t' where l: "lock_txn p tm = Some t'" by (auto simp: Abort_def split: option.splits)
  from lock_txn_Some [OF assms(1) l] obtain t where t: "tm_heap tm p = Some t" "t' = t\<lparr>xt_mu := True\<rparr>"
    by blast
  obtain e' r where a: "abort now (begin_run t' tm w) = (e', r)" by (metis surj_pair)
  have "xa_inv (end_run r tm)"
    by (rule xa_inv_end_run [OF assms(1) t(1)])
      (use abort_step [OF a] abort_outcome [OF a] t in \<open>auto simp: txn_rest_def\<close>)
  then show ?thesis using assms(2) l a by (simp add: Abort_def)
qed

lemma xa_inv_Commit [go_inv]:
  assumes "xa_inv tm" and "Commit now el p tm w = Some (e, tm', w')"
  shows "xa_inv tm'"
proof -
  from assms(2) obtain t' where l: "lock_txn p tm = Some t'" by (auto simp: Commit_def split: option.splits)
  from lock_txn_Some [OF assms(1) l] obtain t where t: "tm_heap tm p = Some t" "t' = t\<lparr>xt_mu := True\<rparr>"
    by blast
  obtain e' r where a: "commit_body now (begin_run t' tm w) = (e', r)" by (metis surj_pair)
  have "txn_rest (r_txn r)"
  proof (cases "xt_State t = XAStateActive")
    case True
    then show ?thesis using commit_body_outcome [OF a] t
      by (auto simp: txn_rest_def begin_run_def)
  next
    case False
    then show ?thesis using a t xa_invD [OF assms(1) t(1)]
      by (auto simp: commit_body_def begin_run_def txn_rest_def)
  qed
  then have "xa_inv (end_run r tm)"
    using xa_inv_end_run [OF assms(1) t(1)] commit_body_step [OF a] t by blast
  then show ?thesis using assms(2) l a by (auto simp: Commit_def)
qed

lemma xa_inv_cleanup [go_inv]: "xa_inv tm \<Longrightarrow> xa_inv (cleanup p tm)"
  by (auto simp: xa_inv_def cleanup_def dest: notin_set_remove1 split: if_splits)

lemma Abort_returns:
  assumes "xa_inv tm" and "tm_heap tm p = Some t"
  shows "\<exists>e tm' w' t'. Abort now p tm w = Some (e, tm', w') \<and> tm_heap tm' = (tm_heap tm)(p \<mapsto> t') \<and>
    tm_transactions tm' = tm_transactions tm \<and> tm_stopped tm' = tm_stopped tm \<and>
    (e = None \<and> xt_State t' = XAStateAborted \<or> e \<noteq> None \<and> xt_State t' = XAStateHeurAbort)"
proof -
  obtain e r where a: "abort now (begin_run (t\<lparr>xt_mu := True\<rparr>) tm w) = (e, r)" by (metis surj_pair)
  have "xt_ID (r_txn r) = p"
    using abort_step [OF a] xa_invD [OF assms] by (simp add: run_step_def begin_run_def)
  then show ?thesis using abort_outcome [OF a] a lock_txn_free [OF assms]
    by (auto simp: Abort_def end_run_def store_run_def)
qed

text \<open>The loop of recovery and shutdown: each listed object the test holds of is aborted.\<close>

definition swept :: "bool \<Rightarrow> 'w xa_txn \<Rightarrow> 'w xa_txn option \<Rightarrow> bool" where
  "swept hit t x \<longleftrightarrow>
     (if hit then \<exists>t'. x = Some t' \<and> xt_State t' \<in> {XAStateAborted, XAStateHeurAbort} else x = Some t)"

lemma abort_each_effect:
  assumes "xa_inv tm" and "set ps \<subseteq> dom (tm_heap tm)" and "distinct ps"
    and "\<And>t n m. test (t\<lparr>xt_mu := m\<rparr>) n = test t n"
  shows "\<exists>tm' w'. abort_each test clock ps tm w = Some (tm', w') \<and> xa_inv tm' \<and>
    (\<forall>p. p \<notin> set ps \<longrightarrow> tm_heap tm' p = tm_heap tm p) \<and>
    (\<forall>p t. p \<in> set ps \<longrightarrow> tm_heap tm p = Some t \<longrightarrow> swept (test t (clock p)) t (tm_heap tm' p))"
  using assms
proof (induction ps arbitrary: tm w)
  case Nil
  then show ?case by simp
next
  case (Cons p ps)
  then obtain t where t: "tm_heap tm p = Some t" by auto
  have "\<exists>tm1 w1. abort_if (\<lambda>t. test t (clock p)) (clock p) p tm w = Some (tm1, w1) \<and> xa_inv tm1 \<and>
      swept (test t (clock p)) t (tm_heap tm1 p) \<and> (\<forall>q. q \<noteq> p \<longrightarrow> tm_heap tm1 q = tm_heap tm q) \<and>
      dom (tm_heap tm1) = dom (tm_heap tm)"
  proof (cases "test t (clock p)")
    case False
    then show ?thesis using lock_txn_free [OF Cons.prems(1) t] Cons.prems t
      by (simp add: abort_if_def swept_def)
  next
    case True
    obtain e tm1 w1 t1 where a: "Abort (clock p) p tm w = Some (e, tm1, w1)"
        "tm_heap tm1 = (tm_heap tm)(p \<mapsto> t1)" "xt_State t1 \<in> {XAStateAborted, XAStateHeurAbort}"
      using Abort_returns [OF Cons.prems(1) t] by blast
    show ?thesis using lock_txn_free [OF Cons.prems(1) t] Cons.prems(4) True a t
        xa_inv_Abort [OF Cons.prems(1) a(1)]
      by (auto simp: abort_if_def swept_def)
  qed
  then obtain tm1 w1 where i: "abort_if (\<lambda>t. test t (clock p)) (clock p) p tm w = Some (tm1, w1)"
      "xa_inv tm1" "swept (test t (clock p)) t (tm_heap tm1 p)"
      "\<And>q. q \<noteq> p \<Longrightarrow> tm_heap tm1 q = tm_heap tm q" "dom (tm_heap tm1) = dom (tm_heap tm)"
    by blast
  have sub: "set ps \<subseteq> dom (tm_heap tm1)" "distinct ps" "p \<notin> set ps"
    using Cons.prems(2,3) i(5) by auto
  obtain tm2 w2 where r: "abort_each test clock ps tm1 w1 = Some (tm2, w2)" "xa_inv tm2"
      "\<And>q. q \<notin> set ps \<Longrightarrow> tm_heap tm2 q = tm_heap tm1 q"
      "\<And>q u. q \<in> set ps \<Longrightarrow> tm_heap tm1 q = Some u \<Longrightarrow> swept (test u (clock q)) u (tm_heap tm2 q)"
    using Cons.IH [OF i(2) sub(1,2) Cons.prems(4), of w1] by blast
  have "swept (test u (clock q)) u (tm_heap tm2 q)"
    if "q \<in> set (p # ps)" "tm_heap tm q = Some u" for q u
  proof (cases "q = p")
    case True
    then show ?thesis using i(3) r(3) [OF sub(3)] t that by simp
  next
    case False
    then show ?thesis using r(4) [of q u] i(4) [OF False] that by simp
  qed
  moreover have "tm_heap tm2 q = tm_heap tm q" if "q \<notin> set (p # ps)" for q
    using r(3) [of q] i(4) [of q] that by simp
  ultimately show ?case using r(1,2) i(1) by simp
qed

lemma recovery_effect:
  assumes "xa_inv tm" and "distinct ps" and "set ps = tm_transactions tm"
  shows "\<exists>tm' w'. performRecovery clock ps tm w = Some (tm', w') \<and> xa_inv tm' \<and>
    (\<forall>p t. tm_heap tm p = Some t \<longrightarrow>
       swept (xt_State t = XAStateActive \<and> xt_TimeoutAt t < clock p) t (tm_heap tm' p))"
proof -
  let ?test = "\<lambda>t now. xt_TimeoutAt t < now \<and> recoverable t"
  have ps: "set ps \<subseteq> dom (tm_heap tm)" using assms(1,3) by (auto simp: xa_inv_def)
  have cong: "?test (t\<lparr>xt_mu := m\<rparr>) n = ?test t n" for t :: "'a xa_txn" and n m
    by (simp add: recoverable_def)
  obtain tm1 w1 where e: "abort_each ?test clock ps tm w = Some (tm1, w1)" "xa_inv tm1"
      "\<And>p. p \<notin> set ps \<Longrightarrow> tm_heap tm1 p = tm_heap tm p"
      "\<And>p t. p \<in> set ps \<Longrightarrow> tm_heap tm p = Some t \<Longrightarrow> swept (?test t (clock p)) t (tm_heap tm1 p)"
    using abort_each_effect [OF assms(1) ps assms(2), of ?test clock w] cong by blast
  have "swept (xt_State t = XAStateActive \<and> xt_TimeoutAt t < clock p) t (tm_heap tm1 p)"
    if t: "tm_heap tm p = Some t" for p t
  proof -
    have rec: "recoverable t \<longleftrightarrow> xt_State t = XAStateActive"
      using xa_invD [OF assms(1) t] by (auto simp: recoverable_def txn_rest_def)
    have "xt_State t \<noteq> XAStateActive" if "p \<notin> set ps"
      using assms(1,3) t that by (auto simp: xa_inv_def)
    then show ?thesis using e(3) [of p] e(4) [of p t] rec t
      by (cases "p \<in> set ps") (simp_all add: swept_def conj_commute)
  qed
  then show ?thesis using e(1,2) by (simp add: performRecovery_def)
qed

section \<open>Commit with retries\<close>

lemma abortWithReason_held:
  "xt_mu (r_txn r) \<Longrightarrow> abortWithReason now (xt_ID (r_txn r)) e (store_run r tm) w = None"
  by (simp add: abortWithReason_def Abort_def lock_txn_def store_run_def)

text \<open>
  The run at the start of the attempt \<open>n\<close> after attempt \<open>a\<close>, if every attempt before it failed in a
  retryable way, and the decision to abort there.
\<close>

fun attempt_run :: "retry_env \<Rightarrow> nat \<Rightarrow> nat \<Rightarrow> 'w xa_run \<Rightarrow> 'w xa_run option" where
  "attempt_run env a 0 r = Some r"
| "attempt_run env a (Suc n) r =
     (case prepareWithTimeout (env_pdone env a) (env_clock env a) r of
        (Some e, r') \<Rightarrow>
          (if isRetryableXAError (env_ustr env) e then attempt_run env (Suc a) n r' else None)
      | (None, r') \<Rightarrow>
          (case commitWithTimeout (env_cdone env a) (env_clock env a) r' of
             (Some e, r'') \<Rightarrow>
               (if isRetryableXAError (env_ustr env) e then attempt_run env (Suc a) n r'' else None)
           | (None, r'') \<Rightarrow> None))"

definition aborts_at :: "retry_env \<Rightarrow> nat \<Rightarrow> nat \<Rightarrow> 'w xa_run \<Rightarrow> bool" where
  "aborts_at env a n r \<longleftrightarrow>
     (\<exists>r1 e r2. attempt_run env a n r = Some r1 \<and>
        prepareWithTimeout (env_pdone env (a + n)) (env_clock env (a + n)) r1 = (Some e, r2) \<and>
        \<not> isRetryableXAError (env_ustr env) e)"

lemma ex_less_Suc: "(\<exists>j<Suc n. P j) \<longleftrightarrow> P 0 \<or> (\<exists>j<n. P (Suc j))"
  by (metis Suc_less_eq not0_implies_Suc zero_less_Suc)

lemma aborts_at_next:
  assumes "prepareWithTimeout (env_pdone env a) (env_clock env a) r = (Some e, r')"
    and "isRetryableXAError (env_ustr env) e"
  shows "\<not> aborts_at env a 0 r" and "aborts_at env a (Suc n) r = aborts_at env (Suc a) n r'"
  using assms by (simp_all add: aborts_at_def)

lemma aborts_at_committed:
  assumes "prepareWithTimeout (env_pdone env a) (env_clock env a) r = (None, r')"
    and "commitWithTimeout (env_cdone env a) (env_clock env a) r' = (ce, r'')"
  shows "\<not> aborts_at env a 0 r"
    and "aborts_at env a (Suc n) r =
      (case ce of None \<Rightarrow> False
       | Some e \<Rightarrow> isRetryableXAError (env_ustr env) e \<and> aborts_at env (Suc a) n r'')"
  using assms by (simp_all add: aborts_at_def split: option.splits)

lemma retry_loop_blocks:
  "xt_mu (r_txn r) \<Longrightarrow> retry_loop env k a n le tm r = None \<longleftrightarrow> (\<exists>j<n. aborts_at env a j r)"
proof (induction n arbitrary: a le r)
  case 0
  then show ?case by simp
next
  case (Suc n)
  obtain pe r1 where p: "prepareWithTimeout (env_pdone env a) (env_clock env a) r = (pe, r1)"
    by (metis surj_pair)
  have mu: "xt_mu (r_txn r1)" using prepareWithTimeout_step [OF p] Suc.prems by (simp add: run_step_def)
  show ?case
  proof (cases pe)
    case (Some e)
    show ?thesis
    proof (cases "isRetryableXAError (env_ustr env) e")
      case True
      then show ?thesis using p Some Suc.IH [OF mu] aborts_at_next [OF p [unfolded Some] True]
        by (simp add: ex_less_Suc)
    next
      case False
      then have "aborts_at env a 0 r" using p Some by (simp add: aborts_at_def)
      then show ?thesis using p Some False abortWithReason_held [OF mu] by (auto simp: ex_less_Suc)
    qed
  next
    case None
    obtain ce r2 where c: "commitWithTimeout (env_cdone env a) (env_clock env a) r1 = (ce, r2)"
      by (metis surj_pair)
    have "xt_mu (r_txn r2)" using commitWithTimeout_step [OF c] mu by (simp add: run_step_def)
    note IH = Suc.IH [OF this]
    show ?thesis using p None c IH aborts_at_committed [OF p [unfolded None] c]
      by (auto simp: ex_less_Suc split: option.splits)
  qed
qed

definition retry_outcome :: "go_error option \<Rightarrow> 'w xa_txn \<Rightarrow> bool" where
  "retry_outcome e t \<longleftrightarrow>
     e = None \<and> xt_State t = XAStateCommitted \<and> in_book t (xt_committed t) \<or>
     e \<noteq> None \<and> xt_State t \<in> {XAStateActive, XAStateHeurCommit}"

definition retry_result ::
    "'w xa_manager \<Rightarrow> 'w xa_run \<Rightarrow> go_error option \<Rightarrow> 'w xa_manager \<Rightarrow> bool" where
  "retry_result tm r e tm' \<longleftrightarrow>
     (\<exists>r'. tm' = end_run r' tm \<and> run_step r r' \<and> retry_outcome e (r_txn r'))"

lemma retry_result_step: "run_step r r1 \<Longrightarrow> retry_result tm r1 e tm' \<Longrightarrow> retry_result tm r e tm'"
proof -
  assume a: "run_step r r1" and "retry_result tm r1 e tm'"
  then obtain r' where r': "tm' = end_run r' tm" "run_step r1 r'" "retry_outcome e (r_txn r')"
    by (auto simp: retry_result_def)
  from run_step_trans [OF a r'(2)] r'(1,3) show ?thesis unfolding retry_result_def by blast
qed

lemma retry_result_end: "run_step r r' \<Longrightarrow> retry_outcome e (r_txn r') \<Longrightarrow> retry_result tm r e (end_run r' tm)"
  unfolding retry_result_def by blast

lemma retry_loop_result:
  assumes "retry_loop env k attempt n lastErr tm r = Some (e, tm', w')"
    and "xt_mu (r_txn r)" and "xt_State (r_txn r) \<in> {XAStateActive, XAStateHeurCommit}"
  shows "retry_result tm r e tm'"
  using assms
proof (induction n arbitrary: attempt lastErr r)
  case 0
  then have "tm' = end_run r tm" "retry_outcome e (r_txn r)" by (auto simp: retry_outcome_def)
  then show ?case using retry_result_end [OF run_step_refl] by simp
next
  case (Suc n)
  obtain pe r1 where p: "prepareWithTimeout (env_pdone env attempt) (env_clock env attempt) r = (pe, r1)"
    by (metis surj_pair)
  note ps = prepareWithTimeout_step [OF p] and po = prepareWithTimeout_outcome [OF p]
  have mu: "xt_mu (r_txn r1)" using ps Suc.prems(2) by (simp add: run_step_def)
  show ?case
  proof (cases pe)
    case (Some x)
    show ?thesis
    proof (cases "isRetryableXAError (env_ustr env) x")
      case True
      have "xt_State (r_txn r1) \<in> {XAStateActive, XAStateHeurCommit}" using po Some Suc.prems(3) by simp
      moreover have "retry_loop env k (Suc attempt) n (Some x) tm r1 = Some (e, tm', w')"
        using Suc.prems(1) p Some True by simp
      ultimately show ?thesis using retry_result_step [OF ps Suc.IH [OF _ mu]] by blast
    next
      case False
      then show ?thesis using Suc.prems(1) p Some abortWithReason_held [OF mu] by simp
    qed
  next
    case None
    obtain ce r2 where c: "commitWithTimeout (env_cdone env attempt) (env_clock env attempt) r1 = (ce, r2)"
      by (metis surj_pair)
    note cs = run_step_trans [OF ps commitWithTimeout_step [OF c]]
    have mu2: "xt_mu (r_txn r2)" using cs Suc.prems(2) by (simp add: run_step_def)
    have co: "ce = None \<and> xt_State (r_txn r2) = XAStateCommitted \<and> in_book (r_txn r2) (xt_committed (r_txn r2)) \<or>
        ce \<noteq> None \<and> xt_State (r_txn r2) = XAStateHeurCommit"
      using commitWithTimeout_outcome [OF c] po None by blast
    show ?thesis
    proof (cases "ce = None \<or> \<not> isRetryableXAError (env_ustr env) (the ce)")
      case True
      then have "tm' = end_run r2 tm" "e = ce"
        using Suc.prems(1) p None c by (auto split: option.splits if_splits)
      then show ?thesis using retry_result_end [OF cs] co by (auto simp: retry_outcome_def)
    next
      case False
      then have "retry_loop env k (Suc attempt) n ce tm r2 = Some (e, tm', w')"
        using Suc.prems(1) p None c by (auto split: option.splits if_splits)
      moreover have "xt_State (r_txn r2) \<in> {XAStateActive, XAStateHeurCommit}"
        using co False by auto
      ultimately show ?thesis by (intro retry_result_step [OF cs Suc.IH [OF _ mu2]])
    qed
  qed
qed

lemma CommitWithRetry_active:
  assumes "xa_inv tm" and "tm_heap tm p = Some t" and "xt_State t = XAStateActive"
    and "CommitWithRetry env now el p k tm w = Some (e, tm', w')"
  shows "\<exists>r'. tm' = set_commit_time el (end_run r' tm) \<and>
    run_step (begin_run (t\<lparr>xt_mu := True\<rparr>) tm w) r' \<and> retry_outcome e (r_txn r')"
proof -
  let ?r = "begin_run (t\<lparr>xt_mu := True\<rparr>) tm w"
  have p: "xt_ID t = p" using xa_invD [OF assms(1,2)] by simp
  have "abortWithReason now p x (store_run ?r tm) w = None" for x
    using abortWithReason_held [of ?r now x tm w] p by (simp add: begin_run_def)
  then obtain tm1 where "retry_loop env k 0 (nat (k + 1)) None tm ?r = Some (e, tm1, w')"
      "tm' = set_commit_time el tm1"
    using assms(3,4) lock_txn_free [OF assms(1,2)] by (auto simp: CommitWithRetry_def split: if_splits)
  moreover have "xt_mu (r_txn ?r)" "xt_State (r_txn ?r) \<in> {XAStateActive, XAStateHeurCommit}"
    using assms(3) by (simp_all add: begin_run_def)
  ultimately have "retry_result tm ?r e tm1" by (intro retry_loop_result)
  then obtain r' where "tm1 = end_run r' tm" "run_step ?r r'" "retry_outcome e (r_txn r')"
    unfolding retry_result_def by blast
  with \<open>tm' = set_commit_time el tm1\<close> show ?thesis by blast
qed

lemma CommitWithRetry_refused:
  assumes "xa_inv tm" and "tm_heap tm p = Some t" and "xt_State t \<noteq> XAStateActive"
    and "CommitWithRetry env now el p k tm w = Some (e, tm', w')"
  shows "e \<noteq> None \<and> tm' = set_commit_time el tm \<and> w' = w"
  using assms(3,4) lock_txn_free [OF assms(1,2)] unlock_lock [OF assms(1,2)]
  by (auto simp: CommitWithRetry_def)

lemma xa_inv_CommitWithRetry [go_inv]:
  assumes "xa_inv tm" and "CommitWithRetry env now el p k tm w = Some (e, tm', w')"
  shows "xa_inv tm'"
proof -
  from assms(2) obtain t' where "lock_txn p tm = Some t'"
    by (auto simp: CommitWithRetry_def split: option.splits)
  from lock_txn_Some [OF assms(1) this] obtain t where t: "tm_heap tm p = Some t" by blast
  show ?thesis
  proof (cases "xt_State t = XAStateActive")
    case True
    from CommitWithRetry_active [OF assms(1) t True assms(2)] obtain r where
      r: "tm' = set_commit_time el (end_run r tm)" "run_step (begin_run (t\<lparr>xt_mu := True\<rparr>) tm w) r"
         "txn_rest (r_txn r)"
      by (auto simp: txn_rest_def retry_outcome_def)
    then show ?thesis using xa_inv_end_run [OF assms(1) t r(2,3)] by simp
  next
    case False
    then show ?thesis using CommitWithRetry_refused [OF assms(1) t False assms(2)] assms(1) by simp
  qed
qed

section \<open>Reachable managers\<close>

text \<open>
  Every manager a client can have after calls that returned, on any resources; a new transaction's
  ID is fresh, and the registry map is ranged over in any order.
\<close>

inductive xa_reach :: "'w xa_manager \<Rightarrow> 'w \<Rightarrow> bool" where
  reach_new: "xa_reach (NewXATransactionManager timeout) w"
| reach_start: "xa_reach tm w \<Longrightarrow> tm_heap tm i = None \<Longrightarrow> xa_reach (snd (Start i now timeout tm)) w"
| reach_startT: "xa_reach tm w \<Longrightarrow> tm_heap tm i = None \<Longrightarrow>
    xa_reach (snd (StartWithTimeouts b i now cfg tm)) w"
| reach_enlist: "xa_reach tm w \<Longrightarrow> Enlist now p res tm = Some (e, tm') \<Longrightarrow> xa_reach tm' w"
| reach_commit: "xa_reach tm w \<Longrightarrow> Commit now el p tm w = Some (e, tm', w') \<Longrightarrow> xa_reach tm' w'"
| reach_abort: "xa_reach tm w \<Longrightarrow> Abort now p tm w = Some (e, tm', w') \<Longrightarrow> xa_reach tm' w'"
| reach_retry: "xa_reach tm w \<Longrightarrow> CommitWithRetry env now el p k tm w = Some (e, tm', w') \<Longrightarrow>
    xa_reach tm' w'"
| reach_cleanup: "xa_reach tm w \<Longrightarrow> xa_reach (cleanup p tm) w"
| reach_recovery: "xa_reach tm w \<Longrightarrow> distinct ps \<Longrightarrow> set ps = tm_transactions tm \<Longrightarrow>
    performRecovery clock ps tm w = Some (tm', w') \<Longrightarrow> xa_reach tm' w'"
| reach_stop: "xa_reach tm w \<Longrightarrow> distinct ps \<Longrightarrow> set ps = tm_transactions tm \<Longrightarrow>
    Stop clock ps tm w = Returns (tm', w') \<Longrightarrow> xa_reach tm' w'"

lemma xa_inv_recovery [go_inv]:
  "xa_inv tm \<Longrightarrow> distinct ps \<Longrightarrow> set ps = tm_transactions tm \<Longrightarrow>
   performRecovery clock ps tm w = Some (tm', w') \<Longrightarrow> xa_inv tm'"
  using recovery_effect [of tm ps clock w] by auto

lemma xa_inv_stop [go_inv]:
  assumes "xa_inv tm" and "distinct ps" and "set ps = tm_transactions tm"
    and "Stop clock ps tm w = Returns (tm', w')"
  shows "xa_inv tm'"
proof -
  have "xa_inv (tm\<lparr>tm_stopped := True\<rparr>)" "set ps \<subseteq> dom (tm_heap (tm\<lparr>tm_stopped := True\<rparr>))"
    using assms(1,3) by (auto simp: xa_inv_def)
  then show ?thesis
    using abort_each_effect [of "tm\<lparr>tm_stopped := True\<rparr>" ps "\<lambda>t n. recoverable t" clock w] assms(2,4)
    by (auto simp: Stop_def recoverable_def split: if_splits)
qed

lemma xa_reach_inv: "xa_reach tm w \<Longrightarrow> xa_inv tm"
  by (induction rule: xa_reach.induct) (auto intro: xa_inv_new go_inv)

section \<open>Properties\<close>

text \<open>Two resources for concrete runs, over a world that counts the calls.\<close>

definition willing :: "string \<Rightarrow> nat xa_resource" where
  "willing nm = \<lparr>res_name = nm, res_Prepare = \<lambda>x w. ((True, None), w + 1),
     res_Commit = \<lambda>x b w. (None, w + 1), res_Rollback = \<lambda>x w. (None, w + 1)\<rparr>"

definition unwilling :: "string \<Rightarrow> nat xa_resource" where
  "unwilling nm = (willing nm)\<lparr>res_Prepare := \<lambda>x w. ((False, None), w + 1)\<rparr>"

text \<open>A manager with one active transaction 7 on the given resources.\<close>

definition sample_manager :: "'w xa_resource list \<Rightarrow> 'w xa_manager" where
  "sample_manager rs =
     foldl (\<lambda>tm r. case Enlist 0 7 r tm of Some (e, tm') \<Rightarrow> tm' | None \<Rightarrow> tm)
       (snd (Start 7 0 100 (NewXATransactionManager 50))) rs"

lemma sample_reach: "xa_reach (sample_manager rs) w"
proof (induction rs rule: rev_induct)
  case Nil
  show ?case unfolding sample_manager_def foldl.simps
    by (rule reach_start [OF reach_new]) (simp add: NewXATransactionManager_def)
next
  case (snoc r rs)
  then show ?case
    by (auto simp: sample_manager_def split: option.splits intro: reach_enlist)
qed

lemmas sample_simps = sample_manager_def Start_def NewXATransactionManager_def register_txn_def
  new_txn_def Enlist_def lock_txn_def unlock_txn_def willing_def unwilling_def

lemma sample_txn:
  "\<exists>t. tm_heap (sample_manager [willing ''a'', unwilling ''b'']) 7 = Some t \<and>
     xt_State t = XAStateActive \<and> xt_Resources t = [willing ''a'', unwilling ''b''] \<and>
     xt_TimeoutAt t = 100"
  by (simp add: sample_simps)

text \<open>
  C1: in every reachable manager a transaction's books are consistent: resource names are distinct;
  a transaction at rest is active, committed, aborted or heuristically completed; a committed
  transaction has every resource in its committed set, an aborted one every resource in its aborted
  set; and a transaction that has left the registry is not active.
\<close>

theorem xa_books:
  assumes "xa_reach tm w" and "tm_heap tm p = Some t"
  shows "distinct (map res_name (xt_Resources t)) \<and>
    xt_State t \<in> {XAStateActive, XAStateCommitted, XAStateAborted, XAStateHeurCommit, XAStateHeurAbort} \<and>
    (xt_State t = XAStateCommitted \<longrightarrow> xt_committed t = res_name ` set (xt_Resources t)) \<and>
    (xt_State t = XAStateAborted \<longrightarrow> xt_aborted t = res_name ` set (xt_Resources t)) \<and>
    (p \<notin> tm_transactions tm \<longrightarrow> xt_State t \<noteq> XAStateActive)"
proof -
  note inv = xa_reach_inv [OF assms(1)]
  have "txn_sets t" "txn_rest t" using xa_invD [OF inv assms(2)] by simp_all
  moreover have "xt_committed t = res_names t" if "xt_State t = XAStateCommitted"
    using calculation that unfolding txn_sets_def txn_rest_def in_book_def by blast
  moreover have "xt_aborted t = res_names t" if "xt_State t = XAStateAborted"
    using calculation(1,2) that unfolding txn_sets_def txn_rest_def in_book_def by blast
  moreover have "xt_State t \<noteq> XAStateActive" if "p \<notin> tm_transactions tm"
    using inv assms(2) that unfolding xa_inv_def by blast
  ultimately show ?thesis by (simp add: txn_sets_def txn_rest_def)
qed

lemma xa_books_witness:
  "\<exists>t. tm_heap (sample_manager [willing ''a'', unwilling ''b'']) 7 = Some t \<and>
     distinct (map res_name (xt_Resources t))"
  using sample_txn xa_books [OF sample_reach [of "[willing ''a'', unwilling ''b'']" 0], of 7] by blast

text \<open>
  C2: what \<open>Commit\<close> promises: on a reachable manager it returns; a transaction that is not active
  is refused and neither it nor the world nor the counts of the outcomes are touched; an active one ends
  committed, aborted or with a heuristic outcome, and the error is nil exactly for a committed or
  an aborted transaction, so nil does not mean committed. One outcome is counted, except that a
  transaction without resources that is within its timeout is committed and not counted at all
  (it is read-only, and \<open>commit\<close> returns before the counter).
\<close>

theorem Commit_outcome:
  assumes "xa_reach tm w" and "tm_heap tm p = Some t"
  shows "\<exists>e tm' w' t'. Commit now el p tm w = Some (e, tm', w') \<and> tm_heap tm' = (tm_heap tm)(p \<mapsto> t') \<and>
    (if xt_State t \<noteq> XAStateActive then
       e \<noteq> None \<and> t' = t \<and> w' = w \<and> outcome_count (tm_metrics tm') = outcome_count (tm_metrics tm)
     else if xt_Resources t = [] \<and> \<not> xt_TimeoutAt t < now then
       e = None \<and> xt_State t' = XAStateCommitted \<and> w' = w \<and>
       outcome_count (tm_metrics tm') = outcome_count (tm_metrics tm)
     else xt_State t' \<in> {XAStateCommitted, XAStateAborted, XAStateHeurCommit, XAStateHeurAbort} \<and>
       (e = None \<longleftrightarrow> xt_State t' = XAStateCommitted \<or> xt_State t' = XAStateAborted) \<and>
       outcome_count (tm_metrics tm') = outcome_count (tm_metrics tm) + 1)"
proof -
  note inv = xa_reach_inv [OF assms(1)]
  let ?r = "begin_run (t\<lparr>xt_mu := True\<rparr>) tm w"
  obtain e r where b: "commit_body now ?r = (e, r)" by (metis surj_pair)
  have p: "xt_ID (r_txn r) = p"
    using commit_body_step [OF b] xa_invD [OF inv assms(2)] by (simp add: run_step_def begin_run_def)
  have c: "Commit now el p tm w = Some (e, set_commit_time el (end_run r tm), r_world r)"
    using lock_txn_free [OF inv assms(2)] b by (simp add: Commit_def)
  have h: "tm_heap (set_commit_time el (end_run r tm)) = (tm_heap tm)(p \<mapsto> (r_txn r)\<lparr>xt_mu := False\<rparr>)"
    using p by (simp add: set_commit_time_def end_run_def store_run_def)
  have m: "outcome_count (tm_metrics (set_commit_time el (end_run r tm))) = outcome_count (r_metrics r)"
    by (simp add: set_commit_time_def end_run_def store_run_def outcome_count_def)
  have run: "r_world ?r = w" "r_metrics ?r = tm_metrics tm" "xt_Resources (r_txn ?r) = xt_Resources t"
      "xt_State (r_txn ?r) = xt_State t" "xt_TimeoutAt (r_txn ?r) = xt_TimeoutAt t"
    by (simp_all add: begin_run_def)
  consider "xt_State t \<noteq> XAStateActive"
    | "xt_State t = XAStateActive" "xt_Resources t = []" "\<not> xt_TimeoutAt t < now"
    | "xt_State t = XAStateActive" "xt_Resources t = [] \<longrightarrow> xt_TimeoutAt t < now" by blast
  then show ?thesis
  proof cases
    case 1
    then have "e \<noteq> None" "r = ?r" using b by (auto simp: commit_body_def begin_run_def)
    then show ?thesis using c h m run 1 unlocked_id [of t] xa_invD [OF inv assms(2)]
      by (auto simp: begin_run_def)
  next
    case 2
    then show ?thesis using commit_body_readonly [OF b] c h m run by auto
  next
    case 3
    then have "outcome_count (r_metrics r) = outcome_count (tm_metrics tm) + 1"
      using commit_body_counts [OF b] run by auto
    then show ?thesis using commit_body_outcome [OF b] c h m run 3 by auto
  qed
qed

lemma Commit_outcome_witness:
  "\<exists>e tm' w'. Commit 1 0 7 (sample_manager [willing ''a'', unwilling ''b'']) 0 = Some (e, tm', w') \<and>
     outcome_count (tm_metrics tm') = 1"
proof -
  obtain t where t: "tm_heap (sample_manager [willing ''a'', unwilling ''b'']) 7 = Some t"
      "xt_State t = XAStateActive" "xt_Resources t \<noteq> []"
    using sample_txn by auto
  have "outcome_count (tm_metrics (sample_manager [willing ''a'', unwilling ''b''])) = 0"
    by (simp add: sample_simps outcome_count_def)
  then show ?thesis using Commit_outcome [OF sample_reach t(1), of 1 0 0] t by auto
qed

text \<open>
  when a prepare fails or a resource votes to abort, and the rollbacks succeed, the
  transaction is aborted and \<open>Commit\<close> still reports success: the reason is dropped.
\<close>

theorem Commit_hides_abort:
  assumes "xa_reach tm w" and "tm_heap tm p = Some t" and "xt_State t = XAStateActive"
    and "\<not> xt_TimeoutAt t < now"
    and "prepare now (begin_run (t\<lparr>xt_mu := True\<rparr>) tm w) = (Some reason, r1)"
    and "fst (rollback_loop (xt_Resources t) r1) = []"
  shows "\<exists>tm' w' t'. Commit now el p tm w = Some (None, tm', w') \<and> tm_heap tm' p = Some t' \<and>
    xt_State t' = XAStateAborted"
proof -
  note inv = xa_reach_inv [OF assms(1)]
  let ?r = "begin_run (t\<lparr>xt_mu := True\<rparr>) tm w"
  note st = prepare_step [OF assms(5)]
  have rs: "xt_Resources (r_txn r1) = xt_Resources t" "xt_ID (r_txn r1) = p"
    using st xa_invD [OF inv assms(2)] by (auto simp: run_step_def begin_run_def)
  have "fst (abort now r1) = None"
    using assms(6) rs by (auto simp: abort_def split: prod.splits)
  then obtain r2 where a: "abort now r1 = (None, r2)" by (metis prod.collapse)
  have "xt_State (r_txn r2) = XAStateAborted" "xt_ID (r_txn r2) = p"
    using abort_outcome [OF a] abort_step [OF a] rs by (auto simp: run_step_def)
  moreover have "commit_body now ?r = (None, r2)"
    using assms(3,4,5) a by (simp add: commit_body_def begin_run_def)
  ultimately show ?thesis using lock_txn_free [OF inv assms(2)]
    by (auto simp: Commit_def set_commit_time_def end_run_def store_run_def)
qed

lemma Commit_hides_abort_witness:
  "\<exists>tm' w' t'. Commit 1 0 7 (sample_manager [willing ''a'', unwilling ''b'']) 0 = Some (None, tm', w') \<and>
     tm_heap tm' 7 = Some t' \<and> xt_State t' = XAStateAborted"
proof -
  obtain t where t: "tm_heap (sample_manager [willing ''a'', unwilling ''b'']) 7 = Some t"
      "xt_State t = XAStateActive" "xt_Resources t = [willing ''a'', unwilling ''b'']" "xt_TimeoutAt t = 100"
    using sample_txn by blast
  let ?r = "begin_run (t\<lparr>xt_mu := True\<rparr>) (sample_manager [willing ''a'', unwilling ''b'']) 0"
  have p: "\<exists>reason r1. prepare 1 ?r = (Some reason, r1)"
    using t by (simp add: prepare_def begin_run_def willing_def unwilling_def)
  then obtain reason r1 where p: "prepare 1 ?r = (Some reason, r1)" by blast
  have "fst (rollback_loop (xt_Resources t) r1) = []"
    using t by (simp add: willing_def unwilling_def)
  then show ?thesis using Commit_hides_abort [OF sample_reach t(1,2) _ p] t(4) by simp
qed

text \<open>
  C7: \<open>CommitWithRetry\<close> of an active transaction never returns exactly when it decides to abort: when
  the transaction is past its timeout, or when at some attempt, all earlier ones having failed in a
  retryable way, the prepare fails with an error that is not retryable. It holds the transaction's
  mutex and \<open>abortWithReason\<close> goes through \<open>Abort\<close>, which locks it again. In all other cases it
  returns, also when the retries are used up, where it does not abort.
\<close>

theorem CommitWithRetry_deadlock:
  assumes "xa_reach tm w" and "tm_heap tm p = Some t" and "xt_State t = XAStateActive"
  shows "CommitWithRetry env now el p k tm w = None \<longleftrightarrow>
    xt_TimeoutAt t < now \<or>
    (\<exists>a r e r'. int a \<le> k \<and> attempt_run env 0 a (begin_run (t\<lparr>xt_mu := True\<rparr>) tm w) = Some r \<and>
       prepareWithTimeout (env_pdone env a) (env_clock env a) r = (Some e, r') \<and>
       \<not> isRetryableXAError (env_ustr env) e)"
proof -
  note inv = xa_reach_inv [OF assms(1)]
  let ?r = "begin_run (t\<lparr>xt_mu := True\<rparr>) tm w"
  have id: "xt_ID (r_txn ?r) = p" "xt_mu (r_txn ?r)"
    using xa_invD [OF inv assms(2)] by (simp_all add: begin_run_def)
  note held = abortWithReason_held [of ?r, OF id(2), unfolded id(1)]
  have "a < nat (k + 1) \<longleftrightarrow> int a \<le> k" for a by linarith
  then show ?thesis using lock_txn_free [OF inv assms(2)] assms(3) held
    by (simp add: CommitWithRetry_def retry_loop_blocks [of ?r, OF id(2)] aborts_at_def)
qed

lemma CommitWithRetry_deadlock_witness:
  "CommitWithRetry \<lparr>env_ustr = \<lambda>u. ''u'', env_pdone = \<lambda>a i. False, env_cdone = \<lambda>a i. False,
     env_clock = \<lambda>a. 1\<rparr> 101 0 7 3 (sample_manager [willing ''a'', unwilling ''b'']) 0 = None"
proof -
  obtain t where t: "tm_heap (sample_manager [willing ''a'', unwilling ''b'']) 7 = Some t"
      "xt_State t = XAStateActive" "xt_TimeoutAt t = 100"
    using sample_txn by blast
  then show ?thesis by (simp add: CommitWithRetry_deadlock [OF sample_reach t(1,2)])
qed



text \<open>
  recovery is complete: on a reachable manager \<open>performRecovery\<close> returns, whatever the order in
  which it ranges over the registry; every active transaction past its timeout is then aborted or
  heuristically aborted, and no other transaction has changed.
\<close>

theorem recovery_complete:
  assumes "xa_reach tm w" and "distinct ps" and "set ps = tm_transactions tm"
  shows "\<exists>tm' w'. performRecovery clock ps tm w = Some (tm', w') \<and>
    (\<forall>p t. tm_heap tm p = Some t \<longrightarrow>
      (if xt_State t = XAStateActive \<and> xt_TimeoutAt t < clock p
       then \<exists>t'. tm_heap tm' p = Some t' \<and> xt_State t' \<in> {XAStateAborted, XAStateHeurAbort}
       else tm_heap tm' p = Some t))"
  using recovery_effect [OF xa_reach_inv [OF assms(1)] assms(2,3), of clock w]
  unfolding swept_def by blast

lemma recovery_complete_witness:
  "\<exists>tm' w' t'. performRecovery (\<lambda>p. 200) [7] (sample_manager [willing ''a'', unwilling ''b'']) 0 =
     Some (tm', w') \<and> tm_heap tm' 7 = Some t' \<and> xt_State t' \<in> {XAStateAborted, XAStateHeurAbort}"
proof -
  obtain t where t: "tm_heap (sample_manager [willing ''a'', unwilling ''b'']) 7 = Some t"
      "xt_State t = XAStateActive" "xt_TimeoutAt t = 100"
    using sample_txn by blast
  have "set [7] = tm_transactions (sample_manager [willing ''a'', unwilling ''b''])"
    by (simp add: sample_simps)
  from recovery_complete [OF sample_reach _ this, of "\<lambda>p. 200" 0] t show ?thesis by fastforce
qed

text \<open>
  \<open>Abort\<close> does not look at the state: on a reachable manager it also rolls back a transaction
  that is already committed, which is then recorded as aborted (or heuristically aborted).
\<close>

theorem Abort_any_state:
  assumes "xa_reach tm w" and "tm_heap tm p = Some t" and "xt_State t = XAStateCommitted"
  shows "\<exists>e tm' w' t'. Abort now p tm w = Some (e, tm', w') \<and> tm_heap tm' p = Some t' \<and>
    (e = None \<longleftrightarrow> xt_State t' = XAStateAborted) \<and> xt_State t' \<in> {XAStateAborted, XAStateHeurAbort}"
  using Abort_returns [OF xa_reach_inv [OF assms(1)] assms(2), of now w] by auto

lemma Abort_any_state_witness:
  "\<exists>(tm :: nat xa_manager) w e tm' w' t'. Abort 2 7 tm w = Some (e, tm', w') \<and> tm_heap tm' 7 = Some t' \<and>
     xt_State t' \<in> {XAStateAborted, XAStateHeurAbort}"
proof -
  let ?tm = "sample_manager [willing ''a'']"
  have "\<exists>tm' w' t. Commit 1 0 7 ?tm 0 = Some (None, tm', w') \<and> tm_heap tm' 7 = Some t \<and>
      xt_State t = XAStateCommitted"
    by (simp add: sample_simps Commit_def commit_body_def begin_run_def prepare_def commit_def
        count_committed_def set_commit_time_def end_run_def store_run_def)
  then obtain tm w t where c: "Commit 1 0 7 ?tm 0 = Some (None, tm, w)" "tm_heap tm 7 = Some t"
      "xt_State t = XAStateCommitted" by blast
  from Abort_any_state [OF reach_commit [OF sample_reach c(1)] c(2,3), of 2] show ?thesis by blast
qed

text \<open>
  a transaction with one resource that commits stays in the registry: only the two-phase path
  starts the cleanup goroutine.
\<close>

theorem one_phase_leaks:
  assumes "xa_reach tm w" and "tm_heap tm p = Some t" and "xt_State t = XAStateActive"
    and "p \<in> tm_transactions tm" and "xt_Resources t = [res]" and "\<not> xt_TimeoutAt t < now"
    and "res_Commit res (xt_XID t) True w = (None, w1)"
  shows "\<exists>tm' t'. Commit now el p tm w = Some (None, tm', w1) \<and> tm_heap tm' p = Some t' \<and>
    xt_State t' = XAStateCommitted \<and> p \<in> tm_transactions tm' \<and> tm_cleanups tm' = tm_cleanups tm"
  using lock_txn_free [OF xa_reach_inv [OF assms(1)] assms(2)]
    xa_invD [OF xa_reach_inv [OF assms(1)] assms(2)] assms(3-7)
  by (simp add: Commit_def commit_body_def begin_run_def prepare_def commit_def count_committed_def
      set_commit_time_def end_run_def store_run_def)

lemma one_phase_leaks_witness:
  "\<exists>tm' t'. Commit 1 0 7 (sample_manager [willing ''a'']) 0 = Some (None, tm', 1) \<and>
     tm_heap tm' 7 = Some t' \<and> 7 \<in> tm_transactions tm' \<and> tm_cleanups tm' = []"
proof -
  have "\<exists>t. tm_heap (sample_manager [willing ''a'']) 7 = Some t \<and> xt_State t = XAStateActive \<and>
      xt_Resources t = [willing ''a''] \<and> xt_TimeoutAt t = 100"
    by (simp add: sample_simps)
  then obtain t where t: "tm_heap (sample_manager [willing ''a'']) 7 = Some t" "xt_State t = XAStateActive"
      "xt_Resources t = [willing ''a'']" "xt_TimeoutAt t = 100" by blast
  have m: "7 \<in> tm_transactions (sample_manager [willing ''a''])" "tm_cleanups (sample_manager [willing ''a'']) = []"
    by (simp_all add: sample_simps)
  from one_phase_leaks [OF sample_reach t(1,2) m(1) t(3), of 1 0 1 0] t(4) m(2) show ?thesis
    by (auto simp: willing_def)
qed

end
