(* ===== verification/WalletXa.thy ===== *)
theory WalletXa
  imports XaProtocol
begin

text \<open>
  The wallet's XA resource, \<open>internal/accounts/transaction/wallet_xa.go\<close>: the resource's state
  machine, the operations that queue work with its compensation, the validation at prepare, the
  execution inside one database transaction at commit and the compensations at rollback.

  The database is behind gorm, which is not part of the repository: it is the parameter
  \<open>'d wallet_db\<close>, one field per statement the code issues. A database transaction works on its own
  copy of the database state \<open>'d\<close>: rolling it back drops the copy, committing it installs the copy
  or fails. The data of an operation is the string-keyed map the code builds, read back by type
  assertions that panic on a missing key or another type. Every call holds the resource's mutex and
  releases it by \<open>defer\<close>, on a panic too.
\<close>

section \<open>Data\<close>

datatype WalletOperationType =
    WalletOpCreateWithdrawal | WalletOpApproveWithdrawal | WalletOpBroadcastWithdrawal
  | WalletOpUpdateBalance | WalletOpLockFunds | WalletOpUnlockFunds | WalletOpTransfer
  | WalletOpWhitelistAddress | WalletOpColdStorageTransfer

fun wallet_op_text :: "WalletOperationType \<Rightarrow> string" where
  "wallet_op_text WalletOpCreateWithdrawal = ''CREATE_WITHDRAWAL''"
| "wallet_op_text WalletOpApproveWithdrawal = ''APPROVE_WITHDRAWAL''"
| "wallet_op_text WalletOpBroadcastWithdrawal = ''BROADCAST_WITHDRAWAL''"
| "wallet_op_text WalletOpUpdateBalance = ''UPDATE_BALANCE''"
| "wallet_op_text WalletOpLockFunds = ''LOCK_FUNDS''"
| "wallet_op_text WalletOpUnlockFunds = ''UNLOCK_FUNDS''"
| "wallet_op_text WalletOpTransfer = ''TRANSFER''"
| "wallet_op_text WalletOpWhitelistAddress = ''WHITELIST_ADDRESS''"
| "wallet_op_text WalletOpColdStorageTransfer = ''COLD_STORAGE_TRANSFER''"

record wallet_operation =
  wo_ID :: string
  wo_Type :: WalletOperationType
  wo_Timestamp :: time
  wo_Data :: "string \<rightharpoonup> any"

record wallet_compensation =
  wc_OperationID :: string
  wc_Type :: WalletOperationType
  wc_OriginalData :: "string \<rightharpoonup> any"
  wc_CompensateData :: "string \<rightharpoonup> any"
  wc_Timestamp :: time

record wallet_row =
  wr_ID :: string
  wr_Balance :: decimal
  wr_UpdatedAt :: time
  wr_AddressWhitelist :: "string list"

record withdrawal_request =
  wq_ID :: uuid
  wq_UserID :: uuid
  wq_WalletID :: string
  wq_Asset :: string
  wq_Amount :: decimal
  wq_ToAddress :: string
  wq_Status :: string
  wq_CreatedAt :: time
  wq_UpdatedAt :: time

record approval =
  ap_ID :: uuid
  ap_RequestID :: uuid
  ap_Approver :: string
  ap_Approved :: bool
  ap_Timestamp :: time

text \<open>
  The statements issued through gorm and the library functions used: \<open>db_float\<close> is
  \<open>decimal.NewFromFloat\<close>, \<open>db_show_float\<close> the verb \<open>%f\<close>, \<open>db_ustr\<close> is \<open>uuid.String\<close>.
\<close>

record 'd wallet_db =
  db_find_wallet :: "string \<Rightarrow> 'd \<Rightarrow> go_error + wallet_row"
  db_find_request :: "uuid \<Rightarrow> 'd \<Rightarrow> go_error + withdrawal_request"
  db_create_request :: "withdrawal_request \<Rightarrow> 'd \<Rightarrow> go_error option \<times> 'd"
  db_create_approval :: "approval \<Rightarrow> 'd \<Rightarrow> go_error option \<times> 'd"
  db_count_approved :: "uuid \<Rightarrow> 'd \<Rightarrow> nat"
  db_set_request_status :: "uuid \<Rightarrow> string \<Rightarrow> time \<Rightarrow> 'd \<Rightarrow> go_error option \<times> 'd"
  db_add_balance :: "string \<Rightarrow> rat \<Rightarrow> time \<Rightarrow> 'd \<Rightarrow> go_error option \<times> 'd"
  db_set_balance :: "string \<Rightarrow> rat \<Rightarrow> time \<Rightarrow> 'd \<Rightarrow> go_error option \<times> 'd"
  db_save_wallet :: "wallet_row \<Rightarrow> 'd \<Rightarrow> go_error option \<times> 'd"
  db_delete_approvals :: "uuid \<Rightarrow> string \<Rightarrow> 'd \<Rightarrow> go_error option \<times> 'd"
  db_begin :: "'d \<Rightarrow> go_error option"
  db_commit :: "'d \<Rightarrow> go_error option"
  db_float :: "rat \<Rightarrow> decimal"
  db_show_float :: "rat \<Rightarrow> string"
  db_ustr :: "uuid \<Rightarrow> string"

record wallet_xa =
  wx_xid :: string
  wx_state :: XAResourceState
  wx_operations :: "wallet_operation list"
  wx_comps :: "wallet_compensation list"

definition NewWalletXAResource :: wallet_xa where
  "NewWalletXAResource =
     \<lparr>wx_xid = '''', wx_state = XAResourceStateActive, wx_operations = [], wx_comps = []\<rparr>"

section \<open>The state machine\<close>

definition nota :: go_error where
  "nota = XAException XAErrorXAER_NOTA ''Transaction not associated with this resource'' None"

definition w_Start :: "string \<Rightarrow> wallet_xa \<Rightarrow> go_error option \<times> wallet_xa" where
  "w_Start xid w =
     (if wx_state w \<noteq> XAResourceStateActive then
        (Some (XAException XAErrorRMFAIL
           (''Cannot start XA transaction in state '' @ resource_state_text (wx_state w)) None), w)
      else (None, w\<lparr>wx_xid := xid, wx_operations := [], wx_comps := []\<rparr>))"

definition w_End :: "string \<Rightarrow> nat \<Rightarrow> wallet_xa \<Rightarrow> go_error option \<times> wallet_xa" where
  "w_End xid flags w =
     (if wx_xid w \<noteq> xid then (Some nota, w)
      else if and flags XAFlagTMSUCCESS \<noteq> 0 then (None, w\<lparr>wx_state := XAResourceStateIdle\<rparr>)
      else (None, w\<lparr>wx_state := XAResourceStateRollbackOnly\<rparr>))"

section \<open>Queueing operations\<close>

text \<open>\<open>opID\<close> is a fresh UUID's text, \<open>now\<close> the clock.\<close>

definition queue_op ::
    "wallet_operation \<Rightarrow> wallet_compensation \<Rightarrow> wallet_xa \<Rightarrow> wallet_xa" where
  "queue_op op cmp w =
     w\<lparr>wx_operations := wx_operations w @ [op], wx_comps := wx_comps w @ [cmp]\<rparr>"

definition CreateWithdrawalRequest ::
    "'d wallet_db \<Rightarrow> string \<Rightarrow> uuid \<Rightarrow> time \<Rightarrow> uuid \<Rightarrow> string \<Rightarrow> string \<Rightarrow> string \<Rightarrow> rat \<Rightarrow> wallet_xa \<Rightarrow>
     withdrawal_request \<times> wallet_xa" where
  "CreateWithdrawalRequest db opID reqID now userID walletID asset toAddress amount w =
     (let data = [''user_id'' \<mapsto> AUuid userID, ''wallet_id'' \<mapsto> AStr walletID, ''asset'' \<mapsto> AStr asset,
                  ''to_address'' \<mapsto> AStr toAddress, ''amount'' \<mapsto> AFloat amount];
          cmp = \<lparr>wc_OperationID = opID, wc_Type = WalletOpCreateWithdrawal, wc_OriginalData = data,
                  wc_CompensateData = Map.empty, wc_Timestamp = now\<rparr>;
          op = \<lparr>wo_ID = opID, wo_Type = WalletOpCreateWithdrawal, wo_Timestamp = now, wo_Data = data\<rparr>
      in (\<lparr>wq_ID = reqID, wq_UserID = userID, wq_WalletID = walletID, wq_Asset = asset,
           wq_Amount = db_float db amount, wq_ToAddress = toAddress, wq_Status = ''pending'',
           wq_CreatedAt = now, wq_UpdatedAt = now\<rparr>, queue_op op cmp w))"

definition ApproveWithdrawal ::
    "string \<Rightarrow> time \<Rightarrow> uuid \<Rightarrow> string \<Rightarrow> wallet_xa \<Rightarrow> wallet_xa" where
  "ApproveWithdrawal opID now requestID approver w =
     (let data = [''request_id'' \<mapsto> AUuid requestID, ''approver'' \<mapsto> AStr approver];
          cmp = \<lparr>wc_OperationID = opID, wc_Type = WalletOpApproveWithdrawal, wc_OriginalData = data,
                  wc_CompensateData = Map.empty, wc_Timestamp = now\<rparr>;
          op = \<lparr>wo_ID = opID, wo_Type = WalletOpApproveWithdrawal, wo_Timestamp = now, wo_Data = data\<rparr>
      in queue_op op cmp w)"

definition BroadcastWithdrawal :: "string \<Rightarrow> time \<Rightarrow> uuid \<Rightarrow> wallet_xa \<Rightarrow> wallet_xa" where
  "BroadcastWithdrawal opID now requestID w =
     (let data = [''request_id'' \<mapsto> AUuid requestID];
          cmp = \<lparr>wc_OperationID = opID, wc_Type = WalletOpBroadcastWithdrawal, wc_OriginalData = data,
                  wc_CompensateData = Map.empty, wc_Timestamp = now\<rparr>;
          op = \<lparr>wo_ID = opID, wo_Type = WalletOpBroadcastWithdrawal, wo_Timestamp = now, wo_Data = data\<rparr>
      in queue_op op cmp w)"

text \<open>The balance read from the database, a decimal, is remembered for the compensation.\<close>

definition UpdateWalletBalance ::
    "'d wallet_db \<Rightarrow> string \<Rightarrow> time \<Rightarrow> string \<Rightarrow> rat \<Rightarrow> string \<Rightarrow> 'd \<Rightarrow> wallet_xa \<Rightarrow>
     go_error option \<times> wallet_xa" where
  "UpdateWalletBalance db opID now walletID amount opType d w =
     (case db_find_wallet db walletID d of
        Inl e \<Rightarrow> (Some (Errorf (''failed to get wallet for balance update: '' @ error_text (db_ustr db) e)), w)
      | Inr wallet \<Rightarrow>
         (let cmp = \<lparr>wc_OperationID = opID, wc_Type = WalletOpUpdateBalance,
                wc_OriginalData = [''wallet_id'' \<mapsto> AStr walletID, ''original_balance'' \<mapsto> ADec (wr_Balance wallet)],
                wc_CompensateData = [''wallet_id'' \<mapsto> AStr walletID, ''restore_balance'' \<mapsto> ADec (wr_Balance wallet)],
                wc_Timestamp = now\<rparr>;
              op = \<lparr>wo_ID = opID, wo_Type = WalletOpUpdateBalance, wo_Timestamp = now,
                wo_Data = [''wallet_id'' \<mapsto> AStr walletID, ''amount'' \<mapsto> AFloat amount,
                           ''operation'' \<mapsto> AStr opType]\<rparr>
          in (None, queue_op op cmp w)))"

definition AddWhitelistAddress ::
    "'d wallet_db \<Rightarrow> string \<Rightarrow> time \<Rightarrow> string \<Rightarrow> string \<Rightarrow> 'd \<Rightarrow> wallet_xa \<Rightarrow> go_error option \<times> wallet_xa" where
  "AddWhitelistAddress db opID now walletID address d w =
     (case db_find_wallet db walletID d of
        Inl e \<Rightarrow> (Some (Errorf (''failed to get wallet for whitelist update: '' @ error_text (db_ustr db) e)), w)
      | Inr wallet \<Rightarrow>
         (let cmp = \<lparr>wc_OperationID = opID, wc_Type = WalletOpWhitelistAddress,
                wc_OriginalData = [''wallet_id'' \<mapsto> AStr walletID,
                                   ''original_whitelist'' \<mapsto> AStrs (wr_AddressWhitelist wallet)],
                wc_CompensateData = [''wallet_id'' \<mapsto> AStr walletID, ''remove_address'' \<mapsto> AStr address],
                wc_Timestamp = now\<rparr>;
              op = \<lparr>wo_ID = opID, wo_Type = WalletOpWhitelistAddress, wo_Timestamp = now,
                wo_Data = [''wallet_id'' \<mapsto> AStr walletID, ''address'' \<mapsto> AStr address,
                           ''action'' \<mapsto> AStr ''add'']\<rparr>
          in (None, queue_op op cmp w)))"

section \<open>Prepare\<close>

definition find_wallet_check :: "'d wallet_db \<Rightarrow> (string \<rightharpoonup> any) \<Rightarrow> 'd \<Rightarrow> go_error option outcome" where
  "find_wallet_check db data d =
     bind_outcome (assert_str data ''wallet_id'') (\<lambda>walletID.
       case db_find_wallet db walletID d of
         Inl e \<Rightarrow> Returns (Some (Errorf (''wallet not found: '' @ error_text (db_ustr db) e)))
       | Inr _ \<Rightarrow> Returns None)"

definition find_request_check ::
    "'d wallet_db \<Rightarrow> (string \<rightharpoonup> any) \<Rightarrow> string \<Rightarrow> string \<Rightarrow> 'd \<Rightarrow> go_error option outcome" where
  "find_request_check db data status msg d =
     bind_outcome (assert_uuid data ''request_id'') (\<lambda>requestID.
       case db_find_request db requestID d of
         Inl e \<Rightarrow> Returns (Some (Errorf (''withdrawal request not found: '' @ error_text (db_ustr db) e)))
       | Inr wr \<Rightarrow> Returns (if wq_Status wr \<noteq> status then Some (Errorf (msg @ wq_Status wr)) else None))"

definition w_validateOperation ::
    "'d wallet_db \<Rightarrow> 'd \<Rightarrow> wallet_operation \<Rightarrow> go_error option outcome" where
  "w_validateOperation db d op =
     (case wo_Type op of
        WalletOpCreateWithdrawal \<Rightarrow>
          bind_outcome (assert_str (wo_Data op) ''wallet_id'') (\<lambda>walletID.
          bind_outcome (assert_float (wo_Data op) ''amount'') (\<lambda>amount.
            if amount \<le> 0 then
              Returns (Some (Errorf (''invalid withdrawal amount: '' @ db_show_float db amount)))
            else find_wallet_check db (wo_Data op) d))
      | WalletOpApproveWithdrawal \<Rightarrow>
          find_request_check db (wo_Data op) ''pending'' ''withdrawal request not in pending state: '' d
      | WalletOpBroadcastWithdrawal \<Rightarrow>
          find_request_check db (wo_Data op) ''approved'' ''withdrawal request not approved: '' d
      | WalletOpUpdateBalance \<Rightarrow> find_wallet_check db (wo_Data op) d
      | WalletOpWhitelistAddress \<Rightarrow> find_wallet_check db (wo_Data op) d
      | _ \<Rightarrow> Returns None)"

fun w_validate_all ::
    "'d wallet_db \<Rightarrow> 'd \<Rightarrow> wallet_operation list \<Rightarrow> go_error option outcome" where
  "w_validate_all db d [] = Returns None"
| "w_validate_all db d (op # ops) =
     bind_outcome (w_validateOperation db d op) (\<lambda>err.
       case err of Some e \<Rightarrow> Returns (Some e) | None \<Rightarrow> w_validate_all db d ops)"

text \<open>Several operations on one wallet are only logged.\<close>

fun w_checkResourceConflicts :: "wallet_operation list \<Rightarrow> go_error option outcome" where
  "w_checkResourceConflicts [] = Returns None"
| "w_checkResourceConflicts (op # ops) =
     (if wo_Type op \<in> {WalletOpCreateWithdrawal, WalletOpUpdateBalance, WalletOpWhitelistAddress} then
        bind_outcome (assert_str (wo_Data op) ''wallet_id'') (\<lambda>walletID. w_checkResourceConflicts ops)
      else w_checkResourceConflicts ops)"

definition w_Prepare ::
    "'d wallet_db \<Rightarrow> XID \<Rightarrow> 'd \<Rightarrow> wallet_xa \<Rightarrow> ((bool \<times> go_error option) \<times> wallet_xa) outcome" where
  "w_Prepare db xid d w =
     (if wx_xid w \<noteq> xid_text xid then Returns ((False, Some nota), w)
      else if wx_state w = XAResourceStateRollbackOnly then
        Returns ((False, Some (XAException XAErrorRB_ROLLBACK
          ''Transaction marked for rollback only'' None)), w)
      else bind_outcome (w_validate_all db d (wx_operations w)) (\<lambda>err. case err of
          Some e \<Rightarrow> Returns ((False, Some (XAException XAErrorRB_ROLLBACK
            (''Operation validation failed: '' @ error_text (db_ustr db) e) None)),
            w\<lparr>wx_state := XAResourceStateRollbackOnly\<rparr>)
        | None \<Rightarrow> bind_outcome (w_checkResourceConflicts (wx_operations w)) (\<lambda>err. case err of
              Some e \<Rightarrow> Returns ((False, Some (XAException XAErrorRB_ROLLBACK
                (''Resource conflict: '' @ error_text (db_ustr db) e) None)),
                w\<lparr>wx_state := XAResourceStateRollbackOnly\<rparr>)
            | None \<Rightarrow> Returns ((True, None), w\<lparr>wx_state := XAResourceStatePrepared\<rparr>))))"

section \<open>Execution and commit\<close>

text \<open>A statement that cannot panic, as an outcome.\<close>

abbreviation run_stmt :: "go_error option \<times> 'd \<Rightarrow> (go_error option \<times> 'd) outcome" where
  "run_stmt r \<equiv> Returns r"

definition executeCreateWithdrawal ::
    "'d wallet_db \<Rightarrow> uuid \<Rightarrow> time \<Rightarrow> (string \<rightharpoonup> any) \<Rightarrow> 'd \<Rightarrow> (go_error option \<times> 'd) outcome" where
  "executeCreateWithdrawal db new now data tx =
     bind_outcome (assert_uuid data ''user_id'') (\<lambda>userID.
     bind_outcome (assert_str data ''wallet_id'') (\<lambda>walletID.
     bind_outcome (assert_str data ''asset'') (\<lambda>asset.
     bind_outcome (assert_str data ''to_address'') (\<lambda>toAddress.
     bind_outcome (assert_float data ''amount'') (\<lambda>amount.
       run_stmt (db_create_request db
         \<lparr>wq_ID = new, wq_UserID = userID, wq_WalletID = walletID, wq_Asset = asset,
          wq_Amount = db_float db amount, wq_ToAddress = toAddress, wq_Status = ''pending'',
          wq_CreatedAt = now, wq_UpdatedAt = now\<rparr> tx))))))"

definition executeApproveWithdrawal ::
    "'d wallet_db \<Rightarrow> uuid \<Rightarrow> time \<Rightarrow> (string \<rightharpoonup> any) \<Rightarrow> 'd \<Rightarrow> (go_error option \<times> 'd) outcome" where
  "executeApproveWithdrawal db new now data tx =
     bind_outcome (assert_uuid data ''request_id'') (\<lambda>requestID.
     bind_outcome (assert_str data ''approver'') (\<lambda>approver.
       case db_create_approval db \<lparr>ap_ID = new, ap_RequestID = requestID, ap_Approver = approver,
              ap_Approved = True, ap_Timestamp = now\<rparr> tx of
         (Some e, tx') \<Rightarrow> Returns (Some e, tx')
       | (None, tx') \<Rightarrow>
           (if 2 \<le> db_count_approved db requestID tx' then
              run_stmt (db_set_request_status db requestID ''approved'' now tx')
            else Returns (None, tx'))))"

definition executeBroadcastWithdrawal ::
    "'d wallet_db \<Rightarrow> time \<Rightarrow> (string \<rightharpoonup> any) \<Rightarrow> 'd \<Rightarrow> (go_error option \<times> 'd) outcome" where
  "executeBroadcastWithdrawal db now data tx =
     bind_outcome (assert_uuid data ''request_id'') (\<lambda>requestID.
       run_stmt (db_set_request_status db requestID ''broadcasted'' now tx))"

definition executeUpdateBalance ::
    "'d wallet_db \<Rightarrow> time \<Rightarrow> (string \<rightharpoonup> any) \<Rightarrow> 'd \<Rightarrow> (go_error option \<times> 'd) outcome" where
  "executeUpdateBalance db now data tx =
     bind_outcome (assert_str data ''wallet_id'') (\<lambda>walletID.
     bind_outcome (assert_float data ''amount'') (\<lambda>amount.
       run_stmt (db_add_balance db walletID amount now tx)))"

text \<open>The two loops over the whitelist.\<close>

definition whitelist_add :: "string \<Rightarrow> string list \<Rightarrow> string list option" where
  "whitelist_add address ws = (if address \<in> set ws then None else Some (ws @ [address]))"

definition whitelist_remove :: "string \<Rightarrow> string list \<Rightarrow> string list" where
  "whitelist_remove address ws = filter (\<lambda>addr. addr \<noteq> address) ws"

definition executeWhitelistAddress ::
    "'d wallet_db \<Rightarrow> time \<Rightarrow> (string \<rightharpoonup> any) \<Rightarrow> 'd \<Rightarrow> (go_error option \<times> 'd) outcome" where
  "executeWhitelistAddress db now data tx =
     bind_outcome (assert_str data ''wallet_id'') (\<lambda>walletID.
     bind_outcome (assert_str data ''address'') (\<lambda>address.
     bind_outcome (assert_str data ''action'') (\<lambda>action.
       case db_find_wallet db walletID tx of
         Inl e \<Rightarrow> Returns (Some e, tx)
       | Inr wallet \<Rightarrow>
           (if action = ''add'' then
              (case whitelist_add address (wr_AddressWhitelist wallet) of
                 None \<Rightarrow> Returns (None, tx)
               | Some ws \<Rightarrow> run_stmt (db_save_wallet db
                   (wallet\<lparr>wr_AddressWhitelist := ws, wr_UpdatedAt := now\<rparr>) tx))
            else if action = ''remove'' then
              run_stmt (db_save_wallet db (wallet\<lparr>wr_AddressWhitelist :=
                whitelist_remove address (wr_AddressWhitelist wallet), wr_UpdatedAt := now\<rparr>) tx)
            else run_stmt (db_save_wallet db (wallet\<lparr>wr_UpdatedAt := now\<rparr>) tx)))))"

definition w_executeOperation ::
    "'d wallet_db \<Rightarrow> uuid \<Rightarrow> time \<Rightarrow> wallet_operation \<Rightarrow> 'd \<Rightarrow> (go_error option \<times> 'd) outcome" where
  "w_executeOperation db new now op tx =
     (case wo_Type op of
        WalletOpCreateWithdrawal \<Rightarrow> executeCreateWithdrawal db new now (wo_Data op) tx
      | WalletOpApproveWithdrawal \<Rightarrow> executeApproveWithdrawal db new now (wo_Data op) tx
      | WalletOpBroadcastWithdrawal \<Rightarrow> executeBroadcastWithdrawal db now (wo_Data op) tx
      | WalletOpUpdateBalance \<Rightarrow> executeUpdateBalance db now (wo_Data op) tx
      | WalletOpWhitelistAddress \<Rightarrow> executeWhitelistAddress db now (wo_Data op) tx
      | _ \<Rightarrow> Returns (Some (Errorf (''unknown operation type: '' @ wallet_op_text (wo_Type op))), tx))"

text \<open>\<open>fresh i\<close> is the UUID made for the \<open>i\<close>-th operation; an error comes with the operation's ID.\<close>

fun w_execute_all ::
    "'d wallet_db \<Rightarrow> (nat \<Rightarrow> uuid) \<Rightarrow> time \<Rightarrow> nat \<Rightarrow> wallet_operation list \<Rightarrow> 'd \<Rightarrow>
     ((string \<times> go_error) option \<times> 'd) outcome" where
  "w_execute_all db fresh now i [] tx = Returns (None, tx)"
| "w_execute_all db fresh now i (op # ops) tx =
     bind_outcome (w_executeOperation db (fresh i) now op tx) (\<lambda>(err, tx'). case err of
         Some e \<Rightarrow> Returns (Some (wo_ID op, e), tx')
       | None \<Rightarrow> w_execute_all db fresh now (Suc i) ops tx')"

text \<open>
  A panic while the operations run is recovered: the transaction is rolled back and the call
  returns the zero value of its result, a nil error.
\<close>

definition w_Commit ::
    "'d wallet_db \<Rightarrow> (nat \<Rightarrow> uuid) \<Rightarrow> time \<Rightarrow> XID \<Rightarrow> bool \<Rightarrow> 'd \<Rightarrow> wallet_xa \<Rightarrow>
     go_error option \<times> 'd \<times> wallet_xa" where
  "w_Commit db fresh now xid onePhase d w =
     (if wx_xid w \<noteq> xid_text xid then (Some nota, d, w)
      else if \<not> onePhase \<and> wx_state w \<noteq> XAResourceStatePrepared then
        (Some (XAException XAErrorXAER_PROTO
           (''Invalid state for commit: '' @ resource_state_text (wx_state w)) None), d, w)
      else case db_begin db d of
        Some e \<Rightarrow> (Some (XAException XAErrorRMFAIL
          (''Failed to begin database transaction: '' @ error_text (db_ustr db) e) None), d, w)
      | None \<Rightarrow>
        (case w_execute_all db fresh now 0 (wx_operations w) d of
           Returns (Some (opID, e), tx) \<Rightarrow> (Some (XAException XAErrorRMFAIL
             (''Failed to execute operation '' @ opID @ '': '' @ error_text (db_ustr db) e) None), d, w)
         | Returns (None, tx) \<Rightarrow>
             (case db_commit db tx of
                Some e \<Rightarrow> (Some (XAException XAErrorRMFAIL
                  (''Database commit failed: '' @ error_text (db_ustr db) e) None), d, w)
              | None \<Rightarrow> (None, tx, w\<lparr>wx_state := XAResourceStateCommitted,
                  wx_operations := [], wx_comps := []\<rparr>))
         | _ \<Rightarrow> (None, d, w)))"

section \<open>Rollback\<close>

definition executeCompensation ::
    "'d wallet_db \<Rightarrow> time \<Rightarrow> wallet_compensation \<Rightarrow> 'd \<Rightarrow> (go_error option \<times> 'd) outcome" where
  "executeCompensation db now cmp d =
     (case wc_Type cmp of
        WalletOpCreateWithdrawal \<Rightarrow> Returns (None, d)
      | WalletOpApproveWithdrawal \<Rightarrow>
          bind_outcome (assert_uuid (wc_OriginalData cmp) ''request_id'') (\<lambda>requestID.
          bind_outcome (assert_str (wc_OriginalData cmp) ''approver'') (\<lambda>approver.
            run_stmt (db_delete_approvals db requestID approver d)))
      | WalletOpUpdateBalance \<Rightarrow>
          bind_outcome (assert_str (wc_CompensateData cmp) ''wallet_id'') (\<lambda>walletID.
          bind_outcome (assert_float (wc_CompensateData cmp) ''restore_balance'') (\<lambda>restoreBalance.
            run_stmt (db_set_balance db walletID restoreBalance now d)))
      | WalletOpWhitelistAddress \<Rightarrow>
          bind_outcome (assert_str (wc_CompensateData cmp) ''wallet_id'') (\<lambda>walletID.
          bind_outcome (assert_str (wc_CompensateData cmp) ''remove_address'') (\<lambda>removeAddress.
            case db_find_wallet db walletID d of
              Inl e \<Rightarrow> Returns (Some e, d)
            | Inr wallet \<Rightarrow> run_stmt (db_save_wallet db (wallet\<lparr>wr_AddressWhitelist :=
                whitelist_remove removeAddress (wr_AddressWhitelist wallet), wr_UpdatedAt := now\<rparr>) d)))
      | _ \<Rightarrow> Returns (None, d))"

text \<open>The compensations from the last to the first; an error of one is logged and dropped.\<close>

fun compensate_all ::
    "'d wallet_db \<Rightarrow> time \<Rightarrow> wallet_compensation list \<Rightarrow> 'd \<Rightarrow> 'd outcome" where
  "compensate_all db now [] d = Returns d"
| "compensate_all db now (cmp # rest) d =
     bind_outcome (executeCompensation db now cmp d) (\<lambda>(err, d'). compensate_all db now rest d')"

definition w_Rollback ::
    "'d wallet_db \<Rightarrow> time \<Rightarrow> XID \<Rightarrow> 'd \<Rightarrow> wallet_xa \<Rightarrow> (go_error option \<times> 'd \<times> wallet_xa) outcome" where
  "w_Rollback db now xid d w =
     (if wx_xid w \<noteq> xid_text xid then Returns (Some nota, d, w)
      else bind_outcome (compensate_all db now (rev (wx_comps w)) d) (\<lambda>d'.
        Returns (None, d', w\<lparr>wx_state := XAResourceStateRolledBack, wx_operations := [], wx_comps := []\<rparr>)))"

definition w_Forget :: "XID \<Rightarrow> wallet_xa \<Rightarrow> go_error option \<times> wallet_xa" where
  "w_Forget xid w =
     (if wx_xid w \<noteq> xid_text xid then (Some nota, w)
      else (None, \<lparr>wx_xid = '''', wx_state = XAResourceStateActive, wx_operations = [], wx_comps = []\<rparr>))"

definition w_Recover :: "wallet_xa \<Rightarrow> XID list \<times> go_error option" where
  "w_Recover w = ([], None)"

definition GetOperationCount :: "wallet_xa \<Rightarrow> nat" where
  "GetOperationCount w = length (wx_operations w)"

definition GetTransactionState :: "wallet_xa \<Rightarrow> XAResourceState" where
  "GetTransactionState w = wx_state w"

definition GetOperations :: "wallet_xa \<Rightarrow> wallet_operation list" where
  "GetOperations w = wx_operations w"

definition wallet_name :: string where
  "wallet_name = ''wallet''"

section \<open>What the queue holds\<close>

text \<open>The operations and compensations that the exported functions can have queued.\<close>

definition op_typed :: "wallet_operation \<Rightarrow> bool" where
  "op_typed op \<longleftrightarrow>
     (case wo_Type op of
        WalletOpCreateWithdrawal \<Rightarrow>
          (\<exists>u. wo_Data op ''user_id'' = Some (AUuid u)) \<and> (\<exists>s. wo_Data op ''wallet_id'' = Some (AStr s)) \<and>
          (\<exists>s. wo_Data op ''asset'' = Some (AStr s)) \<and> (\<exists>s. wo_Data op ''to_address'' = Some (AStr s)) \<and>
          (\<exists>f. wo_Data op ''amount'' = Some (AFloat f))
      | WalletOpApproveWithdrawal \<Rightarrow>
          (\<exists>u. wo_Data op ''request_id'' = Some (AUuid u)) \<and> (\<exists>s. wo_Data op ''approver'' = Some (AStr s))
      | WalletOpBroadcastWithdrawal \<Rightarrow> (\<exists>u. wo_Data op ''request_id'' = Some (AUuid u))
      | WalletOpUpdateBalance \<Rightarrow>
          (\<exists>s. wo_Data op ''wallet_id'' = Some (AStr s)) \<and> (\<exists>f. wo_Data op ''amount'' = Some (AFloat f))
      | WalletOpWhitelistAddress \<Rightarrow>
          (\<exists>s. wo_Data op ''wallet_id'' = Some (AStr s)) \<and> (\<exists>s. wo_Data op ''address'' = Some (AStr s)) \<and>
          (\<exists>s. wo_Data op ''action'' = Some (AStr s))
      | _ \<Rightarrow> False)"

definition cmp_typed :: "wallet_compensation \<Rightarrow> bool" where
  "cmp_typed cmp \<longleftrightarrow>
     (case wc_Type cmp of
        WalletOpApproveWithdrawal \<Rightarrow>
          (\<exists>u. wc_OriginalData cmp ''request_id'' = Some (AUuid u)) \<and>
          (\<exists>s. wc_OriginalData cmp ''approver'' = Some (AStr s))
      | WalletOpUpdateBalance \<Rightarrow>
          (\<exists>s. wc_CompensateData cmp ''wallet_id'' = Some (AStr s)) \<and>
          (\<exists>b. wc_CompensateData cmp ''restore_balance'' = Some (ADec b))
      | WalletOpWhitelistAddress \<Rightarrow>
          (\<exists>s. wc_CompensateData cmp ''wallet_id'' = Some (AStr s)) \<and>
          (\<exists>s. wc_CompensateData cmp ''remove_address'' = Some (AStr s))
      | _ \<Rightarrow> True)"

definition queue_ok :: "wallet_xa \<Rightarrow> bool" where
  "queue_ok w \<longleftrightarrow> (\<forall>op \<in> set (wx_operations w). op_typed op) \<and> (\<forall>c \<in> set (wx_comps w). cmp_typed c) \<and>
     map wc_Type (wx_comps w) = map wo_Type (wx_operations w)"

inductive wallet_reach :: "'d wallet_db \<Rightarrow> wallet_xa \<Rightarrow> bool" for db where
  wreach_new: "wallet_reach db NewWalletXAResource"
| wreach_start: "wallet_reach db w \<Longrightarrow> wallet_reach db (snd (w_Start x w))"
| wreach_end: "wallet_reach db w \<Longrightarrow> wallet_reach db (snd (w_End x f w))"
| wreach_create: "wallet_reach db w \<Longrightarrow>
    wallet_reach db (snd (CreateWithdrawalRequest db i r now u wl a t amt w))"
| wreach_approve: "wallet_reach db w \<Longrightarrow> wallet_reach db (ApproveWithdrawal i now r a w)"
| wreach_broadcast: "wallet_reach db w \<Longrightarrow> wallet_reach db (BroadcastWithdrawal i now r w)"
| wreach_update: "wallet_reach db w \<Longrightarrow> wallet_reach db (snd (UpdateWalletBalance db i now wl amt t d w))"
| wreach_whitelist: "wallet_reach db w \<Longrightarrow> wallet_reach db (snd (AddWhitelistAddress db i now wl a d w))"
| wreach_prepare: "wallet_reach db w \<Longrightarrow> w_Prepare db x d w = Returns (v, w') \<Longrightarrow> wallet_reach db w'"
| wreach_commit: "wallet_reach db w \<Longrightarrow> w_Commit db fresh now x b d w = (e, d', w') \<Longrightarrow> wallet_reach db w'"
| wreach_rollback: "wallet_reach db w \<Longrightarrow> w_Rollback db now x d w = Returns (e, d', w') \<Longrightarrow>
    wallet_reach db w'"
| wreach_forget: "wallet_reach db w \<Longrightarrow> wallet_reach db (snd (w_Forget x w))"

lemma queue_ok_queue_op:
  "queue_ok w \<Longrightarrow> op_typed op \<Longrightarrow> cmp_typed cmp \<Longrightarrow> wc_Type cmp = wo_Type op \<Longrightarrow>
   queue_ok (queue_op op cmp w)"
  by (auto simp: queue_ok_def queue_op_def)

lemma queue_ok_cong:
  "queue_ok w \<Longrightarrow> wx_operations w' = wx_operations w \<Longrightarrow> wx_comps w' = wx_comps w \<Longrightarrow> queue_ok w'"
  by (simp add: queue_ok_def)

lemma queue_ok_empty: "wx_operations w = [] \<Longrightarrow> wx_comps w = [] \<Longrightarrow> queue_ok w"
  by (simp add: queue_ok_def)

lemma w_Prepare_queue:
  "w_Prepare db x d w = Returns (v, w') \<Longrightarrow> wx_operations w' = wx_operations w \<and> wx_comps w' = wx_comps w"
  by (auto simp: w_Prepare_def bind_outcome_Returns_iff split: if_splits option.splits)

lemma w_Commit_queue:
  "w_Commit db fresh now x b d w = (e, d', w') \<Longrightarrow>
   w' = w \<or> wx_operations w' = [] \<and> wx_comps w' = []"
  by (auto simp: w_Commit_def split: if_splits option.splits outcome.splits prod.splits)

lemma w_Rollback_queue:
  "w_Rollback db now x d w = Returns (e, d', w') \<Longrightarrow>
   w' = w \<or> wx_operations w' = [] \<and> wx_comps w' = []"
  by (auto simp: w_Rollback_def bind_outcome_Returns_iff split: if_splits)

lemma wallet_reach_queue: "wallet_reach db w \<Longrightarrow> queue_ok w"
proof (induction rule: wallet_reach.induct)
  case (wreach_prepare w x d v w')
  then show ?case using w_Prepare_queue queue_ok_cong by metis
next
  case (wreach_commit w fresh now x b d e d' w')
  then show ?case using w_Commit_queue queue_ok_empty by metis
next
  case (wreach_rollback w now x d e d' w')
  then show ?case using w_Rollback_queue queue_ok_empty by metis
next
  case (wreach_create w i r now u wl a t amt)
  then show ?case
    by (auto simp: CreateWithdrawalRequest_def Let_def op_typed_def cmp_typed_def
        intro!: queue_ok_queue_op)
next
  case (wreach_approve w i now r a)
  then show ?case
    by (auto simp: ApproveWithdrawal_def Let_def op_typed_def cmp_typed_def intro!: queue_ok_queue_op)
next
  case (wreach_broadcast w i now r)
  then show ?case
    by (auto simp: BroadcastWithdrawal_def Let_def op_typed_def cmp_typed_def intro!: queue_ok_queue_op)
next
  case (wreach_update w i now wl amt t d)
  then show ?case
    by (auto simp: UpdateWalletBalance_def Let_def op_typed_def cmp_typed_def
        intro!: queue_ok_queue_op split: sum.splits)
next
  case (wreach_whitelist w i now wl a d)
  then show ?case
    by (auto simp: AddWhitelistAddress_def Let_def op_typed_def cmp_typed_def
        intro!: queue_ok_queue_op split: sum.splits)
next
  case (wreach_start w x)
  then show ?case by (simp add: w_Start_def queue_ok_def)
next
  case (wreach_end w x f)
  then show ?case by (simp add: w_End_def queue_ok_def)
next
  case (wreach_forget w x)
  then show ?case by (simp add: w_Forget_def queue_ok_def)
qed (simp add: NewWalletXAResource_def queue_ok_def)

section \<open>Execution never panics, rollback may\<close>

lemma w_executeOperation_returns: "op_typed op \<Longrightarrow> \<exists>r. w_executeOperation db new now op tx = Returns r"
  by (cases "wo_Type op")
    (auto simp: op_typed_def w_executeOperation_def executeCreateWithdrawal_def
      executeApproveWithdrawal_def executeBroadcastWithdrawal_def executeUpdateBalance_def
      executeWhitelistAddress_def assert_str_def assert_uuid_def assert_float_def
      split: sum.splits option.splits prod.splits)

lemma w_execute_all_returns:
  "\<forall>op \<in> set ops. op_typed op \<Longrightarrow> \<exists>r. w_execute_all db fresh now i ops tx = Returns r"
proof (induction ops arbitrary: i tx)
  case (Cons op ops)
  obtain e tx' where "w_executeOperation db (fresh i) now op tx = Returns (e, tx')"
    using w_executeOperation_returns [of op db "fresh i" now tx] Cons.prems by auto
  then show ?case using Cons by (auto split: option.splits)
qed simp

lemma executeCompensation_cases:
  "cmp_typed cmp \<Longrightarrow>
   (if wc_Type cmp = WalletOpUpdateBalance then executeCompensation db now cmp d = Panics
    else \<exists>r. executeCompensation db now cmp d = Returns r)"
  by (cases "wc_Type cmp")
    (auto simp: cmp_typed_def executeCompensation_def assert_str_def assert_uuid_def assert_float_def
      split: sum.splits)

lemma compensate_all_cases:
  "\<forall>c \<in> set cs. cmp_typed c \<Longrightarrow>
   (if \<exists>c \<in> set cs. wc_Type c = WalletOpUpdateBalance then compensate_all db now cs d = Panics
    else \<exists>d'. compensate_all db now cs d = Returns d')"
proof (induction cs arbitrary: d)
  case (Cons c cs)
  show ?case
  proof (cases "wc_Type c = WalletOpUpdateBalance")
    case True
    then show ?thesis using executeCompensation_cases [of c db now d] Cons.prems by simp
  next
    case False
    then obtain e d' where "executeCompensation db now c d = Returns (e, d')"
      using executeCompensation_cases [of c db now d] Cons.prems by auto
    then show ?thesis using Cons.IH [of d'] Cons.prems False by auto
  qed
qed simp

section \<open>Properties\<close>

text \<open>
  \<open>End\<close> dooms its transaction: \<open>TMSUCCESS\<close> is 0, so the test of the flag never holds and every
  \<open>End\<close> marks the branch rollback-only, after which \<open>Prepare\<close> refuses, a two-phase \<open>Commit\<close> refuses
  and a new \<open>Start\<close> refuses.
\<close>

theorem End_dooms:
  "let w' = snd (w_End (wx_xid w) flags w) in
     wx_state w' = XAResourceStateRollbackOnly \<and>
     fst (w_Start x w') \<noteq> None \<and>
     (\<exists>e. w_Prepare db xid d w' = Returns ((False, Some e), w')) \<and>
     (\<exists>e. w_Commit db fresh now xid False d w' = (Some e, d, w'))"
  by (simp add: Let_def w_End_def XAFlagTMSUCCESS_def w_Start_def w_Prepare_def w_Commit_def)

text \<open>
  \<open>Commit\<close> is all or nothing on the database: in every reachable resource it reports nil
  exactly when all queued operations have run in order and the database transaction has been
  committed, and then the queue is empty; on an error neither the database nor the resource has
  changed, so the queue is kept for a retry.
\<close>

theorem w_Commit_all_or_nothing:
  assumes "wallet_reach db w" and "w_Commit db fresh now xid onePhase d w = (e, d', w')"
  shows "(e = None \<and> w_execute_all db fresh now 0 (wx_operations w) d = Returns (None, d') \<and>
      db_commit db d' = None \<and> wx_state w' = XAResourceStateCommitted \<and>
      wx_operations w' = [] \<and> wx_comps w' = []) \<or>
    (e \<noteq> None \<and> d' = d \<and> w' = w)"
proof -
  obtain r where "w_execute_all db fresh now 0 (wx_operations w) d = Returns r"
    using w_execute_all_returns [of "wx_operations w" db fresh now 0 d] wallet_reach_queue [OF assms(1)]
    by (auto simp: queue_ok_def)
  then show ?thesis using assms(2)
    by (auto simp: w_Commit_def split: if_splits option.splits prod.splits)
qed

text \<open>A database of one wallet, with statements that always succeed.\<close>

definition one_wallet_db :: "rat wallet_db" where
  "one_wallet_db =
     \<lparr>db_find_wallet = \<lambda>i d. Inr \<lparr>wr_ID = i, wr_Balance = d, wr_UpdatedAt = 0, wr_AddressWhitelist = []\<rparr>,
      db_find_request = \<lambda>i d. Inl (Errorf ''record not found''),
      db_create_request = \<lambda>r d. (None, d), db_create_approval = \<lambda>a d. (None, d),
      db_count_approved = \<lambda>r d. 0, db_set_request_status = \<lambda>r s t d. (None, d),
      db_add_balance = \<lambda>i f t d. (None, d + f), db_set_balance = \<lambda>i f t d. (None, f),
      db_save_wallet = \<lambda>r d. (None, d), db_delete_approvals = \<lambda>r a d. (None, d),
      db_begin = \<lambda>d. None, db_commit = \<lambda>d. None, db_float = \<lambda>f. f, db_show_float = \<lambda>f. [],
      db_ustr = \<lambda>u. []\<rparr>"

definition sample_wallet_xa :: wallet_xa where
  "sample_wallet_xa = snd (UpdateWalletBalance one_wallet_db ''op1'' 5 ''w1'' 25 ''deposit'' 100
     (snd (w_Start (xid_text (new_xid 7 5)) NewWalletXAResource)))"

lemma sample_wallet_reach: "wallet_reach one_wallet_db sample_wallet_xa"
  unfolding sample_wallet_xa_def by (intro wreach_update wreach_start wreach_new)

lemma sample_wallet_xid: "wx_xid sample_wallet_xa = xid_text (new_xid 7 5)"
  by (simp add: sample_wallet_xa_def UpdateWalletBalance_def one_wallet_db_def w_Start_def
      NewWalletXAResource_def queue_op_def Let_def)

lemma sample_wallet_ops: "\<exists>op. wx_operations sample_wallet_xa = [op] \<and> wo_Type op = WalletOpUpdateBalance \<and>
    wo_Data op = [''wallet_id'' \<mapsto> AStr ''w1'', ''amount'' \<mapsto> AFloat 25, ''operation'' \<mapsto> AStr ''deposit'']"
  by (simp add: sample_wallet_xa_def UpdateWalletBalance_def one_wallet_db_def w_Start_def
      NewWalletXAResource_def queue_op_def Let_def)

lemma w_Commit_all_or_nothing_witness:
  "\<exists>d' w'. w_Commit one_wallet_db (\<lambda>i. 0) 6 (new_xid 7 5) True 100 sample_wallet_xa = (None, d', w') \<and>
     wx_operations w' = []"
proof -
  obtain e d' w' where c: "w_Commit one_wallet_db (\<lambda>i. 0) 6 (new_xid 7 5) True 100 sample_wallet_xa = (e, d', w')"
    by (metis surj_pair)
  have "e = None"
    using c sample_wallet_ops
    by (auto simp: w_Commit_def sample_wallet_xid one_wallet_db_def w_executeOperation_def
        executeUpdateBalance_def assert_str_def assert_float_def)
  with w_Commit_all_or_nothing [OF sample_wallet_reach c] c show ?thesis by auto
qed

text \<open>
  rolling back a branch that has queued a balance update panics: the remembered balance is a
  decimal, the compensation asserts a float. Without a balance update the rollback returns and
  empties the queue.
\<close>

theorem w_Rollback_panics:
  assumes "wallet_reach db w" and "wx_xid w = xid_text xid"
  shows "if \<exists>op \<in> set (wx_operations w). wo_Type op = WalletOpUpdateBalance
    then w_Rollback db now xid d w = Panics
    else \<exists>d' w'. w_Rollback db now xid d w = Returns (None, d', w') \<and>
      wx_state w' = XAResourceStateRolledBack \<and> wx_operations w' = [] \<and> wx_comps w' = []"
proof -
  note q = wallet_reach_queue [OF assms(1)]
  have "set (map wc_Type (wx_comps w)) = set (map wo_Type (wx_operations w))"
    using q by (simp add: queue_ok_def)
  then have "(\<exists>c \<in> set (rev (wx_comps w)). wc_Type c = WalletOpUpdateBalance) \<longleftrightarrow>
      (\<exists>op \<in> set (wx_operations w). wo_Type op = WalletOpUpdateBalance)"
    by (simp add: set_eq_iff image_iff) metis
  moreover have "\<forall>c \<in> set (rev (wx_comps w)). cmp_typed c" using q by (simp add: queue_ok_def)
  note compensate_all_cases [OF this, of db now d]
  ultimately show ?thesis using assms(2) by (auto simp: w_Rollback_def)
qed

lemma w_Rollback_panics_witness: "w_Rollback one_wallet_db 6 (new_xid 7 5) 100 sample_wallet_xa = Panics"
  using w_Rollback_panics [OF sample_wallet_reach sample_wallet_xid, of 6 100] sample_wallet_ops by auto

end
