(* ===== verification/OrderModel.thy ===== *)
theory OrderModel
  imports Prelude
begin

text \<open>
  The trading model, \<open>internal/trading/model/model.go\<close>: orders, trades, the validation of order
  types, and the object pools with their counters. The string constants of order types, sides,
  statuses and times in force are the strings themselves. A \<open>sync.Pool\<close> keeps some of the objects
  put back; \<open>Get\<close> hands out one of them or makes a new one, as the runtime chooses.
\<close>

section \<open>Orders and trades\<close>

record order =
  o_ID :: uuid
  o_UserID :: uuid
  o_Pair :: string
  o_Side :: string
  o_Type :: string
  o_Price :: decimal
  o_Quantity :: decimal
  o_FilledQuantity :: decimal
  o_Status :: string
  o_CreatedAt :: time
  o_UpdatedAt :: time
  o_TimeInForce :: string
  o_StopPrice :: decimal
  o_TriggerPrice :: decimal
  o_OCOGroupID :: "uuid option"
  o_AvgPrice :: decimal
  o_DisplayQuantity :: decimal
  o_ExpireAt :: "time option"
  o_TrailingOffset :: decimal
  o_AlgoParams :: "(string \<times> any) list"
  o_ParentOrderID :: "uuid option"
  o_Hidden :: bool
  o_IsTriggeredOrder :: bool
  o_IsIcebergSlice :: bool

record trade =
  t_ID :: uuid
  t_OrderID :: uuid
  t_CounterOrderID :: uuid
  t_UserID :: uuid
  t_CounterUserID :: uuid
  t_Pair :: string
  t_Price :: decimal
  t_Quantity :: decimal
  t_Side :: string
  t_Maker :: bool
  t_Commission :: decimal
  t_CommissionAsset :: string
  t_ExecutedAt :: time
  t_CreatedAt :: time

text \<open>The zero values \<open>Order{}\<close> and \<open>Trade{}\<close>.\<close>

definition zero_order :: order where
  "zero_order =
     \<lparr>o_ID = nil_uuid, o_UserID = nil_uuid, o_Pair = [], o_Side = [], o_Type = [], o_Price = 0,
      o_Quantity = 0, o_FilledQuantity = 0, o_Status = [], o_CreatedAt = 0, o_UpdatedAt = 0,
      o_TimeInForce = [], o_StopPrice = 0, o_TriggerPrice = 0, o_OCOGroupID = None, o_AvgPrice = 0,
      o_DisplayQuantity = 0, o_ExpireAt = None, o_TrailingOffset = 0, o_AlgoParams = [],
      o_ParentOrderID = None, o_Hidden = False, o_IsTriggeredOrder = False, o_IsIcebergSlice = False\<rparr>"

definition zero_trade :: trade where
  "zero_trade =
     \<lparr>t_ID = nil_uuid, t_OrderID = nil_uuid, t_CounterOrderID = nil_uuid, t_UserID = nil_uuid,
      t_CounterUserID = nil_uuid, t_Pair = [], t_Price = 0, t_Quantity = 0, t_Side = [],
      t_Maker = False, t_Commission = 0, t_CommissionAsset = [], t_ExecutedAt = 0, t_CreatedAt = 0\<rparr>"

section \<open>Validation\<close>

text \<open>The checks in the order of the code; the result is the error's text.\<close>

definition ValidateAdvanced :: "order \<Rightarrow> string option" where
  "ValidateAdvanced ord =
     (if o_Quantity ord \<le> 0 then Some ''quantity must be positive''
      else if (o_Type ord = ''ICEBERG'' \<or> o_Type ord = ''HIDDEN'') \<and>
        (o_DisplayQuantity ord \<le> 0 \<or> o_DisplayQuantity ord > o_Quantity ord)
        then Some ''invalid display quantity for iceberg/hidden order''
      else if o_Type ord = ''FOK'' \<and> o_TimeInForce ord \<noteq> ''FOK''
        then Some ''FOK order must have TimeInForce=FOK''
      else if o_Type ord = ''GTD'' \<and> o_ExpireAt ord = None
        then Some ''GTD order must have ExpireAt timestamp''
      else if o_Type ord = ''OCO'' \<and> o_OCOGroupID ord = None
        then Some ''OCO order must have OCOGroupID''
      else if o_Type ord = ''TRAILING_STOP'' \<and> o_TrailingOffset ord \<le> 0
        then Some ''trailing stop must have positive offset''
      else if (o_Type ord = ''TWAP'' \<or> o_Type ord = ''VWAP'') \<and> length (o_AlgoParams ord) = 0
        then Some ''TWAP/VWAP order must have algo params''
      else if (o_Type ord = ''FOK'' \<or> o_Type ord = ''GTD'') \<and> o_Type ord = ''FOK'' \<and> o_Side ord = []
        then Some ''FOK order must have valid side''
      else if (o_Type ord = ''FOK'' \<or> o_Type ord = ''GTD'') \<and> o_Type ord = ''GTD'' \<and> o_ExpireAt ord = None
        then Some ''GTD order must have expiration time''
      else if o_Type ord = ''OCO'' \<and> o_ParentOrderID ord \<noteq> None
        then Some ''OCO child cannot have ParentOrderID set''
      else None)"

section \<open>The order pool\<close>

record pool_metrics =
  pm_Gets :: int
  pm_Puts :: int
  pm_Hits :: int
  pm_Misses :: int
  pm_Allocations :: int

record 'o object_pool =
  op_free :: "'o list"
  op_metrics :: pool_metrics

definition new_pool :: "'o object_pool" where
  "new_pool = \<lparr>op_free = [], op_metrics = \<lparr>pm_Gets = 0, pm_Puts = 0, pm_Hits = 0, pm_Misses = 0,
     pm_Allocations = 0\<rparr>\<rparr>"

text \<open>
  \<open>Get\<close>: \<open>choice\<close> is the free object the runtime hands out, if any; the hit is counted by looking
  at the object's ID. \<open>Put\<close> resets the object first; a nil pointer is ignored.
\<close>

definition GetFromPool ::
    "('o \<Rightarrow> uuid) \<Rightarrow> 'o \<Rightarrow> nat option \<Rightarrow> 'o object_pool \<Rightarrow> 'o \<times> 'o object_pool" where
  "GetFromPool idOf zero choice pool =
     (let m = (op_metrics pool)\<lparr>pm_Gets := pm_Gets (op_metrics pool) + 1\<rparr>;
          (x, free, m') =
            (case choice of
               Some i \<Rightarrow>
                 (if i < length (op_free pool)
                  then (op_free pool ! i, take i (op_free pool) @ drop (Suc i) (op_free pool), m)
                  else (zero, op_free pool, m\<lparr>pm_Allocations := pm_Allocations m + 1, pm_Misses := pm_Misses m + 1\<rparr>))
             | None \<Rightarrow> (zero, op_free pool, m\<lparr>pm_Allocations := pm_Allocations m + 1, pm_Misses := pm_Misses m + 1\<rparr>));
          m'' = (if idOf x \<noteq> nil_uuid then m'\<lparr>pm_Hits := pm_Hits m' + 1\<rparr> else m')
      in (x, pool\<lparr>op_free := free, op_metrics := m''\<rparr>))"

definition PutToPool :: "'o \<Rightarrow> 'o option \<Rightarrow> 'o object_pool \<Rightarrow> 'o object_pool" where
  "PutToPool zero obj pool =
     (case obj of None \<Rightarrow> pool
      | Some x \<Rightarrow> pool\<lparr>op_free := op_free pool @ [zero],
          op_metrics := (op_metrics pool)\<lparr>pm_Puts := pm_Puts (op_metrics pool) + 1\<rparr>\<rparr>)"

definition GetOrderFromPool :: "nat option \<Rightarrow> order object_pool \<Rightarrow> order \<times> order object_pool" where
  "GetOrderFromPool = GetFromPool o_ID zero_order"

definition PutOrderToPool :: "order option \<Rightarrow> order object_pool \<Rightarrow> order object_pool" where
  "PutOrderToPool = PutToPool zero_order"

definition GetTradeFromPool :: "nat option \<Rightarrow> trade object_pool \<Rightarrow> trade \<times> trade object_pool" where
  "GetTradeFromPool = GetFromPool t_ID zero_trade"

definition PutTradeToPool :: "trade option \<Rightarrow> trade object_pool \<Rightarrow> trade object_pool" where
  "PutTradeToPool = PutToPool zero_trade"

text \<open>Pre-warming puts at least 1000 zero objects, directly and uncounted.\<close>

definition PreallocatePool :: "'o \<Rightarrow> int \<Rightarrow> 'o object_pool \<Rightarrow> 'o object_pool" where
  "PreallocatePool zero n pool =
     (let n' = (if n < 1000 then 1000 else n)
      in pool\<lparr>op_free := op_free pool @ replicate (nat n') zero\<rparr>)"

definition PreallocateObjectPoolsWithSizes ::
    "int \<Rightarrow> int \<Rightarrow> order object_pool \<times> trade object_pool \<Rightarrow> order object_pool \<times> trade object_pool" where
  "PreallocateObjectPoolsWithSizes orders trades pools =
     (PreallocatePool zero_order orders (fst pools), PreallocatePool zero_trade trades (snd pools))"

definition PreallocateObjectPools ::
    "order object_pool \<times> trade object_pool \<Rightarrow> order object_pool \<times> trade object_pool" where
  "PreallocateObjectPools = PreallocateObjectPoolsWithSizes 8192 8192"

definition GetOrderPoolMetrics :: "'o object_pool \<Rightarrow> pool_metrics" where
  "GetOrderPoolMetrics pool = op_metrics pool"

section \<open>Properties\<close>

inductive pool_reach :: "order object_pool \<Rightarrow> bool" where
  pool_new: "pool_reach new_pool"
| pool_get: "pool_reach p \<Longrightarrow> pool_reach (snd (GetOrderFromPool c p))"
| pool_put: "pool_reach p \<Longrightarrow> pool_reach (PutOrderToPool x p)"
| pool_prewarm: "pool_reach p \<Longrightarrow> pool_reach (PreallocatePool zero_order n p)"

text \<open>A pool of zero objects hands out zero objects and counts no hit, whatever it holds.\<close>

lemma GetFromPool_zero:
  assumes "\<forall>x \<in> set (op_free p). x = zero" and "idOf zero = nil_uuid"
  shows "fst (GetFromPool idOf zero c p) = zero" and
    "\<forall>x \<in> set (op_free (snd (GetFromPool idOf zero c p))). x = zero" and
    "pm_Hits (op_metrics (snd (GetFromPool idOf zero c p))) = pm_Hits (op_metrics p)"
proof -
  have nth: "i < length (op_free p) \<Longrightarrow> op_free p ! i = zero" for i
    using assms(1) nth_mem by blast
  show "fst (GetFromPool idOf zero c p) = zero"
    using nth by (auto simp: GetFromPool_def Let_def split: option.splits)
  show "\<forall>x \<in> set (op_free (snd (GetFromPool idOf zero c p))). x = zero"
    using assms(1)
    by (auto simp: GetFromPool_def Let_def dest: in_set_takeD in_set_dropD split: option.splits)
  show "pm_Hits (op_metrics (snd (GetFromPool idOf zero c p))) = pm_Hits (op_metrics p)"
    using nth assms(2) by (auto simp: GetFromPool_def Let_def split: option.splits)
qed

lemma zero_order_ID: "o_ID zero_order = nil_uuid"
  by (simp add: zero_order_def)

lemma pool_reach_zero:
  "pool_reach p \<Longrightarrow> (\<forall>x \<in> set (op_free p). x = zero_order) \<and> pm_Hits (op_metrics p) = 0"
proof (induction rule: pool_reach.induct)
  case (pool_get p c)
  then show ?case using GetFromPool_zero [of p zero_order o_ID c] zero_order_ID
    by (simp add: GetOrderFromPool_def)
qed (auto simp: new_pool_def PutOrderToPool_def PutToPool_def PreallocatePool_def Let_def split: option.splits)

text \<open>
  the pool's hit counter never moves: objects are reset before they are put back, so every
  object handed out is zero, and a hit is recognised by a non-zero ID.
\<close>

theorem pool_hits_never:
  assumes "pool_reach p"
  shows "fst (GetOrderFromPool c p) = zero_order \<and>
    pm_Hits (op_metrics (snd (GetOrderFromPool c p))) = 0"
  using GetFromPool_zero [of p zero_order o_ID c] pool_reach_zero [OF assms] zero_order_ID
  by (simp add: GetOrderFromPool_def)

lemma pool_hits_never_witness:
  "fst (GetOrderFromPool (Some 0) (PutOrderToPool (Some (zero_order\<lparr>o_ID := 5\<rparr>)) new_pool)) = zero_order"
  using pool_hits_never [OF pool_put [OF pool_new]] by blast

text \<open>
  which orders \<open>ValidateAdvanced\<close> accepts: the quantity is positive, and each order type has
  its own parameters; the two later checks of FOK and GTD orders only add the side of a FOK order.
\<close>

theorem ValidateAdvanced_accepts:
  "ValidateAdvanced ord = None \<longleftrightarrow> o_Quantity ord > 0 \<and>
     (o_Type ord \<in> {''ICEBERG'', ''HIDDEN''} \<longrightarrow>
        0 < o_DisplayQuantity ord \<and> o_DisplayQuantity ord \<le> o_Quantity ord) \<and>
     (o_Type ord = ''FOK'' \<longrightarrow> o_TimeInForce ord = ''FOK'' \<and> o_Side ord \<noteq> []) \<and>
     (o_Type ord = ''GTD'' \<longrightarrow> o_ExpireAt ord \<noteq> None) \<and>
     (o_Type ord = ''OCO'' \<longrightarrow> o_OCOGroupID ord \<noteq> None \<and> o_ParentOrderID ord = None) \<and>
     (o_Type ord = ''TRAILING_STOP'' \<longrightarrow> 0 < o_TrailingOffset ord) \<and>
     (o_Type ord \<in> {''TWAP'', ''VWAP''} \<longrightarrow> o_AlgoParams ord \<noteq> [])"
proof -
  consider "o_Type ord = ''FOK''" | "o_Type ord = ''GTD''" | "o_Type ord = ''OCO''"
    | "o_Type ord = ''TRAILING_STOP''" | "o_Type ord = ''TWAP''" | "o_Type ord = ''VWAP''"
    | "o_Type ord = ''ICEBERG''" | "o_Type ord = ''HIDDEN''"
    | "o_Type ord \<noteq> ''FOK''" "o_Type ord \<noteq> ''GTD''" "o_Type ord \<noteq> ''OCO''"
      "o_Type ord \<noteq> ''TRAILING_STOP''" "o_Type ord \<noteq> ''TWAP''" "o_Type ord \<noteq> ''VWAP''"
      "o_Type ord \<noteq> ''ICEBERG''" "o_Type ord \<noteq> ''HIDDEN''"
    by blast
  then show ?thesis
    by cases (simp_all add: ValidateAdvanced_def not_le not_less)
qed

lemma ValidateAdvanced_accepts_witness:
  "ValidateAdvanced (zero_order\<lparr>o_Quantity := 2, o_Type := ''FOK'', o_TimeInForce := ''FOK'', o_Side := ''BUY''\<rparr>) = None"
  using ValidateAdvanced_accepts [of "zero_order\<lparr>o_Quantity := 2, o_Type := ''FOK'',
    o_TimeInForce := ''FOK'', o_Side := ''BUY''\<rparr>"] by simp

end
