(* ===== verification/TradingXa.thy ===== *)
theory TradingXa
  imports XaProtocol OrderModel
begin

text \<open>
  The trading XA resource, \<open>internal/accounts/transaction/trading_xa.go\<close>: a map from the text of an
  XID to the branch's operations and its own database transaction, opened by \<open>Start\<close> and closed by
  \<open>Commit\<close> or \<open>Rollback\<close>. gorm is the parameter \<open>'d trading_db\<close>: statements name the database
  transaction they run in by a handle, and \<open>'d\<close> holds the database with its open transactions.
  Operation data is a string-keyed map read back by type assertions, which panic on a mismatch.
\<close>

section \<open>Data\<close>

datatype TradingOperationType =
    TradingOpPlaceOrder | TradingOpCancelOrder | TradingOpMatchOrder | TradingOpExecuteTrade
  | TradingOpUpdateOrder | TradingOpCreateOrderBook | TradingOpModifyOrder

fun trading_op_text :: "TradingOperationType \<Rightarrow> string" where
  "trading_op_text TradingOpPlaceOrder = ''PLACE_ORDER''"
| "trading_op_text TradingOpCancelOrder = ''CANCEL_ORDER''"
| "trading_op_text TradingOpMatchOrder = ''MATCH_ORDER''"
| "trading_op_text TradingOpExecuteTrade = ''EXECUTE_TRADE''"
| "trading_op_text TradingOpUpdateOrder = ''UPDATE_ORDER''"
| "trading_op_text TradingOpCreateOrderBook = ''CREATE_ORDER_BOOK''"
| "trading_op_text TradingOpModifyOrder = ''MODIFY_ORDER''"

text \<open>The values an operation's data map holds; a map of updates is the list its range loop sees.\<close>

datatype trading_value =
    TVOrder order | TVTrade trade | TVTrades "trade list" | TVUuid uuid | TVUpdates "(string \<times> any) list"

record trading_operation =
  to_ID :: string
  to_Type :: TradingOperationType
  to_Timestamp :: time
  to_Data :: "string \<rightharpoonup> trading_value"

record trading_txn =
  tt_XID :: XID
  tt_Operations :: "trading_operation list"
  tt_DBTransaction :: nat
  tt_State :: string
  tt_CreatedAt :: time

record trading_xa =
  tx_pending :: "string \<rightharpoonup> trading_txn"

record 'd trading_db =
  td_begin :: "'d \<Rightarrow> (go_error + nat) \<times> 'd"
  td_commit :: "nat \<Rightarrow> 'd \<Rightarrow> go_error option \<times> 'd"
  td_rollback :: "nat \<Rightarrow> 'd \<Rightarrow> go_error option \<times> 'd"
  td_save_order :: "nat \<Rightarrow> order \<Rightarrow> 'd \<Rightarrow> go_error option \<times> 'd"
  td_create_trade :: "nat \<Rightarrow> trade \<Rightarrow> 'd \<Rightarrow> go_error option \<times> 'd"
  td_update_order :: "nat \<Rightarrow> uuid \<Rightarrow> string \<Rightarrow> any \<Rightarrow> 'd \<Rightarrow> go_error option \<times> 'd"
  td_ustr :: "uuid \<Rightarrow> string"
  td_dstr :: "decimal \<Rightarrow> string"

definition NewTradingXAResource :: trading_xa where
  "NewTradingXAResource = \<lparr>tx_pending = Map.empty\<rparr>"

definition wrap_err :: "'d trading_db \<Rightarrow> string \<Rightarrow> go_error \<Rightarrow> go_error" where
  "wrap_err db msg e = Errorf (msg @ '': '' @ error_text (td_ustr db) e)"

definition not_found :: "XID \<Rightarrow> go_error" where
  "not_found xid = Errorf (''transaction not found: '' @ xid_text xid)"

section \<open>The branch's state machine\<close>

definition tr_Start ::
    "'d trading_db \<Rightarrow> time \<Rightarrow> XID \<Rightarrow> 'd \<Rightarrow> trading_xa \<Rightarrow> go_error option \<times> 'd \<times> trading_xa" where
  "tr_Start db now xid d t =
     (if tx_pending t (xid_text xid) \<noteq> None then
        (Some (Errorf (''transaction already started: '' @ xid_text xid)), d, t)
      else case td_begin db d of
        (Inl e, d') \<Rightarrow> (Some (wrap_err db ''failed to begin database transaction'' e), d', t)
      | (Inr h, d') \<Rightarrow> (None, d', t\<lparr>tx_pending := (tx_pending t)(xid_text xid \<mapsto>
          \<lparr>tt_XID = xid, tt_Operations = [], tt_DBTransaction = h, tt_State = ''active'',
           tt_CreatedAt = now\<rparr>)\<rparr>))"

definition tr_End :: "XID \<Rightarrow> trading_xa \<Rightarrow> go_error option \<times> trading_xa" where
  "tr_End xid t =
     (case tx_pending t (xid_text xid) of
        None \<Rightarrow> (Some (not_found xid), t)
      | Some txn \<Rightarrow> (None, t\<lparr>tx_pending := (tx_pending t)(xid_text xid \<mapsto> txn\<lparr>tt_State := ''ended''\<rparr>)\<rparr>))"

text \<open>A client appends to the operations of the branch through \<open>GetTransactionInfo\<close>.\<close>

definition GetTransactionInfo :: "XID \<Rightarrow> trading_xa \<Rightarrow> trading_txn option" where
  "GetTransactionInfo xid t = tx_pending t (xid_text xid)"

definition add_operation :: "XID \<Rightarrow> trading_operation \<Rightarrow> trading_xa \<Rightarrow> trading_xa" where
  "add_operation xid op t =
     (case tx_pending t (xid_text xid) of None \<Rightarrow> t
      | Some txn \<Rightarrow> t\<lparr>tx_pending := (tx_pending t)(xid_text xid \<mapsto>
          txn\<lparr>tt_Operations := tt_Operations txn @ [op]\<rparr>)\<rparr>)"

definition assert_order :: "(string \<rightharpoonup> trading_value) \<Rightarrow> string \<Rightarrow> order outcome" where
  "assert_order m k = (case m k of Some (TVOrder x) \<Rightarrow> Returns x | _ \<Rightarrow> Panics)"

definition assert_trade :: "(string \<rightharpoonup> trading_value) \<Rightarrow> string \<Rightarrow> trade outcome" where
  "assert_trade m k = (case m k of Some (TVTrade x) \<Rightarrow> Returns x | _ \<Rightarrow> Panics)"

definition assert_id :: "(string \<rightharpoonup> trading_value) \<Rightarrow> string \<Rightarrow> uuid outcome" where
  "assert_id m k = (case m k of Some (TVUuid x) \<Rightarrow> Returns x | _ \<Rightarrow> Panics)"

definition assert_updates :: "(string \<rightharpoonup> trading_value) \<Rightarrow> string \<Rightarrow> (string \<times> any) list outcome" where
  "assert_updates m k = (case m k of Some (TVUpdates x) \<Rightarrow> Returns x | _ \<Rightarrow> Panics)"

definition tr_validateOperation :: "'d trading_db \<Rightarrow> trading_operation \<Rightarrow> go_error option outcome" where
  "tr_validateOperation db op =
     (case to_Type op of
        TradingOpPlaceOrder \<Rightarrow>
          bind_outcome (assert_order (to_Data op) ''order'') (\<lambda>ord. Returns
            (if o_Quantity ord \<le> 0 then
               Some (Errorf (''invalid order quantity: '' @ td_dstr db (o_Quantity ord)))
             else if o_Price ord < 0 then
               Some (Errorf (''invalid order price: '' @ td_dstr db (o_Price ord)))
             else if o_Pair ord = [] then Some (Errorf ''trading pair is required'')
             else if o_Side ord \<noteq> ''BUY'' \<and> o_Side ord \<noteq> ''SELL'' then
               Some (Errorf (''invalid order side: '' @ o_Side ord))
             else None))
      | TradingOpCancelOrder \<Rightarrow>
          bind_outcome (assert_id (to_Data op) ''order_id'') (\<lambda>orderID. Returns
            (if orderID = nil_uuid then Some (Errorf ''invalid order ID for cancellation'') else None))
      | TradingOpExecuteTrade \<Rightarrow>
          bind_outcome (assert_trade (to_Data op) ''trade'') (\<lambda>tr. Returns
            (if t_Quantity tr \<le> 0 then
               Some (Errorf (''invalid trade quantity: '' @ td_dstr db (t_Quantity tr)))
             else if t_Price tr \<le> 0 then
               Some (Errorf (''invalid trade price: '' @ td_dstr db (t_Price tr)))
             else None))
      | TradingOpUpdateOrder \<Rightarrow>
          bind_outcome (assert_id (to_Data op) ''order_id'') (\<lambda>orderID. Returns
            (if orderID = nil_uuid then Some (Errorf ''invalid order ID for update'') else None))
      | _ \<Rightarrow> Returns None)"

fun tr_validate_all :: "'d trading_db \<Rightarrow> trading_operation list \<Rightarrow> go_error option outcome" where
  "tr_validate_all db [] = Returns None"
| "tr_validate_all db (op # ops) =
     bind_outcome (tr_validateOperation db op) (\<lambda>err.
       case err of Some e \<Rightarrow> Returns (Some e) | None \<Rightarrow> tr_validate_all db ops)"

text \<open>The answer after a successful preparation is false.\<close>

definition tr_Prepare ::
    "'d trading_db \<Rightarrow> XID \<Rightarrow> trading_xa \<Rightarrow> ((bool \<times> go_error option) \<times> trading_xa) outcome" where
  "tr_Prepare db xid t =
     (case tx_pending t (xid_text xid) of
        None \<Rightarrow> Returns ((False, Some (not_found xid)), t)
      | Some txn \<Rightarrow> bind_outcome (tr_validate_all db (tt_Operations txn)) (\<lambda>err. case err of
            Some e \<Rightarrow> Returns ((False, Some (wrap_err db ''operation validation failed'' e)),
              t\<lparr>tx_pending := (tx_pending t)(xid_text xid \<mapsto> txn\<lparr>tt_State := ''rollback_only''\<rparr>)\<rparr>)
          | None \<Rightarrow> Returns ((False, None),
              t\<lparr>tx_pending := (tx_pending t)(xid_text xid \<mapsto> txn\<lparr>tt_State := ''prepared''\<rparr>)\<rparr>)))"

section \<open>Execution\<close>

definition persistOrderState where
  "persistOrderState db h ord d = td_save_order db h ord d"

definition persistTrade where
  "persistTrade db h tr d = td_create_trade db h tr d"

definition updateOrderStatus where
  "updateOrderStatus db h orderID status d = td_update_order db h orderID ''status'' (AStr status) d"

definition updateOrderField where
  "updateOrderField db h orderID field v d = td_update_order db h orderID field v d"

fun persist_trades :: "'d trading_db \<Rightarrow> nat \<Rightarrow> trade list \<Rightarrow> 'd \<Rightarrow> go_error option \<times> 'd" where
  "persist_trades db h [] d = (None, d)"
| "persist_trades db h (tr # trs) d =
     (case persistTrade db h tr d of
        (Some e, d') \<Rightarrow> (Some (wrap_err db ''failed to persist trade'' e), d')
      | (None, d') \<Rightarrow> persist_trades db h trs d')"

definition executePlaceOrder ::
    "'d trading_db \<Rightarrow> nat \<Rightarrow> (string \<rightharpoonup> trading_value) \<Rightarrow> 'd \<Rightarrow> (go_error option \<times> 'd) outcome" where
  "executePlaceOrder db h data d =
     bind_outcome (assert_order data ''order'') (\<lambda>ord.
       case persistOrderState db h ord d of
         (Some e, d') \<Rightarrow> Returns (Some (wrap_err db ''failed to persist order state'' e), d')
       | (None, d') \<Rightarrow>
           (case data ''trades'' of
              None \<Rightarrow> Returns (None, d')
            | Some (TVTrades trs) \<Rightarrow> Returns (persist_trades db h trs d')
            | Some _ \<Rightarrow> Panics))"

definition executeCancelOrder ::
    "'d trading_db \<Rightarrow> nat \<Rightarrow> (string \<rightharpoonup> trading_value) \<Rightarrow> 'd \<Rightarrow> (go_error option \<times> 'd) outcome" where
  "executeCancelOrder db h data d =
     bind_outcome (assert_id data ''order_id'') (\<lambda>orderID.
       case updateOrderStatus db h orderID ''CANCELLED'' d of
         (Some e, d') \<Rightarrow> Returns (Some (wrap_err db ''failed to cancel order'' e), d')
       | (None, d') \<Rightarrow> Returns (None, d'))"

definition executeExecuteTrade ::
    "'d trading_db \<Rightarrow> nat \<Rightarrow> (string \<rightharpoonup> trading_value) \<Rightarrow> 'd \<Rightarrow> (go_error option \<times> 'd) outcome" where
  "executeExecuteTrade db h data d =
     bind_outcome (assert_trade data ''trade'') (\<lambda>tr.
       case persistTrade db h tr d of
         (Some e, d') \<Rightarrow> Returns (Some (wrap_err db ''failed to persist trade'' e), d')
       | (None, d') \<Rightarrow> Returns (None, d'))"

fun update_fields ::
    "'d trading_db \<Rightarrow> nat \<Rightarrow> uuid \<Rightarrow> (string \<times> any) list \<Rightarrow> 'd \<Rightarrow> go_error option \<times> 'd" where
  "update_fields db h orderID [] d = (None, d)"
| "update_fields db h orderID ((field, v) # us) d =
     (case updateOrderField db h orderID field v d of
        (Some e, d') \<Rightarrow> (Some (wrap_err db (''failed to update order field '' @ field) e), d')
      | (None, d') \<Rightarrow> update_fields db h orderID us d')"

definition executeUpdateOrder ::
    "'d trading_db \<Rightarrow> nat \<Rightarrow> (string \<rightharpoonup> trading_value) \<Rightarrow> 'd \<Rightarrow> (go_error option \<times> 'd) outcome" where
  "executeUpdateOrder db h data d =
     bind_outcome (assert_id data ''order_id'') (\<lambda>orderID.
     bind_outcome (assert_updates data ''updates'') (\<lambda>us.
       Returns (update_fields db h orderID us d)))"

definition tr_executeOperation ::
    "'d trading_db \<Rightarrow> nat \<Rightarrow> trading_operation \<Rightarrow> 'd \<Rightarrow> (go_error option \<times> 'd) outcome" where
  "tr_executeOperation db h op d =
     (case to_Type op of
        TradingOpPlaceOrder \<Rightarrow> executePlaceOrder db h (to_Data op) d
      | TradingOpCancelOrder \<Rightarrow> executeCancelOrder db h (to_Data op) d
      | TradingOpExecuteTrade \<Rightarrow> executeExecuteTrade db h (to_Data op) d
      | TradingOpUpdateOrder \<Rightarrow> executeUpdateOrder db h (to_Data op) d
      | _ \<Rightarrow> Returns (Some (Errorf (''unknown operation type: '' @ trading_op_text (to_Type op))), d))"

fun tr_execute_all ::
    "'d trading_db \<Rightarrow> nat \<Rightarrow> trading_operation list \<Rightarrow> 'd \<Rightarrow> ((string \<times> go_error) option \<times> 'd) outcome" where
  "tr_execute_all db h [] d = Returns (None, d)"
| "tr_execute_all db h (op # ops) d =
     bind_outcome (tr_executeOperation db h op d) (\<lambda>(err, d'). case err of
         Some e \<Rightarrow> Returns (Some (to_ID op, e), d')
       | None \<Rightarrow> tr_execute_all db h ops d')"

section \<open>Commit and rollback\<close>

text \<open>After a failed execution the database transaction is rolled back, the branch stays.\<close>

definition tr_Commit ::
    "'d trading_db \<Rightarrow> XID \<Rightarrow> bool \<Rightarrow> 'd \<Rightarrow> trading_xa \<Rightarrow> (go_error option \<times> 'd \<times> trading_xa) outcome" where
  "tr_Commit db xid onePhase d t =
     (case tx_pending t (xid_text xid) of
        None \<Rightarrow> Returns (Some (not_found xid), d, t)
      | Some txn \<Rightarrow>
          (if \<not> onePhase \<and> tt_State txn \<noteq> ''prepared'' then
             Returns (Some (Errorf (''invalid state for commit: '' @ tt_State txn)), d, t)
           else bind_outcome (tr_execute_all db (tt_DBTransaction txn) (tt_Operations txn) d) (\<lambda>(err, d').
             case err of
               Some (opID, e) \<Rightarrow> Returns (Some (wrap_err db (''failed to execute operation '' @ opID) e),
                 snd (td_rollback db (tt_DBTransaction txn) d'), t)
             | None \<Rightarrow>
                 (case td_commit db (tt_DBTransaction txn) d' of
                    (Some e, d'') \<Rightarrow> Returns (Some (wrap_err db ''database commit failed'' e), d'', t)
                  | (None, d'') \<Rightarrow> Returns (None, d'',
                      t\<lparr>tx_pending := (tx_pending t)(xid_text xid := None)\<rparr>)))))"

definition tr_Rollback ::
    "'d trading_db \<Rightarrow> XID \<Rightarrow> 'd \<Rightarrow> trading_xa \<Rightarrow> go_error option \<times> 'd \<times> trading_xa" where
  "tr_Rollback db xid d t =
     (case tx_pending t (xid_text xid) of
        None \<Rightarrow> (None, d, t)
      | Some txn \<Rightarrow> (None, snd (td_rollback db (tt_DBTransaction txn) d),
          t\<lparr>tx_pending := (tx_pending t)(xid_text xid := None)\<rparr>))"

definition tr_Forget :: "XID \<Rightarrow> trading_xa \<Rightarrow> go_error option \<times> trading_xa" where
  "tr_Forget xid t = (None, t\<lparr>tx_pending := (tx_pending t)(xid_text xid := None)\<rparr>)"

definition tr_Recover :: "trading_xa \<Rightarrow> XID list \<times> go_error option" where
  "tr_Recover t = ([], None)"

definition GetActiveTransactionCount :: "trading_xa \<Rightarrow> nat" where
  "GetActiveTransactionCount t = card (dom (tx_pending t))"

definition GetAllActiveTransactions :: "trading_xa \<Rightarrow> (string \<rightharpoonup> trading_txn)" where
  "GetAllActiveTransactions t = tx_pending t"

definition trading_name :: string where
  "trading_name = ''TradingEngine''"

section \<open>Properties\<close>

text \<open>
  the trading branch never votes yes: when its operations are valid \<open>Prepare\<close> answers false
  with no error, which the transaction manager reads as a vote to abort; otherwise it answers false
  with an error. (The code's comment explains the answer as "not read-only".)
\<close>

theorem tr_Prepare_never_yes:
  "tr_Prepare db xid t \<noteq> Returns ((True, e), t') \<and>
   (tx_pending t (xid_text xid) = Some \<lparr>tt_XID = xid, tt_Operations = [], tt_DBTransaction = h,
      tt_State = ''active'', tt_CreatedAt = c\<rparr> \<longrightarrow>
    (\<exists>t'. tr_Prepare db xid t = Returns ((False, None), t')))"
  by (auto simp: tr_Prepare_def bind_outcome_Returns_iff split: option.splits)

text \<open>A database that only numbers its transactions.\<close>

definition counting_db :: "nat trading_db" where
  "counting_db =
     \<lparr>td_begin = \<lambda>d. (Inr d, d + 1), td_commit = \<lambda>h d. (None, d), td_rollback = \<lambda>h d. (None, d),
      td_save_order = \<lambda>h r d. (None, d), td_create_trade = \<lambda>h r d. (None, d),
      td_update_order = \<lambda>h i f v d. (None, d), td_ustr = \<lambda>u. [], td_dstr = \<lambda>x. []\<rparr>"

lemma tr_Prepare_never_yes_witness:
  "\<exists>t'. tr_Prepare counting_db (new_xid 7 5)
     (snd (snd (tr_Start counting_db 3 (new_xid 7 5) 0 NewTradingXAResource))) = Returns ((False, None), t')"
  using tr_Prepare_never_yes [of counting_db "new_xid 7 5"
    "snd (snd (tr_Start counting_db 3 (new_xid 7 5) 0 NewTradingXAResource))" None _ 0 3]
  by (simp add: tr_Start_def counting_db_def NewTradingXAResource_def)

text \<open>
  what \<open>Commit\<close> of a trading branch does when it returns: nil means that every operation ran, in
  order, in the branch's own database transaction, which was then committed, and the branch is
  gone; on an error all branches are as before; and no other branch is ever touched.
\<close>

theorem tr_Commit_effect:
  assumes "tr_Commit db xid onePhase d t = Returns (e, d', t')"
  shows "(e \<noteq> None \<longrightarrow> t' = t) \<and>
    (\<forall>k. k \<noteq> xid_text xid \<longrightarrow> tx_pending t' k = tx_pending t k) \<and>
    (e = None \<longrightarrow> tx_pending t' (xid_text xid) = None \<and>
      (\<exists>txn d1. tx_pending t (xid_text xid) = Some txn \<and> (onePhase \<or> tt_State txn = ''prepared'') \<and>
         tr_execute_all db (tt_DBTransaction txn) (tt_Operations txn) d = Returns (None, d1) \<and>
         td_commit db (tt_DBTransaction txn) d1 = (None, d')))"
  using assms
  by (auto simp: tr_Commit_def bind_outcome_Returns_iff split: option.splits if_splits prod.splits)

lemma tr_Commit_effect_witness:
  "\<exists>d' t'. tr_Commit counting_db (new_xid 7 5) True 1
     (snd (snd (tr_Start counting_db 3 (new_xid 7 5) 0 NewTradingXAResource))) = Returns (None, d', t') \<and>
     tx_pending t' (xid_text (new_xid 7 5)) = None"
proof -
  let ?t = "snd (snd (tr_Start counting_db 3 (new_xid 7 5) 0 NewTradingXAResource))"
  have "\<exists>d' t'. tr_Commit counting_db (new_xid 7 5) True 1 ?t = Returns (None, d', t')"
    by (simp add: tr_Commit_def tr_Start_def counting_db_def NewTradingXAResource_def)
  then obtain d' t' where "tr_Commit counting_db (new_xid 7 5) True 1 ?t = Returns (None, d', t')" by blast
  with tr_Commit_effect [OF this] show ?thesis by blast
qed

end
