(* ===== verification/CrossPair.thy ===== *)
theory CrossPair
  imports Prelude
begin

text \<open>
  The cross-pair data model, \<open>internal/trading/crosspair/models.go\<close>: orders, routes, fees and trades,
  their validation, and the calculator that keeps routes in a map. The constants the code makes
  with \<open>decimal.NewFromFloat\<close> are the decimals they are written as. A route is shared by pointer
  between the calculator and its callers, who do not change it.
\<close>

section \<open>Data\<close>

datatype CrossPairOrderType = CrossPairMarketOrder | CrossPairLimitOrder

datatype CrossPairOrderSide = CrossPairBuy | CrossPairSell

datatype CrossPairOrderStatus =
    CrossPairOrderPending | CrossPairOrderExecuting | CrossPairOrderCompleted
  | CrossPairOrderFailed | CrossPairOrderCanceled | CrossPairOrderPartiallyFilled

record cp_fee =
  cf_Asset :: string
  cf_Amount :: decimal
  cf_FeeType :: string
  cf_Pair :: string

record cp_route =
  cr_ID :: uuid
  cr_BaseAsset :: string
  cr_FirstPair :: string
  cr_SecondPair :: string
  cr_FirstRate :: decimal
  cr_SecondRate :: decimal
  cr_SyntheticRate :: decimal
  cr_Confidence :: decimal
  cr_Active :: bool
  cr_CreatedAt :: time
  cr_UpdatedAt :: time

record cp_order =
  co_ID :: uuid
  co_UserID :: uuid
  co_FromAsset :: string
  co_ToAsset :: string
  co_Type :: CrossPairOrderType
  co_Side :: CrossPairOrderSide
  co_Status :: CrossPairOrderStatus
  co_Quantity :: decimal
  co_Price :: "decimal option"
  co_EstimatedRate :: decimal
  co_MaxSlippage :: decimal
  co_Route :: "cp_route option"
  co_ExecutedQuantity :: decimal
  co_ExecutedRate :: "decimal option"
  co_Fees :: "cp_fee list"
  co_CreatedAt :: time
  co_UpdatedAt :: time
  co_ExpiresAt :: "time option"
  co_ErrorMessage :: "string option"

record cp_trade =
  ct_ID :: uuid
  ct_OrderID :: uuid
  ct_UserID :: uuid
  ct_FromAsset :: string
  ct_ToAsset :: string
  ct_Quantity :: decimal
  ct_ExecutedRate :: decimal
  ct_Fees :: "cp_fee list"
  ct_TotalFeeUSD :: decimal
  ct_Slippage :: decimal
  ct_ExecutionTimeMs :: int
  ct_CreatedAt :: time

text \<open>A \<open>CrossPairError\<close> is its code and its message; its text is the message.\<close>

record cp_error =
  ce_Code :: string
  ce_Message :: string

definition cp_error_text :: "cp_error \<Rightarrow> string" where
  "cp_error_text e = ce_Message e"

definition NewCrossPairError :: "string \<Rightarrow> string \<Rightarrow> cp_error" where
  "NewCrossPairError code msg = \<lparr>ce_Code = code, ce_Message = msg\<rparr>"

definition ErrInvalidFromAsset :: cp_error where
  "ErrInvalidFromAsset = NewCrossPairError ''INVALID_FROM_ASSET'' ''from asset is required''"
definition ErrInvalidToAsset :: cp_error where
  "ErrInvalidToAsset = NewCrossPairError ''INVALID_TO_ASSET'' ''to asset is required''"
definition ErrSameAssets :: cp_error where
  "ErrSameAssets = NewCrossPairError ''SAME_ASSETS'' ''from and to assets cannot be the same''"
definition ErrInvalidQuantity :: cp_error where
  "ErrInvalidQuantity = NewCrossPairError ''INVALID_QUANTITY'' ''quantity must be greater than zero''"
definition ErrInvalidPrice :: cp_error where
  "ErrInvalidPrice = NewCrossPairError ''INVALID_PRICE'' ''price must be greater than zero for limit orders''"
definition ErrInvalidSlippage :: cp_error where
  "ErrInvalidSlippage = NewCrossPairError ''INVALID_SLIPPAGE'' ''slippage must be between 0 and 1''"
definition ErrRouteNotFound :: cp_error where
  "ErrRouteNotFound = NewCrossPairError ''ROUTE_NOT_FOUND'' ''no route found for the given assets''"

section \<open>Validation\<close>

definition order_Validate :: "cp_order \<Rightarrow> cp_error option" where
  "order_Validate o1 =
     (if co_FromAsset o1 = [] then Some ErrInvalidFromAsset
      else if co_ToAsset o1 = [] then Some ErrInvalidToAsset
      else if co_FromAsset o1 = co_ToAsset o1 then Some ErrSameAssets
      else if co_Quantity o1 \<le> 0 then Some ErrInvalidQuantity
      else if co_Type o1 = CrossPairLimitOrder \<and>
        (case co_Price o1 of None \<Rightarrow> True | Some p \<Rightarrow> p \<le> 0) then Some ErrInvalidPrice
      else if co_MaxSlippage o1 < 0 \<or> co_MaxSlippage o1 > 1 then Some ErrInvalidSlippage
      else None)"

definition IsExpired :: "time \<Rightarrow> cp_order \<Rightarrow> bool" where
  "IsExpired now o1 = (case co_ExpiresAt o1 of None \<Rightarrow> False | Some t \<Rightarrow> t < now)"

definition CanExecute :: "time \<Rightarrow> cp_order \<Rightarrow> bool" where
  "CanExecute now o1 \<longleftrightarrow> co_Status o1 = CrossPairOrderPending \<and> \<not> IsExpired now o1"

definition GetRemainingQuantity :: "cp_order \<Rightarrow> decimal" where
  "GetRemainingQuantity o1 = co_Quantity o1 - co_ExecutedQuantity o1"

definition route_Validate :: "cp_route \<Rightarrow> cp_error option" where
  "route_Validate r =
     (if cr_BaseAsset r = [] then Some (NewCrossPairError ''INVALID_BASE_ASSET'' ''base asset is required'')
      else if cr_FirstPair r = [] then Some (NewCrossPairError ''INVALID_FIRST_PAIR'' ''first pair is required'')
      else if cr_SecondPair r = [] then
        Some (NewCrossPairError ''INVALID_SECOND_PAIR'' ''second pair is required'')
      else if cr_FirstRate r \<le> 0 then
        Some (NewCrossPairError ''INVALID_FIRST_RATE'' ''first rate must be greater than zero'')
      else if cr_SecondRate r \<le> 0 then
        Some (NewCrossPairError ''INVALID_SECOND_RATE'' ''second rate must be greater than zero'')
      else if cr_SyntheticRate r \<le> 0 then
        Some (NewCrossPairError ''INVALID_SYNTHETIC_RATE'' ''synthetic rate must be greater than zero'')
      else if cr_Confidence r < 0 \<or> cr_Confidence r > 1 then
        Some (NewCrossPairError ''INVALID_CONFIDENCE'' ''confidence must be between 0 and 1'')
      else None)"

section \<open>The rate calculator\<close>

record rate_result =
  rr_Route :: cp_route
  rr_EstimatedSlippage :: decimal
  rr_Confidence :: decimal
  rr_LiquidityUSD :: decimal
  rr_EstimatedFees :: "cp_fee list"

record rate_calculator =
  rc_routes :: "string \<rightharpoonup> cp_route"

definition NewSyntheticRateCalculator :: rate_calculator where
  "NewSyntheticRateCalculator = \<lparr>rc_routes = Map.empty\<rparr>"

definition CalculateRate ::
    "string \<Rightarrow> string \<Rightarrow> decimal \<Rightarrow> rate_calculator \<Rightarrow> cp_error + rate_result" where
  "CalculateRate fromAsset toAsset quantity rc =
     (case rc_routes rc (fromAsset @ ''-'' @ toAsset) of
        None \<Rightarrow> Inl ErrRouteNotFound
      | Some route \<Rightarrow>
          Inr \<lparr>rr_Route = route,
               rr_EstimatedSlippage = (if quantity > 10000 then 5 / 1000 else 1 / 1000),
               rr_Confidence = cr_Confidence route, rr_LiquidityUSD = 100000, rr_EstimatedFees = []\<rparr>)"

definition GetBestRoute :: "string \<Rightarrow> string \<Rightarrow> rate_calculator \<Rightarrow> cp_error + cp_route" where
  "GetBestRoute fromAsset toAsset rc =
     (case rc_routes rc (fromAsset @ ''-'' @ toAsset) of
        None \<Rightarrow> Inl ErrRouteNotFound | Some route \<Rightarrow> Inr route)"

definition CalculateRateWithDetails ::
    "string \<Rightarrow> string \<Rightarrow> decimal \<Rightarrow> rate_calculator \<Rightarrow> cp_error + rate_result" where
  "CalculateRateWithDetails fromAsset toAsset quantity rc =
     (case rc_routes rc (fromAsset @ ''-'' @ toAsset) of
        None \<Rightarrow> Inl ErrRouteNotFound
      | Some route \<Rightarrow>
          Inr \<lparr>rr_Route = route,
               rr_EstimatedSlippage = (if quantity > 10000 then 5 / 1000 else 1 / 1000),
               rr_Confidence = cr_Confidence route, rr_LiquidityUSD = 100000, rr_EstimatedFees = []\<rparr>)"

definition UpdateRoute :: "cp_route \<Rightarrow> rate_calculator \<Rightarrow> rate_calculator" where
  "UpdateRoute route rc =
     rc\<lparr>rc_routes := (rc_routes rc)(cr_BaseAsset route @ ''-'' @ cr_FirstPair route \<mapsto> route)\<rparr>"

definition GetCacheStats :: "rate_calculator \<Rightarrow> nat" where
  "GetCacheStats rc = card (dom (rc_routes rc))"

section \<open>Properties\<close>

text \<open>
  which cross-pair orders and routes are accepted: the assets are named and differ, the
  quantity and a limit order's price are positive, the slippage is a fraction; a route has all its
  names, positive rates and a confidence that is a fraction.
\<close>

theorem cross_pair_validation:
  "(order_Validate o1 = None \<longleftrightarrow> co_FromAsset o1 \<noteq> [] \<and> co_ToAsset o1 \<noteq> [] \<and>
      co_FromAsset o1 \<noteq> co_ToAsset o1 \<and> 0 < co_Quantity o1 \<and>
      (co_Type o1 = CrossPairMarketOrder \<or> (\<exists>p. co_Price o1 = Some p \<and> 0 < p)) \<and>
      co_MaxSlippage o1 \<in> {0..1}) \<and>
   (route_Validate r = None \<longleftrightarrow> cr_BaseAsset r \<noteq> [] \<and> cr_FirstPair r \<noteq> [] \<and> cr_SecondPair r \<noteq> [] \<and>
      0 < cr_FirstRate r \<and> 0 < cr_SecondRate r \<and> 0 < cr_SyntheticRate r \<and> cr_Confidence r \<in> {0..1})"
proof -
  have "co_Type o1 = CrossPairLimitOrder \<longleftrightarrow> co_Type o1 \<noteq> CrossPairMarketOrder"
    by (cases "co_Type o1") simp_all
  then show ?thesis
    by (cases "co_Price o1") (simp_all add: order_Validate_def route_Validate_def not_le not_less)
qed

text \<open>
  a route is stored under its base asset and the name of its first pair, and looked up under
  the two assets of the order: after \<open>UpdateRoute\<close> it is found for assets whose texts join to that
  key, and a route whose first pair is itself a pair of two names, like BTC-USDT, is not found
  under its base asset and its second asset in an empty calculator.
\<close>

theorem UpdateRoute_lookup:
  "(GetBestRoute a b (UpdateRoute r NewSyntheticRateCalculator) =
     (if a @ ''-'' @ b = cr_BaseAsset r @ ''-'' @ cr_FirstPair r then Inr r else Inl ErrRouteNotFound)) \<and>
   (cr_BaseAsset r = ''BTC'' \<and> cr_FirstPair r = ''BTC-USDT'' \<longrightarrow>
     GetBestRoute ''BTC'' ''ETH'' (UpdateRoute r NewSyntheticRateCalculator) = Inl ErrRouteNotFound \<and>
     GetBestRoute ''BTC'' ''BTC-USDT'' (UpdateRoute r NewSyntheticRateCalculator) = Inr r)"
  by (simp add: GetBestRoute_def UpdateRoute_def NewSyntheticRateCalculator_def)

definition btc_route :: cp_route where
  "btc_route = \<lparr>cr_ID = 1, cr_BaseAsset = ''BTC'', cr_FirstPair = ''BTC-USDT'', cr_SecondPair = ''ETH-USDT'',
     cr_FirstRate = 1, cr_SecondRate = 1, cr_SyntheticRate = 1, cr_Confidence = 1, cr_Active = True,
     cr_CreatedAt = 1, cr_UpdatedAt = 1\<rparr>"

lemma UpdateRoute_lookup_witness:
  "GetBestRoute ''BTC'' ''ETH'' (UpdateRoute btc_route NewSyntheticRateCalculator) = Inl ErrRouteNotFound"
  using UpdateRoute_lookup [of "''BTC''" "''ETH''" btc_route] by (simp add: btc_route_def)

end
