(* ===== verification/XaVotes.thy ===== *)
theory XaVotes
  imports XaManager
begin

text \<open>
  What a resource's vote does to the transaction it takes part in. The locale \<open>refusing_resource\<close>
  has the one law that a resource never votes to commit; \<open>quiet_resource\<close> that its rollback never
  reports an error. The client lemmas are about the manager's \<open>Commit\<close> with such a resource among
  others. The resources of the repository that have these laws interpret the locales.
\<close>

lemma prepare_loop_refused:
  assumes "res \<in> set rs" and "\<And>x w. fst (fst (res_Prepare res x w)) = False"
  shows "fst (prepare_loop rs r) \<noteq> None"
  using assms(1)
proof (induction rs r rule: prepare_loop.induct)
  case (2 r0 rs r)
  obtain v e w where p: "res_Prepare r0 (xt_XID (r_txn r)) (r_world r) = ((v, e), w)" by (metis surj_pair)
  show ?case
  proof (cases "r0 = res \<or> e \<noteq> None \<or> \<not> v")
    case True
    then show ?thesis using p assms(2) [of "xt_XID (r_txn r)" "r_world r"]
      by (auto split: option.splits bool.splits)
  next
    case False
    then show ?thesis using 2 p by auto
  qed
qed simp

lemma rollback_loop_quiet:
  "(\<And>res x w. res \<in> set rs \<Longrightarrow> fst (res_Rollback res x w) = None) \<Longrightarrow> fst (rollback_loop rs r) = []"
proof (induction rs r rule: rollback_loop.induct)
  case (2 res rs r)
  obtain e w where p: "res_Rollback res (xt_XID (r_txn r)) (r_world r) = (e, w)" by (metis surj_pair)
  have "e = None" using 2(3) [of res "xt_XID (r_txn r)" "r_world r"] p by simp
  then show ?case using 2(1,3) p by simp
qed simp

lemma two_resources: "2 \<le> length rs \<Longrightarrow> \<exists>x y zs. rs = x # y # zs"
  by (cases rs; cases "tl rs") auto

lemma prepare_refused:
  assumes "res \<in> set (xt_Resources (r_txn r))" and "2 \<le> length (xt_Resources (r_txn r))"
    and "\<And>x w. fst (fst (res_Prepare res x w)) = False"
  shows "fst (prepare now r) \<noteq> None"
proof -
  obtain x y zs where rs: "xt_Resources (r_txn r) = x # y # zs" using two_resources [OF assms(2)] by blast
  have "fst (prepare_loop (x # y # zs) r) \<noteq> None"
    using prepare_loop_refused [OF assms(1,3)] unfolding rs .
  then show ?thesis unfolding prepare_def rs
    by (simp del: prepare_loop.simps split: prod.splits option.splits) auto
qed

locale refusing_resource =
  fixes res :: "'w xa_resource"
  assumes refuses: "fst (fst (res_Prepare res x w)) = False"
begin

lemma commit_body_aborts:
  assumes "res \<in> set (xt_Resources (r_txn r))" and "2 \<le> length (xt_Resources (r_txn r))"
    and "xt_State (r_txn r) = XAStateActive" and "commit_body now r = (e, r')"
  shows "xt_State (r_txn r') \<in> {XAStateAborted, XAStateHeurAbort}"
proof -
  obtain r1 where "abort now r1 = (e, r')"
  proof (cases "xt_TimeoutAt (r_txn r) < now")
    case True
    then show ?thesis using that assms(3,4) by (simp add: commit_body_def)
  next
    case False
    obtain x r1 where "prepare now r = (Some x, r1)"
      using prepare_refused [OF assms(1,2), of now] refuses by (metis option.exhaust prod.collapse)
    then show ?thesis using that assms(3,4) False by (simp add: commit_body_def)
  qed
  then show ?thesis using abort_outcome by blast
qed

lemma never_committed:
  assumes "xa_reach tm w" and "tm_heap tm p = Some t" and "xt_State t = XAStateActive"
    and "res \<in> set (xt_Resources t)" and "2 \<le> length (xt_Resources t)"
  shows "\<exists>e tm' w' t'. Commit now el p tm w = Some (e, tm', w') \<and> tm_heap tm' p = Some t' \<and>
    xt_State t' \<in> {XAStateAborted, XAStateHeurAbort} \<and> (e = None \<longleftrightarrow> xt_State t' = XAStateAborted)"
proof -
  note inv = xa_reach_inv [OF assms(1)]
  let ?r = "begin_run (t\<lparr>xt_mu := True\<rparr>) tm w"
  obtain e r' where b: "commit_body now ?r = (e, r')" by (metis surj_pair)
  have "xt_State (r_txn r') \<in> {XAStateAborted, XAStateHeurAbort}"
    by (rule commit_body_aborts [OF _ _ _ b]) (use assms in \<open>simp_all add: begin_run_def\<close>)
  moreover have "e = None \<longleftrightarrow> xt_State (r_txn r') = XAStateAborted"
    using commit_body_outcome [OF b] assms(3) calculation by (auto simp: begin_run_def)
  moreover have "xt_ID (r_txn r') = p"
    using commit_body_step [OF b] xa_invD [OF inv assms(2)] by (simp add: run_step_def begin_run_def)
  ultimately show ?thesis using lock_txn_free [OF inv assms(2)] b
    by (simp add: Commit_def set_commit_time_def end_run_def store_run_def)
qed

end

locale quiet_resource =
  fixes res :: "'w xa_resource"
  assumes quiet: "fst (res_Rollback res x w) = None"

text \<open>A resource that refuses quietly: with only quiet resources beside it, the manager answers nil.\<close>

locale silent_resource = refusing_resource res + quiet_resource res for res :: "'w xa_resource"
begin

lemma silently_aborted:
  assumes "xa_reach tm w" and "tm_heap tm p = Some t" and "xt_State t = XAStateActive"
    and "res \<in> set (xt_Resources t)" and "2 \<le> length (xt_Resources t)"
    and "\<And>r x w. r \<in> set (xt_Resources t) \<Longrightarrow> fst (res_Rollback r x w) = None"
  shows "\<exists>tm' w' t'. Commit now el p tm w = Some (None, tm', w') \<and> tm_heap tm' p = Some t' \<and>
    xt_State t' = XAStateAborted"
proof -
  obtain e tm' w' t' where c: "Commit now el p tm w = Some (e, tm', w')" "tm_heap tm' p = Some t'"
      "xt_State t' \<in> {XAStateAborted, XAStateHeurAbort}" "e = None \<longleftrightarrow> xt_State t' = XAStateAborted"
    using never_committed [OF assms(1-5)] by blast
  have "e = None"
  proof -
    note inv = xa_reach_inv [OF assms(1)]
    let ?r = "begin_run (t\<lparr>xt_mu := True\<rparr>) tm w"
    obtain e1 r' where b: "commit_body now ?r = (e1, r')" by (metis surj_pair)
    have act: "xt_State (r_txn ?r) = XAStateActive" using assms(3) by (simp add: begin_run_def)
    have "\<exists>r1. run_step ?r r1 \<and> abort now r1 = (e1, r')"
      using commit_body_active [OF b act]
    proof (elim disjE exE conjE)
      fix r1 assume "run_step ?r r1" "abort now r1 = (e1, r')"
      then show ?thesis by blast
    next
      fix r1 assume "prepare now ?r = (None, r1)"
      moreover have "fst (prepare now ?r) \<noteq> None"
        by (rule prepare_refused) (use assms(4,5) refuses in \<open>simp_all add: begin_run_def\<close>)
      ultimately show ?thesis by simp
    qed
    then obtain r1 where r1: "xt_Resources (r_txn r1) = xt_Resources t" "abort now r1 = (e1, r')"
      by (auto simp: run_step_def begin_run_def)
    have "fst (rollback_loop (xt_Resources t) r1) = []" by (rule rollback_loop_quiet) (rule assms(6))
    then have "e1 = None" using r1 by (auto simp: abort_def split: prod.splits if_splits)
    then show ?thesis using c(1) lock_txn_free [OF inv assms(2)] b by (simp add: Commit_def)
  qed
  with c show ?thesis by auto
qed

end

end
