(* ===== verification/CrossPairResources.thy ===== *)
theory CrossPairResources
  imports XaVotes CrossPair
begin

text \<open>
  The XA resources of cross-pair trading, \<open>internal/trading/crosspair/transaction/resources.go\<close>: the
  balance, matching-engine and trade-store resources. Each keeps a map from the text of an XID to
  an operation to undo, and publishes an event when a rollback has undone one. The world is the
  three maps and the list of published events; the event publisher is either absent (nil) or takes
  every event. One matching-engine resource exists per symbol.
\<close>

section \<open>Data\<close>

record balance_operation =
  bo_UserID :: uuid
  bo_Asset :: string
  bo_Amount :: decimal
  bo_OperationType :: string
  bo_PreviousBalance :: decimal
  bo_NewBalance :: decimal
  bo_Timestamp :: time

record order_operation =
  oo_OrderID :: uuid
  oo_Symbol :: string
  oo_Operation :: string
  oo_OriginalOrder :: "cp_order option"
  oo_Timestamp :: time

record trade_operation =
  tro_TradeID :: uuid
  tro_Trade :: "cp_trade option"
  tro_Operation :: string
  tro_Timestamp :: time

record cp_event =
  ev_OrderID :: uuid
  ev_UserID :: uuid
  ev_Status :: string
  ev_Leg1TradeID :: uuid
  ev_Leg2TradeID :: uuid
  ev_FillAmountLeg1 :: decimal
  ev_FillAmountLeg2 :: decimal
  ev_SyntheticRate :: decimal
  ev_Fee :: "cp_fee list"
  ev_CreatedAt :: time
  ev_UpdatedAt :: time
  ev_FilledAt :: "time option"
  ev_CanceledAt :: "time option"
  ev_Error :: "string option"

record cp_world =
  cw_preparedOps :: "string \<rightharpoonup> balance_operation"
  cw_preparedOrders :: "string \<Rightarrow> (string \<rightharpoonup> order_operation)"
  cw_preparedTrades :: "string \<rightharpoonup> trade_operation"
  cw_publisher :: bool
  cw_events :: "cp_event list"

definition publish :: "cp_event \<Rightarrow> cp_world \<Rightarrow> cp_world" where
  "publish ev w = (if cw_publisher w then w\<lparr>cw_events := cw_events w @ [ev]\<rparr> else w)"

definition blank_event :: cp_event where
  "blank_event = \<lparr>ev_OrderID = nil_uuid, ev_UserID = nil_uuid, ev_Status = [], ev_Leg1TradeID = nil_uuid,
     ev_Leg2TradeID = nil_uuid, ev_FillAmountLeg1 = 0, ev_FillAmountLeg2 = 0, ev_SyntheticRate = 0, ev_Fee = [], ev_CreatedAt = 0, ev_UpdatedAt = 0,
     ev_FilledAt = None, ev_CanceledAt = None, ev_Error = None\<rparr>"

text \<open>The copy loop from the model's fees to the event's fees.\<close>

fun toDTOFees :: "cp_fee list \<Rightarrow> cp_fee list" where
  "toDTOFees [] = []"
| "toDTOFees (f # fs) = \<lparr>cf_Asset = cf_Asset f, cf_Amount = cf_Amount f, cf_FeeType = cf_FeeType f,
     cf_Pair = cf_Pair f\<rparr> # toDTOFees fs"

section \<open>The balance resource\<close>

definition br_name :: string where "br_name = ''BALANCE_SERVICE''"

definition br_Prepare :: "XID \<Rightarrow> cp_world \<Rightarrow> (bool \<times> go_error option) \<times> cp_world" where
  "br_Prepare xid w = ((True, None), w)"

definition br_cleanup :: "XID \<Rightarrow> cp_world \<Rightarrow> cp_world" where
  "br_cleanup xid w = w\<lparr>cw_preparedOps := (cw_preparedOps w)(xid_text xid := None)\<rparr>"

definition br_Commit :: "XID \<Rightarrow> bool \<Rightarrow> cp_world \<Rightarrow> go_error option \<times> cp_world" where
  "br_Commit xid onePhase w = (None, br_cleanup xid w)"

text \<open>\<open>reverseBalanceOperation\<close> only logs.\<close>

definition reverseBalanceOperation :: "balance_operation \<Rightarrow> go_error option" where
  "reverseBalanceOperation op = None"

definition br_Rollback :: "time \<Rightarrow> XID \<Rightarrow> cp_world \<Rightarrow> go_error option \<times> cp_world" where
  "br_Rollback now xid w =
     (case cw_preparedOps w (xid_text xid) of
        None \<Rightarrow> (None, w)
      | Some op \<Rightarrow>
          (case reverseBalanceOperation op of
             Some e \<Rightarrow> (Some (Errorf ''failed to reverse balance operation''), w)
           | None \<Rightarrow> (None, publish (blank_event\<lparr>ev_UserID := bo_UserID op, ev_Status := ''FAILED'',
               ev_Error := Some ''Balance rollback executed'', ev_UpdatedAt := now\<rparr>) (br_cleanup xid w))))"

definition br_Forget :: "XID \<Rightarrow> cp_world \<Rightarrow> go_error option \<times> cp_world" where
  "br_Forget xid w = (None, br_cleanup xid w)"

definition br_Recover :: "cp_world \<Rightarrow> XID list" where
  "br_Recover w = []"

section \<open>The matching-engine resource\<close>

definition mer_name :: "string \<Rightarrow> string" where "mer_name symbol = ''MATCHING_ENGINE_'' @ symbol"

definition mer_Prepare :: "string \<Rightarrow> XID \<Rightarrow> cp_world \<Rightarrow> (bool \<times> go_error option) \<times> cp_world" where
  "mer_Prepare symbol xid w = ((False, None), w)"

definition mer_cleanup :: "string \<Rightarrow> XID \<Rightarrow> cp_world \<Rightarrow> cp_world" where
  "mer_cleanup symbol xid w = w\<lparr>cw_preparedOrders := (cw_preparedOrders w)
     (symbol := (cw_preparedOrders w symbol)(xid_text xid := None))\<rparr>"

definition mer_Commit :: "string \<Rightarrow> XID \<Rightarrow> bool \<Rightarrow> cp_world \<Rightarrow> go_error option \<times> cp_world" where
  "mer_Commit symbol xid onePhase w = (None, mer_cleanup symbol xid w)"

definition reverseOrderOperation :: "order_operation \<Rightarrow> go_error option" where
  "reverseOrderOperation op = None"

definition mer_Rollback :: "string \<Rightarrow> time \<Rightarrow> XID \<Rightarrow> cp_world \<Rightarrow> go_error option \<times> cp_world" where
  "mer_Rollback symbol now xid w =
     (case cw_preparedOrders w symbol (xid_text xid) of
        None \<Rightarrow> (None, w)
      | Some op \<Rightarrow>
          (case reverseOrderOperation op of
             Some e \<Rightarrow> (Some (Errorf ''failed to reverse order operation''), w)
           | None \<Rightarrow> (None,
               (case oo_OriginalOrder op of
                  None \<Rightarrow> mer_cleanup symbol xid w
                | Some ord \<Rightarrow> publish (blank_event\<lparr>ev_OrderID := co_ID ord, ev_UserID := co_UserID ord,
                    ev_Status := ''ROLLED_BACK'', ev_FillAmountLeg1 := co_ExecutedQuantity ord,
                    ev_SyntheticRate := co_EstimatedRate ord, ev_Fee := toDTOFees (co_Fees ord),
                    ev_CreatedAt := co_CreatedAt ord, ev_UpdatedAt := now,
                    ev_Error := Some ''Order rollback executed''\<rparr>) (mer_cleanup symbol xid w)))))"

definition mer_Forget :: "string \<Rightarrow> XID \<Rightarrow> cp_world \<Rightarrow> go_error option \<times> cp_world" where
  "mer_Forget symbol xid w = (None, mer_cleanup symbol xid w)"

definition validateOrderParameters :: "cp_order \<Rightarrow> go_error option" where
  "validateOrderParameters ord =
     (if co_Quantity ord \<le> 0 then Some (Errorf ''order quantity must be positive'')
      else if co_FromAsset ord = [] \<or> co_ToAsset ord = [] then
        Some (Errorf ''from and to assets must be specified'')
      else None)"

section \<open>The trade-store resource\<close>

definition tsr_name :: string where "tsr_name = ''TRADE_STORE''"

definition tsr_Prepare :: "XID \<Rightarrow> cp_world \<Rightarrow> (bool \<times> go_error option) \<times> cp_world" where
  "tsr_Prepare xid w = ((False, None), w)"

definition tsr_cleanup :: "XID \<Rightarrow> cp_world \<Rightarrow> cp_world" where
  "tsr_cleanup xid w = w\<lparr>cw_preparedTrades := (cw_preparedTrades w)(xid_text xid := None)\<rparr>"

definition tsr_Commit :: "XID \<Rightarrow> bool \<Rightarrow> cp_world \<Rightarrow> go_error option \<times> cp_world" where
  "tsr_Commit xid onePhase w = (None, tsr_cleanup xid w)"

definition reverseTradeOperation :: "trade_operation \<Rightarrow> go_error option" where
  "reverseTradeOperation op =
     (if tro_Operation op = ''CREATE'' then None
      else if tro_Operation op = ''UPDATE'' then None
      else if tro_Operation op = ''DELETE'' then None
      else Some (Errorf (''unknown trade operation: '' @ tro_Operation op)))"

definition tsr_Rollback ::
    "(uuid \<Rightarrow> string) \<Rightarrow> time \<Rightarrow> XID \<Rightarrow> cp_world \<Rightarrow> go_error option \<times> cp_world" where
  "tsr_Rollback ustr now xid w =
     (case cw_preparedTrades w (xid_text xid) of
        None \<Rightarrow> (None, w)
      | Some op \<Rightarrow>
          (case reverseTradeOperation op of
             Some e \<Rightarrow> (Some (Errorf (''failed to reverse trade operation: '' @ error_text ustr e)), w)
           | None \<Rightarrow> (None,
               (case tro_Trade op of
                  None \<Rightarrow> tsr_cleanup xid w
                | Some tr \<Rightarrow> publish (blank_event\<lparr>ev_OrderID := ct_OrderID tr, ev_UserID := ct_UserID tr,
                    ev_Status := ''ROLLED_BACK'', ev_Leg1TradeID := ct_ID tr,
                    ev_FillAmountLeg1 := ct_Quantity tr, ev_SyntheticRate := ct_ExecutedRate tr,
                    ev_Fee := toDTOFees (ct_Fees tr), ev_CreatedAt := ct_CreatedAt tr, ev_UpdatedAt := now,
                    ev_Error := Some ''Trade rollback executed''\<rparr>) (tsr_cleanup xid w)))))"

definition tsr_Forget :: "XID \<Rightarrow> cp_world \<Rightarrow> go_error option \<times> cp_world" where
  "tsr_Forget xid w = (None, tsr_cleanup xid w)"

section \<open>The resources as the manager sees them\<close>

definition balance_resource :: "time \<Rightarrow> cp_world xa_resource" where
  "balance_resource now = \<lparr>res_name = br_name, res_Prepare = br_Prepare, res_Commit = br_Commit,
     res_Rollback = br_Rollback now\<rparr>"

definition engine_resource :: "string \<Rightarrow> time \<Rightarrow> cp_world xa_resource" where
  "engine_resource symbol now = \<lparr>res_name = mer_name symbol, res_Prepare = mer_Prepare symbol,
     res_Commit = mer_Commit symbol, res_Rollback = mer_Rollback symbol now\<rparr>"

definition store_resource :: "(uuid \<Rightarrow> string) \<Rightarrow> time \<Rightarrow> cp_world xa_resource" where
  "store_resource ustr now = \<lparr>res_name = tsr_name, res_Prepare = tsr_Prepare, res_Commit = tsr_Commit,
     res_Rollback = tsr_Rollback ustr now\<rparr>"

interpretation balance: quiet_resource "balance_resource now" for now
  by unfold_locales
    (simp add: balance_resource_def br_Rollback_def reverseBalanceOperation_def split: option.splits)

interpretation engine: silent_resource "engine_resource symbol now" for symbol now
  by unfold_locales
    (simp_all add: engine_resource_def mer_Prepare_def mer_Rollback_def reverseOrderOperation_def
      split: option.splits)

interpretation store: refusing_resource "store_resource ustr now" for ustr now
  by unfold_locales (simp add: store_resource_def tsr_Prepare_def)

section \<open>Properties\<close>

text \<open>
  a transaction of the XA manager with a matching-engine resource and at least one other never
  commits: its \<open>Prepare\<close> answers false, meant as "not read-only" and read as a refusal. When the
  transaction has only balance and matching-engine resources, \<open>Commit\<close> moreover reports success for
  the aborted transaction.
\<close>

theorem engine_never_commits:
  assumes "xa_reach tm w" and "tm_heap tm p = Some t" and "xt_State t = XAStateActive"
    and "engine_resource symbol n \<in> set (xt_Resources t)" and "2 \<le> length (xt_Resources t)"
    and "set (xt_Resources t) \<subseteq> {balance_resource n} \<union> range (\<lambda>s. engine_resource s n)"
  shows "\<exists>tm' w' t'. Commit now el p tm w = Some (None, tm', w') \<and> tm_heap tm' p = Some t' \<and>
    xt_State t' = XAStateAborted"
proof (rule engine.silently_aborted [OF assms(1-5)])
  fix r x w
  assume "r \<in> set (xt_Resources t)"
  then show "fst (res_Rollback r x w) = None"
    using assms(6) balance.quiet [of n x w] engine.quiet [of _ n x w] by auto
qed

definition empty_world :: cp_world where
  "empty_world = \<lparr>cw_preparedOps = Map.empty, cw_preparedOrders = (\<lambda>s. Map.empty),
     cw_preparedTrades = Map.empty, cw_publisher = True, cw_events = []\<rparr>"

lemma engine_never_commits_witness:
  "\<exists>tm' w' t'. Commit 1 0 7 (sample_manager [balance_resource 1, engine_resource ''BTC-USDT'' 1]) empty_world =
     Some (None, tm', w') \<and> tm_heap tm' 7 = Some t' \<and> xt_State t' = XAStateAborted"
proof -
  let ?rs = "[balance_resource 1, engine_resource ''BTC-USDT'' 1]"
  have "\<exists>t. tm_heap (sample_manager ?rs) 7 = Some t \<and> xt_State t = XAStateActive \<and> xt_Resources t = ?rs"
    by (simp add: sample_simps balance_resource_def engine_resource_def br_name_def mer_name_def)
  then obtain t where t: "tm_heap (sample_manager ?rs) 7 = Some t" "xt_State t = XAStateActive"
      "xt_Resources t = ?rs" by blast
  show ?thesis
    by (rule engine_never_commits [OF sample_reach t(1,2), of "''BTC-USDT''" 1]) (auto simp: t(3))
qed

text \<open>
  a transaction with a trade-store resource and at least one other never commits either.
\<close>

theorem store_never_commits:
  assumes "xa_reach tm w" and "tm_heap tm p = Some t" and "xt_State t = XAStateActive"
    and "store_resource ustr n \<in> set (xt_Resources t)" and "2 \<le> length (xt_Resources t)"
  shows "\<exists>e tm' w' t'. Commit now el p tm w = Some (e, tm', w') \<and> tm_heap tm' p = Some t' \<and>
    xt_State t' \<in> {XAStateAborted, XAStateHeurAbort} \<and> (e = None \<longleftrightarrow> xt_State t' = XAStateAborted)"
  by (rule store.never_committed [OF assms])

lemma store_never_commits_witness:
  "\<exists>e tm' w' t'. Commit 1 0 7 (sample_manager [balance_resource 1, store_resource (\<lambda>u. []) 1]) empty_world =
     Some (e, tm', w') \<and> tm_heap tm' 7 = Some t' \<and> xt_State t' \<in> {XAStateAborted, XAStateHeurAbort}"
proof -
  let ?rs = "[balance_resource 1, store_resource (\<lambda>u. []) 1]"
  have "\<exists>t. tm_heap (sample_manager ?rs) 7 = Some t \<and> xt_State t = XAStateActive \<and> xt_Resources t = ?rs"
    by (simp add: sample_simps balance_resource_def store_resource_def br_name_def tsr_name_def)
  then obtain t where t: "tm_heap (sample_manager ?rs) 7 = Some t" "xt_State t = XAStateActive"
      "xt_Resources t = ?rs" by blast
  have "\<exists>e tm' w' t'. Commit 1 0 7 (sample_manager ?rs) empty_world = Some (e, tm', w') \<and>
      tm_heap tm' 7 = Some t' \<and> xt_State t' \<in> {XAStateAborted, XAStateHeurAbort} \<and>
      (e = None \<longleftrightarrow> xt_State t' = XAStateAborted)"
    by (rule store_never_commits [OF sample_reach t(1,2), of "\<lambda>u. []" 1]) (auto simp: t(3))
  then show ?thesis by blast
qed

end
