(* ===== verification/SlidingWindow.thy ===== *)
theory SlidingWindow
  imports Prelude
begin

text \<open>
  The in-memory sliding-window limiter, \<open>internal/infrastructure/ratelimit/slidingwindow.go\<close>. Every
  method runs under the mutex, so a method is one step; the clock readings are inputs.
\<close>

section \<open>State and operations\<close>

record sliding_window =
  sw_limit :: int
  sw_window :: duration
  sw_requests :: "time list"




definition sw_len :: "sliding_window \<Rightarrow> int" where
  "sw_len sw = int (length (sw_requests sw))"



text \<open>A negative limit makes the slice expression start past the end.\<close>

definition SetLimit :: "int \<Rightarrow> sliding_window \<Rightarrow> sliding_window outcome" where
  "SetLimit limit sw =
     (let sw = sw\<lparr>sw_limit := limit\<rparr>
      in if sw_len sw > limit then
           (if sw_len sw - limit > sw_len sw then Panics
            else Returns (sw\<lparr>sw_requests := drop (nat (sw_len sw - limit)) (sw_requests sw)\<rparr>))
         else Returns sw)"

definition SetWindow :: "duration \<Rightarrow> sliding_window \<Rightarrow> sliding_window" where
  "SetWindow window sw = sw\<lparr>sw_window := window\<rparr>"


definition sw_Reset :: "sliding_window \<Rightarrow> sliding_window" where
  "sw_Reset sw = sw\<lparr>sw_requests := []\<rparr>"




section \<open>Histories\<close>



section \<open>The invariant\<close>











section \<open>Properties\<close>



text \<open>
  setting the limit never panics unless the new limit is negative, and then always; otherwise
  the newest requests up to the new limit are kept.
\<close>

theorem SetLimit_panics:
  "(SetLimit limit sw = Panics \<longleftrightarrow> limit < 0) \<and>
   (0 \<le> limit \<longrightarrow> (\<exists>old. SetLimit limit sw = Returns (sw\<lparr>sw_limit := limit, sw_requests :=
      drop old (sw_requests sw)\<rparr>) \<and> int (length (drop old (sw_requests sw))) = min (sw_len sw) limit))"
proof -
  have len: "sw_len (sw\<lparr>sw_limit := limit\<rparr>) = sw_len sw" "0 \<le> sw_len sw" by (simp_all add: sw_len_def)
  have "0 \<le> limit \<Longrightarrow> SetLimit limit sw = Returns (sw\<lparr>sw_limit := limit, sw_requests :=
      drop (nat (sw_len sw - limit)) (sw_requests sw)\<rparr>)"
    using len by (cases "sw_len sw > limit") (simp_all add: SetLimit_def Let_def)
  moreover have "0 \<le> limit \<Longrightarrow> int (length (drop (nat (sw_len sw - limit)) (sw_requests sw))) = min (sw_len sw) limit"
    by (simp add: sw_len_def)
  moreover have "limit < 0 \<Longrightarrow> SetLimit limit sw = Panics"
    using len by (simp add: SetLimit_def Let_def)
  ultimately show ?thesis by (metis outcome.distinct(3) linorder_not_le)
qed

lemma SetLimit_panics_witness:
  "\<exists>old. SetLimit 1 \<lparr>sw_limit = 2, sw_window = 5, sw_requests = [1, 3]\<rparr> =
     Returns \<lparr>sw_limit = 1, sw_window = 5, sw_requests = drop old [1, 3]\<rparr>"
  using SetLimit_panics [of 1 "\<lparr>sw_limit = 2, sw_window = 5, sw_requests = [1, 3]\<rparr>"] by auto

end
