(* ===== verification/CircuitBreaker.thy ===== *)
theory CircuitBreaker
  imports Prelude
begin

text \<open>
  The circuit breaker, \<open>internal/infrastructure/ratelimit/circuit_breaker.go\<close>. The breaker's fields
  are read and written by separate atomic operations. The methods are first modelled as one step
  each; \<open>allow_step\<close> then takes \<open>allowRequest\<close> apart into its atomic operations, and
  \<open>allow_solo\<close> shows that a goroutine that runs them undisturbed does what the one-step model
  does. Only the three constants are ever stored in the state, so it is a three-valued type and the
  switches' default cases are unreachable. Clock readings are inputs.
\<close>

section \<open>The breaker\<close>

datatype breaker_state = StateClosed | StateOpen | StateHalfOpen

fun breaker_state_text :: "breaker_state \<Rightarrow> string" where
  "breaker_state_text StateClosed = ''closed''"
| "breaker_state_text StateOpen = ''open''"
| "breaker_state_text StateHalfOpen = ''half-open''"

record breaker_config =
  bc_Name :: string
  bc_MaxFailures :: int
  bc_Timeout :: duration
  bc_HalfOpenTimeout :: duration
  bc_MaxHalfOpenReqs :: int

record breaker =
  cb_name :: string
  cb_maxFailures :: int
  cb_timeout :: duration
  cb_halfOpenTimeout :: duration
  cb_maxHalfOpenReqs :: int
  cb_state :: breaker_state
  cb_failureCount :: int
  cb_lastFailureTime :: time
  cb_halfOpenCount :: int
  cb_totalRequests :: int
  cb_successRequests :: int
  cb_failedRequests :: int

definition NewCircuitBreaker :: "breaker_config \<Rightarrow> breaker" where
  "NewCircuitBreaker c = \<lparr>cb_name = bc_Name c, cb_maxFailures = bc_MaxFailures c,
     cb_timeout = bc_Timeout c, cb_halfOpenTimeout = bc_HalfOpenTimeout c,
     cb_maxHalfOpenReqs = bc_MaxHalfOpenReqs c, cb_state = StateClosed, cb_failureCount = 0,
     cb_lastFailureTime = 0, cb_halfOpenCount = 0, cb_totalRequests = 0, cb_successRequests = 0,
     cb_failedRequests = 0\<rparr>"

definition allowRequest :: "time \<Rightarrow> breaker \<Rightarrow> bool \<times> breaker" where
  "allowRequest now cb =
     (let cb = cb\<lparr>cb_totalRequests := cb_totalRequests cb + 1\<rparr>
      in case cb_state cb of
           StateClosed \<Rightarrow> (True, cb)
         | StateOpen \<Rightarrow>
             (if now - cb_lastFailureTime cb \<ge> cb_timeout cb
              then (True, cb\<lparr>cb_state := StateHalfOpen, cb_halfOpenCount := 0\<rparr>)
              else (False, cb))
         | StateHalfOpen \<Rightarrow>
             (if cb_halfOpenCount cb < cb_maxHalfOpenReqs cb
              then (True, cb\<lparr>cb_halfOpenCount := cb_halfOpenCount cb + 1\<rparr>)
              else (False, cb)))"

definition recordSuccess :: "breaker \<Rightarrow> breaker" where
  "recordSuccess cb =
     (let cb = cb\<lparr>cb_successRequests := cb_successRequests cb + 1\<rparr>
      in if cb_state cb = StateHalfOpen \<and> cb_halfOpenCount cb \<ge> cb_maxHalfOpenReqs cb
         then cb\<lparr>cb_state := StateClosed, cb_failureCount := 0\<rparr> else cb)"

definition recordFailure :: "time \<Rightarrow> breaker \<Rightarrow> breaker" where
  "recordFailure now cb =
     (let cb = cb\<lparr>cb_failedRequests := cb_failedRequests cb + 1,
                  cb_failureCount := cb_failureCount cb + 1, cb_lastFailureTime := now\<rparr>
      in if cb_state cb = StateClosed \<and> cb_failureCount cb \<ge> cb_maxFailures cb
         then cb\<lparr>cb_state := StateOpen\<rparr>
         else if cb_state cb = StateHalfOpen then cb\<lparr>cb_state := StateOpen\<rparr> else cb)"

definition GetState :: "breaker \<Rightarrow> breaker_state" where
  "GetState cb = cb_state cb"

definition cb_Reset :: "breaker \<Rightarrow> breaker" where
  "cb_Reset cb = cb\<lparr>cb_state := StateClosed, cb_failureCount := 0, cb_halfOpenCount := 0\<rparr>"

record breaker_metrics =
  bm_Name :: string
  bm_State :: breaker_state
  bm_TotalRequests :: int
  bm_SuccessRequests :: int
  bm_FailedRequests :: int
  bm_FailureCount :: int
  bm_LastFailureTime :: time

definition cb_GetMetrics :: "breaker \<Rightarrow> breaker_metrics" where
  "cb_GetMetrics cb = \<lparr>bm_Name = cb_name cb, bm_State = GetState cb, bm_TotalRequests = cb_totalRequests cb,
     bm_SuccessRequests = cb_successRequests cb, bm_FailedRequests = cb_failedRequests cb,
     bm_FailureCount = cb_failureCount cb, bm_LastFailureTime = cb_lastFailureTime cb\<rparr>"

text \<open>Errors: the breaker's own, and those of the protected function.\<close>

datatype breaker_error = CircuitBreakerError breaker_state string | OtherError string

definition IsCircuitBreakerError :: "breaker_error \<Rightarrow> bool" where
  "IsCircuitBreakerError e = (case e of CircuitBreakerError s m \<Rightarrow> True | OtherError m \<Rightarrow> False)"

text \<open>
  \<open>Execute\<close>: the function works on a world of its own; \<open>now\<close> and \<open>now'\<close> are the clock readings
  before it and after its failure.
\<close>

definition Execute ::
    "time \<Rightarrow> time \<Rightarrow> ('w \<Rightarrow> breaker_error option \<times> 'w) \<Rightarrow> breaker \<Rightarrow> 'w \<Rightarrow>
     breaker_error option \<times> breaker \<times> 'w" where
  "Execute now now' f cb w =
     (case allowRequest now cb of
        (False, cb) \<Rightarrow> (Some (CircuitBreakerError (GetState cb)
            (''circuit breaker '' @ cb_name cb @ '' is '' @ breaker_state_text (GetState cb))), cb, w)
      | (True, cb) \<Rightarrow>
          (case f w of
             (Some e, w) \<Rightarrow> (Some e, recordFailure now' cb, w)
           | (None, w) \<Rightarrow> (None, recordSuccess cb, w)))"

section \<open>The manager of breakers\<close>

text \<open>The manager maps names to breakers; callers share them, so they are pointers into a heap.\<close>

record breaker_manager =
  cbm_breakers :: "string \<rightharpoonup> nat"
  cbm_heap :: "nat \<rightharpoonup> breaker"

definition NewCircuitBreakerManager :: breaker_manager where
  "NewCircuitBreakerManager = \<lparr>cbm_breakers = Map.empty, cbm_heap = Map.empty\<rparr>"

text \<open>\<open>p\<close> is the address a new breaker is allocated at; the caller's configuration is renamed.\<close>

definition GetOrCreate ::
    "nat \<Rightarrow> string \<Rightarrow> breaker_config \<Rightarrow> breaker_manager \<Rightarrow> nat \<times> breaker_config \<times> breaker_manager" where
  "GetOrCreate p name config m =
     (case cbm_breakers m name of
        Some q \<Rightarrow> (q, config, m)
      | None \<Rightarrow>
          (let config = config\<lparr>bc_Name := name\<rparr>
           in (p, config, m\<lparr>cbm_breakers := (cbm_breakers m)(name \<mapsto> p),
                cbm_heap := (cbm_heap m)(p \<mapsto> NewCircuitBreaker config)\<rparr>)))"

definition cbm_Get :: "string \<Rightarrow> breaker_manager \<Rightarrow> nat option" where
  "cbm_Get name m = cbm_breakers m name"

definition cbm_List :: "string list \<Rightarrow> breaker_manager \<Rightarrow> string list" where
  "cbm_List ks m = ks"

definition GetAllMetrics :: "breaker_manager \<Rightarrow> (string \<rightharpoonup> breaker_metrics)" where
  "GetAllMetrics m =
     (\<lambda>name. Option.bind (cbm_breakers m name) (\<lambda>p. map_option cb_GetMetrics (cbm_heap m p)))"

text \<open>\<open>ks\<close> is the order the runtime ranges over the names in.\<close>

fun ResetAll :: "string list \<Rightarrow> breaker_manager \<Rightarrow> breaker_manager" where
  "ResetAll [] m = m"
| "ResetAll (k # ks) m =
     ResetAll ks
       (case cbm_breakers m k of
          None \<Rightarrow> m
        | Some p \<Rightarrow> m\<lparr>cbm_heap := (cbm_heap m)(p := map_option cb_Reset (cbm_heap m p))\<rparr>)"

definition cbm_Close :: "breaker_manager \<Rightarrow> breaker_manager" where
  "cbm_Close m = m\<lparr>cbm_breakers := Map.empty\<rparr>"

section \<open>Rate limiting behind a breaker\<close>

record rate_limit_result =
  rr_Allowed :: bool
  rr_RetryAfter :: duration
  rr_Headers :: "string \<rightharpoonup> string"
  rr_Reason :: string
  rr_KeysUsed :: "string list"
  rr_Algorithm :: string

text \<open>The interface \<open>RateLimitStrategy\<close>: the world \<open>'w\<close> is what the strategy keeps.\<close>

record ('r, 'w) strategy =
  st_Name :: string
  st_Check :: "'r \<Rightarrow> 'w \<Rightarrow> (rate_limit_result \<times> breaker_error option) \<times> 'w"
  st_HealthCheck :: "'w \<Rightarrow> breaker_error option \<times> 'w"

definition rlcb_Name :: "('r, 'w) strategy \<Rightarrow> string" where
  "rlcb_Name s = st_Name s @ ''-with-cb''"

definition zero_result :: rate_limit_result where
  "zero_result = \<lparr>rr_Allowed = False, rr_RetryAfter = 0, rr_Headers = Map.empty, rr_Reason = [],
     rr_KeysUsed = [], rr_Algorithm = []\<rparr>"

definition breaker_open_result :: rate_limit_result where
  "breaker_open_result = \<lparr>rr_Allowed = False, rr_RetryAfter = minute,
     rr_Headers = [''X-RateLimit-CircuitBreaker'' \<mapsto> ''open'',
       ''X-RateLimit-Error'' \<mapsto> ''service temporarily unavailable''],
     rr_Reason = ''circuit_breaker_open'', rr_KeysUsed = [], rr_Algorithm = ''circuit_breaker''\<rparr>"

text \<open>The closure handed to \<open>Execute\<close> assigns the result as a side effect.\<close>

definition rlcb_Check ::
    "('r, 'w) strategy \<Rightarrow> time \<Rightarrow> time \<Rightarrow> 'r \<Rightarrow> breaker \<times> 'w \<Rightarrow>
     (rate_limit_result \<times> breaker_error option) \<times> breaker \<times> 'w" where
  "rlcb_Check s now now' req st =
     (case Execute now now'
             (\<lambda>(result, w). case st_Check s req w of ((res, e), w') \<Rightarrow> (e, res, w'))
             (fst st) (zero_result, snd st) of
        (Some e, cb, (result, w)) \<Rightarrow>
          (if IsCircuitBreakerError e then ((breaker_open_result, None), cb, w)
           else ((result, Some e), cb, w))
      | (None, cb, (result, w)) \<Rightarrow>
          ((result\<lparr>rr_Headers := (rr_Headers result)
             (''X-RateLimit-CircuitBreaker'' \<mapsto> breaker_state_text (GetState cb))\<rparr>, None), cb, w))"

definition rlcb_HealthCheck ::
    "('r, 'w) strategy \<Rightarrow> breaker \<times> 'w \<Rightarrow> breaker_error option \<times> breaker \<times> 'w" where
  "rlcb_HealthCheck s st =
     (if GetState (fst st) = StateOpen then (Some (OtherError ''circuit breaker is open''), st)
      else (case st_HealthCheck s (snd st) of (e, w) \<Rightarrow> (e, fst st, w)))"

text \<open>The wrapper is a strategy again.\<close>

definition rlcb_strategy ::
    "('r, 'w) strategy \<Rightarrow> time \<Rightarrow> time \<Rightarrow> ('r, breaker \<times> 'w) strategy" where
  "rlcb_strategy s now now' = \<lparr>st_Name = rlcb_Name s, st_Check = rlcb_Check s now now',
     st_HealthCheck = rlcb_HealthCheck s\<rparr>"

section \<open>Interleavings\<close>

text \<open>
  What concurrent requests do to a breaker, with each method one step: an admission check, a success
  or a failure reported, or a manual reset. The run also gives the answers of the checks.
\<close>

datatype breaker_event = Ask time | Succeed | Fail time | ManualReset

fun breaker_step :: "breaker_event \<Rightarrow> breaker \<Rightarrow> bool option \<times> breaker" where
  "breaker_step (Ask now) cb = (case allowRequest now cb of (ok, cb') \<Rightarrow> (Some ok, cb'))"
| "breaker_step Succeed cb = (None, recordSuccess cb)"
| "breaker_step (Fail now) cb = (None, recordFailure now cb)"
| "breaker_step ManualReset cb = (None, cb_Reset cb)"

fun breaker_run :: "breaker_event list \<Rightarrow> breaker \<Rightarrow> bool option list \<times> breaker" where
  "breaker_run [] cb = ([], cb)"
| "breaker_run (ev # evs) cb =
     (case breaker_step ev cb of (a, cb') \<Rightarrow> case breaker_run evs cb' of (as, cb'') \<Rightarrow> (a # as, cb''))"

definition admitted :: "bool option list \<Rightarrow> nat" where
  "admitted as = length (filter (\<lambda>a. a = Some True) as)"

lemmas breaker_ops = allowRequest_def recordSuccess_def recordFailure_def cb_Reset_def Let_def

lemma admitted_simps [simp]:
  "admitted [] = 0" "admitted (a # as) = (if a = Some True then Suc (admitted as) else admitted as)"
  by (simp_all add: admitted_def)

section \<open>Opening and rejecting\<close>

lemma open_step:
  assumes "cb_state cb = StateOpen" and "ev \<noteq> ManualReset" and "opened \<le> cb_lastFailureTime cb"
    and "\<And>n. ev = Ask n \<Longrightarrow> n - opened < cb_timeout cb" and "\<And>n. ev = Fail n \<Longrightarrow> opened \<le> n"
  shows "fst (breaker_step ev cb) \<noteq> Some True \<and> cb_state (snd (breaker_step ev cb)) = StateOpen \<and>
    opened \<le> cb_lastFailureTime (snd (breaker_step ev cb)) \<and>
    cb_timeout (snd (breaker_step ev cb)) = cb_timeout cb"
proof (cases ev)
  case (Ask n)
  then have "\<not> cb_timeout cb \<le> n - cb_lastFailureTime cb" using assms(3,4) by fastforce
  then show ?thesis using assms Ask by (simp add: breaker_ops)
qed (use assms in \<open>simp_all add: breaker_ops\<close>)

lemma open_run:
  assumes "cb_state cb = StateOpen" and "ManualReset \<notin> set evs" and "opened \<le> cb_lastFailureTime cb"
    and "\<And>n. Ask n \<in> set evs \<Longrightarrow> n - opened < cb_timeout cb" and "\<And>n. Fail n \<in> set evs \<Longrightarrow> opened \<le> n"
  shows "admitted (fst (breaker_run evs cb)) = 0 \<and> cb_state (snd (breaker_run evs cb)) = StateOpen"
  using assms
proof (induction evs arbitrary: cb)
  case (Cons ev evs)
  note step = open_step [of cb ev opened]
  show ?case
    using step Cons.prems Cons.IH [of "snd (breaker_step ev cb)"] by (auto split: prod.splits)
qed simp

text \<open>
  an open breaker rejects. Whatever requests arrive, succeed or fail concurrently, every
  admission check made less than the timeout after the failure that opened the breaker is refused
  and the breaker stays open, unless somebody resets it.
\<close>

theorem open_rejects:
  assumes "cb_state cb = StateOpen" and "ManualReset \<notin> set evs"
    and "\<And>n. Ask n \<in> set evs \<Longrightarrow> n - cb_lastFailureTime cb < cb_timeout cb"
    and "\<And>n. Fail n \<in> set evs \<Longrightarrow> cb_lastFailureTime cb \<le> n"
  shows "admitted (fst (breaker_run evs cb)) = 0 \<and> cb_state (snd (breaker_run evs cb)) = StateOpen"
  by (rule open_run [OF assms(1,2) order_refl]) (fact assms(3,4))+

definition sample_breaker :: "breaker_state \<Rightarrow> breaker" where
  "sample_breaker s = (NewCircuitBreaker \<lparr>bc_Name = ''db'', bc_MaxFailures = 2, bc_Timeout = 10,
     bc_HalfOpenTimeout = 5, bc_MaxHalfOpenReqs = 1\<rparr>)\<lparr>cb_state := s, cb_lastFailureTime := 100\<rparr>"

lemma sample_breaker_simps [simp]:
  "cb_state (sample_breaker s) = s" "cb_lastFailureTime (sample_breaker s) = 100"
  "cb_timeout (sample_breaker s) = 10" "cb_maxHalfOpenReqs (sample_breaker s) = 1"
  "cb_maxFailures (sample_breaker s) = 2" "cb_failureCount (sample_breaker s) = 0"
  by (simp_all add: sample_breaker_def NewCircuitBreaker_def)

lemma open_rejects_witness:
  "admitted (fst (breaker_run [Ask 101, Succeed, Fail 105, Ask 109] (sample_breaker StateOpen))) = 0"
  by (rule open_rejects [THEN conjunct1]) auto

definition fails :: "breaker_event list \<Rightarrow> nat" where
  "fails evs = length (filter (\<lambda>ev. \<exists>n. ev = Fail n) evs)"

definition asks :: "breaker_event list \<Rightarrow> nat" where
  "asks evs = length (filter (\<lambda>ev. \<exists>n. ev = Ask n) evs)"

lemma fails_asks_simps [simp]:
  "fails [] = 0" "fails (Fail n # evs) = Suc (fails evs)" "fails (Ask n # evs) = fails evs"
  "fails (Succeed # evs) = fails evs"
  "asks [] = 0" "asks (Fail n # evs) = asks evs" "asks (Ask n # evs) = Suc (asks evs)"
  "asks (Succeed # evs) = asks evs"
  by (simp_all add: fails_def asks_def)

lemma closed_run:
  assumes "cb_state cb = StateClosed" and "ManualReset \<notin> set evs"
    and "cb_failureCount cb + int (fails evs) < cb_maxFailures cb"
  shows "admitted (fst (breaker_run evs cb)) = asks evs \<and>
    cb_state (snd (breaker_run evs cb)) = StateClosed \<and>
    cb_failureCount (snd (breaker_run evs cb)) = cb_failureCount cb + int (fails evs) \<and>
    cb_maxFailures (snd (breaker_run evs cb)) = cb_maxFailures cb"
  using assms
proof (induction evs arbitrary: cb)
  case (Cons ev evs)
  show ?case
    using Cons.prems Cons.IH [of "snd (breaker_step ev cb)"]
    by (cases ev) (auto simp: breaker_ops split: prod.splits)
qed simp

text \<open>
  what opens a closed breaker. Below the limit every check is admitted, and the next failure opens
  the breaker exactly if it makes the failures counted since the last closing reach the limit;
  successes in between do not clear the count.
\<close>

theorem opens_after_failures:
  assumes "cb_state cb = StateClosed" and "ManualReset \<notin> set evs"
    and "cb_failureCount cb + int (fails evs) < cb_maxFailures cb"
  shows "admitted (fst (breaker_run evs cb)) = asks evs \<and>
    cb_state (snd (breaker_run evs cb)) = StateClosed \<and>
    (cb_state (recordFailure now (snd (breaker_run evs cb))) = StateOpen \<longleftrightarrow>
       cb_maxFailures cb = cb_failureCount cb + int (fails evs) + 1)"
  using closed_run [OF assms] assms(3) by (auto simp: breaker_ops)

lemma opens_after_failures_witness:
  "cb_state (recordFailure 9 (snd (breaker_run [Ask 1, Fail 2, Ask 3, Succeed, Ask 4, Succeed]
     (sample_breaker StateClosed)))) = StateOpen"
  using opens_after_failures [of "sample_breaker StateClosed" "[Ask 1, Fail 2, Ask 3, Succeed, Ask 4, Succeed]" 9]
  by simp

section \<open>The half-open test\<close>

lemma half_open_asks:
  assumes "cb_state cb = StateHalfOpen" and "cb_halfOpenCount cb \<le> cb_maxHalfOpenReqs cb"
  shows "int (admitted (fst (breaker_run (map Ask ts) cb))) =
      min (int (length ts)) (cb_maxHalfOpenReqs cb - cb_halfOpenCount cb) \<and>
    cb_state (snd (breaker_run (map Ask ts) cb)) = StateHalfOpen"
  using assms
proof (induction ts arbitrary: cb)
  case (Cons t ts)
  show ?case
    using Cons.prems Cons.IH [of "snd (breaker_step (Ask t) cb)"]
    by (auto simp: breaker_ops split: prod.splits)
qed simp

text \<open>
  the budget of the half-open test, when the methods do not overlap. From the first check after
  the timeout on, until a result is reported, exactly \<open>maxHalfOpenReqs + 1\<close> requests are admitted
  (the one that makes the transition is not counted), and all later ones are refused however late
  they come: the half-open state has no timeout.
\<close>

theorem probe_budget:
  assumes "cb_state cb = StateOpen" and "now - cb_lastFailureTime cb \<ge> cb_timeout cb"
    and "0 \<le> cb_maxHalfOpenReqs cb"
  shows "int (admitted (fst (breaker_run (map Ask (now # ts)) cb))) =
      1 + min (int (length ts)) (cb_maxHalfOpenReqs cb) \<and>
    cb_state (snd (breaker_run (map Ask (now # ts)) cb)) = StateHalfOpen"
  using assms half_open_asks [of "snd (breaker_step (Ask now) cb)" ts]
  by (auto simp: breaker_ops split: prod.splits)

lemma probe_budget_witness:
  "int (admitted (fst (breaker_run (map Ask [110, 111, 112, 999]) (sample_breaker StateOpen)))) = 2"
  using probe_budget [of "sample_breaker StateOpen" 110 "[111, 112, 999]"] by simp

section \<open>The atomic operations of an admission check\<close>

text \<open>
  Where a goroutine is inside \<open>allowRequest\<close>: each constructor is the point after one atomic
  operation, with what the goroutine has read so far.
\<close>

datatype allow_pc =
    AStart | ACounted | ALoaded breaker_state time | AElapsed | AWon | AMayProbe | ADone bool

definition allow_step :: "time \<Rightarrow> allow_pc \<Rightarrow> breaker \<Rightarrow> allow_pc \<times> breaker" where
  "allow_step now pc cb =
     (case pc of
        AStart \<Rightarrow> (ACounted, cb\<lparr>cb_totalRequests := cb_totalRequests cb + 1\<rparr>)
      | ACounted \<Rightarrow> (ALoaded (cb_state cb) now, cb)
      | ALoaded s t \<Rightarrow>
          ((case s of
              StateClosed \<Rightarrow> ADone True
            | StateOpen \<Rightarrow> (if t - cb_lastFailureTime cb \<ge> cb_timeout cb then AElapsed else ADone False)
            | StateHalfOpen \<Rightarrow>
                (if cb_halfOpenCount cb < cb_maxHalfOpenReqs cb then AMayProbe else ADone False)), cb)
      | AElapsed \<Rightarrow>
          (if cb_state cb = StateOpen then (AWon, cb\<lparr>cb_state := StateHalfOpen\<rparr>) else (ADone True, cb))
      | AWon \<Rightarrow> (ADone True, cb\<lparr>cb_halfOpenCount := 0\<rparr>)
      | AMayProbe \<Rightarrow> (ADone True, cb\<lparr>cb_halfOpenCount := cb_halfOpenCount cb + 1\<rparr>)
      | ADone b \<Rightarrow> (ADone b, cb))"

text \<open>Goroutines take turns as the list of indices says.\<close>

fun allow_sched :: "time \<Rightarrow> nat list \<Rightarrow> allow_pc list \<times> breaker \<Rightarrow> allow_pc list \<times> breaker" where
  "allow_sched now [] st = st"
| "allow_sched now (i # is) st =
     (let (pc, cb) = allow_step now (fst st ! i) (snd st)
      in allow_sched now is ((fst st)[i := pc], cb))"

lemma allow_sched_append: "allow_sched now (is @ js) st = allow_sched now js (allow_sched now is st)"
  by (induction "is" arbitrary: st) (auto simp: Let_def split: prod.splits)

text \<open>One goroutine alone: the atomic operations compose to the one-step model.\<close>

lemma allow_solo:
  "allow_sched now [0, 0, 0, 0, 0] ([AStart], cb) =
     (case allowRequest now cb of (ok, cb') \<Rightarrow> ([ADone ok], cb'))"
  by (cases "cb_state cb") (simp_all add: allow_step_def allowRequest_def)

lemma arrive_one:
  assumes "cb_state cb = StateOpen" and "now - cb_lastFailureTime cb \<ge> cb_timeout cb" and "i = length ps"
  shows "allow_sched now [i, i, i] (ps @ AStart # qs, cb) =
    (ps @ AElapsed # qs, cb\<lparr>cb_totalRequests := cb_totalRequests cb + 1\<rparr>)"
  using assms by (simp add: allow_step_def)

lemma arrive:
  assumes "cb_state cb = StateOpen" and "now - cb_lastFailureTime cb \<ge> cb_timeout cb"
  shows "allow_sched now (concat (map (\<lambda>i. [i, i, i]) [0..<n])) (replicate (n + m) AStart, cb) =
    (replicate n AElapsed @ replicate m AStart, cb\<lparr>cb_totalRequests := cb_totalRequests cb + int n\<rparr>)"
proof (induction n arbitrary: m)
  case (Suc n)
  have "replicate (Suc n + m) AStart = replicate (n + Suc m) AStart" by simp
  then have "allow_sched now (concat (map (\<lambda>i. [i, i, i]) [0..<n])) (replicate (Suc n + m) AStart, cb) =
     (replicate n AElapsed @ AStart # replicate m AStart, cb\<lparr>cb_totalRequests := cb_totalRequests cb + int n\<rparr>)"
    using Suc [of "Suc m"] by (simp only: replicate_Suc)
  then show ?case
    using assms arrive_one [of "cb\<lparr>cb_totalRequests := cb_totalRequests cb + int n\<rparr>" now n
        "replicate n AElapsed" "replicate m AStart"]
    by (simp only: upt_Suc_append map_append concat_append allow_sched_append) (simp add: replicate_app_Cons_same)
qed simp

lemma losers:
  "cb_state cb = StateHalfOpen \<Longrightarrow> allow_sched now [length ps..<length ps + n] (ps @ replicate n AElapsed, cb) =
     (ps @ replicate n (ADone True), cb)"
proof (induction n arbitrary: ps)
  case (Suc n)
  have "[length ps..<length ps + Suc n] = length ps # [length (ps @ [ADone True])..<length (ps @ [ADone True]) + n]"
    by (simp add: upt_rec)
  then show ?case
    using Suc.prems Suc.IH [of "ps @ [ADone True]"]
    by (simp add: allow_step_def nth_append list_update_append)
qed simp

definition flood :: "nat \<Rightarrow> nat list" where
  "flood n = concat (map (\<lambda>i. [i, i, i]) [0..<n]) @ [0..<n] @ [0]"

text \<open>
  the half-open test does not bound concurrent requests. When the timeout has elapsed, any number
  of goroutines can check for admission such that all are admitted, the breaker is half-open and
  its count of test requests is still 0: those that lose the compare-and-swap return true as well.
\<close>

theorem half_open_flood:
  assumes "cb_state cb = StateOpen" and "now - cb_lastFailureTime cb \<ge> cb_timeout cb"
  shows "allow_sched now (flood (Suc n)) (replicate (Suc n) AStart, cb) =
    (replicate (Suc n) (ADone True),
     cb\<lparr>cb_totalRequests := cb_totalRequests cb + int (Suc n), cb_state := StateHalfOpen, cb_halfOpenCount := 0\<rparr>)"
proof -
  define cb1 where "cb1 = cb\<lparr>cb_totalRequests := cb_totalRequests cb + int (Suc n)\<rparr>"
  define cb2 where "cb2 = cb1\<lparr>cb_state := StateHalfOpen\<rparr>"
  have s: "cb_state cb1 = StateOpen" "cb_state cb2 = StateHalfOpen" using assms by (simp_all add: cb1_def cb2_def)
  have "allow_sched now (concat (map (\<lambda>i. [i, i, i]) [0..<Suc n])) (replicate (Suc n) AStart, cb) =
      (replicate (Suc n) AElapsed, cb1)"
    using arrive [OF assms, of "Suc n" 0] by (simp add: cb1_def)
  moreover have "allow_sched now [0..<Suc n] (replicate (Suc n) AElapsed, cb1) =
      (AWon # replicate n (ADone True), cb2)"
    using s losers [of cb2 now "[AWon]" n] by (simp add: upt_conv_Cons allow_step_def cb2_def del: upt_Suc)
  moreover have "allow_sched now [0] (AWon # replicate n (ADone True), cb2) =
      (replicate (Suc n) (ADone True), cb2\<lparr>cb_halfOpenCount := 0\<rparr>)"
    by (simp add: allow_step_def)
  ultimately show ?thesis
    by (simp only: flood_def allow_sched_append) (simp add: cb1_def cb2_def)
qed

lemma half_open_flood_witness:
  "fst (allow_sched 110 (flood 3) (replicate 3 AStart, sample_breaker StateOpen)) = replicate 3 (ADone True)"
  using half_open_flood [of "sample_breaker StateOpen" 110 2] by (simp add: numeral_3_eq_3)

section \<open>The manager's histories\<close>

inductive cbm_reach :: "breaker_manager \<Rightarrow> bool" where
  cbm_new: "cbm_reach NewCircuitBreakerManager"
| cbm_create: "cbm_reach m \<Longrightarrow> cbm_heap m p = None \<Longrightarrow> cbm_reach (snd (snd (GetOrCreate p name config m)))"
| cbm_event: "cbm_reach m \<Longrightarrow> cbm_heap m p = Some cb \<Longrightarrow>
    cbm_reach (m\<lparr>cbm_heap := (cbm_heap m)(p \<mapsto> snd (breaker_step ev cb))\<rparr>)"
| cbm_reset: "cbm_reach m \<Longrightarrow> range_order ks (cbm_breakers m) \<Longrightarrow> cbm_reach (ResetAll ks m)"
| cbm_close: "cbm_reach m \<Longrightarrow> cbm_reach (cbm_Close m)"

text \<open>Registered pointers are allocated and carry their name, so no two names share a breaker.\<close>

definition cbm_inv :: "breaker_manager \<Rightarrow> bool" where
  "cbm_inv m \<longleftrightarrow> (\<forall>name p. cbm_breakers m name = Some p \<longrightarrow>
     (\<exists>cb. cbm_heap m p = Some cb \<and> cb_name cb = name))"

lemma breaker_step_name [simp]: "cb_name (snd (breaker_step ev cb)) = cb_name cb"
  by (cases ev; cases "cb_state cb") (auto simp: breaker_ops split: prod.splits)

lemma ResetAll_breakers [simp]: "cbm_breakers (ResetAll ks m) = cbm_breakers m"
  by (induction ks m rule: ResetAll.induct) (auto split: option.splits)

lemma cb_Reset_idem [simp]: "cb_Reset (cb_Reset cb) = cb_Reset cb"
  by (simp add: cb_Reset_def)

lemma ResetAll_heap: "cbm_heap (ResetAll ks m) p =
    (if \<exists>k \<in> set ks. cbm_breakers m k = Some p then map_option cb_Reset (cbm_heap m p) else cbm_heap m p)"
proof (induction ks m rule: ResetAll.induct)
  case (2 k ks m)
  then show ?case by (cases "cbm_breakers m k") (auto simp: option.map_comp comp_def)
qed simp

lemma GetOrCreate_inv: "cbm_inv m \<Longrightarrow> cbm_heap m p = None \<Longrightarrow> cbm_inv (snd (snd (GetOrCreate p name config m)))"
  by (fastforce simp: GetOrCreate_def cbm_inv_def NewCircuitBreaker_def Let_def split: option.splits)

lemma cbm_reach_inv: "cbm_reach m \<Longrightarrow> cbm_inv m"
proof (induction rule: cbm_reach.induct)
  case cbm_new
  then show ?case by (simp add: cbm_inv_def NewCircuitBreakerManager_def)
next
  case (cbm_event m p cb ev)
  then show ?case by (fastforce simp: cbm_inv_def)
next
  case (cbm_reset m ks)
  then show ?case by (fastforce simp: cbm_inv_def ResetAll_heap cb_Reset_def)
next
  case (cbm_close m)
  then show ?case by (simp add: cbm_inv_def cbm_Close_def)
qed (rule GetOrCreate_inv)

text \<open>
  the manager hands out one breaker per name. In every reachable manager, \<open>GetOrCreate\<close> gives a
  breaker with the asked name, registers it without touching other names, gives no name the breaker
  of another, and gives the same breaker again whatever configuration later calls bring.
\<close>

theorem one_breaker_per_name:
  assumes "cbm_reach m" and "cbm_heap m p = None" and "GetOrCreate p name config m = (q, config', m')"
  shows "(\<exists>cb. cbm_heap m' q = Some cb \<and> cb_name cb = name) \<and>
    (\<forall>k. cbm_Get k m' = (if k = name then Some q else cbm_Get k m)) \<and>
    (\<forall>k. cbm_Get k m' = Some q \<longrightarrow> k = name) \<and>
    GetOrCreate p' name config2 m' = (q, config2, m')"
proof -
  have inv: "cbm_inv m'" using GetOrCreate_inv [OF cbm_reach_inv [OF assms(1)] assms(2)] assms(3)
    by (metis snd_conv)
  have get: "cbm_breakers m' = (cbm_breakers m)(name \<mapsto> q)"
    using assms(3) by (auto simp: GetOrCreate_def Let_def split: option.splits)
  have a: "\<exists>cb. cbm_heap m' q = Some cb \<and> cb_name cb = name"
    using inv get by (simp add: cbm_inv_def)
  have b: "\<forall>k. cbm_Get k m' = Some q \<longrightarrow> k = name"
    using inv a unfolding cbm_inv_def cbm_Get_def by (metis option.inject)
  have c: "\<forall>k. cbm_Get k m' = (if k = name then Some q else cbm_Get k m)"
    using get by (simp add: cbm_Get_def)
  have d: "GetOrCreate p' name config2 m' = (q, config2, m')"
    using get by (simp add: GetOrCreate_def)
  show ?thesis using a b c d by blast
qed

definition db_config :: breaker_config where
  "db_config = \<lparr>bc_Name = [], bc_MaxFailures = 2, bc_Timeout = 10, bc_HalfOpenTimeout = 5,
     bc_MaxHalfOpenReqs = 1\<rparr>"

lemma one_breaker_per_name_witness:
  "\<exists>q config' m'. GetOrCreate 3 ''db'' db_config NewCircuitBreakerManager = (q, config', m') \<and>
     GetOrCreate 4 ''db'' db_config m' = (q, db_config, m')"
proof -
  obtain q config' m' where g: "GetOrCreate 3 ''db'' db_config NewCircuitBreakerManager = (q, config', m')"
    by (metis surj_pair)
  have h: "cbm_heap NewCircuitBreakerManager 3 = None" by (simp add: NewCircuitBreakerManager_def)
  show ?thesis using one_breaker_per_name [OF cbm_new h g, of 4 db_config] g by blast
qed

text \<open>
  \<open>ResetAll\<close>, in whatever order the runtime visits the names, closes every registered breaker,
  clears its counts and leaves all other breakers as they are.
\<close>

theorem ResetAll_closes:
  assumes "cbm_reach m" and "range_order ks (cbm_breakers m)"
  shows "(\<forall>name p. cbm_breakers m name = Some p \<longrightarrow> (\<exists>cb. cbm_heap m p = Some cb \<and>
      cbm_heap (ResetAll ks m) p =
        Some (cb\<lparr>cb_state := StateClosed, cb_failureCount := 0, cb_halfOpenCount := 0\<rparr>))) \<and>
    (\<forall>p. p \<notin> ran (cbm_breakers m) \<longrightarrow> cbm_heap (ResetAll ks m) p = cbm_heap m p)"
proof -
  have ks: "set ks = dom (cbm_breakers m)" using assms(2) by (simp add: range_order_def)
  have "cbm_breakers m name = Some p \<Longrightarrow> \<exists>cb. cbm_heap m p = Some cb \<and>
      cbm_heap (ResetAll ks m) p = Some (cb_Reset cb)" for name p
    using cbm_reach_inv [OF assms(1)] ks by (fastforce simp: cbm_inv_def ResetAll_heap)
  moreover have "p \<notin> ran (cbm_breakers m) \<Longrightarrow> cbm_heap (ResetAll ks m) p = cbm_heap m p" for p
    by (auto simp: ResetAll_heap ran_def)
  ultimately show ?thesis by (simp add: cb_Reset_def)
qed

lemma ResetAll_closes_witness:
  "\<exists>cb. cbm_heap (ResetAll [''db''] (snd (snd (GetOrCreate 3 ''db'' db_config NewCircuitBreakerManager)))) 3 =
     Some cb \<and> cb_state cb = StateClosed"
proof -
  let ?m = "snd (snd (GetOrCreate 3 ''db'' db_config NewCircuitBreakerManager))"
  have b: "cbm_breakers ?m = [''db'' \<mapsto> 3]"
    by (simp add: GetOrCreate_def NewCircuitBreakerManager_def Let_def)
  have r: "cbm_reach ?m" by (rule cbm_create [OF cbm_new]) (simp add: NewCircuitBreakerManager_def)
  have "range_order [''db''] (cbm_breakers ?m)" by (simp add: b range_order_def)
  from ResetAll_closes [OF r this]
  obtain cb where "cbm_heap (ResetAll [''db''] ?m) 3 =
      Some (cb\<lparr>cb_state := StateClosed, cb_failureCount := 0, cb_halfOpenCount := 0\<rparr>)"
    using b by (metis fun_upd_same)
  then show ?thesis by simp
qed

section \<open>The wrapper's contract\<close>

text \<open>
  The wrapper tells a refusal of its own breaker from an error of the strategy by the error's type.
  The locale has the strategy's part of that contract: its errors are not breaker errors.
\<close>

locale plain_strategy =
  fixes s :: "('r, 'w) strategy"
  assumes plain: "st_Check s req w = ((res, Some e), w') \<Longrightarrow> \<not> IsCircuitBreakerError e"
begin

lemma check_refused:
  assumes "\<not> fst (allowRequest now cb)"
  shows "rlcb_Check s now now' req (cb, w) = ((breaker_open_result, None), snd (allowRequest now cb), w)"
  using assms by (auto simp: rlcb_Check_def Execute_def IsCircuitBreakerError_def split: prod.splits)

lemma check_admitted:
  assumes "fst (allowRequest now cb)" and "st_Check s req w = ((res, e), w')"
  shows "\<exists>res' cb'. rlcb_Check s now now' req (cb, w) = ((res', e), cb', w') \<and>
    rr_Allowed res' = rr_Allowed res \<and> rr_Reason res' = rr_Reason res \<and>
    cb' = (if e = None then recordSuccess (snd (allowRequest now cb))
           else recordFailure now' (snd (allowRequest now cb)))"
  using assms plain [of req w res _ w']
  by (cases e) (auto simp: rlcb_Check_def Execute_def split: prod.splits)

end

text \<open>The wrapper keeps the contract it asks of its strategy, whatever strategy it wraps.\<close>

interpretation wrapped: plain_strategy "rlcb_strategy s now now'" for s now now'
  by unfold_locales
    (auto simp: rlcb_strategy_def rlcb_Check_def split: prod.splits option.splits if_splits)

text \<open>
  breakers in series. While the inner breaker is open, a check through both answers "not allowed,
  circuit breaker open" without an error and without consulting the strategy, and the outer
  breaker counts the refusal as a success.
\<close>

theorem nested_breakers:
  assumes "cb_state outer = StateClosed" and "cb_state inner = StateOpen"
    and "now - cb_lastFailureTime inner < cb_timeout inner"
  shows "\<exists>res. rlcb_Check (rlcb_strategy s now now') now now' req (outer, inner, w) =
      ((res, None), outer\<lparr>cb_totalRequests := cb_totalRequests outer + 1,
          cb_successRequests := cb_successRequests outer + 1\<rparr>,
       inner\<lparr>cb_totalRequests := cb_totalRequests inner + 1\<rparr>, w) \<and>
    \<not> rr_Allowed res \<and> rr_Reason res = ''circuit_breaker_open''"
proof -
  have inner: "st_Check (rlcb_strategy s now now') req (inner, w) =
      ((breaker_open_result, None), inner\<lparr>cb_totalRequests := cb_totalRequests inner + 1\<rparr>, w)"
    using assms(2,3) by (simp add: rlcb_strategy_def rlcb_Check_def Execute_def allowRequest_def
        IsCircuitBreakerError_def)
  have "fst (allowRequest now outer)" using assms(1) by (simp add: allowRequest_def)
  from wrapped.check_admitted [OF this inner, of now' ] assms(1)
  show ?thesis by (fastforce simp: breaker_ops breaker_open_result_def)
qed

definition counting_strategy :: "(unit, nat) strategy" where
  "counting_strategy = \<lparr>st_Name = ''x'', st_Check = (\<lambda>r w. ((zero_result, None), w + 1)),
     st_HealthCheck = (\<lambda>w. (None, w))\<rparr>"

lemma nested_breakers_witness:
  "\<exists>res outer inner. rlcb_Check (rlcb_strategy counting_strategy 105 105) 105 105 ()
       (sample_breaker StateClosed, sample_breaker StateOpen, 7) = ((res, None), outer, inner, 7) \<and>
     \<not> rr_Allowed res"
  using nested_breakers [of "sample_breaker StateClosed" "sample_breaker StateOpen" 105 counting_strategy 105 "()" 7]
  by auto

end
