(* ===== verification/LockManager.thy ===== *)
theory LockManager
  imports Prelude
begin

text \<open>
  The lock manager of the market migration, \<open>internal/trading/migration/lock_manager.go\<close> (with
  \<open>LockInfo\<close> of \<open>types.go\<close>). Every operation is one critical section of the mutex. \<open>AcquireLock\<close>
  reads the clock before it waits for the mutex; the others read it inside. The locks are handed out
  as copies, so the map holds them by value. Where the code ranges over the map, \<open>ks\<close> is the order
  the runtime chooses. An error is a constructor with the arguments of its text. The cleanup worker
  is the caller of \<open>cleanupExpiredLocks\<close>; the metadata map is created empty and never used.
\<close>

section \<open>State\<close>

record lock_info =
  li_ID :: uuid
  li_Resource :: string
  li_Owner :: string
  li_AcquiredAt :: time
  li_ExpiresAt :: time
  li_TTL :: duration
  li_IsActive :: bool

record lock_manager =
  lm_locks :: "string \<rightharpoonup> lock_info"
  lm_defaultTTL :: duration
  lm_stopClosed :: bool

datatype lock_error =
    ResourceEmpty | OwnerEmpty | AlreadyLocked string string time | LockIDNil | LockNotFound uuid
  | TTLNotPositive | LockNotActive uuid | LockExpired uuid | NoLockFor string | NotLocked string

definition NewLockManager :: lock_manager where
  "NewLockManager = \<lparr>lm_locks = Map.empty, lm_defaultTTL = hour, lm_stopClosed = False\<rparr>"

section \<open>Operations\<close>

text \<open>\<open>lockID\<close> is the answer of \<open>uuid.New\<close>.\<close>

definition AcquireLock ::
    "uuid \<Rightarrow> time \<Rightarrow> string \<Rightarrow> string \<Rightarrow> duration \<Rightarrow> lock_manager \<Rightarrow> (lock_error + uuid) \<times> lock_manager" where
  "AcquireLock lockID now resource owner ttl lm =
     (if resource = [] then (Inl ResourceEmpty, lm)
      else if owner = [] then (Inl OwnerEmpty, lm)
      else
        let ttl = (if ttl \<le> 0 then lm_defaultTTL lm else ttl);
            new = \<lparr>li_ID = lockID, li_Resource = resource, li_Owner = owner, li_AcquiredAt = now,
              li_ExpiresAt = now + ttl, li_TTL = ttl, li_IsActive = True\<rparr>;
            granted = (Inr lockID, lm\<lparr>lm_locks := (lm_locks lm)(resource \<mapsto> new)\<rparr>)
        in case lm_locks lm resource of
             Some old \<Rightarrow>
               (if li_IsActive old \<and> now < li_ExpiresAt old
                then (Inl (AlreadyLocked resource (li_Owner old) (li_ExpiresAt old)), lm)
                else granted)
           | None \<Rightarrow> granted)"

text \<open>The search loop: the first resource in range order whose lock has the ID.\<close>

fun find_lock :: "string list \<Rightarrow> uuid \<Rightarrow> (string \<rightharpoonup> lock_info) \<Rightarrow> string option" where
  "find_lock [] lockID locks = None"
| "find_lock (k # ks) lockID locks =
     (case locks k of
        Some l \<Rightarrow> (if li_ID l = lockID then Some k else find_lock ks lockID locks)
      | None \<Rightarrow> find_lock ks lockID locks)"

text \<open>A resource named by the empty string reads as "not found".\<close>

definition ReleaseLock :: "string list \<Rightarrow> uuid \<Rightarrow> lock_manager \<Rightarrow> lock_error option \<times> lock_manager" where
  "ReleaseLock ks lockID lm =
     (if lockID = nil_uuid then (Some LockIDNil, lm)
      else case find_lock ks lockID (lm_locks lm) of
             None \<Rightarrow> (Some (LockNotFound lockID), lm)
           | Some resource \<Rightarrow>
               (if resource = [] then (Some (LockNotFound lockID), lm)
                else (None, lm\<lparr>lm_locks := (lm_locks lm)(resource := None)\<rparr>)))"

definition RenewLock ::
    "string list \<Rightarrow> time \<Rightarrow> uuid \<Rightarrow> duration \<Rightarrow> lock_manager \<Rightarrow> lock_error option \<times> lock_manager" where
  "RenewLock ks now lockID additionalTTL lm =
     (if lockID = nil_uuid then (Some LockIDNil, lm)
      else if additionalTTL \<le> 0 then (Some TTLNotPositive, lm)
      else case find_lock ks lockID (lm_locks lm) of
             None \<Rightarrow> (Some (LockNotFound lockID), lm)
           | Some resource \<Rightarrow>
               (case lm_locks lm resource of
                  None \<Rightarrow> (Some (LockNotFound lockID), lm)
                | Some l \<Rightarrow>
                    (if \<not> li_IsActive l then (Some (LockNotActive lockID), lm)
                     else if now > li_ExpiresAt l
                       then (Some (LockExpired lockID),
                             lm\<lparr>lm_locks := (lm_locks lm)(resource \<mapsto> l\<lparr>li_IsActive := False\<rparr>)\<rparr>)
                     else (None, lm\<lparr>lm_locks := (lm_locks lm)(resource \<mapsto>
                             l\<lparr>li_ExpiresAt := li_ExpiresAt l + additionalTTL,
                               li_TTL := li_TTL l + additionalTTL\<rparr>)\<rparr>))))"

definition GetLockInfo :: "string list \<Rightarrow> uuid \<Rightarrow> lock_manager \<Rightarrow> lock_error + lock_info" where
  "GetLockInfo ks lockID lm =
     (if lockID = nil_uuid then Inl LockIDNil
      else case Option.bind (find_lock ks lockID (lm_locks lm)) (lm_locks lm) of
             None \<Rightarrow> Inl (LockNotFound lockID)
           | Some l \<Rightarrow> Inr l)"

definition valid_at :: "time \<Rightarrow> lock_info \<Rightarrow> bool" where
  "valid_at now l \<longleftrightarrow> li_IsActive l \<and> now < li_ExpiresAt l"

definition ListLocks :: "string list \<Rightarrow> time \<Rightarrow> lock_manager \<Rightarrow> lock_info list" where
  "ListLocks ks now lm = filter (valid_at now) (List.map_filter (lm_locks lm) ks)"

definition IsResourceLocked :: "time \<Rightarrow> string \<Rightarrow> lock_manager \<Rightarrow> bool" where
  "IsResourceLocked now resource lm =
     (case lm_locks lm resource of None \<Rightarrow> False | Some l \<Rightarrow> valid_at now l)"

definition GetResourceLock :: "time \<Rightarrow> string \<Rightarrow> lock_manager \<Rightarrow> lock_error + lock_info" where
  "GetResourceLock now resource lm =
     (case lm_locks lm resource of
        None \<Rightarrow> Inl (NoLockFor resource)
      | Some l \<Rightarrow>
          (if \<not> li_IsActive l \<or> now > li_ExpiresAt l then Inl (NotLocked resource) else Inr l))"

definition ForceReleaseLock :: "string \<Rightarrow> lock_manager \<Rightarrow> lock_error option \<times> lock_manager" where
  "ForceReleaseLock resource lm =
     (case lm_locks lm resource of
        None \<Rightarrow> (Some (NoLockFor resource), lm)
      | Some l \<Rightarrow> (None, lm\<lparr>lm_locks := (lm_locks lm)(resource := None)\<rparr>))"

text \<open>A second shutdown closes a closed channel.\<close>

definition Shutdown :: "lock_manager \<Rightarrow> lock_manager outcome" where
  "Shutdown lm = (if lm_stopClosed lm then Panics
     else Returns (lm\<lparr>lm_stopClosed := True, lm_locks := Map.empty\<rparr>))"

text \<open>Cleanup collects the active locks past their expiry in a first pass and deletes them in a second.\<close>

definition expired_at :: "time \<Rightarrow> lock_info \<Rightarrow> bool" where
  "expired_at now l \<longleftrightarrow> li_IsActive l \<and> now > li_ExpiresAt l"

fun delete_expired :: "string list \<Rightarrow> (string \<rightharpoonup> lock_info) \<Rightarrow> (string \<rightharpoonup> lock_info)" where
  "delete_expired [] locks = locks"
| "delete_expired (k # ks) locks = delete_expired ks (locks(k := None))"

definition cleanupExpiredLocks :: "string list \<Rightarrow> time \<Rightarrow> lock_manager \<Rightarrow> lock_manager" where
  "cleanupExpiredLocks ks now lm =
     (let expired = filter (\<lambda>k. \<exists>l \<in> set_option (lm_locks lm k). expired_at now l) ks
      in lm\<lparr>lm_locks := delete_expired expired (lm_locks lm)\<rparr>)"

record lock_metrics =
  mt_total :: nat
  mt_active :: nat
  mt_expired :: nat
  mt_default_ttl :: duration

definition GetLockMetrics :: "string list \<Rightarrow> time \<Rightarrow> lock_manager \<Rightarrow> lock_metrics" where
  "GetLockMetrics ks now lm =
     (let ls = List.map_filter (lm_locks lm) ks
      in \<lparr>mt_total = length ks, mt_active = length (filter (valid_at now) ls),
          mt_expired = length (filter (\<lambda>l. \<not> valid_at now l) ls), mt_default_ttl = lm_defaultTTL lm\<rparr>)"

section \<open>Searching\<close>

lemma find_lock_Some: "find_lock ks i m = Some k \<Longrightarrow> k \<in> set ks \<and> (\<exists>l. m k = Some l \<and> li_ID l = i)"
  by (induction ks i m rule: find_lock.induct) (auto split: option.splits if_splits)

lemma find_lock_None: "find_lock ks i m = None \<longleftrightarrow> (\<forall>k \<in> set ks. \<forall>l. m k = Some l \<longrightarrow> li_ID l \<noteq> i)"
  by (induction ks i m rule: find_lock.induct) (auto split: option.splits)

lemma delete_expired_map: "delete_expired ks m k = (if k \<in> set ks then None else m k)"
  by (induction ks arbitrary: m) simp_all

section \<open>Histories and grants\<close>

text \<open>
  The history of a manager records every grant by its ID: the resource, the time the critical section
  of \<open>AcquireLock\<close> ran, and the time the grant ends, which is its expiry as last renewed or the
  time it was released. The time of the critical sections does not go back; the clock reading of
  an \<open>AcquireLock\<close> may be older than its critical section.
\<close>

type_synonym grants = "uuid \<rightharpoonup> string \<times> time \<times> time"

definition end_grants :: "time \<Rightarrow> (uuid \<Rightarrow> bool) \<Rightarrow> grants \<Rightarrow> grants" where
  "end_grants now which g =
     (\<lambda>i. case g i of Some (r, s, e) \<Rightarrow> Some (r, s, if which i then min e now else e) | None \<Rightarrow> None)"

definition extend_grant :: "uuid \<Rightarrow> duration \<Rightarrow> grants \<Rightarrow> grants" where
  "extend_grant i d g = (case g i of Some (r, s, e) \<Rightarrow> g(i \<mapsto> (r, s, e + d)) | None \<Rightarrow> g)"

inductive lock_history :: "lock_manager \<Rightarrow> grants \<Rightarrow> time \<Rightarrow> bool" where
  lk_new: "lock_history NewLockManager Map.empty t"
| lk_acquire: "lock_history lm g t \<Longrightarrow> t \<le> atm \<Longrightarrow> now \<le> atm \<Longrightarrow> i \<noteq> nil_uuid \<Longrightarrow> g i = None \<Longrightarrow>
    AcquireLock i now res owner ttl lm = (Inr i, lm') \<Longrightarrow> lm_locks lm' res = Some l \<Longrightarrow>
    lock_history lm' (g(i \<mapsto> (res, atm, li_ExpiresAt l))) atm"
| lk_refused: "lock_history lm g t \<Longrightarrow> t \<le> atm \<Longrightarrow> AcquireLock i now res owner ttl lm = (Inl e, lm') \<Longrightarrow>
    lock_history lm' g atm"
| lk_renew: "lock_history lm g t \<Longrightarrow> t \<le> now \<Longrightarrow> range_order ks (lm_locks lm) \<Longrightarrow>
    RenewLock ks now i ttl lm = (e, lm') \<Longrightarrow>
    lock_history lm' (if e = None then extend_grant i ttl g else g) now"
| lk_release: "lock_history lm g t \<Longrightarrow> t \<le> now \<Longrightarrow> range_order ks (lm_locks lm) \<Longrightarrow>
    ReleaseLock ks i lm = (e, lm') \<Longrightarrow>
    lock_history lm' (if e = None then end_grants now (\<lambda>j. j = i) g else g) now"
| lk_force: "lock_history lm g t \<Longrightarrow> t \<le> now \<Longrightarrow> ForceReleaseLock res lm = (e, lm') \<Longrightarrow>
    lock_history lm' (end_grants now (\<lambda>j. \<exists>l. lm_locks lm res = Some l \<and> li_ID l = j) g) now"
| lk_cleanup: "lock_history lm g t \<Longrightarrow> t \<le> now \<Longrightarrow> range_order ks (lm_locks lm) \<Longrightarrow>
    lock_history (cleanupExpiredLocks ks now lm) g now"
| lk_shutdown: "lock_history lm g t \<Longrightarrow> t \<le> now \<Longrightarrow> Shutdown lm = Returns lm' \<Longrightarrow>
    lock_history lm' (end_grants now (\<lambda>j. True) g) now"

section \<open>The invariant\<close>

text \<open>
  Every entry is the grant with its ID and the latest of its resource; every grant that has not ended
  is an entry.
\<close>

definition entry_ok :: "grants \<Rightarrow> time \<Rightarrow> string \<Rightarrow> lock_info \<Rightarrow> bool" where
  "entry_ok g t res l \<longleftrightarrow> res \<noteq> [] \<and> li_ID l \<noteq> nil_uuid \<and> (\<not> li_IsActive l \<longrightarrow> li_ExpiresAt l \<le> t) \<and>
     (\<exists>s. g (li_ID l) = Some (res, s, li_ExpiresAt l) \<and>
        (\<forall>i s' e'. g i = Some (res, s', e') \<longrightarrow> i \<noteq> li_ID l \<longrightarrow> e' \<le> s))"

definition lock_inv :: "(string \<rightharpoonup> lock_info) \<Rightarrow> grants \<Rightarrow> time \<Rightarrow> bool" where
  "lock_inv m g t \<longleftrightarrow> (\<forall>res l. m res = Some l \<longrightarrow> entry_ok g t res l) \<and>
     (\<forall>i res s e. g i = Some (res, s, e) \<longrightarrow>
        s \<le> t \<and> (t < e \<longrightarrow> (\<exists>l. m res = Some l \<and> li_ID l = i))) \<and>
     (\<forall>i j res s e s' e'. g i = Some (res, s, e) \<longrightarrow> g j = Some (res, s', e') \<longrightarrow> i \<noteq> j \<longrightarrow>
        e \<le> s' \<or> e' \<le> s)"

lemma lock_invI [intro?]:
  assumes "\<And>res l. m res = Some l \<Longrightarrow> entry_ok g t res l"
    and "\<And>i res s e. g i = Some (res, s, e) \<Longrightarrow> s \<le> t"
    and "\<And>i res s e. g i = Some (res, s, e) \<Longrightarrow> t < e \<Longrightarrow> \<exists>l. m res = Some l \<and> li_ID l = i"
    and "\<And>i j res s e s' e'. g i = Some (res, s, e) \<Longrightarrow> g j = Some (res, s', e') \<Longrightarrow> i \<noteq> j \<Longrightarrow>
        e \<le> s' \<or> e' \<le> s"
  shows "lock_inv m g t"
  unfolding lock_inv_def using assms by blast

lemma lock_invD:
  assumes "lock_inv m g t"
  shows "m res = Some l \<Longrightarrow> entry_ok g t res l"
    and "g i = Some (res, s, e) \<Longrightarrow> s \<le> t"
    and "g i = Some (res, s, e) \<Longrightarrow> t < e \<Longrightarrow> \<exists>l. m res = Some l \<and> li_ID l = i"
    and "g i = Some (res, s, e) \<Longrightarrow> g j = Some (res, s', e') \<Longrightarrow> i \<noteq> j \<Longrightarrow> e \<le> s' \<or> e' \<le> s"
  using assms unfolding lock_inv_def by blast+

lemma entry_later: "entry_ok g t res l \<Longrightarrow> t \<le> t' \<Longrightarrow> entry_ok g t' res l"
  unfolding entry_ok_def by (meson order_trans)

lemma lock_inv_later: "lock_inv m g t \<Longrightarrow> t \<le> t' \<Longrightarrow> lock_inv m g t'"
  by (rule lock_invI) (use lock_invD entry_later in \<open>meson order_trans order_le_less_trans\<close>)+

text \<open>Ending grants keeps the invariant when their entries go.\<close>

lemma end_grants_Some: "end_grants now which g i = Some (res, s, e) \<longleftrightarrow>
    (\<exists>e0. g i = Some (res, s, e0) \<and> e = (if which i then min e0 now else e0))"
  by (auto simp: end_grants_def split: option.splits)

lemma lock_inv_end:
  assumes inv: "lock_inv m g now"
    and sub: "\<And>res l. m' res = Some l \<Longrightarrow> m res = Some l \<and> \<not> which (li_ID l)"
    and gone: "\<And>res l. m res = Some l \<Longrightarrow> m' res = None \<Longrightarrow> which (li_ID l) \<or> li_ExpiresAt l \<le> now"
  shows "lock_inv m' (end_grants now which g) now"
proof (rule lock_invI)
  fix res l assume l: "m' res = Some l"
  have "entry_ok g now res l" using lock_invD(1) [OF inv] sub [OF l] by blast
  then show "entry_ok (end_grants now which g) now res l"
    using sub [OF l] by (fastforce simp: entry_ok_def end_grants_Some)
next
  fix i res s e assume "end_grants now which g i = Some (res, s, e)"
  then show "s \<le> now" using lock_invD(2) [OF inv] by (auto simp: end_grants_Some)
next
  fix i res s e assume g: "end_grants now which g i = Some (res, s, e)" and "now < e"
  then have gi: "g i = Some (res, s, e)" "\<not> which i" by (auto simp: end_grants_Some split: if_splits)
  then obtain l where l: "m res = Some l" "li_ID l = i"
    using lock_invD(3) [OF inv gi(1) \<open>now < e\<close>] by blast
  have "li_ExpiresAt l = e" using lock_invD(1) [OF inv l(1)] gi l(2) by (auto simp: entry_ok_def)
  then have "m' res \<noteq> None" using gone [OF l(1)] gi l(2) \<open>now < e\<close> by auto
  then show "\<exists>l. m' res = Some l \<and> li_ID l = i" using sub l by fastforce
next
  fix i j res s e s' e'
  assume "end_grants now which g i = Some (res, s, e)" "end_grants now which g j = Some (res, s', e')" "i \<noteq> j"
  then show "e \<le> s' \<or> e' \<le> s" using lock_invD(4) [OF inv] by (fastforce simp: end_grants_Some split: if_splits)
qed

lemma end_none: "end_grants now (\<lambda>j. False) g = g"
  by (rule ext) (auto simp: end_grants_def split: option.splits)

lemma entry_by_id:
  assumes "lock_inv m g t" and "m res = Some l" and "m res' = Some l'" and "li_ID l = li_ID l'"
  shows "res' = res"
  using lock_invD(1) [OF assms(1,2)] lock_invD(1) [OF assms(1,3)] assms(4) by (auto simp: entry_ok_def)

lemma remove_inv:
  assumes inv: "lock_inv m g now" and l: "m res = Some l"
  shows "lock_inv (m(res := None)) (end_grants now (\<lambda>j. j = li_ID l) g) now"
proof (rule lock_inv_end [OF inv])
  fix r k assume "(m(res := None)) r = Some k"
  then have "r \<noteq> res" and k: "m r = Some k" by (auto split: if_splits)
  then show "m r = Some k \<and> li_ID k \<noteq> li_ID l" using entry_by_id [OF inv l k] by metis
next
  fix r k assume "m r = Some k" and "(m(res := None)) r = None"
  then have "k = l" using l by (auto split: if_splits)
  then show "li_ID k = li_ID l \<or> li_ExpiresAt k \<le> now" by simp
qed

lemma acquire_inv:
  assumes inv: "lock_inv (lm_locks lm) g t" and "t \<le> atm" and "now \<le> atm" and "i \<noteq> nil_uuid" and "g i = None"
    and acq: "AcquireLock i now res owner ttl lm = (Inr i, lm')" and l: "lm_locks lm' res = Some l"
  shows "lock_inv (lm_locks lm') (g(i \<mapsto> (res, atm, li_ExpiresAt l))) atm"
proof -
  have m': "lm_locks lm' = (lm_locks lm)(res \<mapsto> l)" and "res \<noteq> []" and "li_ID l = i" and "li_IsActive l"
    and old: "\<And>l0. lm_locks lm res = Some l0 \<Longrightarrow> \<not> li_IsActive l0 \<or> li_ExpiresAt l0 \<le> now"
    using acq l by (auto simp: AcquireLock_def Let_def split: if_splits option.splits)
  note inv' = lock_inv_later [OF inv \<open>t \<le> atm\<close>]
  have ended: "e \<le> atm" if gj: "g j = Some (res, s, e)" for j s e
  proof (rule ccontr)
    assume "\<not> e \<le> atm"
    then obtain l0 where l0: "lm_locks lm res = Some l0" "li_ID l0 = j"
      using lock_invD(3) [OF inv' gj] by auto
    have "li_ExpiresAt l0 = e" "\<not> li_IsActive l0 \<longrightarrow> e \<le> atm"
      using lock_invD(1) [OF inv' l0(1)] gj l0(2) by (auto simp: entry_ok_def)
    then show False using old [OF l0(1)] \<open>\<not> e \<le> atm\<close> \<open>now \<le> atm\<close> by auto
  qed
  show ?thesis
  proof (rule lock_invI)
    fix r k assume k: "lm_locks lm' r = Some k"
    show "entry_ok (g(i \<mapsto> (res, atm, li_ExpiresAt l))) atm r k"
    proof (cases "r = res")
      case True
      then show ?thesis using k m' ended \<open>res \<noteq> []\<close> \<open>li_ID l = i\<close> \<open>li_IsActive l\<close> \<open>i \<noteq> nil_uuid\<close>
        by (auto simp: entry_ok_def)
    next
      case False
      then have e: "entry_ok g atm r k" using k m' lock_invD(1) [OF inv'] by simp
      then have "li_ID k \<noteq> i" using \<open>g i = None\<close> by (auto simp: entry_ok_def)
      then show ?thesis using e False by (auto simp: entry_ok_def)
    qed
  next
    fix j r s e assume "(g(i \<mapsto> (res, atm, li_ExpiresAt l))) j = Some (r, s, e)"
    then show "s \<le> atm" using lock_invD(2) [OF inv'] by (auto split: if_splits)
  next
    fix j r s e assume gj: "(g(i \<mapsto> (res, atm, li_ExpiresAt l))) j = Some (r, s, e)" and "atm < e"
    show "\<exists>l'. lm_locks lm' r = Some l' \<and> li_ID l' = j"
    proof (cases "j = i")
      case True
      then show ?thesis using gj m' \<open>li_ID l = i\<close> by auto
    next
      case False
      then have gj': "g j = Some (r, s, e)" using gj by simp
      then have "r \<noteq> res" using ended \<open>atm < e\<close> by fastforce
      then show ?thesis using lock_invD(3) [OF inv' gj' \<open>atm < e\<close>] m' by simp
    qed
  next
    fix j k r s e s' e'
    assume j: "(g(i \<mapsto> (res, atm, li_ExpiresAt l))) j = Some (r, s, e)"
      and k: "(g(i \<mapsto> (res, atm, li_ExpiresAt l))) k = Some (r, s', e')" and "j \<noteq> k"
    then show "e \<le> s' \<or> e' \<le> s"
      using lock_invD(4) [OF inv', of j r s e k s' e'] ended by (auto split: if_splits)
  qed
qed

lemma extend_inv:
  assumes inv: "lock_inv m g t" and l: "m res = Some l" and "0 < d" and "li_IsActive l"
  shows "lock_inv (m(res \<mapsto> l\<lparr>li_ExpiresAt := li_ExpiresAt l + d, li_TTL := ttl\<rparr>)) (extend_grant (li_ID l) d g) t"
proof -
  obtain s where ok: "res \<noteq> []" "li_ID l \<noteq> nil_uuid" and gl: "g (li_ID l) = Some (res, s, li_ExpiresAt l)"
    and latest: "\<And>i s' e'. g i = Some (res, s', e') \<Longrightarrow> i \<noteq> li_ID l \<Longrightarrow> e' \<le> s"
    using lock_invD(1) [OF inv l] by (auto simp: entry_ok_def)
  have g': "extend_grant (li_ID l) d g = g(li_ID l \<mapsto> (res, s, li_ExpiresAt l + d))"
    using gl by (simp add: extend_grant_def)
  show ?thesis unfolding g'
  proof (rule lock_invI)
    fix r k assume k: "(m(res \<mapsto> l\<lparr>li_ExpiresAt := li_ExpiresAt l + d, li_TTL := ttl\<rparr>)) r = Some k"
    show "entry_ok (g(li_ID l \<mapsto> (res, s, li_ExpiresAt l + d))) t r k"
    proof (cases "r = res")
      case True
      then show ?thesis using k ok latest \<open>li_IsActive l\<close> by (auto simp: entry_ok_def)
    next
      case False
      then have mk: "m r = Some k" using k by simp
      then have "li_ID k \<noteq> li_ID l" using entry_by_id [OF inv l mk] False by auto
      then show ?thesis using lock_invD(1) [OF inv mk] False by (auto simp: entry_ok_def)
    qed
  next
    fix j r s' e assume "(g(li_ID l \<mapsto> (res, s, li_ExpiresAt l + d))) j = Some (r, s', e)"
    then show "s' \<le> t" using lock_invD(2) [OF inv] gl by (auto split: if_splits)
  next
    fix j r s' e assume gj: "(g(li_ID l \<mapsto> (res, s, li_ExpiresAt l + d))) j = Some (r, s', e)" and "t < e"
    show "\<exists>k. (m(res \<mapsto> l\<lparr>li_ExpiresAt := li_ExpiresAt l + d, li_TTL := ttl\<rparr>)) r = Some k \<and> li_ID k = j"
    proof (cases "j = li_ID l")
      case True
      then show ?thesis using gj by auto
    next
      case False
      then have "g j = Some (r, s', e)" using gj by simp
      from lock_invD(3) [OF inv this \<open>t < e\<close>] show ?thesis using l False by auto
    qed
  next
    fix j k r a e a' e'
    assume j: "(g(li_ID l \<mapsto> (res, s, li_ExpiresAt l + d))) j = Some (r, a, e)"
      and k: "(g(li_ID l \<mapsto> (res, s, li_ExpiresAt l + d))) k = Some (r, a', e')" and "j \<noteq> k"
    then show "e \<le> a' \<or> e' \<le> a"
      using lock_invD(4) [OF inv, of j r a e k a' e'] latest by (auto split: if_splits)
  qed
qed

lemma deactivate_inv:
  assumes inv: "lock_inv m g t" and l: "m res = Some l" and "li_ExpiresAt l \<le> t"
  shows "lock_inv (m(res \<mapsto> l\<lparr>li_IsActive := False\<rparr>)) g t"
proof (rule lock_invI)
  fix r k assume "(m(res \<mapsto> l\<lparr>li_IsActive := False\<rparr>)) r = Some k"
  then show "entry_ok g t r k"
    using lock_invD(1) [OF inv, of r] l assms(3) by (auto simp: entry_ok_def split: if_splits)
next
  fix i r s e assume "g i = Some (r, s, e)" and "t < e"
  from lock_invD(3) [OF inv this] show "\<exists>k. (m(res \<mapsto> l\<lparr>li_IsActive := False\<rparr>)) r = Some k \<and> li_ID k = i"
    using l by auto
qed (use lock_invD [OF inv] in blast)+

lemma lock_history_inv: "lock_history lm g t \<Longrightarrow> lock_inv (lm_locks lm) g t"
proof (induction rule: lock_history.induct)
  case (lk_new t)
  then show ?case by (simp add: lock_inv_def NewLockManager_def)
next
  case (lk_acquire lm g t atm now i res owner ttl lm' l)
  then show ?case by (rule_tac acquire_inv)
next
  case (lk_refused lm g t atm i now res owner ttl e lm')
  then have "lm' = lm" by (auto simp: AcquireLock_def Let_def split: if_splits option.splits)
  then show ?case using lk_refused lock_inv_later by blast
next
  case (lk_renew lm g t now ks i ttl e lm')
  note inv = lock_inv_later [OF lk_renew.IH lk_renew.hyps(2)]
  show ?case
  proof (cases "lm' = lm \<and> e \<noteq> None")
    case False
    then obtain res l where f: "find_lock ks i (lm_locks lm) = Some res" "lm_locks lm res = Some l"
      and act: "li_IsActive l" and ttl: "0 < ttl"
      and new: "if now > li_ExpiresAt l
         then e = Some (LockExpired i) \<and> lm_locks lm' = (lm_locks lm)(res \<mapsto> l\<lparr>li_IsActive := False\<rparr>)
         else e = None \<and> lm_locks lm' = (lm_locks lm)(res \<mapsto>
           l\<lparr>li_ExpiresAt := li_ExpiresAt l + ttl, li_TTL := li_TTL l + ttl\<rparr>)"
      using lk_renew.hyps(4) by (auto simp: RenewLock_def split: if_splits option.splits)
    have "li_ID l = i" using find_lock_Some [OF f(1)] f(2) by auto
    then show ?thesis
      using new extend_inv [OF inv f(2) ttl act, of "li_TTL l + ttl"] deactivate_inv [OF inv f(2)]
      by (cases "now > li_ExpiresAt l") (simp_all del: fun_upd_apply)
  qed (use inv in auto)
next
  case (lk_release lm g t now ks i e lm')
  note inv = lock_inv_later [OF lk_release.IH lk_release.hyps(2)]
  show ?case
  proof (cases e)
    case None
    then obtain res l where f: "find_lock ks i (lm_locks lm) = Some res" "lm_locks lm res = Some l"
      and m': "lm_locks lm' = (lm_locks lm)(res := None)" and id: "li_ID l = i"
      using lk_release.hyps(4) find_lock_Some [of ks i "lm_locks lm"]
      by (auto simp: ReleaseLock_def split: if_splits option.splits)
    show ?thesis using remove_inv [OF inv f(2)] None m' id by (simp del: fun_upd_apply)
  next
    case (Some er)
    then show ?thesis using lk_release.hyps(4) inv
      by (auto simp: ReleaseLock_def split: if_splits option.splits)
  qed
next
  case (lk_force lm g t now res e lm')
  note inv = lock_inv_later [OF lk_force.IH lk_force.hyps(2)]
  show ?case
  proof (cases "lm_locks lm res")
    case None
    then have "lm' = lm" using lk_force.hyps(3) by (simp add: ForceReleaseLock_def)
    then show ?thesis using inv None by (simp add: end_none)
  next
    case (Some l)
    then have m': "lm_locks lm' = (lm_locks lm)(res := None)"
      using lk_force.hyps(3) by (auto simp: ForceReleaseLock_def)
    have "(\<lambda>j. \<exists>l. lm_locks lm res = Some l \<and> li_ID l = j) = (\<lambda>j. j = li_ID l)" using Some by auto
    then show ?thesis using remove_inv [OF inv Some] m' by (simp del: fun_upd_apply)
  qed
next
  case (lk_cleanup lm g t now ks)
  note inv = lock_inv_later [OF lk_cleanup.IH lk_cleanup.hyps(2)]
  have "lock_inv (lm_locks (cleanupExpiredLocks ks now lm)) (end_grants now (\<lambda>j. False) g) now"
    by (rule lock_inv_end [OF inv])
      (auto simp: cleanupExpiredLocks_def delete_expired_map expired_at_def split: if_splits)
  then show ?case by (simp add: end_none)
next
  case (lk_shutdown lm g t now lm')
  note inv = lock_inv_later [OF lk_shutdown.IH lk_shutdown.hyps(2)]
  show ?case
    by (rule lock_inv_end [OF inv]) (use lk_shutdown.hyps(3) in \<open>auto simp: Shutdown_def split: if_splits\<close>)
qed

section \<open>Properties\<close>

text \<open>
  C16: mutual exclusion. In every history of the lock manager, with acquisitions that wait for the
  mutex, renewals, releases, forced releases, cleanups and shutdowns in any order, at no time do two
  grants of the same resource run: their intervals from the grant to the end never overlap.
\<close>

theorem locks_exclusive:
  assumes "lock_history lm g t" and "g i = Some (res, s, e)" and "g j = Some (res, s', e')"
    and "s \<le> T" and "T < e" and "s' \<le> T" and "T < e'"
  shows "i = j"
  using lock_invD(4) [OF lock_history_inv [OF assms(1)] assms(2,3)] assms(4-7) by force

definition two_grants :: "lock_manager \<times> grants" where
  "two_grants = (snd (AcquireLock 2 15 ''BTC'' ''b'' 10 (snd (AcquireLock 1 0 ''BTC'' ''a'' 10 NewLockManager))),
     [1 \<mapsto> (''BTC'', 3, 10), 2 \<mapsto> (''BTC'', 15, 25)])"

lemma grant_history:
  assumes "lock_history lm g t" and "t \<le> atm" and "now \<le> atm" and "i \<noteq> nil_uuid" and "g i = None"
    and "fst (AcquireLock i now res owner ttl lm) = Inr i"
    and "lm_locks (snd (AcquireLock i now res owner ttl lm)) res \<noteq> None"
  shows "lock_history (snd (AcquireLock i now res owner ttl lm))
    (g(i \<mapsto> (res, atm, li_ExpiresAt (the (lm_locks (snd (AcquireLock i now res owner ttl lm)) res))))) atm"
  by (rule lk_acquire [OF assms(1-5)]) (use assms(6,7) in \<open>auto simp: prod_eq_iff\<close>)

lemma two_grants_history: "lock_history (fst two_grants) (snd two_grants) 15"
proof -
  have 1: "lock_history (snd (AcquireLock 1 0 ''BTC'' ''a'' 10 NewLockManager)) [1 \<mapsto> (''BTC'', 3, 10)] 3"
    using grant_history [OF lk_new [of 0], of 3 0 1 "''BTC''" "''a''" 10]
    by (simp add: AcquireLock_def NewLockManager_def)
  show ?thesis
    using grant_history [OF 1, of 15 15 2 "''BTC''" "''b''" 10]
    by (simp add: two_grants_def AcquireLock_def NewLockManager_def)
qed

lemma locks_exclusive_witness:
  "\<exists>!i. snd two_grants i = Some (''BTC'', 15, 25)"
proof
  show g: "snd two_grants 2 = Some (''BTC'', 15, 25)" by (simp add: two_grants_def)
  show "i = 2" if "snd two_grants i = Some (''BTC'', 15, 25)" for i
    by (rule locks_exclusive [OF two_grants_history that g, of 20]) simp_all
qed

text \<open>
  what the queries tell. At any time from the last operation on, \<open>IsResourceLocked\<close> holds exactly
  when a grant of the resource runs; at the instant of expiry of an active lock, and only then,
  \<open>GetResourceLock\<close> still returns a lock that \<open>IsResourceLocked\<close> denies.
\<close>

theorem queries_agree:
  assumes "lock_history lm g t" and "t \<le> now"
  shows "(IsResourceLocked now res lm \<longleftrightarrow> (\<exists>i s e. g i = Some (res, s, e) \<and> s \<le> now \<and> now < e)) \<and>
    ((\<exists>l. GetResourceLock now res lm = Inr l) \<longleftrightarrow> IsResourceLocked now res lm \<or>
       (\<exists>l. lm_locks lm res = Some l \<and> li_IsActive l \<and> li_ExpiresAt l = now))"
proof
  note inv = lock_inv_later [OF lock_history_inv [OF assms(1)] assms(2)]
  show "IsResourceLocked now res lm \<longleftrightarrow> (\<exists>i s e. g i = Some (res, s, e) \<and> s \<le> now \<and> now < e)"
  proof
    assume "IsResourceLocked now res lm"
    then obtain l where l: "lm_locks lm res = Some l" "now < li_ExpiresAt l"
      by (auto simp: IsResourceLocked_def valid_at_def split: option.splits)
    then show "\<exists>i s e. g i = Some (res, s, e) \<and> s \<le> now \<and> now < e"
      using lock_invD(1) [OF inv l(1)] lock_invD(2) [OF inv] unfolding entry_ok_def by blast
  next
    assume "\<exists>i s e. g i = Some (res, s, e) \<and> s \<le> now \<and> now < e"
    then obtain i s e where g: "g i = Some (res, s, e)" "now < e" by blast
    obtain l where l: "lm_locks lm res = Some l" "li_ID l = i" using lock_invD(3) [OF inv g] by blast
    then show "IsResourceLocked now res lm"
      using lock_invD(1) [OF inv l(1)] g by (auto simp: entry_ok_def IsResourceLocked_def valid_at_def)
  qed
  show "(\<exists>l. GetResourceLock now res lm = Inr l) \<longleftrightarrow> IsResourceLocked now res lm \<or>
       (\<exists>l. lm_locks lm res = Some l \<and> li_IsActive l \<and> li_ExpiresAt l = now)"
    by (auto simp: GetResourceLock_def IsResourceLocked_def valid_at_def split: option.splits)
qed

lemma queries_agree_witness:
  "IsResourceLocked 20 ''BTC'' (fst two_grants) \<longleftrightarrow>
     (\<exists>i s e. snd two_grants i = Some (''BTC'', s, e) \<and> s \<le> 20 \<and> 20 < e)"
  using queries_agree [OF two_grants_history, of 20 "''BTC''"] by simp

text \<open>
  progress. A well-formed acquisition is refused only while the resource is held: its refusal means
  the clock it read is before the expiry of an active lock of the resource; otherwise the new lock is
  in place for its whole time to live, and only that resource's entry changes.
\<close>

theorem acquire_outcome:
  assumes "res \<noteq> []" and "owner \<noteq> []"
  shows "case AcquireLock i now res owner ttl lm of
      (Inl er, lm') \<Rightarrow> lm' = lm \<and> IsResourceLocked now res lm
    | (Inr i', lm') \<Rightarrow> i' = i \<and> \<not> IsResourceLocked now res lm \<and>
        (\<forall>r. r \<noteq> res \<longrightarrow> lm_locks lm' r = lm_locks lm r) \<and>
        (\<forall>d. 0 \<le> d \<and> d < (if ttl \<le> 0 then lm_defaultTTL lm else ttl) \<longrightarrow> IsResourceLocked (now + d) res lm')"
  using assms by (auto simp: AcquireLock_def IsResourceLocked_def valid_at_def Let_def split: option.splits if_splits)

lemma acquire_outcome_witness:
  "case AcquireLock 1 0 ''BTC'' ''a'' 0 NewLockManager of
      (Inl er, lm') \<Rightarrow> False
    | (Inr i', lm') \<Rightarrow> i' = 1 \<and> IsResourceLocked (hour - 1) ''BTC'' lm'"
  using acquire_outcome [where res = "''BTC''" and owner = "''a''" and i = 1 and now = 0 and ttl = 0 and lm = NewLockManager]
  by (auto simp: NewLockManager_def IsResourceLocked_def split: prod.splits sum.splits)

end
