(* ===== verification/PriceLevel.thy ===== *)
theory PriceLevel
  imports OrderModel
begin

text \<open>
  Price levels of the order book, \<open>internal/trading/orderbook/orderbook.go\<close>: the orders of one price
  in a chain of ring buffers of 256 slots. A slot holds a pointer to an order or nil; the pointers
  are into a heap of orders (\<open>order_heap\<close>) that the level's methods only read. The level's mutex
  and its contention counter, which nothing increments, are left out.
\<close>

section \<open>Data\<close>

type_synonym order_heap = "nat \<Rightarrow> order"

abbreviation (input) maxOrdersPerLevel :: nat where
  "maxOrdersPerLevel \<equiv> 256"

record order_chunk =
  ck_orders :: "nat option list"
  ck_head :: nat
  ck_tail :: nat

text \<open>A chain of chunks is the list of them; the level's \<open>firstChunk\<close> may be nil.\<close>

record price_level =
  pl_Price :: string
  pl_chunks :: "order_chunk list"

definition new_chunk :: order_chunk where
  "new_chunk = \<lparr>ck_orders = replicate maxOrdersPerLevel None, ck_head = 0, ck_tail = 0\<rparr>"

definition new_level :: price_level where
  "new_level = \<lparr>pl_Price = [], pl_chunks = []\<rparr>"

section \<open>Operations\<close>

definition chunk_Len :: "order_chunk \<Rightarrow> nat" where
  "chunk_Len c =
     (if ck_tail c \<ge> ck_head c then ck_tail c - ck_head c
      else maxOrdersPerLevel - ck_head c + ck_tail c)"

definition pl_Len :: "price_level \<Rightarrow> nat" where
  "pl_Len pl = sum_list (map chunk_Len (pl_chunks pl))"

text \<open>The difference of the indices is signed; with the tail behind the head it is negative.\<close>

definition chunk_has_room :: "order_chunk \<Rightarrow> bool" where
  "chunk_has_room c \<longleftrightarrow> int (ck_tail c) - int (ck_head c) < int maxOrdersPerLevel \<and>
     (ck_tail c \<noteq> ck_head c \<or> ck_orders c ! ck_tail c = None)"

definition chunk_put :: "nat \<Rightarrow> order_chunk \<Rightarrow> order_chunk" where
  "chunk_put p c = c\<lparr>ck_orders := (ck_orders c)[ck_tail c := Some p],
     ck_tail := (ck_tail c + 1) mod maxOrdersPerLevel\<rparr>"

text \<open>The loop over the chain: the first chunk with room takes the order, else a new last chunk.\<close>

fun chain_add :: "nat \<Rightarrow> order_chunk list \<Rightarrow> order_chunk list" where
  "chain_add p [] = [new_chunk\<lparr>ck_orders := (ck_orders new_chunk)[0 := Some p], ck_tail := 1\<rparr>]"
| "chain_add p (c # cs) = (if chunk_has_room c then chunk_put p c # cs else c # chain_add p cs)"

definition pl_AddOrder :: "nat \<Rightarrow> price_level \<Rightarrow> price_level" where
  "pl_AddOrder p pl =
     pl\<lparr>pl_chunks := chain_add p (if pl_chunks pl = [] then [new_chunk] else pl_chunks pl)\<rparr>"

text \<open>
  \<open>RemoveOrder\<close> compacts a chunk in place: \<open>i\<close> runs over the used slots, \<open>newTail\<close> is where the next
  kept entry goes.
\<close>

fun compact_from ::
    "order_heap \<Rightarrow> uuid \<Rightarrow> nat \<Rightarrow> nat list \<Rightarrow> nat \<Rightarrow> nat option list \<Rightarrow> bool \<times> nat \<times> nat option list" where
  "compact_from h orderID head [] newTail os = (False, newTail, os)"
| "compact_from h orderID head (i # is) newTail os =
     (let idx = (head + i) mod maxOrdersPerLevel
      in case os ! idx of
           Some p \<Rightarrow>
             (if o_ID (h p) = orderID
              then (case compact_from h orderID head is newTail (os[idx := None]) of (r, t, os') \<Rightarrow> (True, t, os'))
              else
                let os1 = os[newTail := os ! idx];
                    os2 = (if newTail \<noteq> idx then os1[idx := None] else os1)
                in compact_from h orderID head is ((newTail + 1) mod maxOrdersPerLevel) os2)
         | None \<Rightarrow>
             (let os1 = os[newTail := os ! idx];
                  os2 = (if newTail \<noteq> idx then os1[idx := None] else os1)
              in compact_from h orderID head is ((newTail + 1) mod maxOrdersPerLevel) os2))"

definition chunk_remove :: "order_heap \<Rightarrow> uuid \<Rightarrow> order_chunk \<Rightarrow> bool \<times> order_chunk" where
  "chunk_remove h orderID c =
     (case compact_from h orderID (ck_head c) [0..<chunk_Len c] (ck_head c) (ck_orders c) of
        (r, t, os) \<Rightarrow> (r, c\<lparr>ck_orders := os, ck_tail := t\<rparr>))"

text \<open>
  The loop over the chain. \<open>linked\<close> says whether the previous chunk exists and is still in the chain:
  an empty chunk is unlinked through the previous chunk, even when that one has just been unlinked
  itself, and then stays.
\<close>

fun chain_remove :: "order_heap \<Rightarrow> uuid \<Rightarrow> bool \<Rightarrow> order_chunk list \<Rightarrow> bool \<times> order_chunk list" where
  "chain_remove h orderID linked [] = (False, [])"
| "chain_remove h orderID linked (c # cs) =
     (case chunk_remove h orderID c of
        (r, c') \<Rightarrow>
          (if chunk_Len c' = 0 \<and> linked
           then (case chain_remove h orderID False cs of (r', cs') \<Rightarrow> (r \<or> r', cs'))
           else (case chain_remove h orderID True cs of (r', cs') \<Rightarrow> (r \<or> r', c' # cs'))))"

definition pl_RemoveOrder :: "order_heap \<Rightarrow> uuid \<Rightarrow> price_level \<Rightarrow> bool \<times> price_level" where
  "pl_RemoveOrder h orderID pl =
     (case chain_remove h orderID False (pl_chunks pl) of (r, cs) \<Rightarrow> (r, pl\<lparr>pl_chunks := cs\<rparr>))"

definition chunk_orders :: "order_chunk \<Rightarrow> nat list" where
  "chunk_orders c =
     List.map_filter (\<lambda>i. ck_orders c ! ((ck_head c + i) mod maxOrdersPerLevel)) [0..<chunk_Len c]"

definition pl_Orders :: "price_level \<Rightarrow> nat list" where
  "pl_Orders pl = concat (map chunk_orders (pl_chunks pl))"

section \<open>The shape of a level\<close>

text \<open>
  The head of a chunk never moves, so a chunk is a prefix of used slots. When the last slot is taken the
  tail wraps to the head: such a chunk counts as empty for every loop, though it holds 256 orders.
\<close>

definition prefix_chunk :: "nat list \<Rightarrow> order_chunk" where
  "prefix_chunk ps = \<lparr>ck_orders = map Some ps @ replicate (maxOrdersPerLevel - length ps) None, ck_head = 0,
     ck_tail = length ps mod maxOrdersPerLevel\<rparr>"

text \<open>\<open>shape xss ps cs\<close>: the chain \<open>cs\<close> is some wrapped chunks with the orders \<open>xss\<close>, then one with \<open>ps\<close>.\<close>

definition full_chunk :: "order_chunk \<Rightarrow> bool" where
  "full_chunk c \<longleftrightarrow> (\<exists>ps. length ps = maxOrdersPerLevel \<and> c = prefix_chunk ps)"

definition level_ok :: "price_level \<Rightarrow> nat list \<Rightarrow> bool" where
  "level_ok pl ps \<longleftrightarrow> length ps < maxOrdersPerLevel \<and>
     (\<exists>fs. (\<forall>f \<in> set fs. full_chunk f) \<and> (pl_chunks pl = fs @ [prefix_chunk ps] \<or> (ps = [] \<and> pl_chunks pl = fs)))"

lemma prefix_chunk_simps [simp]:
  "ck_head (prefix_chunk ps) = 0"
  "ck_tail (prefix_chunk ps) = length ps mod maxOrdersPerLevel"
  "ck_orders (prefix_chunk ps) = map Some ps @ replicate (maxOrdersPerLevel - length ps) None"
  by (simp_all add: prefix_chunk_def)

lemma chunk_Len_prefix: "length ps < maxOrdersPerLevel \<Longrightarrow> chunk_Len (prefix_chunk ps) = length ps"
  by (simp add: chunk_Len_def)

lemma chunk_Len_full [simp]: "full_chunk c \<Longrightarrow> chunk_Len c = 0"
  by (auto simp: full_chunk_def chunk_Len_def)

lemma chunk_orders_full [simp]: "full_chunk c \<Longrightarrow> chunk_orders c = []"
  by (simp add: chunk_orders_def map_filter_def)

lemma chunk_orders_prefix: "length ps < maxOrdersPerLevel \<Longrightarrow> chunk_orders (prefix_chunk ps) = ps"
proof -
  assume l: "length ps < maxOrdersPerLevel"
  have "chunk_orders (prefix_chunk ps) = List.map_filter (\<lambda>i. Some (ps ! i)) [0..<length ps]"
    using l by (auto simp: chunk_orders_def chunk_Len_prefix map_filter_def nth_append intro!: map_cong filter_cong)
  also have "\<dots> = map ((!) ps) [0..<length ps]" by (simp add: map_filter_def comp_def)
  finally show ?thesis by (simp add: map_nth)
qed

lemma new_chunk_prefix: "new_chunk = prefix_chunk []"
  by (simp add: new_chunk_def prefix_chunk_def)

lemma room_full: "full_chunk c \<Longrightarrow> \<not> chunk_has_room c"
proof -
  assume "full_chunk c"
  then obtain ps where "length ps = maxOrdersPerLevel" "c = prefix_chunk ps" by (auto simp: full_chunk_def)
  then show ?thesis by (cases ps) (simp_all add: chunk_has_room_def)
qed

lemma room_prefix: "length ps < maxOrdersPerLevel \<Longrightarrow> chunk_has_room (prefix_chunk ps)"
  by (simp add: chunk_has_room_def nth_append)

lemma put_prefix: "length ps < maxOrdersPerLevel \<Longrightarrow> chunk_put p (prefix_chunk ps) = prefix_chunk (ps @ [p])"
proof -
  assume l: "length ps < maxOrdersPerLevel"
  then obtain k where k: "maxOrdersPerLevel - length ps = Suc k" by (metis Suc_diff_Suc)
  then have "maxOrdersPerLevel - length (ps @ [p]) = k" by simp
  then show ?thesis
    using l k unfolding chunk_put_def prefix_chunk_def by (simp add: list_update_append del: replicate.simps) (simp add: mod_Suc)
qed

lemma fresh_chunk: "new_chunk\<lparr>ck_orders := (ck_orders new_chunk)[0 := Some p], ck_tail := 1\<rparr> = prefix_chunk [p]"
proof -
  have "new_chunk\<lparr>ck_orders := (ck_orders new_chunk)[0 := Some p], ck_tail := 1\<rparr> = chunk_put p new_chunk"
    by (simp add: chunk_put_def new_chunk_def)
  then show ?thesis using put_prefix [of "[]" p] by (simp add: new_chunk_prefix del: prefix_chunk_simps)
qed

lemma chain_add_full: "\<forall>f \<in> set fs. full_chunk f \<Longrightarrow> chain_add p fs = fs @ [prefix_chunk [p]]"
  by (induction fs) (simp_all only: chain_add.simps fresh_chunk append.simps, simp add: room_full)

lemma chain_add_last:
  "\<forall>f \<in> set fs. full_chunk f \<Longrightarrow> length ps < maxOrdersPerLevel \<Longrightarrow>
   chain_add p (fs @ [prefix_chunk ps]) = fs @ [prefix_chunk (ps @ [p])]"
  by (induction fs) (simp_all add: room_full room_prefix put_prefix)

lemma level_ok_AddOrder:
  assumes "level_ok pl ps"
  shows "level_ok (pl_AddOrder p pl) (if length ps = 255 then [] else ps @ [p])"
proof -
  obtain fs where fs: "\<forall>f \<in> set fs. full_chunk f" and len: "length ps < maxOrdersPerLevel"
    and cs: "pl_chunks pl = fs @ [prefix_chunk ps] \<or> (ps = [] \<and> pl_chunks pl = fs)"
    using assms by (auto simp: level_ok_def)
  have add: "pl_chunks (pl_AddOrder p pl) = fs @ [prefix_chunk (ps @ [p])]"
    using cs
  proof
    assume "pl_chunks pl = fs @ [prefix_chunk ps]"
    then show ?thesis using chain_add_last [OF fs len] by (simp add: pl_AddOrder_def)
  next
    assume e: "ps = [] \<and> pl_chunks pl = fs"
    show ?thesis
    proof (cases fs)
      case Nil
      then show ?thesis using e room_prefix [of "[]"] put_prefix [of "[]" p]
        by (simp add: pl_AddOrder_def new_chunk_prefix)
    next
      case Cons
      then show ?thesis using e chain_add_full [OF fs, of p] by (simp add: pl_AddOrder_def)
    qed
  qed
  show ?thesis
  proof (cases "length ps = 255")
    case True
    then have "full_chunk (prefix_chunk (ps @ [p]))"
      unfolding full_chunk_def by (intro exI [of _ "ps @ [p]"]) simp
    then show ?thesis using add fs True unfolding level_ok_def
      by (intro conjI exI [of _ "fs @ [prefix_chunk (ps @ [p])]"]) auto
  next
    case False
    then show ?thesis using add fs len by (auto simp: level_ok_def)
  qed
qed

lemma level_ok_new: "level_ok new_level []"
  by (simp add: level_ok_def new_level_def)

text \<open>What the loops over a level see is the list of the last chunk's orders.\<close>

lemma concat_full: "\<forall>f \<in> set fs. full_chunk f \<Longrightarrow> concat (map chunk_orders fs) = []"
  by (induction fs) auto

lemma level_ok_Orders: "level_ok pl ps \<Longrightarrow> pl_Orders pl = ps"
  by (auto simp: level_ok_def pl_Orders_def chunk_orders_prefix concat_full)

lemma sum_full: "\<forall>f \<in> set fs. full_chunk f \<Longrightarrow> sum_list (map chunk_Len fs) = 0"
  by (induction fs) auto

lemma level_ok_Len: "level_ok pl ps \<Longrightarrow> pl_Len pl = length ps"
  by (auto simp: level_ok_def pl_Len_def chunk_Len_prefix sum_full)

section \<open>Removal\<close>

text \<open>Compaction: the slots before \<open>newTail\<close> hold the kept entries, the rest up to the tail is nil.\<close>

lemma compact_hit: "os ! n = Some p \<Longrightarrow> n < maxOrdersPerLevel \<Longrightarrow> o_ID (h p) = d \<Longrightarrow>
    compact_from h d 0 (n # is) t os =
      (True, snd (compact_from h d 0 is t (os[n := None])))"
  by (simp add: Let_def split: prod.split)

lemma compact_keep: "os ! n = Some p \<Longrightarrow> n < maxOrdersPerLevel \<Longrightarrow> o_ID (h p) \<noteq> d \<Longrightarrow>
    compact_from h d 0 (n # is) t os =
      compact_from h d 0 is ((t + 1) mod maxOrdersPerLevel)
        (if t \<noteq> n then (os[t := Some p])[n := None] else os[t := Some p])"
  by (simp add: Let_def)

lemma compact_prefix:
  "length qs \<le> n \<Longrightarrow> n + length ps < maxOrdersPerLevel \<Longrightarrow>
   ks = qs @ filter (\<lambda>p. o_ID (h p) \<noteq> d) ps \<Longrightarrow>
   compact_from h d 0 [n..<n + length ps] (length qs)
     (map Some qs @ replicate (n - length qs) None @ map Some ps @ rest) =
   (\<exists>p \<in> set ps. o_ID (h p) = d, length ks,
    map Some ks @ replicate (n + length ps - length ks) None @ rest)"
proof (induction ps arbitrary: qs n)
  case (Cons p ps)
  let ?os = "map Some qs @ replicate (n - length qs) None @ map Some (p # ps) @ rest"
  have up: "[n..<n + length (p # ps)] = n # [Suc n..<Suc n + length ps]"
    by (simp add: upt_rec)
  have at: "?os ! n = Some p" using Cons.prems(1) by (simp add: nth_append)
  have n: "n < maxOrdersPerLevel" using Cons.prems(2) by simp
  show ?case
  proof (cases "o_ID (h p) = d")
    case True
    have "?os[n := None] = map Some qs @ replicate (Suc n - length qs) None @ map Some ps @ rest"
      using Cons.prems(1) by (simp add: list_update_append Suc_diff_le replicate_append_same [symmetric])
    then have "compact_from h d 0 [n..<n + length (p # ps)] (length qs) ?os =
        (True, snd (compact_from h d 0 [Suc n..<Suc n + length ps] (length qs)
          (map Some qs @ replicate (Suc n - length qs) None @ map Some ps @ rest)))"
      unfolding up using compact_hit [where h = h and p = p and d = d and os = ?os, OF at n True] by simp
    then show ?thesis
      using Cons.IH [of qs "Suc n"] Cons.prems True by simp
  next
    case False
    have "(if length qs \<noteq> n then (?os[length qs := Some p])[n := None] else ?os[length qs := Some p]) =
        map Some (qs @ [p]) @ replicate (Suc n - length (qs @ [p])) None @ map Some ps @ rest"
    proof (cases "length qs = n")
      case True
      then show ?thesis by (simp add: list_update_append)
    next
      case False
      then obtain k where k: "n = length qs + Suc k" using Cons.prems(1) by (metis add_Suc_right less_imp_Suc_add le_neq_implies_less)
      let ?R = "map Some ps @ rest" and ?A = "map Some qs @ Some p # replicate k None"
      have "?os = map Some qs @ None # replicate k None @ Some p # ?R" by (simp add: k)
      then have 1: "?os[length qs := Some p] = ?A @ Some p # ?R"
        using list_update_length [of "map Some qs" None "replicate k None @ Some p # ?R" "Some p"] by simp
      have 2: "(?A @ Some p # ?R)[n := None] = ?A @ None # ?R"
        using list_update_length [of ?A "Some p" ?R None] by (simp add: k)
      have 3: "?A @ None # ?R = map Some (qs @ [p]) @ replicate (Suc n - length (qs @ [p])) None @ ?R"
        by (simp add: k replicate_app_Cons_same)
      show ?thesis using False 1 2 3 by simp
    qed
    moreover have "(length qs + 1) mod maxOrdersPerLevel = length (qs @ [p])" using Cons.prems by simp
    ultimately have "compact_from h d 0 [n..<n + length (p # ps)] (length qs) ?os =
        compact_from h d 0 [Suc n..<Suc n + length ps] (length (qs @ [p]))
          (map Some (qs @ [p]) @ replicate (Suc n - length (qs @ [p])) None @ map Some ps @ rest)"
      unfolding up using compact_keep [where h = h and p = p and d = d and os = ?os, OF at n False] by simp
    then show ?thesis
      using Cons.IH [of "qs @ [p]" "Suc n"] Cons.prems False by simp
  qed
qed simp

lemma chunk_remove_prefix: "length ps < maxOrdersPerLevel \<Longrightarrow> chunk_remove h d (prefix_chunk ps) =
    (\<exists>p \<in> set ps. o_ID (h p) = d, prefix_chunk (filter (\<lambda>p. o_ID (h p) \<noteq> d) ps))"
proof -
  let ?ks = "filter (\<lambda>p. o_ID (h p) \<noteq> d) ps"
  assume l: "length ps < maxOrdersPerLevel"
  have k: "length ?ks \<le> length ps" by simp
  then have "replicate (length ps - length ?ks) None @ replicate (maxOrdersPerLevel - length ps) None =
      replicate (maxOrdersPerLevel - length ?ks) (None :: nat option)"
    using l by (simp add: replicate_add [symmetric])
  then show ?thesis
    using compact_prefix [of "[]" 0 ps ?ks h d "replicate (maxOrdersPerLevel - length ps) None"] l
    by (simp add: chunk_remove_def chunk_Len_prefix prefix_chunk_def [of ?ks] del: map_append)
      (simp add: prefix_chunk_def less_imp_le_nat le_less_trans [OF k])
qed

lemma chunk_remove_full: "full_chunk c \<Longrightarrow> chunk_remove h d c = (False, c)"
  by (auto simp: chunk_remove_def full_chunk_def chunk_Len_def prefix_chunk_def)

lemma chain_remove_full:
  "\<forall>f \<in> set fs. full_chunk f \<Longrightarrow>
   \<exists>fs'. (\<forall>f \<in> set fs'. full_chunk f) \<and> chain_remove h d linked fs = (False, fs')"
proof (induction fs arbitrary: linked)
  case (Cons f fs)
  then obtain fs1 fs2 where "\<forall>f \<in> set fs1. full_chunk f" "chain_remove h d False fs = (False, fs1)"
      "\<forall>f \<in> set fs2. full_chunk f" "chain_remove h d True fs = (False, fs2)"
    by (metis list.set_intros(2))
  then show ?case using Cons.prems by (cases linked) (auto simp: chunk_remove_full)
qed simp

lemma chain_remove_shape:
  "\<forall>f \<in> set fs. full_chunk f \<Longrightarrow> length ps < maxOrdersPerLevel \<Longrightarrow>
   \<exists>fs' cs. (\<forall>f \<in> set fs'. full_chunk f) \<and>
     chain_remove h d linked (fs @ [prefix_chunk ps]) = (\<exists>p \<in> set ps. o_ID (h p) = d, cs) \<and>
     (cs = fs' @ [prefix_chunk (filter (\<lambda>p. o_ID (h p) \<noteq> d) ps)] \<or>
      filter (\<lambda>p. o_ID (h p) \<noteq> d) ps = [] \<and> cs = fs')"
proof (induction fs arbitrary: linked)
  case Nil
  let ?ks = "filter (\<lambda>p. o_ID (h p) \<noteq> d) ps"
  have "length ?ks \<le> length ps" by simp
  then have len: "chunk_Len (prefix_chunk ?ks) = length ?ks"
    using Nil chunk_Len_prefix [of ?ks] by linarith
  show ?case
    by (intro exI [of _ "[]"] exI [of _ "if ?ks = [] \<and> linked then [] else [prefix_chunk ?ks]"])
      (use Nil chunk_remove_prefix [of ps h d] len in auto)
next
  case (Cons f fs)
  show ?case
  proof (cases linked)
    case True
    then show ?thesis using Cons.IH [of False] Cons.prems by (auto simp: chunk_remove_full)
  next
    case False
    from Cons.IH [of True] Cons.prems obtain fs' cs where c: "\<forall>f \<in> set fs'. full_chunk f"
      "chain_remove h d True (fs @ [prefix_chunk ps]) = (\<exists>p \<in> set ps. o_ID (h p) = d, cs)"
      "cs = fs' @ [prefix_chunk (filter (\<lambda>p. o_ID (h p) \<noteq> d) ps)] \<or>
       filter (\<lambda>p. o_ID (h p) \<noteq> d) ps = [] \<and> cs = fs'" by auto
    then show ?thesis using False Cons.prems
      by (intro exI [of _ "f # fs'"] exI [of _ "f # cs"]) (auto simp: chunk_remove_full)
  qed
qed

lemma level_ok_RemoveOrder:
  assumes "level_ok pl ps"
  shows "level_ok (snd (pl_RemoveOrder h d pl)) (filter (\<lambda>p. o_ID (h p) \<noteq> d) ps) \<and>
    fst (pl_RemoveOrder h d pl) = (\<exists>p \<in> set ps. o_ID (h p) = d)"
proof -
  let ?ks = "filter (\<lambda>p. o_ID (h p) \<noteq> d) ps"
  obtain fs where fs: "\<forall>f \<in> set fs. full_chunk f" and len: "length ps < maxOrdersPerLevel"
    and cs: "pl_chunks pl = fs @ [prefix_chunk ps] \<or> (ps = [] \<and> pl_chunks pl = fs)"
    using assms by (auto simp: level_ok_def)
  have k: "length ?ks < maxOrdersPerLevel" by (rule le_less_trans [OF length_filter_le len])
  from cs obtain fs' cs' where "\<forall>f \<in> set fs'. full_chunk f"
    "chain_remove h d False (pl_chunks pl) = (\<exists>p \<in> set ps. o_ID (h p) = d, cs')"
    "cs' = fs' @ [prefix_chunk ?ks] \<or> ?ks = [] \<and> cs' = fs'"
    using chain_remove_shape [OF fs len, of h d False] chain_remove_full [OF fs, of h d False] by auto
  then show ?thesis using k by (auto simp: pl_RemoveOrder_def level_ok_def)
qed

section \<open>Properties\<close>

text \<open>Levels as the book builds them: from an empty level by adding and removing orders.\<close>

inductive level_reach :: "price_level \<Rightarrow> bool" where
  lv_new: "level_reach new_level"
| lv_add: "level_reach pl \<Longrightarrow> level_reach (pl_AddOrder p pl)"
| lv_remove: "level_reach pl \<Longrightarrow> level_reach (snd (pl_RemoveOrder h d pl))"

lemma pl_Orders_new [simp]: "pl_Orders new_level = []"
  by (simp add: new_level_def pl_Orders_def)

lemma level_reach_ok: "level_reach pl \<Longrightarrow> level_ok pl (pl_Orders pl)"
proof (induction rule: level_reach.induct)
  case lv_new
  then show ?case by (simp add: level_ok_def new_level_def pl_Orders_def)
next
  case (lv_add pl p)
  from level_ok_AddOrder [OF this(2), of p] show ?case using level_ok_Orders by metis
next
  case (lv_remove pl h d)
  from level_ok_RemoveOrder [OF this(2), of h d] show ?case using level_ok_Orders by metis
qed

text \<open>
  C12: a price level is a queue of at most 255 orders. In every level built by adding and removing,
  adding an order appends it, except that the 256th order makes the tail of its ring meet the head
  and every order of the level disappears from all later reads; removing an ID takes out exactly
  the orders with it, keeps the order of the others and tells whether there was one; the length is
  the number of orders seen.
\<close>

theorem price_level_queue:
  assumes "level_reach pl"
  shows "length (pl_Orders pl) \<le> 255 \<and> pl_Len pl = length (pl_Orders pl) \<and>
    pl_Orders (pl_AddOrder p pl) = (if length (pl_Orders pl) = 255 then [] else pl_Orders pl @ [p]) \<and>
    pl_Orders (snd (pl_RemoveOrder h d pl)) = filter (\<lambda>q. o_ID (h q) \<noteq> d) (pl_Orders pl) \<and>
    fst (pl_RemoveOrder h d pl) = (\<exists>q \<in> set (pl_Orders pl). o_ID (h q) = d)"
proof -
  note ok = level_reach_ok [OF assms]
  note rem = level_ok_RemoveOrder [OF ok, of h d]
  have "length (pl_Orders pl) \<le> 255" using ok by (simp add: level_ok_def)
  then show ?thesis
    using level_ok_Len [OF ok] level_ok_Orders [OF level_ok_AddOrder [OF ok, of p]]
      level_ok_Orders [OF conjunct1 [OF rem]] conjunct2 [OF rem]
    by (intro conjI)
qed

lemma price_level_queue_witness:
  "pl_Orders (pl_AddOrder 8 (pl_AddOrder 7 new_level)) = [7, 8]"
  using price_level_queue [OF lv_add [OF lv_new], of 7 8] price_level_queue [OF lv_new, of 7] by simp

end
