(* ===== verification/OrderBook.thy ===== *)
theory OrderBook
  imports PriceLevel "HOL-Library.List_Lexorder" "HOL-Library.Char_ord"
begin

text \<open>
  The order book, \<open>internal/trading/orderbook/orderbook.go\<close>: matching, cancelling, cleaning up and
  looking at the book of one trading pair. Orders are cells of a heap, so that the mutations the code
  makes through pointers (filling a maker, resetting a pooled order) are updates of cells; \<open>order\<close>
  in the code is a pointer \<open>tk\<close> here. By the source's own rule one goroutine per pair changes the book,
  so an operation is one step; the fine-grained locks only matter to \<open>RestoreFromSnapshot\<close>, which
  calls \<open>AddOrder\<close> with them held. The B-tree library and the decimal library's printing and parsing
  are parameters (\<open>book_env\<close>). Business metrics, alerts and compliance records, which only report
  what happened, and the caches of spread and snapshots are left out.
\<close>

section \<open>The environment\<close>

text \<open>
  The B-tree from strings to levels: \<open>bt_Ascend\<close> is the sequence of items its iteration visits.
  Levels are pointers in the code and each is in one tree under one key, so changing a level in place
  is replacing the value of its key.
\<close>

record 't btree_ops =
  bt_New :: 't
  bt_Get :: "string \<Rightarrow> 't \<Rightarrow> price_level option"
  bt_Set :: "string \<Rightarrow> price_level \<Rightarrow> 't \<Rightarrow> 't"
  bt_Delete :: "string \<Rightarrow> 't \<Rightarrow> 't"
  bt_Ascend :: "'t \<Rightarrow> (string \<times> price_level) list"

record 't book_env =
  en_tree :: "'t btree_ops"
  en_dstr :: "decimal \<Rightarrow> string"
  en_parse :: "string \<Rightarrow> decimal option"

text \<open>
  What the code relies on: the tree is a map whose iteration visits the keys in strictly ascending
  order of strings, and the decimals it prints parse back.
\<close>

definition btree_laws :: "'t btree_ops \<Rightarrow> bool" where
  "btree_laws bt \<longleftrightarrow> bt_Ascend bt (bt_New bt) = [] \<and>
     (\<forall>t. sorted_wrt (<) (map fst (bt_Ascend bt t)) \<and>
        (\<forall>k. bt_Get bt k t = map_of (bt_Ascend bt t) k \<and>
          map_of (bt_Ascend bt (bt_Delete bt k t)) = (map_of (bt_Ascend bt t))(k := None) \<and>
          (\<forall>v. map_of (bt_Ascend bt (bt_Set bt k v t)) = (map_of (bt_Ascend bt t))(k \<mapsto> v))))"

definition env_laws :: "'t book_env \<Rightarrow> bool" where
  "env_laws en \<longleftrightarrow> btree_laws (en_tree en) \<and> (\<forall>d. en_parse en (en_dstr en d) = Some d)"

section \<open>State\<close>

datatype market_breaker = BreakerInactive | BreakerActive | BreakerHalted

record admin_state =
  ad_BreakerState :: market_breaker
  ad_TradingHalted :: bool
  ad_EmergencyStop :: bool
  ad_ScheduleActive :: bool
  ad_Fees :: decimal
  ad_UserLimits :: "uuid \<rightharpoonup> decimal"

record 't order_book =
  ob_Pair :: string
  ob_bids :: 't
  ob_asks :: 't
  ob_ordersByID :: "uuid \<rightharpoonup> nat"
  ob_adminState :: "admin_state option"
  ob_heap :: order_heap
  ob_topBids :: "(string \<times> string) list"
  ob_topAsks :: "(string \<times> string) list"

definition NewOrderBook :: "'t book_env \<Rightarrow> string \<Rightarrow> order_heap \<Rightarrow> 't order_book" where
  "NewOrderBook en pair h = \<lparr>ob_Pair = pair, ob_bids = bt_New (en_tree en), ob_asks = bt_New (en_tree en),
     ob_ordersByID = Map.empty, ob_adminState = None, ob_heap = h, ob_topBids = [], ob_topAsks = []\<rparr>"

text \<open>The administrative state is created by the first call that needs it.\<close>

definition new_admin :: admin_state where
  "new_admin = \<lparr>ad_BreakerState = BreakerInactive, ad_TradingHalted = False, ad_EmergencyStop = False,
     ad_ScheduleActive = False, ad_Fees = 0, ad_UserLimits = Map.empty\<rparr>"

definition GetAdminState :: "'t order_book \<Rightarrow> admin_state \<times> 't order_book" where
  "GetAdminState ob =
     (case ob_adminState ob of
        Some a \<Rightarrow> (a, ob)
      | None \<Rightarrow> (new_admin, ob\<lparr>ob_adminState := Some new_admin\<rparr>))"

definition set_admin :: "(admin_state \<Rightarrow> admin_state) \<Rightarrow> 't order_book \<Rightarrow> 't order_book" where
  "set_admin f ob = (case GetAdminState ob of (a, ob) \<Rightarrow> ob\<lparr>ob_adminState := Some (f a)\<rparr>)"

definition TriggerCircuitBreaker :: "'t order_book \<Rightarrow> 't order_book" where
  "TriggerCircuitBreaker = set_admin (\<lambda>a. a\<lparr>ad_BreakerState := BreakerActive\<rparr>)"

definition HaltTrading :: "'t order_book \<Rightarrow> 't order_book" where
  "HaltTrading = set_admin (\<lambda>a. a\<lparr>ad_TradingHalted := True\<rparr>)"

definition ResumeTrading :: "'t order_book \<Rightarrow> 't order_book" where
  "ResumeTrading = set_admin (\<lambda>a. a\<lparr>ad_TradingHalted := False, ad_BreakerState := BreakerInactive\<rparr>)"

definition EmergencyShutdown :: "'t order_book \<Rightarrow> 't order_book" where
  "EmergencyShutdown = set_admin (\<lambda>a. a\<lparr>ad_EmergencyStop := True\<rparr>)"

definition SetScheduleActive :: "bool \<Rightarrow> 't order_book \<Rightarrow> 't order_book" where
  "SetScheduleActive active = set_admin (\<lambda>a. a\<lparr>ad_ScheduleActive := active\<rparr>)"

definition SetFee :: "decimal \<Rightarrow> 't order_book \<Rightarrow> 't order_book" where
  "SetFee fee = set_admin (\<lambda>a. a\<lparr>ad_Fees := fee\<rparr>)"

definition GetFee :: "'t order_book \<Rightarrow> decimal \<times> 't order_book" where
  "GetFee ob = (case GetAdminState ob of (a, ob) \<Rightarrow> (ad_Fees a, ob))"

definition SetUserLimit :: "uuid \<Rightarrow> decimal \<Rightarrow> 't order_book \<Rightarrow> 't order_book" where
  "SetUserLimit user limit = set_admin (\<lambda>a. a\<lparr>ad_UserLimits := (ad_UserLimits a)(user \<mapsto> limit)\<rparr>)"

text \<open>A user without a limit reads as the zero decimal.\<close>

definition GetUserLimit :: "uuid \<Rightarrow> 't order_book \<Rightarrow> decimal \<times> 't order_book" where
  "GetUserLimit user ob =
     (case GetAdminState ob of (a, ob) \<Rightarrow> (case ad_UserLimits a user of Some l \<Rightarrow> l | None \<Rightarrow> 0, ob))"

section \<open>The cache of the top levels\<close>

definition remaining :: "order \<Rightarrow> decimal" where
  "remaining ord = o_Quantity ord - o_FilledQuantity ord"

definition level_volume :: "order_heap \<Rightarrow> price_level \<Rightarrow> decimal" where
  "level_volume h l = fold (\<lambda>p qty. qty + remaining (h p)) (pl_Orders l) 0"

text \<open>The visit goes on while fewer than \<open>depth\<close> levels with volume have been found.\<close>

fun top_levels :: "(decimal \<Rightarrow> string) \<Rightarrow> order_heap \<Rightarrow> int \<Rightarrow> (string \<times> price_level) list \<Rightarrow>
    (string \<times> string) list \<Rightarrow> (string \<times> string) list" where
  "top_levels dstr h depth [] acc = acc"
| "top_levels dstr h depth ((k, l) # items) acc =
     (let acc' = (if level_volume h l > 0 then acc @ [(k, dstr (level_volume h l))] else acc)
      in if int (length acc') < depth then top_levels dstr h depth items acc' else acc')"

definition UpdateTopLevelsCache :: "'t book_env \<Rightarrow> int \<Rightarrow> 't order_book \<Rightarrow> 't order_book" where
  "UpdateTopLevelsCache en depth ob =
     ob\<lparr>ob_topBids := top_levels (en_dstr en) (ob_heap ob) depth (rev (bt_Ascend (en_tree en) (ob_bids ob))) [],
        ob_topAsks := top_levels (en_dstr en) (ob_heap ob) depth (bt_Ascend (en_tree en) (ob_asks ob)) []\<rparr>"

abbreviation (input) defaultTopLevelsDepth :: int where
  "defaultTopLevelsDepth \<equiv> 20"

definition GetTopLevelsSnapshot :: "int \<Rightarrow> 't order_book \<Rightarrow>
    ((string \<times> string) list \<times> (string \<times> string) list) outcome" where
  "GetTopLevelsSnapshot depth ob =
     (if depth < 0 then Panics
      else Returns (take (nat depth) (ob_topBids ob), take (nat depth) (ob_topAsks ob)))"

section \<open>Matching\<close>

text \<open>
  The loop over the makers of a level. The state of the match is the heap, the index of orders, the
  taker's open quantity and the trades so far; the trades' IDs and times are inputs (\<open>mint n\<close> for the
  \<open>n\<close>-th trade of the call). The first result says whether the callback returned early, on a price
  that does not parse or does not cross.
\<close>

record match_state =
  ms_heap :: order_heap
  ms_ids :: "uuid \<rightharpoonup> nat"
  ms_qtyLeft :: decimal
  ms_trades :: "trade list"

definition no_cross :: "bool \<Rightarrow> decimal \<Rightarrow> decimal \<Rightarrow> bool" where
  "no_cross isBuy limit price \<longleftrightarrow> (isBuy \<and> limit < price) \<or> (\<not> isBuy \<and> limit > price)"

definition new_trade :: "uuid \<times> time \<Rightarrow> order \<Rightarrow> decimal \<Rightarrow> decimal \<Rightarrow> trade" where
  "new_trade m ord price qty = zero_trade\<lparr>t_ID := fst m, t_OrderID := o_ID ord, t_Pair := o_Pair ord,
     t_Price := price, t_Quantity := qty, t_Side := o_Side ord, t_Maker := False, t_CreatedAt := snd m\<rparr>"

text \<open>One match: both orders are filled, the trade recorded, a filled maker removed and reset.\<close>

definition match_one :: "decimal \<Rightarrow> (nat \<Rightarrow> uuid \<times> time) \<Rightarrow> nat \<Rightarrow> nat \<Rightarrow> price_level \<times> match_state \<Rightarrow>
    price_level \<times> match_state" where
  "match_one price mint tk mk st =
     (let (level, ms) = st;
          h = ms_heap ms;
          matchQty = min (ms_qtyLeft ms) (remaining (h mk));
          h1 = h(tk := (h tk)\<lparr>o_FilledQuantity := o_FilledQuantity (h tk) + matchQty\<rparr>);
          h2 = h1(mk := (h1 mk)\<lparr>o_FilledQuantity := o_FilledQuantity (h1 mk) + matchQty\<rparr>);
          ms2 = ms\<lparr>ms_heap := h2, ms_qtyLeft := ms_qtyLeft ms - matchQty,
            ms_trades := ms_trades ms @ [new_trade (mint (length (ms_trades ms))) (h2 tk) price matchQty]\<rparr>
      in if o_FilledQuantity (h2 mk) = o_Quantity (h2 mk)
         then (snd (pl_RemoveOrder h2 (o_ID (h2 mk)) level),
               ms2\<lparr>ms_ids := (ms_ids ms2)(o_ID (h2 mk) := None), ms_heap := h2(mk := zero_order)\<rparr>)
         else (level, ms2))"

fun match_makers :: "decimal option \<Rightarrow> (nat \<Rightarrow> uuid \<times> time) \<Rightarrow> bool \<Rightarrow> nat \<Rightarrow> nat list \<Rightarrow>
    price_level \<times> match_state \<Rightarrow> bool \<times> price_level \<times> match_state" where
  "match_makers priceDec mint isBuy tk [] st = (False, st)"
| "match_makers priceDec mint isBuy tk (mk # mks) st =
     (let h = ms_heap (snd st)
      in if o_FilledQuantity (h mk) \<ge> o_Quantity (h mk) then match_makers priceDec mint isBuy tk mks st
         else case priceDec of
                None \<Rightarrow> (True, st)
              | Some price \<Rightarrow>
                  (if no_cross isBuy (o_Price (h tk)) price then (True, st)
                   else if o_UserID (h mk) = o_UserID (h tk) then match_makers priceDec mint isBuy tk mks st
                   else
                     let st' = match_one price mint tk mk st
                     in if ms_qtyLeft (snd st') \<le> 0 then (False, st')
                        else match_makers priceDec mint isBuy tk mks st'))"

text \<open>The visit of the opposite book; the last result are the keys of the levels left empty.\<close>

fun match_levels :: "'t book_env \<Rightarrow> (nat \<Rightarrow> uuid \<times> time) \<Rightarrow> bool \<Rightarrow> nat \<Rightarrow>
    (string \<times> price_level) list \<Rightarrow> 't \<times> match_state \<Rightarrow> string list \<Rightarrow> ('t \<times> match_state) \<times> string list" where
  "match_levels en mint isBuy tk [] st toRemove = (st, toRemove)"
| "match_levels en mint isBuy tk ((key, level) # items) st toRemove =
     (case match_makers (en_parse en key) mint isBuy tk (pl_Orders level) (level, snd st) of
        (stopped, level', ms') \<Rightarrow>
          (let st' = (bt_Set (en_tree en) key level' (fst st), ms');
               toRemove' = (if \<not> stopped \<and> pl_Len level' = 0 then toRemove @ [key] else toRemove)
           in if stopped \<or> ms_qtyLeft ms' \<le> 0 then (st', toRemove')
              else match_levels en mint isBuy tk items st' toRemove'))"

fun delete_levels :: "'t book_env \<Rightarrow> string list \<Rightarrow> 't \<Rightarrow> 't" where
  "delete_levels en [] t = t"
| "delete_levels en (k # ks) t =
     delete_levels en ks (case bt_Get (en_tree en) k t of None \<Rightarrow> t | Some l \<Rightarrow> bt_Delete (en_tree en) k t)"

section \<open>Adding and cancelling\<close>

text \<open>Placing the rest: a missing level is a reset one from the pool.\<close>

definition place_order :: "'t book_env \<Rightarrow> decimal \<Rightarrow> nat \<Rightarrow> 't \<Rightarrow> 't" where
  "place_order en price tk t =
     (let priceStr = en_dstr en price;
          level = (case bt_Get (en_tree en) priceStr t of
                     Some l \<Rightarrow> l | None \<Rightarrow> new_level\<lparr>pl_Price := priceStr\<rparr>)
      in bt_Set (en_tree en) priceStr (pl_AddOrder tk level) t)"

record add_result =
  ar_Trades :: "trade list"
  ar_RestingOrders :: "nat list"

text \<open>After the match: the emptied levels go, the rest is placed unless the order is IOC or FOK.\<close>

definition finish_order :: "'t book_env \<Rightarrow> nat \<Rightarrow> bool \<Rightarrow> 't \<Rightarrow> match_state \<Rightarrow> string list \<Rightarrow> 't order_book \<Rightarrow>
    add_result \<times> 't order_book" where
  "finish_order en tk isBuy opp1 ms toRemove ob =
     (let opp2 = delete_levels en toRemove opp1;
          ord = ms_heap ms tk;
          placed = (ms_qtyLeft ms > 0 \<and> o_TimeInForce ord \<noteq> ''IOC'' \<and> o_TimeInForce ord \<noteq> ''FOK'');
          own = (if isBuy then ob_bids ob else ob_asks ob);
          own1 = (if placed then place_order en (o_Price ord) tk own else own);
          ids1 = (if placed then (ms_ids ms)(o_ID ord \<mapsto> tk) else ms_ids ms);
          ob1 = ob\<lparr>ob_bids := (if isBuy then own1 else opp2), ob_asks := (if isBuy then opp2 else own1),
            ob_ordersByID := ids1, ob_heap := ms_heap ms\<rparr>
      in (\<lparr>ar_Trades = ms_trades ms, ar_RestingOrders = (if placed then [tk] else [])\<rparr>,
          UpdateTopLevelsCache en defaultTopLevelsDepth ob1))"

definition AddOrder :: "'t book_env \<Rightarrow> (nat \<Rightarrow> uuid \<times> time) \<Rightarrow> nat option \<Rightarrow> 't order_book \<Rightarrow>
    (string + add_result) \<times> 't order_book" where
  "AddOrder en mint tko ob =
     (case tko of
        None \<Rightarrow> (Inl ''order is nil'', ob)
      | Some tk \<Rightarrow>
          (case GetAdminState ob of (admin, ob) \<Rightarrow>
             if ad_BreakerState admin = BreakerActive then (Inl ''circuit breaker is active'', ob)
             else if remaining (ob_heap ob tk) \<le> 0 then (Inl ''order quantity is zero or negative'', ob)
             else
               let isBuy = (o_Side (ob_heap ob tk) = ''BUY'');
                   opp = (if isBuy then ob_asks ob else ob_bids ob);
                   ms0 = \<lparr>ms_heap = ob_heap ob, ms_ids = ob_ordersByID ob,
                     ms_qtyLeft = remaining (ob_heap ob tk), ms_trades = []\<rparr>
               in case match_levels en mint isBuy tk (bt_Ascend (en_tree en) opp) (opp, ms0) [] of
                    ((opp1, ms), toRemove) \<Rightarrow>
                      (case finish_order en tk isBuy opp1 ms toRemove ob of (res, ob') \<Rightarrow> (Inr res, ob'))))"

text \<open>Removing an order by its ID from the level of its price, and the level when nothing is seen in it.\<close>

definition remove_from_tree :: "'t book_env \<Rightarrow> order_heap \<Rightarrow> uuid \<Rightarrow> string \<Rightarrow> 't \<Rightarrow> 't" where
  "remove_from_tree en h orderID priceStr t =
     (case bt_Get (en_tree en) priceStr t of
        None \<Rightarrow> t
      | Some level \<Rightarrow>
          (let level' = snd (pl_RemoveOrder h orderID level);
               t' = bt_Set (en_tree en) priceStr level' t
           in if pl_Len level' = 0 then bt_Delete (en_tree en) priceStr t' else t'))"

definition remove_from_book :: "'t book_env \<Rightarrow> uuid \<Rightarrow> order \<Rightarrow> 't order_book \<Rightarrow> 't order_book" where
  "remove_from_book en orderID ord ob =
     (if o_Side ord = ''BUY''
      then ob\<lparr>ob_bids := remove_from_tree en (ob_heap ob) orderID (en_dstr en (o_Price ord)) (ob_bids ob)\<rparr>
      else ob\<lparr>ob_asks := remove_from_tree en (ob_heap ob) orderID (en_dstr en (o_Price ord)) (ob_asks ob)\<rparr>)"

definition CancelOrder :: "'t book_env \<Rightarrow> uuid \<Rightarrow> 't order_book \<Rightarrow> bool \<times> 't order_book" where
  "CancelOrder en orderID ob =
     (case ob_ordersByID ob orderID of
        None \<Rightarrow> (False, ob)
      | Some p \<Rightarrow>
          (let ob1 = remove_from_book en orderID (ob_heap ob p) ob;
               ob2 = ob1\<lparr>ob_ordersByID := (ob_ordersByID ob1)(orderID := None),
                         ob_heap := (ob_heap ob1)(p := zero_order)\<rparr>
           in (True, UpdateTopLevelsCache en defaultTopLevelsDepth ob2)))"

text \<open>
  Cleanup: \<open>ks\<close> is the order the index is ranged over in. Each order is taken from the index under the
  ID in its cell (entries deleted before the range reaches them are not visited), then removed from
  its level. The cache is not updated.
\<close>

definition cleanable :: "order \<Rightarrow> bool" where
  "cleanable ord \<longleftrightarrow> o_Status ord = ''CANCELLED'' \<or> o_Status ord = ''FILLED''"

fun cleanup_collect :: "order_heap \<Rightarrow> uuid list \<Rightarrow> (uuid \<rightharpoonup> nat) \<Rightarrow> nat list \<times> (uuid \<rightharpoonup> nat)" where
  "cleanup_collect h [] ids = ([], ids)"
| "cleanup_collect h (k # ks) ids =
     (case ids k of
        Some p \<Rightarrow>
          (if cleanable (h p)
           then (case cleanup_collect h ks (ids(o_ID (h p) := None)) of (ps, ids') \<Rightarrow> (p # ps, ids'))
           else cleanup_collect h ks ids)
      | None \<Rightarrow> cleanup_collect h ks ids)"

fun remove_all :: "'t book_env \<Rightarrow> nat list \<Rightarrow> 't order_book \<Rightarrow> 't order_book" where
  "remove_all en [] ob = ob"
| "remove_all en (p # ps) ob =
     remove_all en ps (remove_from_book en (o_ID (ob_heap ob p)) (ob_heap ob p) ob)"

definition cleanupOrders :: "'t book_env \<Rightarrow> uuid list \<Rightarrow> 't order_book \<Rightarrow> 't order_book" where
  "cleanupOrders en ks ob =
     (case cleanup_collect (ob_heap ob) ks (ob_ordersByID ob) of
        (ps, ids) \<Rightarrow> remove_all en ps (ob\<lparr>ob_ordersByID := ids\<rparr>))"

section \<open>Looking at the book\<close>

definition OrdersCount :: "'t order_book \<Rightarrow> nat" where
  "OrdersCount ob = card (dom (ob_ordersByID ob))"

definition GetOrderIDs :: "uuid list \<Rightarrow> 't order_book \<Rightarrow> uuid list" where
  "GetOrderIDs ks ob = ks"

text \<open>The simulation of a match: scanning a level, then the levels; the flag says that the scan stops.\<close>

fun can_fill_level :: "order_heap \<Rightarrow> order \<Rightarrow> decimal \<Rightarrow> nat list \<Rightarrow> decimal \<Rightarrow> bool \<times> decimal" where
  "can_fill_level h ord qtyLeft [] filled = (False, filled)"
| "can_fill_level h ord qtyLeft (mk # mks) filled =
     (if o_FilledQuantity (h mk) \<ge> o_Quantity (h mk) then can_fill_level h ord qtyLeft mks filled
      else if o_UserID (h mk) = o_UserID ord then can_fill_level h ord qtyLeft mks filled
      else
        let matchQty = min (qtyLeft - filled) (remaining (h mk))
        in if matchQty \<le> 0 then can_fill_level h ord qtyLeft mks filled
           else if filled + matchQty \<ge> qtyLeft then (True, filled + matchQty)
           else can_fill_level h ord qtyLeft mks (filled + matchQty))"

fun can_fill_levels :: "'t book_env \<Rightarrow> order_heap \<Rightarrow> order \<Rightarrow> bool \<Rightarrow> decimal \<Rightarrow>
    (string \<times> price_level) list \<Rightarrow> decimal \<Rightarrow> decimal" where
  "can_fill_levels en h ord isBuy qtyLeft [] filled = filled"
| "can_fill_levels en h ord isBuy qtyLeft ((key, level) # items) filled =
     (case en_parse en key of
        None \<Rightarrow> filled
      | Some price \<Rightarrow>
          (if (o_Type ord = ''LIMIT'' \<or> o_Type ord = ''FOK'') \<and> no_cross isBuy (o_Price ord) price then filled
           else case can_fill_level h ord qtyLeft (pl_Orders level) filled of
                  (stop, filled') \<Rightarrow>
                    (if stop then filled' else can_fill_levels en h ord isBuy qtyLeft items filled')))"

definition CanFullyFill :: "'t book_env \<Rightarrow> nat option \<Rightarrow> 't order_book \<Rightarrow> bool" where
  "CanFullyFill en tko ob =
     (case tko of
        None \<Rightarrow> False
      | Some tk \<Rightarrow>
          (let ord = ob_heap ob tk; qtyLeft = remaining ord; isBuy = (o_Side ord = ''BUY'');
               book = (if isBuy then ob_asks ob else ob_bids ob)
           in if qtyLeft \<le> 0 then True
              else can_fill_levels en (ob_heap ob) ord isBuy qtyLeft (bt_Ascend (en_tree en) book) 0 \<ge> qtyLeft))"

text \<open>
  A snapshot lists orders, not levels, until \<open>depth\<close> of them are in it; the capacity of the slices
  must not be negative. \<open>GetSnapshotLowLatency\<close> has the same body.
\<close>

fun snap_level :: "(decimal \<Rightarrow> string) \<Rightarrow> order_heap \<Rightarrow> int \<Rightarrow> nat list \<Rightarrow> (string \<times> string) list \<Rightarrow>
    bool \<times> (string \<times> string) list" where
  "snap_level dstr h depth [] acc = (False, acc)"
| "snap_level dstr h depth (p # ps) acc =
     (let acc' = acc @ [(dstr (o_Price (h p)), dstr (remaining (h p)))]
      in if int (length acc') \<ge> depth then (True, acc') else snap_level dstr h depth ps acc')"

fun snap_levels :: "(decimal \<Rightarrow> string) \<Rightarrow> order_heap \<Rightarrow> int \<Rightarrow> (string \<times> price_level) list \<Rightarrow>
    (string \<times> string) list \<Rightarrow> (string \<times> string) list" where
  "snap_levels dstr h depth [] acc = acc"
| "snap_levels dstr h depth ((k, l) # items) acc =
     (case snap_level dstr h depth (pl_Orders l) acc of
        (stop, acc') \<Rightarrow>
          (if stop \<or> int (length acc') \<ge> depth then acc' else snap_levels dstr h depth items acc'))"

definition GetSnapshot :: "'t book_env \<Rightarrow> int \<Rightarrow> 't order_book \<Rightarrow>
    ((string \<times> string) list \<times> (string \<times> string) list) outcome" where
  "GetSnapshot en depth ob =
     (let depth = (if depth > 1000 then 1000 else depth)
      in if depth < 0 then Panics
         else Returns
           (snap_levels (en_dstr en) (ob_heap ob) depth (rev (bt_Ascend (en_tree en) (ob_bids ob))) [],
            snap_levels (en_dstr en) (ob_heap ob) depth (bt_Ascend (en_tree en) (ob_asks ob)) []))"

section \<open>The engine's entry points\<close>

text \<open>The fields of the result are read before the error is looked at; with an error it is nil.\<close>

definition ProcessLimitOrder :: "'t book_env \<Rightarrow> (nat \<Rightarrow> uuid \<times> time) \<Rightarrow> nat option \<Rightarrow> 't order_book \<Rightarrow>
    (nat option \<times> trade list \<times> nat list) outcome \<times> 't order_book" where
  "ProcessLimitOrder en mint tko ob =
     (case AddOrder en mint tko ob of
        (Inl e, ob') \<Rightarrow> (Panics, ob')
      | (Inr res, ob') \<Rightarrow> (Returns (tko, ar_Trades res, ar_RestingOrders res), ob'))"

definition ProcessMarketOrder :: "'t book_env \<Rightarrow> (nat \<Rightarrow> uuid \<times> time) \<Rightarrow> nat option \<Rightarrow> 't order_book \<Rightarrow>
    (nat option \<times> trade list \<times> nat list) outcome \<times> 't order_book" where
  "ProcessMarketOrder en mint tko ob =
     (case AddOrder en mint tko ob of
        (Inl e, ob') \<Rightarrow> (Panics, ob')
      | (Inr res, ob') \<Rightarrow> (Returns (tko, ar_Trades res, []), ob'))"

text \<open>
  Restoring holds the locks of both books and of the index while it calls \<open>AddOrder\<close>, which takes one
  of them after its first checks: that call never returns. What is left of \<open>AddOrder\<close> with the locks
  held are its early errors. An entry is a list of texts; \<open>None\<close> stands for success.
\<close>

fun restore_entries :: "'t book_env \<Rightarrow> market_breaker \<Rightarrow> string list list \<Rightarrow> string option outcome" where
  "restore_entries en brk [] = Returns None"
| "restore_entries en brk (entry # entries) =
     (case entry of
        p # q # rest \<Rightarrow>
          (case en_parse en p of
             None \<Rightarrow> Returns (Some ''price'')
           | Some price \<Rightarrow>
               (case en_parse en q of
                  None \<Rightarrow> Returns (Some ''quantity'')
                | Some qty \<Rightarrow>
                    (if brk = BreakerActive then Returns (Some ''circuit breaker is active'')
                     else if qty \<le> 0 then Returns (Some ''order quantity is zero or negative'')
                     else Blocks)))
      | _ \<Rightarrow> restore_entries en brk entries)"

definition RestoreFromSnapshot :: "'t book_env \<Rightarrow> string list list \<Rightarrow> string list list \<Rightarrow> 't order_book \<Rightarrow>
    string option outcome \<times> 't order_book" where
  "RestoreFromSnapshot en bids asks ob =
     (let ob1 = ob\<lparr>ob_bids := bt_New (en_tree en), ob_asks := bt_New (en_tree en), ob_ordersByID := Map.empty\<rparr>;
          brk = ad_BreakerState (fst (GetAdminState ob1))
      in (bind_outcome (restore_entries en brk bids)
            (\<lambda>e. case e of Some err \<Rightarrow> Returns (Some err) | None \<Rightarrow> restore_entries en brk asks), ob1))"

end
