(* ===== verification/BookMatching.thy ===== *)
theory BookMatching
  imports OrderBook
begin

text \<open>
  What the order book's matching does. The reference is a greedy match of the taker against one list
  of makers: \<open>greedy\<close> goes through the orders that rest on the other side, level after level in the
  order of the tree, and takes what it can. \<open>AddOrder\<close> with its nested loops, in-place removals and
  early returns is shown to do exactly that, and \<open>CanFullyFill\<close> to predict it.
\<close>

section \<open>The reference\<close>

text \<open>Fills are pairs of a maker and a quantity.\<close>

fun greedy :: "order_heap \<Rightarrow> bool \<Rightarrow> order \<Rightarrow> decimal \<Rightarrow> nat list \<Rightarrow> (nat \<times> decimal) list" where
  "greedy h isBuy tk qty [] = []"
| "greedy h isBuy tk qty (p # ps) =
     (if no_cross isBuy (o_Price tk) (o_Price (h p)) then []
      else if o_UserID (h p) = o_UserID tk then greedy h isBuy tk qty ps
      else let q = min qty (remaining (h p))
           in (p, q) # (if qty - q \<le> 0 then [] else greedy h isBuy tk (qty - q) ps))"

definition filled_sum :: "(nat \<times> decimal) list \<Rightarrow> decimal" where
  "filled_sum F = sum_list (map snd F)"

lemma filled_sum_simps [simp]:
  "filled_sum [] = 0" "filled_sum (x # F) = snd x + filled_sum F" "filled_sum (F @ G) = filled_sum F + filled_sum G"
  by (simp_all add: filled_sum_def)

text \<open>The makers a list of fills completes.\<close>

definition completed :: "order_heap \<Rightarrow> (nat \<times> decimal) list \<Rightarrow> nat set" where
  "completed h F = {p. \<exists>q. (p, q) \<in> set F \<and> q = remaining (h p)}"

text \<open>The heap after the fills: the taker has the sum, a maker its share, a completed maker is reset.\<close>

definition fill_heap :: "nat \<Rightarrow> (nat \<times> decimal) list \<Rightarrow> order_heap \<Rightarrow> order_heap" where
  "fill_heap tk F h =
     (\<lambda>p. if p = tk then (h tk)\<lparr>o_FilledQuantity := o_FilledQuantity (h tk) + filled_sum F\<rparr>
          else case map_of F p of
                 None \<Rightarrow> h p
               | Some q \<Rightarrow> (if q = remaining (h p) then zero_order
                            else (h p)\<lparr>o_FilledQuantity := o_FilledQuantity (h p) + q\<rparr>))"

definition fill_ids :: "order_heap \<Rightarrow> (nat \<times> decimal) list \<Rightarrow> (uuid \<rightharpoonup> nat) \<Rightarrow> (uuid \<rightharpoonup> nat)" where
  "fill_ids h F ids = (\<lambda>i. if \<exists>p \<in> completed h F. o_ID (h p) = i then None else ids i)"

text \<open>The trades of the fills, minted from number \<open>n\<close> on.\<close>

fun fill_trades :: "(nat \<Rightarrow> uuid \<times> time) \<Rightarrow> order_heap \<Rightarrow> order \<Rightarrow> nat \<Rightarrow> (nat \<times> decimal) list \<Rightarrow> trade list" where
  "fill_trades mint h tk n [] = []"
| "fill_trades mint h tk n ((p, q) # F) =
     new_trade (mint n) tk (o_Price (h p)) q # fill_trades mint h tk (Suc n) F"

lemma fill_trades_append:
  "fill_trades mint h tk n (F @ G) = fill_trades mint h tk n F @ fill_trades mint h tk (n + length F) G"
  by (induction F arbitrary: n) auto

lemma length_fill_trades [simp]: "length (fill_trades mint h tk n F) = length F"
  by (induction F arbitrary: n) auto

section \<open>Facts about the reference\<close>

lemma greedy_mem: "(r, q) \<in> set (greedy h isBuy tk qty ps) \<Longrightarrow> r \<in> set ps"
  by (induction h isBuy tk qty ps rule: greedy.induct) (auto simp: Let_def split: if_splits)

lemma greedy_distinct: "distinct ps \<Longrightarrow> distinct (map fst (greedy h isBuy tk qty ps))"
proof (induction h isBuy tk qty ps rule: greedy.induct)
  case (2 h isBuy tk qty p ps)
  have "p \<notin> fst ` set (greedy h isBuy tk q ps)" for q
    using greedy_mem [of p _ h isBuy tk q ps] "2.prems" by auto
  then show ?case using 2 by (auto simp: Let_def)
qed simp

lemma greedy_cong:
  "(\<And>p. p \<in> set ps \<Longrightarrow> h p = h' p) \<Longrightarrow> o_Price tk = o_Price tk' \<Longrightarrow> o_UserID tk = o_UserID tk' \<Longrightarrow>
   greedy h isBuy tk qty ps = greedy h' isBuy tk' qty ps"
  by (induction h isBuy tk qty ps rule: greedy.induct) (simp_all add: Let_def)

text \<open>Every fill is positive, at a crossing price, with another user, and within both open quantities.\<close>

lemma greedy_fills:
  assumes "0 < qty" and "\<And>p. p \<in> set ps \<Longrightarrow> 0 < remaining (h p)" and "(p, q) \<in> set (greedy h isBuy tk qty ps)"
  shows "0 < q \<and> q \<le> remaining (h p) \<and> \<not> no_cross isBuy (o_Price tk) (o_Price (h p)) \<and> o_UserID (h p) \<noteq> o_UserID tk"
  using assms
proof (induction h isBuy tk qty ps rule: greedy.induct)
  case (2 h isBuy tk qty p0 ps)
  then show ?case by (auto simp: Let_def min_def split: if_splits)
qed simp

lemma greedy_sum:
  assumes "0 < qty" and "\<And>p. p \<in> set ps \<Longrightarrow> 0 < remaining (h p)"
  shows "0 \<le> filled_sum (greedy h isBuy tk qty ps) \<and> filled_sum (greedy h isBuy tk qty ps) \<le> qty"
  using assms
proof (induction h isBuy tk qty ps rule: greedy.induct)
  case (2 h isBuy tk qty p ps)
  let ?q = "min qty (remaining (h p))"
  have q: "0 < ?q" "?q \<le> qty" using 2(3,4) by auto
  have "\<not> qty - ?q \<le> 0 \<Longrightarrow> \<not> no_cross isBuy (o_Price tk) (o_Price (h p)) \<Longrightarrow> o_UserID (h p) \<noteq> o_UserID tk \<Longrightarrow>
      0 \<le> filled_sum (greedy h isBuy tk (qty - ?q) ps) \<and> filled_sum (greedy h isBuy tk (qty - ?q) ps) \<le> qty - ?q"
    using "2.IH"(2) "2.prems" by (simp add: not_le)
  moreover have "0 < remaining (h p)" using "2.prems"(2) by simp
  ultimately show ?case using "2.IH"(1) "2.prems" q
    by (auto simp: Let_def intro: add_nonneg_nonneg less_imp_le)
qed simp

text \<open>Going on with a second list: only if the first one crossed throughout and left a quantity.\<close>

lemma greedy_append:
  assumes "0 < qty" and "\<And>p. p \<in> set ps \<Longrightarrow> \<not> no_cross isBuy (o_Price tk) (o_Price (h p))"
    and "\<And>p. p \<in> set ps \<Longrightarrow> 0 < remaining (h p)"
  shows "greedy h isBuy tk qty (ps @ qs) = greedy h isBuy tk qty ps @
    (if filled_sum (greedy h isBuy tk qty ps) < qty
     then greedy h isBuy tk (qty - filled_sum (greedy h isBuy tk qty ps)) qs else [])"
  using assms
proof (induction h isBuy tk qty ps rule: greedy.induct)
  case (2 h isBuy tk qty p ps)
  let ?q = "min qty (remaining (h p))"
  show ?case
  proof (cases "o_UserID (h p) = o_UserID tk")
    case True
    then show ?thesis using "2.IH"(1) "2.prems" by simp
  next
    case False
    show ?thesis
    proof (cases "qty - ?q \<le> 0")
      case True
      then show ?thesis using False "2.prems"(2) by (simp add: Let_def)
    next
      case lt: False
      have "greedy h isBuy tk (qty - ?q) (ps @ qs) = greedy h isBuy tk (qty - ?q) ps @
        (if filled_sum (greedy h isBuy tk (qty - ?q) ps) < qty - ?q
         then greedy h isBuy tk (qty - ?q - filled_sum (greedy h isBuy tk (qty - ?q) ps)) qs else [])"
        using "2.IH"(2) "2.prems" False lt by simp
      then show ?thesis using False lt "2.prems"(2) by (simp add: Let_def algebra_simps)
    qed
  qed
qed simp

section \<open>Sequences of fills\<close>

lemma fill_heap_tk [simp]:
  "fill_heap tk F h tk = (h tk)\<lparr>o_FilledQuantity := o_FilledQuantity (h tk) + filled_sum F\<rparr>"
  by (simp add: fill_heap_def)

lemma fill_heap_other: "p \<noteq> tk \<Longrightarrow> p \<notin> fst ` set F \<Longrightarrow> fill_heap tk F h p = h p"
  by (simp add: fill_heap_def map_of_eq_None_iff [THEN iffD2])

lemma fill_heap_Nil [simp]: "fill_heap tk [] h = h"
  by (rule ext) (simp add: fill_heap_def)

lemma completed_Nil [simp]: "completed h [] = {}"
  by (simp add: completed_def)

lemma completed_Cons: "completed h ((p, q) # F) = (if q = remaining (h p) then {p} else {}) \<union> completed h F"
  by (auto simp: completed_def)

lemma completed_append: "completed h (F @ G) = completed h F \<union> completed h G"
  by (auto simp: completed_def)

lemma completed_cong: "(\<And>p. p \<in> fst ` set F \<Longrightarrow> h p = h' p) \<Longrightarrow> completed h F = completed h' F"
  by (force simp: completed_def)

lemma completed_mem: "p \<in> completed h F \<Longrightarrow> p \<in> fst ` set F"
  by (force simp: completed_def)

lemma greedy_fst: "fst ` set (greedy h isBuy tk qty ps) \<subseteq> set ps"
proof
  fix p assume "p \<in> fst ` set (greedy h isBuy tk qty ps)"
  then obtain q where "(p, q) \<in> set (greedy h isBuy tk qty ps)" by auto
  then show "p \<in> set ps" by (rule greedy_mem)
qed

lemma completed_greedy: "completed h' (greedy h isBuy tk qty ps) \<subseteq> set ps"
  using completed_mem greedy_fst by blast

lemma fill_ids_Nil [simp]: "fill_ids h [] ids = ids"
  by (simp add: fill_ids_def)

lemma fill_ids_append:
  assumes "\<And>p. p \<in> fst ` set G \<Longrightarrow> h' p = h p"
  shows "fill_ids h' G (fill_ids h F ids) = fill_ids h (F @ G) ids"
proof -
  have "completed h' G = completed h G" by (rule completed_cong) (use assms in auto)
  moreover have "\<And>p. p \<in> completed h G \<Longrightarrow> o_ID (h' p) = o_ID (h p)" using assms completed_mem by metis
  ultimately show ?thesis by (rule_tac ext) (auto simp: fill_ids_def completed_append)
qed

lemma fill_heap_append:
  assumes "tk \<notin> fst ` set G" and "fst ` set F \<inter> fst ` set G = {}"
  shows "fill_heap tk G (fill_heap tk F h) = fill_heap tk (F @ G) h"
proof
  fix p
  show "fill_heap tk G (fill_heap tk F h) p = fill_heap tk (F @ G) h p"
  proof (cases "p = tk")
    case True
    then show ?thesis by (simp add: add.assoc)
  next
    case False
    show ?thesis
    proof (cases "p \<in> fst ` set G")
      case True
      then have "p \<notin> fst ` set F" using assms(2) by auto
      then have "fill_heap tk F h p = h p" and "map_of F p = None"
        using fill_heap_other [of p tk F h] False by (auto simp: map_of_eq_None_iff)
      then show ?thesis using False by (simp add: fill_heap_def map_add_def split: option.splits)
    next
      case nG: False
      then have "map_of G p = None" by (simp add: map_of_eq_None_iff)
      then show ?thesis using False by (simp add: fill_heap_def map_add_def split: option.splits)
    qed
  qed
qed

lemma fill_trades_cong:
  "(\<And>p. p \<in> fst ` set F \<Longrightarrow> h p = h' p) \<Longrightarrow> o_ID tk = o_ID tk' \<Longrightarrow> o_Pair tk = o_Pair tk' \<Longrightarrow>
   o_Side tk = o_Side tk' \<Longrightarrow> fill_trades mint h tk n F = fill_trades mint h' tk' n F"
  by (induction F arbitrary: n) (auto simp: new_trade_def)

definition fill_state :: "(nat \<Rightarrow> uuid \<times> time) \<Rightarrow> nat \<Rightarrow> (nat \<times> decimal) list \<Rightarrow> match_state \<Rightarrow> match_state" where
  "fill_state mint tk F ms =
     \<lparr>ms_heap = fill_heap tk F (ms_heap ms), ms_ids = fill_ids (ms_heap ms) F (ms_ids ms),
      ms_qtyLeft = ms_qtyLeft ms - filled_sum F,
      ms_trades = ms_trades ms @ fill_trades mint (ms_heap ms) (ms_heap ms tk) (length (ms_trades ms)) F\<rparr>"

lemma fill_state_Nil [simp]: "fill_state mint tk [] ms = ms"
  by (simp add: fill_state_def)

lemma fill_state_simps [simp]:
  "ms_heap (fill_state mint tk F ms) = fill_heap tk F (ms_heap ms)"
  "ms_qtyLeft (fill_state mint tk F ms) = ms_qtyLeft ms - filled_sum F"
  by (simp_all add: fill_state_def)

text \<open>Two sequences of fills of different makers compose.\<close>

lemma fill_state_append:
  assumes "tk \<notin> fst ` set G" and "fst ` set F \<inter> fst ` set G = {}"
  shows "fill_state mint tk G (fill_state mint tk F ms) = fill_state mint tk (F @ G) ms"
proof -
  have agree: "fill_heap tk F (ms_heap ms) p = ms_heap ms p" if "p \<in> fst ` set G" for p
    using fill_heap_other [of p tk F] that assms by blast
  show ?thesis
    unfolding fill_state_def
    by (simp add: fill_heap_append [OF assms] fill_ids_append [OF agree] fill_trades_append
        fill_trades_cong [of G "fill_heap tk F (ms_heap ms)" "ms_heap ms", OF agree]
        algebra_simps)
qed

section \<open>One level\<close>

lemma match_one_ref:
  assumes "p \<noteq> tk" and "p \<in> set vis" and "level_ok level vis" and "inj_on (\<lambda>p. o_ID (ms_heap ms p)) (set vis)"
    and "o_Price (ms_heap ms p) = px" and "q = min (ms_qtyLeft ms) (remaining (ms_heap ms p))"
  shows "\<exists>level'. match_one px mint tk p (level, ms) = (level', fill_state mint tk [(p, q)] ms) \<and>
    level_ok level' (filter (\<lambda>r. r \<notin> completed (ms_heap ms) [(p, q)]) vis)"
proof -
  define h where "h = ms_heap ms"
  define h1 where "h1 = h(tk := (h tk)\<lparr>o_FilledQuantity := o_FilledQuantity (h tk) + q\<rparr>)"
  define h2 where "h2 = h1(p := (h1 p)\<lparr>o_FilledQuantity := o_FilledQuantity (h1 p) + q\<rparr>)"
  have h2: "h2 p = (h p)\<lparr>o_FilledQuantity := o_FilledQuantity (h p) + q\<rparr>"
    "h2 tk = (h tk)\<lparr>o_FilledQuantity := o_FilledQuantity (h tk) + q\<rparr>" "\<And>r. o_ID (h2 r) = o_ID (h r)"
    using assms(1) by (simp_all add: h2_def h1_def)
  have full: "o_FilledQuantity (h2 p) = o_Quantity (h2 p) \<longleftrightarrow> q = remaining (h p)"
    by (auto simp: h2(1) remaining_def)
  have tr: "new_trade (mint (length (ms_trades ms))) (h2 tk) px q =
      new_trade (mint (length (ms_trades ms))) (h tk) (o_Price (h p)) q"
    using assms(5) by (simp add: h2(2) new_trade_def h_def)
  have heap: "fill_heap tk [(p, q)] h = (if q = remaining (h p) then h2(p := zero_order) else h2)"
    using assms(1) by (auto simp: fill_heap_def h2_def h1_def)
  have ids: "fill_ids h [(p, q)] (ms_ids ms) =
      (if q = remaining (h p) then (ms_ids ms)(o_ID (h p) := None) else ms_ids ms)"
    by (rule ext) (auto simp: fill_ids_def completed_def)
  have rm: "level_ok (snd (pl_RemoveOrder h2 (o_ID (h p)) level)) (filter (\<lambda>r. r \<noteq> p) vis)"
  proof -
    have "filter (\<lambda>r. o_ID (h2 r) \<noteq> o_ID (h p)) vis = filter (\<lambda>r. r \<noteq> p) vis"
      using assms(2,4) by (intro filter_cong) (auto simp: h2(3) h_def inj_on_def)
    then show ?thesis using level_ok_RemoveOrder [OF assms(3), of h2 "o_ID (h p)"] by simp
  qed
  have step: "match_one px mint tk p (level, ms) =
     (let ms2 = ms\<lparr>ms_heap := h2, ms_qtyLeft := ms_qtyLeft ms - q,
          ms_trades := ms_trades ms @ [new_trade (mint (length (ms_trades ms))) (h2 tk) px q]\<rparr>
      in if o_FilledQuantity (h2 p) = o_Quantity (h2 p)
         then (snd (pl_RemoveOrder h2 (o_ID (h2 p)) level),
               ms2\<lparr>ms_ids := (ms_ids ms2)(o_ID (h2 p) := None), ms_heap := h2(p := zero_order)\<rparr>)
         else (level, ms2))"
    unfolding match_one_def Let_def prod.case assms(6) h2_def h1_def h_def ..
  have one: "match_one px mint tk p (level, ms) =
      (if q = remaining (h p) then snd (pl_RemoveOrder h2 (o_ID (h p)) level) else level,
       fill_state mint tk [(p, q)] ms)"
    unfolding step full Let_def h2(3) [of p] tr
    by (simp add: fill_state_def h_def [symmetric] heap ids)
  show ?thesis
    unfolding one using rm assms(3) by (auto simp: completed_def h_def)
qed

lemma match_makers_ref:
  assumes "distinct ps" and "tk \<notin> set ps" and "set ps \<subseteq> set vis" and "level_ok level vis"
    and "inj_on (\<lambda>p. o_ID (ms_heap ms p)) (set vis)" and "tk \<notin> set vis"
    and "\<And>p. p \<in> set ps \<Longrightarrow> 0 < remaining (ms_heap ms p) \<and> o_Price (ms_heap ms p) = px"
    and "0 < ms_qtyLeft ms"
    and "F = greedy (ms_heap ms) isBuy (ms_heap ms tk) (ms_qtyLeft ms) ps"
  shows "\<exists>level'. match_makers (Some px) mint isBuy tk ps (level, ms) =
      (ps \<noteq> [] \<and> no_cross isBuy (o_Price (ms_heap ms tk)) px, level', fill_state mint tk F ms) \<and>
    level_ok level' (filter (\<lambda>r. r \<notin> completed (ms_heap ms) F) vis)"
  using assms
proof (induction ps arbitrary: vis level ms F)
  case Nil
  then show ?case by simp
next
  case (Cons p ps)
  let ?h = "ms_heap ms"
  let ?q = "min (ms_qtyLeft ms) (remaining (?h p))"
  have pp: "0 < remaining (?h p)" "o_Price (?h p) = px" using Cons.prems(7) by auto
  have live: "\<not> o_FilledQuantity (?h p) \<ge> o_Quantity (?h p)" using pp(1) by (simp add: remaining_def)
  consider "no_cross isBuy (o_Price (?h tk)) px"
    | "\<not> no_cross isBuy (o_Price (?h tk)) px" "o_UserID (?h p) = o_UserID (?h tk)"
    | "\<not> no_cross isBuy (o_Price (?h tk)) px" "o_UserID (?h p) \<noteq> o_UserID (?h tk)" by blast
  then show ?case
  proof cases
    case 1
    then have "F = []" using Cons.prems(9) pp by simp
    then show ?thesis using 1 live Cons.prems(4) by simp
  next
    case 2
    have "F = greedy ?h isBuy (?h tk) (ms_qtyLeft ms) ps" using Cons.prems(9) pp 2 by simp
    then show ?thesis
      using Cons.IH [OF _ _ _ Cons.prems(4-6) _ Cons.prems(8), of F] Cons.prems(1-3,7) 2 live by (simp add: pp)
  next
    case 3
    note pne = Cons.prems(2)
    have ptk: "p \<noteq> tk" and pv: "p \<in> set vis" using Cons.prems(2,3) by auto
    obtain level1 where one: "match_one px mint tk p (level, ms) = (level1, fill_state mint tk [(p, ?q)] ms)"
      and ok1: "level_ok level1 (filter (\<lambda>r. r \<notin> completed ?h [(p, ?q)]) vis)"
      using match_one_ref [OF ptk pv Cons.prems(4,5) pp(2) refl] by blast
    show ?thesis
    proof (cases "ms_qtyLeft ms - ?q \<le> 0")
      case True
      then have "F = [(p, ?q)]" using Cons.prems(9) pp 3 by (simp add: Let_def)
      then show ?thesis using True 3 live one ok1 by (simp add: pp Let_def)
    next
      case False
      let ?ms1 = "fill_state mint tk [(p, ?q)] ms"
      let ?vis1 = "filter (\<lambda>r. r \<notin> completed ?h [(p, ?q)]) vis"
      define G where "G = greedy ?h isBuy (?h tk) (ms_qtyLeft ms - ?q) ps"
      have F: "F = (p, ?q) # G" using Cons.prems(9) pp 3 False by (simp add: Let_def G_def)
      have same: "ms_heap ?ms1 r = ?h r" if "r \<noteq> tk" "r \<noteq> p" for r
        using that fill_heap_other [of r tk "[(p, ?q)]" ?h] by simp
      have pc: "p \<in> completed ?h [(p, ?q)] \<longleftrightarrow> ?q = remaining (?h p)" by (auto simp: completed_def)
      have full: "?q = remaining (?h p)" using False by simp
      have ps_ne: "r \<noteq> tk \<and> r \<noteq> p" if "r \<in> set ps" for r using that Cons.prems(1,2) by auto
      have G1: "G = greedy (ms_heap ?ms1) isBuy (ms_heap ?ms1 tk) (ms_qtyLeft ?ms1) ps"
        unfolding G_def by (simp, rule greedy_cong) (use same ps_ne in auto)
      have inj1: "inj_on (\<lambda>r. o_ID (ms_heap ?ms1 r)) (set ?vis1)"
      proof -
        have "ms_heap ?ms1 r = ?h r" if "r \<in> set ?vis1" for r
          using that same [of r] pc full Cons.prems(6) by auto
        then show ?thesis using Cons.prems(5) by (auto simp: inj_on_def)
      qed
      have sub: "set ps \<subseteq> set ?vis1" using Cons.prems(1,3) by (auto simp: completed_def)
      obtain level' where rest: "match_makers (Some px) mint isBuy tk ps (level1, ?ms1) =
            (ps \<noteq> [] \<and> no_cross isBuy (o_Price (ms_heap ?ms1 tk)) px, level', fill_state mint tk G ?ms1)"
          and ok': "level_ok level' (filter (\<lambda>r. r \<notin> completed (ms_heap ?ms1) G) ?vis1)"
        using Cons.IH [OF _ _ sub ok1 inj1 _ _ _ G1] Cons.prems(1,2,6,7) same ps_ne False by force
      have Gp: "fst ` set G \<subseteq> set ps" unfolding G_def by (rule greedy_fst)
      have comp: "fill_state mint tk G ?ms1 = fill_state mint tk F ms"
        using fill_state_append [of tk G "[(p, ?q)]" mint ms] Gp Cons.prems(1,2) by (auto simp: F)
      have "completed (ms_heap ?ms1) G = completed ?h G"
        by (rule completed_cong) (use Gp same ps_ne in blast)
      then have "filter (\<lambda>r. r \<notin> completed (ms_heap ?ms1) G) ?vis1 = filter (\<lambda>r. r \<notin> completed ?h F) vis"
        unfolding F filter_filter using completed_append [of ?h "[(p, ?q)]" G] by (intro filter_cong) auto
      then show ?thesis using rest ok' comp one 3 live False by (simp add: pp Let_def)
    qed
  qed
qed

section \<open>The visit of the levels\<close>

definition tmap :: "'t book_env \<Rightarrow> 't \<Rightarrow> string \<rightharpoonup> price_level" where
  "tmap en t = map_of (bt_Ascend (en_tree en) t)"

lemma tree_laws:
  assumes "env_laws en"
  shows "bt_Get (en_tree en) k t = tmap en t k" and "tmap en (bt_Set (en_tree en) k v t) = (tmap en t)(k \<mapsto> v)"
    and "tmap en (bt_Delete (en_tree en) k t) = (tmap en t)(k := None)" and "tmap en (bt_New (en_tree en)) = Map.empty"
    and "distinct (map fst (bt_Ascend (en_tree en) t))" and "en_parse en (en_dstr en d) = Some d"
proof -
  have "sorted_wrt (<) (map fst (bt_Ascend (en_tree en) t))" using assms by (simp add: env_laws_def btree_laws_def)
  then show "distinct (map fst (bt_Ascend (en_tree en) t))" by (simp add: strict_sorted_iff)
qed (use assms in \<open>simp_all add: env_laws_def btree_laws_def tmap_def\<close>)

definition makers :: "(string \<times> price_level) list \<Rightarrow> nat list" where
  "makers items = concat (map (\<lambda>(k, l). pl_Orders l) items)"

lemma makers_simps [simp]: "makers [] = []" "makers ((k, l) # items) = pl_Orders l @ makers items"
  by (simp_all add: makers_def)

lemma makers_mem: "p \<in> set (makers items) \<longleftrightarrow> (\<exists>k l. (k, l) \<in> set items \<and> p \<in> set (pl_Orders l))"
  unfolding makers_def by force

text \<open>An item of the tree whose orders can match: open, at the price the key parses to, not the taker.\<close>

definition item_ok :: "'t book_env \<Rightarrow> nat \<Rightarrow> order_heap \<Rightarrow> string \<times> price_level \<Rightarrow> bool" where
  "item_ok en tk h = (\<lambda>(k, l). level_ok l (pl_Orders l) \<and>
     (\<forall>p \<in> set (pl_Orders l). en_parse en k = Some (o_Price (h p)) \<and> 0 < remaining (h p) \<and> p \<noteq> tk))"

lemma item_ok_cong: "(\<And>p. p \<in> set (pl_Orders (snd it)) \<Longrightarrow> h p = h' p) \<Longrightarrow> item_ok en tk h it = item_ok en tk h' it"
  by (cases it) (auto simp: item_ok_def)

text \<open>What the visit does to the tree: no key comes or goes, and each level loses the completed makers.\<close>

definition visited :: "'t book_env \<Rightarrow> nat set \<Rightarrow> 't \<Rightarrow> 't \<Rightarrow> bool" where
  "visited en C t t' \<longleftrightarrow> (\<forall>k. case tmap en t k of
      None \<Rightarrow> tmap en t' k = None
    | Some l \<Rightarrow> \<exists>l'. tmap en t' k = Some l' \<and>
        (l' = l \<and> set (pl_Orders l) \<inter> C = {} \<or> level_ok l' (filter (\<lambda>r. r \<notin> C) (pl_Orders l))))"

lemma match_level:
  assumes "item_ok en tk (ms_heap ms) (key, level)" and "distinct (pl_Orders level)"
    and "inj_on (\<lambda>p. o_ID (ms_heap ms p)) (set (pl_Orders level))" and "0 < ms_qtyLeft ms"
    and "G = greedy (ms_heap ms) isBuy (ms_heap ms tk) (ms_qtyLeft ms) (pl_Orders level)"
  obtains stopped level' where
    "match_makers (en_parse en key) mint isBuy tk (pl_Orders level) (level, ms) = (stopped, level', fill_state mint tk G ms)"
    and "level_ok level' (filter (\<lambda>r. r \<notin> completed (ms_heap ms) G) (pl_Orders level))"
    and "stopped \<longrightarrow> G = [] \<and> (\<forall>qs. greedy (ms_heap ms) isBuy (ms_heap ms tk) (ms_qtyLeft ms) (pl_Orders level @ qs) = [])"
    and "\<not> stopped \<longrightarrow> (\<forall>p \<in> set (pl_Orders level). \<not> no_cross isBuy (o_Price (ms_heap ms tk)) (o_Price (ms_heap ms p)))"
proof (cases "pl_Orders level")
  case Nil
  then have "G = []" using assms(5) by simp
  show ?thesis
    by (rule that [of False level]) (use Nil \<open>G = []\<close> assms(1) in \<open>auto simp: item_ok_def\<close>)
next
  case (Cons p ps)
  let ?px = "o_Price (ms_heap ms p)"
  have px: "en_parse en key = Some ?px" and all: "\<And>r. r \<in> set (pl_Orders level) \<Longrightarrow>
      0 < remaining (ms_heap ms r) \<and> o_Price (ms_heap ms r) = ?px \<and> r \<noteq> tk"
    using assms(1) Cons by (auto simp: item_ok_def)
  have ok: "level_ok level (pl_Orders level)" using assms(1) by (simp add: item_ok_def)
  obtain level' where m: "match_makers (Some ?px) mint isBuy tk (pl_Orders level) (level, ms) =
      (pl_Orders level \<noteq> [] \<and> no_cross isBuy (o_Price (ms_heap ms tk)) ?px, level', fill_state mint tk G ms)"
    and l': "level_ok level' (filter (\<lambda>r. r \<notin> completed (ms_heap ms) G) (pl_Orders level))"
    using match_makers_ref [OF assms(2) _ subset_refl ok assms(3) _ _ assms(4,5), of ?px mint] all by blast
  show ?thesis
  proof (rule that)
    show "match_makers (en_parse en key) mint isBuy tk (pl_Orders level) (level, ms) =
        (no_cross isBuy (o_Price (ms_heap ms tk)) ?px, level', fill_state mint tk G ms)"
      using m Cons px by simp
    show "level_ok level' (filter (\<lambda>r. r \<notin> completed (ms_heap ms) G) (pl_Orders level))" by (rule l')
    show "no_cross isBuy (o_Price (ms_heap ms tk)) ?px \<longrightarrow>
        G = [] \<and> (\<forall>qs. greedy (ms_heap ms) isBuy (ms_heap ms tk) (ms_qtyLeft ms) (pl_Orders level @ qs) = [])"
      using Cons assms(5) by simp
    show "\<not> no_cross isBuy (o_Price (ms_heap ms tk)) ?px \<longrightarrow>
        (\<forall>p \<in> set (pl_Orders level). \<not> no_cross isBuy (o_Price (ms_heap ms tk)) (o_Price (ms_heap ms p)))"
      using all by simp
  qed
qed

lemma visited_Some:
  assumes "visited en C t t'" and "tmap en t k = Some l"
  shows "\<exists>l'. tmap en t' k = Some l' \<and>
    (l' = l \<and> set (pl_Orders l) \<inter> C = {} \<or> level_ok l' (filter (\<lambda>r. r \<notin> C) (pl_Orders l)))"
  using assms(1) [unfolded visited_def, rule_format, of k] assms(2) by simp

lemma visited_None: "visited en C t t' \<Longrightarrow> tmap en t k = None \<Longrightarrow> tmap en t' k = None"
  unfolding visited_def by (drule spec [of _ k]) simp

lemma visited_trans:
  assumes "visited en C t t1" and "visited en D t1 t2"
  shows "visited en (C \<union> D) t t2"
proof -
  have "\<exists>l2. tmap en t2 k = Some l2 \<and> (l2 = l \<and> set (pl_Orders l) \<inter> (C \<union> D) = {} \<or>
      level_ok l2 (filter (\<lambda>r. r \<notin> C \<union> D) (pl_Orders l)))" if l: "tmap en t k = Some l" for k l
  proof -
    obtain l1 where l1: "tmap en t1 k = Some l1"
      "l1 = l \<and> set (pl_Orders l) \<inter> C = {} \<or> level_ok l1 (filter (\<lambda>r. r \<notin> C) (pl_Orders l))"
      using visited_Some [OF assms(1) l] by blast
    obtain l2 where l2: "tmap en t2 k = Some l2"
      "l2 = l1 \<and> set (pl_Orders l1) \<inter> D = {} \<or> level_ok l2 (filter (\<lambda>r. r \<notin> D) (pl_Orders l1))"
      using visited_Some [OF assms(2) l1(1)] by blast
    have f1: "filter (\<lambda>r. r \<notin> D) (pl_Orders l) = filter (\<lambda>r. r \<notin> C \<union> D) (pl_Orders l)"
      if "set (pl_Orders l) \<inter> C = {}" using that by (intro filter_cong) auto
    have f2: "filter (\<lambda>r. r \<notin> C) (pl_Orders l) = filter (\<lambda>r. r \<notin> C \<union> D) (pl_Orders l)"
      if "level_ok l1 (filter (\<lambda>r. r \<notin> C) (pl_Orders l))" "set (pl_Orders l1) \<inter> D = {}"
      using that level_ok_Orders [OF that(1)] by (intro filter_cong) auto
    have f3: "filter (\<lambda>r. r \<notin> D) (pl_Orders l1) = filter (\<lambda>r. r \<notin> C \<union> D) (pl_Orders l)"
      if "level_ok l1 (filter (\<lambda>r. r \<notin> C) (pl_Orders l))"
      unfolding level_ok_Orders [OF that] filter_filter by (intro filter_cong) auto
    show ?thesis using l1(2) l2 f1 f2 f3 by (intro exI [of _ l2]) fastforce
  qed
  moreover have "tmap en t2 k = None" if "tmap en t k = None" for k
    using visited_None [OF assms(2) visited_None [OF assms(1) that]] .
  ultimately show ?thesis unfolding visited_def by (auto split: option.splits)
qed

lemma visited_empty:
  assumes "visited en C t t'" and "tmap en t k = Some l" and "pl_Orders l = []"
  shows "\<exists>l'. tmap en t' k = Some l' \<and> pl_Orders l' = []"
proof -
  obtain l' where "tmap en t' k = Some l'"
    "l' = l \<or> level_ok l' (filter (\<lambda>r. r \<notin> C) (pl_Orders l))"
    using visited_Some [OF assms(1,2)] by blast
  then show ?thesis using assms(3) level_ok_Orders by fastforce
qed

lemma match_levels_ref:
  assumes "env_laws en" and "distinct (map fst items)" and "distinct (makers items)"
    and "inj_on (\<lambda>p. o_ID (ms_heap ms p)) (set (makers items))"
    and "\<And>it. it \<in> set items \<Longrightarrow> item_ok en tk (ms_heap ms) it"
    and "\<And>k l. (k, l) \<in> set items \<Longrightarrow> tmap en t k = Some l"
    and "\<And>k l. tmap en t k = Some l \<Longrightarrow> k \<notin> fst ` set items \<Longrightarrow> set (pl_Orders l) \<inter> set (makers items) = {}"
    and "0 < ms_qtyLeft ms"
    and "F = greedy (ms_heap ms) isBuy (ms_heap ms tk) (ms_qtyLeft ms) (makers items)"
  shows "\<exists>t' gone. match_levels en mint isBuy tk items (t, ms) toRemove = ((t', fill_state mint tk F ms), toRemove @ gone) \<and>
    visited en (completed (ms_heap ms) F) t t' \<and>
    (\<forall>k \<in> set gone. \<exists>l. tmap en t' k = Some l \<and> pl_Orders l = [])"
  using assms(2-9)
proof (induction items arbitrary: t ms F toRemove)
  case Nil
  then have "visited en (completed (ms_heap ms) F) t t" by (auto simp: visited_def split: option.splits)
  then show ?case using Nil by simp
next
  case (Cons item items)
  obtain key level where item: "item = (key, level)" by (metis surj_pair)
  let ?h = "ms_heap ms" and ?ps = "pl_Orders level"
  define G where "G = greedy ?h isBuy (?h tk) (ms_qtyLeft ms) ?ps"
  have ps: "distinct ?ps" "inj_on (\<lambda>p. o_ID (?h p)) (set ?ps)" "set ?ps \<inter> set (makers items) = {}"
    using Cons.prems(2,3) by (auto simp: item inj_on_def)
  have iok: "item_ok en tk ?h (key, level)" using Cons.prems(4) item by simp
  have pos: "0 < remaining (?h p)" if "p \<in> set ?ps" for p using iok that by (auto simp: item_ok_def)
  obtain stopped level' where mm: "match_makers (en_parse en key) mint isBuy tk ?ps (level, ms) =
        (stopped, level', fill_state mint tk G ms)"
    and ok': "level_ok level' (filter (\<lambda>r. r \<notin> completed ?h G) ?ps)"
    and stop: "stopped \<longrightarrow> G = [] \<and> (\<forall>qs. greedy ?h isBuy (?h tk) (ms_qtyLeft ms) (?ps @ qs) = [])"
    and go: "\<not> stopped \<longrightarrow> (\<forall>p \<in> set ?ps. \<not> no_cross isBuy (o_Price (?h tk)) (o_Price (?h p)))"
    by (rule match_level [where mint = mint, OF iok ps(1,2) Cons.prems(7) G_def], rule that)
  let ?t1 = "bt_Set (en_tree en) key level' t"
  have tk0: "tmap en t key = Some level" using Cons.prems(5) item by simp
  have t1: "tmap en ?t1 = (tmap en t)(key \<mapsto> level')" by (rule tree_laws(2) [OF assms(1)])
  have Gps: "completed ?h G \<subseteq> set ?ps" unfolding G_def by (rule completed_greedy)
  have others: "set (pl_Orders l) \<inter> set ?ps = {}" if "tmap en t k = Some l" "k \<noteq> key" for k l
  proof (cases "k \<in> fst ` set items")
    case True
    then have "(k, l) \<in> set items" using Cons.prems(5) that(1) by (force simp: item)
    then have "set (pl_Orders l) \<subseteq> set (makers items)" by (auto simp: makers_def)
    then show ?thesis using ps(3) by auto
  next
    case False
    then have "set (pl_Orders l) \<inter> set (makers (item # items)) = {}"
      using Cons.prems(6) that by (simp add: item)
    then show ?thesis by (auto simp: item)
  qed
  have vis1: "visited en (completed ?h G) t ?t1"
    unfolding visited_def t1 using ok' tk0 others Gps by (auto split: option.splits)
  define gone1 where "gone1 = (if \<not> stopped \<and> pl_Len level' = 0 then [key] else [])"
  have gone1: "\<forall>k \<in> set gone1. \<exists>l. tmap en ?t1 k = Some l \<and> pl_Orders l = []"
    using level_ok_Len [OF ok'] level_ok_Orders [OF ok'] by (simp add: gone1_def t1)
  show ?case
  proof (cases "stopped \<or> ms_qtyLeft ms - filled_sum G \<le> 0")
    case True
    have "F = G"
    proof (cases stopped)
      case True
      then show ?thesis using stop Cons.prems(8) by (simp add: item)
    next
      case False
      then show ?thesis
        using greedy_append [OF Cons.prems(7), of ?ps isBuy "?h tk" ?h "makers items"] go pos True Cons.prems(8)
        by (simp add: item G_def [symmetric])
    qed
    moreover have "match_levels en mint isBuy tk (item # items) (t, ms) toRemove =
        ((?t1, fill_state mint tk G ms), toRemove @ gone1)"
      using True mm by (simp add: item gone1_def)
    ultimately show ?thesis using vis1 gone1 by blast
  next
    case False
    let ?ms1 = "fill_state mint tk G ms"
    define F' where "F' = greedy ?h isBuy (?h tk) (ms_qtyLeft ms - filled_sum G) (makers items)"
    have F: "F = G @ F'"
      using greedy_append [OF Cons.prems(7), of ?ps isBuy "?h tk" ?h "makers items"] go pos False Cons.prems(8)
      by (simp add: item G_def [symmetric] F'_def)
    have Gm: "fst ` set G \<subseteq> set ?ps" unfolding G_def by (rule greedy_fst)
    have same: "ms_heap ?ms1 p = ?h p" if pm: "p \<in> set (makers items)" for p
    proof -
      obtain k l where kl: "(k, l) \<in> set items" "p \<in> set (pl_Orders l)" using pm by (auto simp: makers_mem)
      then have "p \<noteq> tk" using Cons.prems(4) [of "(k, l)"] by (auto simp: item_ok_def)
      moreover have "p \<notin> fst ` set G" using pm ps(3) Gm by auto
      ultimately show ?thesis using fill_heap_other by simp
    qed
    have F'1: "F' = greedy (ms_heap ?ms1) isBuy (ms_heap ?ms1 tk) (ms_qtyLeft ?ms1) (makers items)"
      unfolding F'_def by (simp, rule greedy_cong) (use same in auto)
    have c1: "distinct (map fst items)" "distinct (makers items)" using Cons.prems(1,2) by (auto simp: item)
    have c2: "inj_on (\<lambda>p. o_ID (ms_heap ?ms1 p)) (set (makers items))"
    proof -
      have "inj_on (\<lambda>p. o_ID (?h p)) (set (makers items))"
        by (rule inj_on_subset [OF Cons.prems(3)]) (simp add: item)
      then show ?thesis by (rule inj_on_cong [THEN iffD1, rotated]) (simp only: same)
    qed
    have c3: "item_ok en tk (ms_heap ?ms1) it" if it: "it \<in> set items" for it
    proof -
      have "ms_heap ?ms1 p = ?h p" if "p \<in> set (pl_Orders (snd it))" for p
        by (rule same) (use it that in \<open>auto simp only: makers_mem prod.collapse intro!: exI [of _ "fst it"] exI [of _ "snd it"]\<close>)
      from item_ok_cong [where en = en and tk = tk, OF this] show ?thesis using Cons.prems(4) [of it] it by simp
    qed
    have c4: "tmap en ?t1 k = Some l" if "(k, l) \<in> set items" for k l
      using Cons.prems(1,5) that by (force simp: t1 item)
    have c5: "set (pl_Orders l) \<inter> set (makers items) = {}"
      if "tmap en ?t1 k = Some l" "k \<notin> fst ` set items" for k l
    proof (cases "k = key")
      case True
      then have "set (pl_Orders l) \<subseteq> set ?ps" using that(1) level_ok_Orders [OF ok'] by (auto simp: t1)
      then show ?thesis using ps(3) by auto
    next
      case False
      then have "tmap en t k = Some l" and "k \<notin> fst ` set (item # items)" using that by (auto simp: t1 item)
      then show ?thesis using Cons.prems(6) by (auto simp: item)
    qed
    have c6: "0 < ms_qtyLeft ?ms1" using False by simp
    have "\<exists>t' gone. match_levels en mint isBuy tk items (?t1, ?ms1) (toRemove @ gone1) =
          ((t', fill_state mint tk F' ?ms1), (toRemove @ gone1) @ gone) \<and>
        visited en (completed (ms_heap ?ms1) F') ?t1 t' \<and>
        (\<forall>k \<in> set gone. \<exists>l. tmap en t' k = Some l \<and> pl_Orders l = [])"
      by (rule Cons.IH) (fact c1 | fact c2 | erule c3 | erule c4 | erule (1) c5 | fact c6 | fact F'1)+
    then
    obtain t' gone where rest: "match_levels en mint isBuy tk items (?t1, ?ms1) (toRemove @ gone1) =
          ((t', fill_state mint tk F' ?ms1), (toRemove @ gone1) @ gone)"
      and v: "visited en (completed (ms_heap ?ms1) F') ?t1 t'"
      and g: "\<forall>k \<in> set gone. \<exists>l. tmap en t' k = Some l \<and> pl_Orders l = []" by blast
    have F'm: "fst ` set F' \<subseteq> set (makers items)" unfolding F'_def by (rule greedy_fst)
    have tkF': "tk \<notin> fst ` set F'"
    proof
      assume "tk \<in> fst ` set F'"
      then have "tk \<in> set (makers items)" using F'm by blast
      then obtain k l where "(k, l) \<in> set items" "tk \<in> set (pl_Orders l)" by (auto simp: makers_mem)
      then show False using Cons.prems(4) [of "(k, l)"] by (auto simp: item_ok_def)
    qed
    have comp: "fill_state mint tk F' ?ms1 = fill_state mint tk F ms"
      unfolding F by (rule fill_state_append [OF tkF']) (use Gm F'm ps(3) in auto)
    have C': "completed (ms_heap ?ms1) F' = completed ?h F'" by (rule completed_cong) (use F'm same in auto)
    have C: "completed ?h F = completed ?h G \<union> completed (ms_heap ?ms1) F'"
      unfolding F C' by (rule completed_append)
    have "match_levels en mint isBuy tk (item # items) (t, ms) toRemove =
        ((t', fill_state mint tk F ms), toRemove @ (gone1 @ gone))"
      using False mm rest comp by (cases "pl_Len level' = 0") (simp_all add: item gone1_def)
    moreover have "visited en (completed ?h F) t t'" unfolding C by (rule visited_trans [OF vis1 v])
    moreover have "\<forall>k \<in> set (gone1 @ gone). \<exists>l. tmap en t' k = Some l \<and> pl_Orders l = []"
      using g gone1 visited_empty [OF v] by auto
    ultimately show ?thesis by blast
  qed
qed

section \<open>The invariant of the book\<close>

text \<open>
  Every order seen in a side is in the level of its price, on that side, open, and found under its ID.
  The index may hold more: the orders that a full ring has lost.
\<close>

definition side_ok :: "'t book_env \<Rightarrow> bool \<Rightarrow> order_heap \<Rightarrow> (uuid \<rightharpoonup> nat) \<Rightarrow> 't \<Rightarrow> bool" where
  "side_ok en buy h ids t \<longleftrightarrow> (\<forall>k l. tmap en t k = Some l \<longrightarrow>
     level_ok l (pl_Orders l) \<and> distinct (pl_Orders l) \<and>
     (\<forall>p \<in> set (pl_Orders l). k = en_dstr en (o_Price (h p)) \<and> (o_Side (h p) = ''BUY'' \<longleftrightarrow> buy) \<and>
        0 < remaining (h p) \<and> ids (o_ID (h p)) = Some p))"

definition book_ok :: "'t book_env \<Rightarrow> 't order_book \<Rightarrow> bool" where
  "book_ok en ob \<longleftrightarrow> side_ok en True (ob_heap ob) (ob_ordersByID ob) (ob_bids ob) \<and>
     side_ok en False (ob_heap ob) (ob_ordersByID ob) (ob_asks ob)"

lemma side_okD:
  assumes "side_ok en buy h ids t" and "tmap en t k = Some l"
  shows "level_ok l (pl_Orders l)" and "distinct (pl_Orders l)"
    and "p \<in> set (pl_Orders l) \<Longrightarrow> k = en_dstr en (o_Price (h p))"
    and "p \<in> set (pl_Orders l) \<Longrightarrow> o_Side (h p) = ''BUY'' \<longleftrightarrow> buy"
    and "p \<in> set (pl_Orders l) \<Longrightarrow> 0 < remaining (h p)"
    and "p \<in> set (pl_Orders l) \<Longrightarrow> ids (o_ID (h p)) = Some p"
  using assms unfolding side_ok_def by blast+

abbreviation (input) side_makers :: "'t book_env \<Rightarrow> 't \<Rightarrow> nat list" where
  "side_makers en t \<equiv> makers (bt_Ascend (en_tree en) t)"

lemma side_maker_iff: "env_laws en \<Longrightarrow>
    p \<in> set (side_makers en t) \<longleftrightarrow> (\<exists>k l. tmap en t k = Some l \<and> p \<in> set (pl_Orders l))"
  using tree_laws(5) [of en t] by (auto simp: makers_mem tmap_def map_of_eq_Some_iff)

lemma distinct_makers:
  "distinct (map fst items) \<Longrightarrow> (\<And>k l. (k, l) \<in> set items \<Longrightarrow> distinct (pl_Orders l)) \<Longrightarrow>
   (\<And>k l p. (k, l) \<in> set items \<Longrightarrow> p \<in> set (pl_Orders l) \<Longrightarrow> f p = k) \<Longrightarrow> distinct (makers items)"
proof (induction items)
  case (Cons item items)
  obtain k l where item: "item = (k, l)" by (metis surj_pair)
  have "set (pl_Orders l) \<inter> set (makers items) = {}"
  proof (rule ccontr)
    assume "set (pl_Orders l) \<inter> set (makers items) \<noteq> {}"
    then obtain p k' l' where p: "p \<in> set (pl_Orders l)" "(k', l') \<in> set items" "p \<in> set (pl_Orders l')"
      by (auto simp: makers_mem)
    then have "k' = k" using Cons.prems(3) [of k l p] Cons.prems(3) [of k' l' p] by (simp add: item)
    then show False using Cons.prems(1) p(2) by (force simp: item)
  qed
  moreover have "distinct (makers items)"
  proof (rule Cons.IH)
    show "distinct (map fst items)" using Cons.prems(1) by simp
    show "distinct (pl_Orders l)" if "(k, l) \<in> set items" for k l
      by (rule Cons.prems(2) [of k]) (use that in simp)
    show "f p = k" if "(k, l) \<in> set items" "p \<in> set (pl_Orders l)" for k l p
      by (rule Cons.prems(3) [OF _ that(2)]) (use that in simp)
  qed
  moreover have "distinct (pl_Orders l)" using Cons.prems(2) [of k l] by (simp add: item)
  ultimately show ?case by (simp add: item)
qed simp

lemma side_facts:
  assumes "env_laws en" and "side_ok en buy h ids t"
  shows "distinct (side_makers en t)" and "inj_on (\<lambda>p. o_ID (h p)) (set (side_makers en t))"
    and "tk \<notin> ran ids \<Longrightarrow> it \<in> set (bt_Ascend (en_tree en) t) \<Longrightarrow> item_ok en tk h it"
    and "(k, l) \<in> set (bt_Ascend (en_tree en) t) \<Longrightarrow> tmap en t k = Some l"
    and "p \<in> set (side_makers en t) \<Longrightarrow> 0 < remaining (h p) \<and> ids (o_ID (h p)) = Some p \<and> (o_Side (h p) = ''BUY'' \<longleftrightarrow> buy)"
proof -
  have items: "(k, l) \<in> set (bt_Ascend (en_tree en) t) \<longleftrightarrow> tmap en t k = Some l" for k l
    using tree_laws(5) [OF assms(1)] by (simp add: tmap_def map_of_eq_Some_iff)
  show "distinct (side_makers en t)"
    by (rule distinct_makers [OF tree_laws(5) [OF assms(1)], of t "\<lambda>p. en_dstr en (o_Price (h p))"])
      (use items side_okD [OF assms(2)] in metis)+
  show ids: "p \<in> set (side_makers en t) \<Longrightarrow> 0 < remaining (h p) \<and> ids (o_ID (h p)) = Some p \<and> (o_Side (h p) = ''BUY'' \<longleftrightarrow> buy)" for p
    using side_okD [OF assms(2)] by (auto simp: side_maker_iff [OF assms(1)])
  show "inj_on (\<lambda>p. o_ID (h p)) (set (side_makers en t))"
    using ids by (intro inj_onI) (metis option.inject)
  show "(k, l) \<in> set (bt_Ascend (en_tree en) t) \<Longrightarrow> tmap en t k = Some l" by (simp add: items)
  show "item_ok en tk h it" if tk: "tk \<notin> ran ids" and it: "it \<in> set (bt_Ascend (en_tree en) t)"
  proof -
    obtain k l where kl: "it = (k, l)" "tmap en t k = Some l" using it items by (metis surj_pair)
    note d = side_okD [OF assms(2) kl(2)]
    have "p \<noteq> tk" if "p \<in> set (pl_Orders l)" for p using d(6) [OF that] tk by (auto simp: ran_def)
    moreover have "en_parse en k = Some (o_Price (h p))" if "p \<in> set (pl_Orders l)" for p
      using d(3) [OF that] tree_laws(6) [OF assms(1)] by simp
    ultimately show ?thesis using d(1,5) by (simp add: item_ok_def kl(1))
  qed
qed

lemma delete_levels_map: "env_laws en \<Longrightarrow>
    tmap en (delete_levels en ks t) k = (if k \<in> set ks then None else tmap en t k)"
  by (induction ks arbitrary: t) (auto simp: tree_laws split: option.splits)

section \<open>The abstract side of a book\<close>

text \<open>What a side means: for each price text the queue of its orders.\<close>

definition queues :: "'t book_env \<Rightarrow> 't \<Rightarrow> string \<Rightarrow> nat list" where
  "queues en t k = (case tmap en t k of None \<Rightarrow> [] | Some l \<Rightarrow> pl_Orders l)"

lemma queues_simps [simp]:
  "tmap en t k = None \<Longrightarrow> queues en t k = []" "tmap en t k = Some l \<Longrightarrow> queues en t k = pl_Orders l"
  by (simp_all add: queues_def)

lemma visited_queues: "visited en C t t' \<Longrightarrow> queues en t' k = filter (\<lambda>r. r \<notin> C) (queues en t k)"
proof (cases "tmap en t k")
  case None
  then show "visited en C t t' \<Longrightarrow> ?thesis" using visited_None by fastforce
next
  case (Some l)
  assume "visited en C t t'"
  then obtain l' where l': "tmap en t' k = Some l'"
    "l' = l \<and> set (pl_Orders l) \<inter> C = {} \<or> level_ok l' (filter (\<lambda>r. r \<notin> C) (pl_Orders l))"
    using visited_Some [OF _ Some] by blast
  have "filter (\<lambda>r. r \<notin> C) (pl_Orders l) = pl_Orders l" if "set (pl_Orders l) \<inter> C = {}"
    using that by (intro filter_True) auto
  then show ?thesis using Some l' level_ok_Orders by auto
qed

lemma delete_queues:
  assumes "env_laws en" and "\<And>k. k \<in> set gone \<Longrightarrow> \<exists>l. tmap en t k = Some l \<and> pl_Orders l = []"
  shows "queues en (delete_levels en gone t) k = queues en t k"
  using assms(2) [of k] by (auto simp: queues_def delete_levels_map [OF assms(1)])

lemma place_queues:
  assumes laws: "env_laws en" and s: "side_ok en buy h ids t"
  shows "queues en (place_order en price tk t) k =
    (if k = en_dstr en price then (if length (queues en t k) = 255 then [] else queues en t k @ [tk])
     else queues en t k)"
proof -
  let ?k = "en_dstr en price"
  define l0 where "l0 = (case tmap en t ?k of Some l \<Rightarrow> l | None \<Rightarrow> new_level\<lparr>pl_Price := ?k\<rparr>)"
  have l0: "level_ok l0 (queues en t ?k)"
    using side_okD(1) [OF s, of ?k] by (auto simp: l0_def level_ok_def new_level_def queues_def split: option.splits)
  have t': "tmap en (place_order en price tk t) = (tmap en t)(?k \<mapsto> pl_AddOrder tk l0)"
    by (simp add: place_order_def Let_def tree_laws [OF laws] l0_def)
  show ?thesis using level_ok_Orders [OF level_ok_AddOrder [OF l0, of tk]] by (simp add: queues_def t')
qed

section \<open>Adding an order\<close>

text \<open>The fills of a taker that is not in the book, against the other side.\<close>

definition taker_fills :: "'t book_env \<Rightarrow> order_heap \<Rightarrow> (uuid \<rightharpoonup> nat) \<Rightarrow> 't \<Rightarrow> bool \<Rightarrow> nat \<Rightarrow>
    (nat \<times> decimal) list \<Rightarrow> bool" where
  "taker_fills en h ids opp buy tk F \<longleftrightarrow> env_laws en \<and> side_ok en (\<not> buy) h ids opp \<and> tk \<notin> ran ids \<and>
     0 < remaining (h tk) \<and> F = greedy h buy (h tk) (remaining (h tk)) (side_makers en opp)"

lemma taker_fillsD:
  assumes "taker_fills en h ids opp buy tk F"
  shows "env_laws en" and "side_ok en (\<not> buy) h ids opp" and "tk \<notin> ran ids" and "0 < remaining (h tk)"
    and "F = greedy h buy (h tk) (remaining (h tk)) (side_makers en opp)"
  using assms by (simp_all add: taker_fills_def)

lemma fill_ok:
  assumes T: "taker_fills en h ids opp buy tk F" and "(p, q) \<in> set F"
  shows "p \<in> set (side_makers en opp)" and "0 < q" and "q \<le> remaining (h p)"
proof -
  note t = taker_fillsD [OF T]
  note m = assms(2) [unfolded t(5)]
  show "p \<in> set (side_makers en opp)" by (rule greedy_mem [OF m])
  have pos: "0 < remaining (h r)" if "r \<in> set (side_makers en opp)" for r
    using side_facts(5) [OF t(1,2) that] by simp
  show "0 < q" and "q \<le> remaining (h p)" using greedy_fills [OF t(4) pos m] by auto
qed

lemma fill_maker:
  assumes T: "taker_fills en h ids opp buy tk F" and "p \<in> fst ` set F"
  shows "p \<in> set (side_makers en opp)" and "p \<noteq> tk" and "ids (o_ID (h p)) = Some p"
proof -
  note t = taker_fillsD [OF T]
  obtain q where "(p, q) \<in> set F" using assms(2) by auto
  then show m: "p \<in> set (side_makers en opp)" by (rule fill_ok(1) [OF T])
  then show "ids (o_ID (h p)) = Some p" using side_facts(5) [OF t(1,2)] by blast
  then show "p \<noteq> tk" using t(3) by (auto simp: ran_def)
qed

lemma distinct_fills: "taker_fills en h ids opp buy tk F \<Longrightarrow> distinct (map fst F)"
  using taker_fillsD(5) greedy_distinct [OF side_facts(1) [OF taker_fillsD(1,2)]] by metis

text \<open>An order that is not completed keeps its identity and stays open.\<close>

lemma kept:
  assumes T: "taker_fills en h ids opp buy tk F" and "p \<noteq> tk" and "p \<notin> completed h F"
  shows "o_ID (fill_heap tk F h p) = o_ID (h p)" and "o_Price (fill_heap tk F h p) = o_Price (h p)"
    and "o_Side (fill_heap tk F h p) = o_Side (h p)"
    and "0 < remaining (h p) \<Longrightarrow> 0 < remaining (fill_heap tk F h p)"
proof -
  have q: "q \<noteq> remaining (h p) \<and> q \<le> remaining (h p)" if "map_of F p = Some q" for q
    using map_of_SomeD [OF that] fill_ok(3) [OF T] assms(3) by (auto simp: completed_def)
  show "o_ID (fill_heap tk F h p) = o_ID (h p)" and "o_Price (fill_heap tk F h p) = o_Price (h p)"
    and "o_Side (fill_heap tk F h p) = o_Side (h p)"
    using assms(2) q by (auto simp: fill_heap_def split: option.splits)
  show "0 < remaining (h p) \<Longrightarrow> 0 < remaining (fill_heap tk F h p)"
    using assms(2) q by (force simp: fill_heap_def remaining_def split: option.splits)
qed

lemma kept_id:
  assumes T: "taker_fills en h ids opp buy tk F" and "ids (o_ID (h p)) = Some p" and "p \<notin> completed h F"
  shows "fill_ids h F ids (o_ID (h p)) = Some p"
proof -
  have "o_ID (h p') \<noteq> o_ID (h p)" if "p' \<in> completed h F" for p'
  proof
    assume "o_ID (h p') = o_ID (h p)"
    then have "Some p' = Some p" using fill_maker(3) [OF T completed_mem [OF that]] assms(2) by metis
    then have "p' = p" by simp
    then show False using that assms(3) by simp
  qed
  then have "\<not> (\<exists>p' \<in> completed h F. o_ID (h p') = o_ID (h p))" by blast
  then show ?thesis using assms(2) by (simp add: fill_ids_def)
qed

lemma opp_after:
  assumes T: "taker_fills en h ids opp buy tk F" and "visited en (completed h F) opp t'"
    and "\<And>k l. tmap en t'' k = Some l \<Longrightarrow> tmap en t' k = Some l"
  shows "side_ok en (\<not> buy) (fill_heap tk F h) (fill_ids h F ids) t''"
  unfolding side_ok_def
proof (intro allI impI)
  fix k l' assume "tmap en t'' k = Some l'"
  then have l': "tmap en t' k = Some l'" by (rule assms(3))
  then obtain l where l: "tmap en opp k = Some l" using visited_None [OF assms(2)] by (metis not_Some_eq)
  note t = taker_fillsD [OF T]
  note d = side_okD [OF t(2) l]
  from visited_Some [OF assms(2) l] l' have c:
    "l' = l \<and> set (pl_Orders l) \<inter> completed h F = {} \<or>
     level_ok l' (filter (\<lambda>r. r \<notin> completed h F) (pl_Orders l))" by simp
  then have ords: "level_ok l' (pl_Orders l') \<and> distinct (pl_Orders l') \<and>
    set (pl_Orders l') \<subseteq> set (pl_Orders l) - completed h F"
  proof
    assume "l' = l \<and> set (pl_Orders l) \<inter> completed h F = {}"
    then show ?thesis using d(1,2) by auto
  next
    assume f: "level_ok l' (filter (\<lambda>r. r \<notin> completed h F) (pl_Orders l))"
    then show ?thesis using d(2) level_ok_Orders [OF f] by auto
  qed
  have "k = en_dstr en (o_Price (fill_heap tk F h p)) \<and> (o_Side (fill_heap tk F h p) = ''BUY'' \<longleftrightarrow> \<not> buy) \<and>
      0 < remaining (fill_heap tk F h p) \<and> fill_ids h F ids (o_ID (fill_heap tk F h p)) = Some p"
    if p: "p \<in> set (pl_Orders l')" for p
  proof -
    have pl: "p \<in> set (pl_Orders l)" and nc: "p \<notin> completed h F" using p ords by auto
    have "p \<noteq> tk" using d(6) [OF pl] t(3) by (auto simp: ran_def)
    note k = kept [OF T this nc]
    show ?thesis using k d(3-5) [OF pl] kept_id [OF T d(6) [OF pl] nc] by simp
  qed
  then show "level_ok l' (pl_Orders l') \<and> distinct (pl_Orders l') \<and>
      (\<forall>p \<in> set (pl_Orders l'). k = en_dstr en (o_Price (fill_heap tk F h p)) \<and>
         (o_Side (fill_heap tk F h p) = ''BUY'' \<longleftrightarrow> \<not> buy) \<and> 0 < remaining (fill_heap tk F h p) \<and>
         fill_ids h F ids (o_ID (fill_heap tk F h p)) = Some p)"
    using ords by blast
qed

lemma own_after:
  assumes T: "taker_fills en h ids opp buy tk F" and own: "side_ok en buy h ids own"
  shows "side_ok en buy (fill_heap tk F h) (fill_ids h F ids) own"
  unfolding side_ok_def
proof (intro allI impI conjI ballI)
  fix k l assume l: "tmap en own k = Some l"
  note t = taker_fillsD [OF T]
  note d = side_okD [OF own l]
  show "level_ok l (pl_Orders l)" "distinct (pl_Orders l)" using d by auto
  fix p assume p: "p \<in> set (pl_Orders l)"
  have ntk: "p \<noteq> tk" using d(6) [OF p] t(3) by (auto simp: ran_def)
  have nF: "p \<notin> fst ` set F"
    using fill_maker(1) [OF T] side_facts(5) [OF t(1,2), of p] d(4) [OF p] by blast
  have nc: "p \<notin> completed h F" using nF completed_mem by blast
  have "fill_heap tk F h p = h p" by (rule fill_heap_other [OF ntk nF])
  then show "k = en_dstr en (o_Price (fill_heap tk F h p))" "0 < remaining (fill_heap tk F h p)"
    "(o_Side (fill_heap tk F h p) = ''BUY'') = buy" "fill_ids h F ids (o_ID (fill_heap tk F h p)) = Some p"
    using d(3-5) [OF p] kept_id [OF T d(6) [OF p] nc] by simp_all
qed

lemma side_ok_ids: "side_ok en buy h ids t \<Longrightarrow> ids i = None \<Longrightarrow> side_ok en buy h (ids(i \<mapsto> p)) t"
  unfolding side_ok_def
proof (intro allI impI)
  fix k l
  assume s: "\<forall>k l. tmap en t k = Some l \<longrightarrow> level_ok l (pl_Orders l) \<and> distinct (pl_Orders l) \<and>
     (\<forall>p \<in> set (pl_Orders l). k = en_dstr en (o_Price (h p)) \<and> (o_Side (h p) = ''BUY'' \<longleftrightarrow> buy) \<and>
        0 < remaining (h p) \<and> ids (o_ID (h p)) = Some p)"
    and "ids i = None" and l: "tmap en t k = Some l"
  then have "o_ID (h p) \<noteq> i" if "p \<in> set (pl_Orders l)" for p using that by force
  then show "level_ok l (pl_Orders l) \<and> distinct (pl_Orders l) \<and>
     (\<forall>q \<in> set (pl_Orders l). k = en_dstr en (o_Price (h q)) \<and> (o_Side (h q) = ''BUY'' \<longleftrightarrow> buy) \<and>
        0 < remaining (h q) \<and> (ids(i \<mapsto> p)) (o_ID (h q)) = Some q)"
    using s [rule_format, OF l] by simp
qed

lemma place_ok:
  assumes laws: "env_laws en" and s: "side_ok en buy h ids t" and "ids (o_ID (h tk)) = None" and "tk \<notin> ran ids"
    and "o_Side (h tk) = ''BUY'' \<longleftrightarrow> buy" and "0 < remaining (h tk)"
  shows "side_ok en buy h (ids(o_ID (h tk) \<mapsto> tk)) (place_order en (o_Price (h tk)) tk t)"
proof -
  let ?k = "en_dstr en (o_Price (h tk))"
  define l0 where "l0 = (case tmap en t ?k of Some l \<Rightarrow> l | None \<Rightarrow> new_level\<lparr>pl_Price := ?k\<rparr>)"
  have l0: "level_ok l0 (pl_Orders l0)" "distinct (pl_Orders l0)" "set (pl_Orders l0) \<subseteq> {p. \<exists>l. tmap en t ?k = Some l \<and> p \<in> set (pl_Orders l)}"
    using side_okD(1,2) [OF s, of ?k]
    by (auto simp: l0_def level_ok_def new_level_def pl_Orders_def split: option.splits)
  have t': "tmap en (place_order en (o_Price (h tk)) tk t) = (tmap en t)(?k \<mapsto> pl_AddOrder tk l0)"
    by (simp add: place_order_def Let_def tree_laws [OF laws] l0_def)
  have add: "level_ok (pl_AddOrder tk l0) (pl_Orders (pl_AddOrder tk l0))"
    "pl_Orders (pl_AddOrder tk l0) = (if length (pl_Orders l0) = 255 then [] else pl_Orders l0 @ [tk])"
    using level_ok_AddOrder [OF l0(1), of tk] level_ok_Orders by metis+
  have new: "p \<noteq> tk \<and> o_ID (h p) \<noteq> o_ID (h tk)" if "tmap en t k = Some l" "p \<in> set (pl_Orders l)" for k l p
    using side_okD(6) [OF s that] assms(3,4) by (auto simp: ran_def)
  show ?thesis
    unfolding side_ok_def t'
  proof (intro allI impI)
    fix k l assume l: "((tmap en t)(?k \<mapsto> pl_AddOrder tk l0)) k = Some l"
    show "level_ok l (pl_Orders l) \<and> distinct (pl_Orders l) \<and>
      (\<forall>p \<in> set (pl_Orders l). k = en_dstr en (o_Price (h p)) \<and> (o_Side (h p) = ''BUY'' \<longleftrightarrow> buy) \<and>
         0 < remaining (h p) \<and> (ids(o_ID (h tk) \<mapsto> tk)) (o_ID (h p)) = Some p)"
    proof (cases "k = ?k")
      case True
      then have l': "l = pl_AddOrder tk l0" using l by simp
      have "tk \<notin> set (pl_Orders l0)" using l0(3) new by blast
      then have "distinct (pl_Orders l)" using add(2) l0(2) by (auto simp: l')
      moreover have "k = en_dstr en (o_Price (h p)) \<and> (o_Side (h p) = ''BUY'' \<longleftrightarrow> buy) \<and>
         0 < remaining (h p) \<and> (ids(o_ID (h tk) \<mapsto> tk)) (o_ID (h p)) = Some p" if p: "p \<in> set (pl_Orders l)" for p
      proof (cases "p = tk")
        case False
        then have "p \<in> set (pl_Orders l0)" using p add(2) by (auto simp: l' split: if_splits)
        then obtain l1 where l1: "tmap en t ?k = Some l1" "p \<in> set (pl_Orders l1)" using l0(3) by blast
        show ?thesis using side_okD(3-6) [OF s l1] new [OF l1] True by simp
      qed (use assms True in simp)
      ultimately show ?thesis using add(1) l' by blast
    next
      case False
      then have l1: "tmap en t k = Some l" using l by simp
      then show ?thesis using side_okD [OF s l1] new [OF l1] by simp
    qed
  qed
qed

text \<open>
  \<open>AddOrder\<close> in one equation: the side it matches against, the fills, whether the rest is placed, and
  the resulting sides.
\<close>

definition rests :: "order \<Rightarrow> decimal \<Rightarrow> bool" where
  "rests ord done' \<longleftrightarrow> done' < remaining ord \<and> o_TimeInForce ord \<noteq> ''IOC'' \<and> o_TimeInForce ord \<noteq> ''FOK''"

definition opposite :: "'t order_book \<Rightarrow> order \<Rightarrow> 't" where
  "opposite ob ord = (if o_Side ord = ''BUY'' then ob_asks ob else ob_bids ob)"

definition own_side :: "'t order_book \<Rightarrow> order \<Rightarrow> 't" where
  "own_side ob ord = (if o_Side ord = ''BUY'' then ob_bids ob else ob_asks ob)"

definition book_fills :: "'t book_env \<Rightarrow> nat \<Rightarrow> 't order_book \<Rightarrow> (nat \<times> decimal) list" where
  "book_fills en tk ob = greedy (ob_heap ob) (o_Side (ob_heap ob tk) = ''BUY'') (ob_heap ob tk)
     (remaining (ob_heap ob tk)) (side_makers en (opposite ob (ob_heap ob tk)))"

definition accepts :: "nat \<Rightarrow> 't order_book \<Rightarrow> bool" where
  "accepts tk ob \<longleftrightarrow> ad_BreakerState (fst (GetAdminState ob)) \<noteq> BreakerActive \<and> 0 < remaining (ob_heap ob tk)"

lemma book_taker_fills:
  assumes "env_laws en" and "book_ok en ob" and "tk \<notin> ran (ob_ordersByID ob)" and "0 < remaining (ob_heap ob tk)"
  shows "taker_fills en (ob_heap ob) (ob_ordersByID ob) (opposite ob (ob_heap ob tk))
    (o_Side (ob_heap ob tk) = ''BUY'') tk (book_fills en tk ob)"
  using assms by (simp add: taker_fills_def book_fills_def opposite_def book_ok_def)

lemma admin_same [simp]:
  "ob_heap (snd (GetAdminState ob)) = ob_heap ob" "ob_ordersByID (snd (GetAdminState ob)) = ob_ordersByID ob"
  "ob_bids (snd (GetAdminState ob)) = ob_bids ob" "ob_asks (snd (GetAdminState ob)) = ob_asks ob"
  by (simp_all add: GetAdminState_def split: option.splits)

lemma cache_same [simp]:
  "ob_heap (UpdateTopLevelsCache en d ob) = ob_heap ob" "ob_ordersByID (UpdateTopLevelsCache en d ob) = ob_ordersByID ob"
  "ob_bids (UpdateTopLevelsCache en d ob) = ob_bids ob" "ob_asks (UpdateTopLevelsCache en d ob) = ob_asks ob"
  "ob_adminState (UpdateTopLevelsCache en d ob) = ob_adminState ob"
  by (simp_all add: UpdateTopLevelsCache_def)

lemma AddOrder_step:
  assumes "env_laws en" and "book_ok en ob" and "tk \<notin> ran (ob_ordersByID ob)" and "accepts tk ob"
    and "F = book_fills en tk ob" and "ord = ob_heap ob tk" and "r = rests ord (filled_sum F)"
  shows "\<exists>opp' own' ob'. AddOrder en mint (Some tk) ob =
      (Inr \<lparr>ar_Trades = fill_trades mint (ob_heap ob) ord 0 F, ar_RestingOrders = (if r then [tk] else [])\<rparr>, ob') \<and>
    ob_heap ob' = fill_heap tk F (ob_heap ob) \<and>
    ob_ordersByID ob' = (if r then (fill_ids (ob_heap ob) F (ob_ordersByID ob))(o_ID ord \<mapsto> tk)
      else fill_ids (ob_heap ob) F (ob_ordersByID ob)) \<and>
    ob_bids ob' = (if o_Side ord = ''BUY'' then own' else opp') \<and>
    ob_asks ob' = (if o_Side ord = ''BUY'' then opp' else own') \<and>
    own' = (if r then place_order en (o_Price ord) tk (own_side ob ord) else own_side ob ord) \<and>
    side_ok en (o_Side ord \<noteq> ''BUY'') (fill_heap tk F (ob_heap ob)) (fill_ids (ob_heap ob) F (ob_ordersByID ob)) opp' \<and>
    queues en opp' = (\<lambda>k. filter (\<lambda>p. p \<notin> completed (ob_heap ob) F) (queues en (opposite ob ord) k))"
proof -
  let ?h = "ob_heap ob" and ?opp = "opposite ob ord" and ?buy = "o_Side ord = ''BUY''"
  have pos: "0 < remaining (?h tk)" using assms(4) by (simp add: accepts_def)
  note T = book_taker_fills [OF assms(1-3) pos, folded assms(5) assms(6)]
  note t = taker_fillsD [OF T]
  note sf = side_facts [OF t(1,2)]
  define ms where "ms = \<lparr>ms_heap = ?h, ms_ids = ob_ordersByID ob, ms_qtyLeft = remaining ord, ms_trades = []\<rparr>"
  have "\<exists>t' gone. match_levels en mint ?buy tk (bt_Ascend (en_tree en) ?opp) (?opp, ms) [] =
        ((t', fill_state mint tk F ms), [] @ gone) \<and>
      visited en (completed (ms_heap ms) F) ?opp t' \<and>
      (\<forall>k \<in> set gone. \<exists>l. tmap en t' k = Some l \<and> pl_Orders l = [])"
  proof (rule match_levels_ref [OF t(1) tree_laws(5) [OF t(1)] sf(1)])
    show "inj_on (\<lambda>p. o_ID (ms_heap ms p)) (set (side_makers en ?opp))" using sf(2) by (simp add: ms_def)
    show "item_ok en tk (ms_heap ms) it" if "it \<in> set (bt_Ascend (en_tree en) ?opp)" for it
      using sf(3) [OF t(3) that] by (simp add: ms_def)
    show "tmap en ?opp k = Some l" if "(k, l) \<in> set (bt_Ascend (en_tree en) ?opp)" for k l
      by (rule sf(4) [OF that])
    show "set (pl_Orders l) \<inter> set (side_makers en ?opp) = {}"
      if "tmap en ?opp k = Some l" "k \<notin> fst ` set (bt_Ascend (en_tree en) ?opp)" for k l
      using that by (force simp: tmap_def dest: map_of_SomeD)
    show "0 < ms_qtyLeft ms" using pos assms(6) by (simp add: ms_def)
    show "F = greedy (ms_heap ms) ?buy (ms_heap ms tk) (ms_qtyLeft ms) (side_makers en ?opp)"
      using t(5) assms(6) by (simp add: ms_def)
  qed
  then obtain t' gone where m: "match_levels en mint ?buy tk (bt_Ascend (en_tree en) ?opp) (?opp, ms) [] =
        ((t', fill_state mint tk F ms), gone)"
    and v: "visited en (completed ?h F) ?opp t'"
    and gone: "\<And>k. k \<in> set gone \<Longrightarrow> \<exists>l. tmap en t' k = Some l \<and> pl_Orders l = []" by (auto simp: ms_def)
  let ?opp' = "delete_levels en gone t'"
  have opp': "side_ok en (\<not> ?buy) (fill_heap tk F ?h) (fill_ids ?h F (ob_ordersByID ob)) ?opp'"
    by (rule opp_after [OF T v]) (simp add: delete_levels_map [OF assms(1)] split: if_splits)
  have q: "queues en ?opp' = (\<lambda>k. filter (\<lambda>p. p \<notin> completed ?h F) (queues en ?opp k))"
    using delete_queues [OF assms(1) gone] visited_queues [OF v] by (intro ext) simp
  have fields: "ms_ids (fill_state mint tk F ms) = fill_ids ?h F (ob_ordersByID ob)"
    "ms_trades (fill_state mint tk F ms) = fill_trades mint ?h ord 0 F"
    "ms_heap (fill_state mint tk F ms) = fill_heap tk F ?h"
    "ms_qtyLeft (fill_state mint tk F ms) = remaining ord - filled_sum F"
    using assms(6) by (simp_all add: fill_state_def ms_def)
  obtain a ob0 where adm: "GetAdminState ob = (a, ob0)" by (metis surj_pair)
  have same: "ob_heap ob0 = ob_heap ob" "ob_ordersByID ob0 = ob_ordersByID ob" "ob_bids ob0 = ob_bids ob"
    "ob_asks ob0 = ob_asks ob" using admin_same [of ob] adm by simp_all
  have acc: "ad_BreakerState a \<noteq> BreakerActive" "\<not> remaining ord \<le> 0"
    using assms(4,6) adm by (simp_all add: accepts_def)
  define ob' where "ob' = snd (finish_order en tk ?buy t' (fill_state mint tk F ms) gone ob0)"
  have r: "(0 < remaining ord - filled_sum F \<and> o_TimeInForce (fill_heap tk F ?h tk) \<noteq> ''IOC'' \<and>
      o_TimeInForce (fill_heap tk F ?h tk) \<noteq> ''FOK'') = r"
    using assms(6,7) by (simp add: rests_def)
  have oid: "o_ID (fill_heap tk F ?h tk) = o_ID ord" "o_Price (fill_heap tk F ?h tk) = o_Price ord"
    using assms(6) by simp_all
  have fin: "finish_order en tk ?buy t' (fill_state mint tk F ms) gone ob0 =
      (\<lparr>ar_Trades = fill_trades mint ?h ord 0 F, ar_RestingOrders = (if r then [tk] else [])\<rparr>, ob')"
    unfolding ob'_def by (simp only: finish_order_def Let_def fields r snd_conv)
  have "AddOrder en mint (Some tk) ob =
      (case match_levels en mint ?buy tk (bt_Ascend (en_tree en) ?opp) (?opp, ms) [] of
         ((opp1, ms), toRemove) \<Rightarrow>
           (case finish_order en tk ?buy opp1 ms toRemove ob0 of (res, ob') \<Rightarrow> (Inr res, ob')))"
    using acc unfolding AddOrder_def adm option.case prod.case same assms(6) [symmetric] Let_def opposite_def ms_def
    by (simp only: if_False simp_thms)
  then have add: "AddOrder en mint (Some tk) ob =
      (Inr \<lparr>ar_Trades = fill_trades mint ?h ord 0 F, ar_RestingOrders = (if r then [tk] else [])\<rparr>, ob')"
    by (simp only: m fin prod.case)
  have "ob_heap ob' = fill_heap tk F ?h"
    and "ob_ordersByID ob' = (if r then (fill_ids ?h F (ob_ordersByID ob))(o_ID ord \<mapsto> tk)
      else fill_ids ?h F (ob_ordersByID ob))"
    and "ob_bids ob' = (if ?buy then (if r then place_order en (o_Price ord) tk (own_side ob ord) else own_side ob ord) else ?opp')"
    and "ob_asks ob' = (if ?buy then ?opp' else (if r then place_order en (o_Price ord) tk (own_side ob ord) else own_side ob ord))"
    unfolding ob'_def finish_order_def Let_def fields r oid snd_conv same
    by (simp_all add: own_side_def)
  then show ?thesis using add opp' q by blast
qed

end
