(* ===== verification/BookProperties.thy ===== *)
theory BookProperties
  imports BookMatching
begin

text \<open>
  Histories of an order book and their invariant, over the reference match of \<open>BookMatching\<close>: every
  operation that changes the book keeps it, and acts on the queues of the two sides as described.
\<close>

section \<open>Histories of a book\<close>

text \<open>Every index entry points to an order with that ID, whether its level still shows it or not.\<close>

definition index_ok :: "order_heap \<Rightarrow> (uuid \<rightharpoonup> nat) \<Rightarrow> bool" where
  "index_ok h ids \<longleftrightarrow> (\<forall>i p. ids i = Some p \<longrightarrow> o_ID (h p) = i)"

definition book_inv :: "'t book_env \<Rightarrow> 't order_book \<Rightarrow> bool" where
  "book_inv en ob \<longleftrightarrow> book_ok en ob \<and> index_ok (ob_heap ob) (ob_ordersByID ob)"

text \<open>
  A history: the callers create and change orders of their own (\<open>p\<close> is not in the index), hand them in
  with an ID the book does not know, set the status of any order, cancel by ID, run the cleanup over any
  order of the index and use the administrative controls.
\<close>

inductive book_reach :: "'t book_env \<Rightarrow> 't order_book \<Rightarrow> bool" for en where
  bk_new: "book_reach en (NewOrderBook en pair h)"
| bk_caller: "book_reach en ob \<Longrightarrow> p \<notin> ran (ob_ordersByID ob) \<Longrightarrow>
    book_reach en (ob\<lparr>ob_heap := (ob_heap ob)(p := ord)\<rparr>)"
| bk_add: "book_reach en ob \<Longrightarrow> ob_ordersByID ob (o_ID (ob_heap ob tk)) = None \<Longrightarrow>
    book_reach en (snd (AddOrder en mint (Some tk) ob))"
| bk_cancel: "book_reach en ob \<Longrightarrow> book_reach en (snd (CancelOrder en orderID ob))"
| bk_status: "book_reach en ob \<Longrightarrow>
    book_reach en (ob\<lparr>ob_heap := (ob_heap ob)(p := (ob_heap ob p)\<lparr>o_Status := st\<rparr>)\<rparr>)"
| bk_cleanup: "book_reach en ob \<Longrightarrow> book_reach en (cleanupOrders en ks ob)"
| bk_admin: "book_reach en ob \<Longrightarrow> book_reach en (set_admin f ob)"

lemma set_admin_same [simp]:
  "ob_heap (set_admin f ob) = ob_heap ob" "ob_ordersByID (set_admin f ob) = ob_ordersByID ob"
  "ob_bids (set_admin f ob) = ob_bids ob" "ob_asks (set_admin f ob) = ob_asks ob"
  by (simp_all add: set_admin_def GetAdminState_def split: option.splits)

lemma AddOrder_refused:
  "\<not> accepts tk ob \<Longrightarrow> \<exists>e ob'. AddOrder en mint (Some tk) ob = (Inl e, ob') \<and> ob' = snd (GetAdminState ob)"
  by (cases "GetAdminState ob") (auto simp: AddOrder_def accepts_def dest: arg_cong [of _ _ "ob_heap \<circ> snd"])

lemma fill_index_ok:
  assumes T: "taker_fills en h ids opp buy tk F" and "index_ok h ids"
  shows "index_ok (fill_heap tk F h) (fill_ids h F ids)"
  unfolding index_ok_def
proof (intro allI impI)
  fix i p assume "fill_ids h F ids i = Some p"
  then have i: "ids i = Some p" and nc: "\<not> (\<exists>p \<in> completed h F. o_ID (h p) = i)"
    by (auto simp: fill_ids_def split: if_splits)
  have "o_ID (h p) = i" using assms(2) i by (simp add: index_ok_def)
  moreover have "p \<noteq> tk" using taker_fillsD(3) [OF T] i by (auto simp: ran_def)
  moreover have "p \<notin> completed h F" using nc calculation(1) by blast
  ultimately show "o_ID (fill_heap tk F h p) = i" using kept(1) [OF T] by simp
qed

lemma index_ok_upd: "index_ok h ids \<Longrightarrow> o_ID (h p) = i \<Longrightarrow> index_ok h (ids(i \<mapsto> p))"
  by (simp add: index_ok_def)

lemma fresh_cell: "index_ok h ids \<Longrightarrow> ids (o_ID (h tk)) = None \<Longrightarrow> tk \<notin> ran ids"
  by (auto simp: index_ok_def ran_def)

lemma AddOrder_inv:
  assumes laws: "env_laws en" and inv: "book_inv en ob"
    and fresh: "ob_ordersByID ob (o_ID (ob_heap ob tk)) = None"
  shows "book_inv en (snd (AddOrder en mint (Some tk) ob))"
proof (cases "accepts tk ob")
  case False
  then show ?thesis using AddOrder_refused [OF False, of en mint] inv by (auto simp: book_inv_def book_ok_def)
next
  case True
  let ?ord = "ob_heap ob tk"
  define F where "F = book_fills en tk ob"
  define r where "r = rests ?ord (filled_sum F)"
  define h' where "h' = fill_heap tk F (ob_heap ob)"
  define ids' where "ids' = fill_ids (ob_heap ob) F (ob_ordersByID ob)"
  have bok: "book_ok en ob" and iok: "index_ok (ob_heap ob) (ob_ordersByID ob)" using inv by (auto simp: book_inv_def)
  note tk = fresh_cell [OF iok fresh]
  have pos: "0 < remaining ?ord" using True by (simp add: accepts_def)
  note T = book_taker_fills [OF laws bok tk pos, folded F_def]
  have own: "side_ok en (o_Side ?ord = ''BUY'') (ob_heap ob) (ob_ordersByID ob) (own_side ob ?ord)"
    using bok by (simp add: own_side_def book_ok_def)
  have own': "side_ok en (o_Side ?ord = ''BUY'') h' ids' (own_side ob ?ord)"
    unfolding h'_def ids'_def by (rule own_after [OF T own])
  obtain opp' own1 ob' where add: "snd (AddOrder en mint (Some tk) ob) = ob'" and
    ob': "ob_heap ob' = h'" "ob_ordersByID ob' = (if r then ids'(o_ID ?ord \<mapsto> tk) else ids')"
      "ob_bids ob' = (if o_Side ?ord = ''BUY'' then own1 else opp')"
      "ob_asks ob' = (if o_Side ?ord = ''BUY'' then opp' else own1)"
      "own1 = (if r then place_order en (o_Price ?ord) tk (own_side ob ?ord) else own_side ob ?ord)"
    and opp': "side_ok en (o_Side ?ord \<noteq> ''BUY'') h' ids' opp'"
    using AddOrder_step [OF laws bok tk True F_def refl refl, of mint] unfolding h'_def ids'_def r_def by auto
  have none: "ids' (o_ID ?ord) = None" using fresh by (simp add: ids'_def fill_ids_def)
  have ntk: "tk \<notin> ran ids'" using tk by (auto simp: ids'_def fill_ids_def ran_def split: if_splits)
  have htk: "o_ID (h' tk) = o_ID ?ord" "o_Price (h' tk) = o_Price ?ord" "o_Side (h' tk) = o_Side ?ord"
    "remaining (h' tk) = remaining ?ord - filled_sum F" by (simp_all add: h'_def remaining_def)
  have own1: "side_ok en (o_Side ?ord = ''BUY'') h' (ob_ordersByID ob') own1"
    using place_ok [OF laws own', of tk] none ntk own' by (auto simp: ob' htk r_def rests_def)
  have opp1: "side_ok en (o_Side ?ord \<noteq> ''BUY'') h' (ob_ordersByID ob') opp'"
    using side_ok_ids [OF opp' none, of tk] opp' by (simp add: ob')
  have "index_ok h' ids'" unfolding h'_def ids'_def by (rule fill_index_ok [OF T iok])
  then have "index_ok h' (ob_ordersByID ob')" using index_ok_upd htk(1) by (simp add: ob')
  moreover have "book_ok en ob'" using own1 opp1 by (cases "o_Side ?ord = ''BUY''") (simp_all add: book_ok_def ob')
  ultimately show ?thesis by (simp add: add book_inv_def ob'(1))
qed

section \<open>Cancelling\<close>

text \<open>A side in terms of its queues.\<close>

definition levels_ok :: "'t book_env \<Rightarrow> 't \<Rightarrow> bool" where
  "levels_ok en t \<longleftrightarrow> (\<forall>k l. tmap en t k = Some l \<longrightarrow> level_ok l (pl_Orders l))"

lemma side_ok_iff:
  "side_ok en buy h ids t \<longleftrightarrow> levels_ok en t \<and> (\<forall>k. distinct (queues en t k) \<and>
     (\<forall>p \<in> set (queues en t k). k = en_dstr en (o_Price (h p)) \<and> (o_Side (h p) = ''BUY'' \<longleftrightarrow> buy) \<and>
        0 < remaining (h p) \<and> ids (o_ID (h p)) = Some p))" (is "_ \<longleftrightarrow> _ \<and> (\<forall>k. ?Q k (queues en t k))")
proof
  assume s: "side_ok en buy h ids t"
  have "?Q k (queues en t k)" for k
  proof (cases "tmap en t k")
    case (Some l)
    then show ?thesis using s [unfolded side_ok_def, rule_format, OF Some] by simp
  qed simp
  moreover have "levels_ok en t" using s by (simp add: side_ok_def levels_ok_def)
  ultimately show "levels_ok en t \<and> (\<forall>k. ?Q k (queues en t k))" by blast
next
  assume s: "levels_ok en t \<and> (\<forall>k. ?Q k (queues en t k))"
  show "side_ok en buy h ids t"
    unfolding side_ok_def
  proof (intro allI impI)
    fix k l assume l: "tmap en t k = Some l"
    have "?Q k (pl_Orders l)" using conjunct2 [OF s, rule_format, of k] l by simp
    then show "level_ok l (pl_Orders l) \<and> ?Q k (pl_Orders l)" using s l by (simp add: levels_ok_def)
  qed
qed

lemma side_queueD:
  assumes "side_ok en buy h ids t" and "p \<in> set (queues en t k)"
  shows "k = en_dstr en (o_Price (h p))" and "o_Side (h p) = ''BUY'' \<longleftrightarrow> buy" and "0 < remaining (h p)"
    and "ids (o_ID (h p)) = Some p"
  using assms unfolding side_ok_iff by blast+

lemma remove_queues:
  assumes "env_laws en" and "levels_ok en t"
  shows "levels_ok en (remove_from_tree en h d key t) \<and>
    queues en (remove_from_tree en h d key t) k =
      (if k = key then filter (\<lambda>p. o_ID (h p) \<noteq> d) (queues en t k) else queues en t k)"
proof (cases "tmap en t key")
  case None
  then show ?thesis using assms by (simp add: remove_from_tree_def tree_laws)
next
  case (Some l)
  let ?l = "snd (pl_RemoveOrder h d l)" and ?os = "filter (\<lambda>p. o_ID (h p) \<noteq> d) (pl_Orders l)"
  have ok: "level_ok ?l ?os"
    using level_ok_RemoveOrder [of l "pl_Orders l" h d] assms(2) Some by (simp add: levels_ok_def)
  have m: "tmap en (remove_from_tree en h d key t) =
      (if ?os = [] then (tmap en t)(key := None) else (tmap en t)(key \<mapsto> ?l))"
    using Some assms(1) level_ok_Len [OF ok] by (simp add: remove_from_tree_def tree_laws Let_def)
  have "levels_ok en (remove_from_tree en h d key t)"
    using assms(2) ok level_ok_Orders [OF ok] unfolding levels_ok_def m by simp
  moreover have "queues en (remove_from_tree en h d key t) k =
      (if k = key then ?os else queues en t k)"
    using level_ok_Orders [OF ok] by (simp add: queues_def m)
  ultimately show ?thesis using Some by simp
qed

lemma cancel_side:
  assumes laws: "env_laws en" and s: "side_ok en buy h ids t" and "index_ok h ids" and i: "ids d = Some p"
    and key: "key = en_dstr en (o_Price (h p))"
  shows "side_ok en buy (h(p := zero_order)) (ids(d := None)) (remove_from_tree en h d key t)"
proof -
  let ?t = "remove_from_tree en h d key t"
  have lv: "levels_ok en t" using s by (simp add: side_ok_iff)
  note Q = remove_queues [OF laws lv, of h d key]
  have pd: "o_ID (h p) = d" using assms(3) i by (simp add: index_ok_def)
  have "q \<noteq> p \<and> o_ID (h q) \<noteq> d \<and> q \<in> set (queues en t k)" if q: "q \<in> set (queues en ?t k)" for k q
  proof -
    have qt: "q \<in> set (queues en t k)" using q Q by (auto split: if_splits)
    have "q \<noteq> p"
    proof
      assume "q = p"
      then have "k = key" using side_queueD(1) [OF s qt] key by simp
      then show False using q Q pd \<open>q = p\<close> by simp
    qed
    moreover have "o_ID (h q) \<noteq> d" using side_queueD(4) [OF s qt] i calculation by auto
    ultimately show ?thesis using qt by blast
  qed
  then have "k = en_dstr en (o_Price ((h(p := zero_order)) q)) \<and> (o_Side ((h(p := zero_order)) q) = ''BUY'' \<longleftrightarrow> buy) \<and>
      0 < remaining ((h(p := zero_order)) q) \<and> (ids(d := None)) (o_ID ((h(p := zero_order)) q)) = Some q"
    if "q \<in> set (queues en ?t k)" for k q
    using side_queueD [OF s] that by fastforce
  moreover have "distinct (queues en ?t k)" for k using Q s by (simp add: side_ok_iff)
  ultimately show ?thesis using conjunct1 [OF Q] unfolding side_ok_iff by blast
qed

text \<open>The side without the order only loses a pointer nobody looks at.\<close>

lemma cancel_other:
  assumes s: "side_ok en buy h ids t" and i: "ids d = Some p" and other: "(o_Side (h p) = ''BUY'') \<noteq> buy"
  shows "side_ok en buy (h(p := zero_order)) (ids(d := None)) t"
proof -
  have "q \<noteq> p \<and> o_ID (h q) \<noteq> d" if "q \<in> set (queues en t k)" for k q
    using side_queueD(2,4) [OF s that] other i by auto
  then have "k = en_dstr en (o_Price ((h(p := zero_order)) q)) \<and> (o_Side ((h(p := zero_order)) q) = ''BUY'' \<longleftrightarrow> buy) \<and>
      0 < remaining ((h(p := zero_order)) q) \<and> (ids(d := None)) (o_ID ((h(p := zero_order)) q)) = Some q"
    if "q \<in> set (queues en t k)" for k q
    using side_queueD [OF s that] that by simp
  then show ?thesis using s unfolding side_ok_iff by blast
qed

lemma CancelOrder_inv:
  assumes laws: "env_laws en" and inv: "book_inv en ob"
  shows "book_inv en (snd (CancelOrder en orderID ob))"
proof (cases "ob_ordersByID ob orderID")
  case None
  then show ?thesis using inv by (simp add: CancelOrder_def)
next
  case (Some p)
  have b: "side_ok en True (ob_heap ob) (ob_ordersByID ob) (ob_bids ob)"
    and a: "side_ok en False (ob_heap ob) (ob_ordersByID ob) (ob_asks ob)"
    and x: "index_ok (ob_heap ob) (ob_ordersByID ob)" using inv by (auto simp: book_inv_def book_ok_def)
  have x': "index_ok ((ob_heap ob)(p := zero_order)) ((ob_ordersByID ob)(orderID := None))"
    using x Some unfolding index_ok_def by (metis fun_upd_other fun_upd_same option.distinct(1))
  show ?thesis
  proof (cases "o_Side (ob_heap ob p) = ''BUY''")
    case True
    then show ?thesis
      using x' cancel_side [OF laws b x Some refl] cancel_other [OF a Some]
      by (simp add: CancelOrder_def Some remove_from_book_def Let_def book_inv_def book_ok_def del: fun_upd_apply)
  next
    case False
    then show ?thesis
      using x' cancel_side [OF laws a x Some refl] cancel_other [OF b Some]
      by (simp add: CancelOrder_def Some remove_from_book_def Let_def book_inv_def book_ok_def del: fun_upd_apply)
  qed
qed

section \<open>Cleaning up\<close>

lemma remove_from_book_same [simp]:
  "ob_heap (remove_from_book en d ord ob) = ob_heap ob" "ob_ordersByID (remove_from_book en d ord ob) = ob_ordersByID ob"
  by (simp_all add: remove_from_book_def)

lemma remove_all_same [simp]:
  "ob_heap (remove_all en ps ob) = ob_heap ob" "ob_ordersByID (remove_all en ps ob) = ob_ordersByID ob"
  by (induction ps arbitrary: ob) auto

text \<open>The removed orders are filtered out of the queue of their price.\<close>

definition removed_at :: "'t book_env \<Rightarrow> order_heap \<Rightarrow> bool \<Rightarrow> nat list \<Rightarrow> string \<Rightarrow> nat \<Rightarrow> bool" where
  "removed_at en h buy ps k q \<longleftrightarrow>
     (\<exists>p \<in> set ps. (o_Side (h p) = ''BUY'' \<longleftrightarrow> buy) \<and> k = en_dstr en (o_Price (h p)) \<and> o_ID (h q) = o_ID (h p))"

lemma remove_book_queues:
  assumes "env_laws en" and "levels_ok en (ob_bids ob)" and "levels_ok en (ob_asks ob)"
  shows "levels_ok en (ob_bids (remove_from_book en (o_ID (ob_heap ob p)) (ob_heap ob p) ob)) \<and>
    levels_ok en (ob_asks (remove_from_book en (o_ID (ob_heap ob p)) (ob_heap ob p) ob)) \<and>
    queues en (ob_bids (remove_from_book en (o_ID (ob_heap ob p)) (ob_heap ob p) ob)) k =
      filter (\<lambda>q. \<not> removed_at en (ob_heap ob) True [p] k q) (queues en (ob_bids ob) k) \<and>
    queues en (ob_asks (remove_from_book en (o_ID (ob_heap ob p)) (ob_heap ob p) ob)) k =
      filter (\<lambda>q. \<not> removed_at en (ob_heap ob) False [p] k q) (queues en (ob_asks ob) k)"
  using remove_queues [OF assms(1,2), of "ob_heap ob" "o_ID (ob_heap ob p)" "en_dstr en (o_Price (ob_heap ob p))"]
    remove_queues [OF assms(1,3), of "ob_heap ob" "o_ID (ob_heap ob p)" "en_dstr en (o_Price (ob_heap ob p))"] assms
  by (cases "o_Side (ob_heap ob p) = ''BUY''") (simp_all add: remove_from_book_def removed_at_def)

lemma remove_all_queues:
  assumes "env_laws en" and "levels_ok en (ob_bids ob)" and "levels_ok en (ob_asks ob)"
  shows "levels_ok en (ob_bids (remove_all en ps ob)) \<and> levels_ok en (ob_asks (remove_all en ps ob)) \<and>
    queues en (ob_bids (remove_all en ps ob)) k =
      filter (\<lambda>q. \<not> removed_at en (ob_heap ob) True ps k q) (queues en (ob_bids ob) k) \<and>
    queues en (ob_asks (remove_all en ps ob)) k =
      filter (\<lambda>q. \<not> removed_at en (ob_heap ob) False ps k q) (queues en (ob_asks ob) k)"
  using assms(2,3)
proof (induction ps arbitrary: ob)
  case Nil
  then show ?case by (simp add: removed_at_def)
next
  case (Cons p ps)
  let ?ob = "remove_from_book en (o_ID (ob_heap ob p)) (ob_heap ob p) ob"
  note R = remove_book_queues [OF assms(1) Cons.prems, of p k]
  have m: "(\<not> removed_at en h b [p] k q \<and> \<not> removed_at en h b ps k q) = (\<not> removed_at en h b (p # ps) k q)" for h b q
    by (auto simp: removed_at_def)
  show ?case
    using Cons.IH [of ?ob] R by (simp add: m)
qed

lemma cleanup_collect_spec:
  assumes "index_ok h ids" and "cleanup_collect h ks ids = (ps, ids')"
  shows "set ps = {p. \<exists>k \<in> set ks. ids k = Some p \<and> cleanable (h p)} \<and>
    ids' = (\<lambda>i. if \<exists>p \<in> set ps. o_ID (h p) = i then None else ids i)"
  using assms
proof (induction ks arbitrary: ids ps ids')
  case (Cons k ks)
  show ?case
  proof (cases "\<exists>p. ids k = Some p \<and> cleanable (h p)")
    case False
    then have "cleanup_collect h ks ids = (ps, ids')" using Cons.prems(2) by (auto split: option.splits)
    then show ?thesis using Cons.IH [OF Cons.prems(1)] False by auto
  next
    case True
    then obtain p where p: "ids k = Some p" "cleanable (h p)" by blast
    let ?ids = "ids(k := None)"
    have k: "o_ID (h p) = k" using Cons.prems(1) p by (simp add: index_ok_def)
    have "index_ok h ?ids" using Cons.prems(1) by (auto simp: index_ok_def)
    moreover obtain ps' where ps': "cleanup_collect h ks ?ids = (ps', ids')" "ps = p # ps'"
      using Cons.prems(2) p k by (auto split: prod.splits)
    ultimately have IH: "set ps' = {p. \<exists>k \<in> set ks. ?ids k = Some p \<and> cleanable (h p)}"
      "ids' = (\<lambda>i. if \<exists>p \<in> set ps'. o_ID (h p) = i then None else ?ids i)" using Cons.IH by blast+
    have "set ps = {p. \<exists>k \<in> set (k # ks). ids k = Some p \<and> cleanable (h p)}"
      using p IH(1) ps'(2) by (auto split: if_splits) (metis option.inject)
    moreover have "ids' = (\<lambda>i. if \<exists>p \<in> set ps. o_ID (h p) = i then None else ids i)"
      using k IH(2) ps'(2) by (auto simp: fun_eq_iff)
    ultimately show ?thesis by blast
  qed
qed simp

text \<open>In a book that is in order, an order is removed from its queue exactly when it is collected.\<close>

lemma cleanup_step:
  assumes laws: "env_laws en" and inv: "book_inv en ob"
    and C: "C = {p. \<exists>k \<in> set ks. ob_ordersByID ob k = Some p \<and> cleanable (ob_heap ob p)}"
  shows "ob_heap (cleanupOrders en ks ob) = ob_heap ob \<and>
    ob_ordersByID (cleanupOrders en ks ob) =
      (\<lambda>i. if \<exists>p \<in> C. o_ID (ob_heap ob p) = i then None else ob_ordersByID ob i) \<and>
    levels_ok en (ob_bids (cleanupOrders en ks ob)) \<and> levels_ok en (ob_asks (cleanupOrders en ks ob)) \<and>
    queues en (ob_bids (cleanupOrders en ks ob)) = (\<lambda>k. filter (\<lambda>q. q \<notin> C) (queues en (ob_bids ob) k)) \<and>
    queues en (ob_asks (cleanupOrders en ks ob)) = (\<lambda>k. filter (\<lambda>q. q \<notin> C) (queues en (ob_asks ob) k))"
proof -
  obtain ps ids' where c: "cleanup_collect (ob_heap ob) ks (ob_ordersByID ob) = (ps, ids')" by (metis surj_pair)
  have b: "side_ok en True (ob_heap ob) (ob_ordersByID ob) (ob_bids ob)"
    and a: "side_ok en False (ob_heap ob) (ob_ordersByID ob) (ob_asks ob)"
    and x: "index_ok (ob_heap ob) (ob_ordersByID ob)" using inv by (auto simp: book_inv_def book_ok_def)
  note spec = cleanup_collect_spec [OF x c]
  have lv: "levels_ok en (ob_bids (ob\<lparr>ob_ordersByID := ids'\<rparr>))" "levels_ok en (ob_asks (ob\<lparr>ob_ordersByID := ids'\<rparr>))"
    using a b by (auto simp: side_ok_iff)
  note R = remove_all_queues [OF laws lv, of ps]
  have ID: "ob_ordersByID ob (o_ID (ob_heap ob p)) = Some p" if "p \<in> set ps" for p
    using that spec x by (auto simp: index_ok_def)
  have f: "filter (\<lambda>q. \<not> removed_at en (ob_heap ob) buy ps k q) (queues en t k) = filter (\<lambda>q. q \<notin> C) (queues en t k)"
    if s: "side_ok en buy (ob_heap ob) (ob_ordersByID ob) t" for buy t k
  proof (rule filter_cong [OF refl])
    fix q assume q: "q \<in> set (queues en t k)"
    have "removed_at en (ob_heap ob) buy ps k q \<longleftrightarrow> q \<in> set ps"
    proof
      assume "removed_at en (ob_heap ob) buy ps k q"
      then obtain p where "p \<in> set ps" "o_ID (ob_heap ob q) = o_ID (ob_heap ob p)" by (auto simp: removed_at_def)
      then show "q \<in> set ps" using ID [of p] side_queueD(4) [OF s q] by simp
    next
      assume "q \<in> set ps"
      then show "removed_at en (ob_heap ob) buy ps k q"
        unfolding removed_at_def using side_queueD(1,2) [OF s q] by blast
    qed
    then show "(\<not> removed_at en (ob_heap ob) buy ps k q) = (q \<notin> C)" using spec C by blast
  qed
  have eq: "cleanupOrders en ks ob = remove_all en ps (ob\<lparr>ob_ordersByID := ids'\<rparr>)"
    by (simp add: cleanupOrders_def c)
  have "set ps = C" using spec C by blast
  then have "ids' = (\<lambda>i. if \<exists>p \<in> C. o_ID (ob_heap ob p) = i then None else ob_ordersByID ob i)"
    using spec by blast
  then show ?thesis
    unfolding eq using R f [OF a] f [OF b] by (intro conjI ext) simp_all
qed

lemma cleanup_inv:
  assumes laws: "env_laws en" and inv: "book_inv en ob"
  shows "book_inv en (cleanupOrders en ks ob)"
proof -
  let ?h = "ob_heap ob" and ?ids = "ob_ordersByID ob"
  define C where "C = {p. \<exists>k \<in> set ks. ?ids k = Some p \<and> cleanable (?h p)}"
  note S = cleanup_step [OF laws inv C_def]
  have b: "side_ok en True ?h ?ids (ob_bids ob)" and a: "side_ok en False ?h ?ids (ob_asks ob)"
    and x: "index_ok ?h ?ids" using inv by (auto simp: book_inv_def book_ok_def)
  have C: "?ids (o_ID (?h p)) = Some p" if "p \<in> C" for p using that x by (auto simp: C_def index_ok_def)
  have side: "side_ok en buy ?h (\<lambda>i. if \<exists>p \<in> C. o_ID (?h p) = i then None else ?ids i) t'"
    if s: "side_ok en buy ?h ?ids t" and "levels_ok en t'" and q: "queues en t' = (\<lambda>k. filter (\<lambda>q. q \<notin> C) (queues en t k))"
    for buy t t'
  proof -
    have "(if \<exists>p \<in> C. o_ID (?h p) = o_ID (?h q) then None else ?ids (o_ID (?h q))) = Some q"
      if "q \<in> set (queues en t k)" "q \<notin> C" for q k
      using side_queueD(4) [OF s that(1)] C that(2) by (metis option.inject)
    moreover have "distinct (queues en t' k)" for k using s by (simp add: q side_ok_iff)
    moreover have "x \<in> set (queues en t k) \<and> x \<notin> C" if "x \<in> set (queues en t' k)" for x k using that q by simp
    ultimately show ?thesis using that(2) side_queueD(1-3) [OF s] unfolding side_ok_iff by blast
  qed
  have "index_ok ?h (\<lambda>i. if \<exists>p \<in> C. o_ID (?h p) = i then None else ?ids i)"
    using x by (simp add: index_ok_def)
  then show ?thesis using S side [OF b] side [OF a] by (simp add: book_inv_def book_ok_def)
qed

lemma status_inv: "book_inv en ob \<Longrightarrow>
    book_inv en (ob\<lparr>ob_heap := (ob_heap ob)(p := (ob_heap ob p)\<lparr>o_Status := st\<rparr>)\<rparr>)"
  by (simp add: book_inv_def book_ok_def side_ok_def index_ok_def remaining_def)

section \<open>Every history\<close>

lemma NewOrderBook_inv: "env_laws en \<Longrightarrow> book_inv en (NewOrderBook en pair h)"
  by (simp add: book_inv_def book_ok_def side_ok_def NewOrderBook_def index_ok_def tree_laws)

lemma caller_inv:
  assumes "book_inv en ob" and p: "p \<notin> ran (ob_ordersByID ob)"
  shows "book_inv en (ob\<lparr>ob_heap := (ob_heap ob)(p := ord)\<rparr>)"
proof -
  have s: "side_ok en buy ((ob_heap ob)(p := ord)) (ob_ordersByID ob) t"
    if s: "side_ok en buy (ob_heap ob) (ob_ordersByID ob) t" for buy t
    unfolding side_ok_def
  proof (intro allI impI)
    fix k l assume l: "tmap en t k = Some l"
    have "q \<noteq> p" if "q \<in> set (pl_Orders l)" for q using side_okD(6) [OF s l that] p by (auto simp: ran_def)
    then show "level_ok l (pl_Orders l) \<and> distinct (pl_Orders l) \<and>
      (\<forall>q \<in> set (pl_Orders l). k = en_dstr en (o_Price (((ob_heap ob)(p := ord)) q)) \<and>
        (o_Side (((ob_heap ob)(p := ord)) q) = ''BUY'' \<longleftrightarrow> buy) \<and> 0 < remaining (((ob_heap ob)(p := ord)) q) \<and>
        ob_ordersByID ob (o_ID (((ob_heap ob)(p := ord)) q)) = Some q)"
      using side_okD [OF s l] by simp
  qed
  have "index_ok ((ob_heap ob)(p := ord)) (ob_ordersByID ob)"
    using assms by (auto simp: book_inv_def index_ok_def ran_def)
  then show ?thesis using assms(1) s by (simp add: book_inv_def book_ok_def)
qed

lemma set_admin_inv: "book_inv en ob \<Longrightarrow> book_inv en (set_admin f ob)"
  by (simp add: book_inv_def book_ok_def)

lemma reach_inv: "env_laws en \<Longrightarrow> book_reach en ob \<Longrightarrow> book_inv en ob"
  by (rotate_tac, induction rule: book_reach.induct)
    (auto intro: NewOrderBook_inv caller_inv AddOrder_inv CancelOrder_inv set_admin_inv
      cleanup_inv status_inv simp del: fun_upd_apply)

lemma reach_ok: "env_laws en \<Longrightarrow> book_reach en ob \<Longrightarrow> book_ok en ob"
  using reach_inv by (auto simp: book_inv_def)

lemma reach_fresh: "env_laws en \<Longrightarrow> book_reach en ob \<Longrightarrow> ob_ordersByID ob (o_ID (ob_heap ob tk)) = None \<Longrightarrow>
    tk \<notin> ran (ob_ordersByID ob)"
  by (rule fresh_cell) (use reach_inv in \<open>auto simp: book_inv_def\<close>)

section \<open>What adding an order does\<close>

lemma refines_AddOrder:
  assumes laws: "env_laws en" and reach: "book_reach en ob" and fresh: "ob_ordersByID ob (o_ID (ob_heap ob tk)) = None" and acc: "accepts tk ob"
    and F: "F = book_fills en tk ob" and ord: "ord = ob_heap ob tk" and r: "r = rests ord (filled_sum F)"
  shows "\<exists>ob'. AddOrder en mint (Some tk) ob =
      (Inr \<lparr>ar_Trades = fill_trades mint (ob_heap ob) ord 0 F, ar_RestingOrders = (if r then [tk] else [])\<rparr>, ob') \<and>
    ob_heap ob' = fill_heap tk F (ob_heap ob) \<and>
    ob_ordersByID ob' = (if r then (fill_ids (ob_heap ob) F (ob_ordersByID ob))(o_ID ord \<mapsto> tk)
      else fill_ids (ob_heap ob) F (ob_ordersByID ob)) \<and>
    queues en (opposite ob' ord) = (\<lambda>k. filter (\<lambda>p. p \<notin> completed (ob_heap ob) F) (queues en (opposite ob ord) k)) \<and>
    queues en (own_side ob' ord) = (\<lambda>k.
      if r \<and> k = en_dstr en (o_Price ord)
      then (if length (queues en (own_side ob ord) k) = 255 then [] else queues en (own_side ob ord) k @ [tk])
      else queues en (own_side ob ord) k)"
proof -
  have bok: "book_ok en ob" by (rule reach_ok [OF laws reach])
  have own: "side_ok en (o_Side ord = ''BUY'') (ob_heap ob) (ob_ordersByID ob) (own_side ob ord)"
    using bok by (simp add: own_side_def book_ok_def)
  note tk = reach_fresh [OF laws reach fresh]
  obtain opp' own' ob' where step: "AddOrder en mint (Some tk) ob =
      (Inr \<lparr>ar_Trades = fill_trades mint (ob_heap ob) ord 0 F, ar_RestingOrders = (if r then [tk] else [])\<rparr>, ob')"
    "ob_heap ob' = fill_heap tk F (ob_heap ob)"
    "ob_ordersByID ob' = (if r then (fill_ids (ob_heap ob) F (ob_ordersByID ob))(o_ID ord \<mapsto> tk)
      else fill_ids (ob_heap ob) F (ob_ordersByID ob))"
    and sides: "ob_bids ob' = (if o_Side ord = ''BUY'' then own' else opp')"
      "ob_asks ob' = (if o_Side ord = ''BUY'' then opp' else own')"
    and own': "own' = (if r then place_order en (o_Price ord) tk (own_side ob ord) else own_side ob ord)"
    and opp': "queues en opp' = (\<lambda>k. filter (\<lambda>p. p \<notin> completed (ob_heap ob) F) (queues en (opposite ob ord) k))"
    using AddOrder_step [OF laws bok tk acc F ord r, of mint] by blast
  have "opposite ob' ord = opp'" "own_side ob' ord = own'" using sides by (simp_all add: opposite_def own_side_def)
  then show ?thesis using step opp' place_queues [OF laws own, of "o_Price ord" tk] own' by (intro exI [of _ ob']) (simp add: fun_eq_iff)
qed

section \<open>Facts about the fills\<close>

lemma fill_trades_sum: "sum_list (map t_Quantity (fill_trades mint h tk n F)) = filled_sum F"
  by (induction F arbitrary: n) (auto simp: new_trade_def)

lemma fill_trades_mem:
  "t \<in> set (fill_trades mint h tk n F) \<Longrightarrow> \<exists>p q. (p, q) \<in> set F \<and> t_Price t = o_Price (h p) \<and> t_Quantity t = q"
  by (induction mint h tk n F rule: fill_trades.induct) (auto simp: new_trade_def)

text \<open>A maker gets something only when all makers before it, of other users, are completed.\<close>

lemma greedy_priority:
  assumes "(q, x) \<in> set (greedy h isBuy tk qty (xs @ ys))" and "q \<notin> set xs" and "p \<in> set xs"
    and "o_UserID (h p) \<noteq> o_UserID tk"
  shows "(p, remaining (h p)) \<in> set (greedy h isBuy tk qty (xs @ ys))"
  using assms
proof (induction xs arbitrary: qty)
  case (Cons z xs)
  have c: "\<not> no_cross isBuy (o_Price tk) (o_Price (h z))" using Cons.prems(1) by (auto split: if_splits)
  show ?case
  proof (cases "o_UserID (h z) = o_UserID tk")
    case True
    then have "p \<noteq> z" using Cons.prems(4) by auto
    then show ?thesis using Cons c True by simp
  next
    case False
    have lt: "\<not> qty - min qty (remaining (h z)) \<le> 0"
      using Cons.prems(1,2) c False by (auto simp: Let_def split: if_splits)
    then have m: "min qty (remaining (h z)) = remaining (h z)" by (auto simp: min_def)
    have q: "(q, x) \<in> set (greedy h isBuy tk (qty - remaining (h z)) (xs @ ys))"
      using Cons.prems(1,2) c False lt by (auto simp: Let_def m)
    have e: "greedy h isBuy tk qty ((z # xs) @ ys) =
        (z, remaining (h z)) # greedy h isBuy tk (qty - remaining (h z)) (xs @ ys)"
      using c False lt by (simp add: Let_def m)
    show ?thesis using Cons.IH [OF q] Cons.prems unfolding e by auto
  qed
qed simp

section \<open>The order of the visit\<close>

text \<open>
  \<open>p\<close> is served before \<open>q\<close>: at a price text that comes first in the order of strings, or earlier in
  the queue of the same price.
\<close>

definition served_before :: "'t book_env \<Rightarrow> 't \<Rightarrow> nat \<Rightarrow> nat \<Rightarrow> bool" where
  "served_before en t p q \<longleftrightarrow>
     (\<exists>k k'. k < k' \<and> p \<in> set (queues en t k) \<and> q \<in> set (queues en t k')) \<or>
     (\<exists>k xs ys. queues en t k = xs @ p # ys \<and> q \<in> set ys)"

lemma queue_item:
  assumes "p \<in> set (queues en t k)"
  obtains l where "(k, l) \<in> set (bt_Ascend (en_tree en) t)" and "queues en t k = pl_Orders l"
  using assms by (cases "tmap en t k") (auto simp: tmap_def dest: map_of_SomeD)

lemma makers_append: "makers (as @ bs) = makers as @ makers bs"
  by (simp add: makers_def)

lemma queue_maker:
  assumes "p \<in> set (queues en t k)"
  shows "p \<in> set (side_makers en t)"
  by (rule queue_item [OF assms]) (use assms in \<open>auto simp: makers_mem\<close>)

lemma maker_queue: "env_laws en \<Longrightarrow> p \<in> set (side_makers en t) \<Longrightarrow> \<exists>k. p \<in> set (queues en t k)"
  using queues_simps(2) by (metis side_maker_iff)

lemma served_before_split:
  assumes laws: "env_laws en" and "served_before en t p q"
  shows "\<exists>xs ys. side_makers en t = xs @ ys \<and> p \<in> set xs \<and> q \<in> set ys"
  using assms(2) unfolding served_before_def
proof (elim disjE exE conjE)
  fix k k' assume lt: "k < k'" and p: "p \<in> set (queues en t k)" and q: "q \<in> set (queues en t k')"
  obtain l where l: "(k, l) \<in> set (bt_Ascend (en_tree en) t)" "queues en t k = pl_Orders l" using p by (rule queue_item)
  obtain l' where l': "(k', l') \<in> set (bt_Ascend (en_tree en) t)" "queues en t k' = pl_Orders l'" using q by (rule queue_item)
  obtain as bs where ab: "bt_Ascend (en_tree en) t = as @ (k, l) # bs" using l(1) by (meson split_list)
  have "sorted_wrt (<) (map fst (bt_Ascend (en_tree en) t))"
    using laws by (simp add: env_laws_def btree_laws_def)
  then have "(k', l') \<notin> set as" using lt by (auto simp: ab sorted_wrt_append dest: order.asym)
  then have "(k', l') \<in> set bs" using l'(1) lt by (auto simp: ab)
  then show ?thesis
    using p q l(2) l'(2) by (intro exI [of _ "makers (as @ [(k, l)])"] exI [of _ "makers bs"])
      (auto simp: ab makers_append makers_mem)
next
  fix k xs ys assume x: "queues en t k = xs @ p # ys" and q: "q \<in> set ys"
  then have "p \<in> set (queues en t k)" by simp
  then obtain l where l: "(k, l) \<in> set (bt_Ascend (en_tree en) t)" "queues en t k = pl_Orders l" by (rule queue_item)
  obtain as bs where ab: "bt_Ascend (en_tree en) t = as @ (k, l) # bs" using l(1) by (meson split_list)
  then have "side_makers en t = (makers as @ xs @ [p]) @ ys @ makers bs" using x l(2) by (simp add: makers_append)
  then show ?thesis using q by (intro exI [of _ "makers as @ xs @ [p]"] exI [of _ "ys @ makers bs"]) simp
qed

text \<open>The makers come in ascending order of their price texts.\<close>

lemma makers_sorted:
  "sorted_wrt (<) (map fst items) \<Longrightarrow> (\<And>k l p. (k, l) \<in> set items \<Longrightarrow> p \<in> set (pl_Orders l) \<Longrightarrow> f p = k) \<Longrightarrow>
   sorted_wrt (\<lambda>p q. f p \<le> (f q :: string)) (makers items)"
proof (induction items)
  case (Cons item items)
  obtain k l where item: "item = (k, l)" by (metis surj_pair)
  have fl: "f p = k" if "p \<in> set (pl_Orders l)" for p using Cons.prems(2) [OF _ that, of k] item by simp
  have "k \<le> f q" if "q \<in> set (makers items)" for q
    using that Cons.prems(1,2) by (fastforce simp: item makers_mem)
  moreover have "sorted_wrt (\<lambda>p q. f p \<le> f q) (pl_Orders l)"
    using fl by (simp add: sorted_wrt_iff_nth_less)
  moreover have "sorted_wrt (\<lambda>p q. f p \<le> f q) (makers items)"
  proof (rule Cons.IH)
    show "f p = k" if "(k, l) \<in> set items" "p \<in> set (pl_Orders l)" for k l p
      by (rule Cons.prems(2) [OF _ that(2)]) (use that in simp)
  qed (use Cons.prems(1) in simp)
  ultimately show ?case using fl by (simp add: item sorted_wrt_append)
qed simp

section \<open>A call that succeeds\<close>

lemma AddOrder_Inr: "AddOrder en mint (Some tk) ob = (Inr res, ob') \<Longrightarrow> accepts tk ob"
  using AddOrder_refused [of tk ob en mint] by fastforce

lemma added:
  assumes laws: "env_laws en" and reach: "book_reach en ob" and fresh: "ob_ordersByID ob (o_ID (ob_heap ob tk)) = None"
    and add: "AddOrder en mint (Some tk) ob = (Inr res, ob')"
  shows "ar_Trades res = fill_trades mint (ob_heap ob) (ob_heap ob tk) 0 (book_fills en tk ob)"
    and "ob_heap ob' = fill_heap tk (book_fills en tk ob) (ob_heap ob)"
    and "i \<noteq> o_ID (ob_heap ob tk) \<Longrightarrow> ob_ordersByID ob' i = fill_ids (ob_heap ob) (book_fills en tk ob) (ob_ordersByID ob) i"
    and "taker_fills en (ob_heap ob) (ob_ordersByID ob) (opposite ob (ob_heap ob tk)) (o_Side (ob_heap ob tk) = ''BUY'')
      tk (book_fills en tk ob)"
proof -
  note acc = AddOrder_Inr [OF add]
  note R = refines_AddOrder [OF laws reach fresh acc refl refl refl, of mint, unfolded add]
  show "ar_Trades res = fill_trades mint (ob_heap ob) (ob_heap ob tk) 0 (book_fills en tk ob)" using R by auto
  show "ob_heap ob' = fill_heap tk (book_fills en tk ob) (ob_heap ob)" using R by auto
  show "ob_ordersByID ob' i = fill_ids (ob_heap ob) (book_fills en tk ob) (ob_ordersByID ob) i"
    if "i \<noteq> o_ID (ob_heap ob tk)" using R that by auto
  show "taker_fills en (ob_heap ob) (ob_ordersByID ob) (opposite ob (ob_heap ob tk)) (o_Side (ob_heap ob tk) = ''BUY'')
      tk (book_fills en tk ob)"
    by (rule book_taker_fills [OF laws reach_ok [OF laws reach] reach_fresh [OF laws reach fresh]])
      (use acc in \<open>simp add: accepts_def\<close>)
qed

text \<open>What is known of one fill.\<close>

lemma fill_facts:
  assumes T: "taker_fills en h ids opp buy tk F" and m: "(p, q) \<in> set F"
  shows "p \<in> set (side_makers en opp) \<and> 0 < q \<and> q \<le> remaining (h p) \<and>
    \<not> no_cross buy (o_Price (h tk)) (o_Price (h p)) \<and> o_UserID (h p) \<noteq> o_UserID (h tk)"
proof -
  note t = taker_fillsD [OF T]
  have pos: "0 < remaining (h r)" if "r \<in> set (side_makers en opp)" for r
    using side_facts(5) [OF t(1,2) that] by simp
  show ?thesis using greedy_fills [OF t(4) pos m [unfolded t(5)]] fill_ok(1) [OF T m] by blast
qed

lemma fill_total:
  assumes T: "taker_fills en h ids opp buy tk F"
  shows "0 \<le> filled_sum F \<and> filled_sum F \<le> remaining (h tk)"
proof -
  note t = taker_fillsD [OF T]
  have pos: "0 < remaining (h r)" if "r \<in> set (side_makers en opp)" for r
    using side_facts(5) [OF t(1,2) that] by simp
  show ?thesis unfolding t(5) by (rule greedy_sum [OF t(4) pos])
qed

section \<open>The simulated match\<close>

text \<open>One level of the simulation is the greedy match of its orders, when its price crosses.\<close>

lemma can_fill_level_ref:
  assumes "filled < qtyLeft" and "\<And>p. p \<in> set ps \<Longrightarrow> 0 < remaining (h p)"
    and "\<And>p. p \<in> set ps \<Longrightarrow> \<not> no_cross isBuy (o_Price ord) (o_Price (h p))"
    and "S = filled_sum (greedy h isBuy ord (qtyLeft - filled) ps)"
  shows "can_fill_level h ord qtyLeft ps filled = (qtyLeft \<le> filled + S, filled + S)"
  using assms
proof (induction ps arbitrary: filled S)
  case (Cons p ps)
  let ?q = "min (qtyLeft - filled) (remaining (h p))"
  have pos: "\<not> o_FilledQuantity (h p) \<ge> o_Quantity (h p)" "0 < ?q" and c: "\<not> no_cross isBuy (o_Price ord) (o_Price (h p))"
    using Cons.prems(1) Cons.prems(2,3) [of p] by (simp_all add: remaining_def)
  have IH: "can_fill_level h ord qtyLeft ps f = (qtyLeft \<le> f + T, f + T)"
    if "f < qtyLeft" "T = filled_sum (greedy h isBuy ord (qtyLeft - f) ps)" for f T
    using Cons.IH [OF that(1) _ _ that(2)] Cons.prems(2,3) by simp
  show ?case
  proof (cases "o_UserID (h p) = o_UserID ord")
    case True
    then show ?thesis using IH [OF Cons.prems(1)] pos(1) c Cons.prems(4) by simp
  next
    case False
    have S: "S = ?q + (if qtyLeft - filled - ?q \<le> 0 then 0
        else filled_sum (greedy h isBuy ord (qtyLeft - filled - ?q) ps))"
      using Cons.prems(4) False c by (simp add: Let_def)
    show ?thesis
    proof (cases "qtyLeft \<le> filled + ?q")
      case True
      then show ?thesis using pos False S by (simp add: Let_def)
    next
      case lt: False
      then have lt': "filled + remaining (h p) < qtyLeft" by (auto simp: min_def split: if_splits)
      have "can_fill_level h ord qtyLeft (p # ps) filled = can_fill_level h ord qtyLeft ps (filled + ?q)"
        using pos False lt by (simp only: can_fill_level.simps Let_def if_False not_le [symmetric] simp_thms)
      also have "\<dots> = (qtyLeft \<le> filled + ?q + (S - ?q), filled + ?q + (S - ?q))"
        by (rule IH) (use lt lt' S in \<open>simp_all add: algebra_simps min_def\<close>)
      finally show ?thesis by simp
    qed
  qed
qed simp

text \<open>
  The simulation of all levels finds no more than the greedy match; a level with no visible order can
  stop it early, otherwise it finds as much.
\<close>

lemma can_fill_levels_ref:
  assumes "o_Type ord = ''LIMIT'' \<or> o_Type ord = ''FOK''" and "filled < qtyLeft"
    and "\<And>k l p. (k, l) \<in> set items \<Longrightarrow> p \<in> set (pl_Orders l) \<Longrightarrow> en_parse en k = Some (o_Price (h p)) \<and> 0 < remaining (h p)"
  shows "can_fill_levels en h ord isBuy qtyLeft items filled \<le>
      filled + filled_sum (greedy h isBuy ord (qtyLeft - filled) (makers items)) \<and>
    ((\<forall>(k, l) \<in> set items. pl_Orders l \<noteq> []) \<longrightarrow> can_fill_levels en h ord isBuy qtyLeft items filled =
      filled + filled_sum (greedy h isBuy ord (qtyLeft - filled) (makers items)))"
  using assms(2,3)
proof (induction items arbitrary: filled)
  case (Cons item items)
  obtain k l where item: "item = (k, l)" by (metis surj_pair)
  let ?G = "\<lambda>f its. filled_sum (greedy h isBuy ord (qtyLeft - f) (makers its))"
  have os: "en_parse en k = Some (o_Price (h p)) \<and> 0 < remaining (h p)" if "p \<in> set (pl_Orders l)" for p
    using Cons.prems(2) [of k l p] that item by simp
  have all: "0 < remaining (h p)" if "p \<in> set (makers (item # items))" for p
    using that Cons.prems(2) by (auto simp: makers_mem)
  have "0 \<le> ?G filled (item # items)"
    using greedy_sum [of "qtyLeft - filled" "makers (item # items)" h isBuy ord] Cons.prems(1) all by simp
  then have nn: "filled \<le> filled + ?G filled (item # items)" by simp
  show ?case
  proof (cases "\<exists>price. en_parse en k = Some price \<and> \<not> no_cross isBuy (o_Price ord) price")
    case False
    then have "can_fill_levels en h ord isBuy qtyLeft (item # items) filled = filled"
      using assms(1) by (auto simp: item split: option.splits)
    moreover have "?G filled (item # items) = 0" if "pl_Orders l \<noteq> []"
    proof -
      obtain p ps where p: "pl_Orders l = p # ps" using \<open>pl_Orders l \<noteq> []\<close> by (cases "pl_Orders l") auto
      then have "no_cross isBuy (o_Price ord) (o_Price (h p))" using False os [of p] by auto
      then show ?thesis by (simp add: item p)
    qed
    ultimately show ?thesis using nn by (auto simp: item)
  next
    case True
    then obtain price where pr: "en_parse en k = Some price" "\<not> no_cross isBuy (o_Price ord) price" by blast
    have pos: "0 < remaining (h p)" "\<not> no_cross isBuy (o_Price ord) (o_Price (h p))" if "p \<in> set (pl_Orders l)" for p
      using os [OF that] pr by auto
    define S where "S = filled_sum (greedy h isBuy ord (qtyLeft - filled) (pl_Orders l))"
    have lev: "can_fill_level h ord qtyLeft (pl_Orders l) filled = (qtyLeft \<le> filled + S, filled + S)"
      by (rule can_fill_level_ref [OF Cons.prems(1) pos S_def])
    have app: "greedy h isBuy ord (qtyLeft - filled) (pl_Orders l @ makers items) =
        greedy h isBuy ord (qtyLeft - filled) (pl_Orders l) @
        (if S < qtyLeft - filled then greedy h isBuy ord (qtyLeft - filled - S) (makers items) else [])"
      unfolding S_def by (rule greedy_append) (use Cons.prems(1) pos in auto)
    then have G: "?G filled (item # items) = S + (if filled + S < qtyLeft then ?G (filled + S) items else 0)"
      by (simp add: item S_def [symmetric] algebra_simps)
    show ?thesis
    proof (cases "qtyLeft \<le> filled + S")
      case True
      then show ?thesis using pr lev G by (simp add: item)
    next
      case lt: False
      then have "can_fill_levels en h ord isBuy qtyLeft (item # items) filled =
          can_fill_levels en h ord isBuy qtyLeft items (filled + S)" using pr lev by (simp add: item)
      moreover have "can_fill_levels en h ord isBuy qtyLeft items (filled + S) \<le> (filled + S) + ?G (filled + S) items \<and>
        ((\<forall>(k, l) \<in> set items. pl_Orders l \<noteq> []) \<longrightarrow>
          can_fill_levels en h ord isBuy qtyLeft items (filled + S) = (filled + S) + ?G (filled + S) items)"
        by (rule Cons.IH) (use lt Cons.prems(2) in auto)
      ultimately show ?thesis using lt G by (auto simp: item)
    qed
  qed
qed simp

end
