(* ===== verification/BookInstance.thy ===== *)
theory BookInstance
  imports BookMatching
begin

text \<open>
  An instance of the order book's environment, on which the witnesses of its properties compute: an
  association list for the B-tree, visited in the order of its keys, and a text for every decimal,
  integers as the decimal library prints them and other values as a fraction.
\<close>

section \<open>The tree\<close>

type_synonym alist_tree = "(string \<times> price_level) list"

definition alist_keys :: "alist_tree \<Rightarrow> string list" where
  "alist_keys t = sort (remdups (map fst t))"

fun alist_at :: "alist_tree \<Rightarrow> string \<Rightarrow> price_level" where
  "alist_at [] k = new_level"
| "alist_at ((k', l) # t) k = (if k = k' then l else alist_at t k)"

definition alist_Ascend :: "alist_tree \<Rightarrow> (string \<times> price_level) list" where
  "alist_Ascend t = map (\<lambda>k. (k, alist_at t k)) (alist_keys t)"

definition alist_ops :: "alist_tree btree_ops" where
  "alist_ops = \<lparr>bt_New = [], bt_Get = (\<lambda>k t. map_of t k), bt_Set = (\<lambda>k l t. (k, l) # t),
     bt_Delete = (\<lambda>k t. filter (\<lambda>kl. fst kl \<noteq> k) t), bt_Ascend = alist_Ascend\<rparr>"

lemma alist_at_map: "map_of t k = Some l \<Longrightarrow> alist_at t k = l"
  by (induction t) (auto split: if_splits)

lemma map_of_keys: "map_of (map (\<lambda>k. (k, f k)) ks) k = (if k \<in> set ks then Some (f k) else None)"
  by (induction ks) auto

lemma map_of_alist_Ascend: "map_of (alist_Ascend t) = map_of t"
proof
  fix k show "map_of (alist_Ascend t) k = map_of t k"
  proof (cases "map_of t k")
    case None
    then have "k \<notin> fst ` set t" by (simp add: map_of_eq_None_iff)
    then show ?thesis using None by (simp add: alist_Ascend_def alist_keys_def map_of_keys)
  next
    case (Some l)
    then have "k \<in> fst ` set t" by (metis map_of_eq_None_iff option.distinct(1))
    then show ?thesis using Some by (simp add: alist_Ascend_def alist_keys_def map_of_keys alist_at_map)
  qed
qed

lemma map_of_filter_key: "map_of (filter (\<lambda>kl. fst kl \<noteq> k) t) = (map_of t)(k := None)"
  by (induction t) (auto simp: fun_eq_iff)

lemma alist_laws: "btree_laws alist_ops"
proof -
  have "sorted_wrt (<) (map fst (alist_Ascend t))" for t
    by (simp add: alist_Ascend_def alist_keys_def strict_sorted_iff comp_def)
  moreover have "alist_Ascend [] = []" by (simp add: alist_Ascend_def alist_keys_def)
  ultimately show ?thesis by (simp add: btree_laws_def alist_ops_def map_of_alist_Ascend map_of_filter_key)
qed

section \<open>The decimals\<close>

fun read_nat :: "string \<Rightarrow> nat" where
  "read_nat s = fold (\<lambda>c n. 10 * n + (of_char c - 48)) s 0"

definition show_dec :: "decimal \<Rightarrow> string" where
  "show_dec d = (case quotient_of d of (n, m) \<Rightarrow>
     show_int n @ (if m = 1 then [] else CHR ''/'' # show_nat (nat m)))"

definition read_int :: "string \<Rightarrow> int" where
  "read_int s = (case s of c # cs \<Rightarrow> (if c = CHR ''-'' then - int (read_nat cs) else int (read_nat s)) | [] \<Rightarrow> 0)"

definition read_dec :: "string \<Rightarrow> decimal option" where
  "read_dec s =
     (let n = takeWhile (\<lambda>c. c \<noteq> CHR ''/'') s; m = tl (dropWhile (\<lambda>c. c \<noteq> CHR ''/'') s)
      in Some (Fract (read_int n) (if m = [] then 1 else int (read_nat m))))"

lemma digit_value: "d < 10 \<Longrightarrow> of_char (digit_char d) = 48 + (d::nat)"
proof -
  assume "d < 10"
  then have "d \<in> {0, 1, 2, 3, 4, 5, 6, 7, 8, 9}" by auto
  then show ?thesis by (elim insertE) (simp_all add: digit_char_def)
qed

lemma read_show_nat: "read_nat (show_nat n) = n"
proof (induction n rule: show_nat.induct)
  case (1 n)
  have d: "of_char (digit_char (n mod 10)) = 48 + n mod 10" by (rule digit_value) simp
  show ?case
  proof (cases "n < 10")
    case True
    then show ?thesis using d by (subst show_nat.simps) simp
  next
    case False
    then have "fold (\<lambda>c n. 10 * n + (of_char c - 48)) (show_nat (n div 10)) 0 = n div 10" using 1 by simp
    then show ?thesis using False d by (subst show_nat.simps) simp
  qed
qed

lemma slash_show_nat: "CHR ''/'' \<notin> set (show_nat n)"
proof (induction n rule: show_nat.induct)
  case (1 n)
  have "CHR ''/'' \<noteq> digit_char m" for m
  proof -
    have "digit_char m \<in> set ''0123456789abcdef''" unfolding digit_char_def by (rule nth_mem) simp
    then show ?thesis by auto
  qed
  then show ?case using 1 by (subst show_nat.simps) simp
qed

lemma read_show_int: "read_int (show_int i) = i"
proof (cases "i < 0")
  case False
  then obtain c cs where c: "show_nat (nat i) = c # cs" by (cases "show_nat (nat i)") auto
  have "c \<noteq> CHR ''-''" using minus_show_nat [of "nat i"] by (auto simp: c)
  then show ?thesis using False read_show_nat [of "nat i"] c by (simp add: show_int_def read_int_def)
qed (simp add: show_int_def read_int_def read_show_nat del: read_nat.simps)

lemma slash_show_int: "CHR ''/'' \<notin> set (show_int i)"
  using slash_show_nat by (simp add: show_int_def)

lemma read_show_dec: "read_dec (show_dec d) = Some d"
proof -
  obtain n m where q: "quotient_of d = (n, m)" by (metis surj_pair)
  have t: "takeWhile (\<lambda>c. c \<noteq> CHR ''/'') (show_int n @ s) = show_int n @ takeWhile (\<lambda>c. c \<noteq> CHR ''/'') s"
    "dropWhile (\<lambda>c. c \<noteq> CHR ''/'') (show_int n @ s) = dropWhile (\<lambda>c. c \<noteq> CHR ''/'') s" for s
    using slash_show_int [of n] by (auto intro: takeWhile_append2 dropWhile_append2)
  have m: "0 < m" using quotient_of_denom_pos [OF q] .
  have d: "d = Fract n m" using quotient_of_div [OF q] by (simp add: Fract_of_int_quotient)
  show ?thesis
    using m unfolding read_dec_def show_dec_def q prod.case Let_def t d [symmetric]
    by (simp add: d read_show_int read_show_nat del: read_nat.simps)
qed

section \<open>The instance\<close>

definition alist_env :: "alist_tree book_env" where
  "alist_env = \<lparr>en_tree = alist_ops, en_dstr = show_dec, en_parse = read_dec\<rparr>"

lemma alist_env_laws: "env_laws alist_env"
  using alist_laws read_show_dec by (simp add: env_laws_def alist_env_def)

end
