(* ===== verification/BookTheorems.thy ===== *)
theory BookTheorems
  imports BookProperties BookInstance
begin

text \<open>
  The order book's correctness: what its operations do in every history, what the trades of an order
  are, in which order makers are served, and what the entry points of the engine do with a refused
  order. Witnesses compute on the instance of \<open>BookInstance\<close>.
\<close>

section \<open>An example\<close>

text \<open>
  For the witnesses: two users, orders of one unit. Order 1 asks 9, order 2 asks 10, order 3 bids 9, order
  4 bids 10, order 5 bids 10 for two units.
\<close>

definition unit_order :: "uuid \<Rightarrow> uuid \<Rightarrow> string \<Rightarrow> decimal \<Rightarrow> order" where
  "unit_order oid user side price = zero_order\<lparr>o_ID := oid, o_UserID := user, o_Side := side, o_Price := price,
     o_Quantity := 1, o_Type := ''LIMIT'', o_TimeInForce := ''GTC''\<rparr>"

definition demo_heap :: order_heap where
  "demo_heap = (\<lambda>p. if p = 1 then unit_order 1 1 ''SELL'' 9 else if p = 2 then unit_order 2 1 ''SELL'' 10
     else if p = 3 then unit_order 3 2 ''BUY'' 9 else if p = 4 then unit_order 4 2 ''BUY'' 10
     else if p = 5 then (unit_order 5 2 ''BUY'' 10)\<lparr>o_Quantity := 2\<rparr> else zero_order)"

definition demo_mint :: "nat \<Rightarrow> uuid \<times> time" where
  "demo_mint n = (n, 0)"

definition demo_add :: "nat \<Rightarrow> alist_tree order_book \<Rightarrow> alist_tree order_book" where
  "demo_add p ob = snd (AddOrder alist_env demo_mint (Some p) ob)"

abbreviation (input) demo_book :: "alist_tree order_book" where
  "demo_book \<equiv> NewOrderBook alist_env ''BTC-USD'' demo_heap"

lemma demo_reach:
  "book_reach alist_env demo_book"
  "book_reach alist_env ob \<Longrightarrow> ob_ordersByID ob (o_ID (ob_heap ob p)) = None \<Longrightarrow> book_reach alist_env (demo_add p ob)"
  unfolding demo_add_def by (rule bk_new, rule bk_add)

text \<open>The book with both asks.\<close>

definition ask_book :: "alist_tree order_book" where
  "ask_book = demo_add 2 (demo_add 1 demo_book)"

lemma ask_reach: "book_reach alist_env ask_book"
  unfolding ask_book_def by (rule demo_reach(2) [OF demo_reach(2) [OF demo_reach(1)]]) code_simp+

lemma demo_dom:
  assumes "book_reach alist_env ob" and "ob_ordersByID ob (o_ID (ob_heap ob p)) = None"
  shows "dom (ob_ordersByID (demo_add p ob)) \<subseteq> insert (o_ID (ob_heap ob p)) (dom (ob_ordersByID ob))"
proof (cases "accepts p ob")
  case True
  have "fill_ids h F ids i = Some x \<Longrightarrow> ids i = Some x" for h F i x and ids :: "uuid \<rightharpoonup> nat"
    by (simp add: fill_ids_def split: if_splits)
  moreover have "ob_ordersByID (demo_add p ob) \<in> {fill_ids (ob_heap ob) (book_fills alist_env p ob) (ob_ordersByID ob),
      (fill_ids (ob_heap ob) (book_fills alist_env p ob) (ob_ordersByID ob))(o_ID (ob_heap ob p) \<mapsto> p)}"
    using refines_AddOrder [OF alist_env_laws assms True refl refl refl, of demo_mint] by (auto simp: demo_add_def)
  ultimately show ?thesis by (fastforce simp: dom_def)
next
  case False
  then show ?thesis using AddOrder_refused [OF False, of alist_env demo_mint] by (auto simp: demo_add_def)
qed

lemma ask_dom: "dom (ob_ordersByID ask_book) \<subseteq> {1, 2}"
proof -
  have r: "book_reach alist_env (demo_add 1 demo_book)" by (rule demo_reach(2) [OF demo_reach(1)]) code_simp
  have n: "ob_ordersByID (demo_add 1 demo_book) (o_ID (ob_heap (demo_add 1 demo_book) 2)) = None"
    "ob_ordersByID demo_book (o_ID (ob_heap demo_book 1)) = None" by code_simp+
  have i: "o_ID (ob_heap (demo_add 1 demo_book) 2) = 2" "o_ID (ob_heap demo_book 1) = 1" by code_simp+
  have "dom (ob_ordersByID demo_book) = {}" by (simp add: NewOrderBook_def)
  then show ?thesis
    using demo_dom [OF r n(1)] demo_dom [OF demo_reach(1) n(2)] unfolding i ask_book_def by blast
qed

text \<open>The same book with order 1 marked as cancelled.\<close>

definition marked_book :: "alist_tree order_book" where
  "marked_book = ask_book\<lparr>ob_heap := (ob_heap ask_book)(1 := (ob_heap ask_book 1)\<lparr>o_Status := ''CANCELLED''\<rparr>)\<rparr>"

section \<open>Adding\<close>

text \<open>
  C3: Adding an accepted order with a new ID to a reachable book is the greedy match of its open quantity against the resting orders of
  the other side: those are the trades, the fills of taker and makers, and the completed makers are
  all that leaves the other side and the index. An open rest goes to the end of the queue of its price,
  unless the order is immediate-or-cancel or fill-or-kill; the queue of a price that already holds 255
  orders is lost instead.
\<close>

theorem AddOrder_refines:
  assumes "env_laws en" and "book_reach en ob" and "ob_ordersByID ob (o_ID (ob_heap ob tk)) = None" and "accepts tk ob"
    and "F = book_fills en tk ob" and "ord = ob_heap ob tk" and "r = rests ord (filled_sum F)"
  shows "\<exists>ob'. AddOrder en mint (Some tk) ob =
      (Inr \<lparr>ar_Trades = fill_trades mint (ob_heap ob) ord 0 F, ar_RestingOrders = (if r then [tk] else [])\<rparr>, ob') \<and>
    ob_heap ob' = fill_heap tk F (ob_heap ob) \<and>
    ob_ordersByID ob' = (if r then (fill_ids (ob_heap ob) F (ob_ordersByID ob))(o_ID ord \<mapsto> tk)
      else fill_ids (ob_heap ob) F (ob_ordersByID ob)) \<and>
    queues en (opposite ob' ord) = (\<lambda>k. filter (\<lambda>p. p \<notin> completed (ob_heap ob) F) (queues en (opposite ob ord) k)) \<and>
    queues en (own_side ob' ord) = (\<lambda>k.
      if r \<and> k = en_dstr en (o_Price ord)
      then (if length (queues en (own_side ob ord) k) = 255 then [] else queues en (own_side ob ord) k @ [tk])
      else queues en (own_side ob ord) k)"
  by (rule refines_AddOrder [OF assms])

text \<open>Order 4 meets the two asks: it takes the one at 10, which the tree visits first.\<close>

lemma AddOrder_refines_witness:
  "\<exists>ob'. AddOrder alist_env demo_mint (Some 4) ask_book =
      (Inr \<lparr>ar_Trades = [new_trade (0, 0) (unit_order 4 2 ''BUY'' 10) 10 1], ar_RestingOrders = []\<rparr>, ob') \<and>
    queues alist_env (ob_asks ob') ''9'' = [1] \<and> queues alist_env (ob_asks ob') ''10'' = []"
proof -
  let ?ord = "unit_order 4 2 ''BUY'' 10"
  have F: "book_fills alist_env 4 ask_book = [(2, 1)]" by code_simp
  have acc: "accepts 4 ask_book" by code_simp
  have new: "ob_ordersByID ask_book (o_ID (ob_heap ask_book 4)) = None" by code_simp
  have ord: "ob_heap ask_book 4 = ?ord" by code_simp
  have "remaining (ob_heap ask_book 2) = 1" by code_simp
  then have c: "completed (ob_heap ask_book) [(2, 1)] = {2}" by (simp add: completed_Cons)
  have r: "\<not> rests ?ord (filled_sum [(2, 1)])" by code_simp
  have q: "queues alist_env (ob_asks ask_book) ''9'' = [1]" "queues alist_env (ob_asks ask_book) ''10'' = [2]" by code_simp+
  have t: "o_Price (ob_heap ask_book 2) = 10" "demo_mint 0 = (0, 0)" by code_simp+
  have o': "opposite ob ?ord = ob_asks ob" for ob :: "alist_tree order_book"
    by (simp add: opposite_def unit_order_def)
  show ?thesis
    using AddOrder_refines [OF alist_env_laws ask_reach new acc refl refl refl, unfolded F ord, of demo_mint] r
    by (auto simp: c q t o')
qed

section \<open>Histories\<close>



section \<open>The trades of an order\<close>

text \<open>
  C5: For an order with a new ID on a reachable book, the quantities of its trades add up to what it is filled by, which is never more than it
  was open for; and each trade is with a resting order of the other side, of another user, at that
  order's price, which crosses the limit, for at most the open quantity of that order.
\<close>

theorem trades_sound:
  assumes "env_laws en" and "book_reach en ob" and "ob_ordersByID ob (o_ID (ob_heap ob tk)) = None"
    and "AddOrder en mint (Some tk) ob = (Inr res, ob')"
  shows "sum_list (map t_Quantity (ar_Trades res)) = o_FilledQuantity (ob_heap ob' tk) - o_FilledQuantity (ob_heap ob tk) \<and>
    sum_list (map t_Quantity (ar_Trades res)) \<le> remaining (ob_heap ob tk) \<and>
    (\<forall>t \<in> set (ar_Trades res). \<exists>k p. p \<in> set (queues en (opposite ob (ob_heap ob tk)) k) \<and>
       t_Price t = o_Price (ob_heap ob p) \<and> 0 < t_Quantity t \<and> t_Quantity t \<le> remaining (ob_heap ob p) \<and>
       \<not> no_cross (o_Side (ob_heap ob tk) = ''BUY'') (o_Price (ob_heap ob tk)) (t_Price t) \<and>
       o_UserID (ob_heap ob p) \<noteq> o_UserID (ob_heap ob tk))"
proof -
  note A = added [OF assms]
  have "\<exists>k p. p \<in> set (queues en (opposite ob (ob_heap ob tk)) k) \<and>
       t_Price t = o_Price (ob_heap ob p) \<and> 0 < t_Quantity t \<and> t_Quantity t \<le> remaining (ob_heap ob p) \<and>
       \<not> no_cross (o_Side (ob_heap ob tk) = ''BUY'') (o_Price (ob_heap ob tk)) (t_Price t) \<and>
       o_UserID (ob_heap ob p) \<noteq> o_UserID (ob_heap ob tk)" if mem: "t \<in> set (ar_Trades res)" for t
  proof -
    obtain p q where pq: "(p, q) \<in> set (book_fills en tk ob)" "t_Price t = o_Price (ob_heap ob p)" "t_Quantity t = q"
      using fill_trades_mem [OF mem [unfolded A(1)]] by blast
    note F = fill_facts [OF A(4) pq(1)]
    obtain k where "p \<in> set (queues en (opposite ob (ob_heap ob tk)) k)"
      using maker_queue [OF assms(1)] F by blast
    then show ?thesis using F pq(2,3) by auto
  qed
  then show ?thesis using fill_total [OF A(4)] by (simp add: A(1,2) fill_trades_sum)
qed

lemma trades_sound_witness:
  "map t_Quantity (ar_Trades (projr (fst (AddOrder alist_env demo_mint (Some 4) ask_book)))) = [1] \<and>
   (case AddOrder alist_env demo_mint (Some 4) ask_book of (Inr res, ob') \<Rightarrow>
      sum_list (map t_Quantity (ar_Trades res)) = o_FilledQuantity (ob_heap ob' 4) | _ \<Rightarrow> False)"
proof -
  have new: "ob_ordersByID ask_book (o_ID (ob_heap ask_book 4)) = None" by code_simp
  have v: "map t_Quantity (ar_Trades (projr (fst (AddOrder alist_env demo_mint (Some 4) ask_book)))) = [1]"
    "isl (fst (AddOrder alist_env demo_mint (Some 4) ask_book)) = False"
    "o_FilledQuantity (ob_heap ask_book 4) = 0" by code_simp+
  obtain res ob' where add: "AddOrder alist_env demo_mint (Some 4) ask_book = (Inr res, ob')"
    using v(2) by (metis fst_conv isl_def surj_pair sum.exhaust)
  show ?thesis using trades_sound [OF alist_env_laws ask_reach new add] v by (simp add: add)
qed

section \<open>Who is served first\<close>

text \<open>
  C6: On a reachable book makers are served by price text and then in the order of their arrival: an order with a new ID that
  touches a maker has filled completely, and removed, every maker of another user before it.
\<close>

theorem matching_priority:
  assumes "env_laws en" and "book_reach en ob" and "ob_ordersByID ob (o_ID (ob_heap ob tk)) = None"
    and "AddOrder en mint (Some tk) ob = (Inr res, ob')"
    and "served_before en (opposite ob (ob_heap ob tk)) p q" and "ob_heap ob' q \<noteq> ob_heap ob q"
    and "o_UserID (ob_heap ob p) \<noteq> o_UserID (ob_heap ob tk)"
  shows "ob_ordersByID ob (o_ID (ob_heap ob p)) = Some p \<and> ob_ordersByID ob' (o_ID (ob_heap ob p)) = None"
proof -
  note A = added [OF assms(1-4)]
  note t = taker_fillsD [OF A(4)]
  obtain xs ys where s: "side_makers en (opposite ob (ob_heap ob tk)) = xs @ ys" "p \<in> set xs" "q \<in> set ys"
    using served_before_split [OF assms(1,5)] by blast
  note sf = side_facts [OF t(1,2)]
  have qx: "q \<notin> set xs" using sf(1) s by auto
  have p: "ob_ordersByID ob (o_ID (ob_heap ob p)) = Some p" using sf(5) [of p] s by simp
  have "q \<noteq> tk" using sf(5) [of q] s t(3) by (auto simp: ran_def)
  then obtain x where "(q, x) \<in> set (book_fills en tk ob)"
    using assms(6) fill_heap_other [of q tk "book_fills en tk ob" "ob_heap ob"] A(2) by force
  then have "(p, remaining (ob_heap ob p)) \<in> set (book_fills en tk ob)"
    using greedy_priority [where h = "ob_heap ob" and tk = "ob_heap ob tk", OF _ qx s(2) assms(7)] t(5) s(1) by metis
  then have "p \<in> completed (ob_heap ob) (book_fills en tk ob)" by (auto simp: completed_def)
  moreover have "o_ID (ob_heap ob p) \<noteq> o_ID (ob_heap ob tk)" using p assms(3) by auto
  ultimately show ?thesis using p A(3) by (auto simp: fill_ids_def)
qed

text \<open>Order 5 takes the ask at 9 only after the one at 10.\<close>

lemma matching_priority_witness:
  "case AddOrder alist_env demo_mint (Some 5) ask_book of
     (Inr res, ob') \<Rightarrow> ob_heap ob' 1 \<noteq> ob_heap ask_book 1 \<and> ob_ordersByID ask_book 2 = Some 2 \<and> ob_ordersByID ob' 2 = None
   | _ \<Rightarrow> False"
proof -
  have new: "ob_ordersByID ask_book (o_ID (ob_heap ask_book 5)) = None" by code_simp
  have r: "isl (fst (AddOrder alist_env demo_mint (Some 5) ask_book)) = False" by code_simp
  obtain res ob' where add: "AddOrder alist_env demo_mint (Some 5) ask_book = (Inr res, ob')"
    using r by (metis fst_conv isl_def surj_pair sum.exhaust)
  have "o_Quantity (ob_heap (snd (AddOrder alist_env demo_mint (Some 5) ask_book)) 1) = 0"
    "o_Quantity (ob_heap ask_book 1) = 1" by code_simp+
  then have q: "ob_heap ob' 1 \<noteq> ob_heap ask_book 1" using add by force
  have "queues alist_env (ob_asks ask_book) ''10'' = [2]" "queues alist_env (ob_asks ask_book) ''9'' = [1]"
    "''10'' < (''9''::string)" by code_simp+
  then have b: "served_before alist_env (ob_asks ask_book) 2 1"
    unfolding served_before_def by (metis list.set_intros(1))
  have o': "opposite ask_book (ob_heap ask_book 5) = ob_asks ask_book" and u: "o_UserID (ob_heap ask_book 2) \<noteq> o_UserID (ob_heap ask_book 5)"
    and i: "o_ID (ob_heap ask_book 2) = 2" by code_simp+
  show ?thesis
    using matching_priority [OF alist_env_laws ask_reach new add b [folded o'] q u] q by (simp add: add i)
qed

section \<open>The simulation predicts the match\<close>

text \<open>
  C9: For a limit or fill-or-kill order with a new ID on a reachable book \<open>CanFullyFill\<close> only says yes when adding the order fills it
  completely; and it says so exactly then, if no level of the other side has lost its orders.
\<close>

theorem CanFullyFill_exact:
  assumes "env_laws en" and "book_reach en ob" and "ob_ordersByID ob (o_ID (ob_heap ob tk)) = None"
    and "AddOrder en mint (Some tk) ob = (Inr res, ob')"
    and "o_Type (ob_heap ob tk) = ''LIMIT'' \<or> o_Type (ob_heap ob tk) = ''FOK''"
  shows "(CanFullyFill en (Some tk) ob \<longrightarrow> o_FilledQuantity (ob_heap ob' tk) = o_Quantity (ob_heap ob tk)) \<and>
    ((\<forall>(k, l) \<in> set (bt_Ascend (en_tree en) (opposite ob (ob_heap ob tk))). pl_Orders l \<noteq> []) \<longrightarrow>
      CanFullyFill en (Some tk) ob \<longleftrightarrow> o_FilledQuantity (ob_heap ob' tk) = o_Quantity (ob_heap ob tk))"
proof -
  note A = added [OF assms(1-4)]
  note t = taker_fillsD [OF A(4)]
  let ?ord = "ob_heap ob tk" and ?items = "bt_Ascend (en_tree en) (opposite ob (ob_heap ob tk))"
  have lvl: "en_parse en k = Some (o_Price (ob_heap ob p)) \<and> 0 < remaining (ob_heap ob p)"
    if kl: "(k, l) \<in> set ?items" and p: "p \<in> set (pl_Orders l)" for k l p
    using side_okD(3,5) [OF t(2) side_facts(4) [OF t(1,2) kl] p] tree_laws(6) [OF t(1)] by simp
  have R: "can_fill_levels en (ob_heap ob) ?ord (o_Side ?ord = ''BUY'') (remaining ?ord) ?items 0 \<le> filled_sum (book_fills en tk ob) \<and>
      ((\<forall>(k, l) \<in> set ?items. pl_Orders l \<noteq> []) \<longrightarrow>
        can_fill_levels en (ob_heap ob) ?ord (o_Side ?ord = ''BUY'') (remaining ?ord) ?items 0 = filled_sum (book_fills en tk ob))"
    using can_fill_levels_ref [OF assms(5) t(4), of ?items en "ob_heap ob" "o_Side ?ord = ''BUY''"] lvl
    by (simp add: book_fills_def)
  have C: "CanFullyFill en (Some tk) ob \<longleftrightarrow> remaining ?ord \<le>
      can_fill_levels en (ob_heap ob) ?ord (o_Side ?ord = ''BUY'') (remaining ?ord) ?items 0"
    using t(4) by (simp add: CanFullyFill_def opposite_def Let_def)
  have full: "o_FilledQuantity (ob_heap ob' tk) = o_Quantity ?ord \<longleftrightarrow> filled_sum (book_fills en tk ob) = remaining ?ord"
    by (auto simp: A(2) remaining_def)
  show ?thesis
    using R fill_total [OF A(4)] unfolding C full by auto
qed

lemma CanFullyFill_exact_witness:
  "CanFullyFill alist_env (Some 5) ask_book \<and>
   (case AddOrder alist_env demo_mint (Some 5) ask_book of
      (Inr res, ob') \<Rightarrow> o_FilledQuantity (ob_heap ob' 5) = 2 | _ \<Rightarrow> False)"
proof -
  have new: "ob_ordersByID ask_book (o_ID (ob_heap ask_book 5)) = None"
    and t: "o_Type (ob_heap ask_book 5) = ''LIMIT''" and q: "o_Quantity (ob_heap ask_book 5) = 2"
    and c: "CanFullyFill alist_env (Some 5) ask_book"
    and r: "isl (fst (AddOrder alist_env demo_mint (Some 5) ask_book)) = False" by code_simp+
  obtain res ob' where add: "AddOrder alist_env demo_mint (Some 5) ask_book = (Inr res, ob')"
    using r by (metis fst_conv isl_def surj_pair sum.exhaust)
  show ?thesis using CanFullyFill_exact [OF alist_env_laws ask_reach new add] t c q by (simp add: add)
qed

section \<open>Prices as texts\<close>

text \<open>
  The order whose price text comes first in the order of strings decides alone: a new order that
  does not cross its price trades nothing, whatever rests behind it, at better prices too.
\<close>

theorem first_text_decides:
  assumes "env_laws en" and "book_reach en ob" and "ob_ordersByID ob (o_ID (ob_heap ob tk)) = None"
    and "AddOrder en mint (Some tk) ob = (Inr res, ob')"
    and "p \<in> set (queues en (opposite ob (ob_heap ob tk)) k)"
    and "\<forall>k' q. q \<in> set (queues en (opposite ob (ob_heap ob tk)) k') \<longrightarrow> k \<le> k'"
    and "no_cross (o_Side (ob_heap ob tk) = ''BUY'') (o_Price (ob_heap ob tk)) (o_Price (ob_heap ob p))"
  shows "ar_Trades res = []"
proof -
  note A = added [OF assms(1-4)]
  note t = taker_fillsD [OF A(4)]
  let ?opp = "opposite ob (ob_heap ob tk)"
  obtain r ps where m: "side_makers en ?opp = r # ps"
    using queue_maker [OF assms(5)] by (cases "side_makers en ?opp") auto
  have key: "en_dstr en (o_Price (ob_heap ob q)) = k'" if "q \<in> set (queues en ?opp k')" for k' q
    using side_queueD(1) [OF t(2) that] by simp
  have "sorted_wrt (\<lambda>p q. en_dstr en (o_Price (ob_heap ob p)) \<le> en_dstr en (o_Price (ob_heap ob q))) (side_makers en ?opp)"
  proof (rule makers_sorted)
    show "sorted_wrt (<) (map fst (bt_Ascend (en_tree en) ?opp))"
      using assms(1) by (simp add: env_laws_def btree_laws_def)
    show "en_dstr en (o_Price (ob_heap ob q)) = k'"
      if kl: "(k', l) \<in> set (bt_Ascend (en_tree en) ?opp)" and q: "q \<in> set (pl_Orders l)" for k' l q
      using side_okD(3) [OF t(2) side_facts(4) [OF t(1,2) kl] q] by simp
  qed
  then have "en_dstr en (o_Price (ob_heap ob r)) \<le> k"
    using queue_maker [OF assms(5)] key [OF assms(5)] by (auto simp: m)
  moreover obtain k' where r: "r \<in> set (queues en ?opp k')" using maker_queue [OF assms(1), of r ?opp] m by auto
  then have "k \<le> en_dstr en (o_Price (ob_heap ob r))" using assms(6) key [OF r] by metis
  ultimately have "en_dstr en (o_Price (ob_heap ob r)) = en_dstr en (o_Price (ob_heap ob p))"
    using key [OF assms(5)] by simp
  then have "o_Price (ob_heap ob r) = o_Price (ob_heap ob p)"
    using tree_laws(6) [OF assms(1)] by (metis option.inject)
  then have "book_fills en tk ob = []" using assms(7) by (simp add: book_fills_def m)
  then show ?thesis by (simp add: A(1))
qed

text \<open>
  The bid at 9 meets asks at 9 and 10 and does not trade, because the text of 10 comes first: it rests
  beside the ask at its own price.
\<close>

lemma first_text_decides_witness:
  "case AddOrder alist_env demo_mint (Some 3) ask_book of
     (Inr res, ob') \<Rightarrow> ar_Trades res = [] \<and> ar_RestingOrders res = [3] \<and>
       queues alist_env (ob_asks ob') ''9'' = [1] \<and> queues alist_env (ob_bids ob') ''9'' = [3]
   | _ \<Rightarrow> False"
proof -
  have new: "ob_ordersByID ask_book (o_ID (ob_heap ask_book 3)) = None" by code_simp
  have v: "case AddOrder alist_env demo_mint (Some 3) ask_book of
     (Inr res, ob') \<Rightarrow> ar_RestingOrders res = [3] \<and>
       queues alist_env (ob_asks ob') ''9'' = [1] \<and> queues alist_env (ob_bids ob') ''9'' = [3]
   | _ \<Rightarrow> False" by code_simp
  then obtain res ob' where add: "AddOrder alist_env demo_mint (Some 3) ask_book = (Inr res, ob')"
    by (cases "AddOrder alist_env demo_mint (Some 3) ask_book"; cases "fst (AddOrder alist_env demo_mint (Some 3) ask_book)") auto
  have o': "opposite ask_book (ob_heap ask_book 3) = ob_asks ask_book"
    and p: "2 \<in> set (queues alist_env (ob_asks ask_book) ''10'')"
    and n: "no_cross (o_Side (ob_heap ask_book 3) = ''BUY'') (o_Price (ob_heap ask_book 3)) (o_Price (ob_heap ask_book 2))"
    and items: "map fst (bt_Ascend alist_ops (ob_asks ask_book)) = [''10'', ''9'']" by code_simp+
  have "''10'' \<le> k" if q: "q \<in> set (queues alist_env (ob_asks ask_book) k)" for k q
  proof -
    obtain l where "(k, l) \<in> set (bt_Ascend (en_tree alist_env) (ob_asks ask_book))" by (rule queue_item [OF q])
    then have "k \<in> set (map fst (bt_Ascend alist_ops (ob_asks ask_book)))" by (force simp: alist_env_def)
    then have "k = ''10'' \<or> k = ''9''" by (simp add: items)
    moreover have "''10'' \<le> (''9''::string)" by code_simp
    ultimately show ?thesis by auto
  qed
  then have "ar_Trades res = []"
    using first_text_decides [OF alist_env_laws ask_reach new add p [folded o'] _ n] by (simp add: o')
  then show ?thesis using v by (simp add: add)
qed

section \<open>Cancelling and cleaning up\<close>

text \<open>
  Cancelling a known order takes it out of the index and out of the queues, whatever else they hold,
  and resets its cell; cancelling an unknown one reports that and changes nothing.
\<close>

theorem CancelOrder_exact:
  assumes "env_laws en" and "book_reach en ob"
  shows "(ob_ordersByID ob d = None \<longrightarrow> CancelOrder en d ob = (False, ob)) \<and>
    (\<forall>p. ob_ordersByID ob d = Some p \<longrightarrow> (\<exists>ob'. CancelOrder en d ob = (True, ob') \<and>
       ob_ordersByID ob' = (ob_ordersByID ob)(d := None) \<and> ob_heap ob' = (ob_heap ob)(p := zero_order) \<and>
       queues en (ob_bids ob') = (\<lambda>k. filter (\<lambda>q. q \<noteq> p) (queues en (ob_bids ob) k)) \<and>
       queues en (ob_asks ob') = (\<lambda>k. filter (\<lambda>q. q \<noteq> p) (queues en (ob_asks ob) k))))"
proof (intro conjI allI impI)
  show "CancelOrder en d ob = (False, ob)" if "ob_ordersByID ob d = None" using that by (simp add: CancelOrder_def)
  fix p assume p: "ob_ordersByID ob d = Some p"
  let ?h = "ob_heap ob"
  have b: "side_ok en True ?h (ob_ordersByID ob) (ob_bids ob)" and a: "side_ok en False ?h (ob_ordersByID ob) (ob_asks ob)"
    and x: "index_ok ?h (ob_ordersByID ob)" using reach_inv [OF assms] by (auto simp: book_inv_def book_ok_def)
  have d: "o_ID (?h p) = d" using x p by (simp add: index_ok_def)
  have lv: "levels_ok en (ob_bids ob)" "levels_ok en (ob_asks ob)" using a b by (auto simp: side_ok_iff)
  note R = remove_book_queues [OF assms(1) lv, of p, unfolded d]
  have f: "filter (\<lambda>q. \<not> removed_at en ?h buy [p] k q) (queues en t k) = filter (\<lambda>q. q \<noteq> p) (queues en t k)"
    if s: "side_ok en buy ?h (ob_ordersByID ob) t" for buy t k
  proof (rule filter_cong [OF refl])
    fix q assume q: "q \<in> set (queues en t k)"
    have "o_ID (?h q) = o_ID (?h p) \<Longrightarrow> q = p" using side_queueD(4) [OF s q] p d by simp
    then show "(\<not> removed_at en ?h buy [p] k q) = (q \<noteq> p)"
      using side_queueD(1,2) [OF s q] by (auto simp: removed_at_def)
  qed
  show "\<exists>ob'. CancelOrder en d ob = (True, ob') \<and> ob_ordersByID ob' = (ob_ordersByID ob)(d := None) \<and>
       ob_heap ob' = ?h(p := zero_order) \<and>
       queues en (ob_bids ob') = (\<lambda>k. filter (\<lambda>q. q \<noteq> p) (queues en (ob_bids ob) k)) \<and>
       queues en (ob_asks ob') = (\<lambda>k. filter (\<lambda>q. q \<noteq> p) (queues en (ob_asks ob) k))"
    unfolding CancelOrder_def p option.case Let_def
    by (intro exI conjI ext, rule refl) (simp_all add: R f [OF a] f [OF b])
qed

lemma CancelOrder_exact_witness:
  "fst (CancelOrder alist_env 1 ask_book) \<and> queues alist_env (ob_asks (snd (CancelOrder alist_env 1 ask_book))) ''9'' = []"
proof -
  have "ob_ordersByID ask_book 1 = Some 1" and "queues alist_env (ob_asks ask_book) ''9'' = [1]" by code_simp+
  then show ?thesis using CancelOrder_exact [OF alist_env_laws ask_reach, of 1] by auto
qed

text \<open>
  A cleanup that ranges over the whole index removes exactly the cancelled and filled orders, from
  the index and from the queues, in whatever order it ranges.
\<close>

theorem cleanup_exact:
  assumes "env_laws en" and "book_reach en ob" and "dom (ob_ordersByID ob) \<subseteq> set ks"
  shows "ob_heap (cleanupOrders en ks ob) = ob_heap ob \<and>
    ob_ordersByID (cleanupOrders en ks ob) =
      (\<lambda>i. case ob_ordersByID ob i of Some p \<Rightarrow> (if cleanable (ob_heap ob p) then None else Some p) | None \<Rightarrow> None) \<and>
    queues en (ob_bids (cleanupOrders en ks ob)) =
      (\<lambda>k. filter (\<lambda>p. \<not> cleanable (ob_heap ob p)) (queues en (ob_bids ob) k)) \<and>
    queues en (ob_asks (cleanupOrders en ks ob)) =
      (\<lambda>k. filter (\<lambda>p. \<not> cleanable (ob_heap ob p)) (queues en (ob_asks ob) k))"
proof -
  let ?h = "ob_heap ob" and ?ids = "ob_ordersByID ob"
  define C where "C = {p. \<exists>k \<in> set ks. ?ids k = Some p \<and> cleanable (?h p)}"
  note S = cleanup_step [OF assms(1) reach_inv [OF assms(1,2)] C_def]
  have b: "side_ok en True ?h ?ids (ob_bids ob)" and a: "side_ok en False ?h ?ids (ob_asks ob)"
    and x: "index_ok ?h ?ids" using reach_inv [OF assms(1,2)] by (auto simp: book_inv_def book_ok_def)
  have id: "o_ID (?h p) = i" if "?ids i = Some p" for i p using x that by (simp add: index_ok_def)
  have C: "p \<in> C \<longleftrightarrow> ?ids (o_ID (?h p)) = Some p \<and> cleanable (?h p)" for p
  proof
    assume "p \<in> C"
    then show "?ids (o_ID (?h p)) = Some p \<and> cleanable (?h p)" using id by (fastforce simp: C_def)
  next
    assume p: "?ids (o_ID (?h p)) = Some p \<and> cleanable (?h p)"
    then have "o_ID (?h p) \<in> set ks" using assms(3) by blast
    then show "p \<in> C" using p by (auto simp: C_def)
  qed
  have f: "filter (\<lambda>q. q \<notin> C) (queues en t k) = filter (\<lambda>p. \<not> cleanable (?h p)) (queues en t k)"
    if s: "side_ok en buy ?h ?ids t" for buy t k
  proof (rule filter_cong [OF refl])
    fix q assume q: "q \<in> set (queues en t k)"
    show "(q \<notin> C) = (\<not> cleanable (?h q))" using C side_queueD(4) [OF s q] by blast
  qed
  have "(if \<exists>p \<in> C. o_ID (?h p) = i then None else ?ids i) =
      (case ?ids i of Some p \<Rightarrow> (if cleanable (?h p) then None else Some p) | None \<Rightarrow> None)" for i
  proof (cases "?ids i")
    case None
    then show ?thesis by simp
  next
    case (Some p)
    have "(\<exists>q \<in> C. o_ID (?h q) = i) \<longleftrightarrow> cleanable (?h p)"
      using C Some id [OF Some] by (metis option.inject)
    then show ?thesis using Some by simp
  qed
  then show ?thesis using S f [OF a] f [OF b] by simp
qed

text \<open>After order 1 is marked as cancelled, a cleanup removes it and keeps order 2.\<close>

lemma cleanup_exact_witness:
  "ob_ordersByID (cleanupOrders alist_env [2, 1] marked_book) 1 = None \<and>
   queues alist_env (ob_asks (cleanupOrders alist_env [2, 1] marked_book)) ''9'' = [] \<and>
   queues alist_env (ob_asks (cleanupOrders alist_env [2, 1] marked_book)) ''10'' = [2]"
proof -
  have r: "book_reach alist_env marked_book" unfolding marked_book_def by (rule bk_status [OF ask_reach])
  have "dom (ob_ordersByID marked_book) \<subseteq> set [2, 1]" using ask_dom by (auto simp: marked_book_def)
  note C = cleanup_exact [OF alist_env_laws r this]
  have "cleanable (ob_heap marked_book 1)" "\<not> cleanable (ob_heap marked_book 2)"
    "queues alist_env (ob_asks marked_book) ''9'' = [1]" "queues alist_env (ob_asks marked_book) ''10'' = [2]"
    "ob_ordersByID marked_book 1 = Some 1" by code_simp+
  then show ?thesis using C by simp
qed

section \<open>Entry points\<close>

text \<open>
  The engine's entry points crash exactly when the order book refuses the order, because they read
  the missing result before the error.
\<close>

theorem Process_panics:
  "(fst (ProcessLimitOrder en mint tko ob) = Panics \<longleftrightarrow> (\<exists>e. fst (AddOrder en mint tko ob) = Inl e)) \<and>
   (fst (ProcessMarketOrder en mint tko ob) = Panics \<longleftrightarrow> (\<exists>e. fst (AddOrder en mint tko ob) = Inl e)) \<and>
   (fst (AddOrder en mint None ob) = Inl ''order is nil'') \<and>
   ((\<exists>e. fst (AddOrder en mint (Some tk) ob) = Inl e) \<longleftrightarrow> \<not> accepts tk ob)"
proof -
  have "\<exists>res ob'. AddOrder en mint (Some tk) ob = (Inr res, ob')" if "accepts tk ob"
    using that by (cases "GetAdminState ob") (auto simp: AddOrder_def accepts_def Let_def not_le split: prod.splits
        dest: arg_cong [of _ _ "ob_heap \<circ> snd"])
  then have "(\<exists>e. fst (AddOrder en mint (Some tk) ob) = Inl e) \<longleftrightarrow> \<not> accepts tk ob"
    using AddOrder_refused [of tk ob en mint] by fastforce
  then show ?thesis
    by (auto simp: ProcessLimitOrder_def ProcessMarketOrder_def AddOrder_def [of _ _ None] split: prod.splits sum.splits)
qed

text \<open>
  Halting trading and the emergency shutdown do not stop orders: adding gives the same answer, the
  same book and the same index afterwards as without them. Only the circuit breaker makes it refuse.
\<close>

theorem halt_does_not_stop:
  "fst (AddOrder en mint tko (EmergencyShutdown (HaltTrading ob))) = fst (AddOrder en mint tko ob) \<and>
   ob_bids (snd (AddOrder en mint tko (EmergencyShutdown (HaltTrading ob)))) = ob_bids (snd (AddOrder en mint tko ob)) \<and>
   ob_asks (snd (AddOrder en mint tko (EmergencyShutdown (HaltTrading ob)))) = ob_asks (snd (AddOrder en mint tko ob)) \<and>
   ob_ordersByID (snd (AddOrder en mint tko (EmergencyShutdown (HaltTrading ob)))) = ob_ordersByID (snd (AddOrder en mint tko ob)) \<and>
   fst (AddOrder en mint (Some tk) (TriggerCircuitBreaker ob)) = Inl ''circuit breaker is active''"
proof -
  have same: "fst (AddOrder en mint tko (ob\<lparr>ob_adminState := Some a\<rparr>)) = fst (AddOrder en mint tko ob) \<and>
      ob_bids (snd (AddOrder en mint tko (ob\<lparr>ob_adminState := Some a\<rparr>))) = ob_bids (snd (AddOrder en mint tko ob)) \<and>
      ob_asks (snd (AddOrder en mint tko (ob\<lparr>ob_adminState := Some a\<rparr>))) = ob_asks (snd (AddOrder en mint tko ob)) \<and>
      ob_ordersByID (snd (AddOrder en mint tko (ob\<lparr>ob_adminState := Some a\<rparr>))) = ob_ordersByID (snd (AddOrder en mint tko ob))"
    if "ad_BreakerState a = ad_BreakerState (fst (GetAdminState ob))" for a
    using that by (cases tko; cases "ob_adminState ob")
      (simp_all add: AddOrder_def GetAdminState_def finish_order_def Let_def UpdateTopLevelsCache_def split: prod.splits)
  define a where "a = (fst (GetAdminState ob))\<lparr>ad_TradingHalted := True, ad_EmergencyStop := True\<rparr>"
  have a: "EmergencyShutdown (HaltTrading ob) = ob\<lparr>ob_adminState := Some a\<rparr>"
    "ad_BreakerState a = ad_BreakerState (fst (GetAdminState ob))"
    by (cases "ob_adminState ob";
      simp add: a_def EmergencyShutdown_def HaltTrading_def set_admin_def GetAdminState_def)+
  have "fst (AddOrder en mint (Some tk) (TriggerCircuitBreaker ob)) = Inl ''circuit breaker is active''"
    by (cases "ob_adminState ob")
      (simp_all add: TriggerCircuitBreaker_def set_admin_def GetAdminState_def AddOrder_def)
  then show ?thesis using same [OF a(2)] unfolding a(1) by blast
qed

text \<open>
  Restoring a book never places an order: it succeeds exactly when every entry of the snapshot is
  too short to be one, leaves the index empty, and blocks for ever at a first entry that is a good one.
\<close>

theorem restore_never_places:
  "(fst (RestoreFromSnapshot en bids asks ob) = Returns None \<longleftrightarrow> (\<forall>e \<in> set (bids @ asks). length e < 2)) \<and>
   ob_ordersByID (snd (RestoreFromSnapshot en bids asks ob)) = Map.empty \<and>
   (en_parse en p \<noteq> None \<and> en_parse en q = Some qty \<and> 0 < qty \<and> ad_BreakerState (fst (GetAdminState ob)) \<noteq> BreakerActive \<longrightarrow>
     fst (RestoreFromSnapshot en ((p # q # rest) # bids) asks ob) = Blocks)"
proof -
  have e: "restore_entries en brk es = Returns None \<longleftrightarrow> (\<forall>e \<in> set es. length e < 2)" for brk es
    by (induction en brk es rule: restore_entries.induct) (auto split: list.splits option.splits)
  have "fst (RestoreFromSnapshot en bids asks ob) = Returns None \<longleftrightarrow>
      (\<forall>e \<in> set bids. length e < 2) \<and> (\<forall>e \<in> set asks. length e < 2)"
    unfolding RestoreFromSnapshot_def Let_def fst_conv bind_outcome_Returns_iff
    using e by (auto split: option.splits)
  moreover have "fst (RestoreFromSnapshot en ((p # q # rest) # bids) asks ob) = Blocks"
    if "en_parse en p \<noteq> None" "en_parse en q = Some qty" "0 < qty" "ad_BreakerState (fst (GetAdminState ob)) \<noteq> BreakerActive"
    using that by (cases "ob_adminState ob") (auto simp: RestoreFromSnapshot_def Let_def GetAdminState_def)
  ultimately show ?thesis by (auto simp: RestoreFromSnapshot_def Let_def)
qed

lemma restore_never_places_witness:
  "fst (RestoreFromSnapshot alist_env [[''9'', ''1'']] [] ask_book) = Blocks \<and>
   fst (RestoreFromSnapshot alist_env [[]] [] ask_book) = Returns None"
proof -
  have "en_parse alist_env ''9'' \<noteq> None" "en_parse alist_env ''1'' = Some 1"
    "ad_BreakerState (fst (GetAdminState ask_book)) \<noteq> BreakerActive" by code_simp+
  then show ?thesis
    using restore_never_places [of alist_env "[[]]" "[]" ask_book]
      restore_never_places [of alist_env "[]" "[]" ask_book "''9''" "''1''" 1 "[]"] by simp
qed

end
