(* ===== verification/Bookkeeper.thy ===== *)
theory Bookkeeper
  imports XaProtocol
begin

text \<open>
  The bookkeeper, \<open>internal/accounts/bookkeeper/service.go\<close>: accounts with a balance that is split
  into an available and a locked part, and the transactions on them. The database is behind gorm and
  is the parameter \<open>'d ledger_db\<close>, one field per statement. A database transaction works on its own copy
  of the state \<open>'d\<close>; rolling back drops the copy, a commit installs it or fails. The mutexes of
  \<open>TransferFunds\<close> are taken in one order and released by every return, so a call is one step here;
  the readings of the clock within one literal are one value, and logging, metrics and the timeouts of
  contexts are left out (a statement that runs into one fails like any other);
  what happens between two calls that take no lock is modelled apart (\<open>lock_read\<close>, \<open>lock_write\<close>).
\<close>

section \<open>Errors\<close>

text \<open>
  \<open>Wrapped pre e post\<close> is \<open>fmt.Errorf\<close> with the verb \<open>%w\<close> between two texts.
\<close>

datatype bk_error =
    ErrInsufficientFunds | ErrAccountNotFound | ErrTransactionNotFound | ErrInvalidAmount
  | ErrTransactionTimeout | ErrDeadlockDetected | ErrConcurrencyConflict
  | ErrRecordNotFound | Raw string | Wrapped string bk_error string

fun bk_error_text :: "bk_error \<Rightarrow> string" where
  "bk_error_text ErrInsufficientFunds = ''insufficient funds''"
| "bk_error_text ErrAccountNotFound = ''account not found''"
| "bk_error_text ErrTransactionNotFound = ''transaction not found''"
| "bk_error_text ErrInvalidAmount = ''invalid amount''"
| "bk_error_text ErrTransactionTimeout = ''transaction timeout''"
| "bk_error_text ErrDeadlockDetected = ''deadlock detected''"
| "bk_error_text ErrConcurrencyConflict = ''concurrency conflict''"
| "bk_error_text ErrRecordNotFound = ''record not found''"
| "bk_error_text (Raw s) = s"
| "bk_error_text (Wrapped pre e post) = pre @ bk_error_text e @ post"

text \<open>\<open>errors.Is\<close>.\<close>

fun bk_error_is :: "bk_error \<Rightarrow> bk_error \<Rightarrow> bool" where
  "bk_error_is (Wrapped pre e post) target \<longleftrightarrow> Wrapped pre e post = target \<or> bk_error_is e target"
| "bk_error_is e target \<longleftrightarrow> e = target"

text \<open>The substring test is the same code as the transaction manager's \<open>containsError\<close>.\<close>

definition bk_contains :: "string \<Rightarrow> string \<Rightarrow> bool" where
  "bk_contains s sub \<longleftrightarrow> length sub \<le> length s \<and>
     (s = sub \<or> length sub = 0 \<or> (length sub < length s \<and> containsIgnoreCase s sub))"

definition isDeadlockError :: "bk_error \<Rightarrow> bool" where
  "isDeadlockError e \<longleftrightarrow>
     (let s = bk_error_text e
      in bk_contains s ''deadlock detected'' \<or> bk_contains s ''could not serialize access'' \<or>
         bk_contains s ''lock_timeout'' \<or> bk_contains s ''lock not available'')"

definition isConcurrencyError :: "bk_error \<Rightarrow> bool" where
  "isConcurrencyError e \<longleftrightarrow>
     (let s = bk_error_text e
      in bk_contains s ''concurrent update'' \<or> bk_contains s ''serialization failure'' \<or>
         bk_contains s ''retry transaction'')"

definition isRetryableError :: "bk_error \<Rightarrow> bool" where
  "isRetryableError e \<longleftrightarrow>
     (if bk_error_is e ErrDeadlockDetected then True
      else if bk_error_is e ErrConcurrencyConflict then True
      else isDeadlockError e \<or> isConcurrencyError e)"

section \<open>Rows and statements\<close>

record bk_account =
  ba_ID :: uuid
  ba_UserID :: uuid
  ba_Currency :: string
  ba_Balance :: decimal
  ba_Available :: decimal
  ba_Locked :: decimal
  ba_CreatedAt :: time
  ba_UpdatedAt :: time

record bk_txn =
  bt_ID :: uuid
  bt_UserID :: uuid
  bt_Type :: string
  bt_Amount :: decimal
  bt_Currency :: string
  bt_Status :: string
  bt_Reference :: string
  bt_Description :: string
  bt_CreatedAt :: time
  bt_UpdatedAt :: time
  bt_CompletedAt :: "time option"

text \<open>
  \<open>ld_find_locked nowait\<close> is the query with \<open>FOR UPDATE\<close>. \<open>ld_poison\<close> is what a failed statement leaves of
  its transaction, \<open>ld_done\<close> what a rollback leaves of it. \<open>ld_commit d d'\<close> commits the copy \<open>d'\<close> of a
  transaction that began at \<open>d\<close>; \<open>ld_commit_tx\<close> commits a long-lived transaction over the database as it
  is by then. \<open>ld_parse\<close> and \<open>ld_ustr\<close> are \<open>uuid.Parse\<close> and \<open>uuid.String\<close>, \<open>ld_f8\<close> the verb \<open>%.8f\<close>.
\<close>

record 'd ledger_db =
  ld_find :: "string \<Rightarrow> string \<Rightarrow> 'd \<Rightarrow> bk_error + bk_account"
  ld_find_locked :: "bool \<Rightarrow> string \<Rightarrow> string \<Rightarrow> 'd \<Rightarrow> bk_error + bk_account"
  ld_count :: "string \<Rightarrow> string \<Rightarrow> 'd \<Rightarrow> bk_error + int"
  ld_save :: "bk_account \<Rightarrow> 'd \<Rightarrow> bk_error + 'd"
  ld_create :: "bk_account \<Rightarrow> 'd \<Rightarrow> bk_error + 'd"
  ld_find_txn :: "string \<Rightarrow> 'd \<Rightarrow> bk_error + bk_txn"
  ld_save_txn :: "bk_txn \<Rightarrow> 'd \<Rightarrow> bk_error + 'd"
  ld_create_txn :: "bk_txn \<Rightarrow> 'd \<Rightarrow> bk_error + 'd"
  ld_begin :: "'d \<Rightarrow> bk_error option"
  ld_commit :: "'d \<Rightarrow> 'd \<Rightarrow> bk_error option"
  ld_commit_tx :: "'d \<Rightarrow> 'd \<Rightarrow> bk_error + 'd"
  ld_poison :: "'d \<Rightarrow> 'd"
  ld_done :: "'d \<Rightarrow> 'd"
  ld_parse :: "string \<Rightarrow> bk_error + uuid"
  ld_ustr :: "uuid \<Rightarrow> string"
  ld_f8 :: "decimal \<Rightarrow> string"

text \<open>
  What the code relies on: the rows a query finds are stored, saving and creating store a row under its
  ID and touch nothing else, a statement that fails changes no row. \<open>accts\<close> and \<open>txns\<close> read the two tables off a database state.
\<close>

definition ledger_laws ::
    "'d ledger_db \<Rightarrow> ('d \<Rightarrow> uuid \<rightharpoonup> bk_account) \<Rightarrow> ('d \<Rightarrow> uuid \<rightharpoonup> bk_txn) \<Rightarrow> bool" where
  "ledger_laws db accts txns \<longleftrightarrow>
     (\<forall>u c d a. ld_find db u c d = Inr a \<longrightarrow> accts d (ba_ID a) = Some a \<and> ba_Currency a = c) \<and>
     (\<forall>w u c d a. ld_find_locked db w u c d = Inr a \<longrightarrow> accts d (ba_ID a) = Some a \<and> ba_Currency a = c) \<and>
     (\<forall>a d d'. ld_save db a d = Inr d' \<longrightarrow> accts d' = (accts d)(ba_ID a \<mapsto> a) \<and> txns d' = txns d) \<and>
     (\<forall>a d d'. ld_create db a d = Inr d' \<longrightarrow>
        accts d (ba_ID a) = None \<and> accts d' = (accts d)(ba_ID a \<mapsto> a) \<and> txns d' = txns d) \<and>
     (\<forall>i d t. ld_find_txn db i d = Inr t \<longrightarrow> txns d (bt_ID t) = Some t) \<and>
     (\<forall>t d d'. ld_save_txn db t d = Inr d' \<longrightarrow> txns d' = (txns d)(bt_ID t \<mapsto> t) \<and> accts d' = accts d) \<and>
     (\<forall>t d d'. ld_create_txn db t d = Inr d' \<longrightarrow> txns d' = (txns d)(bt_ID t \<mapsto> t) \<and> accts d' = accts d) \<and>
     (\<forall>d. accts (ld_poison db d) = accts d \<and> txns (ld_poison db d) = txns d) \<and>
     (\<forall>d. finite (dom (accts d)))"

section \<open>One database transaction\<close>

text \<open>Running steps until one fails, and giving a step's error another wrapping.\<close>

fun andThen :: "'e + 'a \<Rightarrow> ('a \<Rightarrow> 'e + 'b) \<Rightarrow> 'e + 'b" where
  "andThen (Inl e) f = Inl e"
| "andThen (Inr x) f = f x"

fun onError :: "('e \<Rightarrow> 'e) \<Rightarrow> 'e + 'a \<Rightarrow> 'e + 'a" where
  "onError g (Inl e) = Inl (g e)"
| "onError g (Inr x) = Inr x"

definition wrap :: "string \<Rightarrow> bk_error \<Rightarrow> bk_error" where
  "wrap msg e = Wrapped (msg @ '': '') e ''''"

text \<open>The \<open>ErrRecordNotFound\<close> branch of a query's error.\<close>

definition not_found :: "bk_error \<Rightarrow> string \<Rightarrow> bk_error \<Rightarrow> bk_error" where
  "not_found nf msg e = (if e = ErrRecordNotFound then nf else wrap msg e)"

text \<open>
  Begin, body, commit: an error rolls back. A panic in the body is recovered by the deferred function,
  which rolls back and lets the call return its zero result, no error.
\<close>

definition in_tx :: "'d ledger_db \<Rightarrow> ('d \<Rightarrow> (bk_error + 'd) outcome) \<Rightarrow> 'd \<Rightarrow> bk_error option \<times> 'd" where
  "in_tx db body d =
     (case ld_begin db d of
        Some e \<Rightarrow> (Some (wrap ''failed to begin transaction'' e), d)
      | None \<Rightarrow>
          (case body d of
             Returns (Inr d') \<Rightarrow>
               (case ld_commit db d d' of
                  Some e \<Rightarrow> (Some (wrap ''failed to commit transaction'' e), d)
                | None \<Rightarrow> (None, d'))
           | Returns (Inl e) \<Rightarrow> (Some e, d)
           | _ \<Rightarrow> (None, d)))"

section \<open>Accounts\<close>

definition bk_GetAccount :: "'d ledger_db \<Rightarrow> string \<Rightarrow> string \<Rightarrow> 'd \<Rightarrow> bk_error + bk_account" where
  "bk_GetAccount db userID currency d =
     onError (not_found (Raw ''account not found'') ''failed to find account'') (ld_find db userID currency d)"

definition new_account :: "uuid \<Rightarrow> uuid \<Rightarrow> string \<Rightarrow> time \<Rightarrow> bk_account" where
  "new_account newID userID currency now = \<lparr>ba_ID = newID, ba_UserID = userID, ba_Currency = currency,
     ba_Balance = 0, ba_Available = 0, ba_Locked = 0, ba_CreatedAt = now, ba_UpdatedAt = now\<rparr>"

definition bk_CreateAccount :: "'d ledger_db \<Rightarrow> uuid \<Rightarrow> time \<Rightarrow> string \<Rightarrow> string \<Rightarrow> 'd \<Rightarrow>
    (bk_error + bk_account) \<times> 'd" where
  "bk_CreateAccount db newID now userID currency d =
     (case ld_count db userID currency d of
        Inl e \<Rightarrow> (Inl (wrap ''failed to check account'' e), d)
      | Inr n \<Rightarrow>
          (if n > 0 then (Inl (Raw ''account already exists''), d)
           else case ld_parse db userID of
                  Inl e \<Rightarrow> (Inl (wrap ''invalid userID'' e), d)
                | Inr u \<Rightarrow>
                    (let a = new_account newID u currency now
                     in case ld_create db a d of
                          Inl e \<Rightarrow> (Inl (wrap ''failed to create account'' e), d)
                        | Inr d' \<Rightarrow> (Inr a, d'))))"

section \<open>Transactions\<close>

definition bk_CreateTransaction :: "'d ledger_db \<Rightarrow> uuid \<Rightarrow> time \<Rightarrow> string \<Rightarrow> string \<Rightarrow> decimal \<Rightarrow> string \<Rightarrow>
    string \<Rightarrow> string \<Rightarrow> 'd \<Rightarrow> bk_error option \<times> 'd" where
  "bk_CreateTransaction db newID now userID typ amount currency reference description =
     in_tx db (\<lambda>d. Returns
       (andThen (onError (not_found (Raw ''account not found'') ''failed to find account'') (ld_find db userID currency d)) (\<lambda>a.
        onError (wrap ''failed to create transaction'')
          (ld_create_txn db \<lparr>bt_ID = newID, bt_UserID = ba_UserID a, bt_Type = typ, bt_Amount = amount,
             bt_Currency = currency, bt_Status = ''pending'', bt_Reference = reference,
             bt_Description = description, bt_CreatedAt = now, bt_UpdatedAt = now, bt_CompletedAt = None\<rparr> d))))"

text \<open>The account after a completed transaction; other types than these two leave the sums alone.\<close>

definition completed_account :: "bk_txn \<Rightarrow> bk_account \<Rightarrow> bk_error + bk_account" where
  "completed_account t a =
     (if bt_Type t = ''deposit''
      then Inr (a\<lparr>ba_Balance := ba_Balance a + bt_Amount t, ba_Available := ba_Available a + bt_Amount t\<rparr>)
      else if bt_Type t = ''withdrawal''
      then (if ba_Available a < bt_Amount t then Inl (Raw ''insufficient funds'')
            else Inr (a\<lparr>ba_Balance := ba_Balance a - bt_Amount t, ba_Available := ba_Available a - bt_Amount t\<rparr>))
      else Inr a)"

definition bk_CompleteTransaction :: "'d ledger_db \<Rightarrow> (nat \<Rightarrow> time) \<Rightarrow> string \<Rightarrow> 'd \<Rightarrow> bk_error option \<times> 'd" where
  "bk_CompleteTransaction db clock transactionID =
     in_tx db (\<lambda>d. Returns
       (andThen (onError (not_found (Raw ''transaction not found'') ''failed to find transaction'') (ld_find_txn db transactionID d)) (\<lambda>t.
        if bt_Status t = ''completed'' then Inl (Raw ''transaction already completed'') else
        andThen (onError (not_found (Raw ''account not found'') ''failed to find account'')
          (ld_find db (ld_ustr db (bt_UserID t)) (bt_Currency t) d)) (\<lambda>a.
        andThen (completed_account t a) (\<lambda>a'.
        andThen (onError (wrap ''failed to save account'') (ld_save db (a'\<lparr>ba_UpdatedAt := clock 0\<rparr>) d)) (\<lambda>d.
        onError (wrap ''failed to save transaction'')
          (ld_save_txn db (t\<lparr>bt_Status := ''completed'', bt_UpdatedAt := clock 1, bt_CompletedAt := Some (clock 1)\<rparr>) d)))))))"

definition bk_FailTransaction :: "'d ledger_db \<Rightarrow> time \<Rightarrow> string \<Rightarrow> 'd \<Rightarrow> bk_error option \<times> 'd" where
  "bk_FailTransaction db now transactionID =
     in_tx db (\<lambda>d. Returns
       (andThen (onError (not_found (Raw ''transaction not found'') ''failed to find transaction'') (ld_find_txn db transactionID d)) (\<lambda>t.
        if bt_Status t = ''completed'' \<or> bt_Status t = ''failed''
        then Inl (Raw (''transaction already '' @ bt_Status t)) else
        onError (wrap ''failed to save transaction'')
          (ld_save_txn db (t\<lparr>bt_Status := ''failed'', bt_UpdatedAt := now\<rparr>) d))))"

section \<open>Locking and unlocking funds\<close>

definition updated_account :: "time \<Rightarrow> decimal \<Rightarrow> decimal \<Rightarrow> decimal \<Rightarrow> bk_account \<Rightarrow> bk_account" where
  "updated_account now deltaBalance deltaAvailable deltaLocked a =
     a\<lparr>ba_Balance := ba_Balance a + deltaBalance, ba_Available := ba_Available a + deltaAvailable,
       ba_Locked := ba_Locked a + deltaLocked, ba_UpdatedAt := now\<rparr>"

definition atomicBalanceUpdate :: "'d ledger_db \<Rightarrow> time \<Rightarrow> bk_account \<Rightarrow> decimal \<Rightarrow> decimal \<Rightarrow> decimal \<Rightarrow> 'd \<Rightarrow>
    bk_error + 'd" where
  "atomicBalanceUpdate db now a deltaBalance deltaAvailable deltaLocked d =
     ld_save db (updated_account now deltaBalance deltaAvailable deltaLocked a) d"

definition bk_LockFunds :: "'d ledger_db \<Rightarrow> time \<Rightarrow> string \<Rightarrow> string \<Rightarrow> decimal \<Rightarrow> 'd \<Rightarrow> bk_error option \<times> 'd" where
  "bk_LockFunds db now userID currency amount =
     in_tx db (\<lambda>d. Returns
       (andThen (onError (not_found (Raw ''account not found'') ''failed to find account'') (ld_find db userID currency d)) (\<lambda>a.
        if ba_Available a < amount then Inl (Raw ''insufficient funds'') else
        onError (wrap ''failed to lock funds'') (atomicBalanceUpdate db now a 0 (- amount) amount d))))"

definition bk_UnlockFunds :: "'d ledger_db \<Rightarrow> time \<Rightarrow> string \<Rightarrow> string \<Rightarrow> decimal \<Rightarrow> 'd \<Rightarrow> bk_error option \<times> 'd" where
  "bk_UnlockFunds db now userID currency amount =
     in_tx db (\<lambda>d. Returns
       (andThen (onError (not_found (Raw ''account not found'') ''failed to find account'') (ld_find db userID currency d)) (\<lambda>a.
        if ba_Locked a < amount then Inl (Raw ''insufficient locked funds'') else
        onError (wrap ''failed to unlock funds'') (atomicBalanceUpdate db now a 0 amount (- amount) d))))"

section \<open>Transfers\<close>

text \<open>Both accounts are the rows as they were read: the second update does not see the first.\<close>

definition atomicTransfer :: "'d ledger_db \<Rightarrow> (nat \<Rightarrow> time) \<Rightarrow> bk_account \<Rightarrow> bk_account \<Rightarrow> decimal \<Rightarrow> 'd \<Rightarrow>
    bk_error + 'd" where
  "atomicTransfer db clock fromAccount toAccount amount d =
     (if ba_Available fromAccount < amount then Inl (Raw ''insufficient funds'')
      else andThen (onError (wrap ''failed to update from account'')
             (atomicBalanceUpdate db (clock 0) fromAccount (- amount) (- amount) 0 d)) (\<lambda>d.
           onError (wrap ''failed to update to account'')
             (atomicBalanceUpdate db (clock 1) toAccount amount amount 0 d)))"

definition transfer_record :: "uuid \<Rightarrow> uuid \<Rightarrow> string \<Rightarrow> decimal \<Rightarrow> string \<Rightarrow> string \<Rightarrow> string \<Rightarrow> time \<Rightarrow> bk_txn" where
  "transfer_record newID userID typ amount currency reference description now =
     \<lparr>bt_ID = newID, bt_UserID = userID, bt_Type = typ, bt_Amount = amount, bt_Currency = currency,
      bt_Status = ''completed'', bt_Reference = reference, bt_Description = description,
      bt_CreatedAt = now, bt_UpdatedAt = now, bt_CompletedAt = Some now\<rparr>"

text \<open>The row of the receiver, created when there is none.\<close>

definition find_or_create :: "'d ledger_db \<Rightarrow> bool \<Rightarrow> string \<Rightarrow> uuid \<Rightarrow> time \<Rightarrow> string \<Rightarrow> string \<Rightarrow> 'd \<Rightarrow>
    bk_error + (bk_account \<times> 'd)" where
  "find_or_create db nowait failed newID now userID currency d =
     (case ld_find_locked db nowait userID currency d of
        Inr a \<Rightarrow> Inr (a, d)
      | Inl e \<Rightarrow>
          (if e = ErrRecordNotFound
           then andThen (onError (wrap ''invalid toUserID'') (ld_parse db userID)) (\<lambda>u.
                let a = new_account newID u currency now
                in andThen (onError (wrap ''failed to create to account'') (ld_create db a d)) (\<lambda>d. Inr (a, d)))
           else Inl (wrap failed e)))"

text \<open>\<open>ids n\<close> are the fresh IDs of the call, \<open>clock n\<close> its readings of the clock.\<close>

definition bk_TransferFunds :: "'d ledger_db \<Rightarrow> (nat \<Rightarrow> uuid) \<Rightarrow> (nat \<Rightarrow> time) \<Rightarrow> string \<Rightarrow> string \<Rightarrow> string \<Rightarrow>
    decimal \<Rightarrow> string \<Rightarrow> 'd \<Rightarrow> bk_error option \<times> 'd" where
  "bk_TransferFunds db ids clock fromUserID toUserID currency amount description =
     in_tx db (\<lambda>d. Returns
       (andThen (onError (not_found (Raw ''from account not found'') ''failed to find from account'')
          (ld_find_locked db False fromUserID currency d)) (\<lambda>fromAccount.
        andThen (find_or_create db False ''failed to find to account'' (ids 0) (clock 0) toUserID currency d) (\<lambda>(toAccount, d).
        andThen (atomicTransfer db clock fromAccount toAccount amount d) (\<lambda>d.
        andThen (onError (wrap ''invalid fromUserID'') (ld_parse db fromUserID)) (\<lambda>fromID.
        andThen (onError (wrap ''failed to create from transaction'')
          (ld_create_txn db (transfer_record (ids 1) fromID ''transfer_out'' amount currency toUserID description (clock 2)) d)) (\<lambda>d.
        andThen (onError (wrap ''invalid toUserID'') (ld_parse db toUserID)) (\<lambda>toID.
        onError (wrap ''failed to create to transaction'')
          (ld_create_txn db (transfer_record (ids 2) toID ''transfer_in'' amount currency fromUserID description (clock 3)) d)))))))))"

section \<open>The enhanced operations\<close>

record transaction_options =
  op_Timeout :: duration
  op_MaxRetries :: int
  op_RetryBackoff :: duration
  op_RequireRowLocking :: bool
  op_PreValidationChecks :: bool
  op_AuditLogging :: bool
  op_DeadlockDetection :: bool

definition DefaultTransactionOptions :: transaction_options where
  "DefaultTransactionOptions = \<lparr>op_Timeout = 30 * second, op_MaxRetries = 3, op_RetryBackoff = 100 * millisecond,
     op_RequireRowLocking = True, op_PreValidationChecks = True, op_AuditLogging = True, op_DeadlockDetection = True\<rparr>"

definition validate_exists :: "'d ledger_db \<Rightarrow> string \<Rightarrow> bk_error \<Rightarrow> string \<Rightarrow> string \<Rightarrow> 'd \<Rightarrow> bk_error + unit" where
  "validate_exists db failed missing userID currency d =
     andThen (onError (wrap failed) (ld_count db userID currency d)) (\<lambda>n. if n = 0 then Inl missing else Inr ())"

definition insufficient :: "'d ledger_db \<Rightarrow> bk_account \<Rightarrow> decimal \<Rightarrow> bk_error" where
  "insufficient db a amount = Wrapped '''' ErrInsufficientFunds
     ('': available '' @ ld_f8 db (ba_Available a) @ '', required '' @ ld_f8 db amount)"

definition locked_error :: "bk_error \<Rightarrow> string \<Rightarrow> bk_error \<Rightarrow> bk_error" where
  "locked_error nf msg e =
     (if bk_error_is e ErrRecordNotFound then nf else if isDeadlockError e then ErrDeadlockDetected else wrap msg e)"

definition executeLockFundsWithRetry :: "'d ledger_db \<Rightarrow> time \<Rightarrow> transaction_options \<Rightarrow> string \<Rightarrow> string \<Rightarrow> decimal \<Rightarrow>
    'd \<Rightarrow> bk_error option \<times> 'd" where
  "executeLockFundsWithRetry db now opts userID currency amount =
     in_tx db (\<lambda>d. Returns
       (andThen (if op_PreValidationChecks opts
                 then validate_exists db ''failed to check account existence'' ErrAccountNotFound userID currency d
                 else Inr ()) (\<lambda>_.
        andThen (onError (locked_error ErrAccountNotFound ''failed to find and lock account'')
          (ld_find_locked db (op_RequireRowLocking opts) userID currency d)) (\<lambda>a.
        if ba_Available a < amount then Inl (insufficient db a amount) else
        onError (wrap ''failed to lock funds'') (atomicBalanceUpdate db now a 0 (- amount) amount d)))))"

text \<open>
  The retry loop: \<open>attempt\<close> counts from 0, \<open>n\<close> attempts are left. The result is \<open>None\<close> for success, else
  the last error, if there was an attempt.
\<close>

fun retry_attempts :: "(nat \<Rightarrow> 'd \<Rightarrow> bk_error option \<times> 'd) \<Rightarrow> nat \<Rightarrow> nat \<Rightarrow> bk_error option \<Rightarrow> 'd \<Rightarrow>
    bk_error option option \<times> 'd" where
  "retry_attempts run attempt 0 lastErr d = (Some lastErr, d)"
| "retry_attempts run attempt (Suc n) lastErr d =
     (case run attempt d of
        (None, d') \<Rightarrow> (None, d')
      | (Some e, d') \<Rightarrow>
          (if \<not> isRetryableError e then (Some (Some e), d')
           else retry_attempts run (Suc attempt) n (Some e) d'))"

definition retry_result :: "string \<Rightarrow> int \<Rightarrow> bk_error option option \<times> 'd \<Rightarrow> bk_error option \<times> 'd" where
  "retry_result what maxRetries r =
     (case r of
        (None, d) \<Rightarrow> (None, d)
      | (Some lastErr, d) \<Rightarrow>
          (let msg = what @ show_int (maxRetries + 1) @ '' attempts: ''
           in (Some (case lastErr of Some e \<Rightarrow> Wrapped msg e '''' | None \<Rightarrow> Raw (msg @ ''%!w(<nil>)'')), d)))"

text \<open>The statements of one attempt may fail where those of another do not: \<open>dbs attempt\<close>.\<close>

definition EnhancedLockFunds :: "(nat \<Rightarrow> 'd ledger_db) \<Rightarrow> (nat \<Rightarrow> time) \<Rightarrow> transaction_options option \<Rightarrow> string \<Rightarrow>
    string \<Rightarrow> decimal \<Rightarrow> 'd \<Rightarrow> bk_error option \<times> 'd" where
  "EnhancedLockFunds dbs clock opts userID currency amount d =
     (let opts = (case opts of Some o' \<Rightarrow> o' | None \<Rightarrow> DefaultTransactionOptions)
      in if amount \<le> 0 then (Some ErrInvalidAmount, d)
         else retry_result ''failed to lock funds after '' (op_MaxRetries opts)
           (retry_attempts (\<lambda>i. executeLockFundsWithRetry (dbs i) (clock i) opts userID currency amount)
              0 (nat (op_MaxRetries opts + 1)) None d))"

text \<open>\<open>uuid.MustParse\<close> panics when the text does not parse.\<close>

definition must_parse :: "'d ledger_db \<Rightarrow> string \<Rightarrow> (uuid \<Rightarrow> 'b outcome) \<Rightarrow> 'b outcome" where
  "must_parse db s f = (case ld_parse db s of Inl e \<Rightarrow> Panics | Inr u \<Rightarrow> f u)"

fun andThenO :: "'e + 'a \<Rightarrow> ('a \<Rightarrow> ('e + 'b) outcome) \<Rightarrow> ('e + 'b) outcome" where
  "andThenO (Inl e) f = Returns (Inl e)"
| "andThenO (Inr x) f = f x"

text \<open>A missing receiver is recognised through wrappings here, but not a deadlock.\<close>

definition find_or_create_is :: "'d ledger_db \<Rightarrow> bool \<Rightarrow> uuid \<Rightarrow> time \<Rightarrow> string \<Rightarrow> string \<Rightarrow> 'd \<Rightarrow>
    bk_error + (bk_account \<times> 'd)" where
  "find_or_create_is db nowait newID now userID currency d =
     (case ld_find_locked db nowait userID currency d of
        Inr a \<Rightarrow> Inr (a, d)
      | Inl e \<Rightarrow>
          (if bk_error_is e ErrRecordNotFound
           then andThen (onError (wrap ''invalid toUserID'') (ld_parse db userID)) (\<lambda>u.
                let a = new_account newID u currency now
                in andThen (onError (wrap ''failed to create to account'') (ld_create db a d)) (\<lambda>d. Inr (a, d)))
           else Inl (wrap ''failed to find and lock to account'' e)))"

definition executeTransferWithEnhancedLocking :: "'d ledger_db \<Rightarrow> (nat \<Rightarrow> uuid) \<Rightarrow> (nat \<Rightarrow> time) \<Rightarrow>
    transaction_options \<Rightarrow> string \<Rightarrow> string \<Rightarrow> string \<Rightarrow> decimal \<Rightarrow> string \<Rightarrow> 'd \<Rightarrow> bk_error option \<times> 'd" where
  "executeTransferWithEnhancedLocking db ids clock opts fromUserID toUserID currency amount description =
     in_tx db (\<lambda>d.
       andThenO (if op_PreValidationChecks opts
                 then validate_exists db ''failed to check from account existence''
                   (Wrapped ''from account not found: '' ErrAccountNotFound '''') fromUserID currency d
                 else Inr ()) (\<lambda>_.
       andThenO (onError (locked_error (Raw ''from account not found'') ''failed to find and lock from account'')
          (ld_find_locked db (op_RequireRowLocking opts) fromUserID currency d)) (\<lambda>fromAccount.
       andThenO (find_or_create_is db (op_RequireRowLocking opts) (ids 0) (clock 0) toUserID currency d) (\<lambda>(toAccount, d).
       if ba_Available fromAccount < amount then Returns (Inl (insufficient db fromAccount amount)) else
       andThenO (atomicTransfer db clock fromAccount toAccount amount d) (\<lambda>d.
       must_parse db fromUserID (\<lambda>fromID. must_parse db toUserID (\<lambda>toID.
       andThenO (onError (wrap ''failed to create from transaction'')
         (ld_create_txn db (transfer_record (ids 1) fromID ''transfer_out'' amount currency toUserID description (clock 2)) d)) (\<lambda>d.
       Returns (onError (wrap ''failed to create to transaction'')
         (ld_create_txn db (transfer_record (ids 2) toID ''transfer_in'' amount currency fromUserID description (clock 2)) d))))))))))"

definition EnhancedTransferFunds :: "(nat \<Rightarrow> 'd ledger_db) \<Rightarrow> (nat \<Rightarrow> nat \<Rightarrow> uuid) \<Rightarrow> (nat \<Rightarrow> nat \<Rightarrow> time) \<Rightarrow>
    transaction_options option \<Rightarrow> string \<Rightarrow> string \<Rightarrow> string \<Rightarrow> decimal \<Rightarrow> string \<Rightarrow> 'd \<Rightarrow> bk_error option \<times> 'd" where
  "EnhancedTransferFunds dbs ids clock opts fromUserID toUserID currency amount description d =
     (let opts = (case opts of Some o' \<Rightarrow> o' | None \<Rightarrow> DefaultTransactionOptions)
      in if amount \<le> 0 then (Some ErrInvalidAmount, d)
         else retry_result ''failed to transfer funds after '' (op_MaxRetries opts)
           (retry_attempts (\<lambda>i. executeTransferWithEnhancedLocking (dbs i) (ids i) (clock i) opts fromUserID toUserID
              currency amount description) 0 (nat (op_MaxRetries opts + 1)) None d))"

section \<open>Batches\<close>

record batch_result =
  br_SuccessCount :: int
  br_FailedItems :: "string \<rightharpoonup> bk_error"

record funds_operation =
  fo_UserID :: string
  fo_Currency :: string
  fo_Amount :: decimal
  fo_OrderID :: string
  fo_Reason :: string

definition failed_item :: "string \<Rightarrow> bk_error \<Rightarrow> batch_result \<Rightarrow> batch_result" where
  "failed_item k e r = r\<lparr>br_FailedItems := (br_FailedItems r)(k \<mapsto> e)\<rparr>"

definition succeeded :: "batch_result \<Rightarrow> batch_result" where
  "succeeded r = r\<lparr>br_SuccessCount := br_SuccessCount r + 1\<rparr>"

text \<open>
  One operation of a batch; \<open>sgn\<close> is 1 for locking and -1 for unlocking. An operation that fails is
  noted and the next one goes on in the same database transaction. A missing row is no failure of the
  statement.
\<close>

definition batch_step :: "'d ledger_db \<Rightarrow> bool \<Rightarrow> time \<Rightarrow> funds_operation \<Rightarrow> batch_result \<times> 'd \<Rightarrow> batch_result \<times> 'd" where
  "batch_step db lock now fo st =
     (let (r, d) = st;
          opKey = fo_UserID fo @ ''-'' @ fo_Currency fo
      in case ld_find_locked db False (fo_UserID fo) (fo_Currency fo) d of
           Inl e \<Rightarrow> (failed_item opKey (wrap ''failed to find account'' e) r,
             if e = ErrRecordNotFound then d else ld_poison db d)
         | Inr a \<Rightarrow>
             (if lock \<and> ba_Available a < fo_Amount fo
              then (failed_item opKey (Raw (''insufficient funds: available '' @ ld_f8 db (ba_Available a) @
                     '', required '' @ ld_f8 db (fo_Amount fo))) r, d)
              else if \<not> lock \<and> ba_Locked a < fo_Amount fo
              then (failed_item opKey (Raw (''insufficient locked funds: locked '' @ ld_f8 db (ba_Locked a) @
                     '', required '' @ ld_f8 db (fo_Amount fo))) r, d)
              else case atomicBalanceUpdate db now a 0 (if lock then - fo_Amount fo else fo_Amount fo)
                          (if lock then fo_Amount fo else - fo_Amount fo) d of
                     Inl e \<Rightarrow> (failed_item opKey (wrap (if lock then ''failed to lock funds'' else ''failed to unlock funds'') e) r,
                       ld_poison db d)
                   | Inr d' \<Rightarrow> (succeeded r, d')))"

fun batch_steps :: "'d ledger_db \<Rightarrow> bool \<Rightarrow> time \<Rightarrow> funds_operation list \<Rightarrow> batch_result \<times> 'd \<Rightarrow> batch_result \<times> 'd" where
  "batch_steps db lock now [] st = st"
| "batch_steps db lock now (fo # fos) st = batch_steps db lock now fos (batch_step db lock now fo st)"

text \<open>The result is updated in place: what it counts stays counted when the commit fails.\<close>

definition processBatch :: "'d ledger_db \<Rightarrow> bool \<Rightarrow> time \<Rightarrow> funds_operation list \<Rightarrow> batch_result \<times> 'd \<Rightarrow> batch_result \<times> 'd" where
  "processBatch db lock now fos st =
     (let (r, d) = st
      in case ld_begin db d of
           Some e \<Rightarrow> (r, d)
         | None \<Rightarrow>
             (case batch_steps db lock now fos (r, d) of
                (r', d') \<Rightarrow> (case ld_commit db d d' of Some e \<Rightarrow> (r', d) | None \<Rightarrow> (r', d'))))"

text \<open>Batches of fifty operations; an error of a batch is only logged.\<close>

abbreviation (input) batchSize :: nat where
  "batchSize \<equiv> 50"

function batches :: "(funds_operation list \<Rightarrow> 's \<Rightarrow> 's) \<Rightarrow> funds_operation list \<Rightarrow> 's \<Rightarrow> 's" where
  "batches run fos st = (if fos = [] then st else batches run (drop batchSize fos) (run (take batchSize fos) st))"
  by pat_completeness auto
termination
  by (relation "measure (\<lambda>(run, fos, st). length fos)") auto

declare batches.simps [simp del]

definition empty_result :: batch_result where
  "empty_result = \<lparr>br_SuccessCount = 0, br_FailedItems = Map.empty\<rparr>"

definition BatchLockFunds :: "'d ledger_db \<Rightarrow> time \<Rightarrow> funds_operation list \<Rightarrow> 'd \<Rightarrow> batch_result \<times> 'd" where
  "BatchLockFunds db now fos d = batches (processBatch db True now) fos (empty_result, d)"

definition BatchUnlockFunds :: "'d ledger_db \<Rightarrow> time \<Rightarrow> funds_operation list \<Rightarrow> 'd \<Rightarrow> batch_result \<times> 'd" where
  "BatchUnlockFunds db now fos d = batches (processBatch db False now) fos (empty_result, d)"

text \<open>
  Setting balances: a failure rolls the transaction back and the loop goes on with it; in the end it
  is committed.
\<close>

record account_balance =
  ab_UserID :: string
  ab_Currency :: string
  ab_Balance :: decimal
  ab_Available :: decimal
  ab_Locked :: decimal

fun update_balances :: "'d ledger_db \<Rightarrow> time \<Rightarrow> account_balance list \<Rightarrow> batch_result \<times> 'd \<Rightarrow> batch_result \<times> 'd" where
  "update_balances db now [] st = st"
| "update_balances db now (u # us) (r, d) =
     (case ld_find db (ab_UserID u) (ab_Currency u) d of
        Inl e \<Rightarrow> update_balances db now us
          (failed_item (ab_UserID u) (not_found (Raw ''account not found'') ''failed to find account'' e) r, ld_done db d)
      | Inr a \<Rightarrow>
          (case ld_save db (a\<lparr>ba_Balance := ab_Balance u, ba_Available := ab_Available u, ba_Locked := ab_Locked u,
                  ba_UpdatedAt := now\<rparr>) d of
             Inl e \<Rightarrow> update_balances db now us
               (failed_item (ab_UserID u) (wrap ''failed to update balance'' e) r, ld_done db d)
           | Inr d' \<Rightarrow> update_balances db now us (succeeded r, d')))"

definition BatchUpdateBalances :: "'d ledger_db \<Rightarrow> time \<Rightarrow> account_balance list \<Rightarrow> 'd \<Rightarrow>
    (bk_error + batch_result) \<times> 'd" where
  "BatchUpdateBalances db now us d =
     (case ld_begin db d of
        Some e \<Rightarrow> (Inl (wrap ''failed to begin transaction'' e), d)
      | None \<Rightarrow>
          (case update_balances db now us (empty_result, d) of
             (r, d') \<Rightarrow>
               (case ld_commit db d d' of
                  Some e \<Rightarrow> (Inl (wrap ''failed to commit batch balance update'' e), d)
                | None \<Rightarrow> (Inr r, d'))))"

section \<open>Distributed transactions\<close>

record bk_xid =
  bx_FormatID :: int
  bx_BranchID :: "nat list"
  bx_GlobalTxnID :: "nat list"

definition bk_xid_String :: "bk_xid \<Rightarrow> string" where
  "bk_xid_String x = show_int (bx_FormatID x) @ ''-'' @ hex_bytes (bx_GlobalTxnID x) @ ''-'' @ hex_bytes (bx_BranchID x)"

record xa_operation =
  xo_Type :: string
  xo_UserID :: string
  xo_Currency :: string
  xo_Amount :: decimal
  xo_FromUserID :: string
  xo_ToUserID :: string
  xo_Reference :: string
  xo_Description :: string
  xo_Result :: "bk_txn option"
  xo_Error :: "bk_error option"
  xo_Timestamp :: time

record 'd xa_transaction =
  xn_XID :: bk_xid
  xn_Operations :: "xa_operation list"
  xn_CompensationData :: "string \<rightharpoonup> (string \<rightharpoonup> any)"
  xn_DBTransaction :: 'd
  xn_State :: string
  xn_CreatedAt :: time
  xn_UpdatedAt :: time

type_synonym 'd pending = "string \<rightharpoonup> 'd xa_transaction"

definition xa_missing :: "bk_xid \<Rightarrow> bk_error" where
  "xa_missing x = Raw (''XA transaction not found: '' @ bk_xid_String x)"

definition StartXA :: "'d ledger_db \<Rightarrow> time \<Rightarrow> bk_xid \<Rightarrow> 'd \<Rightarrow> 'd pending \<Rightarrow> bk_error option \<times> 'd pending" where
  "StartXA db now x d P =
     (case P (bk_xid_String x) of
        Some t \<Rightarrow> (Some (Raw (''XA transaction already exists: '' @ bk_xid_String x)), P)
      | None \<Rightarrow>
          (case ld_begin db d of
             Some e \<Rightarrow> (Some (wrap ''failed to begin database transaction'' e), P)
           | None \<Rightarrow> (None, P(bk_xid_String x \<mapsto> \<lparr>xn_XID = x, xn_Operations = [], xn_CompensationData = Map.empty,
               xn_DBTransaction = d, xn_State = ''active'', xn_CreatedAt = now, xn_UpdatedAt = now\<rparr>))))"

definition EndXA :: "time \<Rightarrow> bk_xid \<Rightarrow> 'd pending \<Rightarrow> bk_error option \<times> 'd pending" where
  "EndXA now x P =
     (case P (bk_xid_String x) of
        None \<Rightarrow> (Some (xa_missing x), P)
      | Some t \<Rightarrow> (None, P(bk_xid_String x \<mapsto> t\<lparr>xn_State := ''ended'', xn_UpdatedAt := now\<rparr>)))"

definition PrepareXA :: "time \<Rightarrow> bk_xid \<Rightarrow> 'd pending \<Rightarrow> bk_error option \<times> 'd pending" where
  "PrepareXA now x P =
     (case P (bk_xid_String x) of
        None \<Rightarrow> (Some (xa_missing x), P)
      | Some t \<Rightarrow>
          (if xn_State t \<noteq> ''ended'' then (Some (Raw (''XA transaction not in ended state: '' @ xn_State t)), P)
           else if \<exists>q \<in> set (xn_Operations t). xo_Error q \<noteq> None
           then (Some (Raw ''XA transaction has failed operations''), P)
           else (None, P(bk_xid_String x \<mapsto> t\<lparr>xn_State := ''prepared'', xn_UpdatedAt := now\<rparr>))))"

definition CommitXA :: "'d ledger_db \<Rightarrow> bk_xid \<Rightarrow> bool \<Rightarrow> 'd pending \<times> 'd \<Rightarrow> bk_error option \<times> ('d pending \<times> 'd)" where
  "CommitXA db x onePhase st =
     (let (P, d) = st
      in case P (bk_xid_String x) of
           None \<Rightarrow> (Some (xa_missing x), (P, d))
         | Some t \<Rightarrow>
             (if \<not> onePhase \<and> xn_State t \<noteq> ''prepared''
              then (Some (Raw (''XA transaction not in prepared state: '' @ xn_State t)), (P, d))
              else case ld_commit_tx db d (xn_DBTransaction t) of
                     Inl e \<Rightarrow> (Some (wrap ''failed to commit XA transaction'' e), (P, d))
                   | Inr d' \<Rightarrow> (None, (P(bk_xid_String x := None), d'))))"

text \<open>\<open>failed\<close> is the database's answer to the rollback; the compensations only write log entries.\<close>

definition RollbackXA :: "bk_error option \<Rightarrow> bk_xid \<Rightarrow> 'd pending \<Rightarrow> bk_error option \<times> 'd pending" where
  "RollbackXA failed x P =
     (case P (bk_xid_String x) of
        None \<Rightarrow> (Some (xa_missing x), P)
      | Some t \<Rightarrow>
          (case failed of
             Some e \<Rightarrow> (Some (wrap ''failed to rollback XA transaction'' e), P)
           | None \<Rightarrow> (None, P(bk_xid_String x := None))))"

definition RecoverXA :: "string list \<Rightarrow> 'd pending \<Rightarrow> bk_xid list" where
  "RecoverXA ks P =
     List.map_filter (\<lambda>k. case P k of Some t \<Rightarrow> (if xn_State t = ''prepared'' then Some (xn_XID t) else None) | None \<Rightarrow> None) ks"

text \<open>
  The operations in a distributed transaction: an error is returned and nothing is recorded of it. The
  compensation data is stored before the funds are checked.
\<close>

definition funds_op :: "string \<Rightarrow> string \<Rightarrow> string \<Rightarrow> decimal \<Rightarrow> time \<Rightarrow> xa_operation" where
  "funds_op typ userID currency amount now = \<lparr>xo_Type = typ, xo_UserID = userID, xo_Currency = currency,
     xo_Amount = amount, xo_FromUserID = [], xo_ToUserID = [], xo_Reference = [], xo_Description = [],
     xo_Result = None, xo_Error = None, xo_Timestamp = now\<rparr>"

definition after_failure :: "'d ledger_db \<Rightarrow> bk_error \<Rightarrow> 'd \<Rightarrow> 'd" where
  "after_failure db e d = (if bk_error_is e ErrRecordNotFound then d else ld_poison db d)"

definition FundsXA :: "'d ledger_db \<Rightarrow> bool \<Rightarrow> time \<Rightarrow> bk_xid \<Rightarrow> string \<Rightarrow> string \<Rightarrow> decimal \<Rightarrow> 'd pending \<Rightarrow>
    bk_error option \<times> 'd pending" where
  "FundsXA db lock now x userID currency amount P =
     (case P (bk_xid_String x) of
        None \<Rightarrow> (Some (xa_missing x), P)
      | Some t \<Rightarrow>
          (let k = bk_xid_String x; d = xn_DBTransaction t
           in case ld_find db userID currency d of
                Inl e \<Rightarrow> (Some (if bk_error_is e ErrRecordNotFound then ErrAccountNotFound else wrap ''failed to find account'' e),
                  P(k \<mapsto> t\<lparr>xn_DBTransaction := after_failure db e d\<rparr>))
              | Inr a \<Rightarrow>
                  (let t1 = t\<lparr>xn_CompensationData := (xn_CompensationData t)
                         ((if lock then ''lock_funds_'' else ''unlock_funds_'') @ userID @ ''_'' @ currency \<mapsto>
                           [''original_available'' \<mapsto> ADec (ba_Available a), ''original_locked'' \<mapsto> ADec (ba_Locked a),
                            ''amount'' \<mapsto> ADec amount])\<rparr>
                   in if lock \<and> ba_Available a < amount then (Some ErrInsufficientFunds, P(k \<mapsto> t1))
                      else if \<not> lock \<and> ba_Locked a < amount
                      then (Some (Raw (''insufficient locked funds: locked '' @ ld_f8 db (ba_Locked a) @
                              '', required '' @ ld_f8 db amount)), P(k \<mapsto> t1))
                      else case ld_save db (updated_account now 0 (if lock then - amount else amount)
                                   (if lock then amount else - amount) a) d of
                             Inl e \<Rightarrow> (Some (wrap (if lock then ''failed to lock funds'' else ''failed to unlock funds'') e),
                               P(k \<mapsto> t1\<lparr>xn_DBTransaction := ld_poison db d\<rparr>))
                           | Inr d' \<Rightarrow> (None, P(k \<mapsto> t1\<lparr>xn_DBTransaction := d', xn_Operations := xn_Operations t1 @
                               [funds_op (if lock then ''lock_funds'' else ''unlock_funds'') userID currency amount now]\<rparr>)))))"

definition LockFundsXA :: "'d ledger_db \<Rightarrow> time \<Rightarrow> bk_xid \<Rightarrow> string \<Rightarrow> string \<Rightarrow> decimal \<Rightarrow> 'd pending \<Rightarrow>
    bk_error option \<times> 'd pending" where
  "LockFundsXA db = FundsXA db True"

definition UnlockFundsXA :: "'d ledger_db \<Rightarrow> time \<Rightarrow> bk_xid \<Rightarrow> string \<Rightarrow> string \<Rightarrow> decimal \<Rightarrow> 'd pending \<Rightarrow>
    bk_error option \<times> 'd pending" where
  "UnlockFundsXA db = FundsXA db False"

text \<open>A transfer moves available funds only.\<close>

definition TransferFundsXA :: "'d ledger_db \<Rightarrow> time \<Rightarrow> bk_xid \<Rightarrow> string \<Rightarrow> string \<Rightarrow> string \<Rightarrow> decimal \<Rightarrow> string \<Rightarrow>
    'd pending \<Rightarrow> bk_error option \<times> 'd pending" where
  "TransferFundsXA db now x fromUserID toUserID currency amount reference P =
     (case P (bk_xid_String x) of
        None \<Rightarrow> (Some (xa_missing x), P)
      | Some t \<Rightarrow>
          (let k = bk_xid_String x; d = xn_DBTransaction t
           in case ld_find db fromUserID currency d of
                Inl e \<Rightarrow> (Some (if bk_error_is e ErrRecordNotFound then Raw ''from account not found''
                    else wrap ''failed to find from account'' e), P(k \<mapsto> t\<lparr>xn_DBTransaction := after_failure db e d\<rparr>))
              | Inr fa \<Rightarrow>
                  (case ld_find db toUserID currency d of
                     Inl e \<Rightarrow> (Some (if bk_error_is e ErrRecordNotFound then Raw ''to account not found''
                         else wrap ''failed to find to account'' e), P(k \<mapsto> t\<lparr>xn_DBTransaction := after_failure db e d\<rparr>))
                   | Inr ta \<Rightarrow>
                       (let t1 = t\<lparr>xn_CompensationData := (xn_CompensationData t)
                              (''transfer_'' @ fromUserID @ ''_'' @ currency @ ''_to_'' @ toUserID \<mapsto>
                                [''from_original_available'' \<mapsto> ADec (ba_Available fa), ''from_original_locked'' \<mapsto> ADec (ba_Locked fa),
                                 ''to_original_available'' \<mapsto> ADec (ba_Available ta), ''to_original_locked'' \<mapsto> ADec (ba_Locked ta),
                                 ''amount'' \<mapsto> ADec amount])\<rparr>
                        in if ba_Available fa < amount then (Some ErrInsufficientFunds, P(k \<mapsto> t1))
                           else case ld_save db (updated_account now 0 (- amount) 0 fa) d of
                                  Inl e \<Rightarrow> (Some (wrap ''failed to update from account'' e),
                                    P(k \<mapsto> t1\<lparr>xn_DBTransaction := ld_poison db d\<rparr>))
                                | Inr d1 \<Rightarrow>
                                    (case ld_save db (updated_account now 0 amount 0 ta) d1 of
                                       Inl e \<Rightarrow> (Some (wrap ''failed to update to account'' e),
                                         P(k \<mapsto> t1\<lparr>xn_DBTransaction := ld_poison db d1\<rparr>))
                                     | Inr d2 \<Rightarrow> (None, P(k \<mapsto> t1\<lparr>xn_DBTransaction := d2, xn_Operations := xn_Operations t1 @
                                         [(funds_op ''transfer'' [] currency amount now)\<lparr>xo_FromUserID := fromUserID,
                                            xo_ToUserID := toUserID, xo_Reference := reference\<rparr>]\<rparr>)))))))"

definition CreateTransactionXA :: "'d ledger_db \<Rightarrow> uuid \<Rightarrow> time \<Rightarrow> bk_xid \<Rightarrow> string \<Rightarrow> string \<Rightarrow> decimal \<Rightarrow> string \<Rightarrow>
    string \<Rightarrow> string \<Rightarrow> 'd pending \<Rightarrow> bk_error option \<times> 'd pending" where
  "CreateTransactionXA db newID now x userID typ amount currency reference description P =
     (case P (bk_xid_String x) of
        None \<Rightarrow> (Some (xa_missing x), P)
      | Some t \<Rightarrow>
          (case ld_parse db userID of
             Inl e \<Rightarrow> (Some (wrap ''invalid userID'' e), P)
           | Inr u \<Rightarrow>
               (let k = bk_xid_String x; d = xn_DBTransaction t;
                    row = \<lparr>bt_ID = newID, bt_UserID = u, bt_Type = typ, bt_Amount = amount,
                          bt_Currency = currency, bt_Status = ''pending'', bt_Reference = reference,
                          bt_Description = description, bt_CreatedAt = now, bt_UpdatedAt = now, bt_CompletedAt = None\<rparr>
                in case ld_create_txn db row d of
                     Inl e \<Rightarrow> (Some (wrap ''failed to create transaction'' e), P(k \<mapsto> t\<lparr>xn_DBTransaction := ld_poison db d\<rparr>))
                   | Inr d' \<Rightarrow> (None, P(k \<mapsto> t\<lparr>xn_DBTransaction := d', xn_Operations := xn_Operations t @
                       [(funds_op ''create_transaction'' userID currency amount now)
                          \<lparr>xo_Reference := reference, xo_Description := description, xo_Result := Some row\<rparr>]\<rparr>)))))"

section \<open>Two calls at once\<close>

text \<open>
  \<open>LockFunds\<close> reads the row without locking it and saves it later: its two halves, between which other
  calls can run. The database is the committed state, as it is seen by a transaction that reads what
  is committed.
\<close>

definition lock_read :: "'d ledger_db \<Rightarrow> string \<Rightarrow> string \<Rightarrow> decimal \<Rightarrow> 'd \<Rightarrow> bk_error + bk_account" where
  "lock_read db userID currency amount d =
     andThen (onError (not_found (Raw ''account not found'') ''failed to find account'') (ld_find db userID currency d))
       (\<lambda>a. if ba_Available a < amount then Inl (Raw ''insufficient funds'') else Inr a)"

definition lock_write :: "'d ledger_db \<Rightarrow> time \<Rightarrow> bk_account \<Rightarrow> decimal \<Rightarrow> 'd \<Rightarrow> bk_error + 'd" where
  "lock_write db now a amount d =
     onError (wrap ''failed to lock funds'') (atomicBalanceUpdate db now a 0 (- amount) amount d)"

end
