(* ===== verification/BookkeeperLaws.thy ===== *)
theory BookkeeperLaws
  imports Bookkeeper
begin

text \<open>
  What the bookkeeper's calls do to the two tables, from the laws of the database: a call that
  reports an error changes nothing, and a call that reports success has exactly its effect. The
  invariant of the accounts over every history of calls rests on these facts.
\<close>

section \<open>Steps of a transaction\<close>

lemma andThen_Inr [simp]: "andThen m f = Inr y \<longleftrightarrow> (\<exists>x. m = Inr x \<and> f x = Inr y)"
  by (cases m) auto

lemma onError_Inr [simp]: "onError g m = Inr y \<longleftrightarrow> m = Inr y"
  by (cases m) auto

lemma andThenO_Inr [simp]: "andThenO m f = Returns (Inr y) \<longleftrightarrow> (\<exists>x. m = Inr x \<and> f x = Returns (Inr y))"
  by (cases m) auto

lemma andThenO_no_return [simp]:
  "andThenO m f = Panics \<longleftrightarrow> (\<exists>x. m = Inr x \<and> f x = Panics)"
  "andThenO m f = Blocks \<longleftrightarrow> (\<exists>x. m = Inr x \<and> f x = Blocks)"
  by (cases m; simp)+

lemma must_parse_Inr [simp]: "must_parse db s f = Returns (Inr y) \<longleftrightarrow> (\<exists>u. ld_parse db s = Inr u \<and> f u = Returns (Inr y))"
  by (cases "ld_parse db s") (auto simp: must_parse_def)

text \<open>A transaction that reports an error is undone; one whose body returns reports success only when it is committed.\<close>

lemma in_tx_Some: "in_tx db body d = (Some e, d') \<Longrightarrow> d' = d"
  by (auto simp: in_tx_def split: option.splits outcome.splits sum.splits)

lemma in_tx_None: "in_tx db body d = (None, d') \<Longrightarrow>
    body d = Returns (Inr d') \<and> ld_begin db d = None \<and> ld_commit db d d' = None \<or> (body d = Panics \<or> body d = Blocks) \<and> d' = d"
  by (auto simp: in_tx_def split: option.splits outcome.splits sum.splits)

lemma in_tx_Returns: "in_tx db (\<lambda>d. Returns (B d)) d = (None, d') \<Longrightarrow> B d = Inr d'"
  using in_tx_None by fastforce

text \<open>The laws, one by one.\<close>

lemma ledgerD:
  assumes "ledger_laws db accts txns"
  shows "ld_find db u c d = Inr a \<Longrightarrow> accts d (ba_ID a) = Some a \<and> ba_Currency a = c"
    and "ld_find_locked db w u c d = Inr a \<Longrightarrow> accts d (ba_ID a) = Some a \<and> ba_Currency a = c"
    and "ld_save db a d = Inr d' \<Longrightarrow> accts d' = (accts d)(ba_ID a \<mapsto> a) \<and> txns d' = txns d"
    and "ld_create db a d = Inr d' \<Longrightarrow> accts d (ba_ID a) = None \<and> accts d' = (accts d)(ba_ID a \<mapsto> a) \<and> txns d' = txns d"
    and "ld_find_txn db i d = Inr t \<Longrightarrow> txns d (bt_ID t) = Some t"
    and "ld_save_txn db t d = Inr d' \<Longrightarrow> txns d' = (txns d)(bt_ID t \<mapsto> t) \<and> accts d' = accts d"
    and "ld_create_txn db t d = Inr d' \<Longrightarrow> txns d' = (txns d)(bt_ID t \<mapsto> t) \<and> accts d' = accts d"
    and "accts (ld_poison db d) = accts d \<and> txns (ld_poison db d) = txns d"
    and "finite (dom (accts d))"
proof -
  note L = assms [unfolded ledger_laws_def]
  note L1 = conjunct1 [OF L] and R1 = conjunct2 [OF L]
  note L2 = conjunct1 [OF R1] and R2 = conjunct2 [OF R1]
  note L3 = conjunct1 [OF R2] and R3 = conjunct2 [OF R2]
  note L4 = conjunct1 [OF R3] and R4 = conjunct2 [OF R3]
  note L5 = conjunct1 [OF R4] and R5 = conjunct2 [OF R4]
  note L6 = conjunct1 [OF R5] and R6 = conjunct2 [OF R5]
  note L7 = conjunct1 [OF R6] and R7 = conjunct2 [OF R6]
  show "ld_find db u c d = Inr a \<Longrightarrow> accts d (ba_ID a) = Some a \<and> ba_Currency a = c" by (rule L1 [rule_format])
  show "ld_find_locked db w u c d = Inr a \<Longrightarrow> accts d (ba_ID a) = Some a \<and> ba_Currency a = c" by (rule L2 [rule_format])
  show "ld_save db a d = Inr d' \<Longrightarrow> accts d' = (accts d)(ba_ID a \<mapsto> a) \<and> txns d' = txns d" by (rule L3 [rule_format])
  show "ld_create db a d = Inr d' \<Longrightarrow> accts d (ba_ID a) = None \<and> accts d' = (accts d)(ba_ID a \<mapsto> a) \<and> txns d' = txns d"
    by (rule L4 [rule_format])
  show "ld_find_txn db i d = Inr t \<Longrightarrow> txns d (bt_ID t) = Some t" by (rule L5 [rule_format])
  show "ld_save_txn db t d = Inr d' \<Longrightarrow> txns d' = (txns d)(bt_ID t \<mapsto> t) \<and> accts d' = accts d" by (rule L6 [rule_format])
  show "ld_create_txn db t d = Inr d' \<Longrightarrow> txns d' = (txns d)(bt_ID t \<mapsto> t) \<and> accts d' = accts d"
    by (rule L7 [rule_format])
  show "accts (ld_poison db d) = accts d \<and> txns (ld_poison db d) = txns d" by (rule conjunct1 [OF R7, rule_format])
  show "finite (dom (accts d))" by (rule conjunct2 [OF R7, rule_format])
qed

section \<open>What a successful call does\<close>

lemma updated_account_simps [simp]:
  "ba_ID (updated_account now x y z a) = ba_ID a" "ba_Currency (updated_account now x y z a) = ba_Currency a"
  "ba_Balance (updated_account now x y z a) = ba_Balance a + x"
  "ba_Available (updated_account now x y z a) = ba_Available a + y"
  "ba_Locked (updated_account now x y z a) = ba_Locked a + z"
  by (simp_all add: updated_account_def)

text \<open>The row \<open>a\<close> of the table \<open>A\<close> is adjusted.\<close>

definition adjusts :: "(uuid \<rightharpoonup> bk_account) \<Rightarrow> bk_account \<Rightarrow> time \<Rightarrow> decimal \<Rightarrow> decimal \<Rightarrow> decimal \<Rightarrow> (uuid \<rightharpoonup> bk_account) \<Rightarrow> bool" where
  "adjusts A a now x y z A' \<longleftrightarrow> A (ba_ID a) = Some a \<and> A' = A(ba_ID a \<mapsto> updated_account now x y z a)"

lemma lock_effect:
  assumes "ledger_laws db accts txns" and "bk_LockFunds db now u c amount d = (None, d')"
  shows "\<exists>a. ba_Currency a = c \<and> amount \<le> ba_Available a \<and> adjusts (accts d) a now 0 (- amount) amount (accts d') \<and> txns d' = txns d"
proof -
  obtain a where a: "ld_find db u c d = Inr a" "\<not> ba_Available a < amount"
    "ld_save db (updated_account now 0 (- amount) amount a) d = Inr d'"
    using in_tx_Returns [OF assms(2) [unfolded bk_LockFunds_def]] by (auto simp: atomicBalanceUpdate_def split: if_splits)
  show ?thesis using ledgerD(1,3) [OF assms(1)] a by (intro exI [of _ a]) (auto simp: adjusts_def)
qed

lemma unlock_effect:
  assumes "ledger_laws db accts txns" and "bk_UnlockFunds db now u c amount d = (None, d')"
  shows "\<exists>a. ba_Currency a = c \<and> amount \<le> ba_Locked a \<and> adjusts (accts d) a now 0 amount (- amount) (accts d') \<and> txns d' = txns d"
proof -
  obtain a where a: "ld_find db u c d = Inr a" "\<not> ba_Locked a < amount"
    "ld_save db (updated_account now 0 amount (- amount) a) d = Inr d'"
    using in_tx_Returns [OF assms(2) [unfolded bk_UnlockFunds_def]] by (auto simp: atomicBalanceUpdate_def split: if_splits)
  show ?thesis using ledgerD(1,3) [OF assms(1)] a by (intro exI [of _ a]) (auto simp: adjusts_def)
qed

lemma enhanced_lock_effect:
  assumes "ledger_laws db accts txns" and "executeLockFundsWithRetry db now opts u c amount d = (None, d')"
  shows "\<exists>a. ba_Currency a = c \<and> amount \<le> ba_Available a \<and> adjusts (accts d) a now 0 (- amount) amount (accts d') \<and> txns d' = txns d"
proof -
  obtain a where a: "ld_find_locked db (op_RequireRowLocking opts) u c d = Inr a" "\<not> ba_Available a < amount"
    "ld_save db (updated_account now 0 (- amount) amount a) d = Inr d'"
    using in_tx_Returns [OF assms(2) [unfolded executeLockFundsWithRetry_def]]
    by (auto simp: atomicBalanceUpdate_def split: if_splits)
  show ?thesis using ledgerD(2,3) [OF assms(1)] a by (intro exI [of _ a]) (auto simp: adjusts_def)
qed

text \<open>
  A transfer: the sender's row \<open>fa\<close> and the receiver's \<open>ta\<close>, which may be new, as they were read; the
  second update overwrites the first when they are the same row.
\<close>

definition transfers :: "(uuid \<rightharpoonup> bk_account) \<Rightarrow> bk_account \<Rightarrow> bk_account \<Rightarrow> (nat \<Rightarrow> time) \<Rightarrow> decimal \<Rightarrow> (uuid \<rightharpoonup> bk_account) \<Rightarrow> bool" where
  "transfers A fa ta clock amount A' \<longleftrightarrow> A (ba_ID fa) = Some fa \<and>
     (A (ba_ID ta) = Some ta \<or> A (ba_ID ta) = None \<and> ba_Balance ta = 0 \<and> ba_Available ta = 0 \<and> ba_Locked ta = 0) \<and>
     amount \<le> ba_Available fa \<and>
     A' = A(ba_ID fa \<mapsto> updated_account (clock 0) (- amount) (- amount) 0 fa,
            ba_ID ta \<mapsto> updated_account (clock 1) amount amount 0 ta)"

text \<open>The two transactions a transfer records.\<close>

definition records :: "(uuid \<rightharpoonup> bk_txn) \<Rightarrow> decimal \<Rightarrow> (uuid \<rightharpoonup> bk_txn) \<Rightarrow> bool" where
  "records T amount T' \<longleftrightarrow> (\<exists>x y. bt_Amount x = amount \<and> bt_Amount y = amount \<and> bt_Status x = ''completed'' \<and>
     bt_Status y = ''completed'' \<and> T' = T(bt_ID x \<mapsto> x, bt_ID y \<mapsto> y))"

lemma records_effect:
  assumes laws: "ledger_laws db accts txns"
    and "ld_create_txn db (transfer_record i1 u1 y1 amount c r1 s1 n1) d = Inr d1"
    and "ld_create_txn db (transfer_record i2 u2 y2 amount c r2 s2 n2) d1 = Inr d2"
  shows "accts d2 = accts d \<and> records (txns d) amount (txns d2)"
proof -
  have a: "bt_Amount (transfer_record i u y amount c r s n) = amount" "bt_Status (transfer_record i u y amount c r s n) = ''completed''"
    for i u y r s n by (simp_all add: transfer_record_def)
  show ?thesis using ledgerD(7) [OF laws assms(2)] ledgerD(7) [OF laws assms(3)] a unfolding records_def by metis
qed

lemma atomicTransfer_effect:
  assumes "ledger_laws db accts txns" and "atomicTransfer db clock fa ta amount d = Inr d'"
  shows "amount \<le> ba_Available fa \<and> txns d' = txns d \<and>
    accts d' = (accts d)(ba_ID fa \<mapsto> updated_account (clock 0) (- amount) (- amount) 0 fa,
                         ba_ID ta \<mapsto> updated_account (clock 1) amount amount 0 ta)"
proof -
  obtain d1 where "\<not> ba_Available fa < amount" "ld_save db (updated_account (clock 0) (- amount) (- amount) 0 fa) d = Inr d1"
    "ld_save db (updated_account (clock 1) amount amount 0 ta) d1 = Inr d'"
    using assms(2) by (auto simp: atomicTransfer_def atomicBalanceUpdate_def split: if_splits)
  then show ?thesis using ledgerD(3) [OF assms(1)] by fastforce
qed

text \<open>Finding or creating the receiver.\<close>

lemma receiver_effect:
  assumes "ledger_laws db accts txns"
    and "find_or_create db w msg i now u c d = Inr (ta, d1) \<or> find_or_create_is db w i now u c d = Inr (ta, d1)"
  shows "ba_Currency ta = c \<and> txns d1 = txns d \<and>
    (accts d (ba_ID ta) = Some ta \<and> accts d1 = accts d \<or>
     accts d (ba_ID ta) = None \<and> ba_Balance ta = 0 \<and> ba_Available ta = 0 \<and> ba_Locked ta = 0 \<and>
     accts d1 = (accts d)(ba_ID ta \<mapsto> ta))"
proof (cases "ld_find_locked db w u c d")
  case (Inr a)
  then show ?thesis using ledgerD(2) [OF assms(1) Inr] assms(2) by (auto simp: find_or_create_def find_or_create_is_def)
next
  case (Inl e)
  then obtain v where v: "ta = new_account i v c now" and cr: "ld_create db ta d = Inr d1"
    using assms(2) by (auto simp: find_or_create_def find_or_create_is_def Let_def split: if_splits)
  have "ba_Currency ta = c" "ba_Balance ta = 0" "ba_Available ta = 0" "ba_Locked ta = 0" by (simp_all add: v new_account_def)
  then show ?thesis using ledgerD(4) [OF assms(1) cr] by blast
qed

lemma transfers_receiver:
  assumes "ledger_laws db accts txns" and "accts d (ba_ID fa) = Some fa" and "ba_Currency fa = c"
    and r: "ba_Currency ta = c \<and> txns d1 = txns d \<and>
      (accts d (ba_ID ta) = Some ta \<and> accts d1 = accts d \<or>
       accts d (ba_ID ta) = None \<and> ba_Balance ta = 0 \<and> ba_Available ta = 0 \<and> ba_Locked ta = 0 \<and>
       accts d1 = (accts d)(ba_ID ta \<mapsto> ta))"
    and "atomicTransfer db clock fa ta amount d1 = Inr d2"
  shows "transfers (accts d) fa ta clock amount (accts d2) \<and> txns d2 = txns d"
  using atomicTransfer_effect [OF assms(1,5)] assms(2) r by (auto simp: transfers_def fun_eq_iff)

lemma transfer_effect:
  assumes laws: "ledger_laws db accts txns" and "bk_TransferFunds db ids clock u v c amount desc d = (None, d')"
  shows "\<exists>fa ta. ba_Currency fa = c \<and> ba_Currency ta = c \<and> (u = v \<longrightarrow> ta = fa) \<and>
    transfers (accts d) fa ta clock amount (accts d') \<and> records (txns d) amount (txns d')"
proof -
  obtain fa ta d1 d2 where s: "ld_find_locked db False u c d = Inr fa"
    "find_or_create db False ''failed to find to account'' (ids 0) (clock 0) v c d = Inr (ta, d1)"
    "atomicTransfer db clock fa ta amount d1 = Inr d2" and rest: "accts d' = accts d2 \<and> records (txns d2) amount (txns d')"
    using in_tx_Returns [OF assms(2) [unfolded bk_TransferFunds_def]] records_effect [OF laws] by (auto split: prod.splits)
  note r = receiver_effect [OF laws disjI1, OF s(2)]
  have "transfers (accts d) fa ta clock amount (accts d2) \<and> txns d2 = txns d"
    using transfers_receiver [OF laws _ _ r s(3)] ledgerD(2) [OF laws s(1)] by blast
  moreover have "u = v \<longrightarrow> ta = fa" using s(1,2) by (auto simp: find_or_create_def)
  ultimately show ?thesis using ledgerD(2) [OF laws s(1)] r rest by auto
qed

text \<open>
  The enhanced transfer can report success without a transfer: a user's text that does not parse, found
  out after the updates, panics, and the recovered call rolls back and returns no error.
\<close>

lemma enhanced_transfer_effect:
  assumes laws: "ledger_laws db accts txns"
    and tx: "executeTransferWithEnhancedLocking db ids clock opts u v c amount desc d = (None, d')"
  shows "(\<exists>e. ld_parse db u = Inl e \<or> ld_parse db v = Inl e) \<and> d' = d \<or>
    (\<exists>fa ta. ba_Currency fa = c \<and> ba_Currency ta = c \<and> (u = v \<longrightarrow> ta = fa) \<and>
      transfers (accts d) fa ta clock amount (accts d') \<and> records (txns d) amount (txns d'))"
proof -
  let ?body = "\<lambda>d. andThenO (if op_PreValidationChecks opts
                 then validate_exists db ''failed to check from account existence''
                   (Wrapped ''from account not found: '' ErrAccountNotFound '''') u c d
                 else Inr ()) (\<lambda>_.
       andThenO (onError (locked_error (Raw ''from account not found'') ''failed to find and lock from account'')
          (ld_find_locked db (op_RequireRowLocking opts) u c d)) (\<lambda>fromAccount.
       andThenO (find_or_create_is db (op_RequireRowLocking opts) (ids 0) (clock 0) v c d) (\<lambda>(toAccount, d).
       if ba_Available fromAccount < amount then Returns (Inl (insufficient db fromAccount amount)) else
       andThenO (atomicTransfer db clock fromAccount toAccount amount d) (\<lambda>d.
       must_parse db u (\<lambda>fromID. must_parse db v (\<lambda>toID.
       andThenO (onError (wrap ''failed to create from transaction'')
         (ld_create_txn db (transfer_record (ids 1) fromID ''transfer_out'' amount c v desc (clock 2)) d)) (\<lambda>d.
       Returns (onError (wrap ''failed to create to transaction'')
         (ld_create_txn db (transfer_record (ids 2) toID ''transfer_in'' amount c u desc (clock 2)) d)))))))))"
  have c: "?body d = Returns (Inr d') \<or> (?body d = Panics \<or> ?body d = Blocks) \<and> d' = d"
    using in_tx_None [OF tx [unfolded executeTransferWithEnhancedLocking_def]] by blast
  then show ?thesis
  proof
    assume "?body d = Returns (Inr d')"
    then obtain fa ta d1 d2 where s: "ld_find_locked db (op_RequireRowLocking opts) u c d = Inr fa"
      "find_or_create_is db (op_RequireRowLocking opts) (ids 0) (clock 0) v c d = Inr (ta, d1)"
      "atomicTransfer db clock fa ta amount d1 = Inr d2" and rest: "accts d' = accts d2 \<and> records (txns d2) amount (txns d')"
      using records_effect [OF laws] by (auto split: prod.splits if_splits)
    note r = receiver_effect [OF laws disjI2, OF s(2)]
    have "transfers (accts d) fa ta clock amount (accts d2) \<and> txns d2 = txns d"
      using transfers_receiver [OF laws _ _ r s(3)] ledgerD(2) [OF laws s(1)] by blast
    moreover have "u = v \<longrightarrow> ta = fa" using s(1,2) by (auto simp: find_or_create_is_def)
    ultimately show ?thesis using ledgerD(2) [OF laws s(1)] r rest by auto
  next
    assume p: "(?body d = Panics \<or> ?body d = Blocks) \<and> d' = d"
    have "\<exists>e. ld_parse db u = Inl e \<or> ld_parse db v = Inl e"
    proof (rule ccontr)
      assume "\<not> ?thesis"
      then obtain x y where "ld_parse db u = Inr x" "ld_parse db v = Inr y" by (meson sum.exhaust)
      then show False using conjunct1 [OF p]
        by (auto simp: must_parse_def split: if_splits)
    qed
    then show ?thesis using p by blast
  qed
qed

text \<open>The transactions of the ledger.\<close>

lemma create_account_effect:
  assumes "ledger_laws db accts txns" and "bk_CreateAccount db i now u c d = (Inr a, d')"
  shows "ba_Balance a = 0 \<and> ba_Available a = 0 \<and> ba_Locked a = 0 \<and> accts d (ba_ID a) = None \<and>
    accts d' = (accts d)(ba_ID a \<mapsto> a) \<and> txns d' = txns d"
proof -
  obtain w where v: "a = new_account i w c now" and cr: "ld_create db a d = Inr d'"
    using assms(2) by (auto simp: bk_CreateAccount_def Let_def split: sum.splits if_splits)
  have "ba_Balance a = 0 \<and> ba_Available a = 0 \<and> ba_Locked a = 0" by (simp add: v new_account_def)
  then show ?thesis using ledgerD(4) [OF assms(1) cr] by blast
qed

lemma create_account_error: "bk_CreateAccount db i now u c d = (Inl e, d') \<Longrightarrow> d' = d"
  by (auto simp: bk_CreateAccount_def Let_def split: sum.splits if_splits)

lemma create_txn_effect:
  assumes "ledger_laws db accts txns" and "bk_CreateTransaction db i now u typ amount c ref desc d = (None, d')"
  shows "\<exists>t. bt_ID t = i \<and> bt_Status t = ''pending'' \<and> bt_Amount t = amount \<and> txns d' = (txns d)(i \<mapsto> t) \<and> accts d' = accts d"
proof -
  obtain x where x: "ld_create_txn db \<lparr>bt_ID = i, bt_UserID = x, bt_Type = typ, bt_Amount = amount, bt_Currency = c,
      bt_Status = ''pending'', bt_Reference = ref, bt_Description = desc, bt_CreatedAt = now, bt_UpdatedAt = now,
      bt_CompletedAt = None\<rparr> d = Inr d'" (is "ld_create_txn db ?t d = _")
    using in_tx_Returns [OF assms(2) [unfolded bk_CreateTransaction_def]] by auto
  show ?thesis using ledgerD(7) [OF assms(1) x] by (intro exI [of _ ?t]) simp
qed

lemma fail_effect:
  assumes "ledger_laws db accts txns" and "bk_FailTransaction db now i d = (None, d')"
  shows "\<exists>t. txns d (bt_ID t) = Some t \<and> bt_Status t \<noteq> ''completed'' \<and> bt_Status t \<noteq> ''failed'' \<and>
    txns d' = (txns d)(bt_ID t \<mapsto> t\<lparr>bt_Status := ''failed'', bt_UpdatedAt := now\<rparr>) \<and> accts d' = accts d"
proof -
  obtain t where t: "ld_find_txn db i d = Inr t" "bt_Status t \<noteq> ''completed''" "bt_Status t \<noteq> ''failed''"
    "ld_save_txn db (t\<lparr>bt_Status := ''failed'', bt_UpdatedAt := now\<rparr>) d = Inr d'"
    using in_tx_Returns [OF assms(2) [unfolded bk_FailTransaction_def]] by (auto split: if_splits)
  show ?thesis using ledgerD(5,6) [OF assms(1)] t by (intro exI [of _ t]) fastforce
qed

lemma complete_effect:
  assumes laws: "ledger_laws db accts txns" and "bk_CompleteTransaction db clock i d = (None, d')"
  shows "\<exists>t a a'. txns d (bt_ID t) = Some t \<and> bt_Status t \<noteq> ''completed'' \<and> accts d (ba_ID a) = Some a \<and>
    ba_Currency a = bt_Currency t \<and> completed_account t a = Inr a' \<and>
    accts d' = (accts d)(ba_ID a \<mapsto> a'\<lparr>ba_UpdatedAt := clock 0\<rparr>) \<and>
    txns d' = (txns d)(bt_ID t \<mapsto> t\<lparr>bt_Status := ''completed'', bt_UpdatedAt := clock 1, bt_CompletedAt := Some (clock 1)\<rparr>)"
proof -
  obtain t a a' d1 where t: "ld_find_txn db i d = Inr t" "bt_Status t \<noteq> ''completed''"
    "ld_find db (ld_ustr db (bt_UserID t)) (bt_Currency t) d = Inr a" "completed_account t a = Inr a'"
    "ld_save db (a'\<lparr>ba_UpdatedAt := clock 0\<rparr>) d = Inr d1"
    "ld_save_txn db (t\<lparr>bt_Status := ''completed'', bt_UpdatedAt := clock 1, bt_CompletedAt := Some (clock 1)\<rparr>) d1 = Inr d'"
    using in_tx_Returns [OF assms(2) [unfolded bk_CompleteTransaction_def]] by (auto split: if_splits)
  have "ba_ID a' = ba_ID a" using t(4) by (auto simp: completed_account_def split: if_splits)
  then show ?thesis
    using ledgerD(5) [OF laws t(1)] ledgerD(1) [OF laws t(3)] ledgerD(3) [OF laws t(5)] ledgerD(6) [OF laws t(6)] t
    by (intro exI [of _ t] exI [of _ a] exI [of _ a']) simp
qed

end
