(* ===== verification/BookkeeperHistory.thy ===== *)
theory BookkeeperHistory
  imports BookkeeperLaws
begin

text \<open>
  Histories of the bookkeeper: the invariant of the accounts, the total of a currency, what a retry
  loop and a batch come to. A step of a history is one call, on a database whose statements may fail
  differently from call to call.
\<close>

section \<open>The invariant of the accounts\<close>

definition sound_account :: "bk_account \<Rightarrow> bool" where
  "sound_account a \<longleftrightarrow> ba_Balance a = ba_Available a + ba_Locked a \<and> 0 \<le> ba_Available a \<and> 0 \<le> ba_Locked a"

definition sound_ledger :: "(uuid \<rightharpoonup> bk_account) \<Rightarrow> (uuid \<rightharpoonup> bk_txn) \<Rightarrow> bool" where
  "sound_ledger A T \<longleftrightarrow> (\<forall>i a. A i = Some a \<longrightarrow> sound_account a) \<and> (\<forall>i t. T i = Some t \<longrightarrow> 0 \<le> bt_Amount t)"

lemma sound_ledgerI [intro]:
  "(\<And>i a. A i = Some a \<Longrightarrow> sound_account a) \<Longrightarrow> (\<And>i t. T i = Some t \<Longrightarrow> 0 \<le> bt_Amount t) \<Longrightarrow> sound_ledger A T"
  by (simp add: sound_ledger_def)

lemma sound_ledgerD: "sound_ledger A T \<Longrightarrow> A i = Some a \<Longrightarrow> sound_account a" "sound_ledger A T \<Longrightarrow> T i = Some t \<Longrightarrow> 0 \<le> bt_Amount t"
  by (auto simp: sound_ledger_def)

lemma sound_ledger_upd: "sound_ledger A T \<Longrightarrow> sound_account a \<Longrightarrow> sound_ledger (A(i \<mapsto> a)) T"
  by (auto simp: sound_ledger_def)

lemma sound_ledger_upd_txn: "sound_ledger A T \<Longrightarrow> 0 \<le> bt_Amount t \<Longrightarrow> sound_ledger A (T(i \<mapsto> t))"
  by (auto simp: sound_ledger_def)

lemma sound_zero: "ba_Balance a = 0 \<Longrightarrow> ba_Available a = 0 \<Longrightarrow> ba_Locked a = 0 \<Longrightarrow> sound_account a"
  by (simp add: sound_account_def)

lemma sound_new: "sound_account (new_account i u c now)"
  by (rule sound_zero) (simp_all add: new_account_def)

lemma sound_adjusts:
  assumes "sound_ledger A T" "adjusts A a now 0 y z A'" "y + z = 0" "0 \<le> ba_Available a + y" "0 \<le> ba_Locked a + z"
  shows "sound_ledger A' T"
proof -
  have "sound_account a" using assms(1,2) by (auto simp: adjusts_def dest: sound_ledgerD)
  then have "sound_account (updated_account now 0 y z a)" using assms(3-5) by (simp add: sound_account_def)
  then show ?thesis using assms(1,2) by (simp add: adjusts_def sound_ledger_upd)
qed

lemma sound_lock_adjusts:
  assumes "sound_ledger A T" "adjusts A a now 0 (- amount) amount A'" "amount \<le> ba_Available a" "0 \<le> amount"
  shows "sound_ledger A' T"
proof -
  have "sound_account a" using assms(1,2) by (auto simp: adjusts_def dest: sound_ledgerD)
  then show ?thesis by (intro sound_adjusts [OF assms(1,2)]) (use assms(3,4) in \<open>auto simp: sound_account_def\<close>)
qed

lemma sound_unlock_adjusts:
  assumes "sound_ledger A T" "adjusts A a now 0 amount (- amount) A'" "amount \<le> ba_Locked a" "0 \<le> amount"
  shows "sound_ledger A' T"
proof -
  have "sound_account a" using assms(1,2) by (auto simp: adjusts_def dest: sound_ledgerD)
  then show ?thesis by (intro sound_adjusts [OF assms(1,2)]) (use assms(3,4) in \<open>auto simp: sound_account_def\<close>)
qed

lemma sound_transfers:
  assumes "sound_ledger A T" "transfers A fa ta clock amount A'" "0 \<le> amount"
  shows "sound_ledger A' T"
proof -
  have "sound_account fa" "sound_account ta" using assms(1,2) by (auto simp: transfers_def sound_zero dest: sound_ledgerD)
  then have "sound_account (updated_account (clock 0) (- amount) (- amount) 0 fa)"
    "sound_account (updated_account (clock 1) amount amount 0 ta)"
    using assms(2,3) by (auto simp: sound_account_def transfers_def)
  then show ?thesis using assms(1,2) by (simp add: transfers_def sound_ledger_upd del: fun_upd_apply)
qed

lemma sound_records:
  assumes "sound_ledger A T" "records T amount T'" "0 \<le> amount" shows "sound_ledger A T'"
  using assms by (auto simp: records_def intro!: sound_ledger_upd_txn simp del: fun_upd_apply)

lemma sound_transfer_call:
  assumes "sound_ledger A T" "0 \<le> amount" "transfers A fa ta clock amount A'" "records T amount T'"
  shows "sound_ledger A' T'"
  using sound_records [OF sound_transfers [OF assms(1,3,2)] assms(4,2)] .

section \<open>The calls keep it\<close>

text \<open>A retry loop keeps what each attempt keeps.\<close>

lemma retry_keeps:
  assumes "\<And>i d. I d \<Longrightarrow> I (snd (run i d))" and "I d"
  shows "I (snd (retry_attempts run i n e d))"
  using assms(2)
proof (induction n arbitrary: i e d)
  case (Suc n)
  then show ?case using assms(1) [OF Suc.prems, of i] by (auto split: prod.splits option.splits)
qed simp

lemma retry_result_snd: "snd (retry_result what m r) = snd r"
  by (auto simp: retry_result_def Let_def split: prod.splits option.splits)

lemma retry_result_None: "retry_result what m r = (None, d) \<longleftrightarrow> r = (None, d)"
  by (auto simp: retry_result_def Let_def split: prod.splits option.splits)

lemma batch_step_cases:
  assumes "ledger_laws db accts txns"
  obtains "accts (snd (batch_step db lock now fo (r, d))) = accts d" "txns (snd (batch_step db lock now fo (r, d))) = txns d"
  | a where "ba_Currency a = fo_Currency fo" "txns (snd (batch_step db lock now fo (r, d))) = txns d"
      "if lock then fo_Amount fo \<le> ba_Available a else fo_Amount fo \<le> ba_Locked a"
      "adjusts (accts d) a now 0 (if lock then - fo_Amount fo else fo_Amount fo) (if lock then fo_Amount fo else - fo_Amount fo)
         (accts (snd (batch_step db lock now fo (r, d))))"
proof (cases "ld_find_locked db False (fo_UserID fo) (fo_Currency fo) d")
  case (Inl e)
  then show thesis using ledgerD(8) [OF assms, of d] by (intro that(1)) (auto simp: batch_step_def Let_def)
next
  case (Inr a)
  note a = ledgerD(2) [OF assms Inr]
  show thesis
  proof (cases "lock \<and> ba_Available a < fo_Amount fo \<or> \<not> lock \<and> ba_Locked a < fo_Amount fo")
    case True
    then show thesis using Inr by (intro that(1)) (auto simp: batch_step_def Let_def)
  next
    case False
    let ?y = "if lock then - fo_Amount fo else fo_Amount fo" let ?z = "if lock then fo_Amount fo else - fo_Amount fo"
    show thesis
    proof (cases "atomicBalanceUpdate db now a 0 ?y ?z d")
      case (Inl e)
      then show thesis using Inr False ledgerD(8) [OF assms, of d] by (intro that(1)) (auto simp: batch_step_def Let_def)
    next
      case s: (Inr d')
      have "snd (batch_step db lock now fo (r, d)) = d'" using Inr False s by (auto simp: batch_step_def Let_def)
      then show thesis using a False ledgerD(3) [OF assms s [unfolded atomicBalanceUpdate_def]]
        by (intro that(2) [of a]) (auto simp: adjusts_def split: if_splits)
    qed
  qed
qed

lemma batch_step_sound:
  assumes "ledger_laws db accts txns" "0 \<le> fo_Amount fo" "sound_ledger (accts d) (txns d)"
  shows "sound_ledger (accts (snd (batch_step db lock now fo (r, d)))) (txns (snd (batch_step db lock now fo (r, d))))"
proof (cases rule: batch_step_cases [OF assms(1), of lock now fo r d])
  case 1
  then show ?thesis using assms(3) by simp
next
  case (2 a)
  show ?thesis
  proof (cases lock)
    case True
    then show ?thesis using sound_lock_adjusts [OF assms(3), of a now "fo_Amount fo"] 2 assms(2) by simp
  next
    case False
    then show ?thesis using sound_unlock_adjusts [OF assms(3), of a now "fo_Amount fo"] 2 assms(2) by simp
  qed
qed

lemma batch_steps_sound:
  assumes "ledger_laws db accts txns" "\<forall>fo \<in> set fos. 0 \<le> fo_Amount fo" "sound_ledger (accts d) (txns d)"
  shows "sound_ledger (accts (snd (batch_steps db lock now fos (r, d)))) (txns (snd (batch_steps db lock now fos (r, d))))"
  using assms(2,3)
proof (induction fos arbitrary: r d)
  case (Cons fo fos)
  then show ?case using batch_step_sound [OF assms(1) _ Cons.prems(2), of fo lock now r]
    by (cases "batch_step db lock now fo (r, d)") auto
qed simp

lemma batches_keeps:
  assumes "\<And>xs st. I st \<Longrightarrow> set xs \<subseteq> S \<Longrightarrow> I (run xs st)" and "I st" "set fos \<subseteq> S"
  shows "I (batches run fos st)"
  using assms(2,3)
proof (induction fos arbitrary: st rule: length_induct)
  case (1 fos)
  show ?case
  proof (cases "fos = []")
    case False
    have "I (run (take 50 fos) st)" using assms(1) [OF 1(2)] 1(3) set_take_subset [of 50 fos] by blast
    moreover have "set (drop 50 fos) \<subseteq> S" using 1(3) set_drop_subset [of 50 fos] by blast
    moreover have "length (drop 50 fos) < length fos" using False by simp
    ultimately show ?thesis using 1(1) False by (simp add: batches.simps [of run fos])
  qed (simp add: batches.simps 1)
qed


lemma processBatch_sound:
  assumes "ledger_laws db accts txns" "\<forall>fo \<in> set fos. 0 \<le> fo_Amount fo" "sound_ledger (accts d) (txns d)"
  shows "sound_ledger (accts (snd (processBatch db lock now fos (r, d)))) (txns (snd (processBatch db lock now fos (r, d))))"
  using batch_steps_sound [OF assms, of lock now r] assms(3)
  by (auto simp: processBatch_def split: option.splits prod.splits)

lemma batches_sound:
  assumes "ledger_laws db accts txns" "\<forall>fo \<in> set fos. 0 \<le> fo_Amount fo" "sound_ledger (accts d) (txns d)"
  shows "sound_ledger (accts (snd (batches (processBatch db lock now) fos (r, d))))
    (txns (snd (batches (processBatch db lock now) fos (r, d))))"
proof (rule batches_keeps [where I = "\<lambda>st. sound_ledger (accts (snd st)) (txns (snd st))" and S = "set fos"])
  fix xs :: "funds_operation list" and st :: "batch_result \<times> 'a"
  assume "sound_ledger (accts (snd st)) (txns (snd st))" "set xs \<subseteq> set fos"
  then show "sound_ledger (accts (snd (processBatch db lock now xs st))) (txns (snd (processBatch db lock now xs st)))"
    using processBatch_sound [OF assms(1), of xs "snd st" lock now "fst st"] assms(2) by auto
qed (use assms(3) in auto)

text \<open>
  One call. Amounts are not negative where the code does not check them; the enhanced operations check
  them themselves.
\<close>

inductive ledger_step :: "('d \<Rightarrow> uuid \<rightharpoonup> bk_account) \<Rightarrow> ('d \<Rightarrow> uuid \<rightharpoonup> bk_txn) \<Rightarrow> 'd \<Rightarrow> 'd \<Rightarrow> bool"
  for accts txns where
  create_account: "ledger_laws db accts txns \<Longrightarrow> ledger_step accts txns d (snd (bk_CreateAccount db i now u c d))"
| create_txn: "ledger_laws db accts txns \<Longrightarrow> 0 \<le> amount \<Longrightarrow>
    ledger_step accts txns d (snd (bk_CreateTransaction db i now u typ amount c ref desc d))"
| complete: "ledger_laws db accts txns \<Longrightarrow> ledger_step accts txns d (snd (bk_CompleteTransaction db clock s d))"
| fail: "ledger_laws db accts txns \<Longrightarrow> ledger_step accts txns d (snd (bk_FailTransaction db now s d))"
| lock: "ledger_laws db accts txns \<Longrightarrow> 0 \<le> amount \<Longrightarrow> ledger_step accts txns d (snd (bk_LockFunds db now u c amount d))"
| unlock: "ledger_laws db accts txns \<Longrightarrow> 0 \<le> amount \<Longrightarrow> ledger_step accts txns d (snd (bk_UnlockFunds db now u c amount d))"
| transfer: "ledger_laws db accts txns \<Longrightarrow> 0 \<le> amount \<Longrightarrow>
    ledger_step accts txns d (snd (bk_TransferFunds db ids clock u v c amount desc d))"
| enhanced_lock: "(\<And>i. ledger_laws (dbs i) accts txns) \<Longrightarrow>
    ledger_step accts txns d (snd (EnhancedLockFunds dbs clock opts u c amount d))"
| enhanced_transfer: "(\<And>i. ledger_laws (dbs i) accts txns) \<Longrightarrow>
    ledger_step accts txns d (snd (EnhancedTransferFunds dbs idss clocks opts u v c amount desc d))"
| batch_lock: "ledger_laws db accts txns \<Longrightarrow> \<forall>fo \<in> set fos. 0 \<le> fo_Amount fo \<Longrightarrow>
    ledger_step accts txns d (snd (BatchLockFunds db now fos d))"
| batch_unlock: "ledger_laws db accts txns \<Longrightarrow> \<forall>fo \<in> set fos. 0 \<le> fo_Amount fo \<Longrightarrow>
    ledger_step accts txns d (snd (BatchUnlockFunds db now fos d))"

inductive ledger_history :: "('d \<Rightarrow> uuid \<rightharpoonup> bk_account) \<Rightarrow> ('d \<Rightarrow> uuid \<rightharpoonup> bk_txn) \<Rightarrow> 'd \<Rightarrow> 'd \<Rightarrow> bool"
  for accts txns d0 where
  start: "ledger_history accts txns d0 d0"
| step: "ledger_history accts txns d0 d \<Longrightarrow> ledger_step accts txns d d' \<Longrightarrow> ledger_history accts txns d0 d'"

text \<open>A call in a transaction keeps what its successes keep.\<close>

lemma call_keeps:
  assumes "I d" and "\<And>e d'. r = (Some e, d') \<Longrightarrow> d' = d" and "\<And>d'. r = (None, d') \<Longrightarrow> I d'"
  shows "I (snd r)"
  using assms by (cases r; cases "fst r") auto

lemma lock_sound:
  assumes "ledger_laws db accts txns" "0 \<le> amount" "sound_ledger (accts d) (txns d)"
  shows "sound_ledger (accts (snd (bk_LockFunds db now u c amount d))) (txns (snd (bk_LockFunds db now u c amount d)))"
proof (rule call_keeps [where I = "\<lambda>d. sound_ledger (accts d) (txns d)"])
  fix d' assume "bk_LockFunds db now u c amount d = (None, d')"
  from lock_effect [OF assms(1) this] show "sound_ledger (accts d') (txns d')"
    using sound_lock_adjusts [OF assms(3)] assms(2) by auto
qed (use assms(3) in \<open>auto simp: bk_LockFunds_def dest: in_tx_Some\<close>)

lemma unlock_sound:
  assumes "ledger_laws db accts txns" "0 \<le> amount" "sound_ledger (accts d) (txns d)"
  shows "sound_ledger (accts (snd (bk_UnlockFunds db now u c amount d))) (txns (snd (bk_UnlockFunds db now u c amount d)))"
proof (rule call_keeps [where I = "\<lambda>d. sound_ledger (accts d) (txns d)"])
  fix d' assume "bk_UnlockFunds db now u c amount d = (None, d')"
  from unlock_effect [OF assms(1) this] show "sound_ledger (accts d') (txns d')"
    using sound_unlock_adjusts [OF assms(3)] assms(2) by auto
qed (use assms(3) in \<open>auto simp: bk_UnlockFunds_def dest: in_tx_Some\<close>)

lemma enhanced_lock_sound:
  assumes "\<And>i. ledger_laws (dbs i) accts txns" "sound_ledger (accts d) (txns d)"
  shows "sound_ledger (accts (snd (EnhancedLockFunds dbs clock opts u c amount d)))
    (txns (snd (EnhancedLockFunds dbs clock opts u c amount d)))"
proof (cases "amount \<le> 0")
  case False
  let ?I = "\<lambda>d. sound_ledger (accts d) (txns d)"
  have "?I (snd (executeLockFundsWithRetry (dbs i) (clock i) o' u c amount d))" if "?I d" for i o' d
  proof (rule call_keeps [where I = ?I, OF that])
    fix d' assume "executeLockFundsWithRetry (dbs i) (clock i) o' u c amount d = (None, d')"
    from enhanced_lock_effect [OF assms(1) this] show "?I d'" using sound_lock_adjusts [OF that] False by auto
  qed (auto simp: executeLockFundsWithRetry_def dest: in_tx_Some)
  then show ?thesis using False assms(2)
    by (simp add: EnhancedLockFunds_def Let_def retry_result_snd retry_keeps [where I = ?I])
qed (simp add: EnhancedLockFunds_def assms(2))

lemma transfer_sound:
  assumes "ledger_laws db accts txns" "0 \<le> amount" "sound_ledger (accts d) (txns d)"
  shows "sound_ledger (accts (snd (bk_TransferFunds db ids clock u v c amount desc d)))
    (txns (snd (bk_TransferFunds db ids clock u v c amount desc d)))"
proof (rule call_keeps [where I = "\<lambda>d. sound_ledger (accts d) (txns d)"])
  fix d' assume "bk_TransferFunds db ids clock u v c amount desc d = (None, d')"
  from transfer_effect [OF assms(1) this] show "sound_ledger (accts d') (txns d')"
    using sound_transfer_call [OF assms(3,2)] by blast
qed (use assms(3) in \<open>auto simp: bk_TransferFunds_def dest: in_tx_Some\<close>)

lemma enhanced_transfer_sound:
  assumes "\<And>i. ledger_laws (dbs i) accts txns" "sound_ledger (accts d) (txns d)"
  shows "sound_ledger (accts (snd (EnhancedTransferFunds dbs idss clocks opts u v c amount desc d)))
    (txns (snd (EnhancedTransferFunds dbs idss clocks opts u v c amount desc d)))"
proof (cases "amount \<le> 0")
  case False
  let ?I = "\<lambda>d. sound_ledger (accts d) (txns d)"
  have "?I (snd (executeTransferWithEnhancedLocking (dbs i) (idss i) (clocks i) o' u v c amount desc d))" if "?I d" for i o' d
  proof (rule call_keeps [where I = ?I, OF that])
    fix d' assume "executeTransferWithEnhancedLocking (dbs i) (idss i) (clocks i) o' u v c amount desc d = (None, d')"
    from enhanced_transfer_effect [OF assms(1) this] show "?I d'"
      using sound_transfer_call [OF that, of amount] that False by (metis linear)
  qed (auto simp: executeTransferWithEnhancedLocking_def dest: in_tx_Some)
  then show ?thesis using False assms(2)
    by (simp add: EnhancedTransferFunds_def Let_def retry_result_snd retry_keeps [where I = ?I])
qed (simp add: EnhancedTransferFunds_def assms(2))


lemma complete_sound:
  assumes "ledger_laws db accts txns" "sound_ledger (accts d) (txns d)"
  shows "sound_ledger (accts (snd (bk_CompleteTransaction db clock s d))) (txns (snd (bk_CompleteTransaction db clock s d)))"
proof (rule call_keeps [where I = "\<lambda>d. sound_ledger (accts d) (txns d)"])
  fix d' assume "bk_CompleteTransaction db clock s d = (None, d')"
  from complete_effect [OF assms(1) this] obtain t a a' where e: "txns d (bt_ID t) = Some t" "accts d (ba_ID a) = Some a"
    "completed_account t a = Inr a'" "accts d' = (accts d)(ba_ID a \<mapsto> a'\<lparr>ba_UpdatedAt := clock 0\<rparr>)"
    "txns d' = (txns d)(bt_ID t \<mapsto> t\<lparr>bt_Status := ''completed'', bt_UpdatedAt := clock 1, bt_CompletedAt := Some (clock 1)\<rparr>)"
    by blast
  have "sound_account a" "0 \<le> bt_Amount t" using e(1,2) assms(2) by (auto dest: sound_ledgerD)
  then have "sound_account (a'\<lparr>ba_UpdatedAt := clock 0\<rparr>)"
    using e(3) by (auto simp: completed_account_def sound_account_def split: if_splits)
  then show "sound_ledger (accts d') (txns d')" using e(4,5) assms(2) \<open>0 \<le> bt_Amount t\<close>
    by (simp add: sound_ledger_upd sound_ledger_upd_txn del: fun_upd_apply)
qed (use assms(2) in \<open>auto simp: bk_CompleteTransaction_def dest: in_tx_Some\<close>)

lemma fail_sound:
  assumes "ledger_laws db accts txns" "sound_ledger (accts d) (txns d)"
  shows "sound_ledger (accts (snd (bk_FailTransaction db now s d))) (txns (snd (bk_FailTransaction db now s d)))"
proof (rule call_keeps [where I = "\<lambda>d. sound_ledger (accts d) (txns d)"])
  fix d' assume "bk_FailTransaction db now s d = (None, d')"
  from fail_effect [OF assms(1) this] show "sound_ledger (accts d') (txns d')"
    using assms(2) sound_ledgerD(2) [OF assms(2)] by (auto intro!: sound_ledger_upd_txn simp del: fun_upd_apply)
qed (use assms(2) in \<open>auto simp: bk_FailTransaction_def dest: in_tx_Some\<close>)

lemma create_txn_sound:
  assumes "ledger_laws db accts txns" "0 \<le> amount" "sound_ledger (accts d) (txns d)"
  shows "sound_ledger (accts (snd (bk_CreateTransaction db i now u typ amount c ref desc d)))
    (txns (snd (bk_CreateTransaction db i now u typ amount c ref desc d)))"
proof (rule call_keeps [where I = "\<lambda>d. sound_ledger (accts d) (txns d)"])
  fix d' assume "bk_CreateTransaction db i now u typ amount c ref desc d = (None, d')"
  from create_txn_effect [OF assms(1) this] show "sound_ledger (accts d') (txns d')" using assms(2,3)
    by (auto intro!: sound_ledger_upd_txn simp del: fun_upd_apply)
qed (use assms(3) in \<open>auto simp: bk_CreateTransaction_def dest: in_tx_Some\<close>)

lemma create_account_sound:
  assumes "ledger_laws db accts txns" "sound_ledger (accts d) (txns d)"
  shows "sound_ledger (accts (snd (bk_CreateAccount db i now u c d))) (txns (snd (bk_CreateAccount db i now u c d)))"
proof (cases "bk_CreateAccount db i now u c d")
  case (Pair r d')
  show ?thesis
  proof (cases r)
    case (Inl e)
    then show ?thesis using create_account_error [of db i now u c d e d'] Pair assms(2) by simp
  next
    case (Inr a)
    then show ?thesis using create_account_effect [OF assms(1), of i now u c d a d'] Pair assms(2)
      by (auto simp: sound_zero sound_ledger_upd simp del: fun_upd_apply)
  qed
qed

lemma ledger_step_sound:
  "ledger_step accts txns d d' \<Longrightarrow> sound_ledger (accts d) (txns d) \<Longrightarrow> sound_ledger (accts d') (txns d')"
  by (induction rule: ledger_step.induct)
     (simp_all add: create_account_sound create_txn_sound complete_sound fail_sound lock_sound unlock_sound transfer_sound
        enhanced_lock_sound enhanced_transfer_sound batches_sound BatchLockFunds_def BatchUnlockFunds_def)

lemma ledger_history_sound:
  "ledger_history accts txns d0 d \<Longrightarrow> sound_ledger (accts d0) (txns d0) \<Longrightarrow> sound_ledger (accts d) (txns d)"
  by (induction rule: ledger_history.induct) (auto intro: ledger_step_sound)

section \<open>The total of a currency\<close>

definition currency_total :: "string \<Rightarrow> (uuid \<rightharpoonup> bk_account) \<Rightarrow> decimal" where
  "currency_total c A = (\<Sum>i | \<exists>a. A i = Some a \<and> ba_Currency a = c. ba_Balance (the (A i)))"

text \<open>What one row contributes, so that a total is a sum over any finite set that holds the rows.\<close>

definition contribution :: "string \<Rightarrow> bk_account option \<Rightarrow> decimal" where
  "contribution c r = (case r of Some a \<Rightarrow> if ba_Currency a = c then ba_Balance a else 0 | None \<Rightarrow> 0)"

lemma contribution_simps [simp]:
  "contribution c None = 0" "contribution c (Some a) = (if ba_Currency a = c then ba_Balance a else 0)"
  by (simp_all add: contribution_def)

lemma currency_total_sum:
  assumes "finite S" "dom A \<subseteq> S" shows "currency_total c A = (\<Sum>i \<in> S. contribution c (A i))"
proof -
  have "currency_total c A = (\<Sum>i | \<exists>a. A i = Some a \<and> ba_Currency a = c. contribution c (A i))"
    unfolding currency_total_def by (rule sum.cong) auto
  also have "\<dots> = (\<Sum>i \<in> S. contribution c (A i))"
    by (rule sum.mono_neutral_left) (use assms in \<open>auto simp: contribution_def split: option.splits\<close>)
  finally show ?thesis .
qed

lemma currency_total_upd:
  assumes "finite (dom A)"
  shows "currency_total c (A(i \<mapsto> a)) = currency_total c A - contribution c (A i) + contribution c (Some a)"
proof -
  let ?S = "insert i (dom A)"
  have "currency_total c (A(i \<mapsto> a)) = (\<Sum>j \<in> ?S. contribution c ((A(i \<mapsto> a)) j))"
    by (rule currency_total_sum) (use assms in auto)
  also have "\<dots> = contribution c (Some a) + (\<Sum>j \<in> ?S - {i}. contribution c (A j))"
    using assms by (subst sum.remove [of _ i]) (auto intro!: sum.cong)
  also have "(\<Sum>j \<in> ?S - {i}. contribution c (A j)) = (\<Sum>j \<in> ?S. contribution c (A j)) - contribution c (A i)"
    using assms by (subst sum.remove [of ?S i]) auto
  also have "(\<Sum>j \<in> ?S. contribution c (A j)) = currency_total c A"
    by (rule currency_total_sum [symmetric]) (use assms in auto)
  finally show ?thesis by (simp del: fun_upd_apply)
qed

lemma currency_total_transfers:
  assumes "transfers A fa ta clock amount A'" "finite (dom A)" "ba_Currency fa = c" "ba_Currency ta = c"
  shows "currency_total k A' = currency_total k A + (if k = c \<and> ba_ID ta = ba_ID fa then amount else 0)"
proof -
  let ?fa = "updated_account (clock 0) (- amount) (- amount) 0 fa" and ?ta = "updated_account (clock 1) amount amount 0 ta"
  let ?B = "A(ba_ID fa \<mapsto> ?fa)"
  have fa: "A (ba_ID fa) = Some fa" and ta: "contribution k (A (ba_ID ta)) = (if k = c then ba_Balance ta else 0)"
    and A': "A' = ?B(ba_ID ta \<mapsto> ?ta)"
    using assms(1,4) by (auto simp: transfers_def)
  have B: "currency_total k ?B = currency_total k A - (if k = c then amount else 0)"
    using fa assms(3) by (simp add: currency_total_upd [OF assms(2)] del: fun_upd_apply)
  have "finite (dom ?B)" using assms(2) by simp
  then have "currency_total k A' = currency_total k ?B - contribution k (?B (ba_ID ta)) + contribution k (Some ?ta)"
    unfolding A' by (rule currency_total_upd)
  moreover have "contribution k (?B (ba_ID ta)) = (if k \<noteq> c then 0 else if ba_ID ta = ba_ID fa then ba_Balance fa - amount else ba_Balance ta)"
    using ta assms(3) by auto
  moreover have "contribution k (Some ?ta) = (if k = c then ba_Balance ta + amount else 0)" using assms(4) by auto
  moreover have "ba_Balance ta = ba_Balance fa" if "ba_ID ta = ba_ID fa" using assms(1) that by (auto simp: transfers_def)
  ultimately show ?thesis using B by (auto simp del: fun_upd_apply)
qed


section \<open>The retry loop\<close>

text \<open>
  The contract a retry loop rests on: an attempt that fails has changed nothing. The two enhanced
  operations keep it, because their attempts are database transactions.
\<close>

locale undone_attempts =
  fixes run :: "nat \<Rightarrow> 'd \<Rightarrow> bk_error option \<times> 'd"
  assumes undone: "run i d = (Some e, d') \<Longrightarrow> d' = d"
begin

lemma retry_attempts_None:
  "retry_attempts run a n le d = (None, d') \<longleftrightarrow>
    (\<exists>k<n. (\<forall>i<k. \<exists>e. run (a + i) d = (Some e, d) \<and> isRetryableError e) \<and> run (a + k) d = (None, d'))"
proof (induction n arbitrary: a le)
  case (Suc n)
  obtain r d1 where r: "run a d = (r, d1)" by (cases "run a d")
  show ?case
  proof (cases r)
    case None
    have z: "k = 0" if "\<forall>i<k. \<exists>e. run (a + i) d = (Some e, d) \<and> isRetryableError e" for k
      using that r None by (cases k) (auto dest: spec [of _ 0])
    show ?thesis
    proof
      assume "retry_attempts run a (Suc n) le d = (None, d')"
      then show "\<exists>k<Suc n. (\<forall>i<k. \<exists>e. run (a + i) d = (Some e, d) \<and> isRetryableError e) \<and> run (a + k) d = (None, d')"
        using r None by (intro exI [of _ 0]) simp
    next
      assume "\<exists>k<Suc n. (\<forall>i<k. \<exists>e. run (a + i) d = (Some e, d) \<and> isRetryableError e) \<and> run (a + k) d = (None, d')"
      then obtain k where k: "\<forall>i<k. \<exists>e. run (a + i) d = (Some e, d) \<and> isRetryableError e" "run (a + k) d = (None, d')" by blast
      then show "retry_attempts run a (Suc n) le d = (None, d')" using r None z [OF k(1)] by simp
    qed
  next
    case (Some e)
    then have d1: "d1 = d" using undone r by blast
    let ?P = "\<lambda>a k. (\<forall>i<k. \<exists>e. run (a + i) d = (Some e, d) \<and> isRetryableError e) \<and> run (a + k) d = (None, d')"
    have s: "(\<exists>k<Suc n. ?P a k) \<longleftrightarrow> isRetryableError e \<and> (\<exists>k<n. ?P (Suc a) k)"
    proof
      assume "\<exists>k<Suc n. ?P a k"
      then obtain k where k: "k < Suc n" "?P a k" by blast
      moreover have "k \<noteq> 0" using k r Some by (cases k) auto
      ultimately obtain j where j: "k = Suc j" "j < n" by (cases k) auto
      have "isRetryableError e" using k j r Some by (auto dest: spec [of _ 0])
      moreover have "?P (Suc a) j" using k(2) j by (auto dest: spec [of _ "Suc _"])
      ultimately show "isRetryableError e \<and> (\<exists>k<n. ?P (Suc a) k)" using j by blast
    next
      assume "isRetryableError e \<and> (\<exists>k<n. ?P (Suc a) k)"
      then obtain j where j: "isRetryableError e" "j < n" "?P (Suc a) j" by blast
      have "\<exists>e. run (a + i) d = (Some e, d) \<and> isRetryableError e" if "i < Suc j" for i
        using j r Some d1 that by (cases i) auto
      then have "?P a (Suc j)" using j(3) by simp
      then show "\<exists>k<Suc n. ?P a k" using j(2) by blast
    qed
    show ?thesis using r Some d1 s Suc.IH by auto
  qed
qed simp

lemma retry_attempts_Some:
  "retry_attempts run a n le d = (Some e, d') \<Longrightarrow> d' = d"
proof (induction n arbitrary: a le)
  case (Suc n)
  then show ?case using undone by (auto split: prod.splits option.splits if_splits) metis+
qed simp

end

interpretation lock_attempts: undone_attempts "\<lambda>i. executeLockFundsWithRetry (dbs i) (clock i) opts u c amount"
  for dbs clock opts u c amount
  by unfold_locales (auto simp: executeLockFundsWithRetry_def dest: in_tx_Some)

interpretation transfer_attempts: undone_attempts
  "\<lambda>i. executeTransferWithEnhancedLocking (dbs i) (ids i) (clocks i) opts u v c amount desc"
  for dbs ids clocks opts u v c amount desc
  by unfold_locales (auto simp: executeTransferWithEnhancedLocking_def dest: in_tx_Some)

section \<open>Batches\<close>

text \<open>A batch of batches is one pass over the operations when a batch of a concatenation is two batches.\<close>

lemma batches_fold:
  assumes "\<And>xs ys st. run (xs @ ys) st = run ys (run xs st)" and "\<And>st. run [] st = st"
  shows "batches run fos st = run fos st"
proof (induction fos arbitrary: st rule: length_induct)
  case (1 fos)
  show ?case
  proof (cases "fos = []")
    case False
    then have "batches run (drop 50 fos) (run (take 50 fos) st) = run (drop 50 fos) (run (take 50 fos) st)"
      using 1 by simp
    also have "\<dots> = run (take 50 fos @ drop 50 fos) st" by (rule assms(1) [symmetric])
    also have "\<dots> = run fos st" by simp
    finally show ?thesis using False by (simp add: batches.simps [of run fos])
  qed (simp add: batches.simps assms(2))
qed

lemma batch_steps_append: "batch_steps db lock now (xs @ ys) st = batch_steps db lock now ys (batch_steps db lock now xs st)"
  by (induction xs arbitrary: st) auto

text \<open>The same operations, one call of \<open>LockFunds\<close> after the other: how many succeed, the keys of those that do not.\<close>

fun lock_each :: "'d ledger_db \<Rightarrow> time \<Rightarrow> funds_operation list \<Rightarrow> (int \<times> string set) \<times> 'd \<Rightarrow> (int \<times> string set) \<times> 'd" where
  "lock_each db now [] st = st"
| "lock_each db now (fo # fos) ((n, K), d) =
     (case bk_LockFunds db now (fo_UserID fo) (fo_Currency fo) (fo_Amount fo) d of
        (None, d') \<Rightarrow> lock_each db now fos ((n + 1, K), d')
      | (Some e, d') \<Rightarrow> lock_each db now fos ((n, insert (fo_UserID fo @ ''-'' @ fo_Currency fo) K), d'))"

text \<open>A database that answers every statement except for rows that are missing.\<close>

definition answering :: "'d ledger_db \<Rightarrow> bool" where
  "answering db \<longleftrightarrow> (\<forall>d. ld_begin db d = None) \<and> (\<forall>d d'. ld_commit db d d' = None) \<and>
     (\<forall>u c d. ld_find_locked db False u c d = ld_find db u c d) \<and>
     (\<forall>u c d e. ld_find db u c d = Inl e \<longrightarrow> e = ErrRecordNotFound) \<and> (\<forall>a d. \<exists>d'. ld_save db a d = Inr d')"

lemma answeringD:
  assumes "answering db"
  shows "ld_begin db d = None" "ld_commit db d d' = None" "ld_find_locked db False u c d = ld_find db u c d"
    "ld_find db u c d = Inl e \<Longrightarrow> e = ErrRecordNotFound" "\<exists>d'. ld_save db a d = Inr d'"
  using assms unfolding answering_def by blast+

lemma batch_step_lock:
  assumes "answering db"
  shows "\<exists>e. batch_step db True now fo (r, d) =
    (case bk_LockFunds db now (fo_UserID fo) (fo_Currency fo) (fo_Amount fo) d of
       (None, d') \<Rightarrow> (succeeded r, d')
     | (Some _, d') \<Rightarrow> (failed_item (fo_UserID fo @ ''-'' @ fo_Currency fo) e r, d'))"
proof (cases "ld_find db (fo_UserID fo) (fo_Currency fo) d")
  case (Inl e)
  then show ?thesis using answeringD [OF assms]
    by (auto simp: batch_step_def bk_LockFunds_def in_tx_def Let_def)
next
  case (Inr a)
  obtain d' where "ld_save db (updated_account now 0 (- fo_Amount fo) (fo_Amount fo) a) d = Inr d'"
    using answeringD(5) [OF assms] by blast
  then show ?thesis using Inr answeringD(1-3) [OF assms]
    by (auto simp: batch_step_def bk_LockFunds_def in_tx_def atomicBalanceUpdate_def Let_def)
qed

lemma batch_steps_lock:
  assumes "answering db"
  shows "(let (r', d') = batch_steps db True now fos (r, d) in ((br_SuccessCount r', dom (br_FailedItems r')), d')) =
    lock_each db now fos ((br_SuccessCount r, dom (br_FailedItems r)), d)"
proof (induction fos arbitrary: r d)
  case (Cons fo fos)
  obtain e where e: "batch_step db True now fo (r, d) =
      (case bk_LockFunds db now (fo_UserID fo) (fo_Currency fo) (fo_Amount fo) d of
         (None, d') \<Rightarrow> (succeeded r, d')
       | (Some _, d') \<Rightarrow> (failed_item (fo_UserID fo @ ''-'' @ fo_Currency fo) e r, d'))"
    using batch_step_lock [OF assms] by blast
  show ?case
    by (cases "bk_LockFunds db now (fo_UserID fo) (fo_Currency fo) (fo_Amount fo) d"; cases "fst (bk_LockFunds db now (fo_UserID fo) (fo_Currency fo) (fo_Amount fo) d)")
       (simp_all add: e Cons.IH succeeded_def failed_item_def del: fun_upd_apply)
qed simp


section \<open>The enhanced operations\<close>

lemma retry_result_Some: "retry_result what m r = (Some e, d) \<Longrightarrow> \<exists>e'. r = (Some e', d)"
  by (auto simp: retry_result_def Let_def split: prod.splits option.splits)

lemma EnhancedLockFunds_error: "EnhancedLockFunds dbs clock opts u c amount d = (Some e, d') \<Longrightarrow> d' = d"
  by (auto simp: EnhancedLockFunds_def Let_def split: if_splits dest!: retry_result_Some intro: lock_attempts.retry_attempts_Some)

lemma EnhancedTransferFunds_error: "EnhancedTransferFunds dbs ids clock opts u v c amount desc d = (Some e, d') \<Longrightarrow> d' = d"
  by (auto simp: EnhancedTransferFunds_def Let_def split: if_splits dest!: retry_result_Some intro: transfer_attempts.retry_attempts_Some)

definition options_of :: "transaction_options option \<Rightarrow> transaction_options" where
  "options_of opts = (case opts of Some o' \<Rightarrow> o' | None \<Rightarrow> DefaultTransactionOptions)"

lemma less_nat_attempts: "k < nat (m + 1) \<longleftrightarrow> int k \<le> m"
  by auto

lemma EnhancedLockFunds_None:
  "EnhancedLockFunds dbs clock opts u c amount d = (None, d') \<longleftrightarrow> 0 < amount \<and>
     (\<exists>k. int k \<le> op_MaxRetries (options_of opts) \<and>
       (\<forall>i<k. \<exists>e. executeLockFundsWithRetry (dbs i) (clock i) (options_of opts) u c amount d = (Some e, d) \<and> isRetryableError e) \<and>
       executeLockFundsWithRetry (dbs k) (clock k) (options_of opts) u c amount d = (None, d'))"
  by (auto simp: EnhancedLockFunds_def options_of_def [symmetric] Let_def retry_result_None
      lock_attempts.retry_attempts_None less_nat_attempts)

lemma EnhancedTransferFunds_None:
  "EnhancedTransferFunds dbs ids clock opts u v c amount desc d = (None, d') \<longleftrightarrow> 0 < amount \<and>
     (\<exists>k. int k \<le> op_MaxRetries (options_of opts) \<and>
       (\<forall>i<k. \<exists>e. executeTransferWithEnhancedLocking (dbs i) (ids i) (clock i) (options_of opts) u v c amount desc d = (Some e, d) \<and>
          isRetryableError e) \<and>
       executeTransferWithEnhancedLocking (dbs k) (ids k) (clock k) (options_of opts) u v c amount desc d = (None, d'))"
  by (auto simp: EnhancedTransferFunds_def options_of_def [symmetric] Let_def retry_result_None
      transfer_attempts.retry_attempts_None less_nat_attempts)

end
