(* ===== verification/BookkeeperTheorems.thy ===== *)
theory BookkeeperTheorems
  imports BookkeeperHistory
begin

text \<open>
  The properties of the bookkeeper, each with a witness on a database that is a log of rows: the last
  row written under an ID is the one that is stored.
\<close>

section \<open>A database\<close>

type_synonym mem_ledger = "(uuid \<times> bk_account) list \<times> (uuid \<times> bk_txn) list"

definition mem_user :: "uuid \<Rightarrow> string" where
  "mem_user u = show_int (int u)"

definition mem_find :: "string \<Rightarrow> string \<Rightarrow> mem_ledger \<Rightarrow> bk_error + bk_account" where
  "mem_find u c d =
     (case find (\<lambda>(i, a). mem_user (ba_UserID a) = u \<and> ba_Currency a = c \<and> map_of (fst d) (ba_ID a) = Some a) (fst d) of
        Some (i, a) \<Rightarrow> Inr a | None \<Rightarrow> Inl ErrRecordNotFound)"

definition mem_find_txn :: "string \<Rightarrow> mem_ledger \<Rightarrow> bk_error + bk_txn" where
  "mem_find_txn s d =
     (case find (\<lambda>(i, t). mem_user (bt_ID t) = s \<and> map_of (snd d) (bt_ID t) = Some t) (snd d) of
        Some (i, t) \<Rightarrow> Inr t | None \<Rightarrow> Inl ErrRecordNotFound)"

text \<open>Only the texts of the users 1 to 3 parse.\<close>

definition mem_parse :: "string \<Rightarrow> bk_error + uuid" where
  "mem_parse s = (case find (\<lambda>u. mem_user u = s) [1, 2, 3] of Some u \<Rightarrow> Inr u | None \<Rightarrow> Inl (Raw ''invalid UUID''))"

definition mem_db :: "mem_ledger ledger_db" where
  "mem_db = \<lparr>ld_find = mem_find, ld_find_locked = (\<lambda>nowait. mem_find),
     ld_count = (\<lambda>u c d. Inr (case mem_find u c d of Inr a \<Rightarrow> 1 | Inl e \<Rightarrow> 0)),
     ld_save = (\<lambda>a (A, T). Inr ((ba_ID a, a) # A, T)),
     ld_create = (\<lambda>a (A, T). if map_of A (ba_ID a) = None then Inr ((ba_ID a, a) # A, T) else Inl (Raw ''duplicate key'')),
     ld_find_txn = mem_find_txn, ld_save_txn = (\<lambda>t (A, T). Inr (A, (bt_ID t, t) # T)),
     ld_create_txn = (\<lambda>t (A, T). Inr (A, (bt_ID t, t) # T)),
     ld_begin = (\<lambda>d. None), ld_commit = (\<lambda>d d'. None), ld_commit_tx = (\<lambda>d d'. Inr d'), ld_poison = (\<lambda>d. d), ld_done = (\<lambda>d. d),
     ld_parse = mem_parse, ld_ustr = mem_user, ld_f8 = (\<lambda>x. [])\<rparr>"

definition mem_accts :: "mem_ledger \<Rightarrow> uuid \<rightharpoonup> bk_account" where
  "mem_accts d = map_of (fst d)"

definition mem_txns :: "mem_ledger \<Rightarrow> uuid \<rightharpoonup> bk_txn" where
  "mem_txns d = map_of (snd d)"

lemma find_holds: "find P xs = Some x \<Longrightarrow> P x"
  by (induction xs) (auto split: if_splits)

lemma mem_laws: "ledger_laws mem_db mem_accts mem_txns"
proof -
  have f: "map_of (fst d) (ba_ID a) = Some a \<and> ba_Currency a = c" if "mem_find u c d = Inr a" for u c d a
    using that by (auto simp: mem_find_def split: option.splits dest: find_holds)
  have t: "map_of (snd d) (bt_ID t) = Some t" if "mem_find_txn s d = Inr t" for s d t
    using that by (auto simp: mem_find_txn_def split: option.splits dest: find_holds)
  show ?thesis unfolding ledger_laws_def
    using f t by (auto simp: mem_db_def mem_accts_def mem_txns_def finite_dom_map_of split: prod.splits if_splits)
qed

lemma mem_answering: "answering mem_db"
  by (auto simp: answering_def mem_db_def mem_find_def split: option.splits prod.splits)

text \<open>The account \<open>i\<close> of the user \<open>u\<close> with an available and a locked amount.\<close>

definition row :: "uuid \<Rightarrow> uuid \<Rightarrow> decimal \<Rightarrow> decimal \<Rightarrow> uuid \<times> bk_account" where
  "row i u available locked = (i, \<lparr>ba_ID = i, ba_UserID = u, ba_Currency = ''EUR'', ba_Balance = available + locked,
     ba_Available = available, ba_Locked = locked, ba_CreatedAt = 0, ba_UpdatedAt = 0\<rparr>)"

definition two_users :: mem_ledger where
  "two_users = ([row 10 1 100 5, row 20 2 7 0], [])"


definition paid :: mem_ledger where
  "paid = snd (bk_TransferFunds mem_db (\<lambda>n. 30 + n) int ''1'' ''2'' ''EUR'' 40 ''rent'' two_users)"

section \<open>Balances\<close>

text \<open>
  C10: the invariant of the accounts. From tables where it holds, over every history of account creations, transactions, locks,
  unlocks, transfers, enhanced and batched locks, unlocks and transfers, with amounts that are not
  negative where the code does not check them, and with statements that may fail at any time, every
  account's balance is the sum of its available and its locked amount and neither of these is
  negative. The calls that break it are no steps of such a history: \<open>BatchUpdateBalances\<close>, which
  writes the columns it is given, the transfer in an XA transaction (\<open>TransferFundsXA_unsound\<close>), and
  a lock or transfer of a negative amount.
\<close>

theorem ledger_invariant:
  assumes "ledger_history accts txns d0 d"
    and "sound_ledger (accts d0) (txns d0)"
    and "accts d i = Some a"
  shows "ba_Balance a = ba_Available a + ba_Locked a \<and> 0 \<le> ba_Available a \<and> 0 \<le> ba_Locked a"
  using sound_ledgerD(1) [OF ledger_history_sound [OF assms(1,2)] assms(3)] by (simp add: sound_account_def)

lemma two_users_sound: "sound_ledger (mem_accts two_users) (mem_txns two_users)"
  by (auto simp: sound_ledger_def mem_accts_def mem_txns_def two_users_def row_def sound_account_def split: if_splits)

lemma paid_history: "ledger_history mem_accts mem_txns two_users paid"
  unfolding paid_def by (rule ledger_history.step [OF ledger_history.start ledger_step.transfer [OF mem_laws]]) simp

theorem ledger_invariant_witness:
  "\<exists>a. mem_accts paid 10 = Some a \<and> ba_Available a = 60 \<and> ba_Balance a = 65 \<and>
     ba_Balance a = ba_Available a + ba_Locked a \<and> 0 \<le> ba_Available a \<and> 0 \<le> ba_Locked a"
proof -
  have p: "mem_accts paid 10 \<noteq> None \<and> ba_Available (the (mem_accts paid 10)) = 60 \<and> ba_Balance (the (mem_accts paid 10)) = 65"
    by code_simp
  then obtain a where a: "mem_accts paid 10 = Some a" by blast
  show ?thesis using p a ledger_invariant [OF paid_history two_users_sound a] by auto
qed

text \<open>
  What a transfer finds: the sender's row and the receiver's, found or created, are rows of the users
  whose IDs the two texts are. The query compares the user column, so a row it finds for a text that
  is a user's ID is a row of that user.
\<close>

definition user_law :: "'d ledger_db \<Rightarrow> bool" where
  "user_law db \<longleftrightarrow> (\<forall>w u c d a x. ld_find_locked db w u c d = Inr a \<longrightarrow> ld_parse db u = Inr x \<longrightarrow> ba_UserID a = x)"

lemma receiver_user:
  assumes "user_law db" and "find_or_create db w msg i now v c d = Inr (ta, d1)" and "ld_parse db v = Inr y"
  shows "ba_UserID ta = y"
  using assms by (auto simp: find_or_create_def user_law_def new_account_def Let_def split: sum.splits if_splits)

lemma transfer_rows:
  assumes laws: "ledger_laws db accts txns" "user_law db"
    and "bk_TransferFunds db ids clock u v c amount desc d = (None, d')"
  shows "\<exists>fa ta. ld_parse db u = Inr (ba_UserID fa) \<and> ld_parse db v = Inr (ba_UserID ta) \<and>
    ba_Currency fa = c \<and> ba_Currency ta = c \<and> (u = v \<longrightarrow> ta = fa) \<and>
    transfers (accts d) fa ta clock amount (accts d')"
proof -
  obtain fa ta d1 d2 x y where s: "ld_find_locked db False u c d = Inr fa"
    "find_or_create db False ''failed to find to account'' (ids 0) (clock 0) v c d = Inr (ta, d1)"
    "atomicTransfer db clock fa ta amount d1 = Inr d2" and p: "ld_parse db u = Inr x" "ld_parse db v = Inr y"
    and rest: "accts d' = accts d2"
    using in_tx_Returns [OF assms(3) [unfolded bk_TransferFunds_def]] records_effect [OF laws(1)] by (auto split: prod.splits)
  note r = receiver_effect [OF laws(1) disjI1, OF s(2)]
  have "transfers (accts d) fa ta clock amount (accts d2)"
    using transfers_receiver [OF laws(1) _ _ r s(3)] ledgerD(2) [OF laws(1) s(1)] by blast
  moreover have "u = v \<longrightarrow> ta = fa" using s(1,2) by (auto simp: find_or_create_def)
  moreover have "ba_UserID fa = x" using s(1) p(1) laws(2) unfolding user_law_def by blast
  ultimately show ?thesis
    using ledgerD(2) [OF laws(1) s(1)] r rest p receiver_user [OF laws(2) s(2) p(2)] by auto
qed

lemma transfers_same_row: "transfers A fa ta clock amount A' \<Longrightarrow> ba_ID ta = ba_ID fa \<Longrightarrow> ta = fa"
  by (auto simp: transfers_def)

text \<open>
  C11: what a transfer does. A \<open>TransferFunds\<close> that reports success takes the amount, which was
  available, off the row of the sending user and adds it to the row of the receiving user, which is
  created when there is none, both as they were read, and touches no other row. So between two users
  it keeps every currency's total; but sender and receiver written as the same text are the same row,
  the second update overwrites the first, and the total of the currency grows by the amount.
\<close>

theorem transfer_totals:
  assumes "ledger_laws db accts txns" and "user_law db"
    and "bk_TransferFunds db ids clock u v c amount desc d = (None, d')"
  shows "\<exists>fa ta. ld_parse db u = Inr (ba_UserID fa) \<and> ld_parse db v = Inr (ba_UserID ta) \<and>
    ba_Currency fa = c \<and> ba_Currency ta = c \<and> accts d (ba_ID fa) = Some fa \<and>
    (accts d (ba_ID ta) = Some ta \<or> accts d (ba_ID ta) = None \<and> ba_Balance ta = 0 \<and> ba_Available ta = 0) \<and>
    amount \<le> ba_Available fa \<and>
    accts d' = (accts d)
      (ba_ID fa \<mapsto> fa\<lparr>ba_Balance := ba_Balance fa - amount, ba_Available := ba_Available fa - amount,
                     ba_UpdatedAt := clock 0\<rparr>,
       ba_ID ta \<mapsto> ta\<lparr>ba_Balance := ba_Balance ta + amount, ba_Available := ba_Available ta + amount,
                     ba_UpdatedAt := clock 1\<rparr>) \<and>
    (ba_UserID fa \<noteq> ba_UserID ta \<longrightarrow> ba_ID fa \<noteq> ba_ID ta \<and>
       (\<forall>k. currency_total k (accts d') = currency_total k (accts d))) \<and>
    (u = v \<longrightarrow> currency_total c (accts d') = currency_total c (accts d) + amount)"
proof -
  from transfer_rows [OF assms] obtain fa ta where t: "ld_parse db u = Inr (ba_UserID fa)"
    "ld_parse db v = Inr (ba_UserID ta)" "ba_Currency fa = c" "ba_Currency ta = c" "u = v \<longrightarrow> ta = fa"
    "transfers (accts d) fa ta clock amount (accts d')"
    by blast
  note total = currency_total_transfers [OF t(6) ledgerD(9) [OF assms(1)] t(3,4)]
  have rows: "accts d' = (accts d)
      (ba_ID fa \<mapsto> fa\<lparr>ba_Balance := ba_Balance fa - amount, ba_Available := ba_Available fa - amount,
                     ba_UpdatedAt := clock 0\<rparr>,
       ba_ID ta \<mapsto> ta\<lparr>ba_Balance := ba_Balance ta + amount, ba_Available := ba_Available ta + amount,
                     ba_UpdatedAt := clock 1\<rparr>)"
    and found: "amount \<le> ba_Available fa" "accts d (ba_ID fa) = Some fa"
      "accts d (ba_ID ta) = Some ta \<or> accts d (ba_ID ta) = None \<and> ba_Balance ta = 0 \<and> ba_Available ta = 0"
    using t(6) unfolding transfers_def updated_account_def by auto
  have other: "ba_UserID fa \<noteq> ba_UserID ta \<longrightarrow> ba_ID fa \<noteq> ba_ID ta \<and>
      (\<forall>k. currency_total k (accts d') = currency_total k (accts d))"
    using transfers_same_row [OF t(6)] total by fastforce
  have same: "u = v \<longrightarrow> currency_total c (accts d') = currency_total c (accts d) + amount"
    using t(5) total by simp
  show ?thesis using t(1-4) found rows other same by blast
qed

lemma mem_user_law: "user_law mem_db"
proof -
  have "mem_user x = u" if "mem_parse u = Inr x" for u x
    using that by (auto simp: mem_parse_def simp del: find.simps split: option.splits dest: find_holds)
  moreover have "mem_user (ba_UserID a) = u" if "mem_find u c d = Inr a" for u c d a
    using that by (auto simp: mem_find_def split: option.splits dest: find_holds)
  moreover have "x = y" if "mem_user x = mem_user y" for x y
    using that show_int_inj [of "int x" "int y"] by (simp add: mem_user_def)
  ultimately show ?thesis by (fastforce simp: user_law_def mem_db_def)
qed

theorem transfer_totals_witness:
  "\<exists>d' e'. bk_TransferFunds mem_db (\<lambda>n. 30 + n) int ''1'' ''2'' ''EUR'' 40 ''rent'' two_users = (None, d') \<and>
     (\<forall>k. currency_total k (mem_accts d') = currency_total k (mem_accts two_users)) \<and>
     bk_TransferFunds mem_db (\<lambda>n. 30 + n) int ''1'' ''1'' ''EUR'' 40 ''rent'' two_users = (None, e') \<and>
     currency_total ''EUR'' (mem_accts e') = currency_total ''EUR'' (mem_accts two_users) + 40"
proof -
  let ?r = "\<lambda>v. bk_TransferFunds mem_db (\<lambda>n. 30 + n) int ''1'' v ''EUR'' 40 ''rent'' two_users"
  have "fst (?r ''2'') = None" "fst (?r ''1'') = None" by code_simp+
  then have r: "?r ''2'' = (None, snd (?r ''2''))" "?r ''1'' = (None, snd (?r ''1''))" by (metis prod.collapse)+
  have p: "ld_parse mem_db ''1'' = Inr 1" "ld_parse mem_db ''2'' = Inr 2" by code_simp+
  have "\<forall>k. currency_total k (mem_accts (snd (?r ''2''))) = currency_total k (mem_accts two_users)"
    using transfer_totals [OF mem_laws mem_user_law r(1)] p by auto
  moreover have "currency_total ''EUR'' (mem_accts (snd (?r ''1''))) = currency_total ''EUR'' (mem_accts two_users) + 40"
    using transfer_totals [OF mem_laws mem_user_law r(2)] by auto
  ultimately show ?thesis using r by blast
qed

text \<open>
  an error changes nothing. Whatever statement fails, a call that reports an error leaves the
  ledger as it was.
\<close>

theorem errors_change_nothing:
  assumes "r = bk_CreateTransaction db i now u typ amount c ref desc d \<or> r = bk_CompleteTransaction db clock s d \<or>
      r = bk_FailTransaction db now s d \<or> r = bk_LockFunds db now u c amount d \<or> r = bk_UnlockFunds db now u c amount d \<or>
      r = bk_TransferFunds db ids clock u v c amount desc d \<or> r = EnhancedLockFunds dbs clock opts u c amount d \<or>
      r = EnhancedTransferFunds dbs idss clocks opts u v c amount desc d"
    and "fst r = Some e"
  shows "snd r = d"
proof -
  have tx: "snd (in_tx db body d) = d" if "fst (in_tx db body d) = Some e" for body
    using in_tx_Some [of db body d e] that by (metis prod.collapse)
  have lock: "snd (EnhancedLockFunds dbs clock opts u c amount d) = d"
    if "fst (EnhancedLockFunds dbs clock opts u c amount d) = Some e"
    using that EnhancedLockFunds_error by (metis prod.collapse)
  have transfer: "snd (EnhancedTransferFunds dbs idss clocks opts u v c amount desc d) = d"
    if "fst (EnhancedTransferFunds dbs idss clocks opts u v c amount desc d) = Some e"
    using that EnhancedTransferFunds_error by (metis prod.collapse)
  show ?thesis using assms(1)
    by (elim disjE) (use assms(2) lock transfer in \<open>auto simp: bk_CreateTransaction_def bk_CompleteTransaction_def
      bk_FailTransaction_def bk_LockFunds_def bk_UnlockFunds_def bk_TransferFunds_def intro!: tx\<close>)
qed

theorem errors_change_nothing_witness:
  "\<exists>e. fst (bk_LockFunds mem_db 9 ''1'' ''EUR'' 500 two_users) = Some e \<and>
     snd (bk_LockFunds mem_db 9 ''1'' ''EUR'' 500 two_users) = two_users"
proof -
  have "fst (bk_LockFunds mem_db 9 ''1'' ''EUR'' 500 two_users) = Some (Raw ''insufficient funds'')" by code_simp
  then show ?thesis
    using errors_change_nothing [of "bk_LockFunds mem_db 9 ''1'' ''EUR'' 500 two_users" mem_db 0 9 "''1''" "[]" 500 "''EUR''"] by blast
qed


section \<open>The enhanced operations\<close>

text \<open>
  the retry loop. \<open>EnhancedLockFunds\<close> reports success exactly when the amount is positive and one of
  the first \<open>MaxRetries + 1\<close> attempts locks the funds after attempts that all failed with an error that
  can be retried; each of these attempts has left the ledger as it was. So it makes at most
  \<open>MaxRetries + 1\<close> attempts, and none after an error that cannot be retried.
\<close>

theorem EnhancedLockFunds_succeeds:
  "EnhancedLockFunds dbs clock opts u c amount d = (None, d') \<longleftrightarrow> 0 < amount \<and>
     (\<exists>k. int k \<le> op_MaxRetries (options_of opts) \<and>
       (\<forall>i. i < k \<longrightarrow> (\<exists>e. isRetryableError e \<and>
          executeLockFundsWithRetry (dbs i) (clock i) (options_of opts) u c amount d = (Some e, d))) \<and>
       executeLockFundsWithRetry (dbs k) (clock k) (options_of opts) u c amount d = (None, d'))"
  unfolding EnhancedLockFunds_None by (simp add: conj_commute)

text \<open>A database whose first attempts meet a deadlock.\<close>

definition deadlocked :: "nat \<Rightarrow> mem_ledger ledger_db" where
  "deadlocked i = (if i < 2 then mem_db\<lparr>ld_save := (\<lambda>a d. Inl (Raw ''ERROR: deadlock detected (SQLSTATE 40P01)''))\<rparr> else mem_db)"

theorem EnhancedLockFunds_succeeds_witness:
  "\<exists>d'. EnhancedLockFunds deadlocked int None ''1'' ''EUR'' 30 two_users = (None, d') \<and>
     ba_Locked (the (mem_accts d' 10)) = 35"
proof -
  let ?run = "\<lambda>i. executeLockFundsWithRetry (deadlocked i) (int i) (options_of None) ''1'' ''EUR'' 30 two_users"
  let ?d = "snd (?run 2)"
  have f: "i < 2 \<longrightarrow> (\<exists>e. isRetryableError e \<and> ?run i = (Some e, two_users))" for i :: nat
  proof -
    have "isRetryableError (the (fst (?run 0))) \<and> ?run 0 = (Some (the (fst (?run 0))), two_users)" by code_simp
    moreover have "isRetryableError (the (fst (?run 1))) \<and> ?run 1 = (Some (the (fst (?run 1))), two_users)" by code_simp
    ultimately show ?thesis by (auto simp: numeral_2_eq_2 less_Suc_eq)
  qed
  have s: "fst (?run 2) = None \<and> 2 \<le> op_MaxRetries (options_of None) \<and> ba_Locked (the (mem_accts ?d 10)) = 35" by code_simp
  then have "?run 2 = (None, ?d)" by (metis prod.collapse)
  with f s have "EnhancedLockFunds deadlocked int None ''1'' ''EUR'' 30 two_users = (None, ?d)"
    by (subst EnhancedLockFunds_succeeds) (auto intro!: exI [of _ 2])
  with s show ?thesis by blast
qed

text \<open>
  what a success of the enhanced transfer means. The amount was positive and the transfer was made
  and recorded, or a user's text was no UUID: this is found out by \<open>MustParse\<close>, whose panic the
  deferred function swallows, and the call reports success of a transfer that was rolled back.
\<close>

theorem EnhancedTransferFunds_success:
  assumes "\<forall>i. ledger_laws (dbs i) accts txns"
    and "EnhancedTransferFunds dbs ids clock opts u v c amount desc d = (None, d')"
  shows "0 < amount \<and>
    ((\<exists>i e. ld_parse (dbs i) u = Inl e \<or> ld_parse (dbs i) v = Inl e) \<and> d' = d \<or>
     (\<exists>i fa ta. transfers (accts d) fa ta (clock i) amount (accts d') \<and> records (txns d) amount (txns d') \<and>
       ba_Currency fa = c \<and> ba_Currency ta = c \<and> int i \<le> op_MaxRetries (options_of opts)))"
proof -
  obtain k where k: "0 < amount" "int k \<le> op_MaxRetries (options_of opts)"
    "executeTransferWithEnhancedLocking (dbs k) (ids k) (clock k) (options_of opts) u v c amount desc d = (None, d')"
    using assms(2) [unfolded EnhancedTransferFunds_None] by blast
  from enhanced_transfer_effect [OF assms(1) [rule_format] k(3)] k(1,2) show ?thesis by blast
qed

text \<open>A user whose text the database knows and \<open>uuid.Parse\<close> does not.\<close>

definition odd_user :: mem_ledger where
  "odd_user = ([row 10 1 100 5, row 20 7 7 0], [])"

theorem EnhancedTransferFunds_success_witness:
  "\<exists>d'. EnhancedTransferFunds (\<lambda>i. mem_db) (\<lambda>i n. 30 + n) (\<lambda>i. int) None ''1'' ''7'' ''EUR'' 40 ''rent'' odd_user = (None, d') \<and>
     d' = odd_user"
proof -
  let ?r = "EnhancedTransferFunds (\<lambda>i. mem_db) (\<lambda>i n. 30 + n) (\<lambda>i. int) None ''1'' ''7'' ''EUR'' 40 ''rent'' odd_user"
  have f: "fst ?r = None" and n: "mem_txns (snd ?r) 31 = None" and s: "snd ?r = odd_user" by code_simp+
  then have r: "?r = (None, snd ?r)" by (metis prod.collapse)
  show ?thesis using EnhancedTransferFunds_success [OF _ r, of mem_accts mem_txns] mem_laws r s by blast
qed

section \<open>Batches\<close>

text \<open>
  a batch is its operations one after the other. On a database that answers every statement
  except for rows that are missing, \<open>BatchLockFunds\<close>, whatever its batches of fifty, locks exactly
  what one call of \<open>LockFunds\<close> after the other locks, counts exactly the calls that succeed and lists
  the keys of those that do not.
\<close>

theorem BatchLockFunds_each:
  assumes "answering db"
  shows "\<exists>r d'. BatchLockFunds db now fos d = (r, d') \<and>
    ((br_SuccessCount r, dom (br_FailedItems r)), d') = lock_each db now fos ((0, {}), d)"
proof -
  have p: "processBatch db True now xs st = batch_steps db True now xs st" for xs st
    using answeringD(1,2) [OF assms] by (cases st) (auto simp: processBatch_def split: prod.splits)
  have "batches (processBatch db True now) fos (empty_result, d) = batch_steps db True now fos (empty_result, d)"
    by (subst batches_fold) (simp_all add: p batch_steps_append)
  then show ?thesis using batch_steps_lock [OF assms, of now fos empty_result d]
    by (cases "batch_steps db True now fos (empty_result, d)") (auto simp: BatchLockFunds_def empty_result_def)
qed

theorem BatchLockFunds_each_witness:
  "\<exists>r d'. BatchLockFunds mem_db 9 [\<lparr>fo_UserID = ''1'', fo_Currency = ''EUR'', fo_Amount = 60, fo_OrderID = [], fo_Reason = []\<rparr>,
        \<lparr>fo_UserID = ''1'', fo_Currency = ''EUR'', fo_Amount = 60, fo_OrderID = [], fo_Reason = []\<rparr>, \<lparr>fo_UserID = ''2'', fo_Currency = ''EUR'', fo_Amount = 7, fo_OrderID = [], fo_Reason = []\<rparr>]
        two_users = (r, d') \<and> br_SuccessCount r = 2 \<and> dom (br_FailedItems r) = {''1-EUR''}"
proof -
  let ?fos = "[\<lparr>fo_UserID = ''1'', fo_Currency = ''EUR'', fo_Amount = 60, fo_OrderID = [], fo_Reason = []\<rparr>,
        \<lparr>fo_UserID = ''1'', fo_Currency = ''EUR'', fo_Amount = 60, fo_OrderID = [], fo_Reason = []\<rparr>, \<lparr>fo_UserID = ''2'', fo_Currency = ''EUR'', fo_Amount = 7, fo_OrderID = [], fo_Reason = []\<rparr>]"
  have "fst (lock_each mem_db 9 ?fos ((0, {}), two_users)) = (2, {''1-EUR''})" by code_simp
  then show ?thesis using BatchLockFunds_each [OF mem_answering, of 9 ?fos two_users] by (metis fst_conv prod.inject)
qed


section \<open>Two calls at once\<close>

text \<open>\<open>LockFunds\<close> is its two halves when nothing runs between them.\<close>

lemma LockFunds_halves:
  "bk_LockFunds db now u c amount d =
     in_tx db (\<lambda>d. Returns (andThen (lock_read db u c amount d) (\<lambda>a. lock_write db now a amount d))) d"
proof -
  have "(\<lambda>d. andThen (lock_read db u c amount d) (\<lambda>a. lock_write db now a amount d)) =
    (\<lambda>d. andThen (onError (not_found (Raw ''account not found'') ''failed to find account'') (ld_find db u c d)) (\<lambda>a.
        if ba_Available a < amount then Inl (Raw ''insufficient funds'') else
        onError (wrap ''failed to lock funds'') (atomicBalanceUpdate db now a 0 (- amount) amount d)))"
    by (rule ext, case_tac "ld_find db u c d") (auto simp: lock_read_def lock_write_def)
  then show ?thesis unfolding bk_LockFunds_def by (metis (no_types, lifting))
qed

text \<open>
  a lock can be lost. Two calls of \<open>LockFunds\<close> on one account that both read the row before either
  writes both go through, whatever is available, and leave what the second alone would have left: the
  first call's amount is neither locked nor missing from what is available.
\<close>

theorem lock_lost:
  assumes "ledger_laws db accts txns"
    and "lock_read db u c x d = Inr a" and "lock_read db u c y d = Inr b"
    and "lock_write db now a x d = Inr d1" and "lock_write db now' b y d1 = Inr d2"
  shows "b = a \<and> accts d2 = (accts d)(ba_ID a \<mapsto> updated_account now' 0 (- y) y a) \<and>
    ba_Locked (the (accts d2 (ba_ID a))) = ba_Locked a + y \<and> ba_Available (the (accts d2 (ba_ID a))) = ba_Available a - y"
proof -
  have ab: "b = a" using assms(2,3) by (auto simp: lock_read_def split: if_splits)
  have w: "ld_save db (updated_account now 0 (- x) x a) d = Inr d1" "ld_save db (updated_account now' 0 (- y) y a) d1 = Inr d2"
    using assms(4,5) ab by (auto simp: lock_write_def atomicBalanceUpdate_def)
  show ?thesis using ab ledgerD(3) [OF assms(1) w(1)] ledgerD(3) [OF assms(1) w(2)] by simp
qed

theorem lock_lost_witness:
  "\<exists>a d1 d2. lock_read mem_db ''1'' ''EUR'' 70 two_users = Inr a \<and> lock_read mem_db ''1'' ''EUR'' 60 two_users = Inr a \<and>
     lock_write mem_db 8 a 70 two_users = Inr d1 \<and> lock_write mem_db 9 a 60 d1 = Inr d2 \<and>
     ba_Locked (the (mem_accts d2 10)) = 65 \<and> ba_Available (the (mem_accts d2 10)) = 40"
proof -
  let ?a = "snd (row 10 1 100 5)"
  let ?d1 = "projr (lock_write mem_db 8 ?a 70 two_users)" let ?d2 = "projr (lock_write mem_db 9 ?a 60 ?d1)"
  have r: "lock_read mem_db ''1'' ''EUR'' 70 two_users = Inr ?a" "lock_read mem_db ''1'' ''EUR'' 60 two_users = Inr ?a"
    "lock_write mem_db 8 ?a 70 two_users = Inr ?d1" "lock_write mem_db 9 ?a 60 ?d1 = Inr ?d2"
    by code_simp+
  have "ba_ID ?a = 10" "ba_Locked ?a = 5" "ba_Available ?a = 100" by (simp_all add: row_def)
  then have "ba_Locked (the (mem_accts ?d2 10)) = 65 \<and> ba_Available (the (mem_accts ?d2 10)) = 40"
    using lock_lost [OF mem_laws r] by simp
  with r show ?thesis by blast
qed

section \<open>Distributed transactions\<close>

text \<open>
  a transfer in a distributed transaction breaks the accounts. \<open>TransferFundsXA\<close> moves available
  funds and leaves the balances, so a transfer of a positive amount that reports success makes the
  transaction's accounts unsound when they were sound: the receiver's balance is no longer the sum of
  what is available and what is locked.
\<close>

theorem TransferFundsXA_unsound:
  assumes "ledger_laws db accts txns"
    and "P (bk_xid_String x) = Some t"
    and "sound_ledger (accts (xn_DBTransaction t)) (txns (xn_DBTransaction t))"
    and "0 < amount"
    and "TransferFundsXA db now x u v c amount ref P = (None, P')"
  shows "\<exists>t' b. P' (bk_xid_String x) = Some t' \<and> accts (xn_DBTransaction t') (ba_ID b) = Some b \<and>
    ba_Balance b \<noteq> ba_Available b + ba_Locked b"
proof -
  let ?d = "xn_DBTransaction t"
  obtain fa ta d1 d2 t' where s: "ld_find db v c ?d = Inr ta" "ld_save db (updated_account now 0 amount 0 ta) d1 = Inr d2"
    "P' (bk_xid_String x) = Some t'" "xn_DBTransaction t' = d2"
    using assms(2,5) by (auto simp: TransferFundsXA_def Let_def split: sum.splits if_splits)
  have "sound_account ta" using ledgerD(1) [OF assms(1) s(1)] assms(3) by (auto dest: sound_ledgerD)
  then have "ba_Balance ta \<noteq> ba_Available ta + amount + ba_Locked ta" using assms(4) by (simp add: sound_account_def)
  then show ?thesis using s(3,4) ledgerD(3) [OF assms(1) s(2)]
    by (intro exI [of _ t'] exI [of _ "updated_account now 0 amount 0 ta"]) simp
qed

definition some_xid :: bk_xid where
  "some_xid = \<lparr>bx_FormatID = 1, bx_BranchID = [2], bx_GlobalTxnID = [3]\<rparr>"

definition started :: "mem_ledger pending" where
  "started = snd (StartXA mem_db 0 some_xid two_users Map.empty)"

lemma started_key:
  "started (bk_xid_String some_xid) = Some \<lparr>xn_XID = some_xid, xn_Operations = [], xn_CompensationData = Map.empty,
     xn_DBTransaction = two_users, xn_State = ''active'', xn_CreatedAt = 0, xn_UpdatedAt = 0\<rparr>"
  by (simp add: started_def StartXA_def mem_db_def)

theorem TransferFundsXA_unsound_witness:
  "\<exists>P' t' b. TransferFundsXA mem_db 9 some_xid ''1'' ''2'' ''EUR'' 40 [] started = (None, P') \<and>
     P' (bk_xid_String some_xid) = Some t' \<and> mem_accts (xn_DBTransaction t') (ba_ID b) = Some b \<and>
     ba_Balance b \<noteq> ba_Available b + ba_Locked b"
proof -
  let ?r = "TransferFundsXA mem_db 9 some_xid ''1'' ''2'' ''EUR'' 40 [] started"
  have "fst ?r = None" by code_simp
  then have r: "?r = (None, snd ?r)" by (metis prod.collapse)
  show ?thesis using TransferFundsXA_unsound [OF mem_laws started_key _ _ r] r two_users_sound by auto
qed

definition unfailed :: "'d xa_transaction \<Rightarrow> bool" where
  "unfailed t \<longleftrightarrow> (\<forall>q \<in> set (xn_Operations t). xo_Error q = None)"

text \<open>Every operation leaves it so, whether it fails or not.\<close>

lemma FundsXA_unfailed:
  assumes "P (bk_xid_String x) = Some t" "unfailed t" "FundsXA db lock now x u c amount P = (r, P')"
  shows "\<exists>t'. P' (bk_xid_String x) = Some t' \<and> unfailed t' \<and> xn_State t' = xn_State t"
  using assms
  by (auto simp: FundsXA_def Let_def unfailed_def funds_op_def split: sum.splits if_splits)

text \<open>
  a failure is forgotten. When an operation of a distributed transaction fails, on an account that
  lacks the funds or does not exist, its error is not recorded with the operations, which \<open>PrepareXA\<close>
  examines: the transaction can be ended and prepared, and nothing but the caller knows of the failure.
\<close>

theorem failure_forgotten:
  assumes "P (bk_xid_String x) = Some t" and "unfailed t"
    and "LockFundsXA db now x u c amount P = (Some e, P1)"
  shows "\<exists>P2 P3. EndXA now1 x P1 = (None, P2) \<and> PrepareXA now2 x P2 = (None, P3)"
proof -
  obtain t' where t': "P1 (bk_xid_String x) = Some t'" "unfailed t'"
    using FundsXA_unfailed [OF assms(1,2) assms(3) [unfolded LockFundsXA_def]] by blast
  then show ?thesis by (auto simp: EndXA_def PrepareXA_def unfailed_def)
qed

theorem failure_forgotten_witness:
  "\<exists>P1 P2 P3. LockFundsXA mem_db 9 some_xid ''1'' ''EUR'' 500 started = (Some ErrInsufficientFunds, P1) \<and>
     EndXA 10 some_xid P1 = (None, P2) \<and> PrepareXA 11 some_xid P2 = (None, P3)"
proof -
  let ?r = "LockFundsXA mem_db 9 some_xid ''1'' ''EUR'' 500 started"
  have "fst ?r = Some ErrInsufficientFunds" by code_simp
  then have r: "?r = (Some ErrInsufficientFunds, snd ?r)" by (metis prod.collapse)
  show ?thesis using failure_forgotten [OF started_key _ r] r by (auto simp: unfailed_def)
qed

section \<open>Transactions\<close>

text \<open>
  completing a transaction. On a success the transaction was not completed before and is now,
  nothing else of it changes but its times, and the one account of its user is credited by a deposit,
  debited by a withdrawal it has the funds for, and left alone by every other type.
\<close>

theorem CompleteTransaction_effect:
  assumes "ledger_laws db accts txns" and "bk_CompleteTransaction db clock s d = (None, d')"
  shows "\<exists>t a. txns d (bt_ID t) = Some t \<and> bt_Status t \<noteq> ''completed'' \<and> accts d (ba_ID a) = Some a \<and>
    ba_Currency a = bt_Currency t \<and>
    txns d' = (txns d)(bt_ID t \<mapsto> t\<lparr>bt_Status := ''completed'', bt_UpdatedAt := clock 1, bt_CompletedAt := Some (clock 1)\<rparr>) \<and>
    (let delta = (if bt_Type t = ''deposit'' then bt_Amount t else if bt_Type t = ''withdrawal'' then - bt_Amount t else 0)
     in accts d' = (accts d)(ba_ID a \<mapsto> updated_account (clock 0) delta delta 0 a) \<and>
        (bt_Type t = ''withdrawal'' \<longrightarrow> bt_Amount t \<le> ba_Available a))"
proof -
  obtain t a a' where e: "txns d (bt_ID t) = Some t \<and> bt_Status t \<noteq> ''completed'' \<and> accts d (ba_ID a) = Some a \<and>
      ba_Currency a = bt_Currency t" "completed_account t a = Inr a'"
      "accts d' = (accts d)(ba_ID a \<mapsto> a'\<lparr>ba_UpdatedAt := clock 0\<rparr>)"
      "txns d' = (txns d)(bt_ID t \<mapsto> t\<lparr>bt_Status := ''completed'', bt_UpdatedAt := clock 1, bt_CompletedAt := Some (clock 1)\<rparr>)"
    using complete_effect [OF assms] by blast
  show ?thesis using e
    by (intro exI [of _ t] exI [of _ a]) (auto simp: completed_account_def updated_account_def Let_def split: if_splits)
qed

definition failed_deposit :: mem_ledger where
  "failed_deposit = ([row 10 1 100 5], [(3, \<lparr>bt_ID = 3, bt_UserID = 1, bt_Type = ''deposit'', bt_Amount = 25,
     bt_Currency = ''EUR'', bt_Status = ''failed'', bt_Reference = [], bt_Description = [], bt_CreatedAt = 0,
     bt_UpdatedAt = 0, bt_CompletedAt = None\<rparr>)])"

theorem CompleteTransaction_effect_witness:
  "\<exists>d' t. bk_CompleteTransaction mem_db int ''3'' failed_deposit = (None, d') \<and>
     mem_txns failed_deposit (bt_ID t) = Some t \<and> bt_Status t = ''failed'' \<and>
     bt_Status (the (mem_txns d' (bt_ID t))) = ''completed'' \<and> ba_Balance (the (mem_accts d' 10)) = 130"
proof -
  let ?r = "bk_CompleteTransaction mem_db int ''3'' failed_deposit"
  have f: "fst ?r = None" "ba_Balance (the (mem_accts (snd ?r) 10)) = 130" by code_simp+
  then have r: "?r = (None, snd ?r)" by (metis prod.collapse)
  obtain t where t: "mem_txns failed_deposit (bt_ID t) = Some t"
    "mem_txns (snd ?r) = (mem_txns failed_deposit)(bt_ID t \<mapsto> t\<lparr>bt_Status := ''completed'', bt_UpdatedAt := int 1, bt_CompletedAt := Some (int 1)\<rparr>)"
    using CompleteTransaction_effect [OF mem_laws r] by blast
  have "bt_Status t = ''failed''" using t(1) by (auto simp: mem_txns_def failed_deposit_def split: if_splits)
  then show ?thesis using t r f(2) by (intro exI [of _ "snd ?r"] exI [of _ t]) simp
qed

end
