(* ===== verification/FeeEngine.thy ===== *)
theory FeeEngine
  imports Prelude "HOL-Library.Signed_Division"
begin

text \<open>
  The fee engine, \<open>internal/trading/engine/fee_engine.go\<close>: rates from pair overrides and tiers, account
  discounts, limits and rounding, and the fee of a cross-pair route. Division and rounding of the
  decimal library are the parameter \<open>fee_env\<close>; \<open>clock n\<close> is the \<open>n\<close>-th reading of the clock of a call.
  The configuration is fixed when the engine is made. The read-write mutex is modelled at the end:
  a route's fee takes its read side twice.
\<close>

section \<open>Configuration, requests and results\<close>

record fee_env =
  fv_div :: "decimal \<Rightarrow> decimal \<Rightarrow> decimal"
  fv_round :: "int \<Rightarrow> decimal \<Rightarrow> decimal"

record fee_config =
  fg_DefaultMakerFee :: decimal
  fg_DefaultTakerFee :: decimal
  fg_CrossPairFeeMultiplier :: decimal
  fg_CrossPairMinFee :: decimal
  fg_CrossPairMaxFee :: decimal
  fg_MinFeeAmount :: decimal
  fg_MaxFeeAmount :: decimal
  fg_FeeDisplayPrecision :: int

record fee_tier =
  ft_Name :: string
  ft_MakerFee :: decimal
  ft_TakerFee :: decimal
  ft_MonthlyVolumeMin :: decimal
  ft_MonthlyVolumeMax :: decimal
  ft_HoldingRequirement :: decimal
  ft_Description :: string

record pair_fee_config =
  pf_Pair :: string
  pf_MakerFee :: decimal
  pf_TakerFee :: decimal
  pf_Enabled :: bool
  pf_ValidFrom :: time
  pf_ValidTo :: "time option"

record account_discount =
  ad_UserID :: string
  ad_DiscountPct :: decimal
  ad_ValidFrom :: time
  ad_ValidTo :: "time option"
  ad_Description :: string

record cross_fee_config =
  xg_Enabled :: bool
  xg_BaseFeeMultiplier :: decimal
  xg_RoutingFee :: decimal
  xg_LiquidityProviderFee :: decimal
  xg_MaxHops :: int

record fee_request =
  fr_UserID :: string
  fr_Pair :: string
  fr_Side :: string
  fr_OrderType :: string
  fr_Quantity :: decimal
  fr_Price :: decimal
  fr_TradedValue :: decimal
  fr_IsMaker :: bool
  fr_Timestamp :: time

record route_step =
  rs_Pair :: string
  rs_Side :: string
  rs_Quantity :: decimal
  rs_Price :: decimal
  rs_IsMaker :: bool

record cross_request =
  xr_UserID :: string
  xr_SourcePair :: string
  xr_TargetPair :: string
  xr_IntermediatePairs :: "string list"
  xr_Quantity :: decimal
  xr_EstimatedValue :: decimal
  xr_Route :: "route_step list"
  xr_Timestamp :: time

record fee_result =
  fs_BaseFee :: decimal
  fs_DiscountedFee :: decimal
  fs_FinalFee :: decimal
  fs_FeeCurrency :: string
  fs_FeeRate :: decimal
  fs_AppliedDiscount :: decimal
  fs_FeeTier :: string
  fs_Breakdown :: "string \<rightharpoonup> decimal"
  fs_CalculatedAt :: time

record cross_result =
  xs_TotalFee :: decimal
  xs_StepFees :: "fee_result list"
  xs_RoutingFee :: decimal
  xs_LiquidityFee :: decimal
  xs_EstimatedSlippage :: decimal
  xs_FeeCurrency :: string
  xs_Breakdown :: "string \<rightharpoonup> decimal"
  xs_CalculatedAt :: time

record fee_metrics =
  fm_TotalCalculations :: int
  fm_CrossPairCalculations :: int
  fm_AverageLatencyNs :: int
  fm_FeeTierUsage :: "string \<rightharpoonup> int"
  fm_PairOverrideUsage :: "string \<rightharpoonup> int"
  fm_DiscountApplications :: int
  fm_ErrorCount :: int
  fm_LastUpdated :: time

record fee_engine =
  fe_config :: fee_config
  fe_feeTiers :: "string \<rightharpoonup> fee_tier"
  fe_pairOverrides :: "string \<rightharpoonup> pair_fee_config"
  fe_accountDiscounts :: "string \<rightharpoonup> account_discount"
  fe_crossPairConfig :: cross_fee_config
  fe_metrics :: fee_metrics

definition getDefaultFeeEngineConfig :: fee_config where
  "getDefaultFeeEngineConfig = \<lparr>fg_DefaultMakerFee = 1 / 1000, fg_DefaultTakerFee = 1 / 1000,
     fg_CrossPairFeeMultiplier = 3 / 2, fg_CrossPairMinFee = 1 / 10000, fg_CrossPairMaxFee = 1 / 100,
     fg_MinFeeAmount = 1 / 100000000, fg_MaxFeeAmount = 0, fg_FeeDisplayPrecision = 8\<rparr>"

definition getDefaultCrossPairConfig :: cross_fee_config where
  "getDefaultCrossPairConfig = \<lparr>xg_Enabled = True, xg_BaseFeeMultiplier = 6 / 5, xg_RoutingFee = 1 / 10000,
     xg_LiquidityProviderFee = 2 / 10000, xg_MaxHops = 3\<rparr>"

definition NewFeeEngine :: "time \<Rightarrow> fee_config option \<Rightarrow> fee_engine" where
  "NewFeeEngine now config = \<lparr>fe_config = (case config of Some c \<Rightarrow> c | None \<Rightarrow> getDefaultFeeEngineConfig),
     fe_feeTiers = Map.empty, fe_pairOverrides = Map.empty, fe_accountDiscounts = Map.empty,
     fe_crossPairConfig = getDefaultCrossPairConfig,
     fe_metrics = \<lparr>fm_TotalCalculations = 0, fm_CrossPairCalculations = 0, fm_AverageLatencyNs = 0,
       fm_FeeTierUsage = Map.empty, fm_PairOverrideUsage = Map.empty, fm_DiscountApplications = 0,
       fm_ErrorCount = 0, fm_LastUpdated = now\<rparr>\<rparr>"

section \<open>Metrics\<close>

text \<open>A counter of a Go map: an absent key counts from 0.\<close>

definition count_up :: "string \<Rightarrow> (string \<rightharpoonup> int) \<Rightarrow> (string \<rightharpoonup> int)" where
  "count_up k m = m(k \<mapsto> (case m k of Some n \<Rightarrow> n + 1 | None \<Rightarrow> 1))"

definition recordMetrics :: "duration \<Rightarrow> time \<Rightarrow> bool \<Rightarrow> fee_metrics \<Rightarrow> fee_metrics" where
  "recordMetrics took now isCrossPair m =
     (let m1 = m\<lparr>fm_TotalCalculations := fm_TotalCalculations m + 1\<rparr>;
          m2 = (if isCrossPair then m1\<lparr>fm_CrossPairCalculations := fm_CrossPairCalculations m1 + 1\<rparr> else m1)
      in m2\<lparr>fm_AverageLatencyNs := (if fm_AverageLatencyNs m2 = 0 then took else (fm_AverageLatencyNs m2 + took) sdiv 2),
            fm_LastUpdated := now\<rparr>)"

definition recordFeeTierUsage :: "string \<Rightarrow> fee_metrics \<Rightarrow> fee_metrics" where
  "recordFeeTierUsage tierName m = m\<lparr>fm_FeeTierUsage := count_up tierName (fm_FeeTierUsage m)\<rparr>"

definition recordPairOverrideUsage :: "string \<Rightarrow> fee_metrics \<Rightarrow> fee_metrics" where
  "recordPairOverrideUsage pair m = m\<lparr>fm_PairOverrideUsage := count_up pair (fm_PairOverrideUsage m)\<rparr>"

definition recordDiscountApplication :: "fee_metrics \<Rightarrow> fee_metrics" where
  "recordDiscountApplication m = m\<lparr>fm_DiscountApplications := fm_DiscountApplications m + 1\<rparr>"

definition recordError :: "fee_metrics \<Rightarrow> fee_metrics" where
  "recordError m = m\<lparr>fm_ErrorCount := fm_ErrorCount m + 1\<rparr>"

section \<open>The setters\<close>

definition SetFeeTier :: "fee_tier option \<Rightarrow> fee_engine \<Rightarrow> string option \<times> fee_engine" where
  "SetFeeTier tier fe =
     (case tier of
        None \<Rightarrow> (Some ''fee tier is nil'', fe)
      | Some t \<Rightarrow> (None, fe\<lparr>fe_feeTiers := (fe_feeTiers fe)(ft_Name t \<mapsto> t)\<rparr>))"

definition SetPairOverride :: "pair_fee_config option \<Rightarrow> fee_engine \<Rightarrow> string option \<times> fee_engine" where
  "SetPairOverride ov fe =
     (case ov of
        None \<Rightarrow> (Some ''pair fee override is nil'', fe)
      | Some p \<Rightarrow> (None, fe\<lparr>fe_pairOverrides := (fe_pairOverrides fe)(pf_Pair p \<mapsto> p)\<rparr>))"

definition SetAccountDiscount :: "account_discount option \<Rightarrow> fee_engine \<Rightarrow> string option \<times> fee_engine" where
  "SetAccountDiscount discount fe =
     (case discount of
        None \<Rightarrow> (Some ''account discount is nil'', fe)
      | Some a \<Rightarrow> (None, fe\<lparr>fe_accountDiscounts := (fe_accountDiscounts fe)(ad_UserID a \<mapsto> a)\<rparr>))"

section \<open>Rates, discounts and limits\<close>

definition validateFeeRequest :: "fee_request \<Rightarrow> string option" where
  "validateFeeRequest req =
     (if fr_UserID req = [] then Some ''user_id is required''
      else if fr_Pair req = [] then Some ''pair is required''
      else if fr_Quantity req = 0 \<or> fr_Quantity req < 0 then Some ''quantity must be positive''
      else if fr_TradedValue req < 0 then Some ''traded_value cannot be negative''
      else None)"

definition isOverrideValid :: "time \<Rightarrow> pair_fee_config \<Rightarrow> bool" where
  "isOverrideValid now p \<longleftrightarrow>
     (if \<not> pf_Enabled p then False
      else if now < pf_ValidFrom p then False
      else (case pf_ValidTo p of Some t \<Rightarrow> \<not> t < now | None \<Rightarrow> True))"

definition isDiscountValid :: "time \<Rightarrow> account_discount \<Rightarrow> bool" where
  "isDiscountValid now a \<longleftrightarrow>
     (if now < ad_ValidFrom a then False
      else (case ad_ValidTo a of Some t \<Rightarrow> \<not> t < now | None \<Rightarrow> True))"

definition getUserFeeTier :: "fee_engine \<Rightarrow> string \<Rightarrow> fee_tier" where
  "getUserFeeTier fe userID =
     (case fe_feeTiers fe ''default'' of
        Some t \<Rightarrow> t
      | None \<Rightarrow> \<lparr>ft_Name = ''default'', ft_MakerFee = fg_DefaultMakerFee (fe_config fe),
          ft_TakerFee = fg_DefaultTakerFee (fe_config fe), ft_MonthlyVolumeMin = 0, ft_MonthlyVolumeMax = 0,
          ft_HoldingRequirement = 0, ft_Description = []\<rparr>)"

text \<open>The pair's override, if it has one that is valid now.\<close>

definition valid_override :: "fee_engine \<Rightarrow> time \<Rightarrow> string \<Rightarrow> pair_fee_config option" where
  "valid_override fe now pair =
     (case fe_pairOverrides fe pair of Some p \<Rightarrow> (if isOverrideValid now p then Some p else None) | None \<Rightarrow> None)"

definition getBaseFeeRate :: "fee_engine \<Rightarrow> time \<Rightarrow> fee_request \<Rightarrow> fee_metrics \<Rightarrow> (decimal \<times> string) \<times> fee_metrics" where
  "getBaseFeeRate fe now req m =
     (case valid_override fe now (fr_Pair req) of
        Some p \<Rightarrow> ((if fr_IsMaker req then pf_MakerFee p else pf_TakerFee p, ''pair_override''),
          recordPairOverrideUsage (fr_Pair req) m)
      | None \<Rightarrow>
          (let tier = getUserFeeTier fe (fr_UserID req)
           in ((if fr_IsMaker req then ft_MakerFee tier else ft_TakerFee tier, ft_Name tier),
             recordFeeTierUsage (ft_Name tier) m)))"

definition valid_discount :: "fee_engine \<Rightarrow> time \<Rightarrow> string \<Rightarrow> account_discount option" where
  "valid_discount fe now userID =
     (case fe_accountDiscounts fe userID of Some a \<Rightarrow> (if isDiscountValid now a then Some a else None) | None \<Rightarrow> None)"

definition applyAccountDiscount :: "fee_env \<Rightarrow> fee_engine \<Rightarrow> time \<Rightarrow> string \<Rightarrow> decimal \<Rightarrow> fee_metrics \<Rightarrow>
    (decimal \<times> decimal) \<times> fee_metrics" where
  "applyAccountDiscount en fe now userID baseFee m =
     (case valid_discount fe now userID of
        Some a \<Rightarrow>
          (let discountAmount = fv_div en (baseFee * ad_DiscountPct a) 100
           in ((ad_DiscountPct a, baseFee - discountAmount), recordDiscountApplication m))
      | None \<Rightarrow> ((0, baseFee), m))"

definition applyFeeLimits :: "fee_config \<Rightarrow> decimal \<Rightarrow> decimal" where
  "applyFeeLimits c fee =
     (if fee < fg_MinFeeAmount c then fg_MinFeeAmount c
      else if fg_MaxFeeAmount c \<noteq> 0 \<and> fg_MaxFeeAmount c < fee then fg_MaxFeeAmount c
      else fee)"

definition getFeeCurrency :: "string \<Rightarrow> string" where
  "getFeeCurrency pair = (if 6 \<le> length pair \<and> drop (length pair - 4) pair = ''USDT'' then ''USDT'' else ''USD'')"

section \<open>The fee of an order\<close>

definition fee_body :: "fee_env \<Rightarrow> fee_engine \<Rightarrow> (nat \<Rightarrow> time) \<Rightarrow> fee_request option \<Rightarrow> fee_metrics \<Rightarrow>
    (string + fee_result) \<times> fee_metrics" where
  "fee_body en fe clock request m =
     (case request of
        None \<Rightarrow> (Inl ''fee calculation request is nil'', m)
      | Some req \<Rightarrow>
          (case validateFeeRequest req of
             Some e \<Rightarrow> (Inl (''invalid fee request: '' @ e), recordError m)
           | None \<Rightarrow>
               (let ((baseFeeRate, feeTierName), m1) = getBaseFeeRate fe (clock 0) req m;
                    baseFee = fr_TradedValue req * baseFeeRate;
                    ((discount, discountedFee), m2) = applyAccountDiscount en fe (clock 1) (fr_UserID req) baseFee m1;
                    finalFee = fv_round en (fg_FeeDisplayPrecision (fe_config fe)) (applyFeeLimits (fe_config fe) discountedFee)
                in (Inr \<lparr>fs_BaseFee = baseFee, fs_DiscountedFee = discountedFee, fs_FinalFee = finalFee,
                      fs_FeeCurrency = getFeeCurrency (fr_Pair req), fs_FeeRate = baseFeeRate, fs_AppliedDiscount = discount,
                      fs_FeeTier = feeTierName,
                      fs_Breakdown = [''base_fee'' \<mapsto> baseFee, ''discount_amount'' \<mapsto> baseFee - discountedFee,
                        ''final_fee'' \<mapsto> finalFee, ''fee_rate'' \<mapsto> baseFeeRate],
                      fs_CalculatedAt = clock 2\<rparr>, m2))))"

text \<open>\<open>clock 3\<close> and \<open>clock 4\<close> are read when the call returns, \<open>clock 5\<close> when it begins.\<close>

definition CalculateFee :: "fee_env \<Rightarrow> fee_engine \<Rightarrow> (nat \<Rightarrow> time) \<Rightarrow> fee_request option \<Rightarrow> fee_metrics \<Rightarrow>
    (string + fee_result) \<times> fee_metrics" where
  "CalculateFee en fe clock request m =
     (case fee_body en fe clock request m of (r, m') \<Rightarrow> (r, recordMetrics (clock 3 - clock 5) (clock 4) False m'))"

section \<open>The fee of a route\<close>

definition validateCrossPairRequest :: "cross_fee_config \<Rightarrow> cross_request \<Rightarrow> string option" where
  "validateCrossPairRequest xg req =
     (if xr_UserID req = [] then Some ''user_id is required''
      else if xr_SourcePair req = [] then Some ''source_pair is required''
      else if xr_TargetPair req = [] then Some ''target_pair is required''
      else if length (xr_Route req) = 0 then Some ''route cannot be empty''
      else if int (length (xr_Route req)) > xg_MaxHops xg
      then Some (''route exceeds maximum hops ('' @ show_int (xg_MaxHops xg) @ '')'')
      else None)"

definition step_request :: "cross_request \<Rightarrow> route_step \<Rightarrow> fee_request" where
  "step_request req st = \<lparr>fr_UserID = xr_UserID req, fr_Pair = rs_Pair st, fr_Side = rs_Side st, fr_OrderType = ''LIMIT'',
     fr_Quantity = rs_Quantity st, fr_Price = rs_Price st, fr_TradedValue = rs_Quantity st * rs_Price st,
     fr_IsMaker = rs_IsMaker st, fr_Timestamp = xr_Timestamp req\<rparr>"

text \<open>The loop over the route: \<open>i\<close> is the index, \<open>acc\<close> the fees so far and their sum, \<open>clocks i\<close> the clock of step \<open>i\<close>.\<close>

fun step_fees :: "fee_env \<Rightarrow> fee_engine \<Rightarrow> (nat \<Rightarrow> nat \<Rightarrow> time) \<Rightarrow> cross_request \<Rightarrow> nat \<Rightarrow> route_step list \<Rightarrow>
    fee_result list \<times> decimal \<Rightarrow> fee_metrics \<Rightarrow> (string + fee_result list \<times> decimal) \<times> fee_metrics" where
  "step_fees en fe clocks req i [] acc m = (Inr acc, m)"
| "step_fees en fe clocks req i (st # sts) (fees, tot) m =
     (case CalculateFee en fe (clocks i) (Some (step_request req st)) m of
        (Inl e, m') \<Rightarrow> (Inl (''failed to calculate fee for step '' @ show_int (int i) @ '': '' @ e), recordError m')
      | (Inr f, m') \<Rightarrow> step_fees en fe clocks req (Suc i) sts (fees @ [f], tot + fs_FinalFee f) m')"

definition estimateCrossPairSlippage :: "cross_request \<Rightarrow> decimal" where
  "estimateCrossPairSlippage req = 1 / 1000 * of_nat (length (xr_Route req))"

definition cross_total :: "fee_engine \<Rightarrow> cross_request \<Rightarrow> decimal \<Rightarrow> decimal" where
  "cross_total fe req fees =
     applyFeeLimits (fe_config fe) (fees * xg_BaseFeeMultiplier (fe_crossPairConfig fe) +
       xr_EstimatedValue req * xg_RoutingFee (fe_crossPairConfig fe) +
       xr_EstimatedValue req * xg_LiquidityProviderFee (fe_crossPairConfig fe))"

definition cross_body :: "fee_env \<Rightarrow> fee_engine \<Rightarrow> time \<Rightarrow> (nat \<Rightarrow> nat \<Rightarrow> time) \<Rightarrow> cross_request option \<Rightarrow> fee_metrics \<Rightarrow>
    (string + cross_result) \<times> fee_metrics" where
  "cross_body en fe now clocks request m =
     (case request of
        None \<Rightarrow> (Inl ''cross-pair fee calculation request is nil'', m)
      | Some req \<Rightarrow>
          (if \<not> xg_Enabled (fe_crossPairConfig fe) then (Inl ''cross-pair trading is disabled'', m)
           else case validateCrossPairRequest (fe_crossPairConfig fe) req of
                  Some e \<Rightarrow> (Inl (''invalid cross-pair request: '' @ e), recordError m)
                | None \<Rightarrow>
                    (case step_fees en fe clocks req 0 (xr_Route req) ([], 0) m of
                       (Inl e, m') \<Rightarrow> (Inl e, m')
                     | (Inr (stepFees, fees), m') \<Rightarrow>
                         (let routingFee = xr_EstimatedValue req * xg_RoutingFee (fe_crossPairConfig fe);
                              liquidityFee = xr_EstimatedValue req * xg_LiquidityProviderFee (fe_crossPairConfig fe);
                              slippage = estimateCrossPairSlippage req;
                              totalFee = cross_total fe req fees
                          in (Inr \<lparr>xs_TotalFee = totalFee, xs_StepFees = stepFees, xs_RoutingFee = routingFee,
                                xs_LiquidityFee = liquidityFee, xs_EstimatedSlippage = slippage,
                                xs_FeeCurrency = getFeeCurrency (xr_SourcePair req),
                                xs_Breakdown = [''base_trading_fees'' \<mapsto> totalFee - routingFee - liquidityFee,
                                  ''routing_fee'' \<mapsto> routingFee, ''liquidity_fee'' \<mapsto> liquidityFee, ''total_fee'' \<mapsto> totalFee,
                                  ''estimated_slippage'' \<mapsto> slippage],
                                xs_CalculatedAt = now\<rparr>, m')))))"

definition CalculateCrossPairFee :: "fee_env \<Rightarrow> fee_engine \<Rightarrow> duration \<Rightarrow> time \<Rightarrow> (nat \<Rightarrow> nat \<Rightarrow> time) \<Rightarrow> cross_request option \<Rightarrow>
    fee_metrics \<Rightarrow> (string + cross_result) \<times> fee_metrics" where
  "CalculateCrossPairFee en fe took now clocks request m =
     (case cross_body en fe now clocks request m of (r, m') \<Rightarrow> (r, recordMetrics took now True m'))"


section \<open>The read-write mutex\<close>

text \<open>
  The mutex as a route's fee and one setter use it. A writer that waits keeps new readers out, and gets
  the mutex when no reader is left. The route's call takes the read side once for itself and once
  more in \<open>CalculateFee\<close> for every step; \<open>Between n\<close> holds it once with \<open>n\<close> steps to go.
\<close>

datatype route_pc = Calling nat | Between nat | Within nat | Returned

datatype setter_pc = Before | Waiting | Writing | After

record fee_mutex =
  mx_readers :: nat
  mx_route :: route_pc
  mx_setter :: setter_pc

definition may_read :: "fee_mutex \<Rightarrow> bool" where
  "may_read s \<longleftrightarrow> mx_setter s \<noteq> Waiting \<and> mx_setter s \<noteq> Writing"

inductive mutex_step :: "fee_mutex \<Rightarrow> fee_mutex \<Rightarrow> bool" where
  outer_RLock: "mx_route s = Calling n \<Longrightarrow> may_read s \<Longrightarrow>
    mutex_step s (s\<lparr>mx_readers := mx_readers s + 1, mx_route := Between n\<rparr>)"
| inner_RLock: "mx_route s = Between (Suc n) \<Longrightarrow> may_read s \<Longrightarrow>
    mutex_step s (s\<lparr>mx_readers := mx_readers s + 1, mx_route := Within n\<rparr>)"
| inner_RUnlock: "mx_route s = Within n \<Longrightarrow> mutex_step s (s\<lparr>mx_readers := mx_readers s - 1, mx_route := Between n\<rparr>)"
| outer_RUnlock: "mx_route s = Between 0 \<Longrightarrow> mutex_step s (s\<lparr>mx_readers := mx_readers s - 1, mx_route := Returned\<rparr>)"
| setter_waits: "mx_setter s = Before \<Longrightarrow> mutex_step s (s\<lparr>mx_setter := Waiting\<rparr>)"
| setter_Lock: "mx_setter s = Waiting \<Longrightarrow> mx_readers s = 0 \<Longrightarrow> mutex_step s (s\<lparr>mx_setter := Writing\<rparr>)"
| setter_Unlock: "mx_setter s = Writing \<Longrightarrow> mutex_step s (s\<lparr>mx_setter := After\<rparr>)"

definition fee_calls :: "nat \<Rightarrow> fee_mutex" where
  "fee_calls n = \<lparr>mx_readers = 0, mx_route = Calling n, mx_setter = Before\<rparr>"

end
