(* ===== verification/FeeTheorems.thy ===== *)
theory FeeTheorems
  imports FeeEngine
begin

text \<open>
  What the fee engine computes: the limits of a fee and what rounding does to them, the fee of a route
  as the sum of its steps, the counters of both, and the deadlock of a route's fee with a setter.
\<close>

inductive_cases mutex_stepE: "mutex_step s s'"

section \<open>Limits\<close>

text \<open>What is used of the decimal library's rounding.\<close>

definition rounding :: "fee_env \<Rightarrow> bool" where
  "rounding en \<longleftrightarrow> (\<forall>p x y. x \<le> y \<longrightarrow> fv_round en p x \<le> fv_round en p y)"

lemma applyFeeLimits_bounds:
  assumes "fg_MaxFeeAmount c = 0 \<or> fg_MinFeeAmount c \<le> fg_MaxFeeAmount c"
  shows "fg_MinFeeAmount c \<le> applyFeeLimits c fee" "fg_MaxFeeAmount c = 0 \<or> applyFeeLimits c fee \<le> fg_MaxFeeAmount c"
  using assms by (auto simp: applyFeeLimits_def)

lemma CalculateFee_Inr:
  "CalculateFee en fe clock request m = (Inr f, m') \<Longrightarrow>
    \<exists>req d. request = Some req \<and> validateFeeRequest req = None \<and>
      fs_FinalFee f = fv_round en (fg_FeeDisplayPrecision (fe_config fe)) (applyFeeLimits (fe_config fe) d) \<and> fs_DiscountedFee f = d"
  by (auto simp: CalculateFee_def fee_body_def Let_def split: option.splits prod.splits)

text \<open>Rounding as the library does it, half away from zero, for the witnesses.\<close>

definition round_half :: "int \<Rightarrow> decimal \<Rightarrow> decimal" where
  "round_half p x =
     (let k = 10 ^ nat p
      in if 0 \<le> x then of_int \<lfloor>x * k + 1 / 2\<rfloor> / k else - (of_int \<lfloor>- x * k + 1 / 2\<rfloor> / k))"

definition exact_env :: fee_env where
  "exact_env = \<lparr>fv_div = (\<lambda>x y. x / y), fv_round = round_half\<rparr>"

lemma round_half_mono: "x \<le> y \<Longrightarrow> round_half p x \<le> round_half p y"
proof -
  assume xy: "x \<le> y"
  let ?k = "10 ^ nat p :: decimal"
  have k: "0 < ?k" by simp
  have m: "of_int \<lfloor>a * ?k + 1 / 2\<rfloor> / ?k \<le> of_int \<lfloor>b * ?k + 1 / 2\<rfloor> / ?k" if "a \<le> b" for a b :: decimal
    using that k by (intro divide_right_mono) (auto intro!: floor_mono mult_right_mono)
  have z: "0 \<le> of_int \<lfloor>a * ?k + 1 / 2\<rfloor> / ?k" if "0 \<le> a" for a :: decimal
    using that by (intro divide_nonneg_pos) auto
  show ?thesis
  proof (cases "0 \<le> x \<or> y < 0")
    case True
    then show ?thesis using xy m [of x y] m [of "- y" "- x"] by (auto simp: round_half_def Let_def)
  next
    case False
    then have "round_half p x \<le> 0" "0 \<le> round_half p y" using z [of y] z [of "- x"] by (auto simp: round_half_def Let_def)
    then show ?thesis by linarith
  qed
qed

lemma exact_rounding: "rounding exact_env"
  by (simp add: rounding_def exact_env_def round_half_mono)


text \<open>
  the fee of an order keeps the limits. When the limits are consistent and have no more digits
  than the display precision, every fee that \<open>CalculateFee\<close> returns is at least the minimum and, when
  there is a maximum, at most that, whatever the rate, the discount and the traded value: a discount
  above 100 percent yields the minimum and never a fee that is paid out. The limits are applied before
  the rounding, so without the second condition a fee can leave them.
\<close>

theorem fee_limits:
  assumes "rounding en"
    and "fv_round en (fg_FeeDisplayPrecision (fe_config fe)) (fg_MinFeeAmount (fe_config fe)) = fg_MinFeeAmount (fe_config fe)"
    and "fg_MaxFeeAmount (fe_config fe) = 0 \<or> fg_MinFeeAmount (fe_config fe) \<le> fg_MaxFeeAmount (fe_config fe) \<and>
      fv_round en (fg_FeeDisplayPrecision (fe_config fe)) (fg_MaxFeeAmount (fe_config fe)) = fg_MaxFeeAmount (fe_config fe)"
    and "CalculateFee en fe clock request m = (Inr f, m')"
  shows "fg_MinFeeAmount (fe_config fe) \<le> fs_FinalFee f \<and>
    (fg_MaxFeeAmount (fe_config fe) = 0 \<or> fs_FinalFee f \<le> fg_MaxFeeAmount (fe_config fe))"
proof -
  let ?c = "fe_config fe" let ?r = "fv_round en (fg_FeeDisplayPrecision ?c)"
  obtain d where f: "fs_FinalFee f = ?r (applyFeeLimits ?c d)" using CalculateFee_Inr [OF assms(4)] by blast
  have mono: "x \<le> y \<Longrightarrow> ?r x \<le> ?r y" for x y using assms(1) by (simp add: rounding_def)
  have c: "fg_MaxFeeAmount ?c = 0 \<or> fg_MinFeeAmount ?c \<le> fg_MaxFeeAmount ?c" using assms(3) by blast
  show ?thesis using mono [OF applyFeeLimits_bounds(1) [OF c, of d]] applyFeeLimits_bounds(2) [OF c, of d]
      mono [of "applyFeeLimits ?c d" "fg_MaxFeeAmount ?c"] assms(2,3) f by auto
qed

text \<open>An engine with a discount of 150 percent for the user \<open>u\<close>, and an order of that user.\<close>

definition discounted :: fee_engine where
  "discounted = snd (SetAccountDiscount (Some \<lparr>ad_UserID = ''u'', ad_DiscountPct = 150, ad_ValidFrom = 0, ad_ValidTo = None,
     ad_Description = []\<rparr>) (NewFeeEngine 0 None))"

definition an_order :: fee_request where
  "an_order = \<lparr>fr_UserID = ''u'', fr_Pair = ''BTCUSDT'', fr_Side = ''BUY'', fr_OrderType = ''LIMIT'', fr_Quantity = 2,
     fr_Price = 100, fr_TradedValue = 200, fr_IsMaker = True, fr_Timestamp = 0\<rparr>"

theorem fee_limits_witness:
  "\<exists>f m'. CalculateFee exact_env discounted int (Some an_order) (fe_metrics discounted) = (Inr f, m') \<and>
     fs_DiscountedFee f < 0 \<and> fg_MinFeeAmount (fe_config discounted) \<le> fs_FinalFee f"
proof -
  let ?r = "CalculateFee exact_env discounted int (Some an_order) (fe_metrics discounted)"
  have e: "\<not> isl (fst ?r) \<and> fs_DiscountedFee (projr (fst ?r)) < 0"
    "fv_round exact_env (fg_FeeDisplayPrecision (fe_config discounted)) (fg_MinFeeAmount (fe_config discounted)) =
       fg_MinFeeAmount (fe_config discounted)"
    "fg_MaxFeeAmount (fe_config discounted) = 0"
    by code_simp+
  then have "?r = (Inr (projr (fst ?r)), snd ?r)" by (cases "fst ?r"; cases ?r) auto
  then show ?thesis using fee_limits [OF exact_rounding e(2) disjI1 [OF e(3)]] e(1) by blast
qed

section \<open>Routes\<close>


text \<open>The fee does not depend on the counters, and the counters change by one calculation and at most one error.\<close>

lemma CalculateFee_metrics_free: "fst (CalculateFee en fe clock request m) = fst (CalculateFee en fe clock request m')"
  by (auto simp: CalculateFee_def fee_body_def getBaseFeeRate_def applyAccountDiscount_def Let_def split: option.splits prod.splits)

lemma record_simps [simp]:
  "fm_TotalCalculations (recordMetrics took now cross m) = fm_TotalCalculations m + 1"
  "fm_ErrorCount (recordMetrics took now cross m) = fm_ErrorCount m"
  "fm_CrossPairCalculations (recordMetrics took now cross m) = fm_CrossPairCalculations m + (if cross then 1 else 0)"
  "fm_TotalCalculations (recordError m) = fm_TotalCalculations m" "fm_ErrorCount (recordError m) = fm_ErrorCount m + 1"
  "fm_CrossPairCalculations (recordError m) = fm_CrossPairCalculations m"
  by (simp_all add: recordMetrics_def recordError_def Let_def)

lemma CalculateFee_counts:
  assumes "CalculateFee en fe clock (Some req) m = (r, m')"
  shows "fm_TotalCalculations m' = fm_TotalCalculations m + 1 \<and> fm_CrossPairCalculations m' = fm_CrossPairCalculations m \<and>
    fm_ErrorCount m' = fm_ErrorCount m + (if isl r then 1 else 0)"
  using assms
  by (auto simp: CalculateFee_def fee_body_def getBaseFeeRate_def applyAccountDiscount_def Let_def recordFeeTierUsage_def
      recordPairOverrideUsage_def recordDiscountApplication_def split: option.splits prod.splits if_splits)

text \<open>The fee of step \<open>k\<close>, whatever the counters.\<close>

definition fee_of_step :: "fee_env \<Rightarrow> fee_engine \<Rightarrow> (nat \<Rightarrow> nat \<Rightarrow> time) \<Rightarrow> cross_request \<Rightarrow> nat \<Rightarrow> string + fee_result" where
  "fee_of_step en fe clocks req k =
     fst (CalculateFee en fe (clocks k) (Some (step_request req (xr_Route req ! k))) (fe_metrics fe))"

lemma step_fees_Inr:
  assumes "step_fees en fe clocks req i (drop i (xr_Route req)) (fees, tot) m = (Inr (fees', tot'), m')"
    and "i \<le> length (xr_Route req)"
  shows "(\<exists>new. fees' = fees @ new \<and> length new = length (xr_Route req) - i \<and> tot' = tot + sum_list (map fs_FinalFee new) \<and>
      (\<forall>k < length new. fee_of_step en fe clocks req (i + k) = Inr (new ! k))) \<and>
    fm_TotalCalculations m' = fm_TotalCalculations m + int (length (xr_Route req) - i) \<and> fm_ErrorCount m' = fm_ErrorCount m \<and>
    fm_CrossPairCalculations m' = fm_CrossPairCalculations m"
  using assms
proof (induction "length (xr_Route req) - i" arbitrary: i fees tot m)
  case 0
  then show ?case by auto
next
  case (Suc n)
  then have i: "i < length (xr_Route req)" by simp
  then have d: "drop i (xr_Route req) = xr_Route req ! i # drop (Suc i) (xr_Route req)" by (rule Cons_nth_drop_Suc [symmetric])
  obtain r m1 where c: "CalculateFee en fe (clocks i) (Some (step_request req (xr_Route req ! i))) m = (r, m1)"
    by (cases "CalculateFee en fe (clocks i) (Some (step_request req (xr_Route req ! i))) m")
  then obtain f where f: "r = Inr f" using Suc.prems(1) d by (cases r) auto
  have rest: "step_fees en fe clocks req (Suc i) (drop (Suc i) (xr_Route req)) (fees @ [f], tot + fs_FinalFee f) m1 = (Inr (fees', tot'), m')"
    using Suc.prems(1) c f d by simp
  have fi: "fee_of_step en fe clocks req i = Inr f"
    using c f CalculateFee_metrics_free [of en fe "clocks i" "Some (step_request req (xr_Route req ! i))" "fe_metrics fe" m]
    by (simp add: fee_of_step_def)
  have "n = length (xr_Route req) - Suc i" using Suc.hyps(2) i by linarith
  from Suc.hyps(1) [OF this rest] obtain new where new: "fees' = (fees @ [f]) @ new" "length new = length (xr_Route req) - Suc i"
    "tot' = tot + fs_FinalFee f + sum_list (map fs_FinalFee new)"
    "\<forall>k < length new. fee_of_step en fe clocks req (Suc i + k) = Inr (new ! k)"
    and m': "fm_TotalCalculations m' = fm_TotalCalculations m1 + int (length (xr_Route req) - Suc i)"
      "fm_ErrorCount m' = fm_ErrorCount m1" "fm_CrossPairCalculations m' = fm_CrossPairCalculations m1" using i by auto
  have "fee_of_step en fe clocks req (i + k) = Inr ((f # new) ! k)" if "k < length (f # new)" for k
    using that fi new(4) by (cases k) auto
  moreover have "int (length (xr_Route req) - Suc i) + 1 = int (length (xr_Route req) - i)" using i by linarith
  ultimately show ?case using new(1-3) m' CalculateFee_counts [OF c] f i
    by (intro conjI exI [of _ "f # new"]) auto
qed


lemma step_fees_Inl:
  assumes "step_fees en fe clocks req i (drop i (xr_Route req)) acc m = (Inl e, m')" and "i \<le> length (xr_Route req)"
  shows "\<exists>k e'. i \<le> k \<and> k < length (xr_Route req) \<and> fee_of_step en fe clocks req k = Inl e' \<and>
    (\<forall>j. i \<le> j \<and> j < k \<longrightarrow> \<not> isl (fee_of_step en fe clocks req j)) \<and>
    e = ''failed to calculate fee for step '' @ show_int (int k) @ '': '' @ e' \<and>
    fm_TotalCalculations m' = fm_TotalCalculations m + int (k - i) + 1 \<and>
    fm_CrossPairCalculations m' = fm_CrossPairCalculations m \<and> fm_ErrorCount m' = fm_ErrorCount m + 2"
  using assms
proof (induction "length (xr_Route req) - i" arbitrary: i acc m)
  case 0
  then show ?case by (cases acc) auto
next
  case (Suc n)
  then have i: "i < length (xr_Route req)" by simp
  then have d: "drop i (xr_Route req) = xr_Route req ! i # drop (Suc i) (xr_Route req)" by (rule Cons_nth_drop_Suc [symmetric])
  obtain fees tot where acc: "acc = (fees, tot)" by (cases acc)
  obtain r m1 where c: "CalculateFee en fe (clocks i) (Some (step_request req (xr_Route req ! i))) m = (r, m1)"
    by (cases "CalculateFee en fe (clocks i) (Some (step_request req (xr_Route req ! i))) m")
  have fi: "fee_of_step en fe clocks req i = r"
    using c CalculateFee_metrics_free [of en fe "clocks i" "Some (step_request req (xr_Route req ! i))" "fe_metrics fe" m]
    by (simp add: fee_of_step_def)
  show ?case
  proof (cases r)
    case (Inl e')
    then show ?thesis using Suc.prems(1) c d acc fi i CalculateFee_counts [OF c] by (intro exI [of _ i] exI [of _ e']) auto
  next
    case (Inr f)
    have rest: "step_fees en fe clocks req (Suc i) (drop (Suc i) (xr_Route req)) (fees @ [f], tot + fs_FinalFee f) m1 = (Inl e, m')"
      using Suc.prems(1) c Inr d acc by simp
    have "n = length (xr_Route req) - Suc i" using Suc.hyps(2) i by linarith
    from Suc.hyps(1) [OF this rest] i obtain k e' where k: "Suc i \<le> k" "k < length (xr_Route req)" "fee_of_step en fe clocks req k = Inl e'"
      "\<forall>j. Suc i \<le> j \<and> j < k \<longrightarrow> \<not> isl (fee_of_step en fe clocks req j)" "e = ''failed to calculate fee for step '' @ show_int (int k) @ '': '' @ e'"
      "fm_TotalCalculations m' = fm_TotalCalculations m1 + int (k - Suc i) + 1"
      "fm_CrossPairCalculations m' = fm_CrossPairCalculations m1" "fm_ErrorCount m' = fm_ErrorCount m1 + 2" by auto
    have "\<not> isl (fee_of_step en fe clocks req j)" if "i \<le> j \<and> j < k" for j
      using that k(4) fi Inr by (cases "j = i") auto
    moreover have "int (k - Suc i) + 1 = int (k - i)" using k(1) by linarith
    ultimately show ?thesis using k CalculateFee_counts [OF c] Inr by (intro exI [of _ k] exI [of _ e']) auto
  qed
qed

text \<open>
  C19: the fee of a route. It is refused when cross-pair trading is disabled and when the request is
  invalid, the second of which counts as an error. Otherwise each step is priced and rounded by
  itself. If all can be priced, the route has at least one step and no more than the maximum, and the
  total is the sum of the steps' fees times the multiplier, plus the two shares of the estimated
  value, brought within the minimum and, if there is one, the maximum, and not rounded again; the
  breakdown adds up to it. If not, the error is that of the first step that cannot be priced, and
  counts twice. The counters see a calculation for every step that was tried and one for the route.
\<close>

theorem route_fee:
  assumes "CalculateCrossPairFee en fe took now clocks (Some req) m = (r, m')"
  shows "if \<not> xg_Enabled (fe_crossPairConfig fe) then
      r = Inl ''cross-pair trading is disabled'' \<and> fm_TotalCalculations m' = fm_TotalCalculations m + 1 \<and>
      fm_CrossPairCalculations m' = fm_CrossPairCalculations m + 1 \<and> fm_ErrorCount m' = fm_ErrorCount m
    else if validateCrossPairRequest (fe_crossPairConfig fe) req \<noteq> None then
      isl r \<and> fm_TotalCalculations m' = fm_TotalCalculations m + 1 \<and>
      fm_CrossPairCalculations m' = fm_CrossPairCalculations m + 1 \<and> fm_ErrorCount m' = fm_ErrorCount m + 1
    else (case r of
      Inr x \<Rightarrow> 0 < length (xs_StepFees x) \<and> int (length (xs_StepFees x)) \<le> xg_MaxHops (fe_crossPairConfig fe) \<and>
        length (xs_StepFees x) = length (xr_Route req) \<and>
        (\<forall>k < length (xr_Route req). fee_of_step en fe clocks req k = Inr (xs_StepFees x ! k)) \<and>
        (let fees = sum_list (map fs_FinalFee (xs_StepFees x));
             total = fees * xg_BaseFeeMultiplier (fe_crossPairConfig fe) + xs_RoutingFee x + xs_LiquidityFee x
         in xs_TotalFee x =
             (if total < fg_MinFeeAmount (fe_config fe) then fg_MinFeeAmount (fe_config fe)
              else if fg_MaxFeeAmount (fe_config fe) \<noteq> 0 \<and> fg_MaxFeeAmount (fe_config fe) < total
                   then fg_MaxFeeAmount (fe_config fe)
              else total)) \<and>
        xs_RoutingFee x = xr_EstimatedValue req * xg_RoutingFee (fe_crossPairConfig fe) \<and>
        xs_LiquidityFee x = xr_EstimatedValue req * xg_LiquidityProviderFee (fe_crossPairConfig fe) \<and>
        the (xs_Breakdown x ''base_trading_fees'') + xs_RoutingFee x + xs_LiquidityFee x = xs_TotalFee x \<and>
        fm_TotalCalculations m' = fm_TotalCalculations m + int (length (xr_Route req)) + 1 \<and>
        fm_CrossPairCalculations m' = fm_CrossPairCalculations m + 1 \<and> fm_ErrorCount m' = fm_ErrorCount m
    | Inl e \<Rightarrow> (\<exists>k e'. k < length (xr_Route req) \<and> fee_of_step en fe clocks req k = Inl e' \<and>
        (\<forall>j < k. \<not> isl (fee_of_step en fe clocks req j)) \<and>
        e = ''failed to calculate fee for step '' @ show_int (int k) @ '': '' @ e' \<and>
        fm_TotalCalculations m' = fm_TotalCalculations m + int k + 2 \<and>
        fm_CrossPairCalculations m' = fm_CrossPairCalculations m + 1 \<and> fm_ErrorCount m' = fm_ErrorCount m + 2))"
proof -
  let ?x = "fe_crossPairConfig fe" let ?sts = "xr_Route req"
  consider "\<not> xg_Enabled ?x" | e where "xg_Enabled ?x" "validateCrossPairRequest ?x req = Some e"
    | "xg_Enabled ?x" "validateCrossPairRequest ?x req = None" by blast
  then show ?thesis
  proof cases
    case 1
    then show ?thesis using assms by (auto simp: CalculateCrossPairFee_def cross_body_def)
  next
    case 2
    then show ?thesis using assms by (auto simp: CalculateCrossPairFee_def cross_body_def)
  next
    case 3
    have v: "0 < length ?sts" "int (length ?sts) \<le> xg_MaxHops ?x"
      using 3(2) by (auto simp: validateCrossPairRequest_def split: if_splits)
    obtain q m1 where s: "step_fees en fe clocks req 0 ?sts ([], 0) m = (q, m1)"
      by (cases "step_fees en fe clocks req 0 ?sts ([], 0) m")
    show ?thesis
    proof (cases q)
      case (Inl e)
      then have s0: "step_fees en fe clocks req 0 (drop 0 ?sts) ([], 0) m = (Inl e, m1)" using s by simp
      have "r = Inl e" "m' = recordMetrics took now True m1"
        using assms 3 s Inl by (auto simp: CalculateCrossPairFee_def cross_body_def)
      then show ?thesis using step_fees_Inl [OF s0] 3 by (auto simp del: append_Cons append.simps)
    next
      case (Inr ft)
      obtain fees tot where ft: "ft = (fees, tot)" by (cases ft)
      then have s0: "step_fees en fe clocks req 0 (drop 0 ?sts) ([], 0) m = (Inr (fees, tot), m1)" using s Inr by simp
      note st = step_fees_Inr [OF s0, simplified]
      obtain x where x: "r = Inr x" "xs_StepFees x = fees" "xs_TotalFee x = cross_total fe req tot"
        "xs_RoutingFee x = xr_EstimatedValue req * xg_RoutingFee ?x"
        "xs_LiquidityFee x = xr_EstimatedValue req * xg_LiquidityProviderFee ?x"
        "the (xs_Breakdown x ''base_trading_fees'') = xs_TotalFee x - xs_RoutingFee x - xs_LiquidityFee x"
        and m': "m' = recordMetrics took now True m1"
        using assms 3 s Inr ft by (auto simp: CalculateCrossPairFee_def cross_body_def Let_def)
      show ?thesis using x m' st v 3 by (simp add: cross_total_def applyFeeLimits_def Let_def)
    qed
  qed
qed

text \<open>A route of two steps.\<close>

definition a_route :: "decimal \<Rightarrow> cross_request" where
  "a_route q = \<lparr>xr_UserID = ''v'', xr_SourcePair = ''BTCUSDT'', xr_TargetPair = ''ETHUSDT'', xr_IntermediatePairs = [],
     xr_Quantity = 1, xr_EstimatedValue = 1000,
     xr_Route = [\<lparr>rs_Pair = ''BTCUSDT'', rs_Side = ''SELL'', rs_Quantity = 1, rs_Price = 1000, rs_IsMaker = False\<rparr>,
       \<lparr>rs_Pair = ''ETHUSDT'', rs_Side = ''BUY'', rs_Quantity = q, rs_Price = 500, rs_IsMaker = False\<rparr>],
     xr_Timestamp = 0\<rparr>"

theorem route_fee_witness:
  "\<exists>x m'. CalculateCrossPairFee exact_env discounted 5 9 (\<lambda>k. int) (Some (a_route 2)) (fe_metrics discounted) = (Inr x, m') \<and>
     xs_TotalFee x = 27 / 10 \<and> length (xs_StepFees x) = 2 \<and> fm_TotalCalculations m' = 3"
proof -
  let ?r = "CalculateCrossPairFee exact_env discounted 5 9 (\<lambda>k. int) (Some (a_route 2)) (fe_metrics discounted)"
  have e: "\<not> isl (fst ?r) \<and> xs_TotalFee (projr (fst ?r)) = 27 / 10"
    "xg_Enabled (fe_crossPairConfig discounted)" "validateCrossPairRequest (fe_crossPairConfig discounted) (a_route 2) = None"
    "length (xr_Route (a_route 2)) = 2" "fm_TotalCalculations (fe_metrics discounted) = 0"
    by code_simp+
  obtain x m' where r: "?r = (Inr x, m')" using e(1) by (cases ?r; cases "fst ?r") auto
  have "length (xs_StepFees x) = 2 \<and> fm_TotalCalculations m' = 3" using route_fee [OF r] e(2-5) by simp
  then show ?thesis using e(1) r by auto
qed

section \<open>Deadlock\<close>

text \<open>
  pricing a route can wait for ever. From the moment a route of at least one step is priced, a
  setter can come to wait for the mutex between the two times the route's call takes its read side;
  then the call waits for the setter, the setter for the call, and no step is possible, though neither
  has returned.
\<close>

theorem route_deadlock:
  "\<exists>s. mutex_step\<^sup>*\<^sup>* (fee_calls (Suc n)) s \<and> mx_route s = Between (Suc n) \<and> mx_setter s = Waiting \<and> (\<forall>s'. \<not> mutex_step s s')"
proof -
  let ?s0 = "fee_calls (Suc n)"
  let ?s1 = "?s0\<lparr>mx_readers := mx_readers ?s0 + 1, mx_route := Between (Suc n)\<rparr>"
  let ?s2 = "?s1\<lparr>mx_setter := Waiting\<rparr>"
  have "mutex_step ?s0 ?s1" by (rule mutex_step.outer_RLock) (simp_all add: fee_calls_def may_read_def)
  moreover have "mutex_step ?s1 ?s2" by (rule mutex_step.setter_waits) (simp add: fee_calls_def)
  ultimately have "mutex_step\<^sup>*\<^sup>* ?s0 ?s2" by (meson converse_rtranclp_into_rtranclp rtranclp.rtrancl_refl)
  moreover have "\<not> mutex_step ?s2 s'" for s' by (auto simp: fee_calls_def may_read_def elim: mutex_stepE)
  ultimately show ?thesis by (intro exI [of _ ?s2]) (simp add: fee_calls_def)
qed

end
