(* ===== verification/WalletState.thy ===== *)
theory WalletState
  imports Prelude
begin

text \<open>
  The wallet's transactions: the state machine \<open>internal/wallet/state/transaction_state.go\<close>, the
  repository \<open>wallet/repository/wallet_repository.go\<close> it works on, the fund locks
  \<open>wallet/services/fund_lock_service.go\<close> and the workers \<open>wallet/workers.go\<close> that drive the machine
  with what the custodian reports. The database behind gorm is the parameter \<open>'d wallet_db\<close>, one field
  per statement; its state \<open>'d\<close> also holds the cache and the event bus, whose errors are only logged.
  The statements of one call run one after the other, each on the state the others have left.
\<close>

section \<open>Rows\<close>

record wallet_tx =
  wt_ID :: uuid
  wt_UserID :: uuid
  wt_Asset :: string
  wt_Amount :: decimal
  wt_Direction :: string
  wt_Status :: string
  wt_FireblocksID :: string
  wt_TxHash :: string
  wt_FromAddress :: string
  wt_ToAddress :: string
  wt_Network :: string
  wt_Confirmations :: int
  wt_RequiredConf :: int
  wt_Locked :: bool
  wt_ComplianceCheck :: string
  wt_ErrorMsg :: string
  wt_Metadata :: "string \<rightharpoonup> any"
  wt_CreatedAt :: time
  wt_UpdatedAt :: time

record fund_lock =
  fl_ID :: uuid
  fl_UserID :: uuid
  fl_Asset :: string
  fl_Amount :: decimal
  fl_Reason :: string
  fl_TxRef :: string
  fl_Expires :: "time option"
  fl_CreatedAt :: time

record wallet_event =
  we_ID :: uuid
  we_Type :: string
  we_EventType :: string
  we_UserID :: uuid
  we_Asset :: string
  we_Amount :: "decimal option"
  we_Direction :: string
  we_TxID :: "uuid option"
  we_Status :: string
  we_Message :: string
  we_Metadata :: "string \<rightharpoonup> any"
  we_Timestamp :: time

text \<open>
  The statements. An update or a deletion that matches no row is no error. \<open>wd_find_status\<close> has the
  statuses and the limit; \<open>wd_cleanup\<close> deletes the locks that expired. \<open>wd_cache\<close> and \<open>wd_publish\<close>
  are the cache and the event publisher, when there is one.
\<close>

record 'd wallet_db =
  wd_find :: "uuid \<Rightarrow> 'd \<Rightarrow> string + wallet_tx"
  wd_find_fireblocks :: "string \<Rightarrow> 'd \<Rightarrow> string + wallet_tx"
  wd_find_status :: "string list \<Rightarrow> nat \<Rightarrow> 'd \<Rightarrow> string + wallet_tx list"
  wd_set_status :: "uuid \<Rightarrow> string \<Rightarrow> time \<Rightarrow> 'd \<Rightarrow> string + 'd"
  wd_set_confirmations :: "uuid \<Rightarrow> int \<Rightarrow> 'd \<Rightarrow> string + 'd"
  wd_set_hash :: "uuid \<Rightarrow> string \<Rightarrow> 'd \<Rightarrow> string + 'd"
  wd_create_lock :: "fund_lock \<Rightarrow> 'd \<Rightarrow> string + 'd"
  wd_delete_lock :: "uuid \<Rightarrow> 'd \<Rightarrow> string + 'd"
  wd_cleanup :: "time \<Rightarrow> 'd \<Rightarrow> (int \<times> string option) \<times> 'd"
  wd_cache :: "(wallet_tx \<Rightarrow> 'd \<Rightarrow> 'd) option"
  wd_publish :: "(wallet_event \<Rightarrow> 'd \<Rightarrow> 'd) option"

text \<open>
  What the code relies on: a query finds a row that is stored, with the ID or the status it asks for; an
  update touches its column of its row, a cleanup deletes only locks that expire; cache and bus touch no row. \<open>txs\<close> and \<open>locks\<close> read the tables.
\<close>

definition wallet_laws :: "'d wallet_db \<Rightarrow> ('d \<Rightarrow> uuid \<rightharpoonup> wallet_tx) \<Rightarrow> ('d \<Rightarrow> uuid \<rightharpoonup> fund_lock) \<Rightarrow> bool" where
  "wallet_laws db txs locks \<longleftrightarrow>
     (\<forall>i d t. wd_find db i d = Inr t \<longrightarrow> wt_ID t = i \<and> txs d i = Some t) \<and>
     (\<forall>s d t. wd_find_fireblocks db s d = Inr t \<longrightarrow> txs d (wt_ID t) = Some t) \<and>
     (\<forall>ss n d ts. wd_find_status db ss n d = Inr ts \<longrightarrow>
        (\<forall>t \<in> set ts. txs d (wt_ID t) = Some t \<and> wt_Status t \<in> set ss) \<and> length ts \<le> n) \<and>
     (\<forall>i s now d d'. wd_set_status db i s now d = Inr d' \<longrightarrow> locks d' = locks d \<and>
        txs d' = (txs d)(i := map_option (\<lambda>t. t\<lparr>wt_Status := s, wt_UpdatedAt := now\<rparr>) (txs d i))) \<and>
     (\<forall>i n d d'. wd_set_confirmations db i n d = Inr d' \<longrightarrow> locks d' = locks d \<and>
        txs d' = (txs d)(i := map_option (\<lambda>t. t\<lparr>wt_Confirmations := n\<rparr>) (txs d i))) \<and>
     (\<forall>i h d d'. wd_set_hash db i h d = Inr d' \<longrightarrow> locks d' = locks d \<and>
        txs d' = (txs d)(i := map_option (\<lambda>t. t\<lparr>wt_TxHash := h\<rparr>) (txs d i))) \<and>
     (\<forall>l d d'. wd_create_lock db l d = Inr d' \<longrightarrow> locks d (fl_ID l) = None \<and>
        locks d' = (locks d)(fl_ID l \<mapsto> l) \<and> txs d' = txs d) \<and>
     (\<forall>i d d'. wd_delete_lock db i d = Inr d' \<longrightarrow> locks d' = (locks d)(i := None) \<and> txs d' = txs d) \<and>
     (\<forall>now d. txs (snd (wd_cleanup db now d)) = txs d \<and>
        (\<forall>i l. locks d i = Some l \<and> fl_Expires l = None \<longrightarrow> locks (snd (wd_cleanup db now d)) i = Some l)) \<and>
     (\<forall>f t d. wd_cache db = Some f \<longrightarrow> txs (f t d) = txs d \<and> locks (f t d) = locks d) \<and>
     (\<forall>f e d. wd_publish db = Some f \<longrightarrow> txs (f e d) = txs d \<and> locks (f e d) = locks d)"

section \<open>The repository\<close>

definition wr_GetTransaction :: "'d wallet_db \<Rightarrow> uuid \<Rightarrow> 'd \<Rightarrow> string + wallet_tx" where
  "wr_GetTransaction db txID d = wd_find db txID d"

definition wr_UpdateTransaction :: "'d wallet_db \<Rightarrow> uuid \<Rightarrow> string \<Rightarrow> time \<Rightarrow> 'd \<Rightarrow> string + 'd" where
  "wr_UpdateTransaction db txID status now d = wd_set_status db txID status now d"

definition GetTransactionByFireblocksID :: "'d wallet_db \<Rightarrow> string \<Rightarrow> 'd \<Rightarrow> string + wallet_tx" where
  "GetTransactionByFireblocksID db i d = wd_find_fireblocks db i d"

definition GetTransactionsByStatuses :: "'d wallet_db \<Rightarrow> string list \<Rightarrow> nat \<Rightarrow> 'd \<Rightarrow> string + wallet_tx list" where
  "GetTransactionsByStatuses db statuses limit d = wd_find_status db statuses limit d"

definition UpdateTransactionConfirmations :: "'d wallet_db \<Rightarrow> uuid \<Rightarrow> int \<Rightarrow> 'd \<Rightarrow> string + 'd" where
  "UpdateTransactionConfirmations db txID n d = wd_set_confirmations db txID n d"

definition UpdateTransactionHash :: "'d wallet_db \<Rightarrow> uuid \<Rightarrow> string \<Rightarrow> 'd \<Rightarrow> string + 'd" where
  "UpdateTransactionHash db txID h d = wd_set_hash db txID h d"

definition CreateFundLock :: "'d wallet_db \<Rightarrow> fund_lock \<Rightarrow> 'd \<Rightarrow> string + 'd" where
  "CreateFundLock db l d = wd_create_lock db l d"

definition ReleaseFundLock :: "'d wallet_db \<Rightarrow> uuid \<Rightarrow> 'd \<Rightarrow> string + 'd" where
  "ReleaseFundLock db lockID d = wd_delete_lock db lockID d"

text \<open>The two stubs return no lock and no error.\<close>

definition GetFundLockByTxRef :: "string \<Rightarrow> string + fund_lock option" where
  "GetFundLockByTxRef txRef = Inr None"

definition GetFundLocks :: "uuid \<Rightarrow> string \<Rightarrow> string + fund_lock list" where
  "GetFundLocks userID asset = Inr []"

definition CleanupExpiredLocks :: "'d wallet_db \<Rightarrow> time \<Rightarrow> 'd \<Rightarrow> (int \<times> string option) \<times> 'd" where
  "CleanupExpiredLocks db now d = wd_cleanup db now d"

section \<open>Fund locks\<close>

definition CreateLock :: "'d wallet_db \<Rightarrow> uuid \<Rightarrow> time \<Rightarrow> uuid \<Rightarrow> string \<Rightarrow> decimal \<Rightarrow> string \<Rightarrow> string \<Rightarrow> time option \<Rightarrow> 'd \<Rightarrow>
    (string + fund_lock) \<times> 'd" where
  "CreateLock db newID now userID asset amount reason txRef expires d =
     (let l = \<lparr>fl_ID = newID, fl_UserID = userID, fl_Asset = asset, fl_Amount = amount, fl_Reason = reason,
          fl_TxRef = txRef, fl_Expires = expires, fl_CreatedAt = now\<rparr>
      in case CreateFundLock db l d of Inl e \<Rightarrow> (Inl e, d) | Inr d' \<Rightarrow> (Inr l, d'))"

definition fl_LockFunds :: "'d wallet_db \<Rightarrow> (uuid \<Rightarrow> string) \<Rightarrow> uuid \<Rightarrow> time \<Rightarrow> uuid \<Rightarrow> string \<Rightarrow> decimal \<Rightarrow> string \<Rightarrow> string \<Rightarrow> 'd \<Rightarrow>
    (string + string) \<times> 'd" where
  "fl_LockFunds db ustr newID now userID asset amount reason txRef d =
     (case CreateLock db newID now userID asset amount reason txRef None d of
        (Inl e, d') \<Rightarrow> (Inl e, d') | (Inr l, d') \<Rightarrow> (Inr (ustr (fl_ID l)), d'))"

text \<open>The fields of a lock that is nil are read.\<close>

definition fl_ReleaseLock :: "'d wallet_db \<Rightarrow> uuid \<Rightarrow> string \<Rightarrow> decimal \<Rightarrow> string \<Rightarrow> string \<Rightarrow> 'd \<Rightarrow> (string option \<times> 'd) outcome" where
  "fl_ReleaseLock db userID asset amount reason txRef d =
     (case GetFundLockByTxRef txRef of
        Inl e \<Rightarrow> Returns (Some e, d)
      | Inr None \<Rightarrow> Panics
      | Inr (Some l) \<Rightarrow>
          (if fl_UserID l \<noteq> userID \<or> fl_Asset l \<noteq> asset \<or> fl_Amount l \<noteq> amount \<or> fl_Reason l \<noteq> reason
           then Returns (Some ''invalid amount'', d)
           else case ReleaseFundLock db (fl_ID l) d of Inl e \<Rightarrow> Returns (Some e, d) | Inr d' \<Rightarrow> Returns (None, d')))"

section \<open>The state machine\<close>

record state_transition =
  st_TxID :: uuid
  st_FromState :: string
  st_ToState :: string
  st_Timestamp :: time
  st_Metadata :: "string \<rightharpoonup> any"

record transition_result =
  tr_Success :: bool
  tr_FromState :: string
  tr_ToState :: string
  tr_Error :: "string option"
  tr_Timestamp :: time

definition GetValidTransitions :: "string \<Rightarrow> string list" where
  "GetValidTransitions s =
     (if s = ''pending'' then [''processing'', ''failed'', ''cancelled'', ''rejected'']
      else if s = ''processing'' then [''completed'', ''failed'', ''cancelled'']
      else [])"

text \<open>The second table of the source, read by a loop; an unknown state allows nothing.\<close>

definition validTransitions :: "string \<rightharpoonup> string list" where
  "validTransitions = [''pending'' \<mapsto> [''processing'', ''failed'', ''cancelled'', ''rejected''],
     ''processing'' \<mapsto> [''completed'', ''failed'', ''cancelled''],
     ''completed'' \<mapsto> [], ''failed'' \<mapsto> [], ''cancelled'' \<mapsto> [], ''rejected'' \<mapsto> []]"

definition IsValidTransition :: "string \<Rightarrow> string \<Rightarrow> bool" where
  "IsValidTransition from to \<longleftrightarrow>
     (case validTransitions from of None \<Rightarrow> False | Some allowed \<Rightarrow> to \<in> set allowed)"

text \<open>A lock is released under the ID of the transaction.\<close>

definition release_lock :: "'d wallet_db \<Rightarrow> wallet_tx \<Rightarrow> 'd \<Rightarrow> 'd" where
  "release_lock db tx d =
     (if wt_Direction tx = ''withdrawal''
      then (case ReleaseFundLock db (wt_ID tx) d of Inl e \<Rightarrow> d | Inr d' \<Rightarrow> d')
      else d)"

definition handle_state :: "'d wallet_db \<Rightarrow> string \<Rightarrow> wallet_tx \<Rightarrow> 'd \<Rightarrow> 'd" where
  "handle_state db newState tx d =
     (if newState = ''completed'' then d
      else if newState = ''failed'' then release_lock db tx d
      else if newState = ''rejected'' then release_lock db tx d
      else if newState = ''cancelled'' then release_lock db tx d
      else d)"

definition state_event :: "uuid \<Rightarrow> time \<Rightarrow> wallet_tx \<Rightarrow> string \<Rightarrow> state_transition \<Rightarrow> wallet_event" where
  "state_event newID now tx newState tr = \<lparr>we_ID = newID, we_Type = ''transaction_state_changed'',
     we_EventType = ''transaction_state_changed'', we_UserID = wt_UserID tx, we_Asset = wt_Asset tx,
     we_Amount = Some (wt_Amount tx), we_Direction = wt_Direction tx, we_TxID = Some (wt_ID tx), we_Status = newState,
     we_Message = ''Transaction transitioned from '' @ st_FromState tr @ '' to '' @ newState,
     we_Metadata = [''from_state'' \<mapsto> AStr (st_FromState tr), ''to_state'' \<mapsto> AStr newState,
       ''transition_time'' \<mapsto> ATime (st_Timestamp tr)],
     we_Timestamp = now\<rparr>"

text \<open>\<open>clock n\<close> is the \<open>n\<close>-th reading of the clock after the transition record is made, \<open>newID\<close> the ID of the event.\<close>

definition executeTransition :: "'d wallet_db \<Rightarrow> uuid \<Rightarrow> (nat \<Rightarrow> time) \<Rightarrow> wallet_tx \<Rightarrow> string \<Rightarrow> state_transition \<Rightarrow> 'd \<Rightarrow>
    (transition_result \<times> string option) \<times> 'd" where
  "executeTransition db newID clock tx newState tr d =
     (case wr_UpdateTransaction db (wt_ID tx) newState (clock 0) d of
        Inl e \<Rightarrow> ((\<lparr>tr_Success = False, tr_FromState = st_FromState tr, tr_ToState = newState, tr_Error = Some e,
                    tr_Timestamp = clock 1\<rparr>, Some e), d)
      | Inr d1 \<Rightarrow>
          (let tx1 = tx\<lparr>wt_Status := newState, wt_UpdatedAt := clock 1\<rparr>;
               d2 = (case wd_cache db of Some f \<Rightarrow> f tx1 d1 | None \<Rightarrow> d1);
               d3 = (case wd_publish db of Some f \<Rightarrow> f (state_event newID (clock 2) tx1 newState tr) d2 | None \<Rightarrow> d2);
               d4 = handle_state db newState tx1 d3
           in ((\<lparr>tr_Success = True, tr_FromState = st_FromState tr, tr_ToState = newState, tr_Error = None,
                 tr_Timestamp = clock 3\<rparr>, None), d4)))"

definition failed_result :: "string \<Rightarrow> transition_result" where
  "failed_result e = \<lparr>tr_Success = False, tr_FromState = [], tr_ToState = [], tr_Error = Some e, tr_Timestamp = 0\<rparr>"

definition TransitionTo :: "'d wallet_db \<Rightarrow> uuid \<Rightarrow> (nat \<Rightarrow> time) \<Rightarrow> uuid \<Rightarrow> string \<Rightarrow> (string \<rightharpoonup> any) \<Rightarrow> 'd \<Rightarrow>
    (transition_result \<times> string option) \<times> 'd" where
  "TransitionTo db newID clock txID newState metadata d =
     (case wr_GetTransaction db txID d of
        Inl e \<Rightarrow> ((failed_result e, Some e), d)
      | Inr tx \<Rightarrow>
          (if \<not> IsValidTransition (wt_Status tx) newState
           then (let e = ''invalid state transition from '' @ wt_Status tx @ '' to '' @ newState
                 in ((failed_result e, Some e), d))
           else executeTransition db newID (\<lambda>n. clock (Suc n)) tx newState
             \<lparr>st_TxID = txID, st_FromState = wt_Status tx, st_ToState = newState, st_Timestamp = clock 0, st_Metadata = metadata\<rparr> d))"

definition GetCurrentState :: "'d wallet_db \<Rightarrow> uuid \<Rightarrow> 'd \<Rightarrow> string + string" where
  "GetCurrentState db txID d = (case wr_GetTransaction db txID d of Inl e \<Rightarrow> Inl e | Inr tx \<Rightarrow> Inr (wt_Status tx))"

definition CanTransitionTo :: "'d wallet_db \<Rightarrow> uuid \<Rightarrow> string \<Rightarrow> 'd \<Rightarrow> string + bool" where
  "CanTransitionTo db txID newState d =
     (case wr_GetTransaction db txID d of Inl e \<Rightarrow> Inl e | Inr tx \<Rightarrow> Inr (IsValidTransition (wt_Status tx) newState))"

definition GetAllowedTransitions :: "'d wallet_db \<Rightarrow> uuid \<Rightarrow> 'd \<Rightarrow> string + string list" where
  "GetAllowedTransitions db txID d =
     (case wr_GetTransaction db txID d of Inl e \<Rightarrow> Inl e | Inr tx \<Rightarrow> Inr (GetValidTransitions (wt_Status tx)))"


section \<open>The workers\<close>

text \<open>What the custodian reports of a transaction, and a webhook; fields that no worker reads are left out.\<close>

record custody_tx =
  ct_Status :: string
  ct_SubStatus :: string
  ct_TxHash :: string
  ct_NumOfConfirmations :: int

record custody_data =
  cd_ID :: string
  cd_Status :: string
  cd_SubStatus :: string
  cd_TxHash :: string
  cd_NumOfConfirmations :: int
  cd_DestinationType :: string
  cd_DestinationID :: string

record webhook =
  wk_Type :: string
  wk_Data :: custody_data

text \<open>The state a report asks for, \<open>''''\<close> for none; the confirmation worker's table and the webhook's.\<close>

definition confirmed_target :: "string \<Rightarrow> int \<Rightarrow> int \<Rightarrow> string" where
  "confirmed_target status confirmations required =
     (if confirmations \<ge> required
      then (if status = ''confirming'' then ''confirmed'' else if status = ''confirmed'' then ''completed'' else [])
      else [])"

definition polled_target :: "string \<Rightarrow> string \<Rightarrow> int \<Rightarrow> int \<Rightarrow> string" where
  "polled_target reported status confirmations required =
     (if reported = ''SUBMITTED'' then (if status = ''initiated'' then ''pending'' else [])
      else if reported \<in> {''PENDING_SIGNATURE'', ''PENDING_AUTHORIZATION'', ''QUEUED'', ''PENDING_3RD_PARTY_MANUAL_APPROVAL''}
      then (if status = ''initiated'' then ''pending'' else [])
      else if reported = ''BROADCASTING'' then (if status = ''pending'' then ''confirming'' else [])
      else if reported = ''CONFIRMING'' then (if status = ''pending'' then ''confirming'' else [])
      else if reported = ''CONFIRMED'' then confirmed_target status confirmations required
      else if reported = ''COMPLETED'' then (if status \<noteq> ''completed'' then ''completed'' else [])
      else if reported = ''CANCELLED'' \<or> reported = ''REJECTED'' then (if status \<noteq> ''rejected'' then ''rejected'' else [])
      else if reported = ''FAILED'' then (if status \<noteq> ''failed'' then ''failed'' else [])
      else [])"

definition webhook_target :: "string \<Rightarrow> string \<Rightarrow> int \<Rightarrow> int \<Rightarrow> string" where
  "webhook_target reported status confirmations required =
     (if reported = ''CONFIRMING'' then (if status = ''pending'' then ''confirming'' else [])
      else if reported = ''CONFIRMED'' then confirmed_target status confirmations required
      else if reported = ''COMPLETED'' then (if status \<noteq> ''completed'' then ''completed'' else [])
      else if reported = ''FAILED'' then (if status \<noteq> ''failed'' then ''failed'' else [])
      else if reported = ''CANCELLED'' \<or> reported = ''REJECTED'' then (if status \<noteq> ''rejected'' then ''rejected'' else [])
      else [])"

text \<open>The reason a report gives, in the metadata of the transition.\<close>

definition report_metadata :: "string \<Rightarrow> string \<Rightarrow> string \<Rightarrow> (string \<rightharpoonup> any)" where
  "report_metadata reported target sub =
     (if target = [] then Map.empty
      else if reported = ''CANCELLED'' \<or> reported = ''REJECTED'' then [''reason'' \<mapsto> AStr sub]
      else if reported = ''FAILED'' then [''error'' \<mapsto> AStr sub]
      else Map.empty)"

definition checkStateTransition :: "'d wallet_db \<Rightarrow> uuid \<Rightarrow> (nat \<Rightarrow> time) \<Rightarrow> wallet_tx \<Rightarrow> custody_tx \<Rightarrow> 'd \<Rightarrow> string option \<times> 'd" where
  "checkStateTransition db newID clock tx fb d =
     (let newState = polled_target (ct_Status fb) (wt_Status tx) (wt_Confirmations tx) (wt_RequiredConf tx)
      in if newState \<noteq> [] \<and> newState \<noteq> wt_Status tx
         then (let md = (report_metadata (ct_Status fb) newState (ct_SubStatus fb))
                   (''confirmations'' \<mapsto> AInt (wt_Confirmations tx), ''tx_hash'' \<mapsto> AStr (ct_TxHash fb),
                    ''fireblocks_status'' \<mapsto> AStr (ct_Status fb), ''fireblocks_substatus'' \<mapsto> AStr (ct_SubStatus fb))
               in case TransitionTo db newID clock (wt_ID tx) newState md d of
                    ((r, Some e), d') \<Rightarrow> (Some (''failed to transition state: '' @ e), d')
                  | ((r, None), d') \<Rightarrow> (None, d'))
         else (None, d))"

text \<open>\<open>fireblocks\<close> is the custodian's answer; an error of the hash's update is only logged.\<close>

definition processTransaction :: "'d wallet_db \<Rightarrow> (string \<Rightarrow> 'd \<Rightarrow> string + custody_tx) \<Rightarrow> uuid \<Rightarrow> (nat \<Rightarrow> time) \<Rightarrow> wallet_tx \<Rightarrow> 'd \<Rightarrow>
    string option \<times> 'd" where
  "processTransaction db fireblocks newID clock tx d =
     (if wt_FireblocksID tx = [] then (None, d)
      else case fireblocks (wt_FireblocksID tx) d of
             Inl e \<Rightarrow> (Some (''failed to get Fireblocks transaction: '' @ e), d)
           | Inr fb \<Rightarrow>
               (case (if ct_NumOfConfirmations fb \<noteq> wt_Confirmations tx
                      then UpdateTransactionConfirmations db (wt_ID tx) (ct_NumOfConfirmations fb) d else Inr d) of
                  Inl e \<Rightarrow> (Some (''failed to update confirmations: '' @ e), d)
                | Inr d1 \<Rightarrow>
                    (let tx1 = tx\<lparr>wt_Confirmations := ct_NumOfConfirmations fb\<rparr>;
                         newHash = (ct_TxHash fb \<noteq> [] \<and> ct_TxHash fb \<noteq> wt_TxHash tx1);
                         d2 = (if newHash then (case UpdateTransactionHash db (wt_ID tx1) (ct_TxHash fb) d1 of Inl e \<Rightarrow> d1 | Inr d' \<Rightarrow> d') else d1);
                         tx2 = (if newHash then tx1\<lparr>wt_TxHash := ct_TxHash fb\<rparr> else tx1)
                     in checkStateTransition db newID clock tx2 fb d2)))"

text \<open>The rows are read once; an error of one is logged and the loop goes on. \<open>ids k\<close> and \<open>clocks k\<close> are those of the \<open>k\<close>-th row.\<close>

fun process_each :: "'d wallet_db \<Rightarrow> (string \<Rightarrow> 'd \<Rightarrow> string + custody_tx) \<Rightarrow> (nat \<Rightarrow> uuid) \<Rightarrow> (nat \<Rightarrow> nat \<Rightarrow> time) \<Rightarrow> nat \<Rightarrow>
    wallet_tx list \<Rightarrow> 'd \<Rightarrow> 'd" where
  "process_each db fireblocks ids clocks k [] d = d"
| "process_each db fireblocks ids clocks k (tx # txs) d =
     process_each db fireblocks ids clocks (Suc k) txs (snd (processTransaction db fireblocks (ids k) (clocks k) tx d))"

definition processConfirmations :: "'d wallet_db \<Rightarrow> (string \<Rightarrow> 'd \<Rightarrow> string + custody_tx) \<Rightarrow> (nat \<Rightarrow> uuid) \<Rightarrow> (nat \<Rightarrow> nat \<Rightarrow> time) \<Rightarrow>
    'd \<Rightarrow> string option \<times> 'd" where
  "processConfirmations db fireblocks ids clocks d =
     (case GetTransactionsByStatuses db [''pending'', ''confirming''] 100 d of
        Inl e \<Rightarrow> (Some (''failed to get pending transactions: '' @ e), d)
      | Inr txs \<Rightarrow> (None, process_each db fireblocks ids clocks 0 txs d))"

definition processWebhookStateTransition :: "'d wallet_db \<Rightarrow> uuid \<Rightarrow> (nat \<Rightarrow> time) \<Rightarrow> wallet_tx \<Rightarrow> custody_data \<Rightarrow> 'd \<Rightarrow>
    string option \<times> 'd" where
  "processWebhookStateTransition db newID clock tx data d =
     (let newState = webhook_target (cd_Status data) (wt_Status tx) (cd_NumOfConfirmations data) (wt_RequiredConf tx)
      in if newState \<noteq> [] \<and> newState \<noteq> wt_Status tx
         then (let md = (report_metadata (cd_Status data) newState (cd_SubStatus data))
                   (''webhook_trigger'' \<mapsto> ABool True, ''fireblocks_status'' \<mapsto> AStr (cd_Status data),
                    ''fireblocks_substatus'' \<mapsto> AStr (cd_SubStatus data))
               in case TransitionTo db newID clock (wt_ID tx) newState md d of
                    ((r, Some e), d') \<Rightarrow> (Some (''failed to transition state from webhook: '' @ e), d')
                  | ((r, None), d') \<Rightarrow> (None, d'))
         else (None, d))"

definition processTransactionUpdate :: "'d wallet_db \<Rightarrow> uuid \<Rightarrow> (nat \<Rightarrow> time) \<Rightarrow> custody_data \<Rightarrow> 'd \<Rightarrow> string option \<times> 'd" where
  "processTransactionUpdate db newID clock data d =
     (case GetTransactionByFireblocksID db (cd_ID data) d of
        Inl e \<Rightarrow> (None, d)
      | Inr tx \<Rightarrow>
          (case (if cd_NumOfConfirmations data \<noteq> wt_Confirmations tx
                 then UpdateTransactionConfirmations db (wt_ID tx) (cd_NumOfConfirmations data) d else Inr d) of
             Inl e \<Rightarrow> (Some (''failed to update confirmations: '' @ e), d)
           | Inr d1 \<Rightarrow>
               (let d2 = (if cd_TxHash data \<noteq> [] \<and> cd_TxHash data \<noteq> wt_TxHash tx
                          then (case UpdateTransactionHash db (wt_ID tx) (cd_TxHash data) d1 of Inl e \<Rightarrow> d1 | Inr d' \<Rightarrow> d') else d1)
                in processWebhookStateTransition db newID clock tx data d2)))"

text \<open>A deposit from outside is only logged.\<close>

definition processTransactionCreated :: "'d wallet_db \<Rightarrow> string \<Rightarrow> custody_data \<Rightarrow> 'd \<Rightarrow> string option \<times> 'd" where
  "processTransactionCreated db vault data d =
     (if cd_DestinationType data \<noteq> ''VAULT_ACCOUNT'' \<or> cd_DestinationID data \<noteq> vault then (None, d)
      else case GetTransactionByFireblocksID db (cd_ID data) d of Inr tx \<Rightarrow> (None, d) | Inl e \<Rightarrow> (None, d))"

definition processWebhook :: "'d wallet_db \<Rightarrow> string \<Rightarrow> uuid \<Rightarrow> (nat \<Rightarrow> time) \<Rightarrow> webhook \<Rightarrow> 'd \<Rightarrow> string option \<times> 'd" where
  "processWebhook db vault newID clock w d =
     (if wk_Type w = ''TRANSACTION_STATUS_UPDATED'' then processTransactionUpdate db newID clock (wk_Data w) d
      else if wk_Type w = ''TRANSACTION_CREATED'' then processTransactionCreated db vault (wk_Data w) d
      else (None, d))"

definition performCleanup :: "'d wallet_db \<Rightarrow> time \<Rightarrow> 'd \<Rightarrow> string option \<times> 'd" where
  "performCleanup db now d = (None, snd (CleanupExpiredLocks db now d))"

section \<open>The webhook queue\<close>

text \<open>
  The queue of a hundred webhooks, \<open>None\<close> before the worker starts. Sending to a nil channel is never
  ready, so the webhook is dropped; sending to a closed one panics, closing one twice too.
\<close>

record webhook_worker =
  ww_queue :: "webhook list option"
  ww_closed :: bool

definition ww_Start :: "webhook_worker \<Rightarrow> webhook_worker" where
  "ww_Start w = \<lparr>ww_queue = Some [], ww_closed = False\<rparr>"

definition ww_Stop :: "webhook_worker \<Rightarrow> webhook_worker outcome" where
  "ww_Stop w = (if ww_queue w = None then Returns w else if ww_closed w then Panics else Returns (w\<lparr>ww_closed := True\<rparr>))"

definition ww_ProcessWebhook :: "webhook \<Rightarrow> webhook_worker \<Rightarrow> webhook_worker outcome" where
  "ww_ProcessWebhook x w =
     (case ww_queue w of
        None \<Rightarrow> Returns w
      | Some q \<Rightarrow> (if ww_closed w then Panics else if length q < 100 then Returns (w\<lparr>ww_queue := Some (q @ [x])\<rparr>) else Returns w))"

end
