(* ===== verification/WalletTheorems.thy ===== *)
theory WalletTheorems
  imports WalletState
begin

text \<open>
  What becomes of the wallet's transactions and of their fund locks, over every history of state
  transitions, custody reports and cleanups: which states a transaction can reach, and that a lock
  taken by \<open>LockFunds\<close> is never released.
\<close>

section \<open>The laws, one by one\<close>

lemma walletD:
  assumes "wallet_laws db txs locks"
  shows "wd_find db i d = Inr t \<Longrightarrow> wt_ID t = i \<and> txs d i = Some t"
    and "wd_find_fireblocks db s d = Inr t \<Longrightarrow> txs d (wt_ID t) = Some t"
    and "wd_find_status db ss n d = Inr ts \<Longrightarrow> t \<in> set ts \<Longrightarrow> txs d (wt_ID t) = Some t \<and> wt_Status t \<in> set ss"
    and "wd_set_status db i s now d = Inr d' \<Longrightarrow> locks d' = locks d \<and>
      txs d' = (txs d)(i := map_option (\<lambda>t. t\<lparr>wt_Status := s, wt_UpdatedAt := now\<rparr>) (txs d i))"
    and "wd_set_confirmations db i m d = Inr d' \<Longrightarrow> locks d' = locks d \<and>
      txs d' = (txs d)(i := map_option (\<lambda>t. t\<lparr>wt_Confirmations := m\<rparr>) (txs d i))"
    and "wd_set_hash db i h d = Inr d' \<Longrightarrow> locks d' = locks d \<and>
      txs d' = (txs d)(i := map_option (\<lambda>t. t\<lparr>wt_TxHash := h\<rparr>) (txs d i))"
    and "wd_create_lock db l d = Inr d' \<Longrightarrow> locks d (fl_ID l) = None \<and> locks d' = (locks d)(fl_ID l \<mapsto> l) \<and> txs d' = txs d"
    and "wd_delete_lock db i d = Inr d' \<Longrightarrow> locks d' = (locks d)(i := None) \<and> txs d' = txs d"
    and "txs (snd (wd_cleanup db now d)) = txs d"
    and "locks d i = Some l \<Longrightarrow> fl_Expires l = None \<Longrightarrow> locks (snd (wd_cleanup db now d)) i = Some l"
    and "wd_cache db = Some f \<Longrightarrow> txs (f t d) = txs d \<and> locks (f t d) = locks d"
    and "wd_publish db = Some g \<Longrightarrow> txs (g e d) = txs d \<and> locks (g e d) = locks d"
proof -
  note L = assms [unfolded wallet_laws_def]
  note L1 = conjunct1 [OF L] and R1 = conjunct2 [OF L]
  note L2 = conjunct1 [OF R1] and R2 = conjunct2 [OF R1]
  note L3 = conjunct1 [OF R2] and R3 = conjunct2 [OF R2]
  note L4 = conjunct1 [OF R3] and R4 = conjunct2 [OF R3]
  note L5 = conjunct1 [OF R4] and R5 = conjunct2 [OF R4]
  note L6 = conjunct1 [OF R5] and R6 = conjunct2 [OF R5]
  note L7 = conjunct1 [OF R6] and R7 = conjunct2 [OF R6]
  note L8 = conjunct1 [OF R7] and R8 = conjunct2 [OF R7]
  note L9 = conjunct1 [OF R8] and R9 = conjunct2 [OF R8]
  show "wd_find db i d = Inr t \<Longrightarrow> wt_ID t = i \<and> txs d i = Some t" by (rule L1 [rule_format])
  show "wd_find_fireblocks db s d = Inr t \<Longrightarrow> txs d (wt_ID t) = Some t" by (rule L2 [rule_format])
  show "wd_find_status db ss n d = Inr ts \<Longrightarrow> t \<in> set ts \<Longrightarrow> txs d (wt_ID t) = Some t \<and> wt_Status t \<in> set ss"
    using L3 by blast
  show "wd_set_status db i s now d = Inr d' \<Longrightarrow> locks d' = locks d \<and>
      txs d' = (txs d)(i := map_option (\<lambda>t. t\<lparr>wt_Status := s, wt_UpdatedAt := now\<rparr>) (txs d i))" by (rule L4 [rule_format])
  show "wd_set_confirmations db i m d = Inr d' \<Longrightarrow> locks d' = locks d \<and>
      txs d' = (txs d)(i := map_option (\<lambda>t. t\<lparr>wt_Confirmations := m\<rparr>) (txs d i))" by (rule L5 [rule_format])
  show "wd_set_hash db i h d = Inr d' \<Longrightarrow> locks d' = locks d \<and>
      txs d' = (txs d)(i := map_option (\<lambda>t. t\<lparr>wt_TxHash := h\<rparr>) (txs d i))" by (rule L6 [rule_format])
  show "wd_create_lock db l d = Inr d' \<Longrightarrow> locks d (fl_ID l) = None \<and> locks d' = (locks d)(fl_ID l \<mapsto> l) \<and> txs d' = txs d"
    by (rule L7 [rule_format])
  show "wd_delete_lock db i d = Inr d' \<Longrightarrow> locks d' = (locks d)(i := None) \<and> txs d' = txs d" by (rule L8 [rule_format])
  show "txs (snd (wd_cleanup db now d)) = txs d" using L9 by blast
  show "locks d i = Some l \<Longrightarrow> fl_Expires l = None \<Longrightarrow> locks (snd (wd_cleanup db now d)) i = Some l" using L9 by blast
  show "wd_cache db = Some f \<Longrightarrow> txs (f t d) = txs d \<and> locks (f t d) = locks d" by (rule conjunct1 [OF R9, rule_format])
  show "wd_publish db = Some g \<Longrightarrow> txs (g e d) = txs d \<and> locks (g e d) = locks d" by (rule conjunct2 [OF R9, rule_format])
qed

section \<open>How a call changes the tables\<close>

text \<open>
  \<open>changes R K\<close>: no row comes or goes, each status moves along \<open>R\<close>, and only locks under the IDs \<open>K\<close>
  are deleted.
\<close>

definition changes :: "(string \<Rightarrow> string \<Rightarrow> bool) \<Rightarrow> ('d \<Rightarrow> uuid \<rightharpoonup> wallet_tx) \<Rightarrow> ('d \<Rightarrow> uuid \<rightharpoonup> fund_lock) \<Rightarrow> 'd \<Rightarrow> 'd \<Rightarrow> bool" where
  "changes R txs locks d d' \<longleftrightarrow> dom (txs d') = dom (txs d) \<and>
     (\<forall>i t t'. txs d i = Some t \<longrightarrow> txs d' i = Some t' \<longrightarrow> R\<^sup>*\<^sup>* (wt_Status t) (wt_Status t')) \<and>
     (\<forall>i l. locks d i = Some l \<longrightarrow> i \<notin> dom (txs d) \<longrightarrow> fl_Expires l = None \<longrightarrow> locks d' i = Some l)"

lemma changes_refl [simp]: "changes R txs locks d d"
  by (auto simp: changes_def)

lemma changes_trans:
  assumes "changes R txs locks d d1" "changes R txs locks d1 d2" shows "changes R txs locks d d2"
proof -
  have dom: "dom (txs d1) = dom (txs d)" "dom (txs d2) = dom (txs d)" using assms by (auto simp: changes_def)
  have "R\<^sup>*\<^sup>* (wt_Status t) (wt_Status t'')" if t: "txs d i = Some t" "txs d2 i = Some t''" for i t t''
  proof -
    obtain t' where "txs d1 i = Some t'" using t(1) dom(1) by blast
    then show ?thesis using assms t unfolding changes_def by (meson rtranclp_trans)
  qed
  moreover have "locks d2 i = Some l" if "locks d i = Some l" "i \<notin> dom (txs d)" "fl_Expires l = None" for i l
    using assms that dom(1) unfolding changes_def by metis
  ultimately show ?thesis using dom(2) by (auto simp: changes_def)
qed

lemma changes_mono:
  assumes "changes R txs locks d d'" "\<And>s s'. R s s' \<Longrightarrow> S s s'" shows "changes S txs locks d d'"
proof -
  have "R \<le> S" using assms(2) by auto
  then have "R\<^sup>*\<^sup>* a b \<Longrightarrow> S\<^sup>*\<^sup>* a b" for a b by (rule rtranclp_mono [THEN predicate2D])
  then show ?thesis using assms(1) unfolding changes_def by blast
qed

lemma changes_tables: "txs d' = txs d \<Longrightarrow> locks d' = locks d \<Longrightarrow> changes R txs locks d d'"
  by (auto simp: changes_def)

lemma changes_column:
  assumes "locks d' = locks d" "txs d' = (txs d)(i := map_option f (txs d i))" "\<And>t. wt_Status (f t) = wt_Status t"
  shows "changes R txs locks d d'"
  using assms by (auto simp: changes_def split: if_splits)


section \<open>A transition\<close>

lemma release_lock_effect:
  assumes "wallet_laws db txs locks"
  shows "txs (release_lock db t d) = txs d \<and> (locks (release_lock db t d) = locks d \<or>
    wt_Direction t = ''withdrawal'' \<and> locks (release_lock db t d) = (locks d)(wt_ID t := None))"
proof (cases "wd_delete_lock db (wt_ID t) d")
  case (Inr d')
  then show ?thesis using walletD(8) [OF assms Inr] by (auto simp: release_lock_def ReleaseFundLock_def)
qed (auto simp: release_lock_def ReleaseFundLock_def)

lemma handle_state_effect:
  assumes "wallet_laws db txs locks"
  shows "txs (handle_state db s t d) = txs d \<and> (locks (handle_state db s t d) = locks d \<or>
    wt_Direction t = ''withdrawal'' \<and> s \<in> {''failed'', ''rejected'', ''cancelled''} \<and>
    locks (handle_state db s t d) = (locks d)(wt_ID t := None))"
  using release_lock_effect [OF assms, of t d] by (auto simp: handle_state_def)

lemma notify_effect:
  assumes "wallet_laws db txs locks"
  shows "txs (case wd_cache db of Some f \<Rightarrow> f t d | None \<Rightarrow> d) = txs d \<and> locks (case wd_cache db of Some f \<Rightarrow> f t d | None \<Rightarrow> d) = locks d"
    and "txs (case wd_publish db of Some f \<Rightarrow> f e d | None \<Rightarrow> d) = txs d \<and> locks (case wd_publish db of Some f \<Rightarrow> f e d | None \<Rightarrow> d) = locks d"
  using walletD(11,12) [OF assms] by (auto split: option.splits)

lemma TransitionTo_error:
  "TransitionTo db n clock i s md d = ((r, Some e), d') \<Longrightarrow> d' = d \<and> tr_Error r = Some e \<and> \<not> tr_Success r"
  by (auto simp: TransitionTo_def executeTransition_def failed_result_def Let_def split: sum.splits if_splits)

lemma executeTransition_effect:
  assumes laws: "wallet_laws db txs locks" and "executeTransition db n clock t s tr d = ((r, None), d')"
  shows "(\<exists>d1. wd_set_status db (wt_ID t) s (clock 0) d = Inr d1 \<and> txs d' = txs d1 \<and>
      (locks d' = locks d1 \<or> wt_Direction t = ''withdrawal'' \<and> s \<in> {''failed'', ''rejected'', ''cancelled''} \<and>
        locks d' = (locks d1)(wt_ID t := None))) \<and>
    tr_Success r \<and> tr_FromState r = st_FromState tr \<and> tr_ToState r = s"
proof (cases "wd_set_status db (wt_ID t) s (clock 0) d")
  case (Inl e)
  then show ?thesis using assms(2) by (simp add: executeTransition_def wr_UpdateTransaction_def)
next
  case (Inr d1)
  define t1 where "t1 = t\<lparr>wt_Status := s, wt_UpdatedAt := clock 1\<rparr>"
  define d2 where "d2 = (case wd_cache db of Some f \<Rightarrow> f t1 d1 | None \<Rightarrow> d1)"
  define d3 where "d3 = (case wd_publish db of Some f \<Rightarrow> f (state_event n (clock 2) t1 s tr) d2 | None \<Rightarrow> d2)"
  have d': "d' = handle_state db s t1 d3" and r: "tr_Success r" "tr_FromState r = st_FromState tr" "tr_ToState r = s"
    using assms(2) Inr unfolding executeTransition_def wr_UpdateTransaction_def Let_def t1_def [symmetric] d3_def d2_def
    by auto
  have "txs d3 = txs d1 \<and> locks d3 = locks d1" unfolding d3_def d2_def using notify_effect [OF laws] by simp
  moreover have "wt_ID t1 = wt_ID t" "wt_Direction t1 = wt_Direction t" by (simp_all add: t1_def)
  ultimately show ?thesis using handle_state_effect [OF laws, of s t1 d3] Inr r unfolding d' by auto
qed

lemma TransitionTo_effect:
  assumes laws: "wallet_laws db txs locks" and "TransitionTo db n clock i s md d = ((r, None), d')"
  shows "\<exists>t. txs d i = Some t \<and> wt_ID t = i \<and> IsValidTransition (wt_Status t) s \<and>
    txs d' = (txs d)(i \<mapsto> t\<lparr>wt_Status := s, wt_UpdatedAt := clock 1\<rparr>) \<and>
    (locks d' = locks d \<or> wt_Direction t = ''withdrawal'' \<and> s \<in> {''failed'', ''rejected'', ''cancelled''} \<and> locks d' = (locks d)(i := None)) \<and>
    tr_Success r \<and> tr_FromState r = wt_Status t \<and> tr_ToState r = s"
proof -
  obtain t where t: "wd_find db i d = Inr t" "IsValidTransition (wt_Status t) s"
    and ex: "executeTransition db n (\<lambda>n. clock (Suc n)) t s \<lparr>st_TxID = i, st_FromState = wt_Status t, st_ToState = s,
      st_Timestamp = clock 0, st_Metadata = md\<rparr> d = ((r, None), d')"
    using assms(2) by (auto simp: TransitionTo_def wr_GetTransaction_def Let_def split: sum.splits if_splits)
  note ti = walletD(1) [OF laws t(1)]
  obtain d1 where d1: "wd_set_status db i s (clock 1) d = Inr d1" "txs d' = txs d1"
    "locks d' = locks d1 \<or> wt_Direction t = ''withdrawal'' \<and> s \<in> {''failed'', ''rejected'', ''cancelled''} \<and> locks d' = (locks d1)(i := None)"
    "tr_Success r" "tr_FromState r = wt_Status t" "tr_ToState r = s"
    using executeTransition_effect [OF laws ex] ti by auto
  then show ?thesis using walletD(4) [OF laws d1(1)] ti t(2) by (intro exI [of _ t]) auto
qed

lemma TransitionTo_changes:
  assumes "wallet_laws db txs locks" and "TransitionTo db n clock i s md d = ((r, err), d')"
  shows "changes (\<lambda>a b. IsValidTransition a b \<and> b = s) txs locks d d'"
proof (cases err)
  case None
  then obtain t where t: "txs d i = Some t" "IsValidTransition (wt_Status t) s"
    "txs d' = (txs d)(i \<mapsto> t\<lparr>wt_Status := s, wt_UpdatedAt := clock 1\<rparr>)" "locks d' = locks d \<or> locks d' = (locks d)(i := None)"
    using TransitionTo_effect [OF assms(1) assms(2) [unfolded None]] by blast
  then show ?thesis by (auto simp: changes_def split: if_splits)
next
  case (Some e)
  then show ?thesis using TransitionTo_error [OF assms(2) [unfolded Some]] by simp
qed


section \<open>The workers\<close>

text \<open>The transitions a custody report can bring about: those the machine allows among those a worker asks for.\<close>

definition custody_moves :: "string \<Rightarrow> string \<Rightarrow> bool" where
  "custody_moves a b \<longleftrightarrow> (a = ''pending'' \<and> (b = ''failed'' \<or> b = ''rejected'')) \<or>
     (a = ''processing'' \<and> (b = ''failed'' \<or> b = ''completed''))"

lemma IsValidTransition_iff:
  "IsValidTransition a b \<longleftrightarrow> a = ''pending'' \<and> b \<in> {''processing'', ''failed'', ''cancelled'', ''rejected''} \<or>
     a = ''processing'' \<and> b \<in> {''completed'', ''failed'', ''cancelled''}"
  by (auto simp: IsValidTransition_def validTransitions_def split: option.splits if_splits)

lemma polled_target_range:
  "polled_target r s c q \<in> {[], ''pending'', ''confirming'', ''confirmed'', ''completed'', ''rejected'', ''failed''}"
  by (simp add: polled_target_def confirmed_target_def)

lemma webhook_target_range:
  "webhook_target r s c q \<in> {[], ''confirming'', ''confirmed'', ''completed'', ''rejected'', ''failed''}"
  by (simp add: webhook_target_def confirmed_target_def)

lemma custody_transition:
  assumes "wallet_laws db txs locks" and "TransitionTo db n clock i s md d = ((r, err), d')"
    and "s \<in> {[], ''pending'', ''confirming'', ''confirmed'', ''completed'', ''rejected'', ''failed''}"
  shows "changes custody_moves txs locks d d'"
  by (rule changes_mono [OF TransitionTo_changes [OF assms(1,2)]])
    (use assms(3) in \<open>auto simp: IsValidTransition_iff custody_moves_def\<close>)

lemma checkStateTransition_changes:
  assumes "wallet_laws db txs locks"
  shows "changes custody_moves txs locks d (snd (checkStateTransition db n clock t fb d))"
  using polled_target_range [of "ct_Status fb" "wt_Status t" "wt_Confirmations t" "wt_RequiredConf t"]
  by (auto simp: checkStateTransition_def Let_def split: prod.splits option.splits intro: custody_transition [OF assms])

lemma processWebhookStateTransition_changes:
  assumes "wallet_laws db txs locks"
  shows "changes custody_moves txs locks d (snd (processWebhookStateTransition db n clock t data d))"
  using webhook_target_range [of "cd_Status data" "wt_Status t" "cd_NumOfConfirmations data" "wt_RequiredConf t"]
  by (auto simp: processWebhookStateTransition_def Let_def split: prod.splits option.splits intro: custody_transition [OF assms])

lemma confirmations_changes:
  assumes "wallet_laws db txs locks" "UpdateTransactionConfirmations db i m d = Inr d'"
  shows "changes R txs locks d d'"
  using walletD(5) [OF assms(1) assms(2) [unfolded UpdateTransactionConfirmations_def]]
  by (intro changes_column [where f = "\<lambda>t. t\<lparr>wt_Confirmations := m\<rparr>"]) auto

lemma hash_changes:
  assumes "wallet_laws db txs locks"
  shows "changes R txs locks d (case UpdateTransactionHash db i h d of Inl e \<Rightarrow> d | Inr d' \<Rightarrow> d')"
proof (cases "UpdateTransactionHash db i h d")
  case (Inr d')
  then show ?thesis using walletD(6) [OF assms Inr [unfolded UpdateTransactionHash_def]]
    by (auto intro!: changes_column [where f = "\<lambda>t. t\<lparr>wt_TxHash := h\<rparr>"])
qed simp


text \<open>The two updates of a report, and what follows them.\<close>

lemma report_changes:
  assumes laws: "wallet_laws db txs locks"
    and m: "(if q then UpdateTransactionConfirmations db i m d else Inr d) = Inr d1"
    and f: "\<And>d. changes custody_moves txs locks d (F d)"
  shows "changes custody_moves txs locks d
    (F (if h then (case UpdateTransactionHash db j x d1 of Inl e \<Rightarrow> d1 | Inr d' \<Rightarrow> d') else d1))"
proof (rule changes_trans [OF _ f], rule changes_trans)
  show "changes custody_moves txs locks d d1" using m confirmations_changes [OF laws] by (auto split: if_splits)
  show "changes custody_moves txs locks d1 (if h then (case UpdateTransactionHash db j x d1 of Inl e \<Rightarrow> d1 | Inr d' \<Rightarrow> d') else d1)"
    using hash_changes [OF laws] by simp
qed

lemma processTransaction_changes:
  assumes "wallet_laws db txs locks"
  shows "changes custody_moves txs locks d (snd (processTransaction db fireblocks n clock t d))"
proof (cases "wt_FireblocksID t = []")
  case False
  show ?thesis
  proof (cases "fireblocks (wt_FireblocksID t) d")
    case fb: (Inr fb)
    show ?thesis
    proof (cases "if ct_NumOfConfirmations fb \<noteq> wt_Confirmations t
        then UpdateTransactionConfirmations db (wt_ID t) (ct_NumOfConfirmations fb) d else Inr d")
      case (Inr d1)
      show ?thesis
        using report_changes [OF assms Inr, of "\<lambda>d. snd (checkStateTransition db n clock _ fb d)"] False fb Inr
          checkStateTransition_changes [OF assms]
        unfolding processTransaction_def Let_def by simp
    qed (use False fb in \<open>simp add: processTransaction_def\<close>)
  qed (use False in \<open>simp add: processTransaction_def\<close>)
qed (simp add: processTransaction_def)

lemma process_each_changes:
  assumes "wallet_laws db txs locks"
  shows "changes custody_moves txs locks d (process_each db fireblocks ids clocks k ts d)"
proof (induction ts arbitrary: k d)
  case (Cons t ts)
  show ?case unfolding process_each.simps by (rule changes_trans [OF processTransaction_changes [OF assms] Cons.IH])
qed simp

lemma processConfirmations_changes:
  assumes "wallet_laws db txs locks"
  shows "changes custody_moves txs locks d (snd (processConfirmations db fireblocks ids clocks d))"
  by (auto simp: processConfirmations_def process_each_changes [OF assms] split: sum.splits)

lemma processWebhook_changes:
  assumes "wallet_laws db txs locks"
  shows "changes custody_moves txs locks d (snd (processWebhook db vault n clock w d))"
proof -
  have "changes custody_moves txs locks d (snd (processTransactionUpdate db n clock data d))" for data
  proof (cases "GetTransactionByFireblocksID db (cd_ID data) d")
    case t: (Inr t)
    show ?thesis
    proof (cases "if cd_NumOfConfirmations data \<noteq> wt_Confirmations t
        then UpdateTransactionConfirmations db (wt_ID t) (cd_NumOfConfirmations data) d else Inr d")
      case (Inr d1)
      show ?thesis
        using report_changes [OF assms Inr, of "\<lambda>d. snd (processWebhookStateTransition db n clock t data d)"] t Inr
          processWebhookStateTransition_changes [OF assms]
        unfolding processTransactionUpdate_def Let_def by simp
    qed (use t in \<open>simp add: processTransactionUpdate_def\<close>)
  qed (simp add: processTransactionUpdate_def)
  then show ?thesis by (auto simp: processWebhook_def processTransactionCreated_def split: sum.splits)
qed

lemma performCleanup_changes:
  assumes "wallet_laws db txs locks"
  shows "changes R txs locks d (snd (performCleanup db now d))"
  using walletD(9,10) [OF assms] by (auto simp: changes_def performCleanup_def CleanupExpiredLocks_def)

lemma LockFunds_changes:
  assumes "wallet_laws db txs locks"
  shows "changes R txs locks d (snd (fl_LockFunds db ustr n now u asset amount reason ref d))"
proof (cases "wd_create_lock db \<lparr>fl_ID = n, fl_UserID = u, fl_Asset = asset, fl_Amount = amount, fl_Reason = reason,
    fl_TxRef = ref, fl_Expires = None, fl_CreatedAt = now\<rparr> d")
  case (Inr d')
  then show ?thesis using walletD(7) [OF assms Inr] by (auto simp: fl_LockFunds_def CreateLock_def CreateFundLock_def Let_def changes_def)
qed (simp add: fl_LockFunds_def CreateLock_def CreateFundLock_def Let_def)

section \<open>Histories\<close>

text \<open>What the custody workers do, and every call that changes transactions or locks.\<close>

inductive custody_step :: "('d \<Rightarrow> uuid \<rightharpoonup> wallet_tx) \<Rightarrow> ('d \<Rightarrow> uuid \<rightharpoonup> fund_lock) \<Rightarrow> 'd \<Rightarrow> 'd \<Rightarrow> bool" for txs locks where
  poll: "wallet_laws db txs locks \<Longrightarrow> custody_step txs locks d (snd (processConfirmations db fireblocks ids clocks d))"
| report: "wallet_laws db txs locks \<Longrightarrow> custody_step txs locks d (snd (processWebhook db vault n clock w d))"
| cleanup: "wallet_laws db txs locks \<Longrightarrow> custody_step txs locks d (snd (performCleanup db now d))"

inductive wallet_step :: "('d \<Rightarrow> uuid \<rightharpoonup> wallet_tx) \<Rightarrow> ('d \<Rightarrow> uuid \<rightharpoonup> fund_lock) \<Rightarrow> 'd \<Rightarrow> 'd \<Rightarrow> bool" for txs locks where
  custody: "custody_step txs locks d d' \<Longrightarrow> wallet_step txs locks d d'"
| transition: "wallet_laws db txs locks \<Longrightarrow> wallet_step txs locks d (snd (TransitionTo db n clock i s md d))"
| lock: "wallet_laws db txs locks \<Longrightarrow> wallet_step txs locks d (snd (fl_LockFunds db ustr n now u asset amount reason ref d))"
| release: "wallet_laws db txs locks \<Longrightarrow> fl_ReleaseLock db u asset amount reason ref d = Returns (r, d') \<Longrightarrow> wallet_step txs locks d d'"

lemma custody_step_changes: "custody_step txs locks d d' \<Longrightarrow> changes custody_moves txs locks d d'"
  by (induction rule: custody_step.induct) (auto intro: processConfirmations_changes processWebhook_changes performCleanup_changes)

lemma custody_history_changes: "(custody_step txs locks)\<^sup>*\<^sup>* d d' \<Longrightarrow> changes custody_moves txs locks d d'"
  by (induction rule: rtranclp_induct) (auto intro: changes_trans custody_step_changes)

lemma wallet_step_changes: "wallet_step txs locks d d' \<Longrightarrow> changes IsValidTransition txs locks d d'"
proof (induction rule: wallet_step.induct)
  case (custody d d')
  show ?case by (rule changes_mono [OF custody_step_changes [OF custody]]) (auto simp: custody_moves_def IsValidTransition_iff)
next
  case (transition db d n clock i s md)
  obtain r err d' where t: "TransitionTo db n clock i s md d = ((r, err), d')" by (metis surj_pair)
  show ?case unfolding t snd_conv by (rule changes_mono [OF TransitionTo_changes [OF transition t]]) simp
next
  case (release db u asset amount reason ref d r d')
  then show ?case by (simp add: fl_ReleaseLock_def GetFundLockByTxRef_def)
qed (rule LockFunds_changes)

lemma wallet_history_changes: "(wallet_step txs locks)\<^sup>*\<^sup>* d d' \<Longrightarrow> changes IsValidTransition txs locks d d'"
  by (induction rule: rtranclp_induct) (auto intro: changes_trans wallet_step_changes)

lemma custody_moves_star:
  "custody_moves\<^sup>*\<^sup>* a b \<Longrightarrow> a = b \<or> a = ''pending'' \<and> b \<in> {''failed'', ''rejected''} \<or> a = ''processing'' \<and> b \<in> {''failed'', ''completed''}"
  by (induction rule: rtranclp_induct) (auto simp: custody_moves_def)



section \<open>A database for the witnesses\<close>

text \<open>Two tables as maps, with the rows of a search among the IDs 1 to 3; no cache and no event bus.\<close>

type_synonym mem_wallet = "(uuid \<rightharpoonup> wallet_tx) \<times> (uuid \<rightharpoonup> fund_lock)"

definition mem_rows :: "mem_wallet \<Rightarrow> wallet_tx list" where
  "mem_rows d = List.map_filter (\<lambda>i. case fst d i of Some t \<Rightarrow> if wt_ID t = i then Some t else None | None \<Rightarrow> None) [1, 2, 3]"

definition mem_wallet_db :: "mem_wallet wallet_db" where
  "mem_wallet_db = \<lparr>
     wd_find = (\<lambda>i d. case fst d i of Some t \<Rightarrow> if wt_ID t = i then Inr t else Inl ''record not found'' | None \<Rightarrow> Inl ''record not found''),
     wd_find_fireblocks = (\<lambda>s d. case find (\<lambda>t. wt_FireblocksID t = s) (mem_rows d) of Some t \<Rightarrow> Inr t | None \<Rightarrow> Inl ''record not found''),
     wd_find_status = (\<lambda>ss n d. Inr (take n (filter (\<lambda>t. wt_Status t \<in> set ss) (mem_rows d)))),
     wd_set_status = (\<lambda>i s now d. Inr ((fst d)(i := map_option (\<lambda>t. t\<lparr>wt_Status := s, wt_UpdatedAt := now\<rparr>) (fst d i)), snd d)),
     wd_set_confirmations = (\<lambda>i n d. Inr ((fst d)(i := map_option (\<lambda>t. t\<lparr>wt_Confirmations := n\<rparr>) (fst d i)), snd d)),
     wd_set_hash = (\<lambda>i h d. Inr ((fst d)(i := map_option (\<lambda>t. t\<lparr>wt_TxHash := h\<rparr>) (fst d i)), snd d)),
     wd_create_lock = (\<lambda>l d. case snd d (fl_ID l) of None \<Rightarrow> Inr (fst d, (snd d)(fl_ID l \<mapsto> l)) | Some l' \<Rightarrow> Inl ''duplicate key''),
     wd_delete_lock = (\<lambda>i d. Inr (fst d, (snd d)(i := None))),
     wd_cleanup = (\<lambda>now d. ((0, Some ''no such column''), d)), wd_cache = None, wd_publish = None\<rparr>"

lemma mem_rows_stored: "t \<in> set (mem_rows d) \<Longrightarrow> fst d (wt_ID t) = Some t"
  by (auto simp: mem_rows_def List.map_filter_def split: option.splits if_splits)

lemma mem_wallet_laws: "wallet_laws mem_wallet_db fst snd"
proof -
  have f: "fst d (wt_ID t) = Some t" if "find P (mem_rows d) = Some t" for P t and d :: mem_wallet
    using that mem_rows_stored [of t d] by (auto simp: find_Some_iff)
  show ?thesis unfolding wallet_laws_def mem_wallet_db_def
    using f mem_rows_stored by (auto dest!: in_set_takeD split: option.splits if_splits)
qed

definition wallet_row :: "uuid \<Rightarrow> string \<Rightarrow> string \<Rightarrow> wallet_tx" where
  "wallet_row i direction status = \<lparr>wt_ID = i, wt_UserID = 9, wt_Asset = ''BTC'', wt_Amount = 2, wt_Direction = direction,
     wt_Status = status, wt_FireblocksID = ''fb'', wt_TxHash = [], wt_FromAddress = [], wt_ToAddress = [], wt_Network = ''BTC'',
     wt_Confirmations = 0, wt_RequiredConf = 3, wt_Locked = False, wt_ComplianceCheck = [], wt_ErrorMsg = [],
     wt_Metadata = Map.empty, wt_CreatedAt = 0, wt_UpdatedAt = 0\<rparr>"

definition one_row :: "string \<Rightarrow> string \<Rightarrow> mem_wallet" where
  "one_row direction status = ([1 \<mapsto> wallet_row 1 direction status], Map.empty)"

section \<open>Properties\<close>

text \<open>
  custody reports never complete a transaction. Whatever the custodian reports, by polling or by
  webhook, a transaction that is not in the state \<open>processing\<close>, which no worker brings about, stays in
  its state, or is failed or rejected when it was pending: the steps from pending to confirming, on to
  confirmed and to completed that the workers ask for are all refused by the state machine.
\<close>

theorem custody_never_completes:
  assumes "(custody_step txs locks)\<^sup>*\<^sup>* d0 d"
    and "txs d0 i = Some t" and "wt_Status t \<noteq> ''processing''"
  shows "\<exists>t'. txs d i = Some t' \<and>
    (wt_Status t' = wt_Status t \<or> wt_Status t = ''pending'' \<and> (wt_Status t' = ''failed'' \<or> wt_Status t' = ''rejected''))"
proof -
  have c: "changes custody_moves txs locks d0 d" by (rule custody_history_changes [OF assms(1)])
  then have "i \<in> dom (txs d)" using assms(2) unfolding changes_def by blast
  then obtain t' where t': "txs d i = Some t'" by blast
  have "custody_moves\<^sup>*\<^sup>* (wt_Status t) (wt_Status t')" using c assms(2) t' unfolding changes_def by blast
  then show ?thesis using custody_moves_star assms(3) t' by fastforce
qed

text \<open>The custodian reports that the deposit 1 is completed.\<close>

definition all_done :: "string \<Rightarrow> mem_wallet \<Rightarrow> string + custody_tx" where
  "all_done s d = Inr \<lparr>ct_Status = ''COMPLETED'', ct_SubStatus = [], ct_TxHash = ''ab'', ct_NumOfConfirmations = 7\<rparr>"

theorem custody_never_completes_witness:
  "\<exists>t'. fst (snd (processConfirmations mem_wallet_db all_done id (\<lambda>k. int) (one_row ''deposit'' ''pending''))) 1 = Some t' \<and>
     wt_Confirmations t' = 7 \<and> wt_TxHash t' = ''ab'' \<and> wt_Status t' \<noteq> ''completed''"
proof -
  let ?d = "snd (processConfirmations mem_wallet_db all_done id (\<lambda>k. int) (one_row ''deposit'' ''pending''))"
  have "custody_step fst snd (one_row ''deposit'' ''pending'') ?d" by (rule custody_step.poll [OF mem_wallet_laws])
  then have h: "(custody_step fst snd)\<^sup>*\<^sup>* (one_row ''deposit'' ''pending'') ?d" by simp
  have r: "fst (one_row ''deposit'' ''pending'') 1 = Some (wallet_row 1 ''deposit'' ''pending'')" by (simp add: one_row_def)
  have s: "wt_Status (wallet_row 1 ''deposit'' ''pending'') = ''pending''" by (simp add: wallet_row_def)
  obtain t' where t': "fst ?d 1 = Some t'" "wt_Status t' = ''pending'' \<or> wt_Status t' = ''failed'' \<or> wt_Status t' = ''rejected''"
    using custody_never_completes [where txs = fst and locks = snd and i = 1, OF h r] s by auto
  have "wt_Confirmations (the (fst ?d 1)) = 7 \<and> wt_TxHash (the (fst ?d 1)) = ''ab''" by code_simp
  then show ?thesis using t' by auto
qed



text \<open>
  a fund lock is never released. A lock that \<open>LockFunds\<close> took, under a fresh ID that no transaction
  has, survives every history of state transitions (failed, rejected and cancelled withdrawals
  included, which delete the lock under the transaction's own ID), custody reports, cleanups and
  further locks; and \<open>ReleaseLock\<close>, for whatever user, asset, amount and reference, panics.
\<close>

theorem locks_stay:
  assumes "wallet_laws db txs locks"
    and "fl_LockFunds db ustr n now u asset amount reason ref d0 = (Inr s, d1)" and "txs d0 n = None"
    and "(wallet_step txs locks)\<^sup>*\<^sup>* d1 d"
  shows "(\<exists>l. locks d n = Some l \<and> fl_UserID l = u \<and> fl_Asset l = asset \<and> fl_Amount l = amount) \<and>
    fl_ReleaseLock db u' asset' amount' reason' ref' d = Panics"
proof -
  let ?l = "\<lparr>fl_ID = n, fl_UserID = u, fl_Asset = asset, fl_Amount = amount, fl_Reason = reason,
    fl_TxRef = ref, fl_Expires = None, fl_CreatedAt = now\<rparr>"
  have "wd_create_lock db ?l d0 = Inr d1"
    using assms(2) by (auto simp: fl_LockFunds_def CreateLock_def CreateFundLock_def Let_def split: sum.splits)
  then have d1: "locks d1 n = Some ?l" "txs d1 = txs d0" using walletD(7) [OF assms(1)] by fastforce+
  have "locks d n = Some ?l"
    using wallet_history_changes [OF assms(4)] d1 assms(3) unfolding changes_def by (auto simp: domIff)
  then show ?thesis by (simp add: fl_ReleaseLock_def GetFundLockByTxRef_def)
qed

theorem locks_stay_witness:
  "\<exists>d1 d. fl_LockFunds mem_wallet_db show_nat 44 0 9 ''BTC'' 2 ''withdrawal'' ''1'' (one_row ''withdrawal'' ''pending'') = (Inr ''44'', d1) \<and>
     TransitionTo mem_wallet_db 5 int 1 ''failed'' Map.empty d1 = (fst (TransitionTo mem_wallet_db 5 int 1 ''failed'' Map.empty d1), d) \<and>
     wt_Status (the (fst d 1)) = ''failed'' \<and> (\<exists>l. snd d 44 = Some l \<and> fl_Amount l = 2)"
proof -
  let ?r = "fl_LockFunds mem_wallet_db show_nat 44 0 9 ''BTC'' 2 ''withdrawal'' ''1'' (one_row ''withdrawal'' ''pending'')"
  let ?d = "snd (TransitionTo mem_wallet_db 5 int 1 ''failed'' Map.empty (snd ?r))"
  have f: "fst ?r = Inr ''44''" "wt_Status (the (fst ?d 1)) = ''failed''" by code_simp+
  then have r: "?r = (Inr ''44'', snd ?r)" by (metis prod.collapse)
  have "fst (one_row ''withdrawal'' ''pending'') 44 = None" by (simp add: one_row_def)
  moreover have "wallet_step fst snd (snd ?r) ?d" by (rule wallet_step.transition [OF mem_wallet_laws])
  then have "(wallet_step fst snd)\<^sup>*\<^sup>* (snd ?r) ?d" by simp
  ultimately have "\<exists>l. snd ?d 44 = Some l \<and> fl_Amount l = 2" using locks_stay [where txs = fst and locks = snd, OF mem_wallet_laws r] by blast
  then show ?thesis using f(2) r by (intro exI [of _ "snd ?r"] exI [of _ ?d]) simp
qed

end
