(* ===== verification/BalanceManager.thy ===== *)
theory BalanceManager
  imports BookkeeperTheorems
begin

text \<open>
  The balance consistency manager, \<open>internal/trading/consistency/balance_manager.go\<close>: transfers, locks
  and unlocks of funds under a mutex per account, approved by consensus, retried, on top of the
  bookkeeper (theory \<open>Bookkeeper\<close>). The consensus coordinator is a parameter, \<open>None\<close> when it is nil.
  The statement that adds to the column \<open>available\<close> and the conversion to a float are those of
  \<open>'d balance_db\<close>. \<open>held\<close> are the keys of the mutexes that somebody holds: a call that needs one
  waits, and for ever when the call itself holds it.
\<close>

section \<open>State\<close>

record atomic_operation =
  bo_ID :: string
  bo_Type :: string
  bo_UserID :: string
  bo_Currency :: string
  bo_Amount :: decimal
  bo_FromUserID :: string
  bo_ToUserID :: string
  bo_Reference :: string
  bo_Description :: string
  bo_StartedAt :: time
  bo_CompletedAt :: "time option"
  bo_Status :: string
  bo_Retries :: int
  bo_Error :: string

record balance_metrics =
  bm_TotalOperations :: int
  bm_SuccessfulOperations :: int
  bm_FailedOperations :: int
  bm_RetryCount :: int
  bm_AverageLatency :: duration
  bm_ConsistencyErrors :: int
  bm_ReconciliationRuns :: int

record balance_manager =
  bc_balanceLocks :: "string set"
  bc_activeOperations :: "string \<rightharpoonup> atomic_operation"
  bc_maxRetries :: int
  bc_retryBackoff :: duration
  bc_metrics :: balance_metrics

record 'd balance_db =
  bl_ledger :: "'d ledger_db"
  bl_add_available :: "string \<Rightarrow> string \<Rightarrow> decimal \<Rightarrow> 'd \<Rightarrow> bk_error + 'd"
  bl_float :: "decimal \<Rightarrow> decimal"
  bl_text :: "decimal \<Rightarrow> string"

type_synonym 'd coordinator = "(atomic_operation \<Rightarrow> int \<Rightarrow> 'd \<Rightarrow> bk_error + (bool \<times> string)) option"

definition NewBalanceConsistencyManager :: balance_manager where
  "NewBalanceConsistencyManager = \<lparr>bc_balanceLocks = {}, bc_activeOperations = Map.empty, bc_maxRetries = 3,
     bc_retryBackoff = 100 * millisecond,
     bc_metrics = \<lparr>bm_TotalOperations = 0, bm_SuccessfulOperations = 0, bm_FailedOperations = 0, bm_RetryCount = 0,
       bm_AverageLatency = 0, bm_ConsistencyErrors = 0, bm_ReconciliationRuns = 0\<rparr>\<rparr>"

section \<open>The operations themselves\<close>

text \<open>A database transaction whose deferred rollback undoes everything but a commit; its errors are returned as they are.\<close>

definition plain_tx :: "'d ledger_db \<Rightarrow> ('d \<Rightarrow> bk_error + 'd) \<Rightarrow> 'd \<Rightarrow> bk_error option \<times> 'd" where
  "plain_tx db body d =
     (case ld_begin db d of
        Some e \<Rightarrow> (Some e, d)
      | None \<Rightarrow> (case body d of
                 Inl e \<Rightarrow> (Some e, d)
               | Inr d' \<Rightarrow> (case ld_commit db d d' of Some e \<Rightarrow> (Some e, d) | None \<Rightarrow> (None, d'))))"

definition pending_record :: "uuid \<Rightarrow> uuid \<Rightarrow> string \<Rightarrow> decimal \<Rightarrow> atomic_operation \<Rightarrow> time \<Rightarrow> bk_txn" where
  "pending_record newID userID typ amount op now = \<lparr>bt_ID = newID, bt_UserID = userID, bt_Type = typ, bt_Amount = amount,
     bt_Currency = bo_Currency op, bt_Status = ''completed'', bt_Reference = bo_Reference op,
     bt_Description = bo_Description op, bt_CreatedAt = now, bt_UpdatedAt = now, bt_CompletedAt = None\<rparr>"

definition executeTransfer :: "'d balance_db \<Rightarrow> (nat \<Rightarrow> uuid) \<Rightarrow> time \<Rightarrow> atomic_operation \<Rightarrow> 'd \<Rightarrow> bk_error option \<times> 'd" where
  "executeTransfer bl ids now op =
     (let db = bl_ledger bl; c = bo_Currency op
      in plain_tx db (\<lambda>d.
         andThen (onError (wrap ''failed to lock from account'') (ld_find_locked db False (bo_FromUserID op) c d)) (\<lambda>fromAccount.
         if ba_Available fromAccount < bo_Amount op
         then Inl (Raw (''insufficient funds: available='' @ bl_text bl (ba_Available fromAccount) @ '', required='' @ bl_text bl (bo_Amount op)))
         else
         andThen (onError (wrap ''failed to lock to account'') (ld_find_locked db False (bo_ToUserID op) c d)) (\<lambda>toAccount.
         andThen (onError (wrap ''failed to debit from account'')
           (bl_add_available bl (bo_FromUserID op) c (- bl_float bl (bo_Amount op)) d)) (\<lambda>d.
         andThen (onError (wrap ''failed to credit to account'')
           (bl_add_available bl (bo_ToUserID op) c (bl_float bl (bo_Amount op)) d)) (\<lambda>d.
         andThen (onError (wrap ''invalid from user ID'') (ld_parse db (bo_FromUserID op))) (\<lambda>fromID.
         andThen (onError (wrap ''invalid to user ID'') (ld_parse db (bo_ToUserID op))) (\<lambda>toID.
         andThen (onError (wrap ''failed to create from transaction'')
           (ld_create_txn db (pending_record (ids 0) fromID ''transfer_out'' (- bo_Amount op) op now) d)) (\<lambda>d.
         onError (wrap ''failed to create to transaction'')
           (ld_create_txn db (pending_record (ids 1) toID ''transfer_in'' (bo_Amount op) op now) d))))))))))"

definition executeLock :: "'d balance_db \<Rightarrow> time \<Rightarrow> atomic_operation \<Rightarrow> 'd \<Rightarrow> bk_error option \<times> 'd" where
  "executeLock bl now op = bk_LockFunds (bl_ledger bl) now (bo_UserID op) (bo_Currency op) (bo_Amount op)"

definition executeUnlock :: "'d balance_db \<Rightarrow> time \<Rightarrow> atomic_operation \<Rightarrow> 'd \<Rightarrow> bk_error option \<times> 'd" where
  "executeUnlock bl now op = bk_UnlockFunds (bl_ledger bl) now (bo_UserID op) (bo_Currency op) (bo_Amount op)"

definition executeOperation :: "'d balance_db \<Rightarrow> (nat \<Rightarrow> uuid) \<Rightarrow> time \<Rightarrow> atomic_operation \<Rightarrow> 'd \<Rightarrow> bk_error option \<times> 'd" where
  "executeOperation bl ids now op d =
     (if bo_Type op = ''transfer'' then executeTransfer bl ids now op d
      else if bo_Type op = ''lock'' then executeLock bl now op d
      else if bo_Type op = ''unlock'' then executeUnlock bl now op d
      else (Some (Raw (''unsupported operation type: '' @ bo_Type op)), d))"

section \<open>Consensus and checks\<close>

definition requiresConsensus :: "atomic_operation \<Rightarrow> bool" where
  "requiresConsensus op \<longleftrightarrow>
     (if bo_Type op = ''transfer'' \<and> bo_FromUserID op \<noteq> bo_ToUserID op then True else 10000 < bo_Amount op)"

definition getOperationPriority :: "atomic_operation \<Rightarrow> int" where
  "getOperationPriority op = (if 100000 < bo_Amount op then 1 else if bo_Type op = ''transfer'' then 2 else 3)"

definition validatePreConditions :: "'d balance_db \<Rightarrow> atomic_operation \<Rightarrow> 'd \<Rightarrow> bk_error option" where
  "validatePreConditions bl op d =
     (if bo_Type op = ''transfer''
      then (case bk_GetAccount (bl_ledger bl) (bo_FromUserID op) (bo_Currency op) d of
              Inl e \<Rightarrow> Some (wrap ''from account not found'' e)
            | Inr fromAccount \<Rightarrow>
                (if ba_Available fromAccount < bo_Amount op then Some (Raw ''insufficient funds in from account'')
                 else case bk_GetAccount (bl_ledger bl) (bo_ToUserID op) (bo_Currency op) d of
                        Inl e \<Rightarrow> Some (wrap ''to account not found'' e) | Inr a \<Rightarrow> None))
      else if bo_Type op = ''lock''
      then (case bk_GetAccount (bl_ledger bl) (bo_UserID op) (bo_Currency op) d of
              Inl e \<Rightarrow> Some (wrap ''account not found'' e)
            | Inr a \<Rightarrow> (if ba_Available a < bo_Amount op then Some (Raw ''insufficient funds to lock'') else None))
      else None)"

definition consensus_error :: "'d coordinator \<Rightarrow> atomic_operation \<Rightarrow> 'd \<Rightarrow> bk_error option" where
  "consensus_error cc op d =
     (case cc of
        Some propose \<Rightarrow>
          (if requiresConsensus op
           then (case propose op (getOperationPriority op) d of
                   Inl e \<Rightarrow> Some (wrap ''consensus proposal failed'' e)
                 | Inr (approved, reason) \<Rightarrow>
                     (if \<not> approved then Some (Raw (''operation rejected by consensus: '' @ reason)) else None))
           else None)
      | None \<Rightarrow> None)"

text \<open>The check after the operation does nothing and never fails.\<close>

definition executeOperationWithConsensus :: "'d balance_db \<Rightarrow> 'd coordinator \<Rightarrow> (nat \<Rightarrow> uuid) \<Rightarrow> time \<Rightarrow> atomic_operation \<Rightarrow>
    'd \<Rightarrow> bk_error option \<times> 'd" where
  "executeOperationWithConsensus bl cc ids now op d =
     (case consensus_error cc op d of
        Some e \<Rightarrow> (Some e, d)
      | None \<Rightarrow>
          (case validatePreConditions bl op d of
             Some e \<Rightarrow> (Some (wrap ''pre-condition validation failed'' e), d)
           | None \<Rightarrow> executeOperation bl ids now op d))"

section \<open>Retries under the mutexes\<close>

definition lock_keys :: "atomic_operation \<Rightarrow> string list" where
  "lock_keys op =
     (if bo_Type op = ''transfer''
      then [bo_FromUserID op @ '':'' @ bo_Currency op, bo_ToUserID op @ '':'' @ bo_Currency op]
      else if bo_Type op = ''lock'' \<or> bo_Type op = ''unlock'' then [bo_UserID op @ '':'' @ bo_Currency op]
      else [])"

text \<open>Strings are compared byte by byte; two keys are sorted by one comparison.\<close>

fun string_less :: "string \<Rightarrow> string \<Rightarrow> bool" where
  "string_less [] [] \<longleftrightarrow> False"
| "string_less [] (y # ys) \<longleftrightarrow> True"
| "string_less (x # xs) [] \<longleftrightarrow> False"
| "string_less (x # xs) (y # ys) \<longleftrightarrow> of_char x < (of_char y :: nat) \<or> x = y \<and> string_less xs ys"

definition getAccountLocks :: "atomic_operation \<Rightarrow> balance_manager \<Rightarrow> string list \<times> balance_manager" where
  "getAccountLocks op bc =
     (let keys = (case lock_keys op of [a, b] \<Rightarrow> (if string_less b a then [b, a] else [a, b]) | ks \<Rightarrow> ks)
      in (keys, bc\<lparr>bc_balanceLocks := bc_balanceLocks bc \<union> set keys\<rparr>))"

text \<open>Taking mutexes one after the other, \<open>None\<close> when one is held.\<close>

fun acquire_all :: "string list \<Rightarrow> string set \<Rightarrow> string set option" where
  "acquire_all [] held = Some held"
| "acquire_all (k # ks) held = (if k \<in> held then None else acquire_all ks (insert k held))"

text \<open>The loop: \<open>attempt k\<close> is the \<open>k\<close>-th attempt, \<open>n\<close> attempts are left; the number of retries is counted.\<close>

fun attempts :: "(nat \<Rightarrow> 'd \<Rightarrow> bk_error option \<times> 'd) \<Rightarrow> nat \<Rightarrow> nat \<Rightarrow> bk_error option \<Rightarrow> int \<Rightarrow> 'd \<Rightarrow>
    (bk_error option option \<times> int) \<times> 'd" where
  "attempts attempt k 0 err retries d = ((Some err, retries), d)"
| "attempts attempt k (Suc n) err retries d =
     (let retries' = (if 0 < k then retries + 1 else retries)
      in case attempt k d of
           (None, d') \<Rightarrow> ((None, retries'), d')
         | (Some e, d') \<Rightarrow> attempts attempt (Suc k) n (Some e) retries' d')"

definition executeAtomicOperation :: "'d balance_db \<Rightarrow> 'd coordinator \<Rightarrow> (nat \<Rightarrow> nat \<Rightarrow> uuid) \<Rightarrow> (nat \<Rightarrow> time) \<Rightarrow> duration \<Rightarrow>
    atomic_operation \<Rightarrow> string set \<Rightarrow> balance_manager \<times> 'd \<Rightarrow> (bk_error option \<times> (balance_manager \<times> 'd)) outcome" where
  "executeAtomicOperation bl cc ids clock took op held st =
     (let (bc, d) = st;
          bc1 = bc\<lparr>bc_activeOperations := (bc_activeOperations bc)(bo_ID op \<mapsto> op)\<rparr>;
          (keys, bc2) = getAccountLocks op bc1
      in case acquire_all keys held of
           None \<Rightarrow> Blocks
         | Some held' \<Rightarrow>
             (case attempts (\<lambda>k. executeOperationWithConsensus bl cc (ids k) (clock k) op) 0 (nat (bc_maxRetries bc2 + 1)) None 0 d of
                ((result, retries), d') \<Rightarrow>
                  (let m = bc_metrics bc2;
                       m1 = m\<lparr>bm_RetryCount := bm_RetryCount m + retries,
                           bm_TotalOperations := bm_TotalOperations m + 1,
                           bm_AverageLatency := (bm_AverageLatency m + took) div 2\<rparr>;
                       m2 = (if result = None then m1\<lparr>bm_SuccessfulOperations := bm_SuccessfulOperations m1 + 1\<rparr>
                             else m1\<lparr>bm_FailedOperations := bm_FailedOperations m1 + 1\<rparr>);
                       bc3 = bc2\<lparr>bc_metrics := m2, bc_activeOperations := (bc_activeOperations bc2)(bo_ID op := None)\<rparr>
                   in case result of
                        None \<Rightarrow> Returns (None, (bc3, d'))
                      | Some None \<Rightarrow> Panics
                      | Some (Some e) \<Rightarrow>
                          Returns (Some (Wrapped (''operation failed after '' @ show_int (bc_maxRetries bc2 + 1) @ '' attempts: '') e ''''), (bc3, d')))))"

definition new_operation :: "string \<Rightarrow> string \<Rightarrow> string \<Rightarrow> string \<Rightarrow> decimal \<Rightarrow> string \<Rightarrow> string \<Rightarrow> string \<Rightarrow> string \<Rightarrow> time \<Rightarrow> atomic_operation" where
  "new_operation opID typ userID currency amount fromUserID toUserID reference description now = \<lparr>bo_ID = opID, bo_Type = typ,
     bo_UserID = userID, bo_Currency = currency, bo_Amount = amount, bo_FromUserID = fromUserID, bo_ToUserID = toUserID,
     bo_Reference = reference, bo_Description = description, bo_StartedAt = now, bo_CompletedAt = None, bo_Status = ''pending'',
     bo_Retries = 0, bo_Error = []\<rparr>"

text \<open>The ID of an operation holds the nanoseconds of a clock reading, \<open>nanos\<close>.\<close>

definition AtomicTransfer :: "'d balance_db \<Rightarrow> 'd coordinator \<Rightarrow> (nat \<Rightarrow> nat \<Rightarrow> uuid) \<Rightarrow> (nat \<Rightarrow> time) \<Rightarrow> duration \<Rightarrow> int \<Rightarrow> time \<Rightarrow>
    string \<Rightarrow> string \<Rightarrow> string \<Rightarrow> decimal \<Rightarrow> string \<Rightarrow> string \<Rightarrow> string set \<Rightarrow> balance_manager \<times> 'd \<Rightarrow>
    (bk_error option \<times> (balance_manager \<times> 'd)) outcome" where
  "AtomicTransfer bl cc ids clock took nanos now fromUserID toUserID currency amount reference description =
     executeAtomicOperation bl cc ids clock took
       (new_operation (''transfer_'' @ show_int nanos) ''transfer'' [] currency amount fromUserID toUserID reference description now)"

definition AtomicLockFunds :: "'d balance_db \<Rightarrow> 'd coordinator \<Rightarrow> (nat \<Rightarrow> nat \<Rightarrow> uuid) \<Rightarrow> (nat \<Rightarrow> time) \<Rightarrow> duration \<Rightarrow> int \<Rightarrow> time \<Rightarrow>
    string \<Rightarrow> string \<Rightarrow> decimal \<Rightarrow> string \<Rightarrow> string set \<Rightarrow> balance_manager \<times> 'd \<Rightarrow> (bk_error option \<times> (balance_manager \<times> 'd)) outcome" where
  "AtomicLockFunds bl cc ids clock took nanos now userID currency amount reference =
     executeAtomicOperation bl cc ids clock took
       (new_operation (''lock_'' @ show_int nanos) ''lock'' userID currency amount [] [] reference (''Lock funds for '' @ reference) now)"

definition AtomicUnlockFunds :: "'d balance_db \<Rightarrow> 'd coordinator \<Rightarrow> (nat \<Rightarrow> nat \<Rightarrow> uuid) \<Rightarrow> (nat \<Rightarrow> time) \<Rightarrow> duration \<Rightarrow> int \<Rightarrow> time \<Rightarrow>
    string \<Rightarrow> string \<Rightarrow> decimal \<Rightarrow> string \<Rightarrow> string set \<Rightarrow> balance_manager \<times> 'd \<Rightarrow> (bk_error option \<times> (balance_manager \<times> 'd)) outcome" where
  "AtomicUnlockFunds bl cc ids clock took nanos now userID currency amount reference =
     executeAtomicOperation bl cc ids clock took
       (new_operation (''unlock_'' @ show_int nanos) ''unlock'' userID currency amount [] [] reference (''Unlock funds for '' @ reference) now)"

section \<open>The other entry points\<close>

text \<open>\<open>ExecuteAtomicTransfer\<close> tracks an operation, executes nothing and returns no error.\<close>

record balance_transfer =
  bf_FromUserID :: string
  bf_ToUserID :: string
  bf_Currency :: string
  bf_Amount :: decimal
  bf_Reference :: string

definition executeTransferOperation :: "atomic_operation \<Rightarrow> balance_transfer \<Rightarrow> 'd \<Rightarrow> bk_error option \<times> 'd" where
  "executeTransferOperation op transfer d = (None, d)"

definition ExecuteAtomicTransfer :: "string \<Rightarrow> time \<Rightarrow> balance_transfer \<Rightarrow> balance_manager \<times> 'd \<Rightarrow> bk_error option \<times> (balance_manager \<times> 'd)" where
  "ExecuteAtomicTransfer newID now transfer st =
     (let (bc, d) = st;
          op = new_operation newID ''transfer'' (bf_FromUserID transfer) (bf_Currency transfer) (bf_Amount transfer) [] [] [] [] now;
          bc1 = bc\<lparr>bc_activeOperations := (bc_activeOperations bc)(bo_ID op \<mapsto> op)\<rparr>;
          (err, d') = executeTransferOperation op transfer d
      in (err, (bc1\<lparr>bc_activeOperations := (bc_activeOperations bc1)(bo_ID op := None)\<rparr>, d')))"

definition performReconciliation :: "balance_manager \<Rightarrow> balance_manager" where
  "performReconciliation bc =
     bc\<lparr>bc_metrics := (bc_metrics bc)\<lparr>bm_ReconciliationRuns := bm_ReconciliationRuns (bc_metrics bc) + 1\<rparr>\<rparr>"

definition GetActiveLockCount :: "balance_manager \<Rightarrow> nat" where
  "GetActiveLockCount bc = card (bc_balanceLocks bc)"

definition GetBalance :: "'d balance_db \<Rightarrow> string \<Rightarrow> string \<Rightarrow> 'd \<Rightarrow> bk_error + decimal" where
  "GetBalance bl userID currency d =
     (case bk_GetAccount (bl_ledger bl) userID currency d of Inl e \<Rightarrow> Inl e | Inr a \<Rightarrow> Inr (bl_float bl (ba_Available a)))"

end
