(* ===== verification/BalanceTheorems.thy ===== *)
theory BalanceTheorems
  imports BalanceManager
begin

text \<open>
  What the balance consistency manager adds to the bookkeeper: its attempts keep the contract
  \<open>undone_attempts\<close>, so an operation that fails after all its retries has changed nothing, and one that
  succeeds has had its effect once; and where its mutexes and its transfers go wrong.
\<close>

lemma plain_tx_Some: "plain_tx db body d = (Some e, d') \<Longrightarrow> d' = d"
  by (auto simp: plain_tx_def split: option.splits sum.splits)

lemma plain_tx_None: "plain_tx db body d = (None, d') \<Longrightarrow> body d = Inr d'"
  by (auto simp: plain_tx_def split: option.splits sum.splits)

lemma executeOperation_Some: "executeOperation bl ids now op d = (Some e, d') \<Longrightarrow> d' = d"
  by (auto simp: executeOperation_def executeTransfer_def executeLock_def executeUnlock_def bk_LockFunds_def bk_UnlockFunds_def Let_def
      dest: plain_tx_Some in_tx_Some split: if_splits)

interpretation balance: undone_attempts "\<lambda>k. executeOperationWithConsensus bl cc (ids k) (clock k) op" for bl cc ids clock op
  by unfold_locales (auto simp: executeOperationWithConsensus_def dest: executeOperation_Some split: option.splits)

context undone_attempts
begin

lemma attempts_None:
  "attempts run a n err r d = ((None, r'), d') \<longleftrightarrow>
     (\<exists>k<n. (\<forall>i<k. \<exists>e. run (a + i) d = (Some e, d)) \<and> run (a + k) d = (None, d') \<and>
        r' = r + int (if a = 0 then k else k + 1))"
proof (induction n arbitrary: a err r)
  case (Suc n)
  let ?P = "\<lambda>a r k. (\<forall>i<k. \<exists>e. run (a + i) d = (Some e, d)) \<and> run (a + k) d = (None, d') \<and>
     r' = r + int (if a = 0 then k else k + 1)"
  obtain q d1 where q: "run a d = (q, d1)" by (cases "run a d")
  show ?case
  proof (cases q)
    case None
    have z: "?P a r k \<longleftrightarrow> k = 0 \<and> d1 = d' \<and> r' = (if 0 < a then r + 1 else r)" for k
      using q None by (cases k) (auto dest: spec [of _ 0])
    show ?thesis unfolding z using q None by auto
  next
    case (Some e)
    then have d1: "d1 = d" using undone q by blast
    have z: "?P a r k \<longleftrightarrow> (\<exists>j. k = Suc j \<and> ?P (Suc a) (if 0 < a then r + 1 else r) j)" for k
    proof (cases k)
      case 0
      then show ?thesis using q Some by simp
    next
      case (Suc j)
      have "(\<forall>i<k. \<exists>e. run (a + i) d = (Some e, d)) \<longleftrightarrow> (\<forall>i<j. \<exists>e. run (Suc a + i) d = (Some e, d))"
        unfolding Suc All_less_Suc2 using q Some d1 by simp
      then show ?thesis using Suc by auto
    qed
    show ?thesis unfolding z using q Some d1 Suc.IH by (auto simp: Let_def)
  qed
qed simp

lemma attempts_Some: "attempts run a n err r d = ((Some err', r'), d') \<Longrightarrow> d' = d"
proof (induction n arbitrary: a err r)
  case (Suc n)
  obtain q d1 where q: "run a d = (q, d1)" by (cases "run a d")
  show ?case
  proof (cases q)
    case (Some e)
    then have "d1 = d" using undone q by blast
    then show ?thesis using Suc Some q by (simp add: Let_def)
  qed (use Suc.prems q in \<open>simp add: Let_def\<close>)
qed simp

end

section \<open>When a call waits for ever\<close>

lemma acquire_all_None: "acquire_all ks held = None \<longleftrightarrow> (\<exists>k \<in> set ks. k \<in> held) \<or> \<not> distinct ks"
  by (induction ks arbitrary: held) auto

lemma getAccountLocks_keys:
  "fst (getAccountLocks op bc) = ks \<Longrightarrow> set ks = set (lock_keys op) \<and> (distinct ks \<longleftrightarrow> distinct (lock_keys op))"
  by (auto simp: getAccountLocks_def lock_keys_def Let_def split: if_splits)

lemma getAccountLocks_kept:
  "bc_maxRetries (snd (getAccountLocks op bc)) = bc_maxRetries bc" "bc_metrics (snd (getAccountLocks op bc)) = bc_metrics bc"
  "bc_activeOperations (snd (getAccountLocks op bc)) = bc_activeOperations bc"
  by (simp_all add: getAccountLocks_def Let_def)

lemma lock_keys_distinct: "distinct (lock_keys op) \<longleftrightarrow> \<not> (bo_Type op = ''transfer'' \<and> bo_FromUserID op = bo_ToUserID op)"
  by (auto simp: lock_keys_def)

lemma atomic_operation_Blocks:
  "executeAtomicOperation bl cc ids clock took op held st = Blocks \<longleftrightarrow>
     (\<exists>k \<in> set (lock_keys op). k \<in> held) \<or> \<not> distinct (lock_keys op)"
proof -
  obtain bc d where st: "st = (bc, d)" by (cases st)
  let ?b = "bc\<lparr>bc_activeOperations := (bc_activeOperations bc)(bo_ID op \<mapsto> op)\<rparr>"
  obtain keys bc2 where g: "getAccountLocks op ?b = (keys, bc2)" by (cases "getAccountLocks op ?b")
  have "executeAtomicOperation bl cc ids clock took op held st = Blocks \<longleftrightarrow> acquire_all keys held = None"
    unfolding executeAtomicOperation_def st prod.case Let_def g by (auto split: option.splits prod.splits)
  moreover have "set keys = set (lock_keys op)" "distinct keys \<longleftrightarrow> distinct (lock_keys op)"
    using getAccountLocks_keys [of op ?b] g by auto
  ultimately show ?thesis by (simp add: acquire_all_None)
qed

text \<open>
  C22: when an operation never returns. \<open>executeAtomicOperation\<close> blocks exactly when another call holds the
  mutex of one of its accounts or when it is a transfer of a user to himself: the two keys of such a
  transfer are one mutex, which the call locks twice, so an \<open>AtomicTransfer\<close> to oneself hangs for ever, whatever
  the manager and the ledger are.
\<close>

theorem atomic_operation_blocks:
  "(executeAtomicOperation bl cc ids clock took op held st = Blocks \<longleftrightarrow>
      (\<exists>k \<in> set (lock_keys op). k \<in> held) \<or> bo_Type op = ''transfer'' \<and> bo_FromUserID op = bo_ToUserID op) \<and>
   AtomicTransfer bl cc ids clock took nanos now u u c amount ref desc held st = Blocks"
  by (simp add: AtomicTransfer_def atomic_operation_Blocks lock_keys_distinct new_operation_def)

section \<open>What a call does\<close>

lemma atomic_operation_outcome_main:
  assumes "executeAtomicOperation bl cc ids clock took op held (bc, d) = Returns (r, (bc', d'))"
  shows "(r = None \<and> (\<exists>k. int k \<le> bc_maxRetries bc \<and>
            (\<forall>i. i < k \<longrightarrow> (\<exists>e. executeOperationWithConsensus bl cc (ids i) (clock i) op d = (Some e, d))) \<and>
            executeOperationWithConsensus bl cc (ids k) (clock k) op d = (None, d') \<and>
            bm_RetryCount (bc_metrics bc') = bm_RetryCount (bc_metrics bc) + int k) \<or>
          r \<noteq> None \<and> d' = d) \<and>
    bm_TotalOperations (bc_metrics bc') = bm_TotalOperations (bc_metrics bc) + 1 \<and>
    bm_SuccessfulOperations (bc_metrics bc') = bm_SuccessfulOperations (bc_metrics bc) + (if r = None then 1 else 0) \<and>
    bm_FailedOperations (bc_metrics bc') = bm_FailedOperations (bc_metrics bc) + (if r = None then 0 else 1) \<and>
    bc_activeOperations bc' (bo_ID op) = None"
proof -
  let ?b = "bc\<lparr>bc_activeOperations := (bc_activeOperations bc)(bo_ID op \<mapsto> op)\<rparr>"
  let ?run = "\<lambda>k. executeOperationWithConsensus bl cc (ids k) (clock k) op"
  obtain keys bc2 where g: "getAccountLocks op ?b = (keys, bc2)" by (cases "getAccountLocks op ?b")
  have k: "bc_maxRetries bc2 = bc_maxRetries bc" "bc_metrics bc2 = bc_metrics bc"
    using getAccountLocks_kept [of op ?b] g by simp_all
  obtain q n d1 where a: "attempts ?run 0 (nat (bc_maxRetries bc + 1)) None 0 d = ((q, n), d1)"
    by (cases "attempts ?run 0 (nat (bc_maxRetries bc + 1)) None 0 d") auto
  note u = assms [unfolded executeAtomicOperation_def prod.case Let_def g k a]
  have s: "d1 = d'" "bm_RetryCount (bc_metrics bc') = bm_RetryCount (bc_metrics bc) + n" "r = None \<longleftrightarrow> q = None"
    "bm_TotalOperations (bc_metrics bc') = bm_TotalOperations (bc_metrics bc) + 1"
    "bm_SuccessfulOperations (bc_metrics bc') = bm_SuccessfulOperations (bc_metrics bc) + (if r = None then 1 else 0)"
    "bm_FailedOperations (bc_metrics bc') = bm_FailedOperations (bc_metrics bc) + (if r = None then 0 else 1)"
    "bc_activeOperations bc' (bo_ID op) = None"
    using u by (auto split: option.splits if_splits)
  have "?thesis" if "q = None"
    using a [unfolded that balance.attempts_None less_nat_attempts] s that by auto
  moreover have "?thesis" if "q = Some e" for e
    using balance.attempts_Some [OF a [unfolded that]] s that by auto
  ultimately show ?thesis by blast
qed


text \<open>The database of the bookkeeper's witnesses, and the statement that adds to an account's \<open>available\<close>.\<close>

definition added :: "(uuid \<Rightarrow> string) \<Rightarrow> string \<Rightarrow> string \<Rightarrow> decimal \<Rightarrow> bk_account \<Rightarrow> bk_account" where
  "added ustr u c x a =
     (if ustr (ba_UserID a) = u \<and> ba_Currency a = c then a\<lparr>ba_Available := ba_Available a + x\<rparr> else a)"

definition mem_add :: "string \<Rightarrow> string \<Rightarrow> decimal \<Rightarrow> mem_ledger \<Rightarrow> bk_error + mem_ledger" where
  "mem_add u c x d = Inr (map (\<lambda>(i, a). (i, added mem_user u c x a)) (fst d), snd d)"

definition mem_balance :: "mem_ledger balance_db" where
  "mem_balance = \<lparr>bl_ledger = mem_db, bl_add_available = mem_add, bl_float = (\<lambda>x. x), bl_text = (\<lambda>x. [])\<rparr>"

definition paying :: "(bk_error option \<times> (balance_manager \<times> mem_ledger)) outcome" where
  "paying = AtomicTransfer mem_balance None (\<lambda>i n. 30 + n) int 5 77 0 ''1'' ''2'' ''EUR'' 40 ''r'' ''rent'' {} (NewBalanceConsistencyManager, two_users)"



section \<open>What moves\<close>

text \<open>
  What the code relies on of its statements: \<open>UpdateColumn\<close> adds to the one column of every row of the user
  and the currency, and a locking query finds a row of its user.
\<close>

definition balance_laws :: "'d balance_db \<Rightarrow> ('d \<Rightarrow> uuid \<rightharpoonup> bk_account) \<Rightarrow> ('d \<Rightarrow> uuid \<rightharpoonup> bk_txn) \<Rightarrow> bool" where
  "balance_laws bl accts txns \<longleftrightarrow> ledger_laws (bl_ledger bl) accts txns \<and>
     (\<forall>u c x d d'. bl_add_available bl u c x d = Inr d' \<longrightarrow>
        (\<forall>i. accts d' i = map_option (added (ld_ustr (bl_ledger bl)) u c x) (accts d i))) \<and>
     (\<forall>w u c d a. ld_find_locked (bl_ledger bl) w u c d = Inr a \<longrightarrow> ld_ustr (bl_ledger bl) (ba_UserID a) = u)"

lemma executeTransfer_effect:
  assumes "balance_laws bl accts txns" and "executeTransfer bl ids now op d = (None, d')"
  shows "\<exists>fa. ba_Currency fa = bo_Currency op \<and> ld_ustr (bl_ledger bl) (ba_UserID fa) = bo_FromUserID op \<and>
    accts d (ba_ID fa) = Some fa \<and> bo_Amount op \<le> ba_Available fa \<and>
    (\<forall>i. accts d' i = map_option (added (ld_ustr (bl_ledger bl)) (bo_ToUserID op) (bo_Currency op) (bl_float bl (bo_Amount op)) \<circ>
       added (ld_ustr (bl_ledger bl)) (bo_FromUserID op) (bo_Currency op) (- bl_float bl (bo_Amount op))) (accts d i))"
proof -
  let ?db = "bl_ledger bl"
  have l: "ledger_laws ?db accts txns" and w: "\<And>w u c d a. ld_find_locked ?db w u c d = Inr a \<Longrightarrow> ld_ustr ?db (ba_UserID a) = u"
    and a: "\<And>u c x d d' i. bl_add_available bl u c x d = Inr d' \<Longrightarrow> accts d' i = map_option (added (ld_ustr ?db) u c x) (accts d i)"
    using assms(1) unfolding balance_laws_def by blast+
  obtain fa ta d1 d2 d3 t1 t2 where s: "ld_find_locked ?db False (bo_FromUserID op) (bo_Currency op) d = Inr fa" "\<not> ba_Available fa < bo_Amount op"
    "bl_add_available bl (bo_FromUserID op) (bo_Currency op) (- bl_float bl (bo_Amount op)) d = Inr d1"
    "bl_add_available bl (bo_ToUserID op) (bo_Currency op) (bl_float bl (bo_Amount op)) d1 = Inr d2"
    "ld_create_txn ?db t1 d2 = Inr d3" "ld_create_txn ?db t2 d3 = Inr d'"
    using plain_tx_None [OF assms(2) [unfolded executeTransfer_def Let_def]] by (auto split: if_splits)
  have "accts d' = accts d2" using ledgerD(7) [OF l s(5)] ledgerD(7) [OF l s(6)] by simp
  then show ?thesis using s(1,2) ledgerD(2) [OF l s(1)] w [OF s(1)]
    by (intro exI [of _ fa]) (simp add: a [OF s(3)] a [OF s(4)] option.map_comp)
qed

text \<open>
  C20: a transfer breaks the accounts. When \<open>AtomicTransfer\<close> reports success, the users differ, the sender had the
  amount available, and the ledger differs from the one before in the column \<open>available\<close> alone: what a
  float makes of the amount is taken off the sender's rows and added to the receiver's, and no balance
  changes. So a sender's account whose balance was the sum of its two parts no longer has this sum.
\<close>

theorem AtomicTransfer_unsound:
  assumes "balance_laws bl accts txns"
    and "AtomicTransfer bl cc ids clock took nanos now u v c amount ref desc held (bc, d) = Returns (None, (bc', d'))"
    and "\<forall>i a. accts d i = Some a \<longrightarrow> sound_account a" and "bl_float bl amount \<noteq> 0"
  shows "u \<noteq> v \<and>
    (\<forall>i a. accts d i = Some a \<longrightarrow> accts d' i = Some (a\<lparr>ba_Available := ba_Available a +
       (if ba_Currency a \<noteq> c then 0 else if ld_ustr (bl_ledger bl) (ba_UserID a) = u then - bl_float bl amount
        else if ld_ustr (bl_ledger bl) (ba_UserID a) = v then bl_float bl amount else 0)\<rparr>)) \<and>
    (\<exists>i a b. accts d i = Some a \<and> amount \<le> ba_Available a \<and> accts d' i = Some b \<and>
       ba_Balance b \<noteq> ba_Available b + ba_Locked b)"
proof -
  let ?op = "new_operation (''transfer_'' @ show_int nanos) ''transfer'' [] c amount u v ref desc now"
  have uv: "u \<noteq> v" using assms(2) by (auto simp: AtomicTransfer_def new_operation_def atomic_operation_Blocks lock_keys_distinct
      dest!: arg_cong [where f = "\<lambda>r. r = Blocks"])
  obtain k where "executeOperationWithConsensus bl cc (ids k) (clock k) ?op d = (None, d')"
    using atomic_operation_outcome_main [OF assms(2) [unfolded AtomicTransfer_def]] by auto
  then have "executeTransfer bl (ids k) (clock k) ?op d = (None, d')"
    by (auto simp: executeOperationWithConsensus_def executeOperation_def new_operation_def split: option.splits)
  from executeTransfer_effect [OF assms(1) this] obtain fa where e: "ba_Currency fa = c" "ld_ustr (bl_ledger bl) (ba_UserID fa) = u"
    "accts d (ba_ID fa) = Some fa" "amount \<le> ba_Available fa"
    "\<And>i. accts d' i = map_option (added (ld_ustr (bl_ledger bl)) v c (bl_float bl amount) \<circ>
       added (ld_ustr (bl_ledger bl)) u c (- bl_float bl amount)) (accts d i)"
    by (auto simp: new_operation_def)
  have "ba_Balance fa = ba_Available fa + ba_Locked fa" using assms(3) e(3) by (simp add: sound_account_def)
  then have "accts d' (ba_ID fa) = Some (fa\<lparr>ba_Available := ba_Available fa - bl_float bl amount\<rparr>) \<and>
      ba_Balance fa \<noteq> ba_Available fa - bl_float bl amount + ba_Locked fa"
    using e uv assms(4) by (simp add: added_def)
  then show ?thesis using uv e(3,4) by (fastforce simp: e(5) added_def)
qed

lemma mem_balance_laws: "balance_laws mem_balance mem_accts mem_txns"
proof -
  have u: "mem_user (ba_UserID a) = u" if "mem_find u c d = Inr a" for u c d a
    using that by (auto simp: mem_find_def split: option.splits dest: find_holds)
  have m: "map_of (map (\<lambda>(i, a). (i, g a)) xs) i = map_option g (map_of xs i)" for g :: "bk_account \<Rightarrow> bk_account" and xs and i :: uuid
    by (induction xs) auto
  have "ld_find_locked (bl_ledger mem_balance) w u c d = mem_find u c d" "ld_ustr (bl_ledger mem_balance) = mem_user" "bl_add_available mem_balance = mem_add"
    for w u c d
    by (simp_all add: mem_balance_def mem_db_def)
  then show ?thesis unfolding balance_laws_def
    using mem_laws u by (auto simp: mem_balance_def mem_accts_def mem_add_def m)
qed

theorem AtomicTransfer_unsound_witness:
  "\<exists>bc' d' i b. paying = Returns (None, (bc', d')) \<and> mem_accts d' i = Some b \<and> ba_Balance b \<noteq> ba_Available b + ba_Locked b"
proof -
  have "case paying of Returns (r, st) \<Rightarrow> r = None | _ \<Rightarrow> False" by code_simp
  then obtain bc' d' where p: "paying = Returns (None, (bc', d'))" by (auto split: outcome.splits prod.splits)
  have "\<forall>i a. mem_accts two_users i = Some a \<longrightarrow> sound_account a" using two_users_sound by (auto dest: sound_ledgerD)
  moreover have "bl_float mem_balance 40 \<noteq> 0" by (simp add: mem_balance_def)
  ultimately show ?thesis
    using p AtomicTransfer_unsound [OF mem_balance_laws p [unfolded paying_def]] by blast
qed

section \<open>Locks\<close>

text \<open>
  a lock of funds through the manager. When \<open>AtomicLockFunds\<close> reports success, one account of the
  currency had the amount available, and exactly this amount of it is now locked, once, however many
  attempts were made; the transactions are what they were. \<open>AtomicUnlockFunds\<close> undoes exactly that.
\<close>

theorem AtomicLockFunds_once:
  assumes "ledger_laws (bl_ledger bl) accts txns"
    and "lock \<longrightarrow> AtomicLockFunds bl cc ids clock took nanos now u c amount ref held (bc, d) = Returns (None, (bc', d'))"
    and "\<not> lock \<longrightarrow> AtomicUnlockFunds bl cc ids clock took nanos now u c amount ref held (bc, d) = Returns (None, (bc', d'))"
  shows "\<exists>k a. int k \<le> bc_maxRetries bc \<and> ba_Currency a = c \<and> amount \<le> (if lock then ba_Available a else ba_Locked a) \<and>
    adjusts (accts d) a (clock k) 0 (if lock then - amount else amount) (if lock then amount else - amount) (accts d') \<and> txns d' = txns d"
proof (cases lock)
  case True
  from atomic_operation_outcome_main [OF assms(2) [rule_format, OF this, unfolded AtomicLockFunds_def]]
  obtain k where "int k \<le> bc_maxRetries bc" "bk_LockFunds (bl_ledger bl) (clock k) u c amount d = (None, d')"
    by (auto simp: executeOperationWithConsensus_def executeOperation_def executeLock_def new_operation_def split: option.splits)
  with True show ?thesis using lock_effect [OF assms(1)] by simp blast
next
  case False
  from atomic_operation_outcome_main [OF assms(3) [rule_format, OF this, unfolded AtomicUnlockFunds_def]]
  obtain k where "int k \<le> bc_maxRetries bc" "bk_UnlockFunds (bl_ledger bl) (clock k) u c amount d = (None, d')"
    by (auto simp: executeOperationWithConsensus_def executeOperation_def executeUnlock_def new_operation_def split: option.splits)
  with False show ?thesis using unlock_effect [OF assms(1)] by simp blast
qed

definition locking :: "(bk_error option \<times> (balance_manager \<times> mem_ledger)) outcome" where
  "locking = AtomicLockFunds mem_balance None (\<lambda>i n. 30 + n) int 5 77 0 ''1'' ''EUR'' 30 ''r'' {} (NewBalanceConsistencyManager, two_users)"

theorem AtomicLockFunds_once_witness:
  "\<exists>bc' d' a t. locking = Returns (None, (bc', d')) \<and> adjusts (mem_accts two_users) a t 0 (- 30) 30 (mem_accts d')"
proof -
  have "case locking of Returns (r, st) \<Rightarrow> r = None | _ \<Rightarrow> False" by code_simp
  then obtain bc' d' where p: "locking = Returns (None, (bc', d'))" by (auto split: outcome.splits prod.splits)
  have l: "ledger_laws (bl_ledger mem_balance) mem_accts mem_txns" using mem_laws by (simp add: mem_balance_def)
  have "True \<longrightarrow> AtomicLockFunds mem_balance None (\<lambda>i n. 30 + n) int 5 77 0 ''1'' ''EUR'' 30 ''r'' {} (NewBalanceConsistencyManager, two_users)
      = Returns (None, (bc', d'))" using p by (simp only: locking_def simp_thms)
  from AtomicLockFunds_once [OF l this] obtain a t where "adjusts (mem_accts two_users) a t 0 (- 30) 30 (mem_accts d')" by auto
  with p show ?thesis by blast
qed

end
