(* ===== verification/OrderLifecycle.thy ===== *)
theory OrderLifecycle
  imports OrderModel
begin

text \<open>
  The lifecycle of orders, \<open>internal/trading/lifecycle/order_lifecycle.go\<close>: submission with
  idempotency keys and validators, acceptance, fills and cancellation, each in a database transaction
  that records the change of state. The statements on the database \<open>'d\<close> are a record; validators are
  pairs of a name and a function that reads the database; the floats \<open>'f\<close> of a fill are converted by
  parameters. Hooks and the event bus run in goroutines of their own and are left out, like the caller's order object.
\<close>

section \<open>State\<close>

record order_event =
  oe_OrderID :: string
  oe_EventType :: string
  oe_EventData :: string
  oe_Timestamp :: time
  oe_UserID :: string
  oe_TraceID :: string
  oe_Source :: string

record order_transition =
  ot_OrderID :: string
  ot_FromState :: string
  ot_ToState :: string
  ot_Reason :: string
  ot_Timestamp :: time
  ot_UserID :: string
  ot_TraceID :: string

record idempotency_key =
  ik_Key :: string
  ik_UserID :: string
  ik_OrderID :: string
  ik_Operation :: string
  ik_Response :: string
  ik_CreatedAt :: time
  ik_ExpiresAt :: time
  ik_Completed :: bool

record lifecycle_metrics =
  lm_OrdersSubmitted :: int
  lm_OrdersAccepted :: int
  lm_OrdersRejected :: int
  lm_OrdersFilled :: int
  lm_OrdersCanceled :: int
  lm_StateTransitions :: "string \<Rightarrow> int"
  lm_ValidationFailures :: int
  lm_IdempotencyHits :: int

definition new_metrics :: lifecycle_metrics where
  "new_metrics = \<lparr>lm_OrdersSubmitted = 0, lm_OrdersAccepted = 0, lm_OrdersRejected = 0, lm_OrdersFilled = 0,
     lm_OrdersCanceled = 0, lm_StateTransitions = (\<lambda>s. 0), lm_ValidationFailures = 0, lm_IdempotencyHits = 0\<rparr>"

text \<open>
  The statements: queries by ID, by ID and user, and of a completed key; upsert of an order; inserts; the
  update of a key to completed. \<open>lb_poison\<close> is a transaction after a statement of it failed, \<open>lb_ustr\<close> the text of a UUID.
\<close>

record 'd lifecycle_db =
  lb_find :: "string \<Rightarrow> 'd \<Rightarrow> string + order"
  lb_find_user :: "string \<Rightarrow> string \<Rightarrow> 'd \<Rightarrow> string + order"
  lb_save :: "order \<Rightarrow> 'd \<Rightarrow> string + 'd"
  lb_create_event :: "order_event \<Rightarrow> 'd \<Rightarrow> string + 'd"
  lb_create_transition :: "order_transition \<Rightarrow> 'd \<Rightarrow> string + 'd"
  lb_create_key :: "idempotency_key \<Rightarrow> 'd \<Rightarrow> string + 'd"
  lb_find_key :: "string \<Rightarrow> string \<Rightarrow> string \<Rightarrow> 'd \<Rightarrow> string + idempotency_key"
  lb_delete_key :: "idempotency_key \<Rightarrow> 'd \<Rightarrow> 'd"
  lb_complete_key :: "string \<Rightarrow> string \<Rightarrow> string \<Rightarrow> 'd \<Rightarrow> 'd"
  lb_begin :: "'d \<Rightarrow> string option"
  lb_commit :: "'d \<Rightarrow> 'd \<Rightarrow> string option"
  lb_poison :: "'d \<Rightarrow> 'd"
  lb_ustr :: "uuid \<Rightarrow> string"

text \<open>\<open>decimal.NewFromFloat\<close>, which panics on NaN and infinities, the verb \<open>%f\<close> and \<open>InexactFloat64\<close>.\<close>

record 'f fill_env =
  fe_NewFromFloat :: "'f \<Rightarrow> decimal option"
  fe_f :: "'f \<Rightarrow> string"
  fe_float :: "decimal \<Rightarrow> 'f"

text \<open>A validator may panic.\<close>

type_synonym 'd validator = "string \<times> (order \<Rightarrow> 'd \<Rightarrow> string option outcome)"

section \<open>The state machine\<close>

definition order_transitions :: "string \<rightharpoonup> string list" where
  "order_transitions = [''SUBMITTED'' \<mapsto> [''PENDING'', ''REJECTED''],
     ''PENDING'' \<mapsto> [''VALIDATED'', ''REJECTED''],
     ''VALIDATED'' \<mapsto> [''ACCEPTED'', ''REJECTED''],
     ''ACCEPTED'' \<mapsto> [''PARTIALLY_FILLED'', ''FILLED'', ''CANCELING'', ''EXPIRED''],
     ''PARTIALLY_FILLED'' \<mapsto> [''FILLED'', ''CANCELING'', ''EXPIRED''],
     ''CANCELING'' \<mapsto> [''CANCELED''],
     ''REJECTED'' \<mapsto> [], ''FILLED'' \<mapsto> [], ''CANCELED'' \<mapsto> [], ''EXPIRED'' \<mapsto> [], ''FAILED'' \<mapsto> []]"

definition ol_isValidTransition :: "string \<Rightarrow> string \<Rightarrow> bool" where
  "ol_isValidTransition from to \<longleftrightarrow>
     (case order_transitions from of None \<Rightarrow> False | Some allowed \<Rightarrow> to \<in> set allowed)"

definition incrementStateTransition :: "string \<Rightarrow> lifecycle_metrics \<Rightarrow> lifecycle_metrics" where
  "incrementStateTransition t m = m\<lparr>lm_StateTransitions := (lm_StateTransitions m)(t := lm_StateTransitions m t + 1)\<rparr>"

text \<open>
  The order, the metrics and the transaction's database state go through; a call that fails early leaves
  the changes it made to the order.
\<close>

type_synonym 'd lifecycle_state = "order \<times> lifecycle_metrics \<times> 'd"

definition transitionState :: "'d lifecycle_db \<Rightarrow> time \<Rightarrow> string \<Rightarrow> string \<Rightarrow> string \<Rightarrow> string \<Rightarrow> 'd lifecycle_state \<Rightarrow>
    string option \<times> 'd lifecycle_state" where
  "transitionState db now traceID fromState toState reason st =
     (case st of (ord, m, d) \<Rightarrow>
       (if \<not> ol_isValidTransition fromState toState
        then (Some (''invalid state transition from '' @ fromState @ '' to '' @ toState), st)
        else
          (let ord1 = ord\<lparr>o_Status := toState, o_UpdatedAt := now\<rparr>
           in case lb_save db ord1 d of
                Inl e \<Rightarrow> (Some (''failed to update order status: '' @ e), (ord1, m, lb_poison db d))
              | Inr d1 \<Rightarrow>
                  (case lb_create_transition db \<lparr>ot_OrderID = lb_ustr db (o_ID ord1), ot_FromState = fromState,
                      ot_ToState = toState, ot_Reason = reason, ot_Timestamp = now, ot_UserID = lb_ustr db (o_UserID ord1),
                      ot_TraceID = traceID\<rparr> d1 of
                     Inl e \<Rightarrow> (Some (''failed to record state transition: '' @ e), (ord1, m, lb_poison db d1))
                   | Inr d2 \<Rightarrow> (None, (ord1, incrementStateTransition (fromState @ ''->'' @ toState) m, d2))))))"

section \<open>Validators and keys\<close>

fun validateOrder :: "'d validator list \<Rightarrow> order \<Rightarrow> 'd \<Rightarrow> string option outcome" where
  "validateOrder [] ord d = Returns None"
| "validateOrder ((name, validate) # vs) ord d =
     bind_outcome (validate ord d) (\<lambda>r. case r of
        Some e \<Rightarrow> Returns (Some (''validation failed by '' @ name @ '': '' @ e))
      | None \<Rightarrow> validateOrder vs ord d)"

text \<open>\<open>Some\<close> when an answer was found, which may be no order.\<close>

definition checkIdempotency :: "'d lifecycle_db \<Rightarrow> time \<Rightarrow> string \<Rightarrow> string \<Rightarrow> string \<Rightarrow> 'd \<Rightarrow> order option option \<times> 'd" where
  "checkIdempotency db now key userID operation d =
     (case lb_find_key db key userID operation d of
        Inl e \<Rightarrow> (None, d)
      | Inr k \<Rightarrow>
          (if ik_ExpiresAt k < now then (None, lb_delete_key db k d)
           else if ik_OrderID k \<noteq> []
           then (case lb_find db (ik_OrderID k) d of Inl e \<Rightarrow> (Some None, d) | Inr ord \<Rightarrow> (Some (Some ord), d))
           else (Some None, d)))"

definition serializeOrder :: "'d lifecycle_db \<Rightarrow> order \<Rightarrow> string" where
  "serializeOrder db ord = ''{\"id\": \"'' @ lb_ustr db (o_ID ord) @ ''\", \"user_id\": \"'' @ lb_ustr db (o_UserID ord) @
     ''\", \"pair\": \"'' @ o_Pair ord @ ''\", \"status\": \"'' @ o_Status ord @ ''\"}''"

definition updateIdempotencyResult :: "'d lifecycle_db \<Rightarrow> string \<Rightarrow> order \<Rightarrow> 'd \<Rightarrow> 'd" where
  "updateIdempotencyResult db key ord d = lb_complete_key db key (lb_ustr db (o_ID ord)) (serializeOrder db ord) d"

section \<open>Submission\<close>

text \<open>
  The state of the database outside the transaction is \<open>d\<close>: the validators read it, and what is not
  committed leaves it. \<open>clock\<close> and \<open>trace\<close> are the clock's readings and the trace IDs of the calls' order.
\<close>

definition initial_event :: "'d lifecycle_db \<Rightarrow> time \<Rightarrow> string \<Rightarrow> order \<Rightarrow> order_event" where
  "initial_event db now traceID ord = \<lparr>oe_OrderID = lb_ustr db (o_ID ord), oe_EventType = ''ORDER_SUBMITTED'',
     oe_EventData = serializeOrder db ord, oe_Timestamp = now, oe_UserID = lb_ustr db (o_UserID ord), oe_TraceID = traceID,
     oe_Source = ''lifecycle_manager''\<rparr>"

definition initial_key :: "'d lifecycle_db \<Rightarrow> time \<Rightarrow> string \<Rightarrow> order \<Rightarrow> idempotency_key" where
  "initial_key db now key ord = \<lparr>ik_Key = key, ik_UserID = lb_ustr db (o_UserID ord), ik_OrderID = lb_ustr db (o_ID ord),
     ik_Operation = ''submit_order'', ik_Response = [], ik_CreatedAt = now, ik_ExpiresAt = now + 24 * hour, ik_Completed = False\<rparr>"

definition submit_tx :: "'d lifecycle_db \<Rightarrow> 'd validator list \<Rightarrow> (nat \<Rightarrow> time) \<Rightarrow> (nat \<Rightarrow> string) \<Rightarrow> string \<Rightarrow> order \<Rightarrow>
    lifecycle_metrics \<times> 'd \<Rightarrow> ((string + order option) \<times> (lifecycle_metrics \<times> 'd)) outcome" where
  "submit_tx db vs clock trace idempotencyKey ord st =
     (case st of (m, d) \<Rightarrow>
       (case (case lb_begin db d of Some e \<Rightarrow> Inl e | None \<Rightarrow> lb_create_event db (initial_event db (clock 2) (trace 0) ord) d) of
          Inl e \<Rightarrow> Returns (Inl (''failed to record order submission: '' @ e), (m, d))
        | Inr d1 \<Rightarrow>
            (case (if idempotencyKey \<noteq> [] then lb_create_key db (initial_key db (clock 3) idempotencyKey ord) d1 else Inr d1) of
               Inl e \<Rightarrow> Returns (Inl (''failed to save idempotency key: '' @ e), (m, d))
             | Inr d2 \<Rightarrow>
                 (case transitionState db (clock 4) (trace 1) ''SUBMITTED'' ''PENDING'' ''Initial submission'' (ord, m, d2) of
                    (Some e, (ord1, m1, d3)) \<Rightarrow> Returns (Inl (''failed to transition to pending state: '' @ e), (m1, d))
                  | (None, (ord1, m1, d3)) \<Rightarrow>
                      (case validateOrder vs ord1 d of
                         Panics \<Rightarrow> Panics
                       | Blocks \<Rightarrow> Blocks
                       | Returns (Some e) \<Rightarrow>
                           (case transitionState db (clock 5) (trace 2) ''PENDING'' ''REJECTED'' (''Validation failed: '' @ e) (ord1, m1, d3) of
                              (err, (ord2, m2, d4)) \<Rightarrow>
                                Returns (Inl (''order validation failed: '' @ e),
                                 (m2\<lparr>lm_ValidationFailures := lm_ValidationFailures m2 + 1\<rparr>,
                                  (case lb_commit db d d4 of None \<Rightarrow> d4 | Some e \<Rightarrow> d))))
                       | Returns None \<Rightarrow>
                           (case transitionState db (clock 5) (trace 2) ''PENDING'' ''VALIDATED'' ''Validation passed'' (ord1, m1, d3) of
                              (Some e, (ord2, m2, d4)) \<Rightarrow> Returns (Inl (''failed to transition to validated state: '' @ e), (m2, d))
                            | (None, (ord2, m2, d4)) \<Rightarrow>
                                (case lb_commit db d d4 of
                                   Some e \<Rightarrow> Returns (Inl (''failed to commit order submission transaction: '' @ e), (m2, d))
                                 | None \<Rightarrow>
                                     Returns (Inr (Some ord2), (m2\<lparr>lm_OrdersSubmitted := lm_OrdersSubmitted m2 + 1\<rparr>,
                                       (if idempotencyKey \<noteq> [] then updateIdempotencyResult db idempotencyKey ord2 d4 else d4))))))))))"

definition submitted_order :: "uuid \<Rightarrow> time \<Rightarrow> order \<Rightarrow> order" where
  "submitted_order newID now ord = ord\<lparr>o_Status := ''SUBMITTED'', o_CreatedAt := now, o_UpdatedAt := now,
     o_ID := (if o_ID ord = nil_uuid then newID else o_ID ord)\<rparr>"

definition SubmitOrder :: "'d lifecycle_db \<Rightarrow> 'd validator list \<Rightarrow> uuid \<Rightarrow> (nat \<Rightarrow> time) \<Rightarrow> (nat \<Rightarrow> string) \<Rightarrow> order \<Rightarrow> string \<Rightarrow>
    lifecycle_metrics \<times> 'd \<Rightarrow> ((string + order option) \<times> (lifecycle_metrics \<times> 'd)) outcome" where
  "SubmitOrder db vs newID clock trace ord idempotencyKey st =
     (case st of (m, d) \<Rightarrow>
       (case (if idempotencyKey \<noteq> [] then checkIdempotency db (clock 0) idempotencyKey (lb_ustr db (o_UserID ord)) ''submit_order'' d
              else (None, d)) of
          (Some result, d1) \<Rightarrow> Returns (Inr result, (m\<lparr>lm_IdempotencyHits := lm_IdempotencyHits m + 1\<rparr>, d1))
        | (None, d1) \<Rightarrow> submit_tx db vs clock trace idempotencyKey (submitted_order newID (clock 1) ord) (m, d1)))"

section \<open>Acceptance, fills, cancellation\<close>

text \<open>\<open>db.Transaction\<close>: an error of the body rolls back, and a panic of it as well; the metrics are no part of it.\<close>

definition lifecycle_tx :: "'d lifecycle_db \<Rightarrow> (lifecycle_metrics \<times> 'd \<Rightarrow> (string option \<times> (lifecycle_metrics \<times> 'd)) outcome) \<Rightarrow>
    lifecycle_metrics \<times> 'd \<Rightarrow> (string option \<times> (lifecycle_metrics \<times> 'd)) outcome" where
  "lifecycle_tx db body st =
     (case st of (m, d) \<Rightarrow>
       (case lb_begin db d of
          Some e \<Rightarrow> Returns (Some e, (m, d))
        | None \<Rightarrow>
            (case body (m, d) of
               Panics \<Rightarrow> Panics
             | Blocks \<Rightarrow> Blocks
             | Returns (Some e, (m', d')) \<Rightarrow> Returns (Some e, (m', d))
             | Returns (None, (m', d')) \<Rightarrow>
                 (case lb_commit db d d' of Some e \<Rightarrow> Returns (Some e, (m', d)) | None \<Rightarrow> Returns (None, (m', d'))))))"

definition transition_result :: "string option \<times> 'd lifecycle_state \<Rightarrow> (string option \<times> (lifecycle_metrics \<times> 'd)) outcome" where
  "transition_result r = (case r of (err, (ord, st)) \<Rightarrow> Returns (err, st))"

definition AcceptOrder :: "'d lifecycle_db \<Rightarrow> time \<Rightarrow> string \<Rightarrow> string \<Rightarrow> string \<Rightarrow> lifecycle_metrics \<times> 'd \<Rightarrow>
    (string option \<times> (lifecycle_metrics \<times> 'd)) outcome" where
  "AcceptOrder db now traceID orderID reason =
     lifecycle_tx db (\<lambda>(m, d).
       case lb_find db orderID d of
         Inl e \<Rightarrow> Returns (Some (''order not found: '' @ e), (m, d))
       | Inr ord \<Rightarrow>
           (if o_Status ord \<noteq> ''VALIDATED''
            then Returns (Some (''order cannot be accepted from state '' @ o_Status ord), (m, d))
            else transition_result (transitionState db now traceID ''VALIDATED'' ''ACCEPTED'' reason (ord, m, d))))"

definition fill_event :: "'d lifecycle_db \<Rightarrow> 'f fill_env \<Rightarrow> time \<Rightarrow> string \<Rightarrow> string \<Rightarrow> 'f \<Rightarrow> 'f \<Rightarrow> string \<Rightarrow> decimal \<Rightarrow> order \<Rightarrow> order_event" where
  "fill_event db fe now traceID orderID fillQuantity fillPrice tradeID remainingQuantity ord = \<lparr>oe_OrderID = orderID,
     oe_EventType = ''ORDER_FILL'', oe_EventData = ''{\"fill_quantity\": '' @ fe_f fe fillQuantity @ '', \"fill_price\": '' @
       fe_f fe fillPrice @ '', \"trade_id\": \"'' @ tradeID @ ''\", \"remaining_quantity\": '' @ fe_f fe (fe_float fe remainingQuantity) @ ''}'',
     oe_Timestamp = now, oe_UserID = lb_ustr db (o_UserID ord), oe_TraceID = traceID, oe_Source = ''fill_processor''\<rparr>"

text \<open>The new state and the reason, from what remains.\<close>

definition fill_state :: "'f fill_env \<Rightarrow> 'f \<Rightarrow> 'f \<Rightarrow> string \<Rightarrow> decimal \<Rightarrow> string \<times> string" where
  "fill_state fe fillQuantity fillPrice tradeID remainingQuantity =
     (if remainingQuantity \<le> 1 / 10000000
      then (''FILLED'', ''Order fully filled. Fill: '' @ fe_f fe fillQuantity @ '' @ '' @ fe_f fe fillPrice @ '', Trade: '' @ tradeID)
      else (''PARTIALLY_FILLED'', ''Order partially filled. Fill: '' @ fe_f fe fillQuantity @ '' @ '' @ fe_f fe fillPrice @
        '', Remaining: '' @ fe_f fe (fe_float fe remainingQuantity) @ '', Trade: '' @ tradeID))"

definition FillOrder :: "'d lifecycle_db \<Rightarrow> 'f fill_env \<Rightarrow> (nat \<Rightarrow> time) \<Rightarrow> (nat \<Rightarrow> string) \<Rightarrow> string \<Rightarrow> 'f \<Rightarrow> 'f \<Rightarrow> string \<Rightarrow>
    lifecycle_metrics \<times> 'd \<Rightarrow> (string option \<times> (lifecycle_metrics \<times> 'd)) outcome" where
  "FillOrder db fe clock trace orderID fillQuantity fillPrice tradeID =
     lifecycle_tx db (\<lambda>(m, d).
       case lb_find db orderID d of
         Inl e \<Rightarrow> Returns (Some (''order not found: '' @ e), (m, d))
       | Inr ord \<Rightarrow>
           (if o_Status ord \<noteq> ''ACCEPTED'' \<and> o_Status ord \<noteq> ''PARTIALLY_FILLED''
            then Returns (Some (''order cannot be filled from state '' @ o_Status ord), (m, d))
            else case fe_NewFromFloat fe fillQuantity of
                   None \<Rightarrow> Panics
                 | Some q \<Rightarrow>
                     (let currentState = o_Status ord;
                          ord1 = ord\<lparr>o_FilledQuantity := o_FilledQuantity ord + q, o_UpdatedAt := clock 0\<rparr>;
                          remainingQuantity = o_Quantity ord1 - o_FilledQuantity ord1;
                          (newState, reason) = fill_state fe fillQuantity fillPrice tradeID remainingQuantity;
                          m1 = (if newState = ''FILLED'' then m\<lparr>lm_OrdersFilled := lm_OrdersFilled m + 1\<rparr> else m)
                      in case lb_save db ord1 d of
                           Inl e \<Rightarrow> Returns (Some (''failed to update order: '' @ e), (m1, d))
                         | Inr d1 \<Rightarrow>
                             (case lb_create_event db (fill_event db fe (clock 1) (trace 0) orderID fillQuantity fillPrice tradeID remainingQuantity ord1) d1 of
                                Inl e \<Rightarrow> Returns (Some (''failed to record fill event: '' @ e), (m1, d1))
                              | Inr d2 \<Rightarrow>
                                  transition_result (transitionState db (clock 2) (trace 1) currentState newState reason (ord1, m1, d2))))))"

definition ol_CancelOrder :: "'d lifecycle_db \<Rightarrow> (nat \<Rightarrow> time) \<Rightarrow> (nat \<Rightarrow> string) \<Rightarrow> string \<Rightarrow> string \<Rightarrow> string \<Rightarrow>
    lifecycle_metrics \<times> 'd \<Rightarrow> (string option \<times> (lifecycle_metrics \<times> 'd)) outcome" where
  "ol_CancelOrder db clock trace orderID userID reason =
     lifecycle_tx db (\<lambda>(m, d).
       case lb_find_user db orderID userID d of
         Inl e \<Rightarrow> Returns (Some (''order not found: '' @ e), (m, d))
       | Inr ord \<Rightarrow>
           (if o_Status ord \<notin> {''SUBMITTED'', ''PENDING'', ''VALIDATED'', ''ACCEPTED'', ''PARTIALLY_FILLED''}
            then Returns (Some (''order cannot be canceled from state '' @ o_Status ord), (m, d))
            else case transitionState db (clock 0) (trace 0) (o_Status ord) ''CANCELING'' (''Cancel requested: '' @ reason) (ord, m, d) of
                   (Some e, (ord1, m1, d1)) \<Rightarrow> Returns (Some e, (m1, d1))
                 | (None, (ord1, m1, d1)) \<Rightarrow>
                     transition_result (transitionState db (clock 1) (trace 1) ''CANCELING'' ''CANCELED'' ''Cancellation completed'' (ord1, m1, d1))))"

end
