(* ===== verification/OrderValidators.thy ===== *)
theory OrderValidators
  imports OrderLifecycle
begin

text \<open>
  The validators of orders, \<open>internal/trading/lifecycle/validators.go\<close>. The rows they read are functions
  of the database state, \<open>None\<close> when the query fails; the texts of decimals are a parameter. The names
  of sides, types and assets are ASCII texts.
\<close>

section \<open>Texts and remainders\<close>

definition ToUpper :: "string \<Rightarrow> string" where
  "ToUpper = map (\<lambda>c. if 97 \<le> (of_char c :: nat) \<and> (of_char c :: nat) \<le> 122 then char_of (of_char c - 32 :: nat) else c)"

text \<open>\<open>strings.Split\<close> at a comma, of which the empty text is one empty part, and \<open>strings.TrimSpace\<close>.\<close>

fun split_comma :: "string \<Rightarrow> string list" where
  "split_comma [] = [[]]"
| "split_comma (c # cs) =
     (if c = CHR '','' then [] # split_comma cs
      else case split_comma cs of p # ps \<Rightarrow> (c # p) # ps | [] \<Rightarrow> [[c]])"

definition TrimSpace :: "string \<Rightarrow> string" where
  "TrimSpace s =
     (let space = (\<lambda>c. (of_char c :: nat) \<in> {9, 10, 11, 12, 13, 32})
      in rev (dropWhile space (rev (dropWhile space s))))"

text \<open>\<open>Decimal.Mod\<close>: the remainder of the division that truncates; it panics on a divisor of zero.\<close>

definition dec_trunc :: "decimal \<Rightarrow> decimal" where
  "dec_trunc x = (if x < 0 then - of_int \<lfloor>- x\<rfloor> else of_int \<lfloor>x\<rfloor>)"

definition dec_Mod :: "decimal \<Rightarrow> decimal \<Rightarrow> decimal outcome" where
  "dec_Mod x y = (if y = 0 then Panics else Returns (x - y * dec_trunc (x / y)))"

section \<open>Basic validation\<close>

definition priced_types :: "string list" where
  "priced_types = [''LIMIT'', ''STOP_LOSS_LIMIT'', ''TAKE_PROFIT_LIMIT'']"

definition stop_types :: "string list" where
  "stop_types = [''STOP_LOSS'', ''STOP_LOSS_LIMIT'', ''TAKE_PROFIT'', ''TAKE_PROFIT_LIMIT'']"

definition basic_ValidateOrder :: "order \<Rightarrow> string option" where
  "basic_ValidateOrder ord =
     (let side = ToUpper (o_Side ord); orderType = ToUpper (o_Type ord); timeInForce = ToUpper (o_TimeInForce ord)
      in if o_ID ord = nil_uuid then Some ''order ID is required''
         else if o_UserID ord = nil_uuid then Some ''user ID is required''
         else if o_Pair ord = [] then Some ''trading pair is required''
         else if side \<noteq> ''BUY'' \<and> side \<noteq> ''SELL'' then Some (''invalid order side: '' @ o_Side ord @ '' (must be BUY or SELL)'')
         else if orderType \<notin> set [''MARKET'', ''LIMIT'', ''STOP_LOSS'', ''STOP_LOSS_LIMIT'', ''TAKE_PROFIT'', ''TAKE_PROFIT_LIMIT'']
           then Some (''invalid order type: '' @ o_Type ord)
         else if o_Quantity ord \<le> 0 then Some ''order quantity must be positive''
         else if orderType \<in> set priced_types \<and> o_Price ord \<le> 0 then Some ''order price must be positive for limit orders''
         else if orderType \<in> set stop_types \<and> o_StopPrice ord \<le> 0 then Some ''stop price must be positive for stop orders''
         else if timeInForce \<notin> set [''GTC'', ''IOC'', ''FOK'', ''GTD''] then Some (''invalid time in force: '' @ o_TimeInForce ord)
         else None)"

definition BasicOrderValidator :: "'d validator" where
  "BasicOrderValidator = (''BasicOrderValidator'', \<lambda>ord d. Returns (basic_ValidateOrder ord))"

section \<open>Market, balance and risk validation\<close>

record trading_pair =
  tp_Symbol :: string
  tp_BaseAsset :: string
  tp_QuoteAsset :: string
  tp_Status :: string
  tp_MinQuantity :: decimal
  tp_MaxQuantity :: decimal
  tp_QuantityStep :: decimal
  tp_MinPrice :: decimal
  tp_MaxPrice :: decimal
  tp_PriceStep :: decimal
  tp_MinNotional :: decimal
  tp_MaxNotional :: decimal
  tp_BasePrecision :: int
  tp_QuotePrecision :: int

record user_balance =
  ub_UserID :: string
  ub_Asset :: string
  ub_Available :: decimal
  ub_Locked :: decimal
  ub_Total :: decimal

record user_risk_limits =
  rl_UserID :: string
  rl_MaxOrderValue :: decimal
  rl_MaxDailyOrderCount :: int
  rl_MaxDailyOrderValue :: decimal
  rl_MaxOpenOrders :: int
  rl_MaxPositionSize :: decimal
  rl_AllowedOrderTypes :: string
  rl_TradingEnabled :: bool

record 'd validator_db =
  vb_pair :: "string \<Rightarrow> 'd \<Rightarrow> trading_pair option"
  vb_balance :: "uuid \<Rightarrow> string \<Rightarrow> 'd \<Rightarrow> user_balance option"
  vb_limits :: "uuid \<Rightarrow> 'd \<Rightarrow> user_risk_limits option"
  vb_daily_count :: "uuid \<Rightarrow> 'd \<Rightarrow> int option"
  vb_daily_value :: "uuid \<Rightarrow> 'd \<Rightarrow> decimal option"
  vb_open_count :: "uuid \<Rightarrow> 'd \<Rightarrow> int option"
  vb_text :: "decimal \<Rightarrow> string"
  vb_ustr :: "uuid \<Rightarrow> string"

definition market_price_checks :: "'d validator_db \<Rightarrow> trading_pair \<Rightarrow> order \<Rightarrow> string option outcome" where
  "market_price_checks db tp ord =
     (let tx = vb_text db; price = o_Price ord; notional = price * o_Quantity ord
      in if price < tp_MinPrice tp then Returns (Some (''order price '' @ tx price @ '' is below minimum '' @ tx (tp_MinPrice tp)))
         else if tp_MaxPrice tp < price then Returns (Some (''order price '' @ tx price @ '' exceeds maximum '' @ tx (tp_MaxPrice tp)))
         else bind_outcome (dec_Mod price (tp_PriceStep tp)) (\<lambda>r.
           if r \<noteq> 0 then Returns (Some (''order price '' @ tx price @ '' does not conform to step size '' @ tx (tp_PriceStep tp)))
           else if notional < tp_MinNotional tp
             then Returns (Some (''order notional value '' @ tx notional @ '' is below minimum '' @ tx (tp_MinNotional tp)))
           else if tp_MaxNotional tp < notional
             then Returns (Some (''order notional value '' @ tx notional @ '' exceeds maximum '' @ tx (tp_MaxNotional tp)))
           else Returns None))"

definition market_ValidateOrder :: "'d validator_db \<Rightarrow> order \<Rightarrow> 'd \<Rightarrow> string option outcome" where
  "market_ValidateOrder db ord d =
     (let tx = vb_text db; q = o_Quantity ord
      in case vb_pair db (o_Pair ord) d of
           None \<Rightarrow> Returns (Some (''trading pair not found: '' @ o_Pair ord))
         | Some tp \<Rightarrow>
             (if tp_Status tp \<noteq> ''ACTIVE''
              then Returns (Some (''trading is not active for pair '' @ o_Pair ord @ '' (status: '' @ tp_Status tp @ '')''))
              else if q < tp_MinQuantity tp
              then Returns (Some (''order quantity '' @ tx q @ '' is below minimum '' @ tx (tp_MinQuantity tp)))
              else if tp_MaxQuantity tp < q
              then Returns (Some (''order quantity '' @ tx q @ '' exceeds maximum '' @ tx (tp_MaxQuantity tp)))
              else bind_outcome (dec_Mod q (tp_QuantityStep tp)) (\<lambda>r.
                if r \<noteq> 0 then Returns (Some (''order quantity '' @ tx q @ '' does not conform to step size '' @ tx (tp_QuantityStep tp)))
                else if ToUpper (o_Type ord) \<in> set priced_types then market_price_checks db tp ord
                else Returns None)))"

definition MarketValidator :: "'d validator_db \<Rightarrow> 'd validator" where
  "MarketValidator db = (''MarketValidator'', market_ValidateOrder db)"

definition extractAssets :: "'d validator_db \<Rightarrow> string \<Rightarrow> 'd \<Rightarrow> string + (string \<times> string)" where
  "extractAssets db pair d =
     (case vb_pair db pair d of
        None \<Rightarrow> Inl (''trading pair not found: '' @ pair)
      | Some tp \<Rightarrow> Inr (tp_BaseAsset tp, tp_QuoteAsset tp))"

definition balance_ValidateOrder :: "'d validator_db \<Rightarrow> order \<Rightarrow> 'd \<Rightarrow> string option" where
  "balance_ValidateOrder db ord d =
     (case extractAssets db (o_Pair ord) d of
        Inl e \<Rightarrow> Some (''failed to extract assets from pair '' @ o_Pair ord @ '': '' @ e)
      | Inr (baseAsset, quoteAsset) \<Rightarrow>
          (let buy = (ToUpper (o_Side ord) = ''BUY'');
               requiredAsset = (if buy then quoteAsset else baseAsset);
               requiredAmount = (if buy then o_Price ord * o_Quantity ord else o_Quantity ord)
           in if buy \<and> ToUpper (o_Type ord) = ''MARKET'' then None
              else case vb_balance db (o_UserID ord) requiredAsset d of
                     None \<Rightarrow> Some (''insufficient balance: no '' @ requiredAsset @ '' balance found'')
                   | Some b \<Rightarrow>
                       (if ub_Available b < requiredAmount
                        then Some (''insufficient '' @ requiredAsset @ '' balance: required '' @ vb_text db requiredAmount @
                          '', available '' @ vb_text db (ub_Available b))
                        else None)))"

definition BalanceValidator :: "'d validator_db \<Rightarrow> 'd validator" where
  "BalanceValidator db = (''BalanceValidator'', \<lambda>ord d. Returns (balance_ValidateOrder db ord d))"

text \<open>A count that cannot be read is logged and passes.\<close>

definition open_orders_check :: "'d validator_db \<Rightarrow> int \<Rightarrow> order \<Rightarrow> 'd \<Rightarrow> string option" where
  "open_orders_check db maximum ord d =
     (case vb_open_count db (o_UserID ord) d of
        None \<Rightarrow> None
      | Some n \<Rightarrow> (if maximum \<le> n then Some (''maximum open orders limit exceeded: '' @ show_int n @ ''/'' @ show_int maximum) else None))"

definition validateDefaultRiskLimits :: "'d validator_db \<Rightarrow> order \<Rightarrow> 'd \<Rightarrow> string option" where
  "validateDefaultRiskLimits db ord d =
     (let orderValue = o_Price ord * o_Quantity ord
      in if ToUpper (o_Type ord) \<noteq> ''MARKET'' \<and> 100000 < orderValue
         then Some (''order value '' @ vb_text db orderValue @ '' exceeds default maximum '' @ vb_text db 100000)
         else open_orders_check db 100 ord d)"

definition daily_value_check :: "'d validator_db \<Rightarrow> user_risk_limits \<Rightarrow> decimal \<Rightarrow> order \<Rightarrow> 'd \<Rightarrow> string option" where
  "daily_value_check db rl orderValue ord d =
     (let tx = vb_text db
      in case vb_daily_value db (o_UserID ord) d of
           None \<Rightarrow> open_orders_check db (rl_MaxOpenOrders rl) ord d
         | Some v \<Rightarrow>
             (if rl_MaxDailyOrderValue rl < v + orderValue
              then Some (''daily order value limit would be exceeded: current '' @ tx v @ '' + new '' @ tx orderValue @
                '' > limit '' @ tx (rl_MaxDailyOrderValue rl))
              else open_orders_check db (rl_MaxOpenOrders rl) ord d))"

definition limits_check :: "'d validator_db \<Rightarrow> user_risk_limits \<Rightarrow> order \<Rightarrow> 'd \<Rightarrow> string option" where
  "limits_check db rl ord d =
     (let orderType = ToUpper (o_Type ord); user = vb_ustr db (o_UserID ord); tx = vb_text db;
          orderValue = (if orderType = ''MARKET'' then 0 else o_Price ord * o_Quantity ord)
      in if \<not> rl_TradingEnabled rl then Some (''trading is disabled for user '' @ user)
         else if orderType \<notin> set (map (\<lambda>t. TrimSpace (ToUpper t)) (split_comma (rl_AllowedOrderTypes rl)))
           then Some (''order type '' @ orderType @ '' is not allowed for user '' @ user)
         else if orderValue \<noteq> 0 \<and> rl_MaxOrderValue rl < orderValue
           then Some (''order value '' @ tx orderValue @ '' exceeds maximum allowed '' @ tx (rl_MaxOrderValue rl))
         else case vb_daily_count db (o_UserID ord) d of
                Some n \<Rightarrow>
                  (if rl_MaxDailyOrderCount rl \<le> n
                   then Some (''daily order count limit exceeded: '' @ show_int n @ ''/'' @ show_int (rl_MaxDailyOrderCount rl))
                   else daily_value_check db rl orderValue ord d)
              | None \<Rightarrow> daily_value_check db rl orderValue ord d)"

definition risk_ValidateOrder :: "'d validator_db \<Rightarrow> order \<Rightarrow> 'd \<Rightarrow> string option" where
  "risk_ValidateOrder db ord d =
     (case vb_limits db (o_UserID ord) d of
        None \<Rightarrow> validateDefaultRiskLimits db ord d
      | Some rl \<Rightarrow> limits_check db rl ord d)"

definition RiskValidator :: "'d validator_db \<Rightarrow> 'd validator" where
  "RiskValidator db = (''RiskValidator'', \<lambda>ord d. Returns (risk_ValidateOrder db ord d))"

end
