(* ===== verification/LifecycleTheorems.thy ===== *)
theory LifecycleTheorems
  imports OrderValidators
begin

text \<open>
  The properties of the lifecycle of orders: the recorded transitions of an order are a path of the state
  machine to its state, the orders that pass validation are well typed, and what fills, cancellations
  and keys do on every branch.
\<close>

section \<open>What the code relies on\<close>

text \<open>
  A query finds stored rows, saving and inserting write one row, keys are unique, a transaction with a
  failed statement cannot be committed, and texts of UUIDs are distinct. \<open>orders\<close>, \<open>trs\<close> and \<open>keys\<close> read the tables.
\<close>

definition lifecycle_laws :: "(uuid \<Rightarrow> string) \<Rightarrow> ('d \<Rightarrow> uuid \<rightharpoonup> order) \<Rightarrow> ('d \<Rightarrow> order_transition list) \<Rightarrow>
    ('d \<Rightarrow> string \<rightharpoonup> idempotency_key) \<Rightarrow> 'd lifecycle_db \<Rightarrow> bool" where
  "lifecycle_laws ustr orders trs keys db \<longleftrightarrow>
     (\<forall>s d x. lb_find db s d = Inr x \<longrightarrow> orders d (o_ID x) = Some x \<and> ustr (o_ID x) = s) \<and>
     (\<forall>s u d x. lb_find_user db s u d = Inr x \<longrightarrow> orders d (o_ID x) = Some x \<and> ustr (o_ID x) = s) \<and>
     (\<forall>x d d'. lb_save db x d = Inr d' \<longrightarrow> orders d' = (orders d)(o_ID x \<mapsto> x) \<and> trs d' = trs d \<and> keys d' = keys d) \<and>
     (\<forall>e d d'. lb_create_event db e d = Inr d' \<longrightarrow> orders d' = orders d \<and> trs d' = trs d \<and> keys d' = keys d) \<and>
     (\<forall>t d d'. lb_create_transition db t d = Inr d' \<longrightarrow> orders d' = orders d \<and> trs d' = trs d @ [t] \<and> keys d' = keys d) \<and>
     (\<forall>k d d'. lb_create_key db k d = Inr d' \<longrightarrow> orders d' = orders d \<and> trs d' = trs d \<and> keys d (ik_Key k) = None \<and>
        keys d' = (keys d)(ik_Key k \<mapsto> k)) \<and>
     (\<forall>s u p d k. lb_find_key db s u p d = Inr k \<longrightarrow> keys d s = Some k \<and> ik_Completed k) \<and>
     (\<forall>k d. orders (lb_delete_key db k d) = orders d \<and> trs (lb_delete_key db k d) = trs d) \<and>
     (\<forall>s i r d. orders (lb_complete_key db s i r d) = orders d \<and> trs (lb_complete_key db s i r d) = trs d) \<and>
     (\<forall>d d'. lb_commit db d (lb_poison db d') \<noteq> None) \<and>
     lb_ustr db = ustr \<and> inj ustr"

lemma lifecycleD:
  assumes "lifecycle_laws ustr orders trs keys db"
  shows "lb_find db s d = Inr x \<Longrightarrow> orders d (o_ID x) = Some x \<and> ustr (o_ID x) = s"
    and "lb_find_user db s u d = Inr x \<Longrightarrow> orders d (o_ID x) = Some x \<and> ustr (o_ID x) = s"
    and "lb_save db x d = Inr d' \<Longrightarrow> orders d' = (orders d)(o_ID x \<mapsto> x) \<and> trs d' = trs d \<and> keys d' = keys d"
    and "lb_create_event db e d = Inr d' \<Longrightarrow> orders d' = orders d \<and> trs d' = trs d \<and> keys d' = keys d"
    and "lb_create_transition db t d = Inr d' \<Longrightarrow> orders d' = orders d \<and> trs d' = trs d @ [t] \<and> keys d' = keys d"
    and "lb_create_key db k d = Inr d' \<Longrightarrow> orders d' = orders d \<and> trs d' = trs d \<and> keys d (ik_Key k) = None \<and>
        keys d' = (keys d)(ik_Key k \<mapsto> k)"
    and "lb_find_key db s u p d = Inr k \<Longrightarrow> keys d s = Some k \<and> ik_Completed k"
    and "orders (lb_delete_key db k d) = orders d \<and> trs (lb_delete_key db k d) = trs d"
    and "orders (lb_complete_key db s i r d) = orders d \<and> trs (lb_complete_key db s i r d) = trs d"
    and "lb_commit db d (lb_poison db d') \<noteq> None"
    and "lb_ustr db = ustr" and "inj ustr"
  by (insert assms [unfolded lifecycle_laws_def]) (elim conjE; metis)+

lemma ol_isValidTransition_iff:
  "ol_isValidTransition f t \<longleftrightarrow> (f, t) \<in> {(''SUBMITTED'', ''PENDING''), (''SUBMITTED'', ''REJECTED''), (''PENDING'', ''VALIDATED''),
     (''PENDING'', ''REJECTED''), (''VALIDATED'', ''ACCEPTED''), (''VALIDATED'', ''REJECTED''), (''ACCEPTED'', ''PARTIALLY_FILLED''),
     (''ACCEPTED'', ''FILLED''), (''ACCEPTED'', ''CANCELING''), (''ACCEPTED'', ''EXPIRED''), (''PARTIALLY_FILLED'', ''FILLED''),
     (''PARTIALLY_FILLED'', ''CANCELING''), (''PARTIALLY_FILLED'', ''EXPIRED''), (''CANCELING'', ''CANCELED'')}"
  unfolding ol_isValidTransition_def order_transitions_def by (auto split: option.splits if_splits)

section \<open>One transition\<close>

lemma transitionState_effect:
  assumes "lifecycle_laws ustr orders trs keys db" and "transitionState db now tr f t reason (ord, m, d) = (None, (ord', m', d'))"
  shows "\<exists>x. ol_isValidTransition f t \<and> ord' = ord\<lparr>o_Status := t, o_UpdatedAt := now\<rparr> \<and>
    orders d' = (orders d)(o_ID ord \<mapsto> ord') \<and> trs d' = trs d @ [x] \<and> keys d' = keys d \<and>
    ot_OrderID x = ustr (o_ID ord) \<and> ot_FromState x = f \<and> ot_ToState x = t \<and> m' = incrementStateTransition (f @ ''->'' @ t) m"
proof -
  let ?o = "ord\<lparr>o_Status := t, o_UpdatedAt := now\<rparr>"
  obtain d1 x where s: "ol_isValidTransition f t" "lb_save db ?o d = Inr d1" "lb_create_transition db x d1 = Inr d'"
    "ord' = ?o" "m' = incrementStateTransition (f @ ''->'' @ t) m"
    "ot_OrderID x = lb_ustr db (o_ID ord) \<and> ot_FromState x = f \<and> ot_ToState x = t"
    using assms(2) by (auto simp: transitionState_def Let_def split: if_splits sum.splits)
  show ?thesis using s lifecycleD(3) [OF assms(1) s(2)] lifecycleD(5) [OF assms(1) s(3)] lifecycleD(11) [OF assms(1)]
    by (intro exI [of _ x]) simp
qed

lemma transitionState_fails:
  assumes "transitionState db now tr f t reason (ord, m, d) = (Some e, (ord', m', d'))" "ol_isValidTransition f t"
  shows "m' = m \<and> (\<exists>x. d' = lb_poison db x)"
  using assms by (auto simp: transitionState_def Let_def split: if_splits sum.splits)

lemma transitionState_invalid:
  "\<not> ol_isValidTransition f t \<Longrightarrow>
    transitionState db now tr f t reason (ord, m, d) = (Some (''invalid state transition from '' @ f @ '' to '' @ t), (ord, m, d))"
  by (simp add: transitionState_def)

section \<open>The invariant of the orders\<close>

text \<open>The recorded transitions of an order lead from one state to another along the state machine.\<close>

fun trail :: "string \<Rightarrow> order_transition list \<Rightarrow> string \<Rightarrow> bool" where
  "trail s [] t \<longleftrightarrow> s = t"
| "trail s (x # xs) t \<longleftrightarrow> ot_FromState x = s \<and> ol_isValidTransition s (ot_ToState x) \<and> trail (ot_ToState x) xs t"

lemma trail_snoc [simp]:
  "trail s (xs @ [x]) t \<longleftrightarrow> trail s xs (ot_FromState x) \<and> ol_isValidTransition (ot_FromState x) (ot_ToState x) \<and> ot_ToState x = t"
  by (induction xs arbitrary: s) auto

definition history_of :: "string \<Rightarrow> order_transition list \<Rightarrow> order_transition list" where
  "history_of s = filter (\<lambda>x. ot_OrderID x = s)"

lemma history_of_snoc [simp]: "history_of s (xs @ [x]) = history_of s xs @ (if ot_OrderID x = s then [x] else [])"
  by (simp add: history_of_def)

text \<open>What holds of a stored order besides: what passed validation is well formed, and the state fits the fills.\<close>

definition order_fits :: "order \<Rightarrow> bool" where
  "order_fits x \<longleftrightarrow>
     (o_Status x \<in> {''SUBMITTED'', ''PENDING'', ''REJECTED''} \<or> basic_ValidateOrder x = None) \<and>
     (o_Status x = ''FILLED'' \<longrightarrow> o_Quantity x - o_FilledQuantity x \<le> 1 / 10000000) \<and>
     (o_Status x = ''PARTIALLY_FILLED'' \<longrightarrow> 1 / 10000000 < o_Quantity x - o_FilledQuantity x)"

definition audited :: "(uuid \<Rightarrow> string) \<Rightarrow> (uuid \<rightharpoonup> order) \<Rightarrow> order_transition list \<Rightarrow> bool" where
  "audited ustr R L \<longleftrightarrow> (\<forall>i. case R i of
     None \<Rightarrow> history_of (ustr i) L = []
   | Some x \<Rightarrow> o_ID x = i \<and> trail ''SUBMITTED'' (history_of (ustr i) L) (o_Status x) \<and> order_fits x)"

lemma auditedI:
  assumes "\<And>i. R i = None \<Longrightarrow> history_of (ustr i) L = []"
    and "\<And>i x. R i = Some x \<Longrightarrow> o_ID x = i \<and> trail ''SUBMITTED'' (history_of (ustr i) L) (o_Status x) \<and> order_fits x"
  shows "audited ustr R L"
  using assms by (auto simp: audited_def split: option.splits)

lemma auditedD:
  assumes "audited ustr R L"
  shows "R i = None \<Longrightarrow> history_of (ustr i) L = []"
    and "R i = Some x \<Longrightarrow> o_ID x = i \<and> trail ''SUBMITTED'' (history_of (ustr i) L) (o_Status x) \<and> order_fits x"
  using assms unfolding audited_def by (auto split: option.splits dest: spec [of _ i])

text \<open>Recording a transition of the order \<open>i\<close>, which is new or is in the state it leaves.\<close>

lemma audited_record:
  assumes "audited ustr R L" "inj ustr" "R i = None \<and> ot_FromState x = ''SUBMITTED'' \<or> R i \<noteq> None \<and> o_Status (the (R i)) = ot_FromState x"
    and "ot_OrderID x = ustr i" "ol_isValidTransition (ot_FromState x) (ot_ToState x)"
    and "o_ID y = i" "o_Status y = ot_ToState x" "order_fits y"
  shows "audited ustr (R(i \<mapsto> y)) (L @ [x])"
proof (rule auditedI)
  fix j assume "(R(i \<mapsto> y)) j = None"
  then have "j \<noteq> i" "R j = None" by (auto split: if_splits)
  then show "history_of (ustr j) (L @ [x]) = []" using auditedD(1) [OF assms(1)] assms(2,4) by (auto dest: injD)
next
  fix j z assume z: "(R(i \<mapsto> y)) j = Some z"
  show "o_ID z = j \<and> trail ''SUBMITTED'' (history_of (ustr j) (L @ [x])) (o_Status z) \<and> order_fits z"
  proof (cases "j = i")
    case True
    have "trail ''SUBMITTED'' (history_of (ustr i) L) (ot_FromState x)"
      using assms(3) auditedD [OF assms(1), of i] by (cases "R i") auto
    with True z assms show ?thesis by simp
  next
    case False
    then have "ustr j \<noteq> ustr i" using assms(2) by (auto dest: injD)
    with False z auditedD(2) [OF assms(1), of j z] assms(4) show ?thesis by auto
  qed
qed

lemma audited_update:
  assumes "audited ustr R L" "R i = Some x" "o_ID y = i" "o_Status y = o_Status x" "order_fits y"
  shows "audited ustr (R(i \<mapsto> y)) L"
  using assms by (auto intro!: auditedI dest: auditedD split: if_splits)

section \<open>Submission\<close>

definition pending_order :: "time \<Rightarrow> order \<Rightarrow> order" where
  "pending_order now ord = ord\<lparr>o_Status := ''PENDING'', o_UpdatedAt := now\<rparr>"

text \<open>A submission leaves the database as it is, or stores the order with its two transitions, rejected or validated.\<close>

definition stores_submission :: "(uuid \<Rightarrow> string) \<Rightarrow> ('d \<Rightarrow> uuid \<rightharpoonup> order) \<Rightarrow> ('d \<Rightarrow> order_transition list) \<Rightarrow> order \<Rightarrow> string \<Rightarrow>
    order \<Rightarrow> 'd \<Rightarrow> 'd \<Rightarrow> bool" where
  "stores_submission ustr orders trs ord t ord' d d' \<longleftrightarrow> orders d' = (orders d)(o_ID ord \<mapsto> ord') \<and>
     (\<exists>x y. trs d' = trs d @ [x] @ [y] \<and> ot_OrderID x = ustr (o_ID ord) \<and> ot_FromState x = ''SUBMITTED'' \<and> ot_ToState x = ''PENDING'' \<and>
       ot_OrderID y = ustr (o_ID ord) \<and> ot_FromState y = ''PENDING'' \<and> ot_ToState y = t)"

lemma submit_tx_effect:
  assumes L: "lifecycle_laws ustr orders trs keys db" and s: "submit_tx db vs clock trace key ord (m, d) = Returns (r, (m', d'))"
  shows "d' = d \<and> (\<exists>e. r = Inl e) \<or>
    (\<exists>e. validateOrder vs (pending_order (clock 4) ord) d = Returns (Some e) \<and> r = Inl (''order validation failed: '' @ e) \<and>
       keys d' = (if key = [] then keys d else (keys d)(key \<mapsto> initial_key db (clock 3) key ord)) \<and>
       stores_submission ustr orders trs ord ''REJECTED'' ((pending_order (clock 4) ord)\<lparr>o_Status := ''REJECTED'', o_UpdatedAt := clock 5\<rparr>) d d') \<or>
    validateOrder vs (pending_order (clock 4) ord) d = Returns None \<and>
       r = Inr (Some ((pending_order (clock 4) ord)\<lparr>o_Status := ''VALIDATED'', o_UpdatedAt := clock 5\<rparr>)) \<and>
       stores_submission ustr orders trs ord ''VALIDATED'' ((pending_order (clock 4) ord)\<lparr>o_Status := ''VALIDATED'', o_UpdatedAt := clock 5\<rparr>) d d'"
proof (cases "d' = d \<and> (\<exists>e. r = Inl e)")
  case False
  let ?o1 = "pending_order (clock 4) ord"
  note u = s [unfolded submit_tx_def prod.case]
  obtain d1 where b: "lb_begin db d = None" "lb_create_event db (initial_event db (clock 2) (trace 0) ord) d = Inr d1"
    using u False by (auto split: option.splits sum.splits)
  obtain d2 where k: "(if key \<noteq> [] then lb_create_key db (initial_key db (clock 3) key ord) d1 else Inr d1) = Inr d2"
    using u False b by (cases "if key \<noteq> [] then lb_create_key db (initial_key db (clock 3) key ord) d1 else Inr d1") auto
  obtain q o1 m1 d3 where t: "transitionState db (clock 4) (trace 1) ''SUBMITTED'' ''PENDING'' ''Initial submission'' (ord, m, d2) = (q, (o1, m1, d3))"
    by (cases "transitionState db (clock 4) (trace 1) ''SUBMITTED'' ''PENDING'' ''Initial submission'' (ord, m, d2)") auto
  have q: "q = None" using u False b k t by (cases q) auto
  obtain x where x: "o1 = ?o1" "orders d3 = (orders d2)(o_ID ord \<mapsto> o1)" "trs d3 = trs d2 @ [x]" "keys d3 = keys d2"
    "ot_OrderID x = ustr (o_ID ord)" "ot_FromState x = ''SUBMITTED''" "ot_ToState x = ''PENDING''"
    using transitionState_effect [OF L t [unfolded q]] by (auto simp: pending_order_def)
  have d2: "orders d2 = orders d" "trs d2 = trs d"
      "keys d2 = (if key = [] then keys d else (keys d)(key \<mapsto> initial_key db (clock 3) key ord))"
    using lifecycleD(4) [OF L b(2)] k lifecycleD(6) [OF L, of "initial_key db (clock 3) key ord" d1 d2]
    by (auto simp: initial_key_def split: if_splits)
  have id: "o_ID ?o1 = o_ID ord" by (simp add: pending_order_def)
  show ?thesis
  proof (cases "validateOrder vs ?o1 d")
    case (Returns v)
    show ?thesis
    proof (cases v)
      case (Some e)
      obtain p o2 m2 d4 where t2: "transitionState db (clock 5) (trace 2) ''PENDING'' ''REJECTED'' (''Validation failed: '' @ e) (?o1, m1, d3) = (p, (o2, m2, d4))"
        by (cases "transitionState db (clock 5) (trace 2) ''PENDING'' ''REJECTED'' (''Validation failed: '' @ e) (?o1, m1, d3)") auto
      have r: "r = Inl (''order validation failed: '' @ e)" "d' = (case lb_commit db d d4 of None \<Rightarrow> d4 | Some e \<Rightarrow> d)"
        using u b k t q Returns Some x(1) t2 by (auto split: option.splits)
      then have c: "lb_commit db d d4 = None" "d' = d4" using False by (auto split: option.splits)
      have p: "p = None"
      proof (cases p)
        case (Some e')
        have "ol_isValidTransition ''PENDING'' ''REJECTED''" by (simp add: ol_isValidTransition_iff)
        from transitionState_fails [OF t2 [unfolded Some] this] obtain z where "d4 = lb_poison db z" by blast
        then show ?thesis using c(1) lifecycleD(10) [OF L] by simp
      qed
      obtain y where "o2 = ?o1\<lparr>o_Status := ''REJECTED'', o_UpdatedAt := clock 5\<rparr>" "orders d4 = (orders d3)(o_ID ord \<mapsto> o2)"
        "trs d4 = trs d3 @ [y]" "keys d4 = keys d3" "ot_OrderID y = ustr (o_ID ord)" "ot_FromState y = ''PENDING''" "ot_ToState y = ''REJECTED''"
        using transitionState_effect [OF L t2 [unfolded p]] id by auto
      then have "stores_submission ustr orders trs ord ''REJECTED'' (?o1\<lparr>o_Status := ''REJECTED'', o_UpdatedAt := clock 5\<rparr>) d d'"
        "keys d' = (if key = [] then keys d else (keys d)(key \<mapsto> initial_key db (clock 3) key ord))"
        unfolding stores_submission_def using x d2 c by auto
      then show ?thesis using r(1) Returns Some by blast
    next
      case None
      obtain p o2 m2 d4 where t2: "transitionState db (clock 5) (trace 2) ''PENDING'' ''VALIDATED'' ''Validation passed'' (?o1, m1, d3) = (p, (o2, m2, d4))"
        by (cases "transitionState db (clock 5) (trace 2) ''PENDING'' ''VALIDATED'' ''Validation passed'' (?o1, m1, d3)") auto
      have p: "p = None" and c: "lb_commit db d d4 = None" using u b k t q Returns None x(1) t2 False by (auto split: option.splits)
      have r: "r = Inr (Some o2)" "d' = (if key \<noteq> [] then updateIdempotencyResult db key o2 d4 else d4)"
        using u b k t q Returns None x(1) t2 p c by auto
      obtain y where "o2 = ?o1\<lparr>o_Status := ''VALIDATED'', o_UpdatedAt := clock 5\<rparr>" "orders d4 = (orders d3)(o_ID ord \<mapsto> o2)"
        "trs d4 = trs d3 @ [y]" "ot_OrderID y = ustr (o_ID ord)" "ot_FromState y = ''PENDING''" "ot_ToState y = ''VALIDATED''"
        using transitionState_effect [OF L t2 [unfolded p]] id by auto
      moreover from this have "stores_submission ustr orders trs ord ''VALIDATED'' o2 d d'"
        unfolding stores_submission_def using x d2 r(2) lifecycleD(9) [OF L] by (auto simp: updateIdempotencyResult_def)
      ultimately show ?thesis using r(1) Returns None by blast
    qed
  qed (use u b k t q x(1) in auto)
qed simp

section \<open>Every call keeps the invariant\<close>

lemma basic_other_fields [simp]:
  "basic_ValidateOrder (x\<lparr>o_Status := s\<rparr>) = basic_ValidateOrder x"
  "basic_ValidateOrder (x\<lparr>o_UpdatedAt := t\<rparr>) = basic_ValidateOrder x"
  "basic_ValidateOrder (x\<lparr>o_FilledQuantity := q\<rparr>) = basic_ValidateOrder x"
  by (simp_all add: basic_ValidateOrder_def Let_def cong del: if_weak_cong)

lemma validateOrder_passes:
  "validateOrder vs x d = Returns None \<Longrightarrow> (name, v) \<in> set vs \<Longrightarrow> v x d = Returns None"
  by (induction vs) (auto simp: bind_outcome_Returns_iff split: option.splits)

lemma stores_submission_audited:
  assumes "audited ustr (orders d) (trs d)" "inj ustr" "stores_submission ustr orders trs ord t ord' d d'"
    and "orders d (o_ID ord) = None" "o_ID ord' = o_ID ord" "o_Status ord' = t" "order_fits ord'" "t = ''REJECTED'' \<or> t = ''VALIDATED''"
  shows "audited ustr (orders d') (trs d')"
proof -
  obtain x y where d': "orders d' = (orders d)(o_ID ord \<mapsto> ord')" "trs d' = (trs d @ [x]) @ [y]"
    and x: "ot_OrderID x = ustr (o_ID ord)" "ot_FromState x = ''SUBMITTED''" "ot_ToState x = ''PENDING''"
    and y: "ot_OrderID y = ustr (o_ID ord)" "ot_FromState y = ''PENDING''" "ot_ToState y = t"
    using assms(3) by (auto simp: stores_submission_def)
  let ?p = "ord'\<lparr>o_Status := ''PENDING''\<rparr>"
  have "audited ustr ((orders d)(o_ID ord \<mapsto> ?p)) (trs d @ [x])"
    by (rule audited_record [OF assms(1,2)]) (use assms(4,5) x in \<open>auto simp: ol_isValidTransition_iff order_fits_def\<close>)
  then have "audited ustr ((orders d)(o_ID ord \<mapsto> ?p, o_ID ord \<mapsto> ord')) ((trs d @ [x]) @ [y])"
    by (rule audited_record [OF _ assms(2)]) (use assms y in \<open>auto simp: ol_isValidTransition_iff\<close>)
  then show ?thesis unfolding d' by simp
qed

lemma lifecycle_tx_cases:
  assumes "lifecycle_tx db body (m, d) = Returns (r, (m', d'))"
  shows "r \<noteq> None \<and> d' = d \<or> r = None \<and> body (m, d) = Returns (None, (m', d'))"
  using assms by (auto simp: lifecycle_tx_def split: option.splits outcome.splits prod.splits)

lemma transition_result_None:
  "transition_result r = Returns (None, (m', d')) \<longleftrightarrow> (\<exists>ord'. r = (None, (ord', m', d')))"
  by (auto simp: transition_result_def split: prod.splits)

text \<open>A transition of a stored order that is in the state it leaves.\<close>

lemma transition_audited:
  assumes L: "lifecycle_laws ustr orders trs keys db" and I: "audited ustr (orders d) (trs d)"
    and "orders d (o_ID x) = Some x0" "o_Status x0 = f" "transitionState db now tr f t reason (x, m, d) = (None, (x', m', d'))"
    and "order_fits (x\<lparr>o_Status := t\<rparr>)"
  shows "audited ustr (orders d') (trs d') \<and> orders d' (o_ID x) = Some x' \<and> x' = x\<lparr>o_Status := t, o_UpdatedAt := now\<rparr>"
proof -
  obtain y where y: "ol_isValidTransition f t" "x' = x\<lparr>o_Status := t, o_UpdatedAt := now\<rparr>" "orders d' = (orders d)(o_ID x \<mapsto> x')"
    "trs d' = trs d @ [y]" "ot_OrderID y = ustr (o_ID x)" "ot_FromState y = f" "ot_ToState y = t"
    using transitionState_effect [OF L assms(5)] by blast
  have "order_fits x'" using assms(6) y(2) by (simp add: order_fits_def)
  then show ?thesis using audited_record [OF I lifecycleD(12) [OF L], of "o_ID x" y x'] assms(3,4) y by simp
qed

lemma SubmitOrder_audited:
  assumes L: "lifecycle_laws ustr orders trs keys db" and I: "audited ustr (orders d) (trs d)"
    and "BasicOrderValidator \<in> set vs" "orders d (o_ID (submitted_order newID (clock 1) ord)) = None"
    and s: "SubmitOrder db vs newID clock trace ord key (m, d) = Returns (r, (m', d'))"
  shows "audited ustr (orders d') (trs d')"
proof -
  obtain q d1 where q: "(if key \<noteq> [] then checkIdempotency db (clock 0) key (lb_ustr db (o_UserID ord)) ''submit_order'' d
              else (None, d)) = (q, d1)"
    by (cases "if key \<noteq> [] then checkIdempotency db (clock 0) key (lb_ustr db (o_UserID ord)) ''submit_order'' d else (None, d)")
  have d1: "orders d1 = orders d" "trs d1 = trs d"
    using q lifecycleD(8) [OF L] by (auto simp: checkIdempotency_def split: if_splits sum.splits)
  let ?o = "submitted_order newID (clock 1) ord"
  show ?thesis
  proof (cases q)
    case (Some a)
    then show ?thesis using s q d1 I by (auto simp: SubmitOrder_def)
  next
    case None
    then have "submit_tx db vs clock trace key ?o (m, d1) = Returns (r, (m', d'))" using s q by (simp add: SubmitOrder_def)
    from submit_tx_effect [OF L this] show ?thesis
    proof (elim disjE exE conjE)
      assume "stores_submission ustr orders trs ?o ''REJECTED'' (pending_order (clock 4) ?o\<lparr>o_Status := ''REJECTED'', o_UpdatedAt := clock 5\<rparr>) d1 d'"
      from stores_submission_audited [OF _ lifecycleD(12) [OF L] this] show ?thesis
        using I d1 assms(4) by (simp add: pending_order_def order_fits_def)
    next
      assume v: "validateOrder vs (pending_order (clock 4) ?o) d1 = Returns None"
        and "stores_submission ustr orders trs ?o ''VALIDATED'' (pending_order (clock 4) ?o\<lparr>o_Status := ''VALIDATED'', o_UpdatedAt := clock 5\<rparr>) d1 d'"
      from stores_submission_audited [OF _ lifecycleD(12) [OF L] this(2)] show ?thesis
        using I d1 assms(4) validateOrder_passes [OF v assms(3) [unfolded BasicOrderValidator_def]]
        by (simp add: pending_order_def order_fits_def)
    qed (use I d1 in simp_all)
  qed
qed

lemma AcceptOrder_audited:
  assumes L: "lifecycle_laws ustr orders trs keys db" and I: "audited ustr (orders d) (trs d)"
    and s: "AcceptOrder db now tr orderID reason (m, d) = Returns (r, (m', d'))"
  shows "audited ustr (orders d') (trs d')"
  using lifecycle_tx_cases [OF s [unfolded AcceptOrder_def]]
proof (elim disjE conjE)
  assume b: "(case (m, d) of (m, d) \<Rightarrow> case lb_find db orderID d of
         Inl e \<Rightarrow> Returns (Some (''order not found: '' @ e), (m, d))
       | Inr ord \<Rightarrow>
           (if o_Status ord \<noteq> ''VALIDATED''
            then Returns (Some (''order cannot be accepted from state '' @ o_Status ord), (m, d))
            else transition_result (transitionState db now tr ''VALIDATED'' ''ACCEPTED'' reason (ord, m, d)))) = Returns (None, (m', d'))"
  then obtain x x' where x: "lb_find db orderID d = Inr x" "o_Status x = ''VALIDATED''"
    "transitionState db now tr ''VALIDATED'' ''ACCEPTED'' reason (x, m, d) = (None, (x', m', d'))"
    by (auto simp: transition_result_None split: sum.splits if_splits)
  have o: "orders d (o_ID x) = Some x" using lifecycleD(1) [OF L x(1)] by simp
  have "order_fits (x\<lparr>o_Status := ''ACCEPTED''\<rparr>)" using auditedD(2) [OF I o] x(2) by (simp add: order_fits_def)
  then show ?thesis using transition_audited [OF L I o x(2,3)] by blast
qed (use I in simp)

lemma fill_state_fst: "fst (fill_state fe q p tid rest) = (if rest \<le> 1 / 10000000 then ''FILLED'' else ''PARTIALLY_FILLED'')"
  by (simp add: fill_state_def)

lemma FillOrder_success:
  assumes L: "lifecycle_laws ustr orders trs keys db"
    and s: "FillOrder db fe clock trace orderID fq fp tradeID (m, d) = Returns (None, (m', d'))"
  shows "\<exists>x q y. orders d (o_ID x) = Some x \<and> ustr (o_ID x) = orderID \<and> fe_NewFromFloat fe fq = Some q \<and>
    (let rest = o_Quantity x - (o_FilledQuantity x + q); new = (if rest \<le> 1 / 10000000 then ''FILLED'' else ''PARTIALLY_FILLED'')
     in (o_Status x = ''ACCEPTED'' \<or> o_Status x = ''PARTIALLY_FILLED'' \<and> rest \<le> 1 / 10000000) \<and>
        orders d' = (orders d)(o_ID x \<mapsto> x\<lparr>o_FilledQuantity := o_FilledQuantity x + q, o_Status := new, o_UpdatedAt := clock 2\<rparr>) \<and>
        trs d' = trs d @ [y] \<and> ot_OrderID y = orderID \<and> ot_FromState y = o_Status x \<and> ot_ToState y = new \<and>
        m' = incrementStateTransition (o_Status x @ ''->'' @ new) (if new = ''FILLED'' then m\<lparr>lm_OrdersFilled := lm_OrdersFilled m + 1\<rparr> else m))"
proof -
  note b = lifecycle_tx_cases [OF s [unfolded FillOrder_def], simplified prod.case]
  obtain x where x: "lb_find db orderID d = Inr x" "o_Status x = ''ACCEPTED'' \<or> o_Status x = ''PARTIALLY_FILLED''"
    using b by (auto split: sum.splits if_splits)
  obtain q where q: "fe_NewFromFloat fe fq = Some q" using b x by (auto split: option.splits if_splits)
  let ?x1 = "x\<lparr>o_FilledQuantity := o_FilledQuantity x + q, o_UpdatedAt := clock 0\<rparr>"
  let ?rest = "o_Quantity x - (o_FilledQuantity x + q)"
  let ?new = "if ?rest \<le> 1 / 10000000 then ''FILLED'' else ''PARTIALLY_FILLED''"
  let ?m1 = "if ?new = ''FILLED'' then m\<lparr>lm_OrdersFilled := lm_OrdersFilled m + 1\<rparr> else m"
  obtain reason where f: "fill_state fe fq fp tradeID ?rest = (?new, reason)"
    using fill_state_fst [of fe fq fp tradeID ?rest] by (cases "fill_state fe fq fp tradeID ?rest") auto
  obtain d1 where d1: "lb_save db ?x1 d = Inr d1" using b x q f by (auto simp: Let_def split: sum.splits)
  obtain d2 where d2: "lb_create_event db (fill_event db fe (clock 1) (trace 0) orderID fq fp tradeID ?rest ?x1) d1 = Inr d2"
    using b x q f d1 by (auto simp: Let_def split: sum.splits)
  obtain x' where t: "transitionState db (clock 2) (trace 1) (o_Status x) ?new reason (?x1, ?m1, d2) = (None, (x', m', d'))"
    using b x q f d1 d2 by (auto simp: Let_def transition_result_None)
  obtain y where y: "ol_isValidTransition (o_Status x) ?new" "x' = ?x1\<lparr>o_Status := ?new, o_UpdatedAt := clock 2\<rparr>"
    "orders d' = (orders d2)(o_ID x \<mapsto> x')" "trs d' = trs d2 @ [y]" "ot_OrderID y = ustr (o_ID x)"
    "ot_FromState y = o_Status x" "ot_ToState y = ?new" "m' = incrementStateTransition (o_Status x @ ''->'' @ ?new) ?m1"
    using transitionState_effect [OF L t] by auto
  have k: "o_Status x = ''ACCEPTED'' \<or> o_Status x = ''PARTIALLY_FILLED'' \<and> ?rest \<le> 1 / 10000000"
    using x(2) y(1) by (auto simp: ol_isValidTransition_iff split: if_splits)
  have "orders d' = (orders d)(o_ID x \<mapsto> x\<lparr>o_FilledQuantity := o_FilledQuantity x + q, o_Status := ?new, o_UpdatedAt := clock 2\<rparr>)"
    "trs d' = trs d @ [y]"
    using y(2,3,4) lifecycleD(4) [OF L d2] lifecycleD(3) [OF L d1] by simp_all
  then show ?thesis unfolding Let_def using k q y(5,6,7,8) lifecycleD(1) [OF L x(1)] by blast
qed

lemma FillOrder_audited:
  assumes L: "lifecycle_laws ustr orders trs keys db" and I: "audited ustr (orders d) (trs d)"
    and s: "FillOrder db fe clock trace orderID fq fp tradeID (m, d) = Returns (r, (m', d'))"
  shows "audited ustr (orders d') (trs d')"
proof (cases r)
  case None
  obtain x q y where x: "orders d (o_ID x) = Some x" "ustr (o_ID x) = orderID"
    and e: "let rest = o_Quantity x - (o_FilledQuantity x + q); new = (if rest \<le> 1 / 10000000 then ''FILLED'' else ''PARTIALLY_FILLED'')
     in (o_Status x = ''ACCEPTED'' \<or> o_Status x = ''PARTIALLY_FILLED'' \<and> rest \<le> 1 / 10000000) \<and>
        orders d' = (orders d)(o_ID x \<mapsto> x\<lparr>o_FilledQuantity := o_FilledQuantity x + q, o_Status := new, o_UpdatedAt := clock 2\<rparr>) \<and>
        trs d' = trs d @ [y] \<and> ot_OrderID y = orderID \<and> ot_FromState y = o_Status x \<and> ot_ToState y = new"
    using FillOrder_success [OF L s [unfolded None]] unfolding Let_def by blast
  let ?rest = "o_Quantity x - (o_FilledQuantity x + q)"
  let ?new = "if ?rest \<le> 1 / 10000000 then ''FILLED'' else ''PARTIALLY_FILLED''"
  let ?x' = "x\<lparr>o_FilledQuantity := o_FilledQuantity x + q, o_Status := ?new, o_UpdatedAt := clock 2\<rparr>"
  note e = e [unfolded Let_def]
  have "basic_ValidateOrder x = None" using auditedD(2) [OF I x(1)] e by (auto simp: order_fits_def)
  then have fits: "order_fits ?x'" by (simp add: order_fits_def diff_diff_eq)
  have "ol_isValidTransition (o_Status x) ?new" using e by (auto simp: ol_isValidTransition_iff)
  then have "audited ustr ((orders d)(o_ID x \<mapsto> ?x')) (trs d @ [y])"
    by (intro audited_record [OF I lifecycleD(12) [OF L]]) (use x e fits in auto)
  then show ?thesis using e by simp
next
  case (Some e)
  then show ?thesis using lifecycle_tx_cases [OF s [unfolded FillOrder_def]] I by auto
qed

text \<open>A cancellation succeeds from two states only, by two transitions.\<close>

lemma CancelOrder_success:
  assumes L: "lifecycle_laws ustr orders trs keys db"
    and s: "ol_CancelOrder db clock trace orderID userID reason (m, d) = Returns (None, (m', d'))"
  shows "\<exists>x m1 d1 x1 x'. lb_find_user db orderID userID d = Inr x \<and> (o_Status x = ''ACCEPTED'' \<or> o_Status x = ''PARTIALLY_FILLED'') \<and>
    transitionState db (clock 0) (trace 0) (o_Status x) ''CANCELING'' (''Cancel requested: '' @ reason) (x, m, d) = (None, (x1, m1, d1)) \<and>
    transitionState db (clock 1) (trace 1) ''CANCELING'' ''CANCELED'' ''Cancellation completed'' (x1, m1, d1) = (None, (x', m', d'))"
proof -
  note b = lifecycle_tx_cases [OF s [unfolded ol_CancelOrder_def], simplified prod.case]
  obtain x where x: "lb_find_user db orderID userID d = Inr x"
    "o_Status x \<in> {''SUBMITTED'', ''PENDING'', ''VALIDATED'', ''ACCEPTED'', ''PARTIALLY_FILLED''}"
    using b by (auto split: sum.splits if_splits)
  obtain r x1 m1 d1 where t: "transitionState db (clock 0) (trace 0) (o_Status x) ''CANCELING'' (''Cancel requested: '' @ reason) (x, m, d) = (r, (x1, m1, d1))"
    by (cases "transitionState db (clock 0) (trace 0) (o_Status x) ''CANCELING'' (''Cancel requested: '' @ reason) (x, m, d)") auto
  have r: "r = None" using b x t by (cases r) (auto simp del: append.simps)
  have "ol_isValidTransition (o_Status x) ''CANCELING''" using transitionState_effect [OF L t [unfolded r]] by blast
  then have "o_Status x = ''ACCEPTED'' \<or> o_Status x = ''PARTIALLY_FILLED''" by (auto simp: ol_isValidTransition_iff)
  moreover obtain x' where "transitionState db (clock 1) (trace 1) ''CANCELING'' ''CANCELED'' ''Cancellation completed'' (x1, m1, d1) = (None, (x', m', d'))"
    using b x t r by (auto simp: transition_result_None simp del: append.simps)
  ultimately show ?thesis using x(1) t r by blast
qed

lemma CancelOrder_audited:
  assumes L: "lifecycle_laws ustr orders trs keys db" and I: "audited ustr (orders d) (trs d)"
    and s: "ol_CancelOrder db clock trace orderID userID reason (m, d) = Returns (r, (m', d'))"
  shows "audited ustr (orders d') (trs d')"
proof (cases r)
  case None
  obtain x m1 d1 x1 x' where x: "lb_find_user db orderID userID d = Inr x" "o_Status x = ''ACCEPTED'' \<or> o_Status x = ''PARTIALLY_FILLED''"
    "transitionState db (clock 0) (trace 0) (o_Status x) ''CANCELING'' (''Cancel requested: '' @ reason) (x, m, d) = (None, (x1, m1, d1))"
    "transitionState db (clock 1) (trace 1) ''CANCELING'' ''CANCELED'' ''Cancellation completed'' (x1, m1, d1) = (None, (x', m', d'))"
    using CancelOrder_success [OF L s [unfolded None]] by blast
  have o: "orders d (o_ID x) = Some x" using lifecycleD(2) [OF L x(1)] by simp
  have "basic_ValidateOrder x = None" using auditedD(2) [OF I o] x(2) unfolding order_fits_def by auto
  then have fits: "order_fits (x\<lparr>o_Status := t\<rparr>)" if "t = ''CANCELING'' \<or> t = ''CANCELED''" for t
    using that by (elim disjE) (simp_all add: order_fits_def)
  have a: "audited ustr (orders d1) (trs d1)" "orders d1 (o_ID x) = Some x1" "x1 = x\<lparr>o_Status := ''CANCELING'', o_UpdatedAt := clock 0\<rparr>"
    using transition_audited [OF L I o refl x(3) fits [OF disjI1 [OF refl]]] by simp_all
  have "order_fits (x1\<lparr>o_Status := ''CANCELED''\<rparr>)" using fits [of "''CANCELED''"] a(3) by (simp add: order_fits_def)
  moreover have "orders d1 (o_ID x1) = Some x1" "o_Status x1 = ''CANCELING''" using a(2,3) by simp_all
  ultimately show ?thesis using transition_audited [OF L a(1) _ _ x(4)] by simp
next
  case (Some e)
  then show ?thesis using lifecycle_tx_cases [OF s [unfolded ol_CancelOrder_def]] I by auto
qed

section \<open>Histories\<close>

text \<open>
  The calls that change the tables, one after the other; each meets a database that keeps the laws and
  whose statements may fail, each order is submitted under an ID that is new, and the basic validator is among the validators.
\<close>

inductive lifecycle_step :: "(uuid \<Rightarrow> string) \<Rightarrow> ('d \<Rightarrow> uuid \<rightharpoonup> order) \<Rightarrow> ('d \<Rightarrow> order_transition list) \<Rightarrow>
    ('d \<Rightarrow> string \<rightharpoonup> idempotency_key) \<Rightarrow> 'd \<Rightarrow> 'd \<Rightarrow> bool"
  for ustr :: "uuid \<Rightarrow> string" and orders :: "'d \<Rightarrow> uuid \<rightharpoonup> order" and trs :: "'d \<Rightarrow> order_transition list"
    and keys :: "'d \<Rightarrow> string \<rightharpoonup> idempotency_key" where
  submit: "lifecycle_laws ustr orders trs keys db \<Longrightarrow> BasicOrderValidator \<in> set vs \<Longrightarrow>
    orders d (o_ID (submitted_order newID (clock 1) ord)) = None \<Longrightarrow>
    SubmitOrder db vs newID clock trace ord key (m, d) = Returns (r, (m', d')) \<Longrightarrow> lifecycle_step ustr orders trs keys d d'"
| accept: "lifecycle_laws ustr orders trs keys db \<Longrightarrow> AcceptOrder db now tr orderID reason (m, d) = Returns (e, (m', d')) \<Longrightarrow>
    lifecycle_step ustr orders trs keys d d'"
| fill: "lifecycle_laws ustr orders trs keys db \<Longrightarrow>
    FillOrder db (fe :: string fill_env) clock trace orderID fq fp tradeID (m, d) = Returns (e, (m', d')) \<Longrightarrow>
    lifecycle_step ustr orders trs keys d d'"
| cancel: "lifecycle_laws ustr orders trs keys db \<Longrightarrow>
    ol_CancelOrder db clock trace orderID userID reason (m, d) = Returns (e, (m', d')) \<Longrightarrow> lifecycle_step ustr orders trs keys d d'"

inductive lifecycle_history :: "(uuid \<Rightarrow> string) \<Rightarrow> ('d \<Rightarrow> uuid \<rightharpoonup> order) \<Rightarrow> ('d \<Rightarrow> order_transition list) \<Rightarrow>
    ('d \<Rightarrow> string \<rightharpoonup> idempotency_key) \<Rightarrow> 'd \<Rightarrow> bool"
  for ustr orders trs keys where
  empty: "orders d = Map.empty \<Longrightarrow> trs d = [] \<Longrightarrow> lifecycle_history ustr orders trs keys d"
| step: "lifecycle_history ustr orders trs keys d \<Longrightarrow> lifecycle_step ustr orders trs keys d d' \<Longrightarrow>
    lifecycle_history ustr orders trs keys d'"

lemma lifecycle_history_audited: "lifecycle_history ustr orders trs keys d \<Longrightarrow> audited ustr (orders d) (trs d)"
proof (induction rule: lifecycle_history.induct)
  case (empty d)
  then show ?case by (simp add: audited_def history_of_def)
next
  case (step d d')
  from step.hyps(2) step.IH show ?case
    by cases (auto intro: SubmitOrder_audited AcceptOrder_audited FillOrder_audited CancelOrder_audited)
qed

section \<open>A database\<close>

text \<open>Rows in lists, the last written first; \<open>None\<close> is a transaction with a failed statement.\<close>

type_synonym mem_lifecycle = "((uuid \<times> order) list \<times> order_transition list \<times> (string \<times> idempotency_key) list) option"

definition mem_orders :: "mem_lifecycle \<Rightarrow> uuid \<rightharpoonup> order" where
  "mem_orders d = (case d of None \<Rightarrow> Map.empty | Some (A, T, K) \<Rightarrow> map_of A)"

definition mem_trs :: "mem_lifecycle \<Rightarrow> order_transition list" where
  "mem_trs d = (case d of None \<Rightarrow> [] | Some (A, T, K) \<Rightarrow> T)"

definition mem_keys :: "mem_lifecycle \<Rightarrow> string \<rightharpoonup> idempotency_key" where
  "mem_keys d = (case d of None \<Rightarrow> Map.empty | Some (A, T, K) \<Rightarrow> map_of K)"

definition mem_find_order :: "(order \<Rightarrow> bool) \<Rightarrow> mem_lifecycle \<Rightarrow> string + order" where
  "mem_find_order P d =
     (case d of
        None \<Rightarrow> Inl ''current transaction is aborted''
      | Some (A, T, K) \<Rightarrow>
          (case find (\<lambda>(i, x). P x \<and> map_of A (o_ID x) = Some x) A of Some (i, x) \<Rightarrow> Inr x | None \<Rightarrow> Inl ''record not found''))"

definition mem_lifecycle_db :: "mem_lifecycle lifecycle_db" where
  "mem_lifecycle_db = \<lparr>lb_find = (\<lambda>s. mem_find_order (\<lambda>x. show_nat (o_ID x) = s)),
     lb_find_user = (\<lambda>s u. mem_find_order (\<lambda>x. show_nat (o_ID x) = s \<and> show_nat (o_UserID x) = u)),
     lb_save = (\<lambda>x d. case d of None \<Rightarrow> Inl ''aborted'' | Some (A, r) \<Rightarrow> Inr (Some ((o_ID x, x) # A, r))),
     lb_create_event = (\<lambda>e d. case d of None \<Rightarrow> Inl ''aborted'' | Some r \<Rightarrow> Inr d),
     lb_create_transition = (\<lambda>t d. case d of None \<Rightarrow> Inl ''aborted'' | Some (A, T, K) \<Rightarrow> Inr (Some (A, T @ [t], K))),
     lb_create_key = (\<lambda>k d. case d of None \<Rightarrow> Inl ''aborted''
       | Some (A, T, K) \<Rightarrow> (if map_of K (ik_Key k) = None then Inr (Some (A, T, (ik_Key k, k) # K)) else Inl ''duplicate key'')),
     lb_find_key = (\<lambda>s u p d. case mem_keys d s of
         Some k \<Rightarrow> (if ik_Completed k \<and> ik_UserID k = u \<and> ik_Operation k = p then Inr k else Inl ''record not found'')
       | None \<Rightarrow> Inl ''record not found''),
     lb_delete_key = (\<lambda>k d. case d of None \<Rightarrow> None | Some (A, T, K) \<Rightarrow> Some (A, T, filter (\<lambda>p. fst p \<noteq> ik_Key k) K)),
     lb_complete_key = (\<lambda>s i r d. case d of None \<Rightarrow> None
       | Some (A, T, K) \<Rightarrow> Some (A, T, map (\<lambda>(s', k). (s', if s' = s then k\<lparr>ik_OrderID := i, ik_Response := r, ik_Completed := True\<rparr> else k)) K)),
     lb_begin = (\<lambda>d. None), lb_commit = (\<lambda>d d'. if d' = None then Some ''commit of an aborted transaction'' else None),
     lb_poison = (\<lambda>d. None), lb_ustr = show_nat\<rparr>"

lemma mem_lifecycle_laws: "lifecycle_laws show_nat mem_orders mem_trs mem_keys mem_lifecycle_db"
proof -
  have f: "mem_orders d (o_ID x) = Some x \<and> P x" if "mem_find_order P d = Inr x" for P d x
    using that by (auto simp: mem_find_order_def mem_orders_def find_Some_iff split: option.splits)
  have "inj show_nat" by (rule injI) (rule show_nat_inj)
  then show ?thesis unfolding lifecycle_laws_def
    by (auto simp: mem_lifecycle_db_def mem_trs_def mem_keys_def dest!: f split: option.splits if_splits)
      (auto simp: mem_orders_def)
qed

section \<open>The audit trail\<close>


definition lc_order :: order where
  "lc_order = zero_order\<lparr>o_UserID := 4, o_Pair := ''BTC-USD'', o_Side := ''buy'', o_Type := ''limit'', o_Price := 100,
     o_Quantity := 3, o_TimeInForce := ''GTC''\<rparr>"

definition lc_submitted :: "((string + order option) \<times> (lifecycle_metrics \<times> mem_lifecycle)) outcome" where
  "lc_submitted = SubmitOrder mem_lifecycle_db [BasicOrderValidator] 7 int (\<lambda>n. ''t'') lc_order [] (new_metrics, Some ([], [], []))"

definition lc_accepted :: "(string option \<times> (lifecycle_metrics \<times> mem_lifecycle)) outcome" where
  "lc_accepted = (case lc_submitted of
     Returns (r, st) \<Rightarrow> AcceptOrder mem_lifecycle_db 9 ''t'' ''7'' ''risk ok'' st | _ \<Rightarrow> Panics)"

definition tenths :: "string fill_env" where
  "tenths = \<lparr>fe_NewFromFloat = (\<lambda>s. if s = ''two'' then Some 2 else if s = ''half'' then Some (1 / 2) else None), fe_f = (\<lambda>s. s), fe_float = (\<lambda>x. ''x'')\<rparr>"

definition lc_filled :: "(string option \<times> (lifecycle_metrics \<times> mem_lifecycle)) outcome" where
  "lc_filled = (case lc_accepted of
     Returns (r, st) \<Rightarrow> FillOrder mem_lifecycle_db tenths int (\<lambda>n. ''t'') ''7'' ''two'' ''hundred'' ''tr'' st | _ \<Rightarrow> Panics)"

definition lc_state :: "(string option \<times> (lifecycle_metrics \<times> mem_lifecycle)) outcome \<Rightarrow> mem_lifecycle" where
  "lc_state r = (case r of Returns (e, (m, d)) \<Rightarrow> d | _ \<Rightarrow> None)"

lemma lc_filled_history: "lifecycle_history show_nat mem_orders mem_trs mem_keys (lc_state lc_filled)"
proof -
  have v: "(case lc_submitted of Returns (r, st) \<Rightarrow> True | _ \<Rightarrow> False) \<and> (case lc_accepted of Returns (r, st) \<Rightarrow> True | _ \<Rightarrow> False) \<and>
      (case lc_filled of Returns (r, st) \<Rightarrow> True | _ \<Rightarrow> False)" by code_simp
  obtain r1 m1 d1 where s1: "lc_submitted = Returns (r1, (m1, d1))" using v by (cases lc_submitted) auto
  obtain r2 m2 d2 where s2: "lc_accepted = Returns (r2, (m2, d2))" using v by (cases lc_accepted) auto
  obtain r3 m3 d3 where s3: "lc_filled = Returns (r3, (m3, d3))" using v by (cases lc_filled) auto
  have a: "AcceptOrder mem_lifecycle_db 9 ''t'' ''7'' ''risk ok'' (m1, d1) = Returns (r2, (m2, d2))"
    using s2 unfolding lc_accepted_def s1 by simp
  have f: "FillOrder mem_lifecycle_db tenths int (\<lambda>n. ''t'') ''7'' ''two'' ''hundred'' ''tr'' (m2, d2) = Returns (r3, (m3, d3))"
    using s3 unfolding lc_filled_def s2 by simp
  have "lifecycle_history show_nat mem_orders mem_trs mem_keys (Some ([], [], []))"
    by (rule lifecycle_history.empty) (simp_all add: mem_orders_def mem_trs_def)
  then have "lifecycle_history show_nat mem_orders mem_trs mem_keys d1"
    by (rule lifecycle_history.step) (rule lifecycle_step.submit [OF mem_lifecycle_laws _ _ s1 [unfolded lc_submitted_def]], simp_all add: mem_orders_def)
  then have "lifecycle_history show_nat mem_orders mem_trs mem_keys d2"
    by (rule lifecycle_history.step) (rule lifecycle_step.accept [OF mem_lifecycle_laws a])
  then have "lifecycle_history show_nat mem_orders mem_trs mem_keys d3"
    by (rule lifecycle_history.step) (rule lifecycle_step.fill [OF mem_lifecycle_laws f])
  then show ?thesis by (simp add: lc_state_def s3)
qed


text \<open>
  C24: validated orders are well formed. In every such history, where \<open>BasicOrderValidator\<close> is among
  the validators of every submission and every submission is under a new ID, an order that has got past its validation has a known side, type and time in force in any case of letters, a positive quantity,
  a positive price where its type has one and a positive stop price where its type has one, and keeps them.
\<close>

theorem validated_well_formed:
  assumes "lifecycle_history ustr orders trs keys d" and "orders d i = Some x"
    and "o_Status x \<notin> {''SUBMITTED'', ''PENDING'', ''REJECTED''}"
  shows "o_ID x \<noteq> 0 \<and> o_UserID x \<noteq> 0 \<and> o_Pair x \<noteq> [] \<and> ToUpper (o_Side x) \<in> {''BUY'', ''SELL''} \<and>
    ToUpper (o_Type x) \<in> {''MARKET'', ''LIMIT'', ''STOP_LOSS'', ''STOP_LOSS_LIMIT'', ''TAKE_PROFIT'', ''TAKE_PROFIT_LIMIT''} \<and>
    ToUpper (o_TimeInForce x) \<in> {''GTC'', ''IOC'', ''FOK'', ''GTD''} \<and> 0 < o_Quantity x \<and>
    (ToUpper (o_Type x) \<in> set priced_types \<longrightarrow> 0 < o_Price x) \<and> (ToUpper (o_Type x) \<in> set stop_types \<longrightarrow> 0 < o_StopPrice x)"
proof -
  have "basic_ValidateOrder x = None"
    using auditedD(2) [OF lifecycle_history_audited [OF assms(1)] assms(2)] assms(3) by (simp add: order_fits_def)
  then show ?thesis unfolding basic_ValidateOrder_def Let_def by (simp add: not_le split: if_splits)
qed

theorem validated_well_formed_witness:
  "\<exists>x. mem_orders (lc_state lc_filled) 7 = Some x \<and> 0 < o_Quantity x \<and> 0 < o_Price x \<and> ToUpper (o_Side x) \<in> {''BUY'', ''SELL''}"
proof -
  have v: "mem_orders (lc_state lc_filled) 7 \<noteq> None \<and> o_Status (the (mem_orders (lc_state lc_filled) 7)) = ''PARTIALLY_FILLED'' \<and>
     ToUpper (o_Type (the (mem_orders (lc_state lc_filled) 7))) \<in> set priced_types" by code_simp
  then obtain x where x: "mem_orders (lc_state lc_filled) 7 = Some x" "o_Status x = ''PARTIALLY_FILLED''" "ToUpper (o_Type x) \<in> set priced_types" by auto
  show ?thesis using validated_well_formed [OF lc_filled_history x(1)] x by simp
qed

section \<open>Fills, cancellations, keys\<close>

text \<open>
  C25: what a fill does. When \<open>FillOrder\<close> reports success, the order was accepted, or it was partially
  filled and this fill completes it: a second partial fill is no transition of the state machine, and
  no order has more than two fills. The fill is added, not bounded by what was open; the state becomes
  filled when at most a ten-millionth is open; one transition is recorded and nothing else changes. When
  it reports an error, the tables are what they were.
\<close>

theorem FillOrder_outcome:
  assumes "lifecycle_laws ustr orders trs keys db"
    and "FillOrder db fe clock trace orderID fq fp tradeID (m, d) = Returns (r, (m', d'))"
  shows "(case r of
      Some e \<Rightarrow> d' = d
    | None \<Rightarrow> \<exists>x q y. orders d (o_ID x) = Some x \<and> ustr (o_ID x) = orderID \<and> fe_NewFromFloat fe fq = Some q \<and>
        (let rest = o_Quantity x - (o_FilledQuantity x + q); new = (if rest \<le> 1 / 10000000 then ''FILLED'' else ''PARTIALLY_FILLED'')
         in (o_Status x = ''ACCEPTED'' \<or> o_Status x = ''PARTIALLY_FILLED'' \<and> rest \<le> 1 / 10000000) \<and>
            orders d' = (orders d)(o_ID x \<mapsto> x\<lparr>o_FilledQuantity := o_FilledQuantity x + q, o_Status := new, o_UpdatedAt := clock 2\<rparr>) \<and>
            trs d' = trs d @ [y] \<and> ot_OrderID y = orderID \<and> ot_FromState y = o_Status x \<and> ot_ToState y = new \<and>
            m' = incrementStateTransition (o_Status x @ ''->'' @ new) (if new = ''FILLED'' then m\<lparr>lm_OrdersFilled := lm_OrdersFilled m + 1\<rparr> else m)))"
proof (cases r)
  case None
  show ?thesis unfolding None option.case by (rule FillOrder_success [OF assms(1) assms(2) [unfolded None]])
next
  case (Some e)
  then show ?thesis using lifecycle_tx_cases [OF assms(2) [unfolded FillOrder_def]] by auto
qed

text \<open>The order of which two of three are filled: half more is refused.\<close>

theorem FillOrder_outcome_witness:
  "\<exists>m' d'. FillOrder mem_lifecycle_db tenths int (\<lambda>n. ''t'') ''7'' ''half'' ''hundred'' ''tr'' (new_metrics, lc_state lc_filled) =
       Returns (Some ''invalid state transition from PARTIALLY_FILLED to PARTIALLY_FILLED'', (m', d')) \<and> d' = lc_state lc_filled"
proof -
  let ?r = "FillOrder mem_lifecycle_db tenths int (\<lambda>n. ''t'') ''7'' ''half'' ''hundred'' ''tr'' (new_metrics, lc_state lc_filled)"
  have "case ?r of Returns (e, st) \<Rightarrow> e = Some ''invalid state transition from PARTIALLY_FILLED to PARTIALLY_FILLED'' | _ \<Rightarrow> False" by code_simp
  then obtain m' d' where r: "?r = Returns (Some ''invalid state transition from PARTIALLY_FILLED to PARTIALLY_FILLED'', (m', d'))"
    by (cases ?r) auto
  show ?thesis using FillOrder_outcome [OF mem_lifecycle_laws r] r by simp
qed

lemma SubmitOrder_no_key: "SubmitOrder db vs newID clock trace ord [] (m, d) = submit_tx db vs clock trace [] (submitted_order newID (clock 1) ord) (m, d)"
  by (simp add: SubmitOrder_def)

lemma submit_success:
  assumes "lifecycle_laws ustr orders trs keys db" "SubmitOrder db vs newID clock trace ord [] (m, d) = Returns (Inr (Some x), (m', d'))"
  shows "stores_submission ustr orders trs (submitted_order newID (clock 1) ord) ''VALIDATED'' x d d' \<and>
    validateOrder vs (pending_order (clock 4) (submitted_order newID (clock 1) ord)) d = Returns None \<and>
    x = (pending_order (clock 4) (submitted_order newID (clock 1) ord))\<lparr>o_Status := ''VALIDATED'', o_UpdatedAt := clock 5\<rparr>"
  using submit_tx_effect [OF assms(1) assms(2) [unfolded SubmitOrder_no_key]] by auto

text \<open>A success that is no answer from the key's table is a submission, with a key or without.\<close>

lemma submit_success_keyed:
  assumes "lifecycle_laws ustr orders trs keys db"
    and "SubmitOrder db vs newID clock trace ord key (m, d) = Returns (Inr (Some x), (m', d'))"
    and "key \<noteq> [] \<longrightarrow> fst (checkIdempotency db (clock 0) key (lb_ustr db (o_UserID ord)) ''submit_order'' d) = None"
  shows "orders d' (o_ID x) = Some x \<and> o_Status x = ''VALIDATED''"
proof -
  obtain d1 where "submit_tx db vs clock trace key (submitted_order newID (clock 1) ord) (m, d1) = Returns (Inr (Some x), (m', d'))"
    using assms(2,3) by (cases "checkIdempotency db (clock 0) key (lb_ustr db (o_UserID ord)) ''submit_order'' d")
      (auto simp: SubmitOrder_def split: if_splits)
  from submit_tx_effect [OF assms(1) this] show ?thesis by (auto simp: stores_submission_def pending_order_def)
qed

text \<open>
  C26: a submitted order cannot be cancelled. While it is in the state it was
  stored in: after \<open>SubmitOrder\<close>, without an idempotency key or with
  one that the lookup does not answer, has reported success, a \<open>CancelOrder\<close> of the order that finds it
  fails and changes nothing: validated is among the states that the cancellation names as cancelable,
  but the state machine has no transition from it to canceling. (A repeated key is answered with the
  order as it is by then, which may have been accepted since.)
\<close>

theorem submitted_not_cancelable:
  assumes "lifecycle_laws ustr orders trs keys db"
    and "SubmitOrder db vs newID clock trace ord key (m, d) = Returns (Inr (Some x), (m', d'))"
    and "key \<noteq> [] \<longrightarrow> fst (checkIdempotency db (clock 0) key (lb_ustr db (o_UserID ord)) ''submit_order'' d) = None"
    and "lb_begin db d' = None" and "lb_find_user db (ustr (o_ID x)) userID d' = Inr y"
  shows "ol_CancelOrder db clock' trace' (ustr (o_ID x)) userID reason (m', d') =
    Returns (Some ''invalid state transition from VALIDATED to CANCELING'', (m', d'))"
proof -
  have x: "orders d' (o_ID x) = Some x" "o_Status x = ''VALIDATED''" using submit_success_keyed [OF assms(1-3)] by simp_all
  have "orders d' (o_ID y) = Some y" "o_ID y = o_ID x"
    using lifecycleD(2) [OF assms(1,5)] lifecycleD(12) [OF assms(1)] by (auto dest: injD)
  then have y: "y = x" using x by simp
  have i: "\<not> ol_isValidTransition ''VALIDATED'' ''CANCELING''" by (simp add: ol_isValidTransition_iff)
  show ?thesis using assms(4,5) y x(2)
    by (simp add: ol_CancelOrder_def lifecycle_tx_def transitionState_invalid [OF i])
qed

text \<open>Submitted under a new key.\<close>

definition lc_keyed :: "((string + order option) \<times> (lifecycle_metrics \<times> mem_lifecycle)) outcome" where
  "lc_keyed = SubmitOrder mem_lifecycle_db [BasicOrderValidator] 7 int (\<lambda>n. ''t'') lc_order ''k'' (new_metrics, Some ([], [], []))"

theorem submitted_not_cancelable_witness:
  "\<exists>x m' d'. lc_keyed = Returns (Inr (Some x), (m', d')) \<and>
     ol_CancelOrder mem_lifecycle_db int (\<lambda>n. ''t'') (show_nat (o_ID x)) ''4'' ''changed my mind'' (m', d') =
       Returns (Some ''invalid state transition from VALIDATED to CANCELING'', (m', d'))"
proof -
  have v: "case lc_keyed of Returns (Inr (Some x), (m', d')) \<Rightarrow>
      \<not> isl (lb_find_user mem_lifecycle_db (show_nat (o_ID x)) ''4'' d') | _ \<Rightarrow> False" by code_simp
  then obtain x m' d' where s: "lc_keyed = Returns (Inr (Some x), (m', d'))"
    by (auto split: outcome.splits prod.splits sum.splits option.splits)
  obtain y where y: "lb_find_user mem_lifecycle_db (show_nat (o_ID x)) ''4'' d' = Inr y"
    using v unfolding s by (cases "lb_find_user mem_lifecycle_db (show_nat (o_ID x)) ''4'' d'") auto
  have b: "lb_begin mem_lifecycle_db d' = None" by (simp add: mem_lifecycle_db_def)
  have k: "fst (checkIdempotency mem_lifecycle_db (int 0) ''k'' (lb_ustr mem_lifecycle_db (o_UserID lc_order)) ''submit_order'' (Some ([], [], []))) = None"
    by code_simp
  have "ol_CancelOrder mem_lifecycle_db int (\<lambda>n. ''t'') (show_nat (o_ID x)) ''4'' ''changed my mind'' (m', d') =
      Returns (Some ''invalid state transition from VALIDATED to CANCELING'', (m', d'))"
    by (rule submitted_not_cancelable [OF mem_lifecycle_laws s [unfolded lc_keyed_def] _ b y]) (use k in simp)
  with s show ?thesis by blast
qed

lemma SubmitOrder_unfound:
  assumes "lifecycle_laws ustr orders trs keys db" "keys d key = Some k" "\<not> ik_Completed k"
  shows "SubmitOrder db vs newID clock trace ord key (m, d) = submit_tx db vs clock trace key (submitted_order newID (clock 1) ord) (m, d)"
proof -
  have "\<exists>e. lb_find_key db key (lb_ustr db (o_UserID ord)) ''submit_order'' d = Inl e"
    using lifecycleD(7) [OF assms(1)] assms(2,3) by (cases "lb_find_key db key (lb_ustr db (o_UserID ord)) ''submit_order'' d") force+
  then show ?thesis by (auto simp: SubmitOrder_def checkIdempotency_def)
qed

lemma submit_tx_used_key:
  assumes "lifecycle_laws ustr orders trs keys db" "keys d key \<noteq> None" "key \<noteq> []"
  shows "\<exists>e. submit_tx db vs clock trace key ord (m, d) = Returns (Inl e, (m, d))"
proof (cases "lb_begin db d = None \<and> (\<exists>d1. lb_create_event db (initial_event db (clock 2) (trace 0) ord) d = Inr d1)")
  case True
  then obtain d1 where d1: "lb_begin db d = None" "lb_create_event db (initial_event db (clock 2) (trace 0) ord) d = Inr d1" by blast
  have "\<exists>e. lb_create_key db (initial_key db (clock 3) key ord) d1 = Inl e"
    using lifecycleD(4) [OF assms(1) d1(2)] lifecycleD(6) [OF assms(1), of "initial_key db (clock 3) key ord" d1] assms(2)
    by (cases "lb_create_key db (initial_key db (clock 3) key ord) d1") (auto simp: initial_key_def)
  then show ?thesis using d1 assms(3) by (auto simp: submit_tx_def)
next
  case False
  then obtain e where "(case lb_begin db d of Some e \<Rightarrow> Inl e | None \<Rightarrow> lb_create_event db (initial_event db (clock 2) (trace 0) ord) d) = Inl e"
    by (cases "lb_begin db d"; cases "lb_create_event db (initial_event db (clock 2) (trace 0) ord) d") auto
  then show ?thesis by (simp add: submit_tx_def)
qed

text \<open>
  the key of a rejected submission is burnt. When a submission with an idempotency key is rejected by
  a validator and the rejection is stored, every later submission with this key, of whatever order and by whatever
  user, fails and changes nothing: the key is stored as not completed, for which the lookup does not
  ask, which is never cleaned up, and which is unique.
\<close>

theorem rejected_key_burnt:
  assumes "lifecycle_laws ustr orders trs keys db" and "lifecycle_laws ustr orders trs keys db'" and "key \<noteq> []"
    and "SubmitOrder db vs newID clock trace ord key (m, d) = Returns (Inl e, (m', d'))" and "orders d' \<noteq> orders d"
  shows "\<exists>e'. SubmitOrder db' vs' newID' clock' trace' ord' key (m2, d') = Returns (Inl e', (m2, d'))"
proof -
  obtain q d1 where q: "checkIdempotency db (clock 0) key (lb_ustr db (o_UserID ord)) ''submit_order'' d = (q, d1)"
    by (cases "checkIdempotency db (clock 0) key (lb_ustr db (o_UserID ord)) ''submit_order'' d")
  have d1: "orders d1 = orders d"
    using q lifecycleD(8) [OF assms(1)] by (auto simp: checkIdempotency_def split: if_splits sum.splits)
  have n: "q = None" using assms(3,4) q by (cases q) (auto simp: SubmitOrder_def)
  have "submit_tx db vs clock trace key (submitted_order newID (clock 1) ord) (m, d1) = Returns (Inl e, (m', d'))"
    using assms(3,4) q n by (simp add: SubmitOrder_def)
  from submit_tx_effect [OF assms(1) this]
  have "keys d' = (keys d1)(key \<mapsto> initial_key db (clock 3) key (submitted_order newID (clock 1) ord))"
    using assms(3,5) d1 by auto
  then have k: "keys d' key = Some (initial_key db (clock 3) key (submitted_order newID (clock 1) ord))" by simp
  have "keys d' key \<noteq> None" using k by simp
  moreover have "\<not> ik_Completed (initial_key db (clock 3) key (submitted_order newID (clock 1) ord))" by (simp add: initial_key_def)
  ultimately show ?thesis using SubmitOrder_unfound [OF assms(2) k] submit_tx_used_key [OF assms(2) _ assms(3)] by simp
qed

definition lc_rejected :: "((string + order option) \<times> (lifecycle_metrics \<times> mem_lifecycle)) outcome" where
  "lc_rejected = SubmitOrder mem_lifecycle_db [BasicOrderValidator] 7 int (\<lambda>n. ''t'') (lc_order\<lparr>o_Price := 0\<rparr>) ''k'' (new_metrics, Some ([], [], []))"

theorem rejected_key_burnt_witness:
  "\<exists>e e' m' d'. lc_rejected = Returns (Inl e, (m', d')) \<and> o_Status (the (mem_orders d' 7)) = ''REJECTED'' \<and>
     SubmitOrder mem_lifecycle_db [BasicOrderValidator] 8 int (\<lambda>n. ''t'') lc_order ''k'' (m', d') = Returns (Inl e', (m', d'))"
proof -
  have v: "case lc_rejected of Returns (Inl e, (m', d')) \<Rightarrow> mem_orders d' 7 \<noteq> None \<and> o_Status (the (mem_orders d' 7)) = ''REJECTED'' | _ \<Rightarrow> False"
    by code_simp
  then obtain e m' d' where s: "lc_rejected = Returns (Inl e, (m', d'))" by (auto split: outcome.splits prod.splits sum.splits)
  have o: "mem_orders d' 7 \<noteq> None" "o_Status (the (mem_orders d' 7)) = ''REJECTED''" using v unfolding s by simp_all
  have "mem_orders d' \<noteq> mem_orders (Some ([], [], []))" using o(1) by (auto simp: mem_orders_def dest: fun_cong [where x = 7])
  then show ?thesis
    using rejected_key_burnt [OF mem_lifecycle_laws mem_lifecycle_laws _ s [unfolded lc_rejected_def]] s o(2) by blast
qed

text \<open>
  a submission can take an order back. The caller's order may have an ID, and an order stored under
  it is overwritten: after a success it is validated whatever its state was and with the fills the
  caller gave, and the recorded transitions are no path of the state machine any more, unless the old state was submitted.
\<close>

theorem resubmission_breaks_trail:
  assumes "lifecycle_laws ustr orders trs keys db" and "audited ustr (orders d) (trs d)"
    and "orders d (o_ID ord) = Some z" and "o_ID ord \<noteq> 0" and "o_Status z \<noteq> ''SUBMITTED''"
    and "SubmitOrder db vs newID clock trace ord [] (m, d) = Returns (Inr (Some x), (m', d'))"
  shows "orders d' (o_ID ord) = Some x \<and> o_Status x = ''VALIDATED'' \<and> o_FilledQuantity x = o_FilledQuantity ord \<and>
    \<not> trail ''SUBMITTED'' (history_of (ustr (o_ID ord)) (trs d')) (o_Status x)"
proof -
  let ?o = "submitted_order newID (clock 1) ord"
  have x: "x = (pending_order (clock 4) ?o)\<lparr>o_Status := ''VALIDATED'', o_UpdatedAt := clock 5\<rparr>" "o_ID ?o = o_ID ord"
    and s: "stores_submission ustr orders trs ?o ''VALIDATED'' x d d'"
    using submit_success [OF assms(1,6)] assms(4) by (auto simp: submitted_order_def)
  obtain a b where t: "orders d' = (orders d)(o_ID ord \<mapsto> x)" "trs d' = (trs d @ [a]) @ [b]" "ot_OrderID a = ustr (o_ID ord)"
    "ot_FromState a = ''SUBMITTED''" "ot_OrderID b = ustr (o_ID ord)"
    using s x(2) by (auto simp: stores_submission_def)
  have u: "trail s xs t1 \<Longrightarrow> trail s xs t2 \<Longrightarrow> t1 = t2" for s xs t1 t2 by (induction xs arbitrary: s) auto
  have z: "trail ''SUBMITTED'' (history_of (ustr (o_ID ord)) (trs d)) (o_Status z)" using auditedD(2) [OF assms(2,3)] by simp
  have "\<not> trail ''SUBMITTED'' (history_of (ustr (o_ID ord)) (trs d)) ''SUBMITTED''" using u [OF z] assms(5) by blast
  then have "\<not> trail ''SUBMITTED'' (history_of (ustr (o_ID ord)) (trs d')) (o_Status x)" unfolding t(2) by (simp add: t(3-5) del: append_assoc)
  then show ?thesis using t(1) x by (simp add: pending_order_def submitted_order_def)
qed

theorem resubmission_breaks_trail_witness:
  "\<exists>x m' d'. SubmitOrder mem_lifecycle_db [BasicOrderValidator] 8 int (\<lambda>n. ''t'') (lc_order\<lparr>o_ID := 7\<rparr>) [] (new_metrics, lc_state lc_filled) =
       Returns (Inr (Some x), (m', d')) \<and> mem_orders d' 7 = Some x \<and> o_Status x = ''VALIDATED'' \<and> o_FilledQuantity x = 0"
proof -
  let ?r = "SubmitOrder mem_lifecycle_db [BasicOrderValidator] 8 int (\<lambda>n. ''t'') (lc_order\<lparr>o_ID := 7\<rparr>) [] (new_metrics, lc_state lc_filled)"
  have v: "(case ?r of Returns (Inr (Some x), st) \<Rightarrow> True | _ \<Rightarrow> False) \<and> mem_orders (lc_state lc_filled) 7 \<noteq> None \<and>
    o_Status (the (mem_orders (lc_state lc_filled) 7)) = ''PARTIALLY_FILLED''" by code_simp
  obtain x m' d' where r: "?r = Returns (Inr (Some x), (m', d'))" using v by (auto split: outcome.splits prod.splits sum.splits option.splits)
  obtain z where z: "mem_orders (lc_state lc_filled) 7 = Some z" "o_Status z = ''PARTIALLY_FILLED''" using v by auto
  have i: "o_ID (lc_order\<lparr>o_ID := 7\<rparr>) = 7" "o_FilledQuantity (lc_order\<lparr>o_ID := 7\<rparr>) = 0" by (simp_all add: lc_order_def zero_order_def)
  show ?thesis using resubmission_breaks_trail [OF mem_lifecycle_laws lifecycle_history_audited [OF lc_filled_history] _ _ _ r, of z] z i r
    by auto
qed

section \<open>What validation promises\<close>

lemma dec_Mod_zero: "dec_Mod x y = Returns 0 \<Longrightarrow> \<exists>n :: int. x = of_int n * y \<and> y \<noteq> 0"
proof -
  assume a: "dec_Mod x y = Returns 0"
  then have "y \<noteq> 0" "x = dec_trunc (x / y) * y" by (auto simp: dec_Mod_def mult.commute split: if_splits)
  moreover obtain n :: int where "dec_trunc (x / y) = of_int n"
    by (simp add: dec_trunc_def) (metis of_int_minus)
  ultimately show ?thesis by metis
qed

lemma market_passes:
  assumes "market_ValidateOrder db x d = Returns None"
  shows "\<exists>tp. vb_pair db (o_Pair x) d = Some tp \<and> tp_Status tp = ''ACTIVE'' \<and>
    tp_MinQuantity tp \<le> o_Quantity x \<and> o_Quantity x \<le> tp_MaxQuantity tp \<and> (\<exists>n. o_Quantity x = of_int n * tp_QuantityStep tp) \<and>
    (ToUpper (o_Type x) \<in> set priced_types \<longrightarrow>
       tp_MinPrice tp \<le> o_Price x \<and> o_Price x \<le> tp_MaxPrice tp \<and> (\<exists>n. o_Price x = of_int n * tp_PriceStep tp) \<and>
       tp_MinNotional tp \<le> o_Price x * o_Quantity x \<and> o_Price x * o_Quantity x \<le> tp_MaxNotional tp)"
proof -
  obtain tp where tp: "vb_pair db (o_Pair x) d = Some tp" using assms by (auto simp: market_ValidateOrder_def Let_def split: option.splits)
  note a = assms [unfolded market_ValidateOrder_def Let_def tp option.case]
  have q: "tp_Status tp = ''ACTIVE''" "\<not> o_Quantity x < tp_MinQuantity tp" "\<not> tp_MaxQuantity tp < o_Quantity x"
    "dec_Mod (o_Quantity x) (tp_QuantityStep tp) = Returns 0"
    "ToUpper (o_Type x) \<in> set priced_types \<longrightarrow> market_price_checks db tp x = Returns None"
    using a by (auto simp: bind_outcome_Returns_iff split: if_splits)
  have "\<not> o_Price x < tp_MinPrice tp \<and> \<not> tp_MaxPrice tp < o_Price x \<and> dec_Mod (o_Price x) (tp_PriceStep tp) = Returns 0 \<and>
      \<not> o_Price x * o_Quantity x < tp_MinNotional tp \<and> \<not> tp_MaxNotional tp < o_Price x * o_Quantity x"
    if "ToUpper (o_Type x) \<in> set priced_types"
    using q(5) that by (auto simp: market_price_checks_def Let_def bind_outcome_Returns_iff split: if_splits)
  then show ?thesis using tp q dec_Mod_zero [OF q(4)] dec_Mod_zero [of "o_Price x" "tp_PriceStep tp"]
    by (intro exI [of _ tp]) (auto simp: not_less)
qed

lemma balance_passes:
  assumes "balance_ValidateOrder db x d = None" "vb_pair db (o_Pair x) d = Some tp" "ToUpper (o_Side x) \<noteq> ''BUY'' \<or> ToUpper (o_Type x) \<noteq> ''MARKET''"
  shows "\<exists>b. vb_balance db (o_UserID x) (if ToUpper (o_Side x) = ''BUY'' then tp_QuoteAsset tp else tp_BaseAsset tp) d = Some b \<and>
    (if ToUpper (o_Side x) = ''BUY'' then o_Price x * o_Quantity x else o_Quantity x) \<le> ub_Available b"
  using assms by (auto simp: balance_ValidateOrder_def extractAssets_def Let_def not_less split: option.splits if_splits)

text \<open>
  what a successful submission promises. With the market and the balance validator installed, a
  successful \<open>SubmitOrder\<close> is of an active pair, its quantity is a multiple of the pair's step within
  its bounds, so are the price and the notional value of an order with a limit price, and, unless it is
  a market order to buy, the user has what the order may cost available at the time.
\<close>

theorem submitted_within_limits:
  assumes "lifecycle_laws ustr orders trs keys db"
    and "SubmitOrder db vs newID clock trace ord [] (m, d) = Returns (Inr (Some x), (m', d'))"
    and "MarketValidator vd \<in> set vs" and "BalanceValidator vd \<in> set vs"
  shows "\<exists>tp. vb_pair vd (o_Pair x) d = Some tp \<and> tp_Status tp = ''ACTIVE'' \<and>
    tp_MinQuantity tp \<le> o_Quantity x \<and> o_Quantity x \<le> tp_MaxQuantity tp \<and> (\<exists>n. o_Quantity x = of_int n * tp_QuantityStep tp) \<and>
    (ToUpper (o_Type x) \<in> set priced_types \<longrightarrow>
       tp_MinPrice tp \<le> o_Price x \<and> o_Price x \<le> tp_MaxPrice tp \<and> (\<exists>n. o_Price x = of_int n * tp_PriceStep tp) \<and>
       tp_MinNotional tp \<le> o_Price x * o_Quantity x \<and> o_Price x * o_Quantity x \<le> tp_MaxNotional tp) \<and>
    (ToUpper (o_Side x) = ''BUY'' \<and> ToUpper (o_Type x) = ''MARKET'' \<or>
       (\<exists>b. vb_balance vd (o_UserID x) (if ToUpper (o_Side x) = ''BUY'' then tp_QuoteAsset tp else tp_BaseAsset tp) d = Some b \<and>
          (if ToUpper (o_Side x) = ''BUY'' then o_Price x * o_Quantity x else o_Quantity x) \<le> ub_Available b))"
proof -
  let ?p = "pending_order (clock 4) (submitted_order newID (clock 1) ord)"
  have v: "validateOrder vs ?p d = Returns None" and x: "x = ?p\<lparr>o_Status := ''VALIDATED'', o_UpdatedAt := clock 5\<rparr>"
    using submit_success [OF assms(1,2)] by blast+
  have p: "o_Pair ?p = o_Pair x" "o_Quantity ?p = o_Quantity x" "o_Price ?p = o_Price x" "o_Type ?p = o_Type x" "o_Side ?p = o_Side x" "o_UserID ?p = o_UserID x"
    using x by simp_all
  have "market_ValidateOrder vd ?p d = Returns None" using validateOrder_passes [OF v] assms(3) by (auto simp: MarketValidator_def)
  from market_passes [OF this] obtain tp where tp: "vb_pair vd (o_Pair x) d = Some tp" and m: "tp_Status tp = ''ACTIVE'' \<and>
    tp_MinQuantity tp \<le> o_Quantity x \<and> o_Quantity x \<le> tp_MaxQuantity tp \<and> (\<exists>n. o_Quantity x = of_int n * tp_QuantityStep tp) \<and>
    (ToUpper (o_Type x) \<in> set priced_types \<longrightarrow>
       tp_MinPrice tp \<le> o_Price x \<and> o_Price x \<le> tp_MaxPrice tp \<and> (\<exists>n. o_Price x = of_int n * tp_PriceStep tp) \<and>
       tp_MinNotional tp \<le> o_Price x * o_Quantity x \<and> o_Price x * o_Quantity x \<le> tp_MaxNotional tp)"
    unfolding p by blast
  have "balance_ValidateOrder vd ?p d = None"
    using validateOrder_passes [OF v assms(4) [unfolded BalanceValidator_def]] by simp
  from balance_passes [OF this, unfolded p, OF tp] show ?thesis using tp m by blast
qed

definition btc_usd :: trading_pair where
  "btc_usd = \<lparr>tp_Symbol = ''BTC-USD'', tp_BaseAsset = ''BTC'', tp_QuoteAsset = ''USD'', tp_Status = ''ACTIVE'', tp_MinQuantity = 1,
     tp_MaxQuantity = 10, tp_QuantityStep = 1 / 2, tp_MinPrice = 1, tp_MaxPrice = 1000, tp_PriceStep = 1 / 10, tp_MinNotional = 10,
     tp_MaxNotional = 5000, tp_BasePrecision = 8, tp_QuotePrecision = 2\<rparr>"

definition mem_validators :: "mem_lifecycle validator_db" where
  "mem_validators = \<lparr>vb_pair = (\<lambda>s d. if s = ''BTC-USD'' then Some btc_usd else None),
     vb_balance = (\<lambda>u a d. if a = ''USD'' then Some \<lparr>ub_UserID = show_nat u, ub_Asset = a, ub_Available = 400, ub_Locked = 0, ub_Total = 400\<rparr> else None),
     vb_limits = (\<lambda>u d. None), vb_daily_count = (\<lambda>u d. Some 0), vb_daily_value = (\<lambda>u d. Some 0), vb_open_count = (\<lambda>u d. Some 0),
     vb_text = (\<lambda>x. ''x''), vb_ustr = show_nat\<rparr>"

definition lc_checked :: "((string + order option) \<times> (lifecycle_metrics \<times> mem_lifecycle)) outcome" where
  "lc_checked = SubmitOrder mem_lifecycle_db [BasicOrderValidator, MarketValidator mem_validators, BalanceValidator mem_validators, RiskValidator mem_validators]
     7 int (\<lambda>n. ''t'') lc_order [] (new_metrics, Some ([], [], []))"

theorem submitted_within_limits_witness:
  "\<exists>x m' d'. lc_checked = Returns (Inr (Some x), (m', d')) \<and> (\<exists>n. o_Quantity x = of_int n * tp_QuantityStep btc_usd)"
proof -
  have v: "case lc_checked of Returns (Inr (Some x), st) \<Rightarrow> o_Pair x = ''BTC-USD'' | _ \<Rightarrow> False" by code_simp
  then obtain x m' d' where s: "lc_checked = Returns (Inr (Some x), (m', d'))"
    by (auto split: outcome.splits prod.splits sum.splits option.splits)
  have "o_Pair x = ''BTC-USD''" using v unfolding s by simp
  then have "vb_pair mem_validators (o_Pair x) (Some ([], [], [])) = Some btc_usd" by (simp add: mem_validators_def)
  then show ?thesis using submitted_within_limits [OF mem_lifecycle_laws s [unfolded lc_checked_def], of mem_validators] s by auto
qed

end
