(* ===== verification/BalanceService.thy ===== *)
theory BalanceService
  imports BalanceTheorems
begin

text \<open>
  The balance service of trading, \<open>internal/trading/balance/service.go\<close>: credits, debits, transfers,
  transfers of several assets in one database transaction, locks and unlocks, with a cache of responses
  by idempotency key, on top of the bookkeeper and the balance consistency manager. A call yields its
  outcome and the state it leaves, also when it panics, as the server recovers from a handler's panic.
  Metadata, logging and the progress of a running transfer of several assets are left out.
\<close>

section \<open>Requests and responses\<close>

text \<open>The requests of credits and debits have the same fields, and so have their responses.\<close>

record money_request =
  mq_UserID :: string
  mq_Currency :: string
  mq_Amount :: decimal
  mq_Reference :: string
  mq_Description :: string
  mq_Idempotency :: string

record money_response =
  ms_TransactionID :: string
  ms_UserID :: string
  ms_Currency :: string
  ms_Amount :: decimal
  ms_NewBalance :: decimal
  ms_Status :: string
  ms_Timestamp :: time

record atomic_transfer_request =
  aq_FromUserID :: string
  aq_ToUserID :: string
  aq_Currency :: string
  aq_Amount :: decimal
  aq_Reference :: string
  aq_Description :: string
  aq_Idempotency :: string

record atomic_transfer_response =
  as_TransactionID :: string
  as_FromUserID :: string
  as_ToUserID :: string
  as_Currency :: string
  as_Amount :: decimal
  as_FromNewBalance :: decimal
  as_ToNewBalance :: decimal
  as_Status :: string
  as_Timestamp :: time

record multi_asset_transfer =
  ma_FromUserID :: string
  ma_ToUserID :: string
  ma_Currency :: string
  ma_Amount :: decimal
  ma_Reference :: string
  ma_Description :: string

record multi_transfer_request =
  mr_Transfers :: "multi_asset_transfer list"
  mr_Reference :: string
  mr_Description :: string
  mr_Idempotency :: string

record asset_transfer_result =
  tr_FromUserID :: string
  tr_ToUserID :: string
  tr_Currency :: string
  tr_Amount :: decimal
  tr_FromNewBalance :: decimal
  tr_ToNewBalance :: decimal
  tr_Status :: string

record multi_transfer_response =
  mp_TransactionID :: string
  mp_Transfers :: "asset_transfer_result list"
  mp_Status :: string
  mp_Timestamp :: time
  mp_FailureReason :: string

record lock_funds_request =
  lq_UserID :: string
  lq_Currency :: string
  lq_Amount :: decimal
  lq_Reference :: string
  lq_Description :: string
  lq_ExpiresAt :: "time option"
  lq_Idempotency :: string

record lock_funds_response =
  lr_LockID :: string
  lr_UserID :: string
  lr_Currency :: string
  lr_Amount :: decimal
  lr_LockedBalance :: decimal
  lr_Status :: string
  lr_ExpiresAt :: "time option"
  lr_Timestamp :: time

record unlock_funds_request =
  uq_LockID :: string
  uq_UserID :: string
  uq_Currency :: string
  uq_Amount :: decimal
  uq_Reference :: string
  uq_Idempotency :: string

record unlock_funds_response =
  ur_LockID :: string
  ur_UserID :: string
  ur_Currency :: string
  ur_Amount :: decimal
  ur_AvailableBalance :: decimal
  ur_Status :: string
  ur_Timestamp :: time

text \<open>A cached response is of any of the types.\<close>

datatype cached_response =
    RCredit money_response | RDebit money_response | RTransfer atomic_transfer_response
  | RMulti multi_transfer_response | RLock lock_funds_response | RUnlock unlock_funds_response

section \<open>State\<close>

record transaction_status =
  ts_TransactionID :: string
  ts_Status :: string
  ts_Type :: string
  ts_Progress :: decimal
  ts_CreatedAt :: time
  ts_UpdatedAt :: time
  ts_CompletedAt :: "time option"

record service_metrics =
  sm_TotalOperations :: int
  sm_SuccessfulOperations :: int
  sm_FailedOperations :: int
  sm_AverageLatency :: duration
  sm_IdempotencyHits :: int
  sm_ValidationFailures :: int

record balance_service =
  sv_idempotencyCache :: "string \<rightharpoonup> cached_response \<times> time"
  sv_idempotencyTTL :: duration
  sv_activeTransactions :: "string \<rightharpoonup> transaction_status"
  sv_metrics :: service_metrics

text \<open>With the default configuration; its other fields are never read.\<close>

definition NewBalanceService :: balance_service where
  "NewBalanceService = \<lparr>sv_idempotencyCache = Map.empty, sv_idempotencyTTL = 24 * hour, sv_activeTransactions = Map.empty,
     sv_metrics = \<lparr>sm_TotalOperations = 0, sm_SuccessfulOperations = 0, sm_FailedOperations = 0, sm_AverageLatency = 0,
       sm_IdempotencyHits = 0, sm_ValidationFailures = 0\<rparr>\<rparr>"

text \<open>
  The statement \<open>sd_update user currency least delta now\<close> adds to balance and available of the rows of the user and the
  currency, with at least \<open>least\<close> available where this is given, and counts them.
\<close>

record 'd service_db =
  sd_balance :: "'d balance_db"
  sd_update :: "string \<Rightarrow> string \<Rightarrow> decimal option \<Rightarrow> decimal \<Rightarrow> time \<Rightarrow> 'd \<Rightarrow> bk_error + (nat \<times> 'd)"

abbreviation sd_ledger :: "'d service_db \<Rightarrow> 'd ledger_db" where
  "sd_ledger db \<equiv> bl_ledger (sd_balance db)"

record 'd service_state =
  ss_service :: balance_service
  ss_manager :: balance_manager
  ss_db :: 'd

text \<open>What a call returns: its error and its response, either of which may be nil, or how it fails to return.\<close>

type_synonym ('r, 'd) service_call = "(bk_error option \<times> 'r option) outcome \<times> 'd service_state"

definition failed_call :: "bk_error \<Rightarrow> 'd service_state \<Rightarrow> ('r, 'd) service_call" where
  "failed_call e st = (Returns (Some e, None), st)"

section \<open>Metrics and idempotency\<close>

definition incrementMetric :: "string \<Rightarrow> balance_service \<Rightarrow> balance_service" where
  "incrementMetric metric sv =
     (let m = sv_metrics sv;
          m1 = (if metric = ''successful_operations'' then m\<lparr>sm_SuccessfulOperations := sm_SuccessfulOperations m + 1\<rparr>
                else if metric = ''failed_operations'' then m\<lparr>sm_FailedOperations := sm_FailedOperations m + 1\<rparr>
                else if metric = ''validation_failures'' then m\<lparr>sm_ValidationFailures := sm_ValidationFailures m + 1\<rparr>
                else if metric = ''idempotency_hits'' then m\<lparr>sm_IdempotencyHits := sm_IdempotencyHits m + 1\<rparr> else m)
      in sv\<lparr>sv_metrics := m1\<lparr>sm_TotalOperations := sm_TotalOperations m1 + 1\<rparr>\<rparr>)"

definition updateLatency :: "duration \<Rightarrow> balance_service \<Rightarrow> balance_service" where
  "updateLatency dur sv =
     (let m = sv_metrics sv; l = sm_AverageLatency m
      in sv\<lparr>sv_metrics := m\<lparr>sm_AverageLatency := (if l = 0 then dur else (l + dur) div 2)\<rparr>\<rparr>)"

definition sv_checkIdempotency :: "time \<Rightarrow> string \<Rightarrow> balance_service \<Rightarrow> cached_response option \<times> balance_service" where
  "sv_checkIdempotency now key sv =
     (case sv_idempotencyCache sv key of
        None \<Rightarrow> (None, sv)
      | Some (r, t) \<Rightarrow>
          (if now - t < sv_idempotencyTTL sv then (Some r, sv)
           else (None, sv\<lparr>sv_idempotencyCache := (sv_idempotencyCache sv)(key := None)\<rparr>)))"

definition storeIdempotency :: "time \<Rightarrow> string \<Rightarrow> cached_response \<Rightarrow> balance_service \<Rightarrow> balance_service" where
  "storeIdempotency now key r sv = sv\<lparr>sv_idempotencyCache := (sv_idempotencyCache sv)(key \<mapsto> (r, now))\<rparr>"

definition with_service :: "(balance_service \<Rightarrow> balance_service) \<Rightarrow> 'd service_state \<Rightarrow> 'd service_state" where
  "with_service f st = st\<lparr>ss_service := f (ss_service st)\<rparr>"

text \<open>How every operation begins: validation, then the cache, whose response is asserted to be of the operation's type.\<close>

definition begin_call :: "bk_error option \<Rightarrow> string \<Rightarrow> time \<Rightarrow> (cached_response \<Rightarrow> 'r option) \<Rightarrow>
    ('d service_state \<Rightarrow> ('r, 'd) service_call) \<Rightarrow> 'd service_state \<Rightarrow> ('r, 'd) service_call" where
  "begin_call invalid key now type_assertion run st =
     (case invalid of
        Some e \<Rightarrow> failed_call (wrap ''validation failed'' e) (with_service (incrementMetric ''validation_failures'') st)
      | None \<Rightarrow>
          (case sv_checkIdempotency now key (ss_service st) of
             (Some r, sv1) \<Rightarrow>
               (case type_assertion r of
                  Some x \<Rightarrow> (Returns (None, Some x), st\<lparr>ss_service := incrementMetric ''idempotency_hits'' sv1\<rparr>)
                | None \<Rightarrow> (Panics, st\<lparr>ss_service := incrementMetric ''idempotency_hits'' sv1\<rparr>))
           | (None, sv1) \<Rightarrow> run (st\<lparr>ss_service := sv1\<rparr>)))"

text \<open>How every success ends.\<close>

definition finish_call :: "time \<Rightarrow> duration \<Rightarrow> string \<Rightarrow> cached_response \<Rightarrow> balance_service \<Rightarrow> balance_service" where
  "finish_call now took key r sv = updateLatency took (incrementMetric ''successful_operations'' (storeIdempotency now key r sv))"

definition track :: "string \<Rightarrow> string \<Rightarrow> time \<Rightarrow> balance_service \<Rightarrow> balance_service" where
  "track transactionID typ startTime sv = sv\<lparr>sv_activeTransactions := (sv_activeTransactions sv)(transactionID \<mapsto>
     \<lparr>ts_TransactionID = transactionID, ts_Status = ''processing'', ts_Type = typ, ts_Progress = 0, ts_CreatedAt = startTime,
      ts_UpdatedAt = startTime, ts_CompletedAt = None\<rparr>)\<rparr>"

text \<open>The deferred removal happens on every way out, a panic included.\<close>

definition untracked :: "string \<Rightarrow> ('r, 'd) service_call \<Rightarrow> ('r, 'd) service_call" where
  "untracked transactionID r = (fst r, with_service (\<lambda>sv. sv\<lparr>sv_activeTransactions := (sv_activeTransactions sv)(transactionID := None)\<rparr>) (snd r))"

section \<open>Credits and debits\<close>

definition money_error :: "string \<Rightarrow> string \<Rightarrow> decimal \<Rightarrow> string \<Rightarrow> string \<Rightarrow> bk_error option" where
  "money_error userID currency amount reference key =
     (if userID = [] then Some (Raw ''user_id is required'')
      else if currency = [] then Some (Raw ''currency is required'')
      else if amount \<le> 0 then Some (Raw ''amount must be positive'')
      else if reference = [] then Some (Raw ''reference is required'')
      else if key = [] then Some (Raw ''idempotency_key is required'')
      else None)"

definition validateCreditRequest :: "money_request \<Rightarrow> bk_error option" where
  "validateCreditRequest req = money_error (mq_UserID req) (mq_Currency req) (mq_Amount req) (mq_Reference req) (mq_Idempotency req)"

definition validateDebitRequest :: "money_request \<Rightarrow> bk_error option" where
  "validateDebitRequest req = money_error (mq_UserID req) (mq_Currency req) (mq_Amount req) (mq_Reference req) (mq_Idempotency req)"

definition money_record :: "uuid \<Rightarrow> uuid \<Rightarrow> string \<Rightarrow> decimal \<Rightarrow> money_request \<Rightarrow> time \<Rightarrow> bk_txn" where
  "money_record newID userID typ amount req now = \<lparr>bt_ID = newID, bt_UserID = userID, bt_Type = typ, bt_Amount = amount,
     bt_Currency = mq_Currency req, bt_Status = ''pending'', bt_Reference = mq_Reference req,
     bt_Description = mq_Description req, bt_CreatedAt = now, bt_UpdatedAt = now, bt_CompletedAt = None\<rparr>"

text \<open>The database transaction: the record, then the update of the rows; no row at all is an error.\<close>

definition money_tx :: "'d service_db \<Rightarrow> bk_txn \<Rightarrow> string \<Rightarrow> string \<Rightarrow> decimal option \<Rightarrow> decimal \<Rightarrow> time \<Rightarrow> bk_error \<Rightarrow> 'd \<Rightarrow> bk_error option \<times> 'd" where
  "money_tx db t userID currency least delta now none_found =
     plain_tx (sd_ledger db) (\<lambda>d.
       andThen (onError (wrap ''failed to create transaction'') (ld_create_txn (sd_ledger db) t d)) (\<lambda>d.
       andThen (onError (wrap ''failed to update account balance'') (sd_update db userID currency least delta now d)) (\<lambda>(rows, d).
       if rows = 0 then Inl none_found else Inr d)))"

text \<open>
  After the commit the record is saved as completed, whatever comes of it, and the account is read; the
  account is nil when it cannot be read, and reading its balance panics.
\<close>

definition money_reply :: "'d service_db \<Rightarrow> string \<Rightarrow> money_request \<Rightarrow> time \<Rightarrow> bk_txn \<Rightarrow> 'd \<Rightarrow> money_response option \<times> 'd" where
  "money_reply db transactionID req completedAt t d =
     (let t' = t\<lparr>bt_Status := ''completed'', bt_CompletedAt := Some completedAt\<rparr>;
          d' = (case ld_save_txn (sd_ledger db) t' d of Inl e \<Rightarrow> d | Inr d' \<Rightarrow> d')
      in (case bk_GetAccount (sd_ledger db) (mq_UserID req) (mq_Currency req) d' of
            Inl e \<Rightarrow> None
          | Inr a \<Rightarrow> Some \<lparr>ms_TransactionID = transactionID, ms_UserID = mq_UserID req, ms_Currency = mq_Currency req,
              ms_Amount = mq_Amount req, ms_NewBalance = ba_Balance a, ms_Status = ''completed'', ms_Timestamp = completedAt\<rparr>, d'))"

definition finish_money :: "(nat \<Rightarrow> time) \<Rightarrow> string \<Rightarrow> (money_response \<Rightarrow> cached_response) \<Rightarrow> money_response option \<times> 'd \<Rightarrow>
    'd service_state \<Rightarrow> (money_response, 'd) service_call" where
  "finish_money clock key constructor r st =
     (case r of
        (None, d) \<Rightarrow> (Panics, st\<lparr>ss_db := d\<rparr>)
      | (Some x, d) \<Rightarrow>
          (Returns (None, Some x), with_service (finish_call (clock 6) (clock 7 - clock 1) key (constructor x)) (st\<lparr>ss_db := d\<rparr>)))"

definition as_credit :: "cached_response \<Rightarrow> money_response option" where
  "as_credit r = (case r of RCredit x \<Rightarrow> Some x | _ \<Rightarrow> None)"

definition as_debit :: "cached_response \<Rightarrow> money_response option" where
  "as_debit r = (case r of RDebit x \<Rightarrow> Some x | _ \<Rightarrow> None)"

definition credit_run :: "'d service_db \<Rightarrow> uuid \<Rightarrow> (nat \<Rightarrow> time) \<Rightarrow> money_request \<Rightarrow> 'd service_state \<Rightarrow> (money_response, 'd) service_call" where
  "credit_run db newID clock req st0 =
     (let transactionID = ld_ustr (sd_ledger db) newID; st = with_service (track transactionID ''credit'' (clock 1)) st0;
          amount = bl_float (sd_balance db) (mq_Amount req)
      in untracked transactionID
        (case ld_parse (sd_ledger db) (mq_UserID req) of
           Inl e \<Rightarrow> (Panics, st)
         | Inr userID \<Rightarrow>
             (let t = money_record newID userID ''credit'' (mq_Amount req) req (clock 2)
              in case money_tx db t (mq_UserID req) (mq_Currency req) None amount (clock 3)
                  (Raw (''account not found for user '' @ mq_UserID req @ '' and currency '' @ mq_Currency req)) (ss_db st) of
                   (Some e, d) \<Rightarrow> failed_call e (with_service (incrementMetric ''failed_operations'') (st\<lparr>ss_db := d\<rparr>))
                 | (None, d) \<Rightarrow> finish_money clock (mq_Idempotency req) RCredit (money_reply db transactionID req (clock 5) t d) st)))"

definition sv_Credit :: "'d service_db \<Rightarrow> uuid \<Rightarrow> (nat \<Rightarrow> time) \<Rightarrow> money_request \<Rightarrow> 'd service_state \<Rightarrow> (money_response, 'd) service_call" where
  "sv_Credit db newID clock req =
     begin_call (validateCreditRequest req) (mq_Idempotency req) (clock 0) as_credit (credit_run db newID clock req)"

definition debit_run :: "'d service_db \<Rightarrow> uuid \<Rightarrow> (nat \<Rightarrow> time) \<Rightarrow> money_request \<Rightarrow> 'd service_state \<Rightarrow> (money_response, 'd) service_call" where
  "debit_run db newID clock req st0 =
     (let transactionID = ld_ustr (sd_ledger db) newID; st = with_service (track transactionID ''debit'' (clock 1)) st0;
          amount = bl_float (sd_balance db) (mq_Amount req); tx = bl_text (sd_balance db)
      in untracked transactionID
        (case bk_GetAccount (sd_ledger db) (mq_UserID req) (mq_Currency req) (ss_db st) of
           Inl e \<Rightarrow> failed_call (wrap ''failed to get account'' e) (with_service (incrementMetric ''failed_operations'') st)
         | Inr account \<Rightarrow>
             (if ba_Available account < mq_Amount req
              then failed_call (Raw (''insufficient funds: available='' @ tx (ba_Available account) @ '', required='' @ tx (mq_Amount req)))
                (with_service (incrementMetric ''failed_operations'') st)
              else case ld_parse (sd_ledger db) (mq_UserID req) of
                     Inl e \<Rightarrow> (Panics, st)
                   | Inr userID \<Rightarrow>
                       (let t = money_record newID userID ''debit'' (- mq_Amount req) req (clock 2)
                        in case money_tx db t (mq_UserID req) (mq_Currency req) (Some amount) (- amount) (clock 3)
                            (Raw ''insufficient funds or account not found'') (ss_db st) of
                             (Some e, d) \<Rightarrow> failed_call e (with_service (incrementMetric ''failed_operations'') (st\<lparr>ss_db := d\<rparr>))
                           | (None, d) \<Rightarrow>
                               finish_money clock (mq_Idempotency req) RDebit (money_reply db transactionID req (clock 5) t d) st))))"

definition sv_Debit :: "'d service_db \<Rightarrow> uuid \<Rightarrow> (nat \<Rightarrow> time) \<Rightarrow> money_request \<Rightarrow> 'd service_state \<Rightarrow> (money_response, 'd) service_call" where
  "sv_Debit db newID clock req =
     begin_call (validateDebitRequest req) (mq_Idempotency req) (clock 0) as_debit (debit_run db newID clock req)"

section \<open>Transfers, locks and unlocks through the consistency manager\<close>

definition validateAtomicTransferRequest :: "atomic_transfer_request \<Rightarrow> bk_error option" where
  "validateAtomicTransferRequest req =
     (if aq_FromUserID req = [] then Some (Raw ''from_user_id is required'')
      else if aq_ToUserID req = [] then Some (Raw ''to_user_id is required'')
      else if aq_FromUserID req = aq_ToUserID req then Some (Raw ''from_user_id and to_user_id cannot be the same'')
      else if aq_Currency req = [] then Some (Raw ''currency is required'')
      else if aq_Amount req \<le> 0 then Some (Raw ''amount must be positive'')
      else if aq_Reference req = [] then Some (Raw ''reference is required'')
      else if aq_Idempotency req = [] then Some (Raw ''idempotency_key is required'')
      else None)"

text \<open>
  A call of the manager under the mutexes \<open>held\<close>, of which everything but the result is a parameter: on a
  success the accounts are read for the response, which panics when it cannot be made of a nil account.
\<close>

definition managed_run :: "string \<Rightarrow> (nat \<Rightarrow> time) \<Rightarrow> string \<Rightarrow> (balance_manager \<times> 'd \<Rightarrow> (bk_error option \<times> (balance_manager \<times> 'd)) outcome) \<Rightarrow>
    ('d \<Rightarrow> 'r option) \<Rightarrow> ('r \<Rightarrow> cached_response) \<Rightarrow> 'd service_state \<Rightarrow> ('r, 'd) service_call" where
  "managed_run what clock key operation response constructor st =
     (case operation (ss_manager st, ss_db st) of
        Panics \<Rightarrow> (Panics, st)
      | Blocks \<Rightarrow> (Blocks, st)
      | Returns (Some e, (bc, d)) \<Rightarrow>
          failed_call (wrap what e) (with_service (incrementMetric ''failed_operations'') (st\<lparr>ss_manager := bc, ss_db := d\<rparr>))
      | Returns (None, (bc, d)) \<Rightarrow>
          (let st1 = st\<lparr>ss_manager := bc, ss_db := d\<rparr>
           in case response d of
                None \<Rightarrow> (Panics, st1)
              | Some x \<Rightarrow> (Returns (None, Some x), with_service (finish_call (clock 6) (clock 7 - clock 1) key (constructor x)) st1)))"

definition account_at :: "'d service_db \<Rightarrow> string \<Rightarrow> string \<Rightarrow> 'd \<Rightarrow> bk_account option" where
  "account_at db userID currency d = (case bk_GetAccount (sd_ledger db) userID currency d of Inl e \<Rightarrow> None | Inr a \<Rightarrow> Some a)"

definition as_transfer :: "cached_response \<Rightarrow> atomic_transfer_response option" where
  "as_transfer r = (case r of RTransfer x \<Rightarrow> Some x | _ \<Rightarrow> None)"

definition transfer_response :: "'d service_db \<Rightarrow> uuid \<Rightarrow> time \<Rightarrow> atomic_transfer_request \<Rightarrow> 'd \<Rightarrow> atomic_transfer_response option" where
  "transfer_response db newID now req d =
     (case (account_at db (aq_FromUserID req) (aq_Currency req) d, account_at db (aq_ToUserID req) (aq_Currency req) d) of
        (Some fa, Some ta) \<Rightarrow>
          Some \<lparr>as_TransactionID = ld_ustr (sd_ledger db) newID, as_FromUserID = aq_FromUserID req, as_ToUserID = aq_ToUserID req,
            as_Currency = aq_Currency req, as_Amount = aq_Amount req, as_FromNewBalance = ba_Balance fa,
            as_ToNewBalance = ba_Balance ta, as_Status = ''completed'', as_Timestamp = now\<rparr>
      | _ \<Rightarrow> None)"

definition sv_AtomicTransfer :: "'d service_db \<Rightarrow> 'd coordinator \<Rightarrow> (nat \<Rightarrow> nat \<Rightarrow> uuid) \<Rightarrow> uuid \<Rightarrow> (nat \<Rightarrow> time) \<Rightarrow> duration \<Rightarrow> int \<Rightarrow>
    string set \<Rightarrow> atomic_transfer_request \<Rightarrow> 'd service_state \<Rightarrow> (atomic_transfer_response, 'd) service_call" where
  "sv_AtomicTransfer db cc ids newID clock took nanos held req =
     begin_call (validateAtomicTransferRequest req) (aq_Idempotency req) (clock 0) as_transfer
       (managed_run ''atomic transfer failed'' clock (aq_Idempotency req)
         (AtomicTransfer (sd_balance db) cc ids clock took nanos (clock 2) (aq_FromUserID req) (aq_ToUserID req)
           (aq_Currency req) (aq_Amount req) (aq_Reference req) (aq_Description req) held)
         (transfer_response db newID (clock 5) req) RTransfer)"

definition validateLockFundsRequest :: "lock_funds_request \<Rightarrow> bk_error option" where
  "validateLockFundsRequest req = money_error (lq_UserID req) (lq_Currency req) (lq_Amount req) (lq_Reference req) (lq_Idempotency req)"

definition as_lock :: "cached_response \<Rightarrow> lock_funds_response option" where
  "as_lock r = (case r of RLock x \<Rightarrow> Some x | _ \<Rightarrow> None)"

definition sv_LockFunds :: "'d service_db \<Rightarrow> 'd coordinator \<Rightarrow> (nat \<Rightarrow> nat \<Rightarrow> uuid) \<Rightarrow> uuid \<Rightarrow> (nat \<Rightarrow> time) \<Rightarrow> duration \<Rightarrow> int \<Rightarrow>
    string set \<Rightarrow> lock_funds_request \<Rightarrow> 'd service_state \<Rightarrow> (lock_funds_response, 'd) service_call" where
  "sv_LockFunds db cc ids newID clock took nanos held req =
     begin_call (validateLockFundsRequest req) (lq_Idempotency req) (clock 0) as_lock
       (managed_run ''lock funds failed'' clock (lq_Idempotency req)
         (AtomicLockFunds (sd_balance db) cc ids clock took nanos (clock 2) (lq_UserID req) (lq_Currency req) (lq_Amount req) (lq_Reference req) held)
         (\<lambda>d. map_option (\<lambda>a. \<lparr>lr_LockID = ld_ustr (sd_ledger db) newID, lr_UserID = lq_UserID req, lr_Currency = lq_Currency req,
            lr_Amount = lq_Amount req, lr_LockedBalance = ba_Locked a, lr_Status = ''completed'', lr_ExpiresAt = lq_ExpiresAt req,
            lr_Timestamp = clock 5\<rparr>) (account_at db (lq_UserID req) (lq_Currency req) d)) RLock)"

definition validateUnlockFundsRequest :: "unlock_funds_request \<Rightarrow> bk_error option" where
  "validateUnlockFundsRequest req =
     (if uq_UserID req = [] then Some (Raw ''user_id is required'')
      else if uq_Currency req = [] then Some (Raw ''currency is required'')
      else if uq_Amount req \<le> 0 then Some (Raw ''amount must be positive'')
      else if uq_Idempotency req = [] then Some (Raw ''idempotency_key is required'')
      else None)"

definition as_unlock :: "cached_response \<Rightarrow> unlock_funds_response option" where
  "as_unlock r = (case r of RUnlock x \<Rightarrow> Some x | _ \<Rightarrow> None)"

definition sv_UnlockFunds :: "'d service_db \<Rightarrow> 'd coordinator \<Rightarrow> (nat \<Rightarrow> nat \<Rightarrow> uuid) \<Rightarrow> (nat \<Rightarrow> time) \<Rightarrow> duration \<Rightarrow> int \<Rightarrow>
    string set \<Rightarrow> unlock_funds_request \<Rightarrow> 'd service_state \<Rightarrow> (unlock_funds_response, 'd) service_call" where
  "sv_UnlockFunds db cc ids clock took nanos held req =
     begin_call (validateUnlockFundsRequest req) (uq_Idempotency req) (clock 0) as_unlock
       (managed_run ''unlock funds failed'' clock (uq_Idempotency req)
         (AtomicUnlockFunds (sd_balance db) cc ids clock took nanos (clock 2) (uq_UserID req) (uq_Currency req) (uq_Amount req) (uq_Reference req) held)
         (\<lambda>d. map_option (\<lambda>a. \<lparr>ur_LockID = uq_LockID req, ur_UserID = uq_UserID req, ur_Currency = uq_Currency req,
            ur_Amount = uq_Amount req, ur_AvailableBalance = ba_Available a, ur_Status = ''completed'', ur_Timestamp = clock 5\<rparr>)
            (account_at db (uq_UserID req) (uq_Currency req) d)) RUnlock)"

section \<open>Transfers of several assets\<close>

text \<open>The loop over the transfers; \<open>i\<close> is the number of the first.\<close>

fun transfer_errors :: "nat \<Rightarrow> multi_asset_transfer list \<Rightarrow> bk_error option" where
  "transfer_errors i [] = None"
| "transfer_errors i (t # ts) =
     (let err = (\<lambda>s. Some (Raw (''transfer '' @ show_nat i @ '': '' @ s)))
      in if ma_FromUserID t = [] then err ''from_user_id is required''
         else if ma_ToUserID t = [] then err ''to_user_id is required''
         else if ma_FromUserID t = ma_ToUserID t then err ''from_user_id and to_user_id cannot be the same''
         else if ma_Currency t = [] then err ''currency is required''
         else if ma_Amount t \<le> 0 then err ''amount must be positive''
         else transfer_errors (Suc i) ts)"

definition validateAtomicMultiAssetTransferRequest :: "multi_transfer_request \<Rightarrow> bk_error option" where
  "validateAtomicMultiAssetTransferRequest req =
     (if mr_Transfers req = [] then Some (Raw ''transfers list cannot be empty'')
      else if 100 < length (mr_Transfers req)
        then Some (Raw (''too many transfers: maximum 100 allowed, got '' @ show_nat (length (mr_Transfers req))))
      else if mr_Reference req = [] then Some (Raw ''reference is required'')
      else if mr_Idempotency req = [] then Some (Raw ''idempotency_key is required'')
      else transfer_errors 0 (mr_Transfers req))"

text \<open>\<open>seen\<close> are the pairs of a sender and a receiver so far.\<close>

fun transfer_ordering :: "(string \<times> string) set \<Rightarrow> nat \<Rightarrow> multi_asset_transfer list \<Rightarrow> bk_error option" where
  "transfer_ordering seen i [] = None"
| "transfer_ordering seen i (t # ts) =
     (if (ma_ToUserID t, ma_FromUserID t) \<in> seen
      then Some (Raw (''circular dependency detected between users '' @ ma_FromUserID t @ '' and '' @ ma_ToUserID t @ '' at transfer '' @ show_nat i))
      else transfer_ordering (insert (ma_FromUserID t, ma_ToUserID t) seen) (Suc i) ts)"

definition validateTransferOrdering :: "multi_asset_transfer list \<Rightarrow> bk_error option" where
  "validateTransferOrdering = transfer_ordering {} 0"

fun funds_errors :: "'d service_db \<Rightarrow> nat \<Rightarrow> multi_asset_transfer list \<Rightarrow> 'd \<Rightarrow> bk_error option" where
  "funds_errors db i [] d = None"
| "funds_errors db i (t # ts) d =
     (case bk_GetAccount (sd_ledger db) (ma_FromUserID t) (ma_Currency t) d of
        Inl e \<Rightarrow> Some (wrap (''transfer '' @ show_nat i @ '': failed to get account for user '' @ ma_FromUserID t) e)
      | Inr account \<Rightarrow>
          (if ba_Available account < ma_Amount t
           then Some (Raw (''transfer '' @ show_nat i @ '': insufficient funds for user '' @ ma_FromUserID t @ '' in '' @ ma_Currency t @
             '': available='' @ bl_text (sd_balance db) (ba_Available account) @ '', required='' @ bl_text (sd_balance db) (ma_Amount t)))
           else if ma_FromUserID t = ma_ToUserID t
           then Some (Raw (''transfer '' @ show_nat i @ '': from_user_id and to_user_id cannot be the same''))
           else funds_errors db (Suc i) ts d))"

definition preValidateTransfers :: "'d service_db \<Rightarrow> multi_asset_transfer list \<Rightarrow> 'd \<Rightarrow> bk_error option" where
  "preValidateTransfers db ts d =
     (case funds_errors db 0 ts d of
        Some e \<Rightarrow> Some e
      | None \<Rightarrow> map_option (wrap ''transfer ordering validation failed'') (validateTransferOrdering ts))"

definition multi_record :: "uuid \<Rightarrow> uuid \<Rightarrow> string \<Rightarrow> decimal \<Rightarrow> multi_asset_transfer \<Rightarrow> string \<Rightarrow> time \<Rightarrow> bk_txn" where
  "multi_record newID userID typ amount t ref now = \<lparr>bt_ID = newID, bt_UserID = userID, bt_Type = typ, bt_Amount = amount,
     bt_Currency = ma_Currency t, bt_Status = ''completed'', bt_Reference = ref, bt_Description = ma_Description t,
     bt_CreatedAt = now, bt_UpdatedAt = now, bt_CompletedAt = None\<rparr>"

text \<open>Both rows are locked in the order of the users' texts.\<close>

definition lock_rows :: "'d service_db \<Rightarrow> multi_asset_transfer \<Rightarrow> 'd \<Rightarrow> bk_error + (bk_account \<times> bk_account)" where
  "lock_rows db t d =
     (let lock_from = onError (wrap ''failed to lock from account'') (ld_find_locked (sd_ledger db) False (ma_FromUserID t) (ma_Currency t) d);
          lock_to = onError (wrap ''failed to lock to account'') (ld_find_locked (sd_ledger db) False (ma_ToUserID t) (ma_Currency t) d)
      in if string_less (ma_FromUserID t) (ma_ToUserID t)
         then andThen lock_from (\<lambda>fa. andThen lock_to (\<lambda>ta. Inr (fa, ta)))
         else andThen lock_to (\<lambda>ta. andThen lock_from (\<lambda>fa. Inr (fa, ta))))"

definition executeSingleTransferInTx :: "'d service_db \<Rightarrow> (nat \<Rightarrow> uuid) \<Rightarrow> time \<Rightarrow> multi_asset_transfer \<Rightarrow> string \<Rightarrow> 'd \<Rightarrow>
    bk_error + (asset_transfer_result \<times> 'd)" where
  "executeSingleTransferInTx db ids now t ref d =
     (let ldb = sd_ledger db; x = bl_float (sd_balance db) (ma_Amount t)
      in andThen (lock_rows db t d) (\<lambda>(fromAccount, toAccount).
         if ba_Available fromAccount < ma_Amount t
         then Inl (Raw (''insufficient funds: available='' @ bl_text (sd_balance db) (ba_Available fromAccount) @ '', required='' @
           bl_text (sd_balance db) (ma_Amount t)))
         else
         andThen (onError (wrap ''failed to debit from account'') (sd_update db (ma_FromUserID t) (ma_Currency t) None (- x) now d)) (\<lambda>(n, d).
         andThen (onError (wrap ''failed to credit to account'') (sd_update db (ma_ToUserID t) (ma_Currency t) None x now d)) (\<lambda>(n, d).
         andThen (onError (wrap ''invalid from user ID'') (ld_parse ldb (ma_FromUserID t))) (\<lambda>fromID.
         andThen (onError (wrap ''invalid to user ID'') (ld_parse ldb (ma_ToUserID t))) (\<lambda>toID.
         andThen (onError (wrap ''failed to create from transaction'')
           (ld_create_txn ldb (multi_record (ids 0) fromID ''multi_transfer_out'' (- ma_Amount t) t ref now) d)) (\<lambda>d.
         andThen (onError (wrap ''failed to create to transaction'')
           (ld_create_txn ldb (multi_record (ids 1) toID ''multi_transfer_in'' (ma_Amount t) t ref now) d)) (\<lambda>d.
         Inr (\<lparr>tr_FromUserID = ma_FromUserID t, tr_ToUserID = ma_ToUserID t, tr_Currency = ma_Currency t, tr_Amount = ma_Amount t,
           tr_FromNewBalance = ba_Balance fromAccount - ma_Amount t, tr_ToNewBalance = ba_Balance toAccount + ma_Amount t,
           tr_Status = ''completed''\<rparr>, d)))))))))"

text \<open>
  The transfers in one transaction, with the results so far; \<open>results\<close> is appended to as they are made.
\<close>

fun multi_loop :: "'d service_db \<Rightarrow> (nat \<Rightarrow> nat \<Rightarrow> uuid) \<Rightarrow> (nat \<Rightarrow> time) \<Rightarrow> string \<Rightarrow> nat \<Rightarrow> multi_asset_transfer list \<Rightarrow>
    asset_transfer_result list \<Rightarrow> 'd \<Rightarrow> bk_error + (asset_transfer_result list \<times> 'd)" where
  "multi_loop db ids clock transactionID i [] results d = Inr (results, d)"
| "multi_loop db ids clock transactionID i (t # ts) results d =
     (case executeSingleTransferInTx db (ids i) (clock (10 + i)) t (transactionID @ ''_transfer_'' @ show_nat i) d of
        Inl e \<Rightarrow> Inl (wrap (''transfer '' @ show_nat i @ '' failed'') e)
      | Inr (r, d') \<Rightarrow> multi_loop db ids clock transactionID (Suc i) ts (results @ [r]) d')"

definition multi_failed :: "string \<Rightarrow> time \<Rightarrow> bk_error \<Rightarrow> multi_transfer_response" where
  "multi_failed transactionID now e = \<lparr>mp_TransactionID = transactionID, mp_Transfers = [], mp_Status = ''failed'',
     mp_Timestamp = now, mp_FailureReason = bk_error_text e\<rparr>"

definition as_multi :: "cached_response \<Rightarrow> multi_transfer_response option" where
  "as_multi r = (case r of RMulti x \<Rightarrow> Some x | _ \<Rightarrow> None)"

text \<open>The results of the transaction, which a failing commit leaves in the closure's variable and nobody reads.\<close>

definition multi_results :: "bk_error + (asset_transfer_result list \<times> 'd) \<Rightarrow> asset_transfer_result list" where
  "multi_results r = (case r of Inl e \<Rightarrow> [] | Inr (rs, d) \<Rightarrow> rs)"

definition multi_run :: "'d service_db \<Rightarrow> (nat \<Rightarrow> nat \<Rightarrow> uuid) \<Rightarrow> uuid \<Rightarrow> (nat \<Rightarrow> time) \<Rightarrow> multi_transfer_request \<Rightarrow> 'd service_state \<Rightarrow>
    (multi_transfer_response, 'd) service_call" where
  "multi_run db ids newID clock req st0 =
     (let transactionID = ld_ustr (sd_ledger db) newID; ts = mr_Transfers req;
          st = with_service (track transactionID ''multi_asset_transfer'' (clock 1)) st0
      in untracked transactionID
        (case preValidateTransfers db ts (ss_db st) of
           Some e \<Rightarrow> (Returns (Some e, Some (multi_failed transactionID (clock 2) e)), with_service (incrementMetric ''failed_operations'') st)
         | None \<Rightarrow>
             (let body = multi_loop db ids clock transactionID 0 ts []
              in case plain_tx (sd_ledger db) (\<lambda>d. case body d of Inl e \<Rightarrow> Inl e | Inr (rs, d') \<Rightarrow> Inr d') (ss_db st) of
                   (Some e, d) \<Rightarrow>
                     (let r = multi_failed transactionID (clock 2) e
                      in (Returns (Some e, Some r),
                          with_service (\<lambda>sv. storeIdempotency (clock 6) (mr_Idempotency req) (RMulti r) (incrementMetric ''failed_operations'' sv)) (st\<lparr>ss_db := d\<rparr>)))
                 | (None, d) \<Rightarrow>
                     (let r = \<lparr>mp_TransactionID = transactionID, mp_Transfers = multi_results (body (ss_db st)), mp_Status = ''completed'',
                         mp_Timestamp = clock 5, mp_FailureReason = []\<rparr>
                      in (Returns (None, Some r),
                          with_service (finish_call (clock 6) (clock 7 - clock 1) (mr_Idempotency req) (RMulti r)) (st\<lparr>ss_db := d\<rparr>))))))"

definition sv_AtomicMultiAssetTransfer :: "'d service_db \<Rightarrow> (nat \<Rightarrow> nat \<Rightarrow> uuid) \<Rightarrow> uuid \<Rightarrow> (nat \<Rightarrow> time) \<Rightarrow> multi_transfer_request \<Rightarrow>
    'd service_state \<Rightarrow> (multi_transfer_response, 'd) service_call" where
  "sv_AtomicMultiAssetTransfer db ids newID clock req =
     begin_call (validateAtomicMultiAssetTransferRequest req) (mr_Idempotency req) (clock 0) as_multi (multi_run db ids newID clock req)"

section \<open>Queries\<close>

record balance_info =
  bi_UserID :: string
  bi_Currency :: string
  bi_Total :: decimal
  bi_Available :: decimal
  bi_Locked :: decimal
  bi_UpdatedAt :: time

definition sv_GetBalance :: "'d service_db \<Rightarrow> string \<Rightarrow> string \<Rightarrow> 'd \<Rightarrow> bk_error + balance_info" where
  "sv_GetBalance db userID currency d =
     (case bk_GetAccount (sd_ledger db) userID currency d of
        Inl e \<Rightarrow> Inl e
      | Inr a \<Rightarrow> Inr \<lparr>bi_UserID = userID, bi_Currency = currency, bi_Total = ba_Balance a, bi_Available = ba_Available a,
          bi_Locked = ba_Locked a, bi_UpdatedAt = ba_UpdatedAt a\<rparr>)"

record validation_request =
  vq_UserID :: string
  vq_Currency :: string
  vq_Amount :: decimal
  vq_Operation :: string
  vq_ToUserID :: string

text \<open>The errors in the order they are appended; the response is valid when there are none.\<close>

definition sv_ValidateTransaction :: "'d service_db \<Rightarrow> validation_request \<Rightarrow> 'd \<Rightarrow> bool \<times> string list" where
  "sv_ValidateTransaction db req d =
     (let e1 = (if vq_UserID req = [] then [''user_id is required''] else []);
          e2 = (if vq_Currency req = [] then [''currency is required''] else []);
          e3 = (if vq_Amount req \<le> 0 then [''amount must be positive''] else []);
          e4 = (if vq_Operation req = ''debit'' \<or> vq_Operation req = ''transfer''
                then (case bk_GetAccount (sd_ledger db) (vq_UserID req) (vq_Currency req) d of
                        Inl e \<Rightarrow> [''failed to retrieve account information'']
                      | Inr a \<Rightarrow>
                          (if ba_Available a < vq_Amount req
                           then [''insufficient funds: available='' @ bl_text (sd_balance db) (ba_Available a) @ '', required='' @
                             bl_text (sd_balance db) (vq_Amount req)]
                           else []))
                else []);
          e5 = (if vq_Operation req = ''transfer'' \<and> vq_ToUserID req = [] then [''to_user_id is required for transfer operations''] else []);
          errors = e1 @ e2 @ e3 @ e4 @ e5
      in (errors = [], errors))"

definition GetTransactionStatus :: "'d service_db \<Rightarrow> string \<Rightarrow> 'd service_state \<Rightarrow> bk_error + transaction_status" where
  "GetTransactionStatus db transactionID st =
     (case sv_activeTransactions (ss_service st) transactionID of
        Some s \<Rightarrow> Inr s
      | None \<Rightarrow>
          (case ld_find_txn (sd_ledger db) transactionID (ss_db st) of
             Inl e \<Rightarrow> Inl (if e = ErrRecordNotFound then Raw ''transaction not found'' else wrap ''failed to retrieve transaction'' e)
           | Inr t \<Rightarrow> Inr \<lparr>ts_TransactionID = transactionID, ts_Status = bt_Status t, ts_Type = bt_Type t, ts_Progress = 100,
               ts_CreatedAt = bt_CreatedAt t, ts_UpdatedAt = bt_UpdatedAt t, ts_CompletedAt = bt_CompletedAt t\<rparr>))"

end
