(* ===== verification/ServiceTheorems.thy ===== *)
theory ServiceTheorems
  imports BalanceService
begin

text \<open>
  The properties of the balance service: what its cache of responses does for a key used again, for
  another operation, after a failure and after a panic, and what its transfers of several assets keep.
\<close>

section \<open>What the code relies on\<close>

definition money_added :: "(uuid \<Rightarrow> string) \<Rightarrow> string \<Rightarrow> string \<Rightarrow> decimal \<Rightarrow> time \<Rightarrow> bk_account \<Rightarrow> bk_account" where
  "money_added ustr u c x now a =
     (if ustr (ba_UserID a) = u \<and> ba_Currency a = c
      then a\<lparr>ba_Balance := ba_Balance a + x, ba_Available := ba_Available a + x, ba_UpdatedAt := now\<rparr> else a)"

text \<open>
  The laws of the balance statements; the update adds to balance and available of the rows of the user and the
  currency, and counts none only when it finds none.
\<close>

definition service_laws :: "'d service_db \<Rightarrow> ('d \<Rightarrow> uuid \<rightharpoonup> bk_account) \<Rightarrow> ('d \<Rightarrow> uuid \<rightharpoonup> bk_txn) \<Rightarrow> bool" where
  "service_laws db accts txns \<longleftrightarrow> balance_laws (sd_balance db) accts txns \<and>
     (\<forall>u c x now d n d'. sd_update db u c None x now d = Inr (n, d') \<longrightarrow>
        (\<forall>i. accts d' i = map_option (money_added (ld_ustr (sd_ledger db)) u c x now) (accts d i)))"

lemma serviceD:
  assumes "service_laws db accts txns"
  shows "ledger_laws (sd_ledger db) accts txns"
    and "sd_update db u c None x now d = Inr (n, d') \<Longrightarrow>
      accts d' = map_option (money_added (ld_ustr (sd_ledger db)) u c x now) \<circ> accts d"
    and "ld_find_locked (sd_ledger db) w u c d = Inr a \<Longrightarrow> ld_ustr (sd_ledger db) (ba_UserID a) = u"
  using assms unfolding service_laws_def balance_laws_def by (blast, fastforce, blast)

lemma money_added_kept [simp]:
  "ba_Currency (money_added ustr u c x now a) = ba_Currency a" "ba_UserID (money_added ustr u c x now a) = ba_UserID a"
  "ba_Locked (money_added ustr u c x now a) = ba_Locked a" "ba_ID (money_added ustr u c x now a) = ba_ID a"
  "ba_Balance (money_added ustr u c x now a) - ba_Available (money_added ustr u c x now a) = ba_Balance a - ba_Available a"
  by (simp_all add: money_added_def)

section \<open>The cache\<close>

definition cached :: "string \<Rightarrow> cached_response \<Rightarrow> time \<Rightarrow> 'd service_state \<Rightarrow> bool" where
  "cached key r t st \<longleftrightarrow> sv_idempotencyCache (ss_service st) key = Some (r, t)"

lemma other_updates_cache [simp]:
  "sv_idempotencyCache (incrementMetric m sv) = sv_idempotencyCache sv" "sv_idempotencyTTL (incrementMetric m sv) = sv_idempotencyTTL sv"
  "sv_idempotencyCache (updateLatency t sv) = sv_idempotencyCache sv" "sv_idempotencyTTL (updateLatency t sv) = sv_idempotencyTTL sv"
  "sv_idempotencyCache (track i ty t sv) = sv_idempotencyCache sv" "sv_idempotencyTTL (track i ty t sv) = sv_idempotencyTTL sv"
  by (simp_all add: incrementMetric_def updateLatency_def track_def Let_def)

lemma finish_call_cache [simp]:
  "sv_idempotencyCache (finish_call now took key r sv) = (sv_idempotencyCache sv)(key \<mapsto> (r, now))"
  "sv_idempotencyTTL (finish_call now took key r sv) = sv_idempotencyTTL sv"
  by (simp_all add: finish_call_def storeIdempotency_def)

lemma with_service_simps [simp]:
  "ss_service (with_service f st) = f (ss_service st)" "ss_db (with_service f st) = ss_db st" "ss_manager (with_service f st) = ss_manager st"
  by (simp_all add: with_service_def)

lemma untracked_simps [simp]:
  "fst (untracked i r) = fst r" "ss_db (snd (untracked i r)) = ss_db (snd r)" "ss_manager (snd (untracked i r)) = ss_manager (snd r)"
  "sv_idempotencyCache (ss_service (snd (untracked i r))) = sv_idempotencyCache (ss_service (snd r))"
  "sv_idempotencyTTL (ss_service (snd (untracked i r))) = sv_idempotencyTTL (ss_service (snd r))"
  by (simp_all add: untracked_def)

text \<open>A key that is cached, and one that is not.\<close>

lemma begin_call_cached:
  assumes "cached key r t st" "now - t < sv_idempotencyTTL (ss_service st)" "invalid = None"
  shows "begin_call invalid key now ta run st =
    (case ta r of Some x \<Rightarrow> Returns (None, Some x) | None \<Rightarrow> Panics, with_service (incrementMetric ''idempotency_hits'') st)"
  using assms by (simp add: begin_call_def sv_checkIdempotency_def cached_def with_service_def split: option.splits)

lemma begin_call_new:
  assumes "sv_idempotencyCache (ss_service st) key = None" "invalid = None"
  shows "begin_call invalid key now ta run st = run st"
  using assms by (simp add: begin_call_def sv_checkIdempotency_def)

lemma begin_call_invalid:
  "begin_call (Some e) key now ta run st = failed_call (wrap ''validation failed'' e) (with_service (incrementMetric ''validation_failures'') st)"
  by (simp add: begin_call_def)

section \<open>Credits\<close>

text \<open>What a credit that was not answered from the cache did, whether it returned or panicked.\<close>

lemma money_reply_effect:
  assumes "service_laws db accts txns" "money_reply db tid req t x d = (r, d')"
  shows "accts d' = accts d"
  using assms(2) ledgerD(6) [OF serviceD(1) [OF assms(1)]] by (auto simp: money_reply_def Let_def split: sum.splits)

lemma money_tx_credit:
  assumes "service_laws db accts txns" "money_tx db t u c None x now e d = (None, d')"
  shows "accts d' = map_option (money_added (ld_ustr (sd_ledger db)) u c x now) \<circ> accts d"
proof -
  obtain d1 n where s: "ld_create_txn (sd_ledger db) t d = Inr d1" "sd_update db u c None x now d1 = Inr (n, d')"
    using plain_tx_None [OF assms(2) [unfolded money_tx_def]] by (auto split: if_splits)
  show ?thesis using serviceD(2) [OF assms(1) s(2)] ledgerD(7) [OF serviceD(1) [OF assms(1)] s(1)] by simp
qed

lemma money_tx_Some: "money_tx db t u c l x now e d = (Some e', d') \<Longrightarrow> d' = d"
  unfolding money_tx_def by (rule plain_tx_Some)

lemma credit_run_effect:
  assumes L: "service_laws db accts txns" and p: "ld_parse (sd_ledger db) (mq_UserID req) = Inr userID"
    and r: "credit_run db newID clock req st = (r, st')"
  shows "(\<exists>e. r = Returns (Some e, None)) \<and> ss_db st' = ss_db st \<and> sv_idempotencyCache (ss_service st') = sv_idempotencyCache (ss_service st) \<or>
    accts (ss_db st') = map_option (money_added (ld_ustr (sd_ledger db)) (mq_UserID req) (mq_Currency req) (bl_float (sd_balance db) (mq_Amount req)) (clock 3)) \<circ> accts (ss_db st) \<and>
    (r = Panics \<and> sv_idempotencyCache (ss_service st') = sv_idempotencyCache (ss_service st) \<or>
     (\<exists>x. r = Returns (None, Some x) \<and> sv_idempotencyCache (ss_service st') = (sv_idempotencyCache (ss_service st))(mq_Idempotency req \<mapsto> (RCredit x, clock 6))))"
proof -
  let ?t = "money_record newID userID ''credit'' (mq_Amount req) req (clock 2)"
  let ?e = "Raw (''account not found for user '' @ mq_UserID req @ '' and currency '' @ mq_Currency req)"
  let ?id = "ld_ustr (sd_ledger db) newID" let ?st = "with_service (track ?id ''credit'' (clock 1)) st"
  obtain q d where q: "money_tx db ?t (mq_UserID req) (mq_Currency req) None (bl_float (sd_balance db) (mq_Amount req)) (clock 3) ?e (ss_db st) = (q, d)"
    by (cases "money_tx db ?t (mq_UserID req) (mq_Currency req) None (bl_float (sd_balance db) (mq_Amount req)) (clock 3) ?e (ss_db st)")
  show ?thesis
  proof (cases q)
    case (Some e)
    then have "credit_run db newID clock req st = untracked ?id (failed_call e (with_service (incrementMetric ''failed_operations'') (?st\<lparr>ss_db := d\<rparr>)))"
      unfolding credit_run_def Let_def p sum.case using q by simp
    then have "(r, st') = untracked ?id (failed_call e (with_service (incrementMetric ''failed_operations'') (?st\<lparr>ss_db := d\<rparr>)))" using r by simp
    then show ?thesis using money_tx_Some [OF q [unfolded Some]] by (simp add: untracked_def failed_call_def)
  next
    case None
    obtain x d' where m: "money_reply db ?id req (clock 5) ?t d = (x, d')" by (cases "money_reply db ?id req (clock 5) ?t d")
    have "credit_run db newID clock req st = untracked ?id (finish_money clock (mq_Idempotency req) RCredit (x, d') ?st)"
      unfolding credit_run_def Let_def p sum.case using q None m by simp
    then have "(r, st') = untracked ?id (finish_money clock (mq_Idempotency req) RCredit (x, d') ?st)" using r by simp
    then show ?thesis using money_tx_credit [OF L q [unfolded None]] money_reply_effect [OF L m]
      by (cases x) (simp_all add: untracked_def finish_money_def)
  qed
qed

lemma sv_Credit_new:
  assumes "sv_idempotencyCache (ss_service st) (mq_Idempotency req) = None" "validateCreditRequest req = None"
  shows "sv_Credit db newID clock req st = credit_run db newID clock req st"
  using assms by (simp add: sv_Credit_def begin_call_new)

lemma credit_parses: "credit_run db newID clock req st = (Returns r, st') \<Longrightarrow> \<exists>userID. ld_parse (sd_ledger db) (mq_UserID req) = Inr userID"
  by (cases "ld_parse (sd_ledger db) (mq_UserID req)") (auto simp: credit_run_def Let_def untracked_def)

lemma track_TTL:
  "sv_idempotencyTTL (ss_service (snd (credit_run db newID clock req st))) = sv_idempotencyTTL (ss_service st)"
  by (auto simp: credit_run_def Let_def failed_call_def finish_money_def split: sum.splits prod.splits option.splits)

lemma credit_success:
  assumes L: "service_laws db accts txns" and n: "sv_idempotencyCache (ss_service st) (mq_Idempotency req) = None"
    and s: "sv_Credit db newID clock req st = (Returns (None, Some x), st1)"
  shows "validateCreditRequest req = None \<and>
    accts (ss_db st1) = map_option (money_added (ld_ustr (sd_ledger db)) (mq_UserID req) (mq_Currency req) (bl_float (sd_balance db) (mq_Amount req)) (clock 3)) \<circ> accts (ss_db st) \<and>
    cached (mq_Idempotency req) (RCredit x) (clock 6) st1 \<and> sv_idempotencyTTL (ss_service st1) = sv_idempotencyTTL (ss_service st)"
proof -
  have v: "validateCreditRequest req = None"
    using s by (cases "validateCreditRequest req") (auto simp: sv_Credit_def begin_call_invalid failed_call_def)
  then have r: "credit_run db newID clock req st = (Returns (None, Some x), st1)" using s sv_Credit_new [OF n v] by simp
  then obtain userID where "ld_parse (sd_ledger db) (mq_UserID req) = Inr userID" using credit_parses by blast
  from credit_run_effect [OF L this r] show ?thesis using v track_TTL [of db newID clock req st] r by (auto simp: cached_def)
qed

text \<open>
  C28: a credit that succeeded is not repeated while its key lives. A successful credit under a key that is
  not in the cache adds the float of its amount to balance and available of the user's rows and changes
  no other; a credit with that key within the time to live of the entry, with whatever request, clock
  and database, returns the same response and changes nothing. But a debit with that key does not fail:
  it panics. (A credit whose call panicked stores no entry and is repeated, see
  \<open>lost_response_credits_twice\<close>, and so is one after the time to live.)
\<close>

theorem credit_once:
  assumes "service_laws db accts txns" and "sv_idempotencyCache (ss_service st) (mq_Idempotency req) = None"
    and "sv_Credit db newID clock req st = (Returns (None, Some x), st1)"
    and "mq_Idempotency req' = mq_Idempotency req" and "validateCreditRequest req' = None"
    and "clock' 0 - clock 6 < sv_idempotencyTTL (ss_service st)"
  shows "accts (ss_db st1) = map_option (money_added (ld_ustr (sd_ledger db)) (mq_UserID req) (mq_Currency req) (bl_float (sd_balance db) (mq_Amount req)) (clock 3)) \<circ> accts (ss_db st) \<and>
    (\<exists>st2. sv_Credit db' newID' clock' req' st1 = (Returns (None, Some x), st2) \<and> ss_db st2 = ss_db st1) \<and>
    (\<exists>st2. sv_Debit db' newID' clock' req' st1 = (Panics, st2) \<and> ss_db st2 = ss_db st1)"
proof -
  have c: "cached (mq_Idempotency req') (RCredit x) (clock 6) st1" "clock' 0 - clock 6 < sv_idempotencyTTL (ss_service st1)"
    using credit_success [OF assms(1-3)] assms(4,6) by simp_all
  have "validateDebitRequest req' = None" using assms(5) by (simp add: validateDebitRequest_def validateCreditRequest_def)
  then show ?thesis using credit_success [OF assms(1-3)] assms(5)
    by (simp add: sv_Credit_def sv_Debit_def begin_call_cached [OF c] as_credit_def as_debit_def)
qed

text \<open>
  a lost response credits twice. When the account cannot be read after the commit, the call panics
  and stores no response, though the credit is made: the repeated call, with the same key, makes it again.
\<close>

theorem lost_response_credits_twice:
  assumes "service_laws db accts txns" and "service_laws db' accts txns"
    and "sv_idempotencyCache (ss_service st) (mq_Idempotency req) = None" and "validateCreditRequest req = None"
    and "ld_parse (sd_ledger db) (mq_UserID req) = Inr userID"
    and "sv_Credit db newID clock req st = (Panics, st1)" and "sv_Credit db' newID' clock' req st1 = (Returns (None, Some x), st2)"
  shows "accts (ss_db st2) =
    map_option (money_added (ld_ustr (sd_ledger db')) (mq_UserID req) (mq_Currency req) (bl_float (sd_balance db') (mq_Amount req)) (clock' 3)) \<circ>
    (map_option (money_added (ld_ustr (sd_ledger db)) (mq_UserID req) (mq_Currency req) (bl_float (sd_balance db) (mq_Amount req)) (clock 3)) \<circ> accts (ss_db st))"
proof -
  have "credit_run db newID clock req st = (Panics, st1)" using assms(6) sv_Credit_new [OF assms(3,4)] by simp
  from credit_run_effect [OF assms(1,5) this]
  have s1: "accts (ss_db st1) = map_option (money_added (ld_ustr (sd_ledger db)) (mq_UserID req) (mq_Currency req) (bl_float (sd_balance db) (mq_Amount req)) (clock 3)) \<circ> accts (ss_db st)"
    "sv_idempotencyCache (ss_service st1) (mq_Idempotency req) = None"
    using assms(3) by auto
  then show ?thesis using credit_success [OF assms(2) s1(2) assms(7)] by simp
qed

section \<open>Transfers of several assets\<close>

lemma transfer_ordering_found:
  "(ma_ToUserID t, ma_FromUserID t) \<in> seen \<Longrightarrow> t \<in> set ts \<Longrightarrow> transfer_ordering seen i ts \<noteq> None"
  by (induction ts arbitrary: seen i) auto

lemma transfer_ordering_opposite:
  assumes "k < n" "n < length ts" "ma_FromUserID (ts ! n) = ma_ToUserID (ts ! k)" "ma_ToUserID (ts ! n) = ma_FromUserID (ts ! k)"
  shows "transfer_ordering seen i ts \<noteq> None"
  using assms
proof (induction ts arbitrary: seen i k n)
  case (Cons t ts)
  then obtain n' where n: "n = Suc n'" "n' < length ts" by (cases n) auto
  show ?case
  proof (cases k)
    case 0
    then have "(ma_ToUserID (ts ! n'), ma_FromUserID (ts ! n')) \<in> insert (ma_FromUserID t, ma_ToUserID t) seen" using Cons.prems n by simp
    from transfer_ordering_found [OF this, of ts "Suc i"] show ?thesis using n nth_mem by auto
  next
    case (Suc k')
    then show ?thesis using Cons.IH [of k' n'] Cons.prems n by simp
  qed
qed simp

text \<open>
  a swap is refused. Transfers of several assets are meant for trades with several legs, but the
  check for deadlocks refuses two transfers of opposite directions, in whatever assets: the trade in which two users exchange
  assets fails on every try, before a transaction begins, and the failure is not even cached.
\<close>

theorem swap_refused:
  assumes "k < n" and "n < length (mr_Transfers req)"
    and "ma_FromUserID (mr_Transfers req ! n) = ma_ToUserID (mr_Transfers req ! k)"
    and "ma_ToUserID (mr_Transfers req ! n) = ma_FromUserID (mr_Transfers req ! k)"
    and "sv_idempotencyCache (ss_service st) (mr_Idempotency req) = None"
    and "sv_AtomicMultiAssetTransfer db ids newID clock req st = (r, st')"
  shows "(\<exists>e x. r = Returns (Some e, x)) \<and> ss_db st' = ss_db st \<and> sv_idempotencyCache (ss_service st') = sv_idempotencyCache (ss_service st)"
proof (cases "validateAtomicMultiAssetTransferRequest req")
  case None
  have o: "validateTransferOrdering (mr_Transfers req) \<noteq> None"
    unfolding validateTransferOrdering_def by (rule transfer_ordering_opposite [OF assms(1-4)])
  have "preValidateTransfers db (mr_Transfers req) d \<noteq> None" for d
    using o unfolding preValidateTransfers_def by (auto split: option.splits)
  then obtain e where e: "preValidateTransfers db (mr_Transfers req) (ss_db st) = Some e" by blast
  have "sv_AtomicMultiAssetTransfer db ids newID clock req st = multi_run db ids newID clock req st"
    by (simp add: sv_AtomicMultiAssetTransfer_def begin_call_new [OF assms(5) None])
  then have "(r, st') = multi_run db ids newID clock req st" using assms(6) by simp
  then show ?thesis by (simp add: multi_run_def Let_def e untracked_def)
next
  case (Some e)
  then show ?thesis using assms(6) by (auto simp: sv_AtomicMultiAssetTransfer_def begin_call_invalid failed_call_def)
qed

text \<open>
  a failed transfer succeeds on the second try. When the transfers pass the checks and fail in
  the transaction, the failed response is cached: repeated with the same key within its time to live, the call reports
  no error for a response with the status failed, and nothing was transferred by either call.
\<close>

theorem failed_transfer_repeated:
  assumes "sv_idempotencyCache (ss_service st) (mr_Idempotency req) = None" and "validateAtomicMultiAssetTransferRequest req = None"
    and "preValidateTransfers db (mr_Transfers req) (ss_db st) = None"
    and "sv_AtomicMultiAssetTransfer db ids newID clock req st = (Returns (Some e, x), st1)"
    and "clock' 0 - clock 6 < sv_idempotencyTTL (ss_service st)"
  shows "\<exists>y st2. x = Some y \<and> mp_Status y = ''failed'' \<and> ss_db st1 = ss_db st \<and>
    sv_AtomicMultiAssetTransfer db' ids' newID' clock' req st1 = (Returns (None, Some y), st2) \<and> ss_db st2 = ss_db st"
proof -
  let ?id = "ld_ustr (sd_ledger db) newID"
  let ?st = "with_service (track ?id ''multi_asset_transfer'' (clock 1)) st"
  let ?body = "multi_loop db ids clock ?id 0 (mr_Transfers req) []"
  let ?y = "multi_failed ?id (clock 2) e"
  obtain q d where q: "plain_tx (sd_ledger db) (\<lambda>d. case ?body d of Inl e \<Rightarrow> Inl e | Inr (rs, d') \<Rightarrow> Inr d') (ss_db st) = (q, d)"
    by (cases "plain_tx (sd_ledger db) (\<lambda>d. case ?body d of Inl e \<Rightarrow> Inl e | Inr (rs, d') \<Rightarrow> Inr d') (ss_db st)")
  have "sv_AtomicMultiAssetTransfer db ids newID clock req st = multi_run db ids newID clock req st"
    by (simp add: sv_AtomicMultiAssetTransfer_def begin_call_new [OF assms(1,2)])
  then have r: "(Returns (Some e, x), st1) = multi_run db ids newID clock req st" using assms(4) by simp
  have p: "preValidateTransfers db (mr_Transfers req) (ss_db ?st) = None" "ss_db ?st = ss_db st" using assms(3) by simp_all
  have qe: "q = Some e"
  proof (cases q)
    case None
    then have "\<exists>y. fst (multi_run db ids newID clock req st) = Returns (None, Some y)"
      unfolding multi_run_def Let_def p q by (simp add: assms(3))
    then show ?thesis using r by (metis fst_conv option.distinct(1) outcome.inject prod.inject)
  next
    case (Some a)
    then have "fst (multi_run db ids newID clock req st) = Returns (Some a, Some (multi_failed ?id (clock 2) a))"
      unfolding multi_run_def Let_def p q by (simp add: assms(3))
    then show ?thesis using r Some by (metis fst_conv outcome.inject prod.inject)
  qed
  have m: "multi_run db ids newID clock req st = untracked ?id (Returns (Some e, Some ?y),
      with_service (\<lambda>sv. storeIdempotency (clock 6) (mr_Idempotency req) (RMulti ?y) (incrementMetric ''failed_operations'' sv)) (?st\<lparr>ss_db := d\<rparr>))"
    unfolding multi_run_def Let_def p q qe by (simp add: assms(3))
  have x: "Returns (Some e, x) = fst (multi_run db ids newID clock req st)" and s: "st1 = snd (multi_run db ids newID clock req st)"
    using r by (metis fst_conv, metis snd_conv)
  note x = x [unfolded m] and s = s [unfolded m]
  have c1: "x = Some ?y" using x by simp
  have c2: "ss_db st1 = d" unfolding s by simp
  have c3: "cached (mr_Idempotency req) (RMulti ?y) (clock 6) st1" unfolding s cached_def by (simp add: storeIdempotency_def)
  have c4: "sv_idempotencyTTL (ss_service st1) = sv_idempotencyTTL (ss_service st)" unfolding s by (simp add: storeIdempotency_def)
  note c = c1 c2 c3 c4
  have d: "ss_db st1 = ss_db st" using plain_tx_Some [OF q [unfolded qe]] c(2) by simp
  have t: "clock' 0 - clock 6 < sv_idempotencyTTL (ss_service st1)" using assms(5) c(4) by simp
  have "sv_AtomicMultiAssetTransfer db' ids' newID' clock' req st1 =
      (Returns (None, Some ?y), with_service (incrementMetric ''idempotency_hits'') st1)"
    unfolding sv_AtomicMultiAssetTransfer_def begin_call_cached [OF c(3) t assms(2)] by (simp add: as_multi_def)
  then show ?thesis using c(1) d by (intro exI [of _ ?y] exI) (auto simp: multi_failed_def)
qed

text \<open>One row per user and currency, and rows whose balance and parts moved by the same amount.\<close>

definition one_row :: "(uuid \<Rightarrow> string) \<Rightarrow> (uuid \<rightharpoonup> bk_account) \<Rightarrow> bool" where
  "one_row ustr A \<longleftrightarrow> (\<forall>i j a b. A i = Some a \<longrightarrow> A j = Some b \<longrightarrow> ustr (ba_UserID a) = ustr (ba_UserID b) \<longrightarrow>
     ba_Currency a = ba_Currency b \<longrightarrow> i = j)"

definition same_split :: "(uuid \<rightharpoonup> bk_account) \<Rightarrow> (uuid \<rightharpoonup> bk_account) \<Rightarrow> bool" where
  "same_split A A' \<longleftrightarrow> (\<forall>i. rel_option (\<lambda>a b. ba_Locked b = ba_Locked a \<and> ba_Balance b - ba_Available b = ba_Balance a - ba_Available a) (A i) (A' i))"

lemma same_split_refl [simp]: "same_split A A"
  by (simp add: same_split_def option.rel_refl)

lemma same_split_trans:
  assumes "same_split A B" "same_split B C" shows "same_split A C"
  unfolding same_split_def
proof
  fix i
  show "rel_option (\<lambda>a b. ba_Locked b = ba_Locked a \<and> ba_Balance b - ba_Available b = ba_Balance a - ba_Available a) (A i) (C i)"
    using assms [unfolded same_split_def, rule_format, of i] by (cases "A i"; cases "B i"; cases "C i") auto
qed

lemma same_split_added: "same_split A (map_option (money_added ustr u c x now) \<circ> A)"
  by (simp add: same_split_def option.rel_map option.rel_refl)

lemma one_row_added: "one_row ustr A \<Longrightarrow> one_row ustr (map_option (money_added ustr u c x now) \<circ> A)"
  unfolding one_row_def by (auto simp: map_option_case split: option.splits)

lemma added_total:
  assumes "one_row ustr A" "finite (dom A)" "A i = Some a" "ustr (ba_UserID a) = u" "ba_Currency a = c"
  shows "currency_total k (map_option (money_added ustr u c x now) \<circ> A) = currency_total k A + (if k = c then x else 0)"
proof -
  let ?b = "a\<lparr>ba_Balance := ba_Balance a + x, ba_Available := ba_Available a + x, ba_UpdatedAt := now\<rparr>"
  have "map_option (money_added ustr u c x now) \<circ> A = A(i \<mapsto> ?b)"
  proof
    fix j
    show "(map_option (money_added ustr u c x now) \<circ> A) j = (A(i \<mapsto> ?b)) j"
    proof (cases "j = i")
      case True
      then show ?thesis using assms(3-5) by (simp add: money_added_def)
    next
      case False
      have "\<not> (ustr (ba_UserID z) = u \<and> ba_Currency z = c)" if "A j = Some z" for z
        using assms(1,3-5) False that unfolding one_row_def by metis
      then show ?thesis using False by (cases "A j") (auto simp: money_added_def)
    qed
  qed
  then show ?thesis using assms(2,3,5) by (auto simp: currency_total_upd simp del: fun_upd_apply)
qed

lemma lock_rows_found:
  assumes "lock_rows db t d = Inr (fa, ta)"
  shows "ld_find_locked (sd_ledger db) False (ma_FromUserID t) (ma_Currency t) d = Inr fa \<and>
    ld_find_locked (sd_ledger db) False (ma_ToUserID t) (ma_Currency t) d = Inr ta"
  using assms by (auto simp: lock_rows_def Let_def split: if_splits)

text \<open>
  The rows after a transfer, the amount off the sender's row and then on the receiver's, and after a
  list of them, the first at the clock's reading \<open>10 + i\<close>; \<open>bf\<close> is the amount as a float.
\<close>

definition moved :: "(uuid \<Rightarrow> string) \<Rightarrow> (decimal \<Rightarrow> decimal) \<Rightarrow> time \<Rightarrow> multi_asset_transfer \<Rightarrow> (uuid \<rightharpoonup> bk_account) \<Rightarrow>
    (uuid \<rightharpoonup> bk_account)" where
  "moved ustr bf now t A =
     map_option (money_added ustr (ma_ToUserID t) (ma_Currency t) (bf (ma_Amount t)) now) \<circ>
     (map_option (money_added ustr (ma_FromUserID t) (ma_Currency t) (- bf (ma_Amount t)) now) \<circ> A)"

fun all_moved :: "(uuid \<Rightarrow> string) \<Rightarrow> (decimal \<Rightarrow> decimal) \<Rightarrow> (nat \<Rightarrow> time) \<Rightarrow> nat \<Rightarrow> multi_asset_transfer list \<Rightarrow>
    (uuid \<rightharpoonup> bk_account) \<Rightarrow> (uuid \<rightharpoonup> bk_account)" where
  "all_moved ustr bf clock i [] A = A"
| "all_moved ustr bf clock i (t # ts) A = all_moved ustr bf clock (Suc i) ts (moved ustr bf (clock (10 + i)) t A)"

text \<open>A result names its transfer.\<close>

definition result_for :: "multi_asset_transfer \<Rightarrow> asset_transfer_result \<Rightarrow> bool" where
  "result_for t r \<longleftrightarrow> tr_FromUserID r = ma_FromUserID t \<and> tr_ToUserID r = ma_ToUserID t \<and>
     tr_Currency r = ma_Currency t \<and> tr_Amount r = ma_Amount t"

text \<open>What one transfer in the transaction does and keeps.\<close>

definition conserves :: "(uuid \<Rightarrow> string) \<Rightarrow> (uuid \<rightharpoonup> bk_account) \<Rightarrow> (uuid \<rightharpoonup> bk_account) \<Rightarrow> bool" where
  "conserves ustr A A' \<longleftrightarrow> (\<forall>k. currency_total k A' = currency_total k A) \<and> same_split A A' \<and> one_row ustr A'"

lemma single_transfer_effect:
  assumes L: "service_laws db accts txns" and "executeSingleTransferInTx db ids now t ref d = Inr (r, d')"
    and o: "one_row (ld_ustr (sd_ledger db)) (accts d)"
  shows "conserves (ld_ustr (sd_ledger db)) (accts d) (accts d') \<and> result_for t r \<and>
    accts d' = moved (ld_ustr (sd_ledger db)) (bl_float (sd_balance db)) now t (accts d)"
proof -
  let ?u = "ld_ustr (sd_ledger db)" let ?x = "bl_float (sd_balance db) (ma_Amount t)"
  obtain fa ta n d1 m d2 t1 t2 d3 where s: "lock_rows db t d = Inr (fa, ta)"
    "sd_update db (ma_FromUserID t) (ma_Currency t) None (- ?x) now d = Inr (n, d1)"
    "sd_update db (ma_ToUserID t) (ma_Currency t) None ?x now d1 = Inr (m, d2)"
    "ld_create_txn (sd_ledger db) t1 d2 = Inr d3" "ld_create_txn (sd_ledger db) t2 d3 = Inr d'" and named: "result_for t r"
    using assms(2) by (auto simp: executeSingleTransferInTx_def result_for_def Let_def split: if_splits)
  note a1 = serviceD(2) [OF L s(2)] and a2 = serviceD(2) [OF L s(3)]
  have e: "accts d' = accts d2" using ledgerD(7) [OF serviceD(1) [OF L] s(4)] ledgerD(7) [OF serviceD(1) [OF L] s(5)] by simp
  have fa: "accts d (ba_ID fa) = Some fa" "?u (ba_UserID fa) = ma_FromUserID t" "ba_Currency fa = ma_Currency t"
    and ta: "accts d (ba_ID ta) = Some ta" "?u (ba_UserID ta) = ma_ToUserID t" "ba_Currency ta = ma_Currency t"
    using lock_rows_found [OF s(1)] serviceD(3) [OF L] ledgerD(2) [OF serviceD(1) [OF L]] by blast+
  have o1: "one_row ?u (accts d1)" unfolding a1 by (rule one_row_added [OF o])
  have f: "finite (dom (accts z))" for z by (rule ledgerD(9) [OF serviceD(1) [OF L]])
  have "accts d1 (ba_ID ta) = Some (money_added ?u (ma_FromUserID t) (ma_Currency t) (- ?x) now ta)" unfolding a1 using ta by simp
  then have "currency_total k (accts d2) = currency_total k (accts d1) + (if k = ma_Currency t then ?x else 0)" for k
    unfolding a2 by (rule added_total [OF o1 f]) (use ta in simp_all)
  moreover have "currency_total k (accts d1) = currency_total k (accts d) + (if k = ma_Currency t then - ?x else 0)" for k
    unfolding a1 by (rule added_total [OF o f fa])
  moreover have "same_split (accts d) (accts d2)" unfolding a2 by (rule same_split_trans [OF _ same_split_added]) (unfold a1, rule same_split_added)
  moreover have "one_row ?u (accts d2)" unfolding a2 by (rule one_row_added [OF o1])
  ultimately show ?thesis using named unfolding conserves_def e moved_def by (simp add: a1 a2)
qed

lemma multi_loop_effect:
  assumes L: "service_laws db accts txns"
  shows "multi_loop db ids clock tid i ts rs d = Inr (rs', d') \<Longrightarrow> one_row (ld_ustr (sd_ledger db)) (accts d) \<Longrightarrow>
    conserves (ld_ustr (sd_ledger db)) (accts d) (accts d') \<and>
    (\<exists>new. rs' = rs @ new \<and> list_all2 result_for ts new) \<and>
    accts d' = all_moved (ld_ustr (sd_ledger db)) (bl_float (sd_balance db)) clock i ts (accts d)"
proof (induction ts arbitrary: i rs d)
  case Nil
  then show ?case by (simp add: conserves_def)
next
  case (Cons t ts)
  obtain r d1 where s: "executeSingleTransferInTx db (ids i) (clock (10 + i)) t (tid @ ''_transfer_'' @ show_nat i) d = Inr (r, d1)"
    and m: "multi_loop db ids clock tid (Suc i) ts (rs @ [r]) d1 = Inr (rs', d')"
    using Cons.prems(1) by (auto split: sum.splits)
  note c = single_transfer_effect [OF L s Cons.prems(2)]
  then obtain new where n: "rs' = (rs @ [r]) @ new" "list_all2 result_for ts new"
    and c': "conserves (ld_ustr (sd_ledger db)) (accts d1) (accts d')"
    "accts d' = all_moved (ld_ustr (sd_ledger db)) (bl_float (sd_balance db)) clock (Suc i) ts (accts d1)"
    using Cons.IH [OF m] by (auto simp: conserves_def)
  have "conserves (ld_ustr (sd_ledger db)) (accts d) (accts d')"
    using c c'(1) unfolding conserves_def using same_split_trans by auto
  moreover have "\<exists>new. rs' = rs @ new \<and> list_all2 result_for (t # ts) new"
    using n c by (intro exI [of _ "r # new"]) simp
  ultimately show ?case using c c'(2) by simp
qed

text \<open>
  C27: what transfers of several assets do. With one row per user and currency, a successful call under a
  key that the cache does not hold has made every transfer of the list, in its order: the amount is
  taken off balance and available of the sender's row in the currency and added to those of the
  receiver's, no other row is touched, and the response names the transfers one by one. So the total of
  every currency is kept, and of every row what is locked and what is between the balance and the
  available amount. A call under such a key that reports an error leaves the ledger as it was. (With a
  key that the cache holds nothing is transferred, also when the cached response is a failure.)
\<close>

theorem multi_transfer_conserves:
  assumes "service_laws db accts txns" and "one_row (ld_ustr (sd_ledger db)) (accts (ss_db st))"
    and "sv_idempotencyCache (ss_service st) (mr_Idempotency req) = None"
    and "sv_AtomicMultiAssetTransfer db ids newID clock req st = (Returns (r, x), st')"
  shows "(r \<noteq> None \<and> ss_db st' = ss_db st) \<or>
    (r = None \<and> (\<exists>y. x = Some y \<and> mp_Status y = ''completed'' \<and> list_all2 result_for (mr_Transfers req) (mp_Transfers y)) \<and>
      accts (ss_db st') =
        all_moved (ld_ustr (sd_ledger db)) (bl_float (sd_balance db)) clock 0 (mr_Transfers req) (accts (ss_db st)) \<and>
      (\<forall>k. currency_total k (accts (ss_db st')) = currency_total k (accts (ss_db st))) \<and>
      same_split (accts (ss_db st)) (accts (ss_db st')))"
proof (cases "validateAtomicMultiAssetTransferRequest req")
  case (Some e)
  then show ?thesis using assms(4) by (auto simp: sv_AtomicMultiAssetTransfer_def begin_call_invalid failed_call_def)
next
  case None
  let ?id = "ld_ustr (sd_ledger db) newID"
  let ?st = "with_service (track ?id ''multi_asset_transfer'' (clock 1)) st"
  let ?body = "multi_loop db ids clock ?id 0 (mr_Transfers req) []"
  obtain q d where q: "plain_tx (sd_ledger db) (\<lambda>d. case ?body d of Inl e \<Rightarrow> Inl e | Inr (rs, d') \<Rightarrow> Inr d') (ss_db st) = (q, d)"
    by (cases "plain_tx (sd_ledger db) (\<lambda>d. case ?body d of Inl e \<Rightarrow> Inl e | Inr (rs, d') \<Rightarrow> Inr d') (ss_db st)")
  have p: "ss_db ?st = ss_db st" by simp
  have r: "multi_run db ids newID clock req st = (Returns (r, x), st')"
    using assms(4) by (simp add: sv_AtomicMultiAssetTransfer_def begin_call_new [OF assms(3) None])
  show ?thesis
  proof (cases "preValidateTransfers db (mr_Transfers req) (ss_db st)")
    case (Some e)
    then show ?thesis using r by (simp add: multi_run_def Let_def untracked_def) auto
  next
    case pv: None
    show ?thesis
    proof (cases q)
      case (Some e)
      have "d = ss_db st" using plain_tx_Some [OF q [unfolded Some]] .
      moreover have "fst (multi_run db ids newID clock req st) = Returns (Some e, Some (multi_failed ?id (clock 2) e))"
        "ss_db (snd (multi_run db ids newID clock req st)) = d"
        unfolding multi_run_def Let_def p q Some by (simp_all add: pv)
      ultimately show ?thesis using r by simp
    next
      case qn: None
      obtain rs where b: "?body (ss_db st) = Inr (rs, d)"
        using plain_tx_None [OF q [unfolded qn]] by (auto split: sum.splits)
      have "\<exists>y. fst (multi_run db ids newID clock req st) = Returns (None, Some y) \<and> mp_Status y = ''completed'' \<and> mp_Transfers y = rs"
        "ss_db (snd (multi_run db ids newID clock req st)) = d"
        unfolding multi_run_def Let_def p q qn b by (simp_all add: pv multi_results_def)
      then show ?thesis using r multi_loop_effect [OF assms(1) b assms(2)] by (auto simp: conserves_def)
    qed
  qed
qed

section \<open>Examples\<close>

definition mem_update :: "string \<Rightarrow> string \<Rightarrow> decimal option \<Rightarrow> decimal \<Rightarrow> time \<Rightarrow> mem_ledger \<Rightarrow> bk_error + (nat \<times> mem_ledger)" where
  "mem_update u c l x now d =
     (let hit = (\<lambda>a. mem_user (ba_UserID a) = u \<and> ba_Currency a = c \<and> (case l of None \<Rightarrow> True | Some y \<Rightarrow> y \<le> ba_Available a))
      in Inr (length (filter (\<lambda>(i, a). hit a) (fst d)), (map (\<lambda>(i, a). (i, if hit a then money_added mem_user u c x now a else a)) (fst d), snd d)))"

definition mem_service :: "mem_ledger service_db" where
  "mem_service = \<lparr>sd_balance = mem_balance, sd_update = mem_update\<rparr>"

lemma mem_service_laws: "service_laws mem_service mem_accts mem_txns"
proof -
  have m: "map_of (map (\<lambda>(i, a). (i, g a)) xs) i = map_option g (map_of xs i)" for g :: "bk_account \<Rightarrow> bk_account" and xs and i :: uuid
    by (induction xs) auto
  have i: "(if mem_user (ba_UserID a) = u \<and> ba_Currency a = c then money_added mem_user u c x now a else a) = money_added mem_user u c x now a" for a u c x now
    by (simp add: money_added_def)
  show ?thesis unfolding service_laws_def
    using mem_balance_laws by (simp add: mem_service_def mem_update_def mem_accts_def m i Let_def mem_balance_def mem_db_def)
qed

definition service_state :: "mem_ledger service_state" where
  "service_state = \<lparr>ss_service = NewBalanceService, ss_manager = NewBalanceConsistencyManager, ss_db = two_users\<rparr>"

definition a_credit :: money_request where
  "a_credit = \<lparr>mq_UserID = ''1'', mq_Currency = ''EUR'', mq_Amount = 30, mq_Reference = ''r'', mq_Description = [], mq_Idempotency = ''k''\<rparr>"

lemma service_state_new: "sv_idempotencyCache (ss_service service_state) key = None"
  by (simp add: service_state_def NewBalanceService_def)

theorem credit_once_witness:
  "\<exists>x st1 st2 st3. sv_Credit mem_service 50 int a_credit service_state = (Returns (None, Some x), st1) \<and>
     sv_Credit mem_service 51 (\<lambda>n. 100 + int n) a_credit st1 = (Returns (None, Some x), st2) \<and> ss_db st2 = ss_db st1 \<and>
     sv_Debit mem_service 51 (\<lambda>n. 100 + int n) a_credit st1 = (Panics, st3)"
proof -
  let ?r = "sv_Credit mem_service 50 int a_credit service_state"
  have v: "(case fst ?r of Returns (None, Some x) \<Rightarrow> True | _ \<Rightarrow> False) \<and> validateCreditRequest a_credit = None \<and>
      100 - 6 < sv_idempotencyTTL (ss_service service_state)" by code_simp
  obtain x st1 where r: "?r = (Returns (None, Some x), st1)" using v by (cases ?r) (auto split: outcome.splits prod.splits option.splits)
  have "(\<lambda>n. 100 + int n) 0 - int 6 < sv_idempotencyTTL (ss_service service_state)" "validateCreditRequest a_credit = None" using v by simp_all
  from credit_once [OF mem_service_laws service_state_new r refl this(2), of "\<lambda>n. 100 + int n" mem_service 51, OF this(1)]
  show ?thesis using r by blast
qed

text \<open>The account cannot be read for the first response.\<close>

definition unreadable :: "mem_ledger service_db" where
  "unreadable = mem_service\<lparr>sd_balance := mem_balance\<lparr>bl_ledger := mem_db\<lparr>ld_find := (\<lambda>u c d. Inl (Raw ''connection reset''))\<rparr>\<rparr>\<rparr>"

lemma unreadable_laws: "service_laws unreadable mem_accts mem_txns"
  using mem_service_laws
  by (auto simp: service_laws_def balance_laws_def ledger_laws_def unreadable_def mem_service_def mem_balance_def)

theorem lost_response_credits_twice_witness:
  "\<exists>st1 x st2. sv_Credit unreadable 50 int a_credit service_state = (Panics, st1) \<and>
     sv_Credit mem_service 51 int a_credit st1 = (Returns (None, Some x), st2) \<and>
     map_option ba_Balance (mem_accts (ss_db st2) 10) = map_option (\<lambda>a. ba_Balance a + 60) (mem_accts two_users 10)"
proof -
  let ?r = "sv_Credit unreadable 50 int a_credit service_state" let ?q = "sv_Credit mem_service 51 int a_credit (snd ?r)"
  have v: "(case fst ?r of Panics \<Rightarrow> True | _ \<Rightarrow> False) \<and> (case fst ?q of Returns (None, Some x) \<Rightarrow> True | _ \<Rightarrow> False) \<and>
      validateCreditRequest a_credit = None \<and> ld_parse (sd_ledger unreadable) (mq_UserID a_credit) = Inr 1" by code_simp
  obtain st1 where r: "?r = (Panics, st1)" using v by (cases ?r) (auto split: outcome.splits)
  obtain x st2 where q: "?q = (Returns (None, Some x), st2)" using v by (cases ?q) (auto split: outcome.splits prod.splits option.splits)
  have q': "sv_Credit mem_service 51 int a_credit st1 = (Returns (None, Some x), st2)" using q r by simp
  have "validateCreditRequest a_credit = None" "ld_parse (sd_ledger unreadable) (mq_UserID a_credit) = Inr 1" using v by blast+
  note twice = lost_response_credits_twice [OF unreadable_laws mem_service_laws service_state_new this r q']
  have a: "mem_accts two_users 10 = Some (snd (row 10 1 100 5))" "ld_ustr (sd_ledger mem_service) = mem_user" "ld_ustr (sd_ledger unreadable) = mem_user"
    "bl_float (sd_balance mem_service) = (\<lambda>x. x)" "bl_float (sd_balance unreadable) = (\<lambda>x. x)"
    by (simp_all add: mem_accts_def two_users_def row_def mem_service_def unreadable_def mem_balance_def mem_db_def)
  have u: "mem_user 1 = ''1''" by code_simp
  have "map_option ba_Balance (mem_accts (ss_db st2) 10) = map_option (\<lambda>a. ba_Balance a + 60) (mem_accts two_users 10)"
    unfolding twice by (simp add: service_state_def a u [simplified] money_added_def a_credit_def row_def)
  then show ?thesis using r q' by blast
qed

definition leg :: "string \<Rightarrow> string \<Rightarrow> string \<Rightarrow> decimal \<Rightarrow> multi_asset_transfer" where
  "leg u v c x = \<lparr>ma_FromUserID = u, ma_ToUserID = v, ma_Currency = c, ma_Amount = x, ma_Reference = [], ma_Description = []\<rparr>"

definition legs :: "multi_asset_transfer list \<Rightarrow> multi_transfer_request" where
  "legs ts = \<lparr>mr_Transfers = ts, mr_Reference = ''r'', mr_Description = [], mr_Idempotency = ''k''\<rparr>"

theorem swap_refused_witness:
  "\<exists>e x st'. sv_AtomicMultiAssetTransfer mem_service (\<lambda>i n. 60 + n) 50 int (legs [leg ''1'' ''2'' ''EUR'' 10, leg ''2'' ''1'' ''EUR'' 5]) service_state =
     (Returns (Some e, x), st') \<and> ss_db st' = two_users"
proof -
  let ?req = "legs [leg ''1'' ''2'' ''EUR'' 10, leg ''2'' ''1'' ''EUR'' 5]"
  obtain r st' where r: "sv_AtomicMultiAssetTransfer mem_service (\<lambda>i n. 60 + n) 50 int ?req service_state = (r, st')" by fastforce
  have l: "1 < length (mr_Transfers ?req)" by (simp add: legs_def)
  show ?thesis using swap_refused [OF zero_less_one l _ _ service_state_new r] r by (auto simp: legs_def leg_def service_state_def)
qed

text \<open>The funds are there for each transfer but not for both.\<close>

theorem failed_transfer_repeated_witness:
  "\<exists>e y st1 st2. sv_AtomicMultiAssetTransfer mem_service (\<lambda>i n. 60 + n) 50 int (legs [leg ''1'' ''2'' ''EUR'' 60, leg ''1'' ''2'' ''EUR'' 60]) service_state =
       (Returns (Some e, Some y), st1) \<and> mp_Status y = ''failed'' \<and>
     sv_AtomicMultiAssetTransfer mem_service (\<lambda>i n. 70 + n) 51 int (legs [leg ''1'' ''2'' ''EUR'' 60, leg ''1'' ''2'' ''EUR'' 60]) st1 =
       (Returns (None, Some y), st2) \<and> ss_db st2 = two_users"
proof -
  let ?req = "legs [leg ''1'' ''2'' ''EUR'' 60, leg ''1'' ''2'' ''EUR'' 60]"
  let ?r = "sv_AtomicMultiAssetTransfer mem_service (\<lambda>i n. 60 + n) 50 int ?req service_state"
  have v: "(case fst ?r of Returns (Some e, x) \<Rightarrow> True | _ \<Rightarrow> False) \<and> validateAtomicMultiAssetTransferRequest ?req = None \<and>
      preValidateTransfers mem_service (mr_Transfers ?req) (ss_db service_state) = None \<and> int 0 - int 6 < sv_idempotencyTTL (ss_service service_state)"
    by code_simp
  obtain e x st1 where r: "?r = (Returns (Some e, x), st1)" using v by (cases ?r) (auto split: outcome.splits prod.splits option.splits)
  have "validateAtomicMultiAssetTransferRequest ?req = None" "preValidateTransfers mem_service (mr_Transfers ?req) (ss_db service_state) = None"
    "int 0 - int 6 < sv_idempotencyTTL (ss_service service_state)" using v by blast+
  from failed_transfer_repeated [OF service_state_new this(1,2) r, where clock' = int, OF this(3), of mem_service "\<lambda>i n. 70 + n" 51]
  show ?thesis using r by (auto simp: service_state_def)
qed

lemma two_users_rows: "one_row (ld_ustr (sd_ledger mem_service)) (mem_accts (ss_db service_state))"
proof -
  have "mem_user 1 \<noteq> mem_user 2" unfolding mem_user_def by (auto dest: show_int_inj)
  then show ?thesis
    by (auto simp: one_row_def mem_service_def mem_balance_def mem_db_def mem_accts_def service_state_def two_users_def row_def split: if_splits)
qed

theorem multi_transfer_conserves_witness:
  "\<exists>y st1. sv_AtomicMultiAssetTransfer mem_service (\<lambda>i n. 60 + n) 50 int (legs [leg ''1'' ''2'' ''EUR'' 60, leg ''1'' ''2'' ''EUR'' 5]) service_state =
       (Returns (None, Some y), st1) \<and> length (mp_Transfers y) = 2 \<and> ba_Available (the (mem_accts (ss_db st1) 20)) = 72 \<and>
     currency_total ''EUR'' (mem_accts (ss_db st1)) = currency_total ''EUR'' (mem_accts two_users)"
proof -
  let ?req = "legs [leg ''1'' ''2'' ''EUR'' 60, leg ''1'' ''2'' ''EUR'' 5]"
  let ?r = "sv_AtomicMultiAssetTransfer mem_service (\<lambda>i n. 60 + n) 50 int ?req service_state"
  have v: "(case fst ?r of Returns (None, Some y) \<Rightarrow> True | _ \<Rightarrow> False) \<and> ba_Available (the (mem_accts (ss_db (snd ?r)) 20)) = 72" by code_simp
  then obtain y st1 where r: "?r = (Returns (None, Some y), st1)" by (cases ?r) (auto split: outcome.splits prod.splits option.splits)
  from multi_transfer_conserves [OF mem_service_laws two_users_rows service_state_new r] v r
  show ?thesis by (auto simp: legs_def service_state_def dest!: list_all2_lengthD)
qed

end
