(* ===== verification/DistributedLocks.thy ===== *)
theory DistributedLocks
  imports Prelude
begin

text \<open>
  Distributed locks and sagas, \<open>internal/accounts/transaction/distributed_locks.go\<close>. A lock is a row of
  a table that several managers share, each with a map of the locks it acquired; the statements on the
  table are a record. A saga is a list of steps with actions and compensations on a world \<open>'w\<close>.
\<close>

section \<open>Locks: state\<close>

record dlock =
  dl_ID :: string
  dl_Resource :: string
  dl_Owner :: string
  dl_AcquiredAt :: time
  dl_ExpiresAt :: time
  dl_Heartbeat :: time
  dl_CreatedAt :: time
  dl_UpdatedAt :: time

record dlock_manager =
  dm_locks :: "string \<rightharpoonup> dlock"
  dm_defaultTimeout :: duration
  dm_stopped :: bool

definition NewDistributedLockManager :: dlock_manager where
  "NewDistributedLockManager = \<lparr>dm_locks = Map.empty, dm_defaultTimeout = 30 * second, dm_stopped = False\<rparr>"

text \<open>A query for a row finds one, finds none or fails.\<close>

datatype lookup = Found dlock | NotFound | Failed string

record 'd lock_table =
  lt_find_live :: "string \<Rightarrow> time \<Rightarrow> 'd \<Rightarrow> lookup"
  lt_delete_expired_of :: "string \<Rightarrow> time \<Rightarrow> 'd \<Rightarrow> string + 'd"
  lt_create :: "dlock \<Rightarrow> 'd \<Rightarrow> string + 'd"
  lt_delete :: "string \<Rightarrow> 'd \<Rightarrow> string + 'd"
  lt_extend :: "string \<Rightarrow> time \<Rightarrow> time \<Rightarrow> 'd \<Rightarrow> string + 'd"
  lt_heartbeat :: "string list \<Rightarrow> time \<Rightarrow> 'd \<Rightarrow> string + 'd"
  lt_delete_expired :: "time \<Rightarrow> 'd \<Rightarrow> string + 'd"
  lt_begin :: "'d \<Rightarrow> string option"
  lt_commit :: "'d \<Rightarrow> 'd \<Rightarrow> string option"

section \<open>Locks: operations\<close>

definition new_dlock :: "string \<Rightarrow> string \<Rightarrow> string \<Rightarrow> time \<Rightarrow> duration \<Rightarrow> dlock" where
  "new_dlock lockID resource owner now timeout = \<lparr>dl_ID = lockID, dl_Resource = resource, dl_Owner = owner, dl_AcquiredAt = now,
     dl_ExpiresAt = now + timeout, dl_Heartbeat = now, dl_CreatedAt = now, dl_UpdatedAt = now\<rparr>"

text \<open>The transaction's check with the clean-up of the resource, and its insert.\<close>

definition acquire_check :: "'d lock_table \<Rightarrow> string \<Rightarrow> time \<Rightarrow> 'd \<Rightarrow> string + 'd" where
  "acquire_check db resource now d =
     (case lt_find_live db resource now d of
        Found existingLock \<Rightarrow> Inl (''resource already locked by '' @ dl_Owner existingLock)
      | Failed e \<Rightarrow> Inl (''failed to check existing lock: '' @ e)
      | NotFound \<Rightarrow>
          (case lt_delete_expired_of db resource now d of
             Inl e \<Rightarrow> Inl (''failed to clean up expired locks: '' @ e) | Inr d' \<Rightarrow> Inr d'))"

definition acquire_create :: "'d lock_table \<Rightarrow> dlock \<Rightarrow> 'd \<Rightarrow> string + 'd" where
  "acquire_create db lock d = (case lt_create db lock d of Inl e \<Rightarrow> Inl (''failed to create lock: '' @ e) | Inr d' \<Rightarrow> Inr d')"

definition dm_AcquireLock :: "'d lock_table \<Rightarrow> string \<Rightarrow> time \<Rightarrow> string \<Rightarrow> string \<Rightarrow> duration \<Rightarrow> dlock_manager \<times> 'd \<Rightarrow>
    (string + dlock) \<times> (dlock_manager \<times> 'd)" where
  "dm_AcquireLock db lockID now resource owner timeout st =
     (let (dm, d) = st;
          lock = new_dlock lockID resource owner now (if timeout = 0 then dm_defaultTimeout dm else timeout)
      in case lt_begin db d of
           Some e \<Rightarrow> (Inl e, st)
         | None \<Rightarrow>
             (case acquire_check db resource now d of
                Inl e \<Rightarrow> (Inl e, st)
              | Inr d1 \<Rightarrow>
                  (case acquire_create db lock d1 of
                     Inl e \<Rightarrow> (Inl e, st)
                   | Inr d2 \<Rightarrow>
                       (case lt_commit db d d2 of
                          Some e \<Rightarrow> (Inl e, st)
                        | None \<Rightarrow> (Inr lock, (dm\<lparr>dm_locks := (dm_locks dm)(lockID \<mapsto> lock)\<rparr>, d2))))))"

definition dm_ReleaseLock :: "'d lock_table \<Rightarrow> string \<Rightarrow> dlock_manager \<times> 'd \<Rightarrow> string option \<times> (dlock_manager \<times> 'd)" where
  "dm_ReleaseLock db lockID st =
     (let (dm, d) = st; dm1 = dm\<lparr>dm_locks := (dm_locks dm)(lockID := None)\<rparr>
      in if dm_locks dm lockID = None then (Some (''lock not found: '' @ lockID), st)
         else case lt_delete db lockID d of
                Inl e \<Rightarrow> (Some (''failed to delete lock: '' @ e), (dm1, d))
              | Inr d' \<Rightarrow> (None, (dm1, d')))"

definition dm_ExtendLock :: "'d lock_table \<Rightarrow> time \<Rightarrow> string \<Rightarrow> duration \<Rightarrow> dlock_manager \<times> 'd \<Rightarrow> string option \<times> (dlock_manager \<times> 'd)" where
  "dm_ExtendLock db now lockID extension st =
     (let (dm, d) = st
      in case dm_locks dm lockID of
           None \<Rightarrow> (Some (''lock not found: '' @ lockID), st)
         | Some lock \<Rightarrow>
             (let newExpiresAt = dl_ExpiresAt lock + extension
              in case lt_extend db lockID newExpiresAt now d of
                   Inl e \<Rightarrow> (Some (''failed to extend lock: '' @ e), st)
                 | Inr d' \<Rightarrow>
                     (None, (dm\<lparr>dm_locks := (dm_locks dm)(lockID \<mapsto>
                        lock\<lparr>dl_ExpiresAt := newExpiresAt, dl_Heartbeat := now, dl_UpdatedAt := now\<rparr>)\<rparr>, d'))))"

text \<open>The locks in an order of their IDs, which the runtime chooses.\<close>

definition GetActiveLocks :: "string list \<Rightarrow> dlock_manager \<Rightarrow> dlock list" where
  "GetActiveLocks ids dm = map (\<lambda>i. the (dm_locks dm i)) ids"

definition sendHeartbeats :: "'d lock_table \<Rightarrow> string list \<Rightarrow> time \<Rightarrow> dlock_manager \<times> 'd \<Rightarrow> dlock_manager \<times> 'd" where
  "sendHeartbeats db ids now st =
     (let (dm, d) = st
      in if ids = [] then st else (dm, (case lt_heartbeat db ids now d of Inl e \<Rightarrow> d | Inr d' \<Rightarrow> d')))"

definition dm_cleanupExpiredLocks :: "'d lock_table \<Rightarrow> time \<Rightarrow> 'd \<Rightarrow> 'd" where
  "dm_cleanupExpiredLocks db now d = (case lt_delete_expired db now d of Inl e \<Rightarrow> d | Inr d' \<Rightarrow> d')"

text \<open>Stopping deletes the rows of its locks, errors ignored; stopping again closes a closed channel.\<close>

definition dm_Stop :: "'d lock_table \<Rightarrow> string list \<Rightarrow> dlock_manager \<times> 'd \<Rightarrow> (dlock_manager \<times> 'd) outcome" where
  "dm_Stop db ids st =
     (let (dm, d) = st
      in if dm_stopped dm then Panics
         else Returns (dm\<lparr>dm_locks := Map.empty, dm_stopped := True\<rparr>,
           foldl (\<lambda>d i. case lt_delete db i d of Inl e \<Rightarrow> d | Inr d' \<Rightarrow> d') d ids))"

section \<open>Sagas\<close>

record 'w saga_step =
  ss_ID :: string
  ss_Name :: string
  ss_Action :: "'w \<Rightarrow> string option \<times> 'w"
  ss_Compensation :: "'w \<Rightarrow> string option \<times> 'w"
  ss_Executed :: bool
  ss_Compensated :: bool
  ss_Error :: "string option"

record 'w saga =
  sg_ID :: string
  sg_Steps :: "'w saga_step list"
  sg_CurrentStep :: nat
  sg_State :: string
  sg_CreatedAt :: time
  sg_UpdatedAt :: time
  sg_CompletedAt :: "time option"

definition NewTransactionSaga :: "string \<Rightarrow> time \<Rightarrow> 'w saga" where
  "NewTransactionSaga i now = \<lparr>sg_ID = i, sg_Steps = [], sg_CurrentStep = 0, sg_State = ''running'', sg_CreatedAt = now,
     sg_UpdatedAt = now, sg_CompletedAt = None\<rparr>"

definition AddStep :: "string \<Rightarrow> string \<Rightarrow> ('w \<Rightarrow> string option \<times> 'w) \<Rightarrow> ('w \<Rightarrow> string option \<times> 'w) \<Rightarrow> 'w saga \<Rightarrow> 'w saga" where
  "AddStep newID name action compensation s =
     s\<lparr>sg_Steps := sg_Steps s @ [\<lparr>ss_ID = newID, ss_Name = name, ss_Action = action, ss_Compensation = compensation,
        ss_Executed = False, ss_Compensated = False, ss_Error = None\<rparr>]\<rparr>"

text \<open>The loop down from the step before the failed one, with the errors so far; steps not executed or compensated already are skipped.\<close>

fun compensate_down :: "nat \<Rightarrow> string list \<Rightarrow> 'w saga_step list \<Rightarrow> 'w \<Rightarrow> (string list \<times> 'w saga_step list) \<times> 'w" where
  "compensate_down 0 errs steps w = ((errs, steps), w)"
| "compensate_down (Suc i) errs steps w =
     (let step = steps ! i
      in if \<not> ss_Executed step \<or> ss_Compensated step then compensate_down i errs steps w
         else case ss_Compensation step w of
                (Some e, w') \<Rightarrow> compensate_down i (errs @ [e]) steps w'
              | (None, w') \<Rightarrow> compensate_down i errs (steps[i := step\<lparr>ss_Compensated := True\<rparr>]) w')"

text \<open>The verb \<open>%v\<close> of a list of errors.\<close>

fun join_spaces :: "string list \<Rightarrow> string" where
  "join_spaces [] = []"
| "join_spaces [e] = e"
| "join_spaces (e # es) = e @ '' '' @ join_spaces es"

definition saga_compensate :: "time \<Rightarrow> nat \<Rightarrow> 'w saga \<Rightarrow> 'w \<Rightarrow> string \<times> ('w saga \<times> 'w)" where
  "saga_compensate now failedStep s w =
     (case compensate_down failedStep [] (sg_Steps s) w of
        ((errs, steps), w') \<Rightarrow>
          (let s1 = s\<lparr>sg_Steps := steps\<rparr>
           in if errs \<noteq> [] then (''saga compensation failed: ['' @ join_spaces errs @ '']'', (s1\<lparr>sg_State := ''failed''\<rparr>, w'))
              else (''saga failed at step '' @ show_nat failedStep @ '': '' @ the (ss_Error (steps ! failedStep)),
                    (s1\<lparr>sg_State := ''compensated'', sg_CompletedAt := Some now, sg_UpdatedAt := now\<rparr>, w'))))"

text \<open>The loop up from step \<open>i\<close>, of which \<open>n\<close> steps are left; it stops at the first action that fails.\<close>

fun execute_up :: "(nat \<Rightarrow> time) \<Rightarrow> nat \<Rightarrow> nat \<Rightarrow> 'w saga \<Rightarrow> 'w \<Rightarrow> string option \<times> ('w saga \<times> 'w)" where
  "execute_up clock i 0 s w =
     (None, (s\<lparr>sg_State := ''completed'', sg_CompletedAt := Some (clock i), sg_UpdatedAt := clock i\<rparr>, w))"
| "execute_up clock i (Suc n) s w =
     (let s1 = s\<lparr>sg_CurrentStep := i, sg_UpdatedAt := clock i\<rparr>; step = sg_Steps s1 ! i
      in case ss_Action step w of
           (Some e, w') \<Rightarrow>
             (let s2 = s1\<lparr>sg_Steps := (sg_Steps s1)[i := step\<lparr>ss_Error := Some e\<rparr>], sg_State := ''compensating''\<rparr>;
                  (err, r) = saga_compensate (clock (Suc i)) i s2 w'
              in (Some err, r))
         | (None, w') \<Rightarrow>
             execute_up clock (Suc i) n (s1\<lparr>sg_Steps := (sg_Steps s1)[i := step\<lparr>ss_Executed := True\<rparr>]\<rparr>) w')"

definition saga_Execute :: "(nat \<Rightarrow> time) \<Rightarrow> 'w saga \<Rightarrow> 'w \<Rightarrow> string option \<times> ('w saga \<times> 'w)" where
  "saga_Execute clock s w = execute_up clock 0 (length (sg_Steps s)) s w"

definition saga_GetState :: "'w saga \<Rightarrow> (string \<times> nat) \<times> string option" where
  "saga_GetState s = ((sg_State s, sg_CurrentStep s),
     (if sg_CurrentStep s < length (sg_Steps s) then ss_Error (sg_Steps s ! sg_CurrentStep s) else None))"

definition executed_steps :: "'w saga \<Rightarrow> nat \<times> nat" where
  "executed_steps s = (length (filter ss_Executed (sg_Steps s)), length (filter ss_Compensated (sg_Steps s)))"

end
