(* ===== verification/LockSagaTheorems.thy ===== *)
theory LockSagaTheorems
  imports DistributedLocks
begin

text \<open>
  Theorems on the distributed locks and on sagas. A saga is described by two plain runs: the actions up
  to the first that fails, and the compensations in an order, with their errors. The table of the
  locks is described by its rows; the laws of its statements are one predicate.
\<close>

section \<open>Sagas\<close>

fun act_run :: "'w saga_step list \<Rightarrow> 'w \<Rightarrow> (nat \<times> string option) \<times> 'w" where
  "act_run [] w = ((0, None), w)"
| "act_run (s # ss) w =
     (case ss_Action s w of
        (Some e, w') \<Rightarrow> ((0, Some e), w')
      | (None, w') \<Rightarrow> (case act_run ss w' of ((n, e), w'') \<Rightarrow> ((Suc n, e), w'')))"

fun comp_run :: "'w saga_step list \<Rightarrow> 'w \<Rightarrow> string list \<times> 'w" where
  "comp_run [] w = ([], w)"
| "comp_run (s # ss) w =
     (case ss_Compensation s w of
        (Some e, w') \<Rightarrow> (case comp_run ss w' of (es, w'') \<Rightarrow> (e # es, w''))
      | (None, w') \<Rightarrow> comp_run ss w')"

definition executed :: "'w saga_step \<Rightarrow> 'w saga_step" where
  "executed s = s\<lparr>ss_Executed := True\<rparr>"

definition compensated :: "'w saga_step \<Rightarrow> 'w saga_step" where
  "compensated s = s\<lparr>ss_Compensated := True\<rparr>"

lemma executed_simps [simp]:
  "ss_Executed (executed s)" "ss_Compensated (executed s) = ss_Compensated s"
  "ss_Action (executed s) = ss_Action s" "ss_Compensation (executed s) = ss_Compensation s"
  by (simp_all add: executed_def)

lemma compensated_simps [simp]:
  "ss_Compensated (compensated s)" "ss_Executed (compensated s) = ss_Executed s"
  "ss_Action (compensated s) = ss_Action s" "ss_Compensation (compensated s) = ss_Compensation s"
  "ss_Error (compensated s) = ss_Error s"
  by (simp_all add: compensated_def)

lemma executed_compensated [simp]: "executed (compensated (executed s)) = compensated (executed s)"
  by (simp add: executed_def compensated_def)

lemma act_run_bound: "act_run ss w = ((n, e), w') \<Longrightarrow> n \<le> length ss \<and> (e = None \<longleftrightarrow> n = length ss)"
  by (induction ss arbitrary: n w) (auto split: prod.splits option.splits)

lemma act_run_map:
  "(\<And>s. ss_Action (g s) = ss_Action s) \<Longrightarrow> act_run (map g ss) w = act_run ss w"
  by (induction ss arbitrary: w) (auto split: prod.splits option.splits)

lemma comp_run_map:
  "(\<And>s. ss_Compensation (g s) = ss_Compensation s) \<Longrightarrow> comp_run (map g ss) w = comp_run ss w"
  by (induction ss arbitrary: w) (auto split: prod.splits option.splits)

text \<open>The loop down over steps that were all compensated before does nothing.\<close>

lemma compensate_down_done:
  "\<forall>i < k. ss_Compensated (steps ! i) \<Longrightarrow> compensate_down k errs steps w = ((errs, steps), w)"
  by (induction k) (auto simp: Let_def)

lemma comp_run_cong: "map ss_Compensation ss = map ss_Compensation ts \<Longrightarrow> comp_run ss w = comp_run ts w"
proof (induction ss arbitrary: ts w)
  case Nil
  then show ?case by simp
next
  case (Cons x ss)
  then obtain y ts' where ts: "ts = y # ts'" "ss_Compensation x = ss_Compensation y" "map ss_Compensation ss = map ss_Compensation ts'"
    by (metis (no_types, lifting) list.simps(9) map_eq_Cons_D)
  then have "comp_run ss u = comp_run ts' u" for u using Cons.IH by blast
  then show ?case using ts by (simp split: prod.split option.split)
qed

text \<open>Over executed steps it is the plain run of their compensations in reverse order.\<close>

lemma compensate_down_run:
  "k \<le> length steps \<Longrightarrow> \<forall>i < k. ss_Executed (steps ! i) \<and> \<not> ss_Compensated (steps ! i) \<Longrightarrow>
   comp_run (rev (take k steps)) w = (es, w') \<Longrightarrow>
   \<exists>steps'. compensate_down k errs steps w = ((errs @ es, steps'), w') \<and>
     (\<forall>i. ss_Error (steps' ! i) = ss_Error (steps ! i)) \<and>
     (es = [] \<longrightarrow> steps' = map compensated (take k steps) @ drop k steps)"
proof (induction k arbitrary: errs steps w es)
  case 0
  then show ?case by auto
next
  case (Suc k)
  let ?s = "steps ! k"
  have k: "k < length steps" using Suc.prems(1) by simp
  have take: "rev (take (Suc k) steps) = ?s # rev (take k steps)"
    using k by (simp add: take_Suc_conv_app_nth)
  have flags: "ss_Executed ?s" "\<not> ss_Compensated ?s" using Suc.prems(2) by auto
  obtain r w1 where c: "ss_Compensation ?s w = (r, w1)" by fastforce
  show ?case
  proof (cases r)
    case (Some e)
    obtain es1 where run: "comp_run (rev (take k steps)) w1 = (es1, w')" "es = e # es1"
      using Suc.prems(3) c Some by (auto simp: take split: prod.splits)
    from Suc.IH [OF _ _ run(1), of "errs @ [e]"] Suc.prems(1,2) obtain steps' where
      "compensate_down k (errs @ [e]) steps w1 = (((errs @ [e]) @ es1, steps'), w')"
      "\<forall>i. ss_Error (steps' ! i) = ss_Error (steps ! i)" by auto
    then show ?thesis using c Some run(2) flags by (auto simp: Let_def)
  next
    case None
    let ?steps = "steps[k := compensated ?s]"
    have run: "comp_run (rev (take k ?steps)) w1 = (es, w')"
      using Suc.prems(3) c None by (simp add: take)
    have flags': "\<forall>i < k. ss_Executed (?steps ! i) \<and> \<not> ss_Compensated (?steps ! i)"
      using Suc.prems(2) by auto
    from Suc.IH [OF _ flags' run, of errs] k obtain steps' where IH:
      "compensate_down k errs ?steps w1 = ((errs @ es, steps'), w')"
      "\<forall>i. ss_Error (steps' ! i) = ss_Error (?steps ! i)"
      "es = [] \<longrightarrow> steps' = map compensated (take k ?steps) @ drop k ?steps" by auto
    have same: "ss_Error (?steps ! i) = ss_Error (steps ! i)" for i
      by (cases "i = k") (use k in auto)
    have "map compensated (take k ?steps) @ drop k ?steps = map compensated (take (Suc k) steps) @ drop (Suc k) steps"
      using k by (simp add: take_Suc_conv_app_nth drop_update_swap flip: Cons_nth_drop_Suc)
    moreover have "compensate_down (Suc k) errs steps w = ((errs @ es, steps'), w')"
      using c None flags IH(1) by (simp add: Let_def compensated_def)
    ultimately show ?thesis using IH(2,3) by (auto simp: same)
  qed
qed

text \<open>Over steps of which the first \<open>n\<close> were compensated before, it is the run over those from \<open>n\<close> on.\<close>

lemma compensate_down_above:
  "n + j \<le> length steps \<Longrightarrow> \<forall>i < n. ss_Compensated (steps ! i) \<Longrightarrow>
   \<forall>i. n \<le> i \<and> i < n + j \<longrightarrow> ss_Executed (steps ! i) \<and> \<not> ss_Compensated (steps ! i) \<Longrightarrow>
   comp_run (rev (take j (drop n steps))) w = (es, w') \<Longrightarrow>
   \<exists>steps'. compensate_down (n + j) errs steps w = ((errs @ es, steps'), w') \<and>
     (\<forall>i. ss_Error (steps' ! i) = ss_Error (steps ! i))"
proof (induction j arbitrary: errs steps w es)
  case 0
  then show ?case by (simp add: compensate_down_done)
next
  case (Suc j)
  let ?s = "steps ! (n + j)"
  have k: "n + j < length steps" using Suc.prems(1) by simp
  have take: "rev (take (Suc j) (drop n steps)) = ?s # rev (take j (drop n steps))"
    using k by (simp add: take_Suc_conv_app_nth)
  have flags: "ss_Executed ?s" "\<not> ss_Compensated ?s" using Suc.prems(3) by auto
  obtain r w1 where c: "ss_Compensation ?s w = (r, w1)" by fastforce
  show ?case
  proof (cases r)
    case (Some e)
    obtain es1 where run: "comp_run (rev (take j (drop n steps))) w1 = (es1, w')" "es = e # es1"
      using Suc.prems(4) c Some by (auto simp: take split: prod.splits)
    from Suc.IH [OF _ Suc.prems(2) _ run(1), of "errs @ [e]"] Suc.prems(1,3) obtain steps' where
      "compensate_down (n + j) (errs @ [e]) steps w1 = (((errs @ [e]) @ es1, steps'), w')"
      "\<forall>i. ss_Error (steps' ! i) = ss_Error (steps ! i)" by auto
    then show ?thesis using c Some run(2) flags by (auto simp: Let_def)
  next
    case None
    let ?steps = "steps[n + j := compensated ?s]"
    have run: "comp_run (rev (take j (drop n ?steps))) w1 = (es, w')"
      using Suc.prems(4) c None by (simp add: take drop_update_swap)
    have flags': "\<forall>i < n. ss_Compensated (?steps ! i)"
      "\<forall>i. n \<le> i \<and> i < n + j \<longrightarrow> ss_Executed (?steps ! i) \<and> \<not> ss_Compensated (?steps ! i)"
      using Suc.prems(2,3) by auto
    from Suc.IH [OF _ flags' run, of errs] k obtain steps' where IH:
      "compensate_down (n + j) errs ?steps w1 = ((errs @ es, steps'), w')"
      "\<forall>i. ss_Error (steps' ! i) = ss_Error (?steps ! i)" by auto
    have same: "ss_Error (?steps ! i) = ss_Error (steps ! i)" for i
      by (cases "i = n + j") (use k in auto)
    have "compensate_down (n + Suc j) errs steps w = ((errs @ es, steps'), w')"
      using c None flags IH(1) by (simp add: Let_def compensated_def)
    then show ?thesis using IH(2) by (auto simp: same)
  qed
qed

text \<open>What a run of a saga shows: its error, its state, its steps and the world it leaves.\<close>

definition saga_view :: "string option \<times> ('w saga \<times> 'w) \<Rightarrow> string option \<times> string \<times> 'w saga_step list \<times> 'w" where
  "saga_view r = (fst r, sg_State (fst (snd r)), sg_Steps (fst (snd r)), snd (snd r))"

definition comp_view :: "nat \<Rightarrow> 'w saga_step list \<Rightarrow> 'w \<Rightarrow> string option \<times> string \<times> 'w saga_step list \<times> 'w" where
  "comp_view k steps w =
     (case compensate_down k [] steps w of
        ((errs, steps'), w') \<Rightarrow>
          if errs \<noteq> [] then (Some (''saga compensation failed: ['' @ join_spaces errs @ '']''), ''failed'', steps', w')
          else (Some (''saga failed at step '' @ show_nat k @ '': '' @ the (ss_Error (steps' ! k))), ''compensated'', steps', w'))"

lemma execute_up_view:
  "sg_Steps s = pre @ suf \<Longrightarrow> length pre = i \<Longrightarrow>
   saga_view (execute_up clock i (length suf) s w) =
     (case act_run suf w of
        ((n, None), w') \<Rightarrow> (None, ''completed'', pre @ map executed suf, w')
      | ((n, Some e), w') \<Rightarrow>
          comp_view (i + n) (pre @ map executed (take n suf) @ (suf ! n)\<lparr>ss_Error := Some e\<rparr> # drop (Suc n) suf) w')"
proof (induction suf arbitrary: pre i s w)
  case Nil
  then show ?case by (simp add: saga_view_def)
next
  case (Cons x suf)
  obtain r w1 where a: "ss_Action x w = (r, w1)" by fastforce
  have at: "(pre @ x # suf) ! i = x" "\<And>y. (pre @ x # suf)[i := y] = pre @ y # suf"
    using Cons.prems(2) by auto
  show ?case
  proof (cases r)
    case (Some e)
    then show ?thesis using Cons.prems a
      by (auto simp: saga_view_def comp_view_def saga_compensate_def at Let_def split: prod.splits)
  next
    case None
    let ?s = "s\<lparr>sg_CurrentStep := i, sg_UpdatedAt := clock i, sg_Steps := (pre @ [executed x]) @ suf\<rparr>"
    have "execute_up clock i (length (x # suf)) s w = execute_up clock (Suc i) (length suf) ?s w1"
      using Cons.prems a None by (simp add: at Let_def executed_def)
    moreover note Cons.IH [of ?s "pre @ [executed x]" "Suc i" w1]
    ultimately show ?thesis using Cons.prems(2) a None by (auto split: prod.splits option.splits)
  qed
qed

text \<open>A saga as it is built: no step has run.\<close>

definition fresh_saga :: "'w saga \<Rightarrow> bool" where
  "fresh_saga s \<longleftrightarrow> (\<forall>x \<in> set (sg_Steps s). \<not> ss_Executed x \<and> \<not> ss_Compensated x)"

lemma fresh_New [simp]: "fresh_saga (NewTransactionSaga i now)"
  by (simp add: fresh_saga_def NewTransactionSaga_def)

lemma fresh_AddStep [simp]: "fresh_saga (AddStep i nm a c s) \<longleftrightarrow> fresh_saga s"
  by (auto simp: fresh_saga_def AddStep_def)

text \<open>The steps when step \<open>n\<close> failed with \<open>e\<close>.\<close>

definition failed_at :: "nat \<Rightarrow> string \<Rightarrow> 'w saga_step list \<Rightarrow> 'w saga_step list" where
  "failed_at n e steps = map executed (take n steps) @ (steps ! n)\<lparr>ss_Error := Some e\<rparr> # drop (Suc n) steps"

lemma execute_failed:
  "act_run (sg_Steps s) w = ((n, Some e), w1) \<Longrightarrow>
   saga_view (saga_Execute clock s w) = comp_view n (failed_at n e (sg_Steps s)) w1"
  using execute_up_view [of s "[]" "sg_Steps s" 0 clock w] by (simp add: saga_Execute_def failed_at_def)

lemma execute_completed:
  "act_run (sg_Steps s) w = ((n, None), w1) \<Longrightarrow>
   saga_view (saga_Execute clock s w) = (None, ''completed'', map executed (sg_Steps s), w1)"
  using execute_up_view [of s "[]" "sg_Steps s" 0 clock w] by (simp add: saga_Execute_def)

lemma failed_at_facts:
  assumes "n < length steps"
  shows "length (failed_at n e steps) = length steps" "take n (failed_at n e steps) = map executed (take n steps)"
    "failed_at n e steps ! n = (steps ! n)\<lparr>ss_Error := Some e\<rparr>" "drop (Suc n) (failed_at n e steps) = drop (Suc n) steps"
    "i < n \<Longrightarrow> failed_at n e steps ! i = executed (steps ! i)"
  using assms by (auto simp: failed_at_def nth_append min_def)

lemma comp_view_run:
  assumes fresh: "\<forall>x \<in> set steps. \<not> ss_Executed x \<and> \<not> ss_Compensated x" and n: "n < length steps"
    and run: "comp_run (rev (take n steps)) w1 = (es, w2)"
  shows "\<exists>steps'. (es = [] \<longrightarrow> steps' = map compensated (map executed (take n steps)) @ drop n (failed_at n e steps)) \<and>
    comp_view n (failed_at n e steps) w1 =
      (if es = [] then (Some (''saga failed at step '' @ show_nat n @ '': '' @ e), ''compensated'', steps', w2)
       else (Some (''saga compensation failed: ['' @ join_spaces es @ '']''), ''failed'', steps', w2))"
proof -
  let ?f = "failed_at n e steps"
  have "\<forall>i < n. ss_Executed (?f ! i) \<and> \<not> ss_Compensated (?f ! i)"
    using fresh n by (auto simp: failed_at_facts)
  moreover have "comp_run (rev (take n ?f)) w1 = (es, w2)"
    using run n comp_run_map [of executed "rev (take n steps)" w1] by (simp add: failed_at_facts rev_map)
  ultimately obtain steps' where s: "compensate_down n [] ?f w1 = (([] @ es, steps'), w2)"
      "\<forall>i. ss_Error (steps' ! i) = ss_Error (?f ! i)"
      "es = [] \<longrightarrow> steps' = map compensated (take n ?f) @ drop n ?f"
    using compensate_down_run [of n ?f w1 es w2 "[]"] n by (auto simp: failed_at_facts)
  have "the (ss_Error (steps' ! n)) = e" using s(2) n by (simp add: failed_at_facts)
  then show ?thesis using s n
    by (intro exI [of _ steps']) (auto simp: comp_view_def failed_at_facts)
qed

lemma saga_outcome_lemma:
  assumes "fresh_saga s" and run: "act_run (sg_Steps s) w = ((n, r), w1)"
    and comp: "comp_run (rev (take n (sg_Steps s))) w1 = (es, w2)"
    and exec: "saga_Execute clock s w = (err, (s', w'))"
  shows "(r = None \<longrightarrow> err = None \<and> sg_State s' = ''completed'' \<and> n = length (sg_Steps s) \<and> w' = w1) \<and>
    (\<forall>e. r = Some e \<longrightarrow> n < length (sg_Steps s) \<and> w' = w2 \<and>
       (if es = [] then err = Some (''saga failed at step '' @ show_nat n @ '': '' @ e) \<and> sg_State s' = ''compensated''
        else err = Some (''saga compensation failed: ['' @ join_spaces es @ '']'') \<and> sg_State s' = ''failed''))"
proof -
  have view: "saga_view (saga_Execute clock s w) = (err, sg_State s', sg_Steps s', w')"
    by (simp add: saga_view_def exec)
  show ?thesis
  proof (cases r)
    case None
    with run have "n = length (sg_Steps s)" using act_run_bound by metis
    then show ?thesis using execute_completed [of s w n w1 clock] run view None by simp
  next
    case (Some e)
    with run have n: "n < length (sg_Steps s)" using act_run_bound by (metis le_neq_implies_less option.distinct(1))
    then show ?thesis
      using comp_view_run [OF _ n comp, of e] assms(1) execute_failed [of s w n e w1 clock] run view Some
      by (auto simp: fresh_saga_def split: if_splits)
  qed
qed

lemma comp_run_undoes:
  assumes "\<forall>x \<in> set steps. \<forall>u u'. ss_Action x u = (None, u') \<longrightarrow> ss_Compensation x u' = (None, u)"
    and "\<forall>x \<in> set steps. \<forall>u e u'. ss_Action x u = (Some e, u') \<longrightarrow> u' = u"
    and "act_run steps w = ((n, Some e), w1)"
  shows "comp_run (rev (take n steps)) w1 = ([], w)"
  using assms
proof (induction steps arbitrary: n w)
  case Nil
  then show ?case by simp
next
  case (Cons x steps)
  have app: "comp_run (as @ [x]) v = (case comp_run as v of (es, v') \<Rightarrow> (case comp_run [x] v' of (fs, v'') \<Rightarrow> (es @ fs, v'')))" for as v
    by (induction as arbitrary: v) (auto split: prod.splits option.splits)
  obtain r u where a: "ss_Action x w = (r, u)" by fastforce
  show ?case
  proof (cases r)
    case (Some f)
    then show ?thesis using Cons.prems a by auto
  next
    case None
    obtain m where m: "act_run steps u = ((m, Some e), w1)" "n = Suc m"
      using Cons.prems(3) a None by (auto split: prod.splits)
    have "ss_Compensation x u = (None, w)" using Cons.prems(1) a None by simp
    moreover have "comp_run (rev (take m steps)) w1 = ([], u)"
      using Cons.IH [OF _ _ m(1)] Cons.prems(1,2) by simp
    ultimately show ?thesis using m(2) by (simp add: app)
  qed
qed

lemma act_run_cong: "map ss_Action ss = map ss_Action ts \<Longrightarrow> act_run ss w = act_run ts w"
proof (induction ss arbitrary: ts w)
  case Nil
  then show ?case by simp
next
  case (Cons x ss)
  then obtain y ts' where ts: "ts = y # ts'" "ss_Action x = ss_Action y" "map ss_Action ss = map ss_Action ts'"
    by (metis (no_types, lifting) list.simps(9) map_eq_Cons_D)
  then have "act_run ss u = act_run ts' u" for u using Cons.IH by blast
  then show ?case using ts by (simp split: prod.split option.split)
qed

text \<open>
  A second run after a compensated one: the flags of the first are still set, so only the steps that
  the first did not complete are compensated.
\<close>

lemma rerun_lemma:
  assumes fresh: "fresh_saga s" and run1: "act_run (sg_Steps s) w = ((n, Some e), w1)"
    and comp: "comp_run (rev (take n (sg_Steps s))) w1 = ([], w2)"
    and exec1: "saga_Execute clock s w = (err, (s1, w'))"
    and run2: "act_run (sg_Steps s) v = ((m, Some f), v1)"
    and comp2: "comp_run (rev (take (m - n) (drop n (sg_Steps s)))) v1 = (es, v2)"
    and exec2: "saga_Execute clock' s1 v = (err', (s2, v'))"
  shows "v' = v2 \<and>
    (if es = [] then err' = Some (''saga failed at step '' @ show_nat m @ '': '' @ f) \<and> sg_State s2 = ''compensated''
     else err' = Some (''saga compensation failed: ['' @ join_spaces es @ '']'') \<and> sg_State s2 = ''failed'')"
proof -
  let ?steps = "sg_Steps s" let ?f = "failed_at m f (sg_Steps s1)"
  have n: "n < length ?steps" using run1 act_run_bound by (metis le_neq_implies_less option.distinct(1))
  have s1: "sg_Steps s1 = map compensated (map executed (take n ?steps)) @ (?steps ! n)\<lparr>ss_Error := Some e\<rparr> # drop (Suc n) ?steps"
    using comp_view_run [OF _ n comp, of e] fresh execute_failed [OF run1, of clock] exec1 n
    by (auto simp: fresh_saga_def saga_view_def failed_at_facts simp flip: Cons_nth_drop_Suc)
  have split: "?steps = take n ?steps @ ?steps ! n # drop (Suc n) ?steps" using n by (simp add: id_take_nth_drop)
  have "map ss_Action ?steps = map ss_Action (take n ?steps @ ?steps ! n # drop (Suc n) ?steps)" using split by simp
  also have "\<dots> = map ss_Action (sg_Steps s1)" by (simp add: s1)
  finally have "map ss_Action (sg_Steps s1) = map ss_Action ?steps" by simp
  then have run: "act_run (sg_Steps s1) v = ((m, Some f), v1)" using run2 act_run_cong by metis
  have comps: "map ss_Compensation (sg_Steps s1) = map ss_Compensation ?steps"
    by (subst split) (simp add: s1)
  have len: "length (sg_Steps s1) = length ?steps" using n by (simp add: s1)
  have m: "m < length ?steps" using run2 act_run_bound by (metis le_neq_implies_less option.distinct(1))
  have old: "ss_Compensated (sg_Steps s1 ! i)" if "i < n" for i using s1 n that by (auto simp: nth_append)
  have new: "\<not> ss_Compensated (sg_Steps s1 ! i)" if "n \<le> i" "i < length ?steps" for i
    using fresh that n by (auto simp: s1 nth_append nth_Cons' fresh_saga_def)
  have f: "?f ! i = executed (sg_Steps s1 ! i)" if "i < m" for i using failed_at_facts(5) m that len by metis
  have res: "\<exists>steps'. compensate_down m [] ?f v1 = ((es, steps'), v2) \<and> the (ss_Error (steps' ! m)) = f"
  proof (cases "m \<le> n")
    case True
    then have "\<forall>i < m. ss_Compensated (?f ! i)" using f old by simp
    then show ?thesis using comp2 True m len by (simp add: compensate_down_done failed_at_facts)
  next
    case False
    define j where "j = m - n"
    then have mj: "m = n + j" using False by simp
    have "map ss_Compensation (take j (drop n ?f)) = map ss_Compensation (take j (drop n ?steps))"
    proof (rule nth_equalityI)
      fix i assume "i < length (map ss_Compensation (take j (drop n ?f)))"
      then have "n + i < m" "n + i < length ?steps" using mj m len by (auto simp: failed_at_facts)
      moreover from this have "ss_Compensation (sg_Steps s1 ! (n + i)) = ss_Compensation (?steps ! (n + i))"
        using comps len by (metis nth_map)
      ultimately show "map ss_Compensation (take j (drop n ?f)) ! i = map ss_Compensation (take j (drop n ?steps)) ! i"
        using mj m len f by (simp add: failed_at_facts)
    qed (use m len mj in \<open>simp add: failed_at_facts\<close>)
    then have "comp_run (rev (take j (drop n ?f))) v1 = (es, v2)"
      using comp2 comp_run_cong [of "rev (take j (drop n ?f))" "rev (take j (drop n ?steps))" v1]
      by (simp add: j_def flip: rev_map)
    from compensate_down_above [OF _ _ _ this, of "[]"] obtain steps' where
      "compensate_down (n + j) [] ?f v1 = (([] @ es, steps'), v2)" "\<forall>i. ss_Error (steps' ! i) = ss_Error (?f ! i)"
      using mj m len f old new by (auto simp: failed_at_facts)
    then show ?thesis using mj m len by (simp add: failed_at_facts)
  qed
  then obtain steps' where "compensate_down m [] ?f v1 = ((es, steps'), v2)" "the (ss_Error (steps' ! m)) = f" by blast
  then have "comp_view m ?f v1 =
      (if es \<noteq> [] then (Some (''saga compensation failed: ['' @ join_spaces es @ '']''), ''failed'', steps', v2)
       else (Some (''saga failed at step '' @ show_nat m @ '': '' @ f), ''compensated'', steps', v2))"
    by (simp add: comp_view_def)
  then show ?thesis using execute_failed [OF run, of clock'] exec2 by (auto simp: saga_view_def split: if_splits)
qed

section \<open>Properties of sagas\<close>

text \<open>
  C29: the outcome of a new saga is that of its actions in order up to the first that fails: if none
  does it is completed without an error; if step \<open>n\<close> does the compensations of the steps before it run
  in reverse order, an error is always returned, and the state is compensated exactly if none of them failed.
\<close>

theorem saga_outcome:
  assumes "fresh_saga s" and "act_run (sg_Steps s) w = ((n, r), w1)"
    and "comp_run (rev (take n (sg_Steps s))) w1 = (es, w2)" and "saga_Execute clock s w = (err, (s', w'))"
  shows "(r = None \<longrightarrow> err = None \<and> sg_State s' = ''completed'' \<and> n = length (sg_Steps s) \<and> w' = w1) \<and>
    (\<forall>e. r = Some e \<longrightarrow> n < length (sg_Steps s) \<and> w' = w2 \<and>
       (if es = [] then err = Some (''saga failed at step '' @ show_nat n @ '': '' @ e) \<and> sg_State s' = ''compensated''
        else err = Some (''saga compensation failed: ['' @ join_spaces es @ '']'') \<and> sg_State s' = ''failed''))"
  by (rule saga_outcome_lemma [OF assms])

text \<open>A saga on a list of what was done: two steps that note themselves, and one that fails.\<close>

definition do_step :: "string \<Rightarrow> string list \<Rightarrow> string option \<times> string list" where
  "do_step x w = (None, x # w)"

definition undo_step :: "string \<Rightarrow> string list \<Rightarrow> string option \<times> string list" where
  "undo_step x w = (if w \<noteq> [] \<and> hd w = x then (None, tl w) else (Some ''not the last step'', w))"

definition fail_step :: "string list \<Rightarrow> string option \<times> string list" where
  "fail_step w = (Some ''no funds'', w)"

definition demo_saga :: "string list saga" where
  "demo_saga = AddStep ''3'' ''c'' fail_step fail_step (AddStep ''2'' ''b'' (do_step ''b'') (undo_step ''b'')
     (AddStep ''1'' ''a'' (do_step ''a'') (undo_step ''a'') (NewTransactionSaga ''s'' 0)))"

lemma fresh_demo [simp]: "fresh_saga demo_saga"
  by (simp add: demo_saga_def)

lemma demo_steps: "sg_Steps demo_saga =
   [\<lparr>ss_ID = ''1'', ss_Name = ''a'', ss_Action = do_step ''a'', ss_Compensation = undo_step ''a'', ss_Executed = False,
      ss_Compensated = False, ss_Error = None\<rparr>,
    \<lparr>ss_ID = ''2'', ss_Name = ''b'', ss_Action = do_step ''b'', ss_Compensation = undo_step ''b'', ss_Executed = False,
      ss_Compensated = False, ss_Error = None\<rparr>,
    \<lparr>ss_ID = ''3'', ss_Name = ''c'', ss_Action = fail_step, ss_Compensation = fail_step, ss_Executed = False,
      ss_Compensated = False, ss_Error = None\<rparr>]"
  by (simp add: demo_saga_def AddStep_def NewTransactionSaga_def)

lemma demo_run: "act_run (sg_Steps demo_saga) w = ((2, Some ''no funds''), ''b'' # ''a'' # w)"
  by (simp add: demo_steps do_step_def fail_step_def)

lemma demo_undo: "comp_run (rev (take 2 (sg_Steps demo_saga))) (''b'' # ''a'' # w) = ([], w)"
  by (simp add: demo_steps undo_step_def)

theorem saga_outcome_witness: "snd (snd (saga_Execute int demo_saga [])) = []"
proof -
  obtain err s' w' where e: "saga_Execute int demo_saga [] = (err, (s', w'))" by (metis surj_pair)
  show ?thesis using saga_outcome [OF fresh_demo demo_run demo_undo e] by (simp add: e)
qed

text \<open>
  if every compensation undoes its action and an action that fails changes nothing, a new saga that
  reports an error has left the world as it was, and is compensated.
\<close>

theorem saga_atomic:
  assumes "fresh_saga s" and "saga_Execute clock s w = (Some err, (s', w'))"
    and "\<forall>x \<in> set (sg_Steps s). \<forall>u u'. ss_Action x u = (None, u') \<longrightarrow> ss_Compensation x u' = (None, u)"
    and "\<forall>x \<in> set (sg_Steps s). \<forall>u e u'. ss_Action x u = (Some e, u') \<longrightarrow> u' = u"
  shows "w' = w \<and> sg_State s' = ''compensated''"
proof -
  obtain n r w1 where run: "act_run (sg_Steps s) w = ((n, r), w1)" by (metis surj_pair)
  have "r \<noteq> None"
    using saga_outcome_lemma [OF assms(1) run _ assms(2), of "fst (comp_run (rev (take n (sg_Steps s))) w1)"
        "snd (comp_run (rev (take n (sg_Steps s))) w1)"] by auto
  then obtain e where r: "r = Some e" by auto
  from saga_outcome_lemma [OF assms(1) run comp_run_undoes [OF assms(3,4)] assms(2)] run r
  show ?thesis by simp
qed

theorem saga_atomic_witness: "snd (snd (saga_Execute int demo_saga [''z''])) = [''z'']"
proof -
  obtain err s' w' where e: "saga_Execute int demo_saga [''z''] = (err, (s', w'))" by (metis surj_pair)
  then obtain f where f: "err = Some f"
    using saga_outcome_lemma [OF fresh_demo demo_run demo_undo e] by auto
  show ?thesis
    using saga_atomic [OF fresh_demo e [unfolded f]] e by (auto simp: demo_steps do_step_def undo_step_def fail_step_def)
qed

text \<open>
  C30: executing a saga again after it was compensated does not undo what its first run undid: the steps
  that the first run completed are still marked as compensated. When step \<open>n\<close> failed the first time and
  step \<open>m\<close> fails the second, only the compensations of the steps from \<open>n\<close> up to \<open>m\<close> run, in reverse, so
  the effects of the first \<open>n\<close> steps stay, and all effects when it fails no later than before; the saga
  reports itself compensated nevertheless unless one of these compensations fails.
\<close>

theorem saga_rerun_keeps_effects:
  assumes "fresh_saga s" and "act_run (sg_Steps s) w = ((n, Some e), w1)"
    and "comp_run (rev (take n (sg_Steps s))) w1 = ([], w2)" and "saga_Execute clock s w = (err, (s1, w'))"
    and "act_run (sg_Steps s) v = ((m, Some f), v1)"
    and "comp_run (rev (take (m - n) (drop n (sg_Steps s)))) v1 = (es, v2)"
    and "saga_Execute clock' s1 v = (err', (s2, v'))"
  shows "v' = v2 \<and> (m \<le> n \<longrightarrow> v' = v1) \<and>
    (if es = [] then err' = Some (''saga failed at step '' @ show_nat m @ '': '' @ f) \<and> sg_State s2 = ''compensated''
     else err' = Some (''saga compensation failed: ['' @ join_spaces es @ '']'') \<and> sg_State s2 = ''failed'')"
  using rerun_lemma [OF assms] assms(6) by auto

theorem saga_rerun_keeps_effects_witness:
  "snd (snd (saga_Execute int (fst (snd (saga_Execute int demo_saga []))) [])) = [''b'', ''a'']"
proof -
  obtain err s1 w' where e: "saga_Execute int demo_saga [] = (err, (s1, w'))" by (metis surj_pair)
  obtain err' s2 v' where e2: "saga_Execute int s1 [] = (err', (s2, v'))" by (metis surj_pair)
  show ?thesis
    using saga_rerun_keeps_effects [OF fresh_demo demo_run demo_undo e demo_run _ e2] by (simp add: e e2)
qed

section \<open>The laws of the table of locks\<close>

text \<open>
  What the statements promise of the rows they work on: which rows a query finds, which rows a delete or
  an update touches, and that a row is only inserted with a new primary key.
\<close>

definition table_laws :: "'d lock_table \<Rightarrow> ('d \<Rightarrow> dlock multiset) \<Rightarrow> bool" where
  "table_laws db rows \<longleftrightarrow>
     (\<forall>r t d l. lt_find_live db r t d = Found l \<longrightarrow> l \<in># rows d \<and> dl_Resource l = r \<and> t < dl_ExpiresAt l) \<and>
     (\<forall>r t d. lt_find_live db r t d = NotFound \<longrightarrow> (\<forall>l \<in># rows d. dl_Resource l = r \<longrightarrow> dl_ExpiresAt l \<le> t)) \<and>
     (\<forall>r t d d'. lt_delete_expired_of db r t d = Inr d' \<longrightarrow>
        rows d' = filter_mset (\<lambda>l. \<not> (dl_Resource l = r \<and> dl_ExpiresAt l \<le> t)) (rows d)) \<and>
     (\<forall>l d d'. lt_create db l d = Inr d' \<longrightarrow> (\<forall>m \<in># rows d. dl_ID m \<noteq> dl_ID l) \<and> rows d' = add_mset l (rows d)) \<and>
     (\<forall>i d d'. lt_delete db i d = Inr d' \<longrightarrow> rows d' = filter_mset (\<lambda>l. dl_ID l \<noteq> i) (rows d)) \<and>
     (\<forall>i x t d d'. lt_extend db i x t d = Inr d' \<longrightarrow>
        rows d' = image_mset (\<lambda>l. if dl_ID l = i then l\<lparr>dl_ExpiresAt := x, dl_Heartbeat := t, dl_UpdatedAt := t\<rparr> else l) (rows d)) \<and>
     (\<forall>is t d d'. lt_heartbeat db is t d = Inr d' \<longrightarrow>
        rows d' = image_mset (\<lambda>l. if dl_ID l \<in> set is then l\<lparr>dl_Heartbeat := t, dl_UpdatedAt := t\<rparr> else l) (rows d)) \<and>
     (\<forall>t d d'. lt_delete_expired db t d = Inr d' \<longrightarrow> rows d' = filter_mset (\<lambda>l. t < dl_ExpiresAt l) (rows d))"

text \<open>A table kept as a list of rows satisfies them.\<close>

definition list_rows :: "(dlock list) lock_table" where
  "list_rows = \<lparr>
     lt_find_live = \<lambda>r t d. (case filter (\<lambda>l. dl_Resource l = r \<and> t < dl_ExpiresAt l) d of [] \<Rightarrow> NotFound | l # _ \<Rightarrow> Found l),
     lt_delete_expired_of = \<lambda>r t d. Inr (filter (\<lambda>l. \<not> (dl_Resource l = r \<and> dl_ExpiresAt l \<le> t)) d),
     lt_create = \<lambda>l d. (if dl_ID l \<in> set (map dl_ID d) then Inl ''duplicate key'' else Inr (l # d)),
     lt_delete = \<lambda>i d. Inr (filter (\<lambda>l. dl_ID l \<noteq> i) d),
     lt_extend = \<lambda>i x t d. Inr (map (\<lambda>l. if dl_ID l = i then l\<lparr>dl_ExpiresAt := x, dl_Heartbeat := t, dl_UpdatedAt := t\<rparr> else l) d),
     lt_heartbeat = \<lambda>is t d. Inr (map (\<lambda>l. if dl_ID l \<in> set is then l\<lparr>dl_Heartbeat := t, dl_UpdatedAt := t\<rparr> else l) d),
     lt_delete_expired = \<lambda>t d. Inr (filter (\<lambda>l. t < dl_ExpiresAt l) d),
     lt_begin = \<lambda>d. None, lt_commit = \<lambda>d d'. None\<rparr>"

lemma list_rows_find:
  "lt_find_live list_rows r t d = Found l \<Longrightarrow> l \<in> set d \<and> dl_Resource l = r \<and> t < dl_ExpiresAt l"
  "lt_find_live list_rows r t d = NotFound \<Longrightarrow> l \<in> set d \<Longrightarrow> dl_Resource l = r \<Longrightarrow> dl_ExpiresAt l \<le> t"
proof -
  let ?f = "filter (\<lambda>l. dl_Resource l = r \<and> t < dl_ExpiresAt l) d"
  show "l \<in> set d \<and> dl_Resource l = r \<and> t < dl_ExpiresAt l" if "lt_find_live list_rows r t d = Found l"
  proof -
    from that obtain ls where "?f = l # ls" by (auto simp: list_rows_def split: list.splits)
    then have "l \<in> set ?f" by simp
    then show ?thesis by simp
  qed
  show "dl_ExpiresAt l \<le> t" if "lt_find_live list_rows r t d = NotFound" "l \<in> set d" "dl_Resource l = r"
  proof -
    from that(1) have "?f = []" by (auto simp: list_rows_def split: list.splits)
    then show ?thesis using that(2,3) by (auto simp: filter_empty_conv not_less)
  qed
qed

lemma list_rows_laws: "table_laws list_rows mset"
proof -
  have create: "lt_create list_rows l d = Inr d' \<Longrightarrow> (\<forall>m \<in># mset d. dl_ID m \<noteq> dl_ID l) \<and> mset d' = add_mset l (mset d)" for l d d'
    by (auto simp: list_rows_def image_iff split: if_split_asm)
  show ?thesis
    unfolding table_laws_def
    by (intro conjI allI impI; (rule list_rows_find(1), assumption)?; (drule list_rows_find(1), simp; fail)?;
        (drule create, simp; fail)?; (force dest: list_rows_find(2); fail)?)
       (simp_all add: list_rows_def del: not_less not_le)
qed

section \<open>Locks: one row per resource\<close>

definition exclusive :: "dlock multiset \<Rightarrow> bool" where
  "exclusive M \<longleftrightarrow> (\<forall>r. size (filter_mset (\<lambda>l. dl_Resource l = r) M) \<le> 1)"

lemma exclusive_filter: "exclusive M \<Longrightarrow> exclusive (filter_mset P M)"
proof -
  have "size (filter_mset R (filter_mset P M)) \<le> size (filter_mset R M)" for R
    by (rule size_mset_mono [OF multiset_filter_mono [OF multiset_filter_subset]])
  then show "exclusive M \<Longrightarrow> ?thesis" unfolding exclusive_def using le_trans by blast
qed

lemma exclusive_image: "(\<And>l. dl_Resource (g l) = dl_Resource l) \<Longrightarrow> exclusive M \<Longrightarrow> exclusive (image_mset g M)"
  by (simp add: exclusive_def filter_mset_image_mset)

lemma exclusive_add:
  assumes "exclusive M" and "\<forall>m \<in># M. dl_Resource m \<noteq> dl_Resource l"
  shows "exclusive (add_mset l M)"
  unfolding exclusive_def
proof
  fix r
  have "filter_mset (\<lambda>m. dl_Resource m = dl_Resource l) M = {#}" using assms(2) by simp
  moreover have "size (filter_mset (\<lambda>m. dl_Resource m = r) M) \<le> 1" using assms(1) unfolding exclusive_def by simp
  ultimately show "size (filter_mset (\<lambda>m. dl_Resource m = r) (add_mset l M)) \<le> 1"
    by (cases "dl_Resource l = r") simp_all
qed

lemma table_lawsD:
  assumes "table_laws db rows"
  shows "lt_find_live db r t d = NotFound \<Longrightarrow> \<forall>l \<in># rows d. dl_Resource l = r \<longrightarrow> dl_ExpiresAt l \<le> t"
    "lt_delete_expired_of db r t d = Inr d' \<Longrightarrow> rows d' = filter_mset (\<lambda>l. \<not> (dl_Resource l = r \<and> dl_ExpiresAt l \<le> t)) (rows d)"
    "lt_create db l d = Inr d' \<Longrightarrow> (\<forall>m \<in># rows d. dl_ID m \<noteq> dl_ID l) \<and> rows d' = add_mset l (rows d)"
    "lt_delete db i d = Inr d' \<Longrightarrow> rows d' = filter_mset (\<lambda>l. dl_ID l \<noteq> i) (rows d)"
    "lt_extend db i x t d = Inr d' \<Longrightarrow>
        rows d' = image_mset (\<lambda>l. if dl_ID l = i then l\<lparr>dl_ExpiresAt := x, dl_Heartbeat := t, dl_UpdatedAt := t\<rparr> else l) (rows d)"
    "lt_heartbeat db is t d = Inr d' \<Longrightarrow>
        rows d' = image_mset (\<lambda>l. if dl_ID l \<in> set is then l\<lparr>dl_Heartbeat := t, dl_UpdatedAt := t\<rparr> else l) (rows d)"
    "lt_delete_expired db t d = Inr d' \<Longrightarrow> rows d' = filter_mset (\<lambda>l. t < dl_ExpiresAt l) (rows d)"
  using assms unfolding table_laws_def by simp_all

lemma acquire_check_rows:
  assumes "table_laws db rows" and "acquire_check db r t d = Inr d'"
  shows "rows d' = filter_mset (\<lambda>l. dl_Resource l \<noteq> r) (rows d)" "\<forall>l \<in># rows d. dl_Resource l = r \<longrightarrow> dl_ExpiresAt l \<le> t"
proof -
  from assms(2) have f: "lt_find_live db r t d = NotFound" and e: "lt_delete_expired_of db r t d = Inr d'"
    by (auto simp: acquire_check_def split: lookup.splits sum.splits)
  show live: "\<forall>l \<in># rows d. dl_Resource l = r \<longrightarrow> dl_ExpiresAt l \<le> t"
    by (rule table_lawsD(1) [OF assms(1) f])
  have "rows d' = filter_mset (\<lambda>l. \<not> (dl_Resource l = r \<and> dl_ExpiresAt l \<le> t)) (rows d)"
    by (rule table_lawsD(2) [OF assms(1) e])
  then show "rows d' = filter_mset (\<lambda>l. dl_Resource l \<noteq> r) (rows d)"
    using live by (auto intro: filter_mset_cong)
qed

lemma acquire_create_rows:
  assumes "table_laws db rows" and "acquire_create db l d = Inr d'"
  shows "rows d' = add_mset l (rows d)" "\<forall>m \<in># rows d. dl_ID m \<noteq> dl_ID l"
proof -
  from assms(2) have "lt_create db l d = Inr d'" by (auto simp: acquire_create_def split: sum.splits)
  with table_lawsD(3) [OF assms(1), of l d d'] show "rows d' = add_mset l (rows d)" "\<forall>m \<in># rows d. dl_ID m \<noteq> dl_ID l"
    by auto
qed

lemma new_dlock_simps [simp]:
  "dl_ID (new_dlock i r ow t to) = i" "dl_Resource (new_dlock i r ow t to) = r" "dl_Owner (new_dlock i r ow t to) = ow"
  "dl_ExpiresAt (new_dlock i r ow t to) = t + to"
  by (simp_all add: new_dlock_def)

lemma dm_AcquireLock_Inr:
  assumes "dm_AcquireLock db i t r ow to (dm, d) = (Inr l, (dm', d'))"
  shows "l = new_dlock i r ow t (if to = 0 then dm_defaultTimeout dm else to) \<and>
    dm' = dm\<lparr>dm_locks := (dm_locks dm)(i \<mapsto> l)\<rparr> \<and> (\<exists>d1. acquire_check db r t d = Inr d1 \<and> acquire_create db l d1 = Inr d')"
  using assms by (auto simp: dm_AcquireLock_def Let_def split: option.splits sum.splits)

lemma dm_AcquireLock_Inl: "dm_AcquireLock db i t r ow to (dm, d) = (Inl e, st) \<Longrightarrow> st = (dm, d)"
  by (auto simp: dm_AcquireLock_def Let_def split: option.splits sum.splits)

lemma dm_AcquireLock_exclusive:
  assumes laws: "table_laws db rows" and "exclusive (rows d)" and a: "dm_AcquireLock db i t r ow to (dm, d) = (x, (dm', d'))"
  shows "exclusive (rows d')"
proof (cases x)
  case (Inl e)
  then show ?thesis using dm_AcquireLock_Inl [of db i t r ow to dm d e "(dm', d')"] a assms(2) by simp
next
  case (Inr l)
  then obtain d1 where d1: "acquire_check db r t d = Inr d1" "acquire_create db l d1 = Inr d'" and l: "dl_Resource l = r"
    using dm_AcquireLock_Inr [of db i t r ow to dm d l] a by auto
  show ?thesis
    unfolding acquire_create_rows(1) [OF laws d1(2)] acquire_check_rows(1) [OF laws d1(1)]
    by (rule exclusive_add [OF exclusive_filter [OF assms(2)]]) (simp add: l)
qed

text \<open>The other operations touch rows by ID or by time.\<close>

lemma dm_ReleaseLock_exclusive:
  assumes "table_laws db rows" and "exclusive (rows d)" and "dm_ReleaseLock db i (dm, d) = (x, (dm', d'))"
  shows "exclusive (rows d')"
  using assms exclusive_filter table_lawsD(4) [OF assms(1), of i d d']
  by (auto simp: dm_ReleaseLock_def Let_def split: if_splits sum.splits)

lemma dm_ExtendLock_exclusive:
  assumes "table_laws db rows" and "exclusive (rows d)" and "dm_ExtendLock db t i e (dm, d) = (x, (dm', d'))"
  shows "exclusive (rows d')"
  using assms by (auto simp: dm_ExtendLock_def Let_def table_lawsD(5) [OF assms(1)] intro: exclusive_image
      split: option.splits sum.splits)

lemma sendHeartbeats_exclusive:
  assumes "table_laws db rows" and "exclusive (rows d)"
  shows "exclusive (rows (snd (sendHeartbeats db is t (dm, d))))"
  using assms by (auto simp: sendHeartbeats_def Let_def table_lawsD(6) [OF assms(1)] intro: exclusive_image split: sum.splits)

lemma dm_cleanup_exclusive:
  assumes "table_laws db rows" and "exclusive (rows d)"
  shows "exclusive (rows (dm_cleanupExpiredLocks db t d))"
  using assms by (auto simp: dm_cleanupExpiredLocks_def table_lawsD(7) [OF assms(1)] intro: exclusive_filter split: sum.splits)

lemma delete_all_exclusive:
  assumes "table_laws db rows"
  shows "exclusive (rows d) \<Longrightarrow> exclusive (rows (foldl (\<lambda>d i. case lt_delete db i d of Inl e \<Rightarrow> d | Inr d' \<Rightarrow> d') d is))"
  by (induction "is" arbitrary: d) (auto simp: table_lawsD(4) [OF assms] exclusive_filter split: sum.splits)

lemma dm_Stop_exclusive:
  assumes "table_laws db rows" and "exclusive (rows d)" and "dm_Stop db is (dm, d) = Returns (dm', d')"
  shows "exclusive (rows d')"
  using assms delete_all_exclusive by (auto simp: dm_Stop_def Let_def split: if_splits)

text \<open>Histories of several managers over one table, a call at a time; \<open>k\<close> names the manager.\<close>

inductive dlm_reach :: "'d lock_table \<Rightarrow> 'd \<Rightarrow> (nat \<Rightarrow> dlock_manager) \<Rightarrow> 'd \<Rightarrow> bool" for db d0 where
  start: "dlm_reach db d0 (\<lambda>k. NewDistributedLockManager) d0"
| acquire: "dlm_reach db d0 ms d \<Longrightarrow> dm_AcquireLock db i t r ow to (ms k, d) = (x, (dm, d')) \<Longrightarrow> dlm_reach db d0 (ms(k := dm)) d'"
| release: "dlm_reach db d0 ms d \<Longrightarrow> dm_ReleaseLock db i (ms k, d) = (y, (dm, d')) \<Longrightarrow> dlm_reach db d0 (ms(k := dm)) d'"
| extend: "dlm_reach db d0 ms d \<Longrightarrow> dm_ExtendLock db t i e (ms k, d) = (y, (dm, d')) \<Longrightarrow> dlm_reach db d0 (ms(k := dm)) d'"
| heartbeat: "dlm_reach db d0 ms d \<Longrightarrow> dlm_reach db d0 ms (snd (sendHeartbeats db is t (ms k, d)))"
| cleanup: "dlm_reach db d0 ms d \<Longrightarrow> dlm_reach db d0 ms (dm_cleanupExpiredLocks db t d)"
| stop: "dlm_reach db d0 ms d \<Longrightarrow> dm_Stop db is (ms k, d) = Returns (dm, d') \<Longrightarrow> dlm_reach db d0 (ms(k := dm)) d'"

lemma dlm_exclusive_lemma:
  assumes laws: "table_laws db rows" and "exclusive (rows d0)"
  shows "dlm_reach db d0 ms d \<Longrightarrow> exclusive (rows d)"
proof (induction rule: dlm_reach.induct)
  case start
  then show ?case using assms(2) .
next
  case acquire
  then show ?case using dm_AcquireLock_exclusive [OF laws] by blast
next
  case release
  then show ?case using dm_ReleaseLock_exclusive [OF laws] by blast
next
  case extend
  then show ?case using dm_ExtendLock_exclusive [OF laws] by blast
next
  case heartbeat
  then show ?case using sendHeartbeats_exclusive [OF laws] by blast
next
  case cleanup
  then show ?case using dm_cleanup_exclusive [OF laws] by blast
next
  case stop
  then show ?case using dm_Stop_exclusive [OF laws] by blast
qed

text \<open>
  C31: in every history of calls of several managers that do not overlap, whatever their clocks show,
  the table has at most one row for a resource, so two valid locks of it are one.
\<close>

theorem dlm_exclusive:
  assumes "table_laws db rows" and "exclusive (rows d0)" and "dlm_reach db d0 ms d"
  shows "\<forall>r. size (filter_mset (\<lambda>l. dl_Resource l = r) (rows d)) \<le> 1"
  using dlm_exclusive_lemma [OF assms(1,2,3)] by (simp add: exclusive_def)

text \<open>A manager acquires a resource; after its lock expired another manager does.\<close>

definition one_lock :: dlock where
  "one_lock = new_dlock ''L1'' ''acct'' ''A'' 100 (30 * second)"

definition one_manager :: dlock_manager where
  "one_manager = NewDistributedLockManager\<lparr>dm_locks := [''L1'' \<mapsto> one_lock]\<rparr>"

definition two_lock :: dlock where
  "two_lock = new_dlock ''L2'' ''acct'' ''B'' (101 + 30 * second) (60 * second)"

lemma one_acquired: "dm_AcquireLock list_rows ''L1'' 100 ''acct'' ''A'' 0 (NewDistributedLockManager, []) =
    (Inr one_lock, (one_manager, [one_lock]))"
  by (simp add: dm_AcquireLock_def acquire_check_def acquire_create_def list_rows_def one_lock_def one_manager_def
      NewDistributedLockManager_def Let_def)

lemma two_acquired: "dm_AcquireLock list_rows ''L2'' (101 + 30 * second) ''acct'' ''B'' (60 * second) (NewDistributedLockManager, [one_lock]) =
    (Inr two_lock, (NewDistributedLockManager\<lparr>dm_locks := [''L2'' \<mapsto> two_lock]\<rparr>, [two_lock]))"
  by (simp add: dm_AcquireLock_def acquire_check_def acquire_create_def list_rows_def one_lock_def two_lock_def
      NewDistributedLockManager_def Let_def)

lemma two_reached: "\<exists>ms. dlm_reach list_rows [] ms [two_lock]"
proof -
  let ?new = "(\<lambda>k. NewDistributedLockManager) :: nat \<Rightarrow> dlock_manager"
  have "dlm_reach list_rows [] (?new(0 := one_manager)) [one_lock]"
    by (rule dlm_reach.acquire [OF dlm_reach.start]) (rule one_acquired)
  moreover have "dm_AcquireLock list_rows ''L2'' (101 + 30 * second) ''acct'' ''B'' (60 * second) ((?new(0 := one_manager)) 1, [one_lock]) =
      (Inr two_lock, (NewDistributedLockManager\<lparr>dm_locks := [''L2'' \<mapsto> two_lock]\<rparr>, [two_lock]))"
    using two_acquired by simp
  ultimately show ?thesis by (blast intro: dlm_reach.acquire)
qed

theorem dlm_exclusive_witness: "size (filter_mset (\<lambda>l. dl_Resource l = ''acct'') (mset [two_lock])) \<le> 1"
proof -
  obtain ms where ms: "dlm_reach list_rows [] ms [two_lock]" using two_reached by blast
  show ?thesis using dlm_exclusive [OF list_rows_laws _ ms] by (simp add: exclusive_def)
qed

text \<open>
  two calls of AcquireLock for one resource that overlap may both succeed: when both checks run
  before the two inserts nothing stops the second insert, and the table has two rows for the resource
  which both calls return as their lock.
\<close>

theorem concurrent_acquires:
  assumes laws: "table_laws db rows" and "acquire_check db r t d = Inr d1" and "acquire_check db r t' d1 = Inr d2"
    and "acquire_create db (new_dlock i r ow t to) d2 = Inr d3" and "acquire_create db (new_dlock j r ow' t' to') d3 = Inr d4"
  shows "i \<noteq> j \<and> filter_mset (\<lambda>l. dl_Resource l = r) (rows d4) = {# new_dlock i r ow t to, new_dlock j r ow' t' to' #}"
proof -
  let ?l = "new_dlock i r ow t to" and ?m = "new_dlock j r ow' t' to'"
  have "rows d4 = add_mset ?m (add_mset ?l (rows d2))" and "i \<noteq> j"
    using acquire_create_rows [OF laws assms(4)] acquire_create_rows [OF laws assms(5)] by auto
  moreover have "filter_mset (\<lambda>l. dl_Resource l = r) (rows d2) = {#}"
    by (simp add: acquire_check_rows(1) [OF laws assms(3)])
  ultimately show ?thesis by simp
qed

theorem concurrent_acquires_witness:
  "\<exists>d4. filter_mset (\<lambda>l. dl_Resource l = ''acct'') (mset d4) =
     {# new_dlock ''L1'' ''acct'' ''A'' 100 second, new_dlock ''L2'' ''acct'' ''B'' 101 second #}"
proof -
  let ?l = "new_dlock ''L1'' ''acct'' ''A'' 100 second" and ?m = "new_dlock ''L2'' ''acct'' ''B'' 101 second"
  have "acquire_check list_rows ''acct'' t [] = Inr []" for t
    by (simp add: acquire_check_def list_rows_def)
  moreover have "acquire_create list_rows ?l [] = Inr [?l]" and "acquire_create list_rows ?m [?l] = Inr [?m, ?l]"
    by (simp_all add: acquire_create_def list_rows_def)
  ultimately show ?thesis
    using concurrent_acquires [OF list_rows_laws, of "''acct''" 100 "[]" "[]" 101 "[]" "''L1''" "''A''" second "[?l]"
        "''L2''" "''B''" second "[?m, ?l]"] by blast
qed

text \<open>
  extending a lock whose row is gone, taken away after it expired, reports success: no row is
  changed, and the manager goes on listing the lock as active with the later expiry, also when the
  resource has a row of another manager meanwhile.
\<close>

theorem lost_lock_extended:
  assumes "table_laws db rows" and "dm_locks dm i = Some l" and "\<forall>m \<in># rows d. dl_ID m \<noteq> i"
    and "lt_extend db i (dl_ExpiresAt l + e) now d = Inr d1"
  obtains dm' where "dm_ExtendLock db now i e (dm, d) = (None, (dm', d1))" and "rows d1 = rows d"
    and "map dl_ExpiresAt (GetActiveLocks [i] dm') = [dl_ExpiresAt l + e]"
proof -
  let ?dm' = "dm\<lparr>dm_locks := (dm_locks dm)(i \<mapsto> l\<lparr>dl_ExpiresAt := dl_ExpiresAt l + e, dl_Heartbeat := now, dl_UpdatedAt := now\<rparr>)\<rparr>"
  have "dm_ExtendLock db now i e (dm, d) = (None, (?dm', d1))"
    using assms(2,4) by (simp add: dm_ExtendLock_def Let_def)
  moreover have "rows d1 = rows d"
    using assms(3) by (simp add: table_lawsD(5) [OF assms(1,4)] image_mset_cong [where g = id])
  ultimately show ?thesis by (rule that) (simp add: GetActiveLocks_def)
qed

theorem lost_lock_extended_witness:
  "fst (dm_ExtendLock list_rows (102 + 30 * second) ''L1'' minute (one_manager, [two_lock])) = None"
proof -
  have "dm_locks one_manager ''L1'' = Some one_lock" by (simp add: one_manager_def)
  moreover have "\<forall>m \<in># mset [two_lock]. dl_ID m \<noteq> ''L1''" by (simp add: two_lock_def)
  moreover have "lt_extend list_rows ''L1'' (dl_ExpiresAt one_lock + minute) (102 + 30 * second) [two_lock] = Inr [two_lock]"
    by (simp add: list_rows_def two_lock_def)
  ultimately show ?thesis
    by (rule lost_lock_extended [OF list_rows_laws]) simp
qed

end
