(* ===== verification/PriorityQueue.thy ===== *)
theory PriorityQueue
  imports Prelude "HOL-Library.Word"
begin

unbundle bit_operations_syntax

text \<open>
  The priority queue of market-data messages,
  \<open>internal/marketmaking/marketdata/backpressure/priority_queue.go\<close>: five ring buffers, one per
  priority, with positions of 64 bits that only grow, and a buffered channel in front of them for
  critical messages. Priorities have 8 bits. Calls are modelled one after the other.
\<close>

section \<open>The ring buffer\<close>

record 'm ring =
  rb_buffer :: "'m option list"
  rb_mask :: "64 word"
  rb_writePos :: "64 word"
  rb_readPos :: "64 word"
  rb_capacity :: "64 word"

text \<open>The loop that doubles the capacity up to the size; a size of more than \<open>2^63\<close> makes it run forever.\<close>

partial_function (option) grow_capacity :: "64 word \<Rightarrow> 64 word \<Rightarrow> (64 word) option" where
  "grow_capacity n capacity = (if capacity < n then grow_capacity n (push_bit 1 capacity) else Some capacity)"

definition newLockFreeRingBuffer :: "int \<Rightarrow> ('m ring) option" where
  "newLockFreeRingBuffer n =
     (case grow_capacity (word_of_int n) 1 of
        None \<Rightarrow> None
      | Some capacity \<Rightarrow> Some \<lparr>rb_buffer = replicate (unat capacity) None, rb_mask = capacity - 1, rb_writePos = 0,
          rb_readPos = 0, rb_capacity = capacity\<rparr>)"

definition rb_enqueue :: "'m \<Rightarrow> 'm ring \<Rightarrow> bool \<times> 'm ring" where
  "rb_enqueue msg rb =
     (let writePos = rb_writePos rb; readPos = rb_readPos rb
      in if writePos - readPos \<ge> rb_capacity rb then (False, rb)
         else (True, rb\<lparr>rb_buffer := (rb_buffer rb)[unat (writePos AND rb_mask rb) := Some msg], rb_writePos := writePos + 1\<rparr>))"

definition rb_dequeue :: "'m ring \<Rightarrow> 'm option \<times> 'm ring" where
  "rb_dequeue rb =
     (let readPos = rb_readPos rb; writePos = rb_writePos rb
      in if readPos \<ge> writePos then (None, rb)
         else case rb_buffer rb ! unat (readPos AND rb_mask rb) of
                None \<Rightarrow> (None, rb)
              | Some msg \<Rightarrow> (Some msg, rb\<lparr>rb_buffer := (rb_buffer rb)[unat (readPos AND rb_mask rb) := None], rb_readPos := readPos + 1\<rparr>))"

section \<open>The queue: state\<close>

record pmessage =
  pm_Data :: "nat list"
  pm_Topic :: string
  pm_Priority :: "8 word"
  pm_Timestamp :: time
  pm_ClientID :: string
  pm_MessageID :: "64 word"
  pm_ExpiresAt :: time
  pm_Attempts :: "8 word"
  pm_IsRetransmit :: bool

abbreviation (input) PriorityCritical :: nat where "PriorityCritical \<equiv> 0"
abbreviation (input) PriorityHigh :: nat where "PriorityHigh \<equiv> 1"
abbreviation (input) PriorityMarket :: nat where "PriorityMarket \<equiv> 4"

text \<open>The drop policy is a number of the configuration; other numbers drop the new message.\<close>

abbreviation (input) DropOldest :: int where "DropOldest \<equiv> 0"
abbreviation (input) DropLowPriority :: int where "DropLowPriority \<equiv> 1"
abbreviation (input) DropExpired :: int where "DropExpired \<equiv> 2"
abbreviation (input) DropNever :: int where "DropNever \<equiv> 3"

record pq_config =
  pc_InitialCapacity :: int
  pc_FastPathEnabled :: bool
  pc_DropPolicy :: int

record pq_stats =
  qs_MessagesEnqueued :: "(64 word) list"
  qs_MessagesDequeued :: "(64 word) list"
  qs_MessagesDropped :: "(64 word) list"
  qs_FastPathUsed :: "64 word"
  qs_TotalLatencyNs :: "64 word"
  qs_MaxLatencyNs :: "64 word"
  qs_QueueFullEvents :: "64 word"
  qs_OverflowEvents :: "64 word"

record pqueue =
  pq_queues :: "pmessage ring list"
  pq_criticalFast :: "pmessage list"
  pq_stats :: pq_stats
  pq_config :: pq_config

definition default_pq_config :: pq_config where
  "default_pq_config = \<lparr>pc_InitialCapacity = 4096, pc_FastPathEnabled = True, pc_DropPolicy = DropOldest\<rparr>"

definition zero_stats :: pq_stats where
  "zero_stats = \<lparr>qs_MessagesEnqueued = replicate 5 0, qs_MessagesDequeued = replicate 5 0, qs_MessagesDropped = replicate 5 0,
     qs_FastPathUsed = 0, qs_TotalLatencyNs = 0, qs_MaxLatencyNs = 0, qs_QueueFullEvents = 0, qs_OverflowEvents = 0\<rparr>"

text \<open>Go's division of integers truncates. The constructor returns if all five loops do.\<close>

definition quot :: "int \<Rightarrow> int \<Rightarrow> int" where
  "quot a b = sgn a * sgn b * (\<bar>a\<bar> div \<bar>b\<bar>)"

fun new_rings :: "int list \<Rightarrow> ('m ring list) option" where
  "new_rings [] = Some []"
| "new_rings (n # ns) =
     (case newLockFreeRingBuffer n of
        None \<Rightarrow> None
      | Some rb \<Rightarrow> (case new_rings ns of None \<Rightarrow> None | Some rbs \<Rightarrow> Some (rb # rbs)))"

definition NewLockFreePriorityQueue :: "pq_config option \<Rightarrow> pqueue option" where
  "NewLockFreePriorityQueue config =
     (let cfg = (case config of None \<Rightarrow> default_pq_config | Some c \<Rightarrow> c); n = pc_InitialCapacity cfg
      in case new_rings [n, quot n 2, quot n 4, quot n 8, quot n 16] of
           None \<Rightarrow> None
         | Some rbs \<Rightarrow> Some \<lparr>pq_queues = rbs, pq_criticalFast = [], pq_stats = zero_stats, pq_config = cfg\<rparr>)"

section \<open>The queue: operations\<close>

text \<open>Adding one to a counter of an array.\<close>

definition bump :: "nat \<Rightarrow> (64 word) list \<Rightarrow> (64 word) list" where
  "bump i cs = cs[i := cs ! i + 1]"

definition count_enqueued :: "nat \<Rightarrow> pqueue \<Rightarrow> pqueue" where
  "count_enqueued p q = q\<lparr>pq_stats := (pq_stats q)\<lparr>qs_MessagesEnqueued := bump p (qs_MessagesEnqueued (pq_stats q))\<rparr>\<rparr>"

definition count_dequeued :: "nat \<Rightarrow> pqueue \<Rightarrow> pqueue" where
  "count_dequeued p q = q\<lparr>pq_stats := (pq_stats q)\<lparr>qs_MessagesDequeued := bump p (qs_MessagesDequeued (pq_stats q))\<rparr>\<rparr>"

definition count_dropped :: "nat \<Rightarrow> pqueue \<Rightarrow> pqueue" where
  "count_dropped p q = q\<lparr>pq_stats := (pq_stats q)\<lparr>qs_MessagesDropped := bump p (qs_MessagesDropped (pq_stats q))\<rparr>\<rparr>"

text \<open>The ring buffer calls on the ring of priority \<open>p\<close>.\<close>

definition enqueue_at :: "nat \<Rightarrow> pmessage \<Rightarrow> pqueue \<Rightarrow> bool \<times> pqueue" where
  "enqueue_at p msg q =
     (case rb_enqueue msg (pq_queues q ! p) of (b, rb) \<Rightarrow> (b, q\<lparr>pq_queues := (pq_queues q)[p := rb]\<rparr>))"

definition dequeue_at :: "nat \<Rightarrow> pqueue \<Rightarrow> pmessage option \<times> pqueue" where
  "dequeue_at p q =
     (case rb_dequeue (pq_queues q ! p) of (m, rb) \<Rightarrow> (m, q\<lparr>pq_queues := (pq_queues q)[p := rb]\<rparr>))"

text \<open>The non-blocking send on the channel, which holds 16 messages.\<close>

definition fast_send :: "pmessage \<Rightarrow> pqueue \<Rightarrow> pqueue option" where
  "fast_send msg q = (if length (pq_criticalFast q) < 16 then Some (q\<lparr>pq_criticalFast := pq_criticalFast q @ [msg]\<rparr>) else None)"

definition handleOverflow :: "pmessage \<Rightarrow> pqueue \<Rightarrow> bool \<times> pqueue" where
  "handleOverflow msg q =
     (let q1 = q\<lparr>pq_stats := (pq_stats q)\<lparr>qs_OverflowEvents := qs_OverflowEvents (pq_stats q) + 1\<rparr>\<rparr>
      in if pm_Priority msg = 0 \<and> pc_FastPathEnabled (pq_config q1)
         then case fast_send msg q1 of Some q2 \<Rightarrow> (True, q2) | None \<Rightarrow> (False, q1)
         else (False, q1))"

text \<open>The loops down from priority \<open>p\<close> to above \<open>low\<close> that give up a message of a lower priority.\<close>

fun drop_down :: "nat \<Rightarrow> nat \<Rightarrow> nat \<Rightarrow> pmessage \<Rightarrow> pqueue \<Rightarrow> bool \<times> pqueue" where
  "drop_down low target 0 msg q = (False, q)"
| "drop_down low target (Suc p) msg q =
     (if Suc p \<le> low then (False, q)
      else case dequeue_at (Suc p) q of
             (None, q1) \<Rightarrow> drop_down low target p msg q1
           | (Some oldMsg, q1) \<Rightarrow>
               (case enqueue_at target msg (count_dropped (Suc p) q1) of
                  (True, q2) \<Rightarrow> (True, q2)
                | (False, q2) \<Rightarrow> drop_down low target p msg q2))"

definition makeSpaceForCritical :: "pmessage \<Rightarrow> pqueue \<Rightarrow> bool \<times> pqueue" where
  "makeSpaceForCritical msg q =
     (case drop_down PriorityHigh (unat (pm_Priority msg)) PriorityMarket msg q of
        (True, q1) \<Rightarrow> (True, q1)
      | (False, q1) \<Rightarrow> handleOverflow msg q1)"

definition dropLowerPriority :: "pmessage \<Rightarrow> nat \<Rightarrow> pqueue \<Rightarrow> bool \<times> pqueue" where
  "dropLowerPriority msg msgPriority q = drop_down msgPriority msgPriority PriorityMarket msg q"

text \<open>
  The loop of dropExpiredMessages over \<open>p\<close>, of 8 bits, from the market priority: the condition
  \<open>p >= PriorityCritical\<close> always holds, and after priority 0 comes 255, which is no index of the queues.
\<close>

fun drop_expired_down :: "time \<Rightarrow> nat \<Rightarrow> nat \<Rightarrow> pmessage \<Rightarrow> pqueue \<Rightarrow> (bool \<times> pqueue) outcome" where
  "drop_expired_down now target 0 msg q = Panics"
| "drop_expired_down now target (Suc p) msg q =
     (case dequeue_at p q of
        (None, q1) \<Rightarrow> drop_expired_down now target p msg q1
      | (Some oldMsg, q1) \<Rightarrow>
          (if pm_ExpiresAt oldMsg > 0 \<and> now > pm_ExpiresAt oldMsg
           then case enqueue_at target msg (count_dropped p q1) of
                  (True, q2) \<Rightarrow> Returns (True, q2)
                | (False, q2) \<Rightarrow> drop_expired_down now target p msg q2
           else drop_expired_down now target p msg (snd (enqueue_at p oldMsg q1))))"

definition dropExpiredMessages :: "time \<Rightarrow> pmessage \<Rightarrow> nat \<Rightarrow> pqueue \<Rightarrow> (bool \<times> pqueue) outcome" where
  "dropExpiredMessages now msg priority q = drop_expired_down now priority (Suc PriorityMarket) msg q"

definition handleQueueFull :: "time \<Rightarrow> pmessage \<Rightarrow> nat \<Rightarrow> pqueue \<Rightarrow> (bool \<times> pqueue) outcome" where
  "handleQueueFull now msg priority q =
     (let q1 = q\<lparr>pq_stats := (pq_stats q)\<lparr>qs_QueueFullEvents := qs_QueueFullEvents (pq_stats q) + 1\<rparr>\<rparr>;
          policy = pc_DropPolicy (pq_config q1)
      in if policy = DropNever then
           (if priority \<le> PriorityHigh then Returns (makeSpaceForCritical msg q1) else Returns (False, q1))
         else if policy = DropOldest then
           (case dequeue_at priority q1 of
              (Some oldMsg, q2) \<Rightarrow> Returns (enqueue_at priority msg (count_dropped priority q2))
            | (None, q2) \<Rightarrow> Returns (False, q2))
         else if policy = DropLowPriority then Returns (dropLowerPriority msg priority q1)
         else if policy = DropExpired then dropExpiredMessages now msg priority q1
         else Returns (False, q1))"

text \<open>\<open>clock\<close> gives the start of the call, the time after the insert and the time the policies see.\<close>

definition count_latency :: "time \<Rightarrow> time \<Rightarrow> pqueue \<Rightarrow> pqueue" where
  "count_latency t0 t1 q =
     (let latency = word_of_int (t1 - t0); s = pq_stats q
      in q\<lparr>pq_stats := s\<lparr>qs_TotalLatencyNs := qs_TotalLatencyNs s + latency, qs_MaxLatencyNs := max (qs_MaxLatencyNs s) latency\<rparr>\<rparr>)"

definition ring_path :: "(nat \<Rightarrow> time) \<Rightarrow> pmessage \<Rightarrow> pqueue \<Rightarrow> (bool \<times> pqueue) outcome" where
  "ring_path clock msg q =
     (let priority = unat (pm_Priority msg)
      in if priority \<ge> 5 then Panics
         else case enqueue_at priority msg q of
                (True, q1) \<Rightarrow> Returns (True, count_latency (clock 0) (clock 1) (count_enqueued priority q1))
              | (False, q1) \<Rightarrow>
                  (case handleQueueFull (clock 2) msg priority q1 of
                     Returns (b, q2) \<Rightarrow> Returns (b, if b then q2 else count_dropped priority q2)
                   | Blocks \<Rightarrow> Blocks
                   | Panics \<Rightarrow> Panics))"

definition pq_Enqueue :: "(nat \<Rightarrow> time) \<Rightarrow> pmessage \<Rightarrow> pqueue \<Rightarrow> (bool \<times> pqueue) outcome" where
  "pq_Enqueue clock msg q =
     (if pm_Priority msg = 0 \<and> pc_FastPathEnabled (pq_config q)
      then case fast_send msg q of
             Some q1 \<Rightarrow> Returns (True, count_enqueued PriorityCritical
               (q1\<lparr>pq_stats := (pq_stats q1)\<lparr>qs_FastPathUsed := qs_FastPathUsed (pq_stats q1) + 1\<rparr>\<rparr>))
           | None \<Rightarrow> ring_path clock msg q
      else ring_path clock msg q)"

text \<open>The loop over the rings of the priorities \<open>ps\<close>.\<close>

fun dequeue_first :: "nat list \<Rightarrow> pqueue \<Rightarrow> pmessage option \<times> pqueue" where
  "dequeue_first [] q = (None, q)"
| "dequeue_first (p # ps) q =
     (case dequeue_at p q of
        (Some msg, q1) \<Rightarrow> (Some msg, count_dequeued p q1)
      | (None, q1) \<Rightarrow> dequeue_first ps q1)"

definition pq_Dequeue :: "pqueue \<Rightarrow> pmessage option \<times> pqueue" where
  "pq_Dequeue q =
     (if pc_FastPathEnabled (pq_config q) \<and> pq_criticalFast q \<noteq> []
      then (Some (hd (pq_criticalFast q)), count_dequeued PriorityCritical (q\<lparr>pq_criticalFast := tl (pq_criticalFast q)\<rparr>))
      else dequeue_first [0, 1, 2, 3, 4] q)"

definition pq_IsEmpty :: "pqueue \<Rightarrow> bool" where
  "pq_IsEmpty q \<longleftrightarrow> \<not> (pc_FastPathEnabled (pq_config q) \<and> pq_criticalFast q \<noteq> []) \<and>
     (\<forall>rb \<in> set (pq_queues q). \<not> rb_readPos rb < rb_writePos rb)"

definition pq_Size :: "pqueue \<Rightarrow> 64 word" where
  "pq_Size q = (if pc_FastPathEnabled (pq_config q) then word_of_nat (length (pq_criticalFast q)) else 0) +
     sum_list (map (\<lambda>rb. rb_writePos rb - rb_readPos rb) (pq_queues q))"

end
