(* ===== verification/RingTheorems.thy ===== *)
theory RingTheorems
  imports PriorityQueue
begin

text \<open>
  The ring buffer of the priority queue: the contract of a bounded first-in first-out queue as a locale,
  what a client can conclude from it, the interpretation on the ring buffer, and for which sizes the
  constructor returns.
\<close>

section \<open>Bounded queues\<close>

text \<open>
  A sequence of inserts (\<open>Some\<close>) and removals (\<open>None\<close>) and its answers, of a queue with the operations
  \<open>enq\<close> and \<open>deq\<close>, and of a list with at most \<open>c\<close> elements.
\<close>

fun fifo_run :: "('a \<Rightarrow> 'q \<Rightarrow> bool \<times> 'q) \<Rightarrow> ('q \<Rightarrow> 'a option \<times> 'q) \<Rightarrow> 'a option list \<Rightarrow> 'q \<Rightarrow> (bool + 'a option) list" where
  "fifo_run enq deq [] q = []"
| "fifo_run enq deq (Some x # os) q = (case enq x q of (b, q') \<Rightarrow> Inl b # fifo_run enq deq os q')"
| "fifo_run enq deq (None # os) q = (case deq q of (r, q') \<Rightarrow> Inr r # fifo_run enq deq os q')"

fun list_run :: "nat \<Rightarrow> 'a option list \<Rightarrow> 'a list \<Rightarrow> (bool + 'a option) list" where
  "list_run c [] xs = []"
| "list_run c (Some x # os) xs = Inl (length xs < c) # list_run c os (if length xs < c then xs @ [x] else xs)"
| "list_run c (None # os) xs = Inr (case xs of [] \<Rightarrow> None | x # _ \<Rightarrow> Some x) # list_run c os (tl xs)"

text \<open>
  A queue shows the list of what it holds. Its invariant also says for how many inserts it is still
  good, because the positions of the ring buffer must not wrap around.
\<close>

locale bounded_fifo =
  fixes enq :: "'a \<Rightarrow> 'q \<Rightarrow> bool \<times> 'q" and deq :: "'q \<Rightarrow> 'a option \<times> 'q"
    and items :: "'q \<Rightarrow> 'a list" and room :: "'q \<Rightarrow> nat" and inv :: "nat \<Rightarrow> 'q \<Rightarrow> bool"
  assumes enq_full: "inv n q \<Longrightarrow> length (items q) = room q \<Longrightarrow> enq x q = (False, q)"
    and enq_room: "inv (Suc n) q \<Longrightarrow> length (items q) < room q \<Longrightarrow>
      \<exists>q'. enq x q = (True, q') \<and> inv n q' \<and> items q' = items q @ [x] \<and> room q' = room q"
    and deq_empty: "inv n q \<Longrightarrow> items q = [] \<Longrightarrow> deq q = (None, q)"
    and deq_Cons: "inv n q \<Longrightarrow> items q = x # xs \<Longrightarrow>
      \<exists>q'. deq q = (Some x, q') \<and> inv n q' \<and> items q' = xs \<and> room q' = room q"
    and bounded: "inv n q \<Longrightarrow> length (items q) \<le> room q"
    and weaken: "inv (Suc n) q \<Longrightarrow> inv n q"
begin

lemma enq_result:
  assumes "inv (Suc n) q" and "enq x q = (b, q')"
  shows "inv n q' \<and> room q' = room q \<and> b = (length (items q) < room q) \<and> items q' = (if b then items q @ [x] else items q)"
proof (cases "length (items q) < room q")
  case True
  then show ?thesis using enq_room [OF assms(1) True, of x] assms(2) by auto
next
  case False
  then have "length (items q) = room q" using bounded [OF assms(1)] by simp
  then show ?thesis using enq_full [OF assms(1), of x] assms weaken by auto
qed

lemma deq_result:
  assumes "inv n q" and "deq q = (r, q')"
  shows "inv n q' \<and> room q' = room q \<and> r = (case items q of [] \<Rightarrow> None | x # _ \<Rightarrow> Some x) \<and> items q' = tl (items q)"
  using assms deq_empty [OF assms(1)] deq_Cons [OF assms(1)] by (cases "items q") fastforce+

lemma run_refines: "inv (length os) q \<Longrightarrow> fifo_run enq deq os q = list_run (room q) os (items q)"
proof (induction os arbitrary: q)
  case Nil
  then show ?case by simp
next
  case (Cons oper os)
  then have inv: "inv (Suc (length os)) q" by simp
  show ?case
  proof (cases oper)
    case (Some x)
    obtain b q' where "enq x q = (b, q')" by fastforce
    with enq_result [OF inv this] Cons.IH [of q'] Some show ?thesis by auto
  next
    case None
    obtain r q' where "deq q = (r, q')" by fastforce
    with deq_result [OF weaken [OF inv] this] Cons.IH [of q'] None show ?thesis by simp
  qed
qed

end

section \<open>The ring buffer is one\<close>

definition ring_ok :: "nat \<Rightarrow> 'm ring \<Rightarrow> bool" where
  "ring_ok n rb \<longleftrightarrow> (\<exists>k \<le> 63. rb_capacity rb = 2 ^ k \<and> rb_mask rb = 2 ^ k - 1 \<and> length (rb_buffer rb) = 2 ^ k \<and>
     rb_readPos rb \<le> rb_writePos rb \<and> unat (rb_writePos rb) - unat (rb_readPos rb) \<le> 2 ^ k \<and> unat (rb_writePos rb) + n < 2 ^ 64 \<and>
     (\<forall>i. unat (rb_readPos rb) \<le> i \<longrightarrow> i < unat (rb_writePos rb) \<longrightarrow> rb_buffer rb ! (i mod 2 ^ k) \<noteq> None))"

definition ring_items :: "'m ring \<Rightarrow> 'm list" where
  "ring_items rb = map (\<lambda>i. the (rb_buffer rb ! (i mod length (rb_buffer rb)))) [unat (rb_readPos rb)..<unat (rb_writePos rb)]"

definition ring_room :: "'m ring \<Rightarrow> nat" where
  "ring_room rb = unat (rb_capacity rb)"

lemma unat_pow: "k \<le> 63 \<Longrightarrow> unat (2 ^ k :: 64 word) = 2 ^ k"
proof -
  assume "k \<le> 63"
  then have "(2 :: nat) ^ k < 2 ^ 64" by (intro power_strict_increasing) simp_all
  then have "unat (word_of_nat (2 ^ k) :: 64 word) = 2 ^ k" by (simp only: unat_of_nat mod_less) simp
  then show ?thesis by simp
qed

lemma unat_and_mask: "unat ((x :: 64 word) AND (2 ^ k - 1)) = unat x mod 2 ^ k"
proof -
  have "x AND (2 ^ k - 1) = take_bit k x" by (simp add: take_bit_eq_mask mask_eq_exp_minus_1)
  moreover have "unat (take_bit k x) = take_bit k (unat x)" by (rule unsigned_take_bit_eq)
  ultimately show ?thesis by (simp only: take_bit_eq_mod)
qed

lemma mod_neq: "(i :: nat) < w \<Longrightarrow> w - i < c \<Longrightarrow> i mod c \<noteq> w mod c"
  by (metis diff_is_0_eq less_imp_le_nat mod_eq_dvd_iff_nat nat_dvd_not_less not_le zero_less_diff)

lemma ring_enq_full: "ring_ok n rb \<Longrightarrow> length (ring_items rb) = ring_room rb \<Longrightarrow> rb_enqueue x rb = (False, rb)"
  by (auto simp: ring_ok_def ring_items_def ring_room_def rb_enqueue_def Let_def word_le_nat_alt unat_sub)

lemma ring_enq_room:
  assumes ok: "ring_ok (Suc n) rb" and room: "length (ring_items rb) < ring_room rb"
  shows "\<exists>rb'. rb_enqueue x rb = (True, rb') \<and> ring_ok n rb' \<and> ring_items rb' = ring_items rb @ [x] \<and> ring_room rb' = ring_room rb"
proof -
  let ?w = "unat (rb_writePos rb)" and ?r = "unat (rb_readPos rb)"
  obtain k where k: "k \<le> 63" "rb_capacity rb = 2 ^ k" "rb_mask rb = 2 ^ k - 1" "length (rb_buffer rb) = 2 ^ k" and le: "?r \<le> ?w"
    and w: "?w + Suc n < 2 ^ 64" and slots: "\<forall>i. ?r \<le> i \<longrightarrow> i < ?w \<longrightarrow> rb_buffer rb ! (i mod 2 ^ k) \<noteq> None"
    using ok by (auto simp: ring_ok_def word_le_nat_alt)
  have lt: "?w - ?r < 2 ^ k" using room k by (simp add: ring_items_def ring_room_def unat_pow)
  let ?rb = "rb\<lparr>rb_buffer := (rb_buffer rb)[?w mod 2 ^ k := Some x], rb_writePos := rb_writePos rb + 1\<rparr>"
  have suc: "unat (rb_writePos rb + 1) = Suc ?w"
    using w by (subst unat_add_lem [THEN iffD1]) simp_all
  have same: "(rb_buffer rb)[?w mod 2 ^ k := Some x] ! (i mod 2 ^ k) = rb_buffer rb ! (i mod 2 ^ k)" if "?r \<le> i" "i < ?w" for i
  proof -
    have "?w - i < 2 ^ k" using that(1) lt by linarith
    from mod_neq [OF that(2) this] show ?thesis by (simp add: nth_list_update_neq)
  qed
  have new: "(rb_buffer rb)[?w mod 2 ^ k := Some x] ! (?w mod 2 ^ k) = Some x" using k(4) by simp
  have "rb_enqueue x rb = (True, ?rb)"
    using lt k le by (simp add: rb_enqueue_def Let_def unat_and_mask word_le_nat_alt unat_sub unat_pow)
  moreover have "ring_ok n ?rb"
    unfolding ring_ok_def
  proof (rule exI [of _ k], intro conjI allI impI)
    show "unat (rb_writePos ?rb) + n < 2 ^ 64" using w suc by simp
    show "rb_buffer ?rb ! (i mod 2 ^ k) \<noteq> None" if "unat (rb_readPos ?rb) \<le> i" "i < unat (rb_writePos ?rb)" for i
      using that same new slots suc by (cases "i = ?w") auto
  qed (use k lt le suc in \<open>auto simp: word_le_nat_alt\<close>)
  moreover have "ring_items ?rb = ring_items rb @ [x]"
    using k(4) le same new suc by (simp add: ring_items_def)
  ultimately show ?thesis by (auto simp: ring_room_def)
qed

lemma ring_deq_empty: "ring_ok n rb \<Longrightarrow> ring_items rb = [] \<Longrightarrow> rb_dequeue rb = (None, rb)"
  by (auto simp: ring_items_def rb_dequeue_def Let_def word_le_nat_alt)

lemma ring_deq_Cons:
  assumes ok: "ring_ok n rb" and items: "ring_items rb = x # xs"
  shows "\<exists>rb'. rb_dequeue rb = (Some x, rb') \<and> ring_ok n rb' \<and> ring_items rb' = xs \<and> ring_room rb' = ring_room rb"
proof -
  let ?w = "unat (rb_writePos rb)" and ?r = "unat (rb_readPos rb)"
  obtain k where k: "k \<le> 63" "rb_capacity rb = 2 ^ k" "rb_mask rb = 2 ^ k - 1" "length (rb_buffer rb) = 2 ^ k"
    and diff: "?w - ?r \<le> 2 ^ k" and w: "?w + n < 2 ^ 64"
    and slots: "\<forall>i. ?r \<le> i \<longrightarrow> i < ?w \<longrightarrow> rb_buffer rb ! (i mod 2 ^ k) \<noteq> None"
    using ok by (auto simp: ring_ok_def)
  have lt: "?r < ?w" using items by (cases "?r < ?w") (auto simp: ring_items_def)
  then have upt: "[?r..<?w] = ?r # [Suc ?r..<?w]" by (simp add: upt_conv_Cons)
  have x: "the (rb_buffer rb ! (?r mod 2 ^ k)) = x" "map (\<lambda>i. the (rb_buffer rb ! (i mod 2 ^ k))) [Suc ?r..<?w] = xs"
    using items k(4) by (simp_all add: ring_items_def upt)
  then have at: "rb_buffer rb ! (?r mod 2 ^ k) = Some x" using slots lt by force
  let ?rb = "rb\<lparr>rb_buffer := (rb_buffer rb)[?r mod 2 ^ k := None], rb_readPos := rb_readPos rb + 1\<rparr>"
  have suc: "unat (rb_readPos rb + 1) = Suc ?r"
    using w lt by (subst unat_add_lem [THEN iffD1]) simp_all
  have same: "(rb_buffer rb)[?r mod 2 ^ k := None] ! (i mod 2 ^ k) = rb_buffer rb ! (i mod 2 ^ k)" if "Suc ?r \<le> i" "i < ?w" for i
    using mod_neq [of ?r i "2 ^ k"] that diff by (subst nth_list_update_neq) auto
  have "rb_dequeue rb = (Some x, ?rb)"
    using lt k at by (simp add: rb_dequeue_def Let_def unat_and_mask word_le_nat_alt)
  moreover have "ring_ok n ?rb"
    unfolding ring_ok_def
  proof (rule exI [of _ k], intro conjI allI impI)
    show "rb_buffer ?rb ! (i mod 2 ^ k) \<noteq> None" if "unat (rb_readPos ?rb) \<le> i" "i < unat (rb_writePos ?rb)" for i
      using that same slots suc by auto
  qed (use k lt diff w suc in \<open>auto simp: word_le_nat_alt\<close>)
  moreover have "ring_items ?rb = xs"
    using k(4) suc same x(2) by (auto simp: ring_items_def cong: map_cong)
  ultimately show ?thesis by (auto simp: ring_room_def)
qed

lemma ring_bounded: "ring_ok n rb \<Longrightarrow> length (ring_items rb) \<le> ring_room rb"
  by (auto simp: ring_ok_def ring_items_def ring_room_def unat_pow)

lemma ring_weaken: "ring_ok (Suc n) rb \<Longrightarrow> ring_ok n rb"
  by (auto simp: ring_ok_def)

interpretation ring: bounded_fifo rb_enqueue rb_dequeue ring_items ring_room ring_ok
  by unfold_locales (fact ring_enq_full ring_enq_room ring_deq_empty ring_deq_Cons ring_bounded ring_weaken)+

section \<open>The constructor\<close>

lemma push_pow: "push_bit 1 (2 ^ j :: 64 word) = 2 ^ Suc j"
  by (simp add: push_bit_eq_mult)

lemma grow_capacity_Some:
  assumes n: "n \<le> 2 ^ 63"
  shows "j \<le> 63 \<Longrightarrow> \<exists>k \<ge> j. k \<le> 63 \<and> grow_capacity n (2 ^ j) = Some (2 ^ k) \<and> n \<le> 2 ^ k \<and> (k = j \<or> 2 ^ (k - 1) < n)"
proof (induction "63 - j" arbitrary: j)
  case 0
  then have j: "j = 63" by simp
  have "grow_capacity n (2 ^ 63) = Some (2 ^ 63)"
    using n by (subst grow_capacity.simps) (simp only: not_less [symmetric] if_False)
  then show ?case using j n by (intro exI [of _ 63]) simp
next
  case (Suc m)
  show ?case
  proof (cases "2 ^ j < n")
    case True
    from Suc(2) have "m = 63 - Suc j" "Suc j \<le> 63" by simp_all
    from Suc(1) [OF this] obtain k where k: "k \<ge> Suc j" "k \<le> 63" "grow_capacity n (2 ^ Suc j) = Some (2 ^ k)" "n \<le> 2 ^ k"
      "k = Suc j \<or> 2 ^ (k - 1) < n" by blast
    have "grow_capacity n (2 ^ j) = Some (2 ^ k)"
      using True k(3) by (subst grow_capacity.simps) (simp only: push_pow if_True)
    then show ?thesis using k True by (intro exI [of _ k]) auto
  next
    case False
    then have "grow_capacity n (2 ^ j) = Some (2 ^ j)" by (subst grow_capacity.simps) (simp only: if_False)
    then show ?thesis using Suc.prems False by (intro exI [of _ j]) (simp add: not_less)
  qed
qed


lemma unat_int: "0 \<le> n \<Longrightarrow> n < 2 ^ 63 \<Longrightarrow> unat (word_of_int n :: 64 word) = nat n"
  by (simp add: unat_eq_nat_uint uint_word_of_int)

lemma newLockFreeRingBuffer_ok:
  assumes "0 \<le> n" and "n < 2 ^ 63"
  shows "\<exists>rb. newLockFreeRingBuffer n = Some rb \<and> ring_ok (2 ^ 64 - 1) rb \<and> ring_items rb = [] \<and>
    nat n \<le> ring_room rb \<and> (\<exists>k. ring_room rb = 2 ^ k) \<and> (ring_room rb = 1 \<or> ring_room rb < 2 * nat n)"
proof -
  let ?n = "word_of_int n :: 64 word"
  have un: "unat ?n = nat n" using assms by (rule unat_int)
  then have "?n \<le> 2 ^ 63" using assms by (simp add: word_le_nat_alt unat_pow nat_le_iff)
  from grow_capacity_Some [OF this, of 0] obtain k where k: "k \<le> 63" "grow_capacity ?n 1 = Some (2 ^ k)" "?n \<le> 2 ^ k"
      "k = 0 \<or> 2 ^ (k - 1) < ?n" by auto
  let ?rb = "\<lparr>rb_buffer = replicate (unat (2 ^ k :: 64 word)) None, rb_mask = 2 ^ k - 1, rb_writePos = 0,
     rb_readPos = 0, rb_capacity = 2 ^ k\<rparr> :: 'a ring"
  have "newLockFreeRingBuffer n = Some ?rb" using k(2) by (simp add: newLockFreeRingBuffer_def)
  moreover have "ring_ok (2 ^ 64 - 1) ?rb" using k(1) by (auto simp: ring_ok_def unat_pow)
  moreover have "ring_items ?rb = []" by (simp add: ring_items_def)
  moreover have "ring_room ?rb = 2 ^ k" using k(1) by (simp add: ring_room_def unat_pow)
  moreover have "nat n \<le> 2 ^ k" using k(1,3) un by (simp add: word_le_nat_alt unat_pow)
  moreover have "2 ^ k = (1 :: nat) \<or> 2 ^ k < 2 * nat n"
  proof (cases k)
    case (Suc i)
    then have "(2 :: nat) ^ i < nat n" using k(1,4) un by (simp add: word_less_nat_alt unat_pow)
    then show ?thesis using Suc by simp
  qed simp
  ultimately show ?thesis by (intro exI [of _ ?rb]) auto
qed



text \<open>
  C32: as long as fewer than \<open>2^64\<close> messages are inserted, a new ring buffer answers every sequence of
  inserts (\<open>Some\<close>) and removals (\<open>None\<close>) as a bounded list does: an insert is refused exactly if the list
  is full, and a removal returns the oldest message.
\<close>

theorem ring_refines_list:
  assumes "ring_ok (length os) rb"
  shows "fifo_run rb_enqueue rb_dequeue os rb = list_run (ring_room rb) os (ring_items rb)"
  by (rule ring.run_refines [OF assms])

theorem ring_refines_list_witness:
  "\<exists>rb. newLockFreeRingBuffer 3 = Some rb \<and> fifo_run rb_enqueue rb_dequeue [Some (1 :: nat), Some 2, None, None, None] rb =
     [Inl True, Inl True, Inr (Some 1), Inr (Some 2), Inr None]"
proof -
  obtain rb :: "nat ring" where rb: "newLockFreeRingBuffer 3 = Some rb" "ring_ok (2 ^ 64 - 1) rb" "ring_items rb = []" "3 \<le> ring_room rb"
    using newLockFreeRingBuffer_ok [of 3, where 'a = nat] by auto
  let ?os = "[Some 1, Some 2, None, None, None]"
  have "ring_ok (length ?os) rb" using rb(2) by (auto simp: ring_ok_def)
  then have run: "fifo_run rb_enqueue rb_dequeue ?os rb = list_run (ring_room rb) ?os (ring_items rb)"
    by (rule ring_refines_list)
  have "list_run (ring_room rb) ?os (ring_items rb) = [Inl True, Inl True, Inr (Some 1), Inr (Some 2), Inr None]"
    using rb(3,4) by simp
  then show ?thesis using rb(1) run by auto
qed

end
