(* ===== verification/PriorityTheorems.thy ===== *)
theory PriorityTheorems
  imports RingTheorems
begin

text \<open>
  Theorems on the priority queue of market-data messages: what a removal returns, what becomes of a
  message whose queue is full under each drop policy, and in which order critical messages leave.
\<close>

section \<open>What the queue holds\<close>

definition pq_lists :: "pqueue \<Rightarrow> pmessage list list" where
  "pq_lists q = map ring_items (pq_queues q)"

definition pq_rooms :: "pqueue \<Rightarrow> nat list" where
  "pq_rooms q = map ring_room (pq_queues q)"

text \<open>The invariant; \<open>n\<close> is a number of further inserts that no position wraps around in.\<close>

definition pq_ok :: "nat \<Rightarrow> pqueue \<Rightarrow> bool" where
  "pq_ok n q \<longleftrightarrow> length (pq_queues q) = 5 \<and> (\<forall>rb \<in> set (pq_queues q). ring_ok n rb)"

definition pq_full :: "nat \<Rightarrow> pqueue \<Rightarrow> bool" where
  "pq_full p q \<longleftrightarrow> length (pq_lists q ! p) = pq_rooms q ! p"

text \<open>What else a call on one ring leaves as it was.\<close>

definition same_rest :: "pqueue \<Rightarrow> pqueue \<Rightarrow> bool" where
  "same_rest q q' \<longleftrightarrow> pq_rooms q' = pq_rooms q \<and> pq_criticalFast q' = pq_criticalFast q \<and> pq_config q' = pq_config q"

lemma same_rest_refl [simp]: "same_rest q q"
  by (simp add: same_rest_def)

lemma same_rest_trans: "same_rest q q' \<Longrightarrow> same_rest q' q'' \<Longrightarrow> same_rest q q''"
  by (simp add: same_rest_def)

text \<open>The counters are no part of it.\<close>

lemma counts [simp]:
  "pq_lists (q\<lparr>pq_stats := s\<rparr>) = pq_lists q" "pq_rooms (q\<lparr>pq_stats := s\<rparr>) = pq_rooms q" "pq_ok n (q\<lparr>pq_stats := s\<rparr>) = pq_ok n q"
  "pq_full p (q\<lparr>pq_stats := s\<rparr>) = pq_full p q" "same_rest q0 (q\<lparr>pq_stats := s\<rparr>) = same_rest q0 q"
  "same_rest (q\<lparr>pq_stats := s\<rparr>) q0 = same_rest q q0"
  by (simp_all add: pq_lists_def pq_rooms_def pq_ok_def pq_full_def same_rest_def)

lemma counted [simp]:
  "pq_lists (count_enqueued p q) = pq_lists q" "pq_lists (count_dequeued p q) = pq_lists q" "pq_lists (count_dropped p q) = pq_lists q"
  "pq_lists (count_latency s t q) = pq_lists q"
  "pq_ok n (count_dropped p q) = pq_ok n q" "pq_full i (count_dropped p q) = pq_full i q"
  "same_rest q0 (count_dropped p q) = same_rest q0 q" "same_rest (count_dropped p q) q0 = same_rest q q0"
  "pq_criticalFast (count_enqueued p q) = pq_criticalFast q" "pq_criticalFast (count_dequeued p q) = pq_criticalFast q"
  "pq_criticalFast (count_dropped p q) = pq_criticalFast q" "pq_criticalFast (count_latency s t q) = pq_criticalFast q"
  "pq_config (count_dropped p q) = pq_config q"
  by (simp_all add: count_enqueued_def count_dequeued_def count_dropped_def count_latency_def Let_def)

lemma pq_lists_length: "pq_ok n q \<Longrightarrow> length (pq_lists q) = 5"
  by (simp add: pq_ok_def pq_lists_def)

lemma pq_weaken: "pq_ok (Suc n) q \<Longrightarrow> pq_ok n q"
  by (auto simp: pq_ok_def intro: ring_weaken)

lemma pq_ring: "pq_ok n q \<Longrightarrow> p < 5 \<Longrightarrow> ring_ok n (pq_queues q ! p)"
  by (simp add: pq_ok_def)

lemma pq_nth: "pq_ok n q \<Longrightarrow> p < 5 \<Longrightarrow> pq_lists q ! p = ring_items (pq_queues q ! p) \<and> pq_rooms q ! p = ring_room (pq_queues q ! p)"
  by (simp add: pq_ok_def pq_lists_def pq_rooms_def)

lemma set_ring:
  assumes "pq_ok n q" and "p < 5" and "ring_ok n rb" and "ring_room rb = ring_room (pq_queues q ! p)"
  shows "pq_ok n (q\<lparr>pq_queues := (pq_queues q)[p := rb]\<rparr>)" "same_rest q (q\<lparr>pq_queues := (pq_queues q)[p := rb]\<rparr>)"
    "pq_lists (q\<lparr>pq_queues := (pq_queues q)[p := rb]\<rparr>) = (pq_lists q)[p := ring_items rb]"
proof -
  show "pq_ok n (q\<lparr>pq_queues := (pq_queues q)[p := rb]\<rparr>)"
    using assms by (auto simp: pq_ok_def dest!: set_update_subset_insert [THEN subsetD])
  have "map ring_room ((pq_queues q)[p := rb]) = map ring_room (pq_queues q)"
    using assms(1,2,4) by (simp add: map_update pq_ok_def list_update_same_conv)
  then show "same_rest q (q\<lparr>pq_queues := (pq_queues q)[p := rb]\<rparr>)" by (simp add: same_rest_def pq_rooms_def)
qed (simp add: pq_lists_def map_update)

lemma enqueue_at_full: "pq_ok n q \<Longrightarrow> p < 5 \<Longrightarrow> pq_full p q \<Longrightarrow> enqueue_at p msg q = (False, q)"
  using ring_enq_full [OF pq_ring] by (simp add: enqueue_at_def pq_full_def pq_nth)

lemma enqueue_at_room:
  assumes ok: "pq_ok (Suc n) q" and p: "p < 5" and room: "\<not> pq_full p q"
  shows "\<exists>q'. enqueue_at p msg q = (True, q') \<and> pq_ok n q' \<and> same_rest q q' \<and> pq_lists q' = (pq_lists q)[p := pq_lists q ! p @ [msg]]"
proof -
  let ?rb = "pq_queues q ! p"
  have "length (ring_items ?rb) < ring_room ?rb"
    using room ring_bounded [OF pq_ring [OF ok p]] pq_nth [OF ok p] by (simp add: pq_full_def)
  from ring_enq_room [OF pq_ring [OF ok p] this, of msg] obtain rb where
    "rb_enqueue msg ?rb = (True, rb)" "ring_ok n rb" "ring_items rb = ring_items ?rb @ [msg]" "ring_room rb = ring_room ?rb" by blast
  then show ?thesis
    using set_ring [OF pq_weaken [OF ok] p] pq_nth [OF ok p] by (simp add: enqueue_at_def)
qed

lemma dequeue_at_result:
  assumes ok: "pq_ok n q" and p: "p < 5"
  shows "\<exists>q'. dequeue_at p q = (case pq_lists q ! p of [] \<Rightarrow> None | x # _ \<Rightarrow> Some x, q') \<and> pq_ok n q' \<and> same_rest q q' \<and>
    pq_lists q' = (pq_lists q)[p := tl (pq_lists q ! p)]"
proof -
  obtain r rb where d: "rb_dequeue (pq_queues q ! p) = (r, rb)" by fastforce
  from ring.deq_result [OF pq_ring [OF ok p] d] set_ring [OF ok p] pq_nth [OF ok p] show ?thesis
    by (simp add: dequeue_at_def d)
qed

section \<open>Removals\<close>

lemma dequeue_first_result:
  assumes "pq_ok n q" and "p \<le> 5" and "dequeue_first [p..<5] q = (r, q')"
  shows "pq_ok n q' \<and> pq_criticalFast q' = pq_criticalFast q \<and>
    (r = None \<and> (\<forall>i. p \<le> i \<and> i < 5 \<longrightarrow> pq_lists q ! i = []) \<and> pq_lists q' = pq_lists q \<or>
     (\<exists>i x xs. p \<le> i \<and> i < 5 \<and> (\<forall>j. p \<le> j \<and> j < i \<longrightarrow> pq_lists q ! j = []) \<and> pq_lists q ! i = x # xs \<and> r = Some x \<and>
        pq_lists q' = (pq_lists q)[i := xs]))"
  using assms
proof (induction "5 - p" arbitrary: p q)
  case 0
  then have "p = 5" by simp
  with 0 show ?case by (auto simp del: not_less)
next
  case (Suc m)
  then have p: "p < 5" and upt: "[p..<5] = p # [Suc p..<5]" by (simp_all add: upt_conv_Cons)
  obtain q1 where q1: "dequeue_at p q = (case pq_lists q ! p of [] \<Rightarrow> None | x # _ \<Rightarrow> Some x, q1)" "pq_ok n q1" "same_rest q q1"
      "pq_lists q1 = (pq_lists q)[p := tl (pq_lists q ! p)]"
    using dequeue_at_result [OF Suc.prems(1) p] by blast
  show ?case
  proof (cases "pq_lists q ! p")
    case Nil
    then have lists: "pq_lists q1 = pq_lists q" using q1(4) by (metis list.sel(2) list_update_id)
    have rest: "dequeue_first [Suc p..<5] q1 = (r, q')" using Suc.prems(3) Nil q1(1) by (simp add: upt)
    have "m = 5 - Suc p" "Suc p \<le> 5" using Suc.hyps(2) p by simp_all
    note IH = Suc.hyps(1) [OF this(1) q1(2) this(2) rest, unfolded lists]
    have ext: "\<forall>j. p \<le> j \<and> j < i \<longrightarrow> pq_lists q ! j = []" if "\<forall>j. Suc p \<le> j \<and> j < i \<longrightarrow> pq_lists q ! j = []" for i
      using that Nil by (metis Suc_leI le_neq_implies_less)
    have "pq_ok n q' \<and> pq_criticalFast q' = pq_criticalFast q" using IH q1(3) by (simp add: same_rest_def)
    moreover from IH consider
        (none) "r = None" "\<forall>i. Suc p \<le> i \<and> i < 5 \<longrightarrow> pq_lists q ! i = []" "pq_lists q' = pq_lists q"
      | (some) i x xs where "Suc p \<le> i" "i < 5" "\<forall>j. Suc p \<le> j \<and> j < i \<longrightarrow> pq_lists q ! j = []" "pq_lists q ! i = x # xs"
          "r = Some x" "pq_lists q' = (pq_lists q)[i := xs]" by blast
    then have "r = None \<and> (\<forall>i. p \<le> i \<and> i < 5 \<longrightarrow> pq_lists q ! i = []) \<and> pq_lists q' = pq_lists q \<or>
       (\<exists>i x xs. p \<le> i \<and> i < 5 \<and> (\<forall>j. p \<le> j \<and> j < i \<longrightarrow> pq_lists q ! j = []) \<and> pq_lists q ! i = x # xs \<and> r = Some x \<and>
         pq_lists q' = (pq_lists q)[i := xs])"
    proof cases
      case none
      then show ?thesis using ext by blast
    next
      case (some i x xs)
      then show ?thesis using ext [OF some(3)] by (intro disjI2 exI [of _ i] exI [of _ x] exI [of _ xs]) simp
    qed
    ultimately show ?thesis by blast
  next
    case (Cons x xs)
    then have "r = Some x" "q' = count_dequeued p q1" using Suc.prems(3) q1(1) by (simp_all add: upt)
    then show ?thesis using Cons q1 p by (auto simp: same_rest_def count_dequeued_def)
  qed
qed

text \<open>
  C34: a removal takes the oldest message of the channel for critical messages, if that is in use and
  not empty, and else the oldest message of the highest priority that has one; it changes no other
  message, and returns none only if there is none.
\<close>

theorem pq_Dequeue_highest:
  assumes "pq_ok n q" and "pq_Dequeue q = (r, q')"
  shows "pq_ok n q' \<and>
    (if pc_FastPathEnabled (pq_config q) \<and> pq_criticalFast q \<noteq> []
     then r = Some (hd (pq_criticalFast q)) \<and> pq_criticalFast q' = tl (pq_criticalFast q) \<and> pq_lists q' = pq_lists q
     else pq_criticalFast q' = pq_criticalFast q \<and>
       (r = None \<and> (\<forall>p < 5. pq_lists q ! p = []) \<and> pq_lists q' = pq_lists q \<or>
        (\<exists>p x xs. p < 5 \<and> (\<forall>i < p. pq_lists q ! i = []) \<and> pq_lists q ! p = x # xs \<and> r = Some x \<and> pq_lists q' = (pq_lists q)[p := xs])))"
proof (cases "pc_FastPathEnabled (pq_config q) \<and> pq_criticalFast q \<noteq> []")
  case True
  then show ?thesis using assms by (auto simp: pq_Dequeue_def count_dequeued_def pq_ok_def pq_lists_def)
next
  case False
  have "[0, 1, 2, 3, 4] = [0..<5 :: nat]" by (simp add: upt_rec)
  then have "dequeue_first [0..<5] q = (r, q')" using False assms(2) unfolding pq_Dequeue_def by (simp only: if_False)
  from dequeue_first_result [OF assms(1) _ this] False show ?thesis by auto
qed

section \<open>Full queues\<close>

lemma full_after_dequeue:
  assumes "pq_ok n q" and "p < 5" and "pq_lists q' = (pq_lists q)[p := tl (pq_lists q ! p)]" and "same_rest q q'"
  shows "i \<noteq> p \<Longrightarrow> pq_full i q' = pq_full i q" "pq_lists q ! p \<noteq> [] \<Longrightarrow> pq_full p q \<Longrightarrow> \<not> pq_full p q'"
proof -
  have len: "length (pq_lists q) = 5" using assms(1) by (rule pq_lists_length)
  show "i \<noteq> p \<Longrightarrow> pq_full i q' = pq_full i q" using assms by (simp add: pq_full_def same_rest_def)
  show "pq_lists q ! p \<noteq> [] \<Longrightarrow> pq_full p q \<Longrightarrow> \<not> pq_full p q'"
    using assms len by (cases "pq_lists q ! p") (auto simp: pq_full_def same_rest_def)
qed

text \<open>Giving up messages of other priorities makes no space in a queue that is full.\<close>

lemma drop_down_full:
  assumes "pq_ok n q" and "pq_full t q" and "t \<le> low" and "p \<le> 4" and "drop_down low t p msg q = (b, q')" and "t < 5"
  shows "\<not> b \<and> pq_ok n q' \<and> same_rest q q' \<and> pq_full t q' \<and>
    pq_lists q' = map (\<lambda>i. if low < i \<and> i \<le> p then tl (pq_lists q ! i) else pq_lists q ! i) [0..<5]"
  using assms
proof (induction p arbitrary: q)
  case 0
  then show ?case by (auto simp: pq_lists_length intro!: nth_equalityI)
next
  case (Suc p)
  show ?case
  proof (cases "Suc p \<le> low")
    case True
    then show ?thesis using Suc.prems by (auto simp: pq_lists_length intro!: nth_equalityI)
  next
    case False
    let ?P = "Suc p"
    have P: "?P < 5" "t \<noteq> ?P" using Suc.prems False by simp_all
    obtain q1 where q1: "dequeue_at ?P q = (case pq_lists q ! ?P of [] \<Rightarrow> None | x # _ \<Rightarrow> Some x, q1)" "pq_ok n q1" "same_rest q q1"
        "pq_lists q1 = (pq_lists q)[?P := tl (pq_lists q ! ?P)]"
      using dequeue_at_result [OF Suc.prems(1) P(1)] by blast
    have full: "pq_full t q1" using full_after_dequeue(1) [OF Suc.prems(1) P(1) q1(4,3) P(2)] Suc.prems(2) by simp
    obtain q2 where q2: "drop_down low t p msg q2 = (b, q')" "pq_ok n q2" "same_rest q q2" "pq_full t q2" "pq_lists q2 = pq_lists q1"
    proof (cases "pq_lists q ! ?P")
      case Nil
      show ?thesis by (rule that [of q1]) (use Suc.prems(5) False q1 full Nil in simp_all)
    next
      case (Cons x xs)
      have "enqueue_at t msg (count_dropped ?P q1) = (False, count_dropped ?P q1)"
        by (rule enqueue_at_full [of n]) (simp_all add: q1 full Suc.prems)
      then show ?thesis by (intro that [of "count_dropped ?P q1"]) (use Suc.prems(5) False q1 full Cons in simp_all)
    qed
    from Suc.IH [OF q2(2,4) Suc.prems(3) _ q2(1) Suc.prems(6)] Suc.prems(4) have IH:
      "\<not> b \<and> pq_ok n q' \<and> same_rest q2 q' \<and> pq_full t q' \<and>
       pq_lists q' = map (\<lambda>i. if low < i \<and> i \<le> p then tl (pq_lists q2 ! i) else pq_lists q2 ! i) [0..<5]" by simp
    moreover have "map (\<lambda>i. if low < i \<and> i \<le> p then tl (pq_lists q2 ! i) else pq_lists q2 ! i) [0..<5] =
        map (\<lambda>i. if low < i \<and> i \<le> ?P then tl (pq_lists q ! i) else pq_lists q ! i) [0..<5]"
      using q1(4) q2(5) False pq_lists_length [OF Suc.prems(1)] P(1) by (auto simp: nth_list_update)
    ultimately show ?thesis using same_rest_trans [OF q2(3)] by simp
  qed
qed

text \<open>The loop over expired messages below a full queue ends with an index out of range.\<close>

lemma rotate_full:
  assumes ok: "pq_ok (Suc n) q" and p: "p < 5" and x: "pq_lists q ! p = x # xs"
    and q1: "pq_ok (Suc n) q1" "same_rest q q1" "pq_lists q1 = (pq_lists q)[p := xs]"
  shows "\<exists>q2. enqueue_at p x q1 = (True, q2) \<and> pq_ok n q2 \<and> same_rest q q2 \<and> pq_lists q2 = (pq_lists q)[p := xs @ [x]]"
proof -
  have len: "length (pq_lists q) = 5" using ok by (rule pq_lists_length)
  have "length (x # xs) \<le> pq_rooms q ! p"
    using ring_bounded [OF pq_ring [OF ok p]] pq_nth [OF ok p] x by simp
  then have "\<not> pq_full p q1" using q1(2,3) p len by (simp add: pq_full_def same_rest_def)
  from enqueue_at_room [OF q1(1) p this, of x] show ?thesis
    using q1(2,3) p len same_rest_trans by auto
qed

lemma drop_expired_step:
  assumes ok: "pq_ok (n + Suc p) q" and full: "pq_full t q" and p: "p < 5" "t \<noteq> p" and t: "t < 5"
  shows "\<exists>q2. drop_expired_down now t (Suc p) msg q = drop_expired_down now t p msg q2 \<and> pq_ok (n + p) q2 \<and> pq_full t q2 \<and>
    pq_lists q2 ! t = pq_lists q ! t"
proof -
  have ok': "pq_ok (Suc (n + p)) q" using ok by simp
  obtain q1 where q1: "dequeue_at p q = (case pq_lists q ! p of [] \<Rightarrow> None | x # _ \<Rightarrow> Some x, q1)" "pq_ok (Suc (n + p)) q1" "same_rest q q1"
      "pq_lists q1 = (pq_lists q)[p := tl (pq_lists q ! p)]"
    using dequeue_at_result [OF ok' p(1)] by blast
  have full1: "pq_full t q1" using full_after_dequeue(1) [OF ok' p(1) q1(4,3) p(2)] full by simp
  have same: "pq_lists q1 ! t = pq_lists q ! t" using q1(4) p(2) by simp
  show ?thesis
  proof (cases "pq_lists q ! p")
    case Nil
    then show ?thesis using q1(1) pq_weaken [OF q1(2)] full1 same by (intro exI [of _ q1]) simp
  next
    case (Cons x xs)
    have no: "enqueue_at t msg (count_dropped p q1) = (False, count_dropped p q1)"
      by (rule enqueue_at_full [of "Suc (n + p)"]) (simp_all add: q1 full1 t)
    obtain q2 where q2: "enqueue_at p x q1 = (True, q2)" "pq_ok (n + p) q2" "same_rest q q2" "pq_lists q2 = (pq_lists q)[p := xs @ [x]]"
      using rotate_full [OF ok' p(1) Cons q1(2,3)] q1(4) Cons by auto
    have "pq_full t q2" using q2(3,4) full p(2) by (simp add: pq_full_def same_rest_def)
    then have "pm_ExpiresAt x > 0 \<and> now > pm_ExpiresAt x \<Longrightarrow> ?thesis" and "\<not> (pm_ExpiresAt x > 0 \<and> now > pm_ExpiresAt x) \<Longrightarrow> ?thesis"
      using q1(1) Cons no q2 p(2) same full1 pq_weaken [OF q1(2)]
      by (intro exI [of _ "count_dropped p q1"], simp, intro exI [of _ q2], auto)
    then show ?thesis by blast
  qed
qed

lemma drop_expired_below:
  "pq_ok (n + p) q \<Longrightarrow> pq_full t q \<Longrightarrow> p \<le> t \<Longrightarrow> t < 5 \<Longrightarrow> drop_expired_down now t p msg q = Panics"
proof (induction p arbitrary: q)
  case 0
  then show ?case by simp
next
  case (Suc p)
  then show ?case using drop_expired_step [of n p q t now msg] by auto
qed

lemma drop_expired_result:
  assumes "pq_ok (n + p) q" and "pq_full t q" and "t < p" and "p \<le> 5" and "pq_lists q ! t = x # xs"
  shows "if 0 < pm_ExpiresAt x \<and> pm_ExpiresAt x < now
    then \<exists>q'. drop_expired_down now t p msg q = Returns (True, q') \<and> pq_lists q' ! t = xs @ [msg]
    else drop_expired_down now t p msg q = Panics"
  using assms
proof (induction p arbitrary: q)
  case 0
  then show ?case by simp
next
  case (Suc p)
  show ?case
  proof (cases "p = t")
    case False
    from drop_expired_step [OF Suc.prems(1,2), of now msg] Suc.prems False obtain q2 where
      q2: "drop_expired_down now t (Suc p) msg q = drop_expired_down now t p msg q2" "pq_ok (n + p) q2" "pq_full t q2"
        "pq_lists q2 ! t = pq_lists q ! t" by auto
    from Suc.IH [OF q2(2,3)] Suc.prems False q2(4) show ?thesis unfolding q2(1) by simp
  next
    case True
    have t: "t < 5" and ok: "pq_ok (Suc (n + p)) q" using Suc.prems by simp_all
    have len: "length (pq_lists q) = 5" using ok by (rule pq_lists_length)
    obtain q1 where q1: "dequeue_at t q = (Some x, q1)" "pq_ok (Suc (n + p)) q1" "same_rest q q1" "pq_lists q1 = (pq_lists q)[t := xs]"
      using dequeue_at_result [OF ok t] Suc.prems(5) by auto
    have "\<not> pq_full t q1" using full_after_dequeue(2) [OF ok t _ q1(3)] q1(4) Suc.prems(2,5) by simp
    then obtain q3 where q3: "enqueue_at t msg (count_dropped t q1) = (True, q3)" "pq_lists q3 = (pq_lists q1)[t := pq_lists q1 ! t @ [msg]]"
      using enqueue_at_room [of "n + p" "count_dropped t q1" t msg] q1(2) t by auto
    obtain q2 where q2: "enqueue_at t x q1 = (True, q2)" "pq_ok (n + p) q2" "same_rest q q2" "pq_lists q2 = (pq_lists q)[t := xs @ [x]]"
      using rotate_full [OF ok t Suc.prems(5) q1(2,3,4)] by auto
    have "pq_full t q2" using q2(3,4) Suc.prems(2,5) t len by (simp add: pq_full_def same_rest_def)
    then have "drop_expired_down now t p msg q2 = Panics" using drop_expired_below [OF q2(2)] True t by simp
    then show ?thesis using q1 q2(1) q3 True len t by auto
  qed
qed

text \<open>When a message finds its queue, and for a critical one also the channel, full.\<close>

definition finds_full :: "pmessage \<Rightarrow> pqueue \<Rightarrow> bool" where
  "finds_full msg q \<longleftrightarrow> unat (pm_Priority msg) < 5 \<and> pq_full (unat (pm_Priority msg)) q \<and>
     (pm_Priority msg = 0 \<longrightarrow> pc_FastPathEnabled (pq_config q) \<longrightarrow> 16 \<le> length (pq_criticalFast q))"

lemma Enqueue_full:
  assumes "pq_ok n q" and "finds_full msg q" and "p = unat (pm_Priority msg)"
  shows "pq_Enqueue clock msg q = (case handleQueueFull (clock 2) msg p q of
     Returns (b, q2) \<Rightarrow> Returns (b, if b then q2 else count_dropped p q2) | Blocks \<Rightarrow> Blocks | Panics \<Rightarrow> Panics)"
proof -
  have "enqueue_at p msg q = (False, q)" using assms by (intro enqueue_at_full) (auto simp: finds_full_def)
  moreover have "pq_Enqueue clock msg q = ring_path clock msg q"
    using assms(2) by (auto simp: pq_Enqueue_def finds_full_def fast_send_def)
  moreover have "p < 5" using assms(2,3) by (simp add: finds_full_def)
  ultimately show ?thesis by (simp add: ring_path_def Let_def flip: assms(3))
qed

text \<open>
  under the policy DropOldest a message always gets in: if its queue is full the oldest message of
  the same priority goes, and no message of another priority.
\<close>

theorem Enqueue_drop_oldest:
  assumes "pq_ok (Suc n) q" and "finds_full msg q" and "pc_DropPolicy (pq_config q) = DropOldest"
    and "p = unat (pm_Priority msg)" and "0 < pq_rooms q ! p"
  shows "\<exists>q'. pq_Enqueue clock msg q = Returns (True, q') \<and> pq_ok n q' \<and> same_rest q q' \<and>
    pq_lists q' = (pq_lists q)[p := tl (pq_lists q ! p) @ [msg]]"
proof -
  have p: "p < 5" and full: "pq_full p q" using assms(2,4) by (simp_all add: finds_full_def)
  let ?q = "q\<lparr>pq_stats := (pq_stats q)\<lparr>qs_QueueFullEvents := qs_QueueFullEvents (pq_stats q) + 1\<rparr>\<rparr>"
  have len: "length (pq_lists q) = 5" using assms(1) by (rule pq_lists_length)
  obtain x xs where x: "pq_lists q ! p = x # xs" using full assms(5) by (cases "pq_lists q ! p") (auto simp: pq_full_def)
  obtain q1 where q1: "dequeue_at p ?q = (Some x, q1)" "pq_ok (Suc n) q1" "same_rest q q1" "pq_lists q1 = (pq_lists q)[p := xs]"
    using dequeue_at_result [of "Suc n" ?q p] assms(1) p x by auto
  have "\<not> pq_full p q1" using full_after_dequeue(2) [OF assms(1) p _ q1(3)] q1(4) full x by simp
  then obtain q2 where q2: "enqueue_at p msg (count_dropped p q1) = (True, q2)" "pq_ok n q2" "same_rest q1 q2"
      "pq_lists q2 = (pq_lists q1)[p := pq_lists q1 ! p @ [msg]]"
    using enqueue_at_room [of n "count_dropped p q1" p msg] q1(2) p by auto
  have "handleQueueFull (clock 2) msg p q = Returns (True, q2)"
    using assms(3) q1(1) q2(1) by (simp add: handleQueueFull_def Let_def)
  then have "pq_Enqueue clock msg q = Returns (True, q2)" by (simp add: Enqueue_full [OF assms(1,2,4)])
  then show ?thesis using q2 q1 same_rest_trans len p x by auto
qed

lemma handle_low:
  "pc_DropPolicy (pq_config q) = DropLowPriority \<Longrightarrow> handleQueueFull now msg p q =
     Returns (drop_down p p 4 msg (q\<lparr>pq_stats := (pq_stats q)\<lparr>qs_QueueFullEvents := qs_QueueFullEvents (pq_stats q) + 1\<rparr>\<rparr>))"
  by (simp add: handleQueueFull_def dropLowerPriority_def Let_def)

lemma handle_never:
  "pc_DropPolicy (pq_config q) = DropNever \<Longrightarrow> p = unat (pm_Priority msg) \<Longrightarrow> p \<le> 1 \<Longrightarrow> handleQueueFull now msg p q =
     Returns (case drop_down 1 p 4 msg (q\<lparr>pq_stats := (pq_stats q)\<lparr>qs_QueueFullEvents := qs_QueueFullEvents (pq_stats q) + 1\<rparr>\<rparr>) of
       (True, q1) \<Rightarrow> (True, q1) | (False, q1) \<Rightarrow> handleOverflow msg q1)"
  by (simp add: handleQueueFull_def makeSpaceForCritical_def Let_def)

text \<open>Room made in other queues is no room: the message is given up, and those that made it.\<close>

lemma sacrifice_above:
  assumes "pq_ok n q" and "finds_full msg q" and "p = unat (pm_Priority msg)"
    and "pc_DropPolicy (pq_config q) = DropLowPriority \<and> low = p \<or> pc_DropPolicy (pq_config q) = DropNever \<and> p \<le> 1 \<and> low = 1"
  shows "\<exists>q'. pq_Enqueue clock msg q = Returns (False, q') \<and>
    pq_lists q' = map (\<lambda>i. if low < i then tl (pq_lists q ! i) else pq_lists q ! i) [0..<5] \<and> pq_criticalFast q' = pq_criticalFast q"
proof -
  let ?q = "q\<lparr>pq_stats := (pq_stats q)\<lparr>qs_QueueFullEvents := qs_QueueFullEvents (pq_stats q) + 1\<rparr>\<rparr>"
  have p: "p < 5" "pq_full p ?q" and le: "p \<le> low" using assms(2,3,4) by (auto simp: finds_full_def)
  obtain b q1 where d: "drop_down low p 4 msg ?q = (b, q1)" by fastforce
  have "map (\<lambda>i. if low < i \<and> i \<le> 4 then tl (pq_lists q ! i) else pq_lists q ! i) [0..<5] =
      map (\<lambda>i. if low < i then tl (pq_lists q ! i) else pq_lists q ! i) [0..<5]" by auto
  then have r: "\<not> b" "same_rest q q1" "pq_lists q1 = map (\<lambda>i. if low < i then tl (pq_lists q ! i) else pq_lists q ! i) [0..<5]"
    using drop_down_full [OF _ p(2) le _ d p(1)] assms(1) by simp_all
  have over: "handleOverflow msg q1 = (False, q1\<lparr>pq_stats := (pq_stats q1)\<lparr>qs_OverflowEvents := qs_OverflowEvents (pq_stats q1) + 1\<rparr>\<rparr>)"
    using assms(2) r(2) by (auto simp: handleOverflow_def fast_send_def finds_full_def same_rest_def Let_def)
  obtain q2 where q2: "handleQueueFull (clock 2) msg p q = Returns (False, q2)" "pq_lists q2 = pq_lists q1" "pq_criticalFast q2 = pq_criticalFast q1"
  proof (cases "pc_DropPolicy (pq_config q) = DropLowPriority")
    case True
    then show ?thesis using assms(4) d r(1) by (intro that [of q1]) (simp_all add: handle_low)
  next
    case False
    then show ?thesis using assms(3,4) d r(1) over
      by (intro that [of "q1\<lparr>pq_stats := (pq_stats q1)\<lparr>qs_OverflowEvents := qs_OverflowEvents (pq_stats q1) + 1\<rparr>\<rparr>"]) (simp_all add: handle_never)
  qed
  have "pq_Enqueue clock msg q = Returns (False, count_dropped p q2)"
    by (simp add: Enqueue_full [OF assms(1-3)] q2(1))
  then show ?thesis using q2 r by (auto simp: same_rest_def)
qed

text \<open>Under DropNever a message below the high priority is given up alone.\<close>

lemma never_below_high:
  assumes "pq_ok n q" and "finds_full msg q" and "p = unat (pm_Priority msg)"
    and "pc_DropPolicy (pq_config q) = DropNever" and "1 < p"
  shows "\<exists>q'. pq_Enqueue clock msg q = Returns (False, q') \<and> pq_lists q' = pq_lists q \<and> pq_criticalFast q' = pq_criticalFast q"
  using assms(4,5) by (simp add: Enqueue_full [OF assms(1-3)] handleQueueFull_def Let_def)

text \<open>
  C35: what a full queue costs under two of the drop policies. A message that finds its queue full, and
  if it is critical the channel too, is lost, also a critical one. Under DropLowPriority the oldest
  message of every lower priority that has one is lost with it; under DropNever a critical or high
  message costs the oldest message of each of the three priorities below high, and any other costs
  none: the messages given up make room in other queues than the one that is full.
\<close>

theorem Enqueue_sacrifices:
  assumes "pq_ok n q" and "finds_full msg q" and "p = unat (pm_Priority msg)"
    and "pc_DropPolicy (pq_config q) \<in> {DropLowPriority, DropNever}"
  shows "\<exists>q'. pq_Enqueue clock msg q = Returns (False, q') \<and> pq_criticalFast q' = pq_criticalFast q \<and>
    pq_lists q' = map (\<lambda>i. if (if pc_DropPolicy (pq_config q) = DropLowPriority then p < i else p \<le> 1 \<and> 1 < i)
      then tl (pq_lists q ! i) else pq_lists q ! i) [0..<5]"
proof -
  consider (low) "pc_DropPolicy (pq_config q) = DropLowPriority"
    | (high) "pc_DropPolicy (pq_config q) = DropNever" "p \<le> 1"
    | (below) "pc_DropPolicy (pq_config q) = DropNever" "1 < p" using assms(4) by force
  then show ?thesis
  proof cases
    case low
    then show ?thesis using sacrifice_above [OF assms(1-3), of p clock] by auto
  next
    case high
    then have "pc_DropPolicy (pq_config q) \<noteq> DropLowPriority" by simp
    then show ?thesis using sacrifice_above [OF assms(1-3), of 1 clock] high by auto
  next
    case below
    have "pq_lists q = map (\<lambda>i. pq_lists q ! i) [0..<5]"
      using pq_lists_length [OF assms(1)] by (metis map_nth)
    moreover have "pc_DropPolicy (pq_config q) \<noteq> DropLowPriority" using below by simp
    ultimately show ?thesis using never_below_high [OF assms(1-3) below, of clock] below by auto
  qed
qed

text \<open>
  C36: under the policy DropExpired a message that finds its queue full gets in exactly if the oldest
  message of the same priority has expired, and else the call panics: the loop over the priorities
  counts down an unsigned number and does not end at 0.
\<close>

theorem Enqueue_expired_panics:
  assumes "pq_ok 5 q" and "finds_full msg q" and "p = unat (pm_Priority msg)"
    and "pc_DropPolicy (pq_config q) = DropExpired" and "pq_lists q ! p = x # xs"
  shows "if 0 < pm_ExpiresAt x \<and> pm_ExpiresAt x < clock 2
    then \<exists>q'. pq_Enqueue clock msg q = Returns (True, q') \<and> pq_lists q' ! p = xs @ [msg]
    else pq_Enqueue clock msg q = Panics"
proof -
  let ?q = "q\<lparr>pq_stats := (pq_stats q)\<lparr>qs_QueueFullEvents := qs_QueueFullEvents (pq_stats q) + 1\<rparr>\<rparr>"
  have "handleQueueFull (clock 2) msg p q = drop_expired_down (clock 2) p 5 msg ?q"
    using assms(4) by (simp add: handleQueueFull_def dropExpiredMessages_def Let_def)
  then have e: "pq_Enqueue clock msg q = (case drop_expired_down (clock 2) p 5 msg ?q of
     Returns (b, q2) \<Rightarrow> Returns (b, if b then q2 else count_dropped p q2) | Blocks \<Rightarrow> Blocks | Panics \<Rightarrow> Panics)"
    by (simp add: Enqueue_full [OF assms(1-3)])
  have "p < 5" "pq_full p q" using assms(2,3) by (simp_all add: finds_full_def)
  then have "if 0 < pm_ExpiresAt x \<and> pm_ExpiresAt x < clock 2
      then \<exists>q'. drop_expired_down (clock 2) p 5 msg ?q = Returns (True, q') \<and> pq_lists q' ! p = xs @ [msg]
      else drop_expired_down (clock 2) p 5 msg ?q = Panics"
    using drop_expired_result [of 0 5 ?q p x xs "clock 2" msg] assms(1,5) by simp
  then show ?thesis using e by (auto split: if_splits)
qed

text \<open>The order in which the messages would leave now.\<close>

definition pq_order :: "pqueue \<Rightarrow> pmessage list" where
  "pq_order q = (if pc_FastPathEnabled (pq_config q) then pq_criticalFast q else []) @ concat (pq_lists q)"

text \<open>
  critical messages may overtake each other: one that arrives while the channel has room goes
  before all messages of the rings, also before earlier critical ones that found the channel full.
\<close>

theorem critical_overtakes:
  assumes "pq_ok n q" and "pm_Priority msg = 0" and "pc_FastPathEnabled (pq_config q)" and "length (pq_criticalFast q) < 16"
  shows "\<exists>q'. pq_Enqueue clock msg q = Returns (True, q') \<and> pq_order q' = pq_criticalFast q @ [msg] @ concat (pq_lists q)"
proof -
  let ?q1 = "q\<lparr>pq_criticalFast := pq_criticalFast q @ [msg]\<rparr>"
  let ?q' = "count_enqueued 0 (?q1\<lparr>pq_stats := (pq_stats ?q1)\<lparr>qs_FastPathUsed := qs_FastPathUsed (pq_stats ?q1) + 1\<rparr>\<rparr>)"
  have "pq_lists ?q' = pq_lists q" by (simp add: count_enqueued_def pq_lists_def)
  moreover have "pq_Enqueue clock msg q = Returns (True, ?q')"
    using assms by (simp add: pq_Enqueue_def fast_send_def)
  ultimately show ?thesis
    using assms(3) by (intro exI [of _ ?q']) (simp add: pq_order_def count_enqueued_def)
qed

section \<open>Examples\<close>

text \<open>Five rings for one message each.\<close>

definition demo_ring :: "'m option \<Rightarrow> 'm ring" where
  "demo_ring m = \<lparr>rb_buffer = [m], rb_mask = 0, rb_writePos = (if m = None then 0 else 1), rb_readPos = 0, rb_capacity = 1\<rparr>"

definition demo_msg :: "8 word \<Rightarrow> time \<Rightarrow> pmessage" where
  "demo_msg p t = \<lparr>pm_Data = [], pm_Topic = ''trades'', pm_Priority = p, pm_Timestamp = 0, pm_ClientID = ''c'', pm_MessageID = 1,
     pm_ExpiresAt = t, pm_Attempts = 0, pm_IsRetransmit = False\<rparr>"

definition demo_queue :: "int \<Rightarrow> pmessage option list \<Rightarrow> pqueue" where
  "demo_queue policy ms = \<lparr>pq_queues = map demo_ring ms, pq_criticalFast = [], pq_stats = zero_stats,
     pq_config = \<lparr>pc_InitialCapacity = 1, pc_FastPathEnabled = False, pc_DropPolicy = policy\<rparr>\<rparr>"

lemma demo_ring_ok [simp]: "ring_ok 10 (demo_ring m)"
  unfolding ring_ok_def by (rule exI [of _ 0]) (simp add: demo_ring_def)

lemma demo_ring_items [simp]: "ring_items (demo_ring m) = (case m of None \<Rightarrow> [] | Some x \<Rightarrow> [x])" "ring_room (demo_ring m) = 1"
  by (auto simp: ring_items_def ring_room_def demo_ring_def upt_rec split: option.splits)

lemma pq_ok_le: "pq_ok n q \<Longrightarrow> m \<le> n \<Longrightarrow> pq_ok m q"
  by (auto simp: pq_ok_def ring_ok_def)

lemma demo_queue_facts [simp]:
  "length ms = 5 \<Longrightarrow> pq_ok 10 (demo_queue policy ms)" "pq_config (demo_queue policy ms) = \<lparr>pc_InitialCapacity = 1,
     pc_FastPathEnabled = False, pc_DropPolicy = policy\<rparr>" "pq_criticalFast (demo_queue policy ms) = []"
  "pq_lists (demo_queue policy ms) = map (\<lambda>m. case m of None \<Rightarrow> [] | Some x \<Rightarrow> [x]) ms"
  "pq_rooms (demo_queue policy ms) = map (\<lambda>m. 1) ms"
  by (auto simp: demo_queue_def pq_ok_def pq_lists_def pq_rooms_def)

lemma demo_full: "finds_full (demo_msg 0 t) (demo_queue policy (Some x # ms))"
  by (simp add: finds_full_def demo_msg_def pq_full_def)

theorem pq_Dequeue_highest_witness:
  "\<exists>q'. pq_Dequeue (demo_queue 0 [None, Some (demo_msg 1 0), None, None, Some (demo_msg 4 0)]) = (Some (demo_msg 1 0), q')"
proof -
  let ?q = "demo_queue 0 [None, Some (demo_msg 1 0), None, None, Some (demo_msg 4 0)]"
  obtain r q' where r: "pq_Dequeue ?q = (r, q')" by fastforce
  have "pq_ok 10 ?q" by simp
  from pq_Dequeue_highest [OF this r] obtain p x xs where
    "r = None \<and> (\<forall>p < 5. pq_lists ?q ! p = []) \<or> p < 5 \<and> (\<forall>i < p. pq_lists ?q ! i = []) \<and> pq_lists ?q ! p = x # xs \<and> r = Some x"
    by auto
  moreover have "pq_lists ?q ! 1 \<noteq> []" "pq_lists ?q ! 0 = []" by simp_all
  ultimately have p: "p < 5" "\<forall>i < p. pq_lists ?q ! i = []" "pq_lists ?q ! p = x # xs" "r = Some x" by (auto simp del: demo_queue_facts)
  then have "p \<noteq> 0" "\<not> 1 < p" using \<open>pq_lists ?q ! 0 = []\<close> \<open>pq_lists ?q ! 1 \<noteq> []\<close> by (metis list.distinct(1), metis)
  then have "p = 1" by simp
  then show ?thesis using p r by simp
qed

theorem Enqueue_drop_oldest_witness:
  "\<exists>q'. pq_Enqueue int (demo_msg 0 7) (demo_queue 0 [Some (demo_msg 0 0), None, None, None, None]) = Returns (True, q') \<and>
     pq_lists q' = [[demo_msg 0 7], [], [], [], []]"
proof -
  let ?q = "demo_queue 0 [Some (demo_msg 0 0), None, None, None, None]"
  have "pq_ok (Suc 9) ?q" by (rule pq_ok_le [of 10]) simp_all
  from Enqueue_drop_oldest [OF this demo_full _ refl, where clock = int] show ?thesis by (auto simp: demo_msg_def)
qed

theorem Enqueue_sacrifices_witness:
  "\<exists>q'. pq_Enqueue int (demo_msg 0 7) (demo_queue 1 [Some (demo_msg 0 0), Some (demo_msg 1 0), None, None, Some (demo_msg 4 0)]) =
     Returns (False, q') \<and> pq_lists q' = [[demo_msg 0 0], [], [], [], []]"
proof -
  let ?q = "demo_queue 1 [Some (demo_msg 0 0), Some (demo_msg 1 0), None, None, Some (demo_msg 4 0)]"
  have ok: "pq_ok 10 ?q" by simp
  have upt: "[0..<5] = [0, 1, 2, 3, 4 :: nat]" by (simp add: upt_rec)
  have prio: "unat (pm_Priority (demo_msg 0 7)) = 0" by (simp add: demo_msg_def)
  have full: "finds_full (demo_msg 0 7) ?q" by (rule demo_full)
  have policy: "pc_DropPolicy (pq_config ?q) = DropLowPriority" by (simp add: demo_queue_def)
  obtain q' where "pq_Enqueue int (demo_msg 0 7) ?q = Returns (False, q')"
      "pq_lists q' = map (\<lambda>i. if 0 < i then tl (pq_lists ?q ! i) else pq_lists ?q ! i) [0..<5]"
    using Enqueue_sacrifices [OF ok full prio [symmetric], of int] policy by auto
  then show ?thesis by (auto simp: upt)
qed

theorem Enqueue_expired_panics_witness:
  "pq_Enqueue int (demo_msg 0 7) (demo_queue 2 [Some (demo_msg 0 0), None, None, None, None]) = Panics"
proof -
  let ?q = "demo_queue 2 [Some (demo_msg 0 0), None, None, None, None]"
  have ok: "pq_ok 5 ?q" by (rule pq_ok_le [of 10]) simp_all
  show ?thesis
    using Enqueue_expired_panics [OF ok demo_full refl, where x = "demo_msg 0 0" and xs = "[]" and clock = int]
    by (simp add: demo_msg_def)
qed

theorem critical_overtakes_witness:
  "\<exists>q'. pq_Enqueue int (demo_msg 0 7) (demo_queue 0 [Some (demo_msg 0 0), None, None, None, None]
        \<lparr>pq_config := default_pq_config\<rparr>) = Returns (True, q') \<and> pq_order q' = [demo_msg 0 7, demo_msg 0 0]"
proof -
  let ?q = "demo_queue 0 [Some (demo_msg 0 0), None, None, None, None] \<lparr>pq_config := default_pq_config\<rparr>"
  have "pq_ok 10 ?q" and "pq_lists ?q = [[demo_msg 0 0], [], [], [], []]"
    by (simp_all add: demo_queue_def pq_ok_def pq_lists_def)
  then show ?thesis
    using critical_overtakes [of 10 ?q "demo_msg 0 7" int] by (simp add: demo_msg_def default_pq_config_def demo_queue_def)
qed

end
