(* ===== verification/Partitions.thy ===== *)
theory Partitions
  imports Prelude
begin

text \<open>
  Network partitions of the consensus cluster: the detector of
  \<open>internal/trading/consensus/partition_detector.go\<close> and the resolver of
  \<open>internal/trading/consensus/split_brain_resolver.go\<close>. Pings and the clock are inputs; ratios of
  numbers of nodes are exact, which for clusters of any real size decides the comparisons as the
  floating-point division does.
\<close>

section \<open>The partition detector\<close>

record node_connectivity =
  nc_NodeID :: string
  nc_LastSuccessfulPing :: time
  nc_ConsecutiveFailures :: nat
  nc_AverageLatency :: duration
  nc_IsReachable :: bool
  nc_LastError :: string

datatype severity = LowSeverity | MediumSeverity | HighSeverity | CriticalSeverity

record network_partition =
  np_DetectedAt :: time
  np_PartitionID :: string
  np_MyPartition :: "string list"
  np_OtherPartitions :: "string list list"
  np_HasSplitBrain :: bool
  np_QuorumLost :: bool
  np_SeverityLevel :: severity
  np_ResolvedAt :: "time option"

text \<open>The current partition is the pointer to an entry of the history: its index.\<close>

record detector =
  pd_nodeID :: string
  pd_partitionThreshold :: nat
  pd_nodeConnectivity :: "string \<rightharpoonup> node_connectivity"
  pd_lastFullConnectivity :: time
  pd_currentPartition :: "nat option"
  pd_partitionHistory :: "network_partition list"

definition NewPartitionDetector :: "string \<Rightarrow> detector" where
  "NewPartitionDetector nodeID = \<lparr>pd_nodeID = nodeID, pd_partitionThreshold = 3, pd_nodeConnectivity = Map.empty,
     pd_lastFullConnectivity = 0, pd_currentPartition = None, pd_partitionHistory = []\<rparr>"

definition new_connectivity :: "string \<Rightarrow> bool \<Rightarrow> node_connectivity" where
  "new_connectivity nodeID reachable = \<lparr>nc_NodeID = nodeID, nc_LastSuccessfulPing = 0, nc_ConsecutiveFailures = 0,
     nc_AverageLatency = 0, nc_IsReachable = reachable, nc_LastError = []\<rparr>"

definition StartMonitoring :: "time \<Rightarrow> string list \<Rightarrow> detector \<Rightarrow> detector" where
  "StartMonitoring now clusterNodes pd =
     pd\<lparr>pd_nodeConnectivity := foldl (\<lambda>m n. if n \<noteq> pd_nodeID pd then m(n \<mapsto> new_connectivity n True) else m) (pd_nodeConnectivity pd) clusterNodes,
        pd_lastFullConnectivity := now\<rparr>"

text \<open>A ping: its latency, the error of its connection if it failed, and the time it ended.\<close>

definition pingNode :: "duration \<Rightarrow> string option \<Rightarrow> time \<Rightarrow> string \<Rightarrow> detector \<Rightarrow> detector" where
  "pingNode latency err now nodeID pd =
     (let c = (case pd_nodeConnectivity pd nodeID of None \<Rightarrow> new_connectivity nodeID False | Some c \<Rightarrow> c);
          c' = (case err of
                  Some e \<Rightarrow> c\<lparr>nc_ConsecutiveFailures := nc_ConsecutiveFailures c + 1, nc_IsReachable := False, nc_LastError := e\<rparr>
                | None \<Rightarrow> c\<lparr>nc_ConsecutiveFailures := 0, nc_IsReachable := True, nc_LastSuccessfulPing := now, nc_LastError := [],
                    nc_AverageLatency := (if nc_AverageLatency c = 0 then latency else (nc_AverageLatency c + latency) div 2)\<rparr>)
      in pd\<lparr>pd_nodeConnectivity := (pd_nodeConnectivity pd)(nodeID \<mapsto> c')\<rparr>)"

definition quorum_of :: "nat \<Rightarrow> nat" where
  "quorum_of n = n div 2 + 1"

definition detectSplitBrain :: "nat \<Rightarrow> nat \<Rightarrow> nat \<Rightarrow> bool" where
  "detectSplitBrain reachableCount unreachableCount totalNodes =
     (if reachableCount \<ge> quorum_of totalNodes \<and> unreachableCount \<ge> quorum_of totalNodes then True
      else if reachableCount > 1 \<and> unreachableCount > 1 then
        (let ratio = rat_of_nat reachableCount / rat_of_nat unreachableCount in ratio \<ge> 1 / 2 \<and> ratio \<le> 2)
      else False)"

definition calculateSeverity :: "nat \<Rightarrow> nat \<Rightarrow> severity" where
  "calculateSeverity reachableNodes totalNodes =
     (let ratio = rat_of_nat reachableNodes / rat_of_nat totalNodes
      in if ratio \<ge> 8 / 10 then LowSeverity else if ratio \<ge> 6 / 10 then MediumSeverity
         else if ratio \<ge> 4 / 10 then HighSeverity else CriticalSeverity)"

definition generatePartitionID :: "time \<Rightarrow> detector \<Rightarrow> string" where
  "generatePartitionID now pd = ''partition-'' @ pd_nodeID pd @ ''-'' @ show_int (now div second)"

text \<open>Whether the analysis counts a node among those it cannot reach.\<close>

definition unreachable :: "detector \<Rightarrow> string \<Rightarrow> bool" where
  "unreachable pd nodeID =
     (case pd_nodeConnectivity pd nodeID of
        None \<Rightarrow> True
      | Some c \<Rightarrow> \<not> nc_IsReachable c \<or> nc_ConsecutiveFailures c \<ge> pd_partitionThreshold pd)"

definition reachable_nodes :: "detector \<Rightarrow> string list \<Rightarrow> string list" where
  "reachable_nodes pd clusterNodes = pd_nodeID pd # filter (\<lambda>n. n \<noteq> pd_nodeID pd \<and> \<not> unreachable pd n) clusterNodes"

definition unreachable_nodes :: "detector \<Rightarrow> string list \<Rightarrow> string list" where
  "unreachable_nodes pd clusterNodes = filter (\<lambda>n. n \<noteq> pd_nodeID pd \<and> unreachable pd n) clusterNodes"

definition new_partition :: "time \<Rightarrow> string list \<Rightarrow> detector \<Rightarrow> network_partition" where
  "new_partition now clusterNodes pd =
     (let reach = reachable_nodes pd clusterNodes; unreach = unreachable_nodes pd clusterNodes
      in \<lparr>np_DetectedAt = now, np_PartitionID = generatePartitionID now pd, np_MyPartition = reach,
          np_OtherPartitions = map (\<lambda>n. [n]) unreach,
          np_HasSplitBrain = detectSplitBrain (length reach) (length unreach) (length clusterNodes),
          np_QuorumLost = (length reach < quorum_of (length clusterNodes)),
          np_SeverityLevel = calculateSeverity (length reach) (length clusterNodes), np_ResolvedAt = None\<rparr>)"

definition analyzePartitionState :: "time \<Rightarrow> string list \<Rightarrow> detector \<Rightarrow> detector" where
  "analyzePartitionState now clusterNodes pd =
     (if unreachable_nodes pd clusterNodes \<noteq> [] then
        (case pd_currentPartition pd of
           None \<Rightarrow> pd\<lparr>pd_currentPartition := Some (length (pd_partitionHistory pd)),
               pd_partitionHistory := pd_partitionHistory pd @ [new_partition now clusterNodes pd]\<rparr>
         | Some i \<Rightarrow> pd)
      else
        (case pd_currentPartition pd of
           None \<Rightarrow> pd
         | Some i \<Rightarrow> pd\<lparr>pd_partitionHistory := (pd_partitionHistory pd)[i := (pd_partitionHistory pd ! i)\<lparr>np_ResolvedAt := Some now\<rparr>],
               pd_currentPartition := None, pd_lastFullConnectivity := now\<rparr>))"

text \<open>A tick of the monitor: the pings of the other nodes in the order they end, and the analysis.\<close>

definition monitor_tick :: "(string \<times> duration \<times> string option \<times> time) list \<Rightarrow> time \<Rightarrow> string list \<Rightarrow> detector \<Rightarrow> detector" where
  "monitor_tick pings now clusterNodes pd =
     analyzePartitionState now clusterNodes
       (foldl (\<lambda>pd (n, latency, err, t). if n \<in> set clusterNodes \<and> n \<noteq> pd_nodeID pd then pingNode latency err t n pd else pd) pd pings)"

definition DetectPartition :: "detector \<Rightarrow> string + network_partition" where
  "DetectPartition pd =
     (case pd_currentPartition pd of
        None \<Rightarrow> Inl ''no partition currently detected'' | Some i \<Rightarrow> Inr (pd_partitionHistory pd ! i))"

definition IsPartitioned :: "detector \<Rightarrow> bool" where
  "IsPartitioned pd \<longleftrightarrow> pd_currentPartition pd \<noteq> None"

definition pd_HasQuorum :: "nat \<Rightarrow> detector \<Rightarrow> bool" where
  "pd_HasQuorum totalNodes pd =
     (case pd_currentPartition pd of
        None \<Rightarrow> True | Some i \<Rightarrow> length (np_MyPartition (pd_partitionHistory pd ! i)) \<ge> quorum_of totalNodes)"

section \<open>The split-brain resolver\<close>

datatype resolution_strategy =
    NodePriorityStrategy | LastCommitStrategy | ManualInterventionStrategy | QuorumSizeStrategy
  | NodeIdLexicographicStrategy | EmergencyShutdownStrategy

datatype resolution_status = ResolutionPending | ResolutionInProgress | ResolutionCompleted | ResolutionFailed | ResolutionTimedOut

record resolution_attempt =
  ra_PartitionID :: string
  ra_StartedAt :: time
  ra_Strategy :: resolution_strategy
  ra_Participants :: "string list"
  ra_Status :: resolution_status

record resolution_result =
  rr_PartitionID :: string
  rr_Strategy :: resolution_strategy
  rr_StartedAt :: time
  rr_CompletedAt :: time
  rr_Success :: bool
  rr_WinningPartition :: "string list"
  rr_DeactivatedNodes :: "string list"
  rr_Error :: string

record resolver =
  sb_nodeID :: string
  sb_priorityWeights :: "string \<rightharpoonup> rat"
  sb_activeResolutions :: "string \<rightharpoonup> resolution_attempt"
  sb_resolutionHistory :: "resolution_result list"

definition NewSplitBrainResolver :: "string \<Rightarrow> resolver" where
  "NewSplitBrainResolver nodeID = \<lparr>sb_nodeID = nodeID,
     sb_priorityWeights = [''leader_history'' \<mapsto> 3 / 10, ''operational_load'' \<mapsto> 2 / 10, ''node_stability'' \<mapsto> 2 / 10,
       ''data_freshness'' \<mapsto> 2 / 10, ''manual_priority'' \<mapsto> 1 / 10],
     sb_activeResolutions = Map.empty, sb_resolutionHistory = []\<rparr>"

definition selectResolutionStrategy :: "network_partition \<Rightarrow> resolution_strategy" where
  "selectResolutionStrategy p =
     (case np_SeverityLevel p of
        CriticalSeverity \<Rightarrow> ManualInterventionStrategy | HighSeverity \<Rightarrow> LastCommitStrategy
      | MediumSeverity \<Rightarrow> NodePriorityStrategy | LowSeverity \<Rightarrow> QuorumSizeStrategy)"

text \<open>The score of a node; \<open>fl\<close> rounds a number to a floating-point one, a missing weight is 0.\<close>

definition weight :: "resolver \<Rightarrow> string \<Rightarrow> rat" where
  "weight sbr k = (case sb_priorityWeights sbr k of None \<Rightarrow> 0 | Some x \<Rightarrow> x)"

definition calculateNodePriority :: "(rat \<Rightarrow> rat) \<Rightarrow> resolver \<Rightarrow> string \<Rightarrow> rat" where
  "calculateNodePriority fl sbr nodeID =
     (let times = (\<lambda>k c. fl (fl (weight sbr k) * fl c)); plus = (\<lambda>a b. fl (a + b));
          s1 = plus 0 (times ''leader_history'' (if nodeID = sb_nodeID sbr then 8 / 10 else 5 / 10));
          s2 = plus s1 (times ''node_stability'' (7 / 10));
          s3 = plus s2 (times ''operational_load'' (6 / 10))
      in plus s3 (times ''data_freshness'' (8 / 10)))"

text \<open>The loop over the scores in the order \<open>ids\<close> of the map, which the runtime chooses.\<close>

fun highest_node :: "(string \<Rightarrow> rat) \<Rightarrow> string \<times> rat \<Rightarrow> string list \<Rightarrow> string \<times> rat" where
  "highest_node score best [] = best"
| "highest_node score best (n # ns) = highest_node score (if score n > snd best then (n, score n) else best) ns"

definition resolveByNodePriority :: "(rat \<Rightarrow> rat) \<Rightarrow> string list \<Rightarrow> resolver \<Rightarrow> network_partition \<Rightarrow> resolution_result \<Rightarrow>
    string option \<times> resolution_result" where
  "resolveByNodePriority fl ids sbr p r =
     (let highestNode = fst (highest_node (calculateNodePriority fl sbr) ([], 0) ids)
      in if highestNode = sb_nodeID sbr then (None, r\<lparr>rr_WinningPartition := np_MyPartition p\<rparr>)
         else (None, r\<lparr>rr_DeactivatedNodes := [sb_nodeID sbr], rr_WinningPartition := [highestNode]\<rparr>))"

definition getLastCommitTime :: "time \<Rightarrow> time" where
  "getLastCommitTime now = now - 2 * minute"

definition resolveByLastCommit :: "time \<Rightarrow> time \<Rightarrow> network_partition \<Rightarrow> resolution_result \<Rightarrow> string option \<times> resolution_result" where
  "resolveByLastCommit t0 t1 p r =
     (if t1 - getLastCommitTime t0 < 5 * minute then (None, r\<lparr>rr_WinningPartition := np_MyPartition p\<rparr>)
      else (None, r\<lparr>rr_DeactivatedNodes := np_MyPartition p\<rparr>))"

definition resolveByManualIntervention :: "network_partition \<Rightarrow> resolution_result \<Rightarrow> string option \<times> resolution_result" where
  "resolveByManualIntervention p r =
     (Some ''manual intervention required'', r\<lparr>rr_DeactivatedNodes := np_MyPartition p,
        rr_Error := ''Manual intervention required - automatically deactivating for safety''\<rparr>)"

definition resolveByQuorumSize :: "network_partition \<Rightarrow> resolution_result \<Rightarrow> string option \<times> resolution_result" where
  "resolveByQuorumSize p r =
     (let totalNodes = length (np_MyPartition p) + sum_list (map length (np_OtherPartitions p))
      in if length (np_MyPartition p) \<ge> quorum_of totalNodes then (None, r\<lparr>rr_WinningPartition := np_MyPartition p\<rparr>)
         else (None, r\<lparr>rr_DeactivatedNodes := np_MyPartition p\<rparr>))"

text \<open>Go compares strings byte by byte; an empty partition has no first node.\<close>

fun id_less :: "string \<Rightarrow> string \<Rightarrow> bool" where
  "id_less xs [] = False"
| "id_less [] (y # ys) = True"
| "id_less (x # xs) (y # ys) = (of_char x < (of_char y :: nat) \<or> x = y \<and> id_less xs ys)"

fun smallest_node :: "string \<Rightarrow> string list \<Rightarrow> string" where
  "smallest_node best [] = best"
| "smallest_node best (n # ns) = smallest_node (if id_less n best then n else best) ns"

definition resolveByNodeIdLexicographic :: "resolver \<Rightarrow> network_partition \<Rightarrow> resolution_result \<Rightarrow> (string option \<times> resolution_result) outcome" where
  "resolveByNodeIdLexicographic sbr p r =
     (case np_MyPartition p of
        [] \<Rightarrow> Panics
      | n # ns \<Rightarrow>
          (let smallestNode = smallest_node n ns
           in Returns (if smallestNode = sb_nodeID sbr then (None, r\<lparr>rr_WinningPartition := np_MyPartition p\<rparr>)
                else (None, r\<lparr>rr_DeactivatedNodes := [sb_nodeID sbr], rr_WinningPartition := [smallestNode]\<rparr>))))"

definition resolveByEmergencyShutdown :: "network_partition \<Rightarrow> resolution_result \<Rightarrow> string option \<times> resolution_result" where
  "resolveByEmergencyShutdown p r = (None, r\<lparr>rr_DeactivatedNodes := np_MyPartition p\<rparr>)"

text \<open>\<open>clock\<close> gives the times of the start of the attempt, of the result, of the strategy's two readings and of the end.\<close>

definition executeResolution :: "(rat \<Rightarrow> rat) \<Rightarrow> string list \<Rightarrow> (nat \<Rightarrow> time) \<Rightarrow> resolver \<Rightarrow> resolution_attempt \<Rightarrow> network_partition \<Rightarrow>
    resolution_result outcome" where
  "executeResolution fl ids clock sbr a p =
     (let r = \<lparr>rr_PartitionID = np_PartitionID p, rr_Strategy = ra_Strategy a, rr_StartedAt = ra_StartedAt a, rr_CompletedAt = clock 1,
            rr_Success = False, rr_WinningPartition = [], rr_DeactivatedNodes = [], rr_Error = []\<rparr>;
          finish = (\<lambda>(err, r). (r\<lparr>rr_CompletedAt := clock 4\<rparr>) \<lparr>rr_Error := (case err of Some e \<Rightarrow> e | None \<Rightarrow> rr_Error r), rr_Success := (err = None)\<rparr>)
      in case ra_Strategy a of
           NodePriorityStrategy \<Rightarrow> Returns (finish (resolveByNodePriority fl ids sbr p r))
         | LastCommitStrategy \<Rightarrow> Returns (finish (resolveByLastCommit (clock 2) (clock 3) p r))
         | ManualInterventionStrategy \<Rightarrow> Returns (finish (resolveByManualIntervention p r))
         | QuorumSizeStrategy \<Rightarrow> Returns (finish (resolveByQuorumSize p r))
         | NodeIdLexicographicStrategy \<Rightarrow>
             (case resolveByNodeIdLexicographic sbr p r of Returns x \<Rightarrow> Returns (finish x) | Blocks \<Rightarrow> Blocks | Panics \<Rightarrow> Panics)
         | EmergencyShutdownStrategy \<Rightarrow> Returns (finish (resolveByEmergencyShutdown p r)))"

definition new_attempt :: "time \<Rightarrow> network_partition \<Rightarrow> resolution_attempt" where
  "new_attempt now p = \<lparr>ra_PartitionID = np_PartitionID p, ra_StartedAt = now, ra_Strategy = selectResolutionStrategy p,
     ra_Participants = np_MyPartition p, ra_Status = ResolutionPending\<rparr>"

definition ResolveSplitBrain :: "(rat \<Rightarrow> rat) \<Rightarrow> string list \<Rightarrow> (nat \<Rightarrow> time) \<Rightarrow> network_partition \<Rightarrow> resolver \<Rightarrow>
    (string option \<times> resolver) outcome" where
  "ResolveSplitBrain fl ids clock p sbr =
     (if sb_activeResolutions sbr (np_PartitionID p) \<noteq> None
      then Returns (Some (''resolution already in progress for partition '' @ np_PartitionID p), sbr)
      else case executeResolution fl ids clock sbr (new_attempt (clock 0) p) p of
             Returns r \<Rightarrow>
               Returns (if rr_Success r then None else Some (''split-brain resolution failed: '' @ rr_Error r),
                 sbr\<lparr>sb_activeResolutions := (sb_activeResolutions sbr)(np_PartitionID p := None),
                     sb_resolutionHistory := sb_resolutionHistory sbr @ [r]\<rparr>)
           | Blocks \<Rightarrow> Blocks
           | Panics \<Rightarrow> Panics)"

definition SetPriorityWeights :: "(string \<rightharpoonup> rat) \<Rightarrow> resolver \<Rightarrow> resolver" where
  "SetPriorityWeights weights sbr = sbr\<lparr>sb_priorityWeights := sb_priorityWeights sbr ++ weights\<rparr>"

end
