(* ===== verification/PartitionTheorems.thy ===== *)
theory PartitionTheorems
  imports Partitions
begin

text \<open>
  Theorems on partitions of the consensus cluster: what counts as unreachable, how long a partition is
  taken to have a quorum, and what the resolvers on the two sides of a split decide.
\<close>

section \<open>Quorums\<close>

text \<open>What a quorum is for: any two have a common member.\<close>

locale quorum_system =
  fixes quorum :: "'a set \<Rightarrow> bool"
  assumes intersect: "quorum S \<Longrightarrow> quorum T \<Longrightarrow> S \<inter> T \<noteq> {}"
begin

lemma not_disjoint: "quorum S \<Longrightarrow> S \<inter> T = {} \<Longrightarrow> \<not> quorum T"
  using intersect by blast

lemma common_member:
  assumes "quorum {n. f n = Some x}" and "quorum {n. g n = Some y}"
  obtains n where "f n = Some x" and "g n = Some y"
  using intersect [OF assms] by auto

end

definition is_majority :: "'a list \<Rightarrow> 'a set \<Rightarrow> bool" where
  "is_majority cluster S \<longleftrightarrow> S \<subseteq> set cluster \<and> quorum_of (length cluster) \<le> card S"

interpretation majority: quorum_system "is_majority cluster" for cluster :: "'a list"
proof
  fix S T :: "'a set"
  assume S: "is_majority cluster S" and T: "is_majority cluster T"
  have fin: "finite S" "finite T" using S T finite_subset by (auto simp: is_majority_def)
  show "S \<inter> T \<noteq> {}"
  proof
    assume "S \<inter> T = {}"
    then have "card S + card T = card (S \<union> T)" using fin by (simp add: card_Un_disjoint)
    also have "\<dots> \<le> card (set cluster)" using S T by (intro card_mono) (auto simp: is_majority_def)
    also have "\<dots> \<le> length cluster" by (rule card_length)
    finally show False using S T by (auto simp: is_majority_def quorum_of_def)
  qed
qed

section \<open>What counts as unreachable\<close>

definition failures_noted :: "detector \<Rightarrow> bool" where
  "failures_noted pd \<longleftrightarrow> (\<forall>n c. pd_nodeConnectivity pd n = Some c \<longrightarrow> 0 < nc_ConsecutiveFailures c \<longrightarrow> \<not> nc_IsReachable c)"

lemma failures_New: "failures_noted (NewPartitionDetector nodeID)"
  by (simp add: failures_noted_def NewPartitionDetector_def)

lemma fold_connectivity:
  assumes "\<forall>n c. m n = Some c \<longrightarrow> 0 < nc_ConsecutiveFailures c \<longrightarrow> \<not> nc_IsReachable c"
  shows "\<forall>n c. foldl (\<lambda>m n. if n \<noteq> me then m(n \<mapsto> new_connectivity n True) else m) m ns n = Some c \<longrightarrow>
    0 < nc_ConsecutiveFailures c \<longrightarrow> \<not> nc_IsReachable c"
  using assms
proof (induction ns arbitrary: m)
  case (Cons x ns)
  have "\<forall>n c. (if x \<noteq> me then m(x \<mapsto> new_connectivity x True) else m) n = Some c \<longrightarrow>
      0 < nc_ConsecutiveFailures c \<longrightarrow> \<not> nc_IsReachable c"
    using Cons.prems by (auto simp: new_connectivity_def)
  from Cons.IH [OF this] show ?case by simp
qed simp

lemma failures_Start: "failures_noted pd \<Longrightarrow> failures_noted (StartMonitoring now ns pd)"
  using fold_connectivity [of "pd_nodeConnectivity pd" "pd_nodeID pd" ns] by (simp add: failures_noted_def StartMonitoring_def)

lemma failures_ping: "failures_noted pd \<Longrightarrow> failures_noted (pingNode l e t n pd)"
  by (auto simp: failures_noted_def pingNode_def Let_def split: option.splits if_splits)

lemma failures_analyze: "failures_noted pd \<Longrightarrow> failures_noted (analyzePartitionState now ns pd)"
  by (auto simp: failures_noted_def analyzePartitionState_def split: option.splits)

lemma failures_tick: "failures_noted pd \<Longrightarrow> failures_noted (monitor_tick ps now ns pd)"
  unfolding monitor_tick_def
proof (rule failures_analyze, induction ps arbitrary: pd)
  case (Cons p ps)
  then show ?case using failures_ping by (cases p) auto
qed simp

inductive pd_reach :: "string \<Rightarrow> string list \<Rightarrow> detector \<Rightarrow> bool" for nodeID cluster where
  "pd_reach nodeID cluster (StartMonitoring now cluster (NewPartitionDetector nodeID))"
| "pd_reach nodeID cluster pd \<Longrightarrow> pd_reach nodeID cluster (monitor_tick ps now cluster pd)"

lemma pd_reach_failures: "pd_reach nodeID cluster pd \<Longrightarrow> failures_noted pd"
  by (induction rule: pd_reach.induct) (simp_all add: failures_New failures_Start failures_tick)

text \<open>
  the threshold of failed pings never matters: in every history of a detector the analysis is the
  same for every positive threshold, because a single failed ping already makes a node unreachable.
\<close>

theorem threshold_irrelevant:
  assumes "pd_reach nodeID cluster pd" and "0 < pd_partitionThreshold pd" and "0 < k"
  shows "unreachable (pd\<lparr>pd_partitionThreshold := k\<rparr>) n = unreachable pd n \<and>
    unreachable pd n = (\<forall>c. pd_nodeConnectivity pd n = Some c \<longrightarrow> \<not> nc_IsReachable c)"
proof -
  have "failures_noted pd" using assms(1) by (rule pd_reach_failures)
  then have "\<not> nc_IsReachable c" if "pd_nodeConnectivity pd n = Some c" "0 < nc_ConsecutiveFailures c" for c
    using that unfolding failures_noted_def by blast
  then show ?thesis using assms(2,3)
    by (cases "pd_nodeConnectivity pd n") (auto simp: unreachable_def)
qed

text \<open>A cluster of five whose node \<open>A\<close> loses two others.\<close>

definition five :: "string list" where
  "five = [''A'', ''B'', ''C'', ''D'', ''E'']"

definition started_detector :: detector where
  "started_detector = StartMonitoring 0 five (NewPartitionDetector ''A'')"

definition lost_two :: detector where
  "lost_two = monitor_tick [(''D'', 0, Some ''refused'', 5), (''E'', 0, Some ''refused'', 5)] 6 five started_detector"

theorem threshold_irrelevant_witness: "unreachable (lost_two\<lparr>pd_partitionThreshold := 10\<rparr>) ''D''"
proof -
  have reach: "pd_reach ''A'' five lost_two"
    unfolding lost_two_def started_detector_def by (intro pd_reach.intros)
  have "0 < pd_partitionThreshold lost_two"
    by (simp add: lost_two_def started_detector_def five_def monitor_tick_def StartMonitoring_def NewPartitionDetector_def
        new_connectivity_def pingNode_def analyzePartitionState_def unreachable_nodes_def unreachable_def)
  from threshold_irrelevant [OF reach this, of 10 "''D''"] show ?thesis
    by (simp add: lost_two_def started_detector_def five_def monitor_tick_def StartMonitoring_def NewPartitionDetector_def
        new_connectivity_def pingNode_def analyzePartitionState_def unreachable_nodes_def unreachable_def)
qed

section \<open>A quorum that is taken for granted\<close>

lemma pingNode_keeps [simp]:
  "pd_currentPartition (pingNode l e t n pd) = pd_currentPartition pd" "pd_partitionHistory (pingNode l e t n pd) = pd_partitionHistory pd"
  "pd_nodeID (pingNode l e t n pd) = pd_nodeID pd" "pd_partitionThreshold (pingNode l e t n pd) = pd_partitionThreshold pd"
  by (simp_all add: pingNode_def Let_def)

lemma ping_unreachable: "unreachable pd x \<Longrightarrow> n \<noteq> x \<or> e \<noteq> None \<Longrightarrow> unreachable (pingNode l e t n pd) x"
  by (auto simp: unreachable_def pingNode_def Let_def new_connectivity_def split: option.splits if_splits)

lemma pings_keep:
  assumes "unreachable pd x" and "\<forall>(n, l, e, t) \<in> set ps. n = x \<longrightarrow> e \<noteq> None"
  shows "\<exists>pd'. foldl (\<lambda>pd (n, l, e, t). if n \<in> set ns \<and> n \<noteq> pd_nodeID pd then pingNode l e t n pd else pd) pd ps = pd' \<and>
    unreachable pd' x \<and> pd_currentPartition pd' = pd_currentPartition pd \<and> pd_partitionHistory pd' = pd_partitionHistory pd \<and>
    pd_nodeID pd' = pd_nodeID pd"
  using assms
proof (induction ps arbitrary: pd)
  case (Cons p ps)
  obtain n l e t where p: "p = (n, l, e, t)" by (metis surj_pair)
  let ?pd = "if n \<in> set ns \<and> n \<noteq> pd_nodeID pd then pingNode l e t n pd else pd"
  have "unreachable ?pd x" using Cons.prems p ping_unreachable [of pd x n e l t] by auto
  from Cons.IH [OF this] Cons.prems p show ?case by auto
qed simp

lemma tick_keeps:
  assumes "unreachable pd x" and "x \<in> set ns" and "x \<noteq> pd_nodeID pd" and "\<forall>(n, l, e, t) \<in> set ps. n = x \<longrightarrow> e \<noteq> None"
    and "IsPartitioned pd"
  shows "unreachable (monitor_tick ps now ns pd) x \<and> pd_nodeID (monitor_tick ps now ns pd) = pd_nodeID pd \<and>
    pd_currentPartition (monitor_tick ps now ns pd) = pd_currentPartition pd \<and>
    pd_partitionHistory (monitor_tick ps now ns pd) = pd_partitionHistory pd"
proof -
  obtain pd' where pd': "foldl (\<lambda>pd (n, l, e, t). if n \<in> set ns \<and> n \<noteq> pd_nodeID pd then pingNode l e t n pd else pd) pd ps = pd'"
      "unreachable pd' x" "pd_currentPartition pd' = pd_currentPartition pd" "pd_partitionHistory pd' = pd_partitionHistory pd"
      "pd_nodeID pd' = pd_nodeID pd" using pings_keep [OF assms(1,4)] by blast
  have "x \<in> set (unreachable_nodes pd' ns)" using pd'(2,5) assms(2,3) by (simp add: unreachable_nodes_def)
  then have "unreachable_nodes pd' ns \<noteq> []" by auto
  then have "analyzePartitionState now ns pd' = pd'"
    using assms(5) pd'(3) by (auto simp: analyzePartitionState_def IsPartitioned_def)
  then show ?thesis using pd' by (simp add: monitor_tick_def)
qed

text \<open>
  while one node stays away the detector keeps the partition as it was when that began: whichever
  other nodes fail in later ticks, the answer whether there is a quorum does not change.
\<close>

theorem quorum_stale:
  assumes "IsPartitioned pd" and "unreachable pd x" and "x \<in> set cluster" and "x \<noteq> pd_nodeID pd"
    and "\<forall>(ps, now) \<in> set ticks. \<forall>(n, l, e, t) \<in> set ps. n = x \<longrightarrow> e \<noteq> None"
  shows "let pd' = foldl (\<lambda>pd (ps, now). monitor_tick ps now cluster pd) pd ticks
    in IsPartitioned pd' \<and> (\<forall>n. pd_HasQuorum n pd' = pd_HasQuorum n pd) \<and> DetectPartition pd' = DetectPartition pd"
  using assms
proof (induction ticks arbitrary: pd)
  case (Cons tick ticks)
  obtain ps now where tick: "tick = (ps, now)" by fastforce
  let ?pd = "monitor_tick ps now cluster pd"
  have keep: "unreachable ?pd x" "pd_nodeID ?pd = pd_nodeID pd" "pd_currentPartition ?pd = pd_currentPartition pd"
      "pd_partitionHistory ?pd = pd_partitionHistory pd"
    using tick_keeps [of pd x cluster ps now] Cons.prems tick by auto
  then have "pd_HasQuorum n ?pd = pd_HasQuorum n pd" and "DetectPartition ?pd = DetectPartition pd" for n
    by (cases "pd_currentPartition pd"; simp add: pd_HasQuorum_def DetectPartition_def)+
  moreover have "IsPartitioned ?pd" using Cons.prems(1) keep(3) by (simp add: IsPartitioned_def)
  ultimately show ?case using Cons.IH [of ?pd] Cons.prems tick keep(1,2) by (simp add: Let_def)
qed (simp add: Let_def)

theorem quorum_stale_witness:
  "pd_HasQuorum 5 (monitor_tick [(''B'', 0, Some ''refused'', 7), (''C'', 0, Some ''refused'', 7)] 8 five lost_two)"
proof -
  let ?ticks = "[([(''B'', 0 :: duration, Some ''refused'', 7 :: time), (''C'', 0, Some ''refused'', 7)], 8 :: time)]"
  note defs = lost_two_def started_detector_def five_def monitor_tick_def StartMonitoring_def NewPartitionDetector_def new_connectivity_def
    pingNode_def analyzePartitionState_def unreachable_nodes_def unreachable_def reachable_nodes_def new_partition_def
  have "IsPartitioned lost_two" "unreachable lost_two ''D''" "''D'' \<noteq> pd_nodeID lost_two" "pd_HasQuorum 5 lost_two"
    by (simp_all add: defs IsPartitioned_def pd_HasQuorum_def quorum_of_def Let_def)
  then show ?thesis using quorum_stale [of lost_two "''D''" five ?ticks] by (simp add: five_def Let_def)
qed

section \<open>Split brains\<close>

lemma both_lengths:
  assumes "distinct cluster" and "pd_nodeID pd \<in> set cluster"
  shows "length (reachable_nodes pd cluster) + length (unreachable_nodes pd cluster) = length cluster"
proof -
  let ?me = "pd_nodeID pd"
  have "length (filter (\<lambda>n. n \<noteq> ?me \<and> \<not> unreachable pd n) cluster) + length (filter (\<lambda>n. n \<noteq> ?me \<and> unreachable pd n) cluster) =
      length (filter (\<lambda>n. n \<noteq> ?me) cluster)"
    by (induction cluster) auto
  moreover have "length (filter (\<lambda>n. n = ?me) cluster) = 1"
    using assms distinct_length_filter [of cluster "\<lambda>n. n = ?me"] by (simp add: Int_def conj_commute) (metis (mono_tags) Collect_conv_if card_1_singleton_iff One_nat_def)
  moreover have "length (filter (\<lambda>n. n = ?me) cluster) + length (filter (\<lambda>n. n \<noteq> ?me) cluster) = length cluster"
    by (rule sum_length_filter_compl)
  ultimately show ?thesis by (simp add: reachable_nodes_def unreachable_nodes_def)
qed

lemma detectSplitBrain_iff:
  assumes "a + b = n"
  shows "detectSplitBrain a b n \<longleftrightarrow> 1 < a \<and> 1 < b \<and> b \<le> 2 * a \<and> a \<le> 2 * b"
proof -
  have no: "\<not> (a \<ge> quorum_of n \<and> b \<ge> quorum_of n)" using assms by (auto simp: quorum_of_def)
  have "(1 / 2 \<le> rat_of_nat a / rat_of_nat b) = (b \<le> 2 * a)" "(rat_of_nat a / rat_of_nat b \<le> 2) = (a \<le> 2 * b)" if "1 < b"
  proof -
    have b: "0 < rat_of_nat b" using that by simp
    have "(1 / 2 \<le> rat_of_nat a / rat_of_nat b) = (rat_of_nat b \<le> rat_of_nat (2 * a))" using b by (simp add: field_simps)
    then show "(1 / 2 \<le> rat_of_nat a / rat_of_nat b) = (b \<le> 2 * a)" by (simp only: of_nat_le_iff)
    have "(rat_of_nat a / rat_of_nat b \<le> 2) = (rat_of_nat a \<le> rat_of_nat (2 * b))" using b by (simp add: field_simps)
    then show "(rat_of_nat a / rat_of_nat b \<le> 2) = (a \<le> 2 * b)" by (simp only: of_nat_le_iff)
  qed
  then show ?thesis using no by (auto simp: detectSplitBrain_def Let_def)
qed

lemma calculateSeverity_iff:
  assumes "0 < n"
  shows "calculateSeverity a n =
    (if 4 * n \<le> 5 * a then LowSeverity else if 3 * n \<le> 5 * a then MediumSeverity else if 2 * n \<le> 5 * a then HighSeverity else CriticalSeverity)"
proof -
  have ge: "(rat_of_nat k / 10 \<le> rat_of_nat a / rat_of_nat n) = (k * n \<le> 10 * a)" for k
  proof -
    have "(rat_of_nat k / 10 \<le> rat_of_nat a / rat_of_nat n) = (rat_of_nat (k * n) \<le> rat_of_nat (10 * a))"
      using assms by (simp add: field_simps)
    then show ?thesis by (simp only: of_nat_le_iff)
  qed
  show ?thesis using ge [of 8] ge [of 6] ge [of 4] by (simp add: calculateSeverity_def Let_def)
qed

text \<open>
  the strategy that compares the sizes of the partitions is never chosen for a split brain: where the
  detector sees one, its own side is smaller than the four fifths that strategy is reserved for.
\<close>

theorem quorum_strategy_unused:
  assumes "distinct cluster" and "pd_nodeID pd \<in> set cluster" and "np_HasSplitBrain (new_partition now cluster pd)"
  shows "selectResolutionStrategy (new_partition now cluster pd) \<in> {NodePriorityStrategy, LastCommitStrategy, ManualInterventionStrategy}"
proof -
  let ?a = "length (reachable_nodes pd cluster)" and ?b = "length (unreachable_nodes pd cluster)"
  have n: "?a + ?b = length cluster" by (rule both_lengths [OF assms(1,2)])
  from assms(3) have "?a \<le> 2 * ?b" "1 < ?b" by (auto simp: new_partition_def Let_def detectSplitBrain_iff [OF n])
  then have "\<not> 4 * length cluster \<le> 5 * ?a" "0 < length cluster" using n by auto
  then show ?thesis
    by (auto simp: selectResolutionStrategy_def new_partition_def Let_def calculateSeverity_iff split: severity.splits)
qed

lemma lost_two_started: "unreachable_nodes lost_two five = [''D'', ''E'']" "reachable_nodes lost_two five = [''A'', ''B'', ''C'']"
  by (simp_all add: lost_two_def started_detector_def five_def monitor_tick_def StartMonitoring_def NewPartitionDetector_def new_connectivity_def
    pingNode_def analyzePartitionState_def unreachable_nodes_def unreachable_def reachable_nodes_def)

theorem quorum_strategy_unused_witness: "selectResolutionStrategy (new_partition 6 five lost_two) \<noteq> QuorumSizeStrategy"
proof -
  have "pd_nodeID lost_two \<in> set five" "distinct five"
    by (simp_all add: lost_two_def started_detector_def five_def monitor_tick_def StartMonitoring_def NewPartitionDetector_def
      analyzePartitionState_def split: option.splits)
  moreover have "np_HasSplitBrain (new_partition 6 five lost_two)"
    by (simp add: new_partition_def Let_def lost_two_started) (simp add: five_def detectSplitBrain_iff)
  ultimately show ?thesis using quorum_strategy_unused [of five lost_two 6] by auto
qed

text \<open>Every node gives itself the best score, so it finds itself the best of its own side.\<close>

definition self_first :: "(rat \<Rightarrow> rat) \<Rightarrow> resolver \<Rightarrow> bool" where
  "self_first fl sbr \<longleftrightarrow> 0 < calculateNodePriority fl sbr (sb_nodeID sbr) \<and>
     (\<forall>n. n \<noteq> sb_nodeID sbr \<longrightarrow> calculateNodePriority fl sbr n < calculateNodePriority fl sbr (sb_nodeID sbr))"

lemma self_first_default: "self_first id (NewSplitBrainResolver n)"
  by (simp add: self_first_def calculateNodePriority_def NewSplitBrainResolver_def weight_def Let_def)

lemma highest_self:
  "\<forall>n. n \<noteq> me \<longrightarrow> score n < score me \<Longrightarrow> me \<in> set ids \<and> snd b < score me \<or> b = (me, score me) \<Longrightarrow>
   highest_node score b ids = (me, score me)"
proof (induction ids arbitrary: b)
  case (Cons n ns)
  then show ?case by (cases "n = me") (auto simp: not_less)
qed auto

lemma side_wins:
  assumes "distinct cluster" and "pd_nodeID pd \<in> set cluster" and p: "p = new_partition now cluster pd"
    and "sb_nodeID sbr = pd_nodeID pd" and "sb_activeResolutions sbr (np_PartitionID p) = None" and "self_first fl sbr"
    and "set ids = set (np_MyPartition p)" and clock: "clock 3 - clock 2 < 3 * minute"
    and a: "1 < length (reachable_nodes pd cluster)" "2 * length cluster \<le> 5 * length (reachable_nodes pd cluster)"
    and b: "1 < length (unreachable_nodes pd cluster)" "2 * length cluster \<le> 5 * length (unreachable_nodes pd cluster)"
  shows "np_HasSplitBrain p \<and> (\<exists>sbr'. ResolveSplitBrain fl ids clock p sbr = Returns (None, sbr') \<and>
    rr_WinningPartition (last (sb_resolutionHistory sbr')) = reachable_nodes pd cluster \<and>
    rr_DeactivatedNodes (last (sb_resolutionHistory sbr')) = [])"
proof -
  let ?a = "length (reachable_nodes pd cluster)" and ?b = "length (unreachable_nodes pd cluster)"
  have n: "?a + ?b = length cluster" by (rule both_lengths [OF assms(1,2)])
  have "np_HasSplitBrain p" using a b n by (simp add: p new_partition_def Let_def detectSplitBrain_iff [OF n])
  have my: "np_MyPartition p = reachable_nodes pd cluster" by (simp add: p new_partition_def Let_def)
  have "np_SeverityLevel p = (if 3 * length cluster \<le> 5 * ?a then MediumSeverity else HighSeverity)"
  proof -
    have "calculateSeverity ?a (length cluster) =
        (if 4 * length cluster \<le> 5 * ?a then LowSeverity else if 3 * length cluster \<le> 5 * ?a then MediumSeverity
         else if 2 * length cluster \<le> 5 * ?a then HighSeverity else CriticalSeverity)"
    proof (rule calculateSeverity_iff)
      show "0 < length cluster" using a(1) n by linarith
    qed
    moreover have "\<not> 4 * length cluster \<le> 5 * ?a" using b n by simp
    ultimately show ?thesis using a by (simp add: p new_partition_def Let_def)
  qed
  then consider "selectResolutionStrategy p = NodePriorityStrategy" | "selectResolutionStrategy p = LastCommitStrategy"
    by (cases "3 * length cluster \<le> 5 * ?a") (simp_all add: selectResolutionStrategy_def)
  then obtain r where "executeResolution fl ids clock sbr (new_attempt (clock 0) p) p = Returns r" "rr_Success r"
      "rr_WinningPartition r = np_MyPartition p" "rr_DeactivatedNodes r = []"
  proof cases
    case 1
    have "sb_nodeID sbr \<in> set ids" using assms(4,7) my by (simp add: reachable_nodes_def)
    then have "fst (highest_node (calculateNodePriority fl sbr) ([], 0) ids) = sb_nodeID sbr"
      using highest_self [of "sb_nodeID sbr" "calculateNodePriority fl sbr" ids "([], 0)"] assms(6) by (simp add: self_first_def)
    then show ?thesis using 1 by (intro that) (auto simp: executeResolution_def new_attempt_def resolveByNodePriority_def Let_def)
  next
    case 2
    have "clock 3 - getLastCommitTime (clock 2) < 5 * minute" using clock by (simp add: getLastCommitTime_def)
    then show ?thesis using 2 by (intro that) (auto simp: executeResolution_def new_attempt_def resolveByLastCommit_def Let_def)
  qed
  then have "\<exists>sbr'. ResolveSplitBrain fl ids clock p sbr = Returns (None, sbr') \<and>
    rr_WinningPartition (last (sb_resolutionHistory sbr')) = np_MyPartition p \<and>
    rr_DeactivatedNodes (last (sb_resolutionHistory sbr')) = []"
    using assms(5) by (simp add: ResolveSplitBrain_def)
  then show ?thesis using \<open>np_HasSplitBrain p\<close> my by simp
qed

text \<open>A node that resolves the partition it has just detected.\<close>

definition resolves :: "(rat \<Rightarrow> rat) \<Rightarrow> string list \<Rightarrow> time \<Rightarrow> (nat \<Rightarrow> time) \<Rightarrow> detector \<Rightarrow> resolver \<Rightarrow> string list \<Rightarrow> bool" where
  "resolves fl cluster now clock pd sbr ids \<longleftrightarrow> pd_nodeID pd \<in> set cluster \<and> sb_nodeID sbr = pd_nodeID pd \<and>
     sb_activeResolutions sbr (np_PartitionID (new_partition now cluster pd)) = None \<and> self_first fl sbr \<and>
     set ids = set (np_MyPartition (new_partition now cluster pd)) \<and> clock 3 - clock 2 < 3 * minute"

definition wins :: "(rat \<Rightarrow> rat) \<Rightarrow> string list \<Rightarrow> time \<Rightarrow> (nat \<Rightarrow> time) \<Rightarrow> detector \<Rightarrow> resolver \<Rightarrow> string list \<Rightarrow> bool" where
  "wins fl cluster now clock pd sbr ids \<longleftrightarrow> np_HasSplitBrain (new_partition now cluster pd) \<and>
     (\<exists>sbr'. ResolveSplitBrain fl ids clock (new_partition now cluster pd) sbr = Returns (None, sbr') \<and>
        rr_WinningPartition (last (sb_resolutionHistory sbr')) = reachable_nodes pd cluster \<and>
        rr_DeactivatedNodes (last (sb_resolutionHistory sbr')) = [])"

lemma other_side:
  assumes "distinct cluster" and "pd_nodeID pd \<in> set cluster" and "set (reachable_nodes pd cluster) \<union> T = set cluster"
    and "set (reachable_nodes pd cluster) \<inter> T = {}"
  shows "length (unreachable_nodes pd cluster) = card T"
proof -
  have "set (unreachable_nodes pd cluster) = set cluster - set (reachable_nodes pd cluster)"
    using assms(2) by (auto simp: reachable_nodes_def unreachable_nodes_def)
  then have "set (unreachable_nodes pd cluster) = T" using assms(3,4) by auto
  moreover have "distinct (unreachable_nodes pd cluster)" using assms(1) by (simp add: unreachable_nodes_def)
  ultimately show ?thesis using distinct_card by metis
qed

lemma reachable_distinct: "distinct cluster \<Longrightarrow> distinct (reachable_nodes pd cluster)"
  by (simp add: reachable_nodes_def)

text \<open>
  C38: a split brain is not resolved: when a cluster falls into two sides of at least two fifths of it
  each, and more than one node, the nodes that resolve it on either side let their own side win
  and deactivate nobody, so that both go on.
\<close>

theorem both_sides_win:
  assumes dist: "distinct cluster" and A: "resolves fl cluster now clock pdA sbrA idsA" and B: "resolves fl cluster now' clock' pdB sbrB idsB"
    and sides: "set (reachable_nodes pdA cluster) \<union> set (reachable_nodes pdB cluster) = set cluster"
      "set (reachable_nodes pdA cluster) \<inter> set (reachable_nodes pdB cluster) = {}"
    and a: "1 < length (reachable_nodes pdA cluster)" "2 * length cluster \<le> 5 * length (reachable_nodes pdA cluster)"
    and b: "1 < length (reachable_nodes pdB cluster)" "2 * length cluster \<le> 5 * length (reachable_nodes pdB cluster)"
  shows "wins fl cluster now clock pdA sbrA idsA \<and> wins fl cluster now' clock' pdB sbrB idsB"
proof -
  have card: "card (set (reachable_nodes pd cluster)) = length (reachable_nodes pd cluster)" for pd
    by (rule distinct_card [OF reachable_distinct [OF dist]])
  have "length (unreachable_nodes pdA cluster) = length (reachable_nodes pdB cluster)"
    using other_side [OF dist _ sides] A card by (simp add: resolves_def)
  moreover have "length (unreachable_nodes pdB cluster) = length (reachable_nodes pdA cluster)"
    using other_side [OF dist, of pdB "set (reachable_nodes pdA cluster)"] sides B card by (simp add: resolves_def Un_commute Int_commute)
  ultimately show ?thesis
    using side_wins [OF dist _ refl, of pdA sbrA now fl idsA clock] side_wins [OF dist _ refl, of pdB sbrB now' fl idsB clock']
      A B a b unfolding resolves_def wins_def by simp
qed

text \<open>The other side of the example: \<open>D\<close> cannot reach the three others.\<close>

definition lost_three :: detector where
  "lost_three = monitor_tick [(''A'', 0, Some ''refused'', 5), (''B'', 0, Some ''refused'', 5), (''C'', 0, Some ''refused'', 5)] 6 five
     (StartMonitoring 0 five (NewPartitionDetector ''D''))"

lemma lost_three_nodes: "reachable_nodes lost_three five = [''D'', ''E'']" "pd_nodeID lost_three = ''D''"
  by (simp_all add: lost_three_def five_def monitor_tick_def StartMonitoring_def NewPartitionDetector_def new_connectivity_def
    pingNode_def analyzePartitionState_def unreachable_nodes_def unreachable_def reachable_nodes_def)

lemma lost_two_node: "pd_nodeID lost_two = ''A''"
  by (simp add: lost_two_def started_detector_def five_def monitor_tick_def StartMonitoring_def NewPartitionDetector_def new_connectivity_def
    pingNode_def analyzePartitionState_def unreachable_nodes_def unreachable_def)

theorem both_sides_win_witness:
  "wins id five 6 int lost_two (NewSplitBrainResolver ''A'') [''A'', ''B'', ''C''] \<and>
   wins id five 6 int lost_three (NewSplitBrainResolver ''D'') [''D'', ''E'']"
proof (rule both_sides_win)
  have my: "np_MyPartition (new_partition 6 five pd) = reachable_nodes pd five" for pd
    by (simp add: new_partition_def Let_def)
  have none: "sb_activeResolutions (NewSplitBrainResolver n) i = None" "sb_nodeID (NewSplitBrainResolver n) = n" for n i
    by (simp_all add: NewSplitBrainResolver_def)
  show "resolves id five 6 int lost_two (NewSplitBrainResolver ''A'') [''A'', ''B'', ''C'']"
    by (simp add: resolves_def my none self_first_default lost_two_started lost_two_node) (simp add: five_def)
  show "resolves id five 6 int lost_three (NewSplitBrainResolver ''D'') [''D'', ''E'']"
    by (simp add: resolves_def my none self_first_default lost_three_nodes) (simp add: five_def)
  show "distinct five" by (simp add: five_def)
  show "set (reachable_nodes lost_two five) \<union> set (reachable_nodes lost_three five) = set five"
    by (simp only: lost_two_started lost_three_nodes) (auto simp: five_def)
qed (simp_all add: lost_two_started lost_three_nodes, simp_all add: five_def)

text \<open>
  comparing sizes would resolve it: of two sides without a common node at most one wins by its
  size, because two quorums of one cluster have a common member.
\<close>

theorem one_side_by_size:
  assumes "distinct cluster" and "distinct (np_MyPartition p)" and "distinct (np_MyPartition p')"
    and "set (np_MyPartition p) \<subseteq> set cluster" and "set (np_MyPartition p') \<subseteq> set cluster"
    and "set (np_MyPartition p) \<inter> set (np_MyPartition p') = {}" and "np_MyPartition p \<noteq> []"
    and "length (np_MyPartition p) + sum_list (map length (np_OtherPartitions p)) = length cluster"
    and "length (np_MyPartition p') + sum_list (map length (np_OtherPartitions p')) = length cluster"
    and "rr_WinningPartition r = []" and "rr_WinningPartition r' = []"
    and "rr_WinningPartition (snd (resolveByQuorumSize p r)) \<noteq> []"
  shows "rr_WinningPartition (snd (resolveByQuorumSize p' r')) = []"
proof -
  have "quorum_of (length cluster) \<le> length (np_MyPartition p)"
    using assms(8,10,12) by (auto simp: resolveByQuorumSize_def Let_def split: if_splits)
  then have "is_majority cluster (set (np_MyPartition p))" using assms(2,4) by (simp add: is_majority_def distinct_card)
  then have "\<not> is_majority cluster (set (np_MyPartition p'))" using assms(6) by (rule majority.not_disjoint)
  then have "\<not> quorum_of (length cluster) \<le> length (np_MyPartition p')" using assms(3,5) by (simp add: is_majority_def distinct_card)
  then show ?thesis using assms(9,11) by (simp add: resolveByQuorumSize_def Let_def)
qed

theorem one_side_by_size_witness:
  "rr_WinningPartition (snd (resolveByQuorumSize (new_partition 6 five lost_three)
     \<lparr>rr_PartitionID = [], rr_Strategy = QuorumSizeStrategy, rr_StartedAt = 0, rr_CompletedAt = 0, rr_Success = False,
      rr_WinningPartition = [], rr_DeactivatedNodes = [], rr_Error = []\<rparr>)) = []"
proof -
  let ?r = "\<lparr>rr_PartitionID = [], rr_Strategy = QuorumSizeStrategy, rr_StartedAt = 0, rr_CompletedAt = 0, rr_Success = False,
      rr_WinningPartition = [], rr_DeactivatedNodes = [], rr_Error = []\<rparr> :: resolution_result"
  have other: "unreachable_nodes lost_three five = [''A'', ''B'', ''C'']"
    by (simp add: lost_three_def five_def monitor_tick_def StartMonitoring_def NewPartitionDetector_def new_connectivity_def
      pingNode_def analyzePartitionState_def unreachable_nodes_def unreachable_def)
  note defs = new_partition_def Let_def lost_two_started lost_three_nodes other
  show ?thesis
    by (rule one_side_by_size [of five "new_partition 6 five lost_two" _ ?r])
       (simp_all add: defs resolveByQuorumSize_def quorum_of_def, simp_all add: five_def)
qed

end
