(* ===== verification/RaftCoordinator.thy ===== *)
theory RaftCoordinator
  imports Partitions
begin

text \<open>
  The consensus coordinator and its recovery, \<open>internal/trading/consensus/raft_coordinator.go\<close> and
  \<open>internal/trading/consensus/recovery_manager.go\<close>. The clock is an input, also of the votes, which the source
  draws from it. Durations measured by the clock are not negative. What other goroutines do while a
  call waits (a leader is established, a partition heals) is an input of the call.
\<close>

section \<open>State\<close>

record critical_op =
  co_ID :: string
  co_Type :: string
  co_UserID :: string
  co_OrderID :: string
  co_TradeID :: string
  co_FromAccount :: string
  co_ToAccount :: string
  co_Amount :: decimal
  co_Currency :: string
  co_Metadata :: "string \<rightharpoonup> any"
  co_Timestamp :: time
  co_Priority :: int

record consensus_result =
  cr_Operation :: critical_op
  cr_Approved :: bool
  cr_VotingNodes :: "string list"
  cr_ApprovalRate :: rat
  cr_CommittedAt :: time
  cr_Error :: "string option"

record consensus_metrics =
  cm_OperationsProposed :: int
  cm_OperationsCommitted :: int
  cm_OperationsRejected :: int
  cm_AverageConsensusTime :: duration
  cm_QuorumFailures :: int
  cm_LeaderElections :: int

text \<open>The priorities of a recovery, in the order of the source's constants.\<close>

abbreviation (input) CriticalRecovery :: nat where "CriticalRecovery \<equiv> 0"
abbreviation (input) HighRecovery :: nat where "HighRecovery \<equiv> 1"
abbreviation (input) NormalRecovery :: nat where "NormalRecovery \<equiv> 2"
abbreviation (input) LowRecovery :: nat where "LowRecovery \<equiv> 3"

record failed_operation =
  fo_Operation :: critical_op
  fo_FailureReason :: string
  fo_FailedAt :: time
  fo_NodeStates :: "string \<rightharpoonup> string"
  fo_Retryable :: bool
  fo_Priority :: nat

datatype trigger_type =
    ConsensusTimeoutTrigger | QuorumLossTrigger | LeaderFailureTrigger | NetworkPartitionTrigger
  | StateInconsistencyTrigger | ManualRecoveryTrigger

record recovery_trigger =
  rt_Type :: trigger_type
  rt_NodeID :: string
  rt_Timestamp :: time
  rt_Metadata :: "string \<rightharpoonup> any"

record network_health =
  nh_ConnectedNodes :: "string list"
  nh_DisconnectedNodes :: "string list"
  nh_LastHealthCheck :: time
  nh_PartitionDetected :: bool
  nh_QuorumAvailable :: bool
  nh_NodeLatencies :: "string \<rightharpoonup> duration"

record recovery_metrics =
  rx_RecoveryAttempts :: int
  rx_SuccessfulRecoveries :: int
  rx_FailedRecoveries :: int
  rx_AverageRecoveryTime :: duration
  rx_LastRecoveryAttempt :: time
  rx_OperationRecoveryStats :: "string \<Rightarrow> int"

record recovery_manager =
  rm_nodeID :: string
  rm_maxRecoveryAttempts :: nat
  rm_partitionDetector :: "detector option"
  rm_splitBrainResolver :: "resolver option"
  rm_failedOperations :: "string \<rightharpoonup> failed_operation"
  rm_recoveryAttempts :: "string \<Rightarrow> nat"
  rm_networkHealth :: network_health
  rm_recoveryTriggerCh :: "recovery_trigger list"
  rm_metrics :: recovery_metrics

record raft =
  rc_nodeID :: string
  rc_isLeader :: bool
  rc_cluster :: "string list"
  rc_pendingOps :: "string \<rightharpoonup> critical_op"
  rc_committedOps :: "string \<rightharpoonup> consensus_result"
  rc_quorumSize :: nat
  rc_consensusTimeout :: duration
  rc_metrics :: consensus_metrics
  rc_recoveryManager :: recovery_manager

definition NewRecoveryManager :: "string \<Rightarrow> recovery_manager" where
  "NewRecoveryManager nodeID = \<lparr>rm_nodeID = nodeID, rm_maxRecoveryAttempts = 5, rm_partitionDetector = None,
     rm_splitBrainResolver = None, rm_failedOperations = Map.empty, rm_recoveryAttempts = (\<lambda>i. 0),
     rm_networkHealth = \<lparr>nh_ConnectedNodes = [], nh_DisconnectedNodes = [], nh_LastHealthCheck = 0,
       nh_PartitionDetected = False, nh_QuorumAvailable = False, nh_NodeLatencies = Map.empty\<rparr>,
     rm_recoveryTriggerCh = [],
     rm_metrics = \<lparr>rx_RecoveryAttempts = 0, rx_SuccessfulRecoveries = 0, rx_FailedRecoveries = 0,
       rx_AverageRecoveryTime = 0, rx_LastRecoveryAttempt = 0, rx_OperationRecoveryStats = (\<lambda>k. 0)\<rparr>\<rparr>"

definition NewRaftCoordinator :: "string \<Rightarrow> string list \<Rightarrow> raft" where
  "NewRaftCoordinator nodeID cluster = \<lparr>rc_nodeID = nodeID, rc_isLeader = False, rc_cluster = cluster,
     rc_pendingOps = Map.empty, rc_committedOps = Map.empty, rc_quorumSize = length cluster div 2 + 1,
     rc_consensusTimeout = 30 * second,
     rc_metrics = \<lparr>cm_OperationsProposed = 0, cm_OperationsCommitted = 0, cm_OperationsRejected = 0,
       cm_AverageConsensusTime = 0, cm_QuorumFailures = 0, cm_LeaderElections = 0\<rparr>,
     rc_recoveryManager = NewRecoveryManager nodeID\<rparr>"

definition rm_Start :: "recovery_manager \<Rightarrow> recovery_manager" where
  "rm_Start rm = rm\<lparr>rm_partitionDetector := Some (NewPartitionDetector (rm_nodeID rm)),
     rm_splitBrainResolver := Some (NewSplitBrainResolver (rm_nodeID rm))\<rparr>"

definition rc_Start :: "time \<Rightarrow> raft \<Rightarrow> raft" where
  "rc_Start now rc =
     (let rm = rm_Start (rc_recoveryManager rc)
      in rc\<lparr>rc_recoveryManager := rm\<lparr>rm_partitionDetector := map_option (StartMonitoring now (rc_cluster rc)) (rm_partitionDetector rm)\<rparr>\<rparr>)"

section \<open>Recording failures\<close>

definition TriggerRecovery :: "recovery_trigger \<Rightarrow> recovery_manager \<Rightarrow> recovery_manager" where
  "TriggerRecovery t rm =
     (if length (rm_recoveryTriggerCh rm) < 100 then rm\<lparr>rm_recoveryTriggerCh := rm_recoveryTriggerCh rm @ [t]\<rparr> else rm)"

definition isRetryableFailure :: "string \<Rightarrow> bool" where
  "isRetryableFailure reason \<longleftrightarrow>
     reason \<in> set [''consensus timeout'', ''quorum not reached'', ''network error'', ''temporary node failure'']"

definition determineRecoveryPriority :: "critical_op \<Rightarrow> nat" where
  "determineRecoveryPriority op =
     (if co_Priority op = 1 then CriticalRecovery else if co_Priority op = 2 then HighRecovery
      else if co_Priority op = 3 then NormalRecovery else LowRecovery)"

definition RecordFailedOperation :: "time \<Rightarrow> critical_op \<Rightarrow> string \<Rightarrow> (string \<rightharpoonup> string) \<Rightarrow> recovery_manager \<Rightarrow> recovery_manager" where
  "RecordFailedOperation now op reason states rm =
     rm\<lparr>rm_failedOperations := (rm_failedOperations rm)(co_ID op \<mapsto>
        \<lparr>fo_Operation = op, fo_FailureReason = reason, fo_FailedAt = now, fo_NodeStates = states,
         fo_Retryable = isRetryableFailure reason, fo_Priority = determineRecoveryPriority op\<rparr>)\<rparr>"

section \<open>The consensus\<close>

definition simulateNodeVote :: "time \<Rightarrow> critical_op \<Rightarrow> bool" where
  "simulateNodeVote now op =
     (if co_Priority op = 1 then True else if co_Priority op = 2 then now mod 10 < 8
      else if co_Priority op = 3 then now mod 10 < 7 else now mod 10 < 5)"

definition simulateNodeVoteWithTimeout :: "time \<Rightarrow> time \<Rightarrow> critical_op \<Rightarrow> bool" where
  "simulateNodeVoteWithTimeout t0 t1 op =
     (let delay = (t0 mod 1000) * millisecond in if delay > 500 * millisecond then False else simulateNodeVote t1 op)"

definition getConnectedNodes :: "raft \<Rightarrow> string list" where
  "getConnectedNodes rc =
     (case rm_partitionDetector (rc_recoveryManager rc) of
        None \<Rightarrow> rc_cluster rc
      | Some pd \<Rightarrow> rc_nodeID rc # filter (\<lambda>n. n \<noteq> rc_nodeID rc \<and>
          (case pd_nodeConnectivity pd n of None \<Rightarrow> False | Some c \<Rightarrow> nc_IsReachable c)) (rc_cluster rc))"

text \<open>The votes of the nodes with the indexes \<open>is\<close>: how many approve, and the state of each.\<close>

fun vote_loop :: "(nat \<Rightarrow> bool) \<Rightarrow> string \<Rightarrow> string list \<Rightarrow> string list \<Rightarrow> nat list \<Rightarrow> nat \<times> (string \<rightharpoonup> string) \<Rightarrow> nat \<times> (string \<rightharpoonup> string)" where
  "vote_loop vote me cluster nodes [] st = st"
| "vote_loop vote me cluster nodes (i # is) (votes, states) =
     (let nodeID = cluster ! (i mod length cluster)
      in if nodeID = me then vote_loop vote me cluster nodes is (votes, states)
         else if nodeID \<notin> set nodes then vote_loop vote me cluster nodes is (votes, states(nodeID \<mapsto> ''unreachable''))
         else if vote i then vote_loop vote me cluster nodes is (votes + 1, states(nodeID \<mapsto> ''approved''))
         else vote_loop vote me cluster nodes is (votes, states(nodeID \<mapsto> ''rejected'')))"

definition vote_at :: "(nat \<Rightarrow> time) \<Rightarrow> critical_op \<Rightarrow> nat \<Rightarrow> bool" where
  "vote_at clock op i = simulateNodeVoteWithTimeout (clock (2 * i + 10)) (clock (2 * i + 11)) op"

definition collect_votes :: "(nat \<Rightarrow> time) \<Rightarrow> critical_op \<Rightarrow> raft \<Rightarrow> nat \<times> (string \<rightharpoonup> string)" where
  "collect_votes clock op rc =
     vote_loop (vote_at clock op) (rc_nodeID rc) (rc_cluster rc) (getConnectedNodes rc) [1..<length (rc_cluster rc)]
       (1, [rc_nodeID rc \<mapsto> ''approved''])"

definition new_trigger :: "trigger_type \<Rightarrow> time \<Rightarrow> (string \<rightharpoonup> any) \<Rightarrow> raft \<Rightarrow> recovery_trigger" where
  "new_trigger ty now md rc = \<lparr>rt_Type = ty, rt_NodeID = rc_nodeID rc, rt_Timestamp = now, rt_Metadata = md\<rparr>"

definition no_quorum_result :: "(nat \<Rightarrow> time) \<Rightarrow> critical_op \<Rightarrow> raft \<Rightarrow> consensus_result \<times> raft" where
  "no_quorum_result clock op rc =
     (\<lparr>cr_Operation = op, cr_Approved = False, cr_VotingNodes = [], cr_ApprovalRate = 0, cr_CommittedAt = 0,
       cr_Error = Some ''consensus failed: no quorum due to network partition''\<rparr>,
      rc\<lparr>rc_recoveryManager :=
        TriggerRecovery (new_trigger QuorumLossTrigger (clock 2) [''operation_id'' \<mapsto> AStr (co_ID op)] rc)
          (RecordFailedOperation (clock 1) op ''no quorum due to network partition'' Map.empty (rc_recoveryManager rc))\<rparr>)"

text \<open>
  The vote and what follows it, in the stages between which the call holds no mutex and the other
  goroutines see what it has recorded. \<open>show_duration\<close> prints a duration, \<open>fl\<close> rounds the rate.
  \<open>clock\<close> gives the start, the time of the result, the two measures of the timeout and the times of
  what is recorded.
\<close>

record vote =
  vt_Result :: consensus_result
  vt_States :: "string \<rightharpoonup> string"
  vt_Approvals :: nat
  vt_TimedOut :: bool

definition take_votes :: "(duration \<Rightarrow> string) \<Rightarrow> (rat \<Rightarrow> rat) \<Rightarrow> (nat \<Rightarrow> time) \<Rightarrow> critical_op \<Rightarrow> raft \<Rightarrow> vote" where
  "take_votes show_duration fl clock op rc =
     (let (approvalCount, states) = collect_votes clock op rc; nodes = getConnectedNodes rc;
          timeout = (clock 3 - clock 0 > rc_consensusTimeout rc);
          r = \<lparr>cr_Operation = op, cr_Approved = (approvalCount \<ge> rc_quorumSize rc), cr_VotingNodes = nodes,
               cr_ApprovalRate = fl (rat_of_nat approvalCount / rat_of_nat (length nodes)), cr_CommittedAt = clock 2, cr_Error = None\<rparr>
      in \<lparr>vt_Result = (if timeout then r\<lparr>cr_Approved := False, cr_Error := Some (''consensus timeout after '' @ show_duration (clock 4 - clock 0))\<rparr> else r),
          vt_States = states, vt_Approvals = approvalCount, vt_TimedOut = timeout\<rparr>)"

text \<open>After a timeout the operation is recorded and the recovery triggered.\<close>

definition record_timeout :: "(nat \<Rightarrow> time) \<Rightarrow> vote \<Rightarrow> raft \<Rightarrow> raft" where
  "record_timeout clock v rc = rc\<lparr>rc_recoveryManager :=
     RecordFailedOperation (clock 5) (cr_Operation (vt_Result v)) ''consensus timeout'' (vt_States v) (rc_recoveryManager rc)\<rparr>"

definition trigger_timeout :: "(duration \<Rightarrow> string) \<Rightarrow> (nat \<Rightarrow> time) \<Rightarrow> vote \<Rightarrow> raft \<Rightarrow> raft" where
  "trigger_timeout show_duration clock v rc = rc\<lparr>rc_recoveryManager :=
     TriggerRecovery (new_trigger ConsensusTimeoutTrigger (clock 6)
       [''operation_id'' \<mapsto> AStr (co_ID (cr_Operation (vt_Result v))),
        ''timeout_duration'' \<mapsto> AStr (show_duration (clock 7 - clock 0))] rc) (rc_recoveryManager rc)\<rparr>"

definition count_result :: "(nat \<Rightarrow> time) \<Rightarrow> bool \<Rightarrow> consensus_metrics \<Rightarrow> consensus_metrics" where
  "count_result clock ok m =
     (let m1 = m\<lparr>cm_AverageConsensusTime := (cm_AverageConsensusTime m + (clock 8 - clock 0)) div 2\<rparr>
      in if ok then m1\<lparr>cm_OperationsCommitted := cm_OperationsCommitted m1 + 1\<rparr>
         else m1\<lparr>cm_OperationsRejected := cm_OperationsRejected m1 + 1, cm_QuorumFailures := cm_QuorumFailures m1 + 1\<rparr>)"

text \<open>The metrics, and under their mutex the record of a failure, which replaces that of a timeout.\<close>

definition close_vote :: "(nat \<Rightarrow> time) \<Rightarrow> vote \<Rightarrow> raft \<Rightarrow> consensus_result \<times> raft" where
  "close_vote clock v rc =
     (let ok = cr_Approved (vt_Result v); op = cr_Operation (vt_Result v);
          rc1 = rc\<lparr>rc_metrics := count_result clock ok (rc_metrics rc)\<rparr>;
          r = (if \<not> ok \<and> cr_Error (vt_Result v) = None
               then (vt_Result v)\<lparr>cr_Error := Some (''quorum not reached: '' @ show_nat (vt_Approvals v) @ ''/'' @ show_nat (rc_quorumSize rc) @ '' votes'')\<rparr>
               else vt_Result v)
      in (r, if \<not> ok \<and> the (cr_Error r) \<noteq> ''consensus timeout''
             then rc1\<lparr>rc_recoveryManager := RecordFailedOperation (clock 9) op (the (cr_Error r)) (vt_States v) (rc_recoveryManager rc1)\<rparr>
             else rc1))"

definition store_result :: "consensus_result \<Rightarrow> raft \<Rightarrow> raft" where
  "store_result r rc = rc\<lparr>rc_committedOps := (rc_committedOps rc)(co_ID (cr_Operation r) \<mapsto> r),
     rc_pendingOps := (rc_pendingOps rc)(co_ID (cr_Operation r) := None)\<rparr>"

text \<open>The stages one after the other, with nobody else in between.\<close>

definition voted_result :: "(duration \<Rightarrow> string) \<Rightarrow> (rat \<Rightarrow> rat) \<Rightarrow> (nat \<Rightarrow> time) \<Rightarrow> critical_op \<Rightarrow> raft \<Rightarrow> consensus_result \<times> raft" where
  "voted_result show_duration fl clock op rc =
     (let v = take_votes show_duration fl clock op rc;
          rc1 = (if vt_TimedOut v then trigger_timeout show_duration clock v (record_timeout clock v rc) else rc);
          (r, rc2) = close_vote clock v rc1
      in (r, store_result r rc2))"

text \<open>
  The whole call without interference; the steps in which other goroutines see it are those of
  \<open>raft_run\<close> in ConsensusRecovery. Before Start there is no detector, and its mutex is read through a
  nil pointer.
\<close>

definition processConsensus :: "(duration \<Rightarrow> string) \<Rightarrow> (rat \<Rightarrow> rat) \<Rightarrow> (nat \<Rightarrow> time) \<Rightarrow> critical_op \<Rightarrow> raft \<Rightarrow> (consensus_result \<times> raft) outcome" where
  "processConsensus show_duration fl clock op rc =
     (case rm_partitionDetector (rc_recoveryManager rc) of
        None \<Rightarrow> Panics
      | Some pd \<Rightarrow>
          Returns (if IsPartitioned pd \<and> \<not> pd_HasQuorum (length (rc_cluster rc)) pd then no_quorum_result clock op rc
            else voted_result show_duration fl clock op rc))"

text \<open>The checks of a proposal, and what it does before it is queued.\<close>

definition rc_validateOperation :: "(decimal \<Rightarrow> string) \<Rightarrow> critical_op \<Rightarrow> string option" where
  "rc_validateOperation show_dec op =
     (if co_ID op = [] then Some ''operation ID is required''
      else if co_Type op = [] then Some ''operation type is required''
      else if co_Amount op = 0 \<or> co_Amount op < 0 then Some (''invalid amount: '' @ show_dec (co_Amount op))
      else if co_Currency op = [] then Some ''currency is required''
      else None)"

definition propose_start :: "(decimal \<Rightarrow> string) \<Rightarrow> critical_op \<Rightarrow> raft \<Rightarrow> string option \<times> raft" where
  "propose_start show_dec op rc =
     (if \<not> rc_isLeader rc then (Some (''node '' @ rc_nodeID rc @ '' is not the leader''), rc)
      else case rc_validateOperation show_dec op of
             Some e \<Rightarrow> (Some (''operation validation failed: '' @ e), rc)
           | None \<Rightarrow> (None, rc\<lparr>rc_pendingOps := (rc_pendingOps rc)(co_ID op \<mapsto> op),
               rc_metrics := (rc_metrics rc)\<lparr>cm_OperationsProposed := cm_OperationsProposed (rc_metrics rc) + 1\<rparr>\<rparr>))"

record generic_op =
  go_ID :: string
  go_Type :: string
  go_Data :: "string \<rightharpoonup> any"
  go_Timestamp :: time

definition text_field :: "(string \<rightharpoonup> any) \<Rightarrow> string \<Rightarrow> string" where
  "text_field m k = (case m k of Some (AStr s) \<Rightarrow> s | _ \<Rightarrow> [])"

text \<open>The conversion of a generic operation; \<open>NewFromFloat\<close> is the decimal library's.\<close>

definition generic_to_critical :: "(rat \<Rightarrow> decimal) \<Rightarrow> generic_op \<Rightarrow> critical_op" where
  "generic_to_critical NewFromFloat op =
     \<lparr>co_ID = go_ID op, co_Type = go_Type op, co_UserID = text_field (go_Data op) ''user_id'',
      co_OrderID = text_field (go_Data op) ''order_id'', co_TradeID = text_field (go_Data op) ''trade_id'',
      co_FromAccount = text_field (go_Data op) ''from_account'', co_ToAccount = text_field (go_Data op) ''to_account'',
      co_Amount = (case go_Data op ''amount'' of Some (AFloat x) \<Rightarrow> NewFromFloat x | _ \<Rightarrow> 0),
      co_Currency = text_field (go_Data op) ''currency'', co_Metadata = go_Data op, co_Timestamp = go_Timestamp op,
      co_Priority = (case go_Data op ''priority'' of Some (AInt p) \<Rightarrow> p | _ \<Rightarrow> 3)\<rparr>"

section \<open>Leadership\<close>

definition shouldBecomeLeader :: "time \<Rightarrow> bool" where
  "shouldBecomeLeader now \<longleftrightarrow> now mod 10 < 2"

definition promoteToLeader :: "raft \<Rightarrow> raft" where
  "promoteToLeader rc = rc\<lparr>rc_isLeader := True,
     rc_metrics := (rc_metrics rc)\<lparr>cm_LeaderElections := cm_LeaderElections (rc_metrics rc) + 1\<rparr>\<rparr>"

definition stepDownAsLeader :: "raft \<Rightarrow> raft" where
  "stepDownAsLeader rc = rc\<lparr>rc_isLeader := False\<rparr>"

text \<open>A tick of the election worker; the second component is the time of its last promotion.\<close>

definition leader_tick :: "(nat \<Rightarrow> time) \<Rightarrow> raft \<times> time \<Rightarrow> raft \<times> time" where
  "leader_tick clock st =
     (let (rc, lastLeaderCheck) = st
      in if rc_isLeader rc then
           (if length (getConnectedNodes rc) < rc_quorumSize rc
            then (let rc1 = stepDownAsLeader rc
                  in (rc1\<lparr>rc_recoveryManager := TriggerRecovery (new_trigger LeaderFailureTrigger (clock 0)
                       [''reason'' \<mapsto> AStr ''quorum_lost'', ''connected_nodes'' \<mapsto> AInt (int (length (getConnectedNodes rc)))] rc)
                       (rc_recoveryManager rc1)\<rparr>, lastLeaderCheck))
            else st)
         else if shouldBecomeLeader (clock 0) \<and> clock 1 - lastLeaderCheck > 15 * second
           then (promoteToLeader rc, clock 2)
         else st)"

definition rc_IsPartitioned :: "raft \<Rightarrow> bool" where
  "rc_IsPartitioned rc = (case rm_partitionDetector (rc_recoveryManager rc) of None \<Rightarrow> False | Some pd \<Rightarrow> IsPartitioned pd)"

definition rc_HasQuorum :: "raft \<Rightarrow> bool" where
  "rc_HasQuorum rc =
     (case rm_partitionDetector (rc_recoveryManager rc) of None \<Rightarrow> True | Some pd \<Rightarrow> pd_HasQuorum (length (rc_cluster rc)) pd)"

definition rc_IsHealthy :: "raft \<Rightarrow> bool" where
  "rc_IsHealthy rc \<longleftrightarrow> rc_HasQuorum rc \<and> \<not> rc_IsPartitioned rc"

definition ForceRecovery :: "trigger_type \<Rightarrow> (string \<rightharpoonup> any) \<Rightarrow> time \<Rightarrow> raft \<Rightarrow> raft" where
  "ForceRecovery ty md now rc = rc\<lparr>rc_recoveryManager := TriggerRecovery (new_trigger ty now md rc) (rc_recoveryManager rc)\<rparr>"

end
