(* ===== verification/ConsensusRecovery.thy ===== *)
theory ConsensusRecovery
  imports RaftCoordinator
begin

text \<open>
  The recovery of \<open>internal/trading/consensus/recovery_manager.go\<close>: the handling of its triggers, the retries of failed
  operations and the view of the network's health, and the system of the coordinator's goroutines with
  their two queues, as a relation of its steps.
\<close>

section \<open>Retrying\<close>

text \<open>The operations a retry takes, in the order \<open>ids\<close> of the map, which the runtime chooses.\<close>

definition retry_candidates :: "nat \<Rightarrow> string list \<Rightarrow> recovery_manager \<Rightarrow> failed_operation list" where
  "retry_candidates priority ids rm =
     filter (\<lambda>op. fo_Priority op \<le> priority \<and> fo_Retryable op) (map (\<lambda>i. the (rm_failedOperations rm i)) ids)"

text \<open>The attempt of a retry is counted before the proposal; what a proposal's outcome changes.\<close>

definition count_retry :: "failed_operation \<Rightarrow> raft \<Rightarrow> raft" where
  "count_retry failedOp rc =
     (let i = co_ID (fo_Operation failedOp); rm = rc_recoveryManager rc
      in rc\<lparr>rc_recoveryManager := rm\<lparr>rm_recoveryAttempts := (rm_recoveryAttempts rm)(i := rm_recoveryAttempts rm i + 1)\<rparr>\<rparr>)"

definition settle_retry :: "failed_operation \<Rightarrow> string + consensus_result \<Rightarrow> raft \<Rightarrow> string option \<times> raft" where
  "settle_retry failedOp outcome rc =
     (case outcome of
        Inl e \<Rightarrow> (Some (''operation retry failed: '' @ e), rc)
      | Inr r \<Rightarrow>
          (if cr_Approved r
           then (None, rc\<lparr>rc_recoveryManager :=
             (let rm = rc_recoveryManager rc; x = rm_metrics rm; i = co_ID (fo_Operation failedOp); ty = co_Type (fo_Operation failedOp)
              in rm\<lparr>rm_failedOperations := (rm_failedOperations rm)(i := None),
                   rm_recoveryAttempts := (rm_recoveryAttempts rm)(i := 0),
                   rm_metrics := x\<lparr>rx_OperationRecoveryStats := (rx_OperationRecoveryStats x)(ty := rx_OperationRecoveryStats x ty + 1)\<rparr>\<rparr>)\<rparr>)
           else (None, rc)))"

text \<open>One retry; \<open>propose\<close> is the outcome of ProposeOperation, which waits for the other goroutines.\<close>

definition retryOperation :: "(critical_op \<Rightarrow> raft \<Rightarrow> (string + consensus_result) \<times> raft) \<Rightarrow> failed_operation \<Rightarrow> raft \<Rightarrow> string option \<times> raft" where
  "retryOperation propose failedOp rc =
     (let i = co_ID (fo_Operation failedOp); rm = rc_recoveryManager rc
      in if rm_recoveryAttempts rm i \<ge> rm_maxRecoveryAttempts rm
         then (Some (''max recovery attempts exceeded for operation '' @ i), rc)
         else (case propose (fo_Operation failedOp) (count_retry failedOp rc) of
                 (outcome, rc2) \<Rightarrow> settle_retry failedOp outcome rc2))"

fun retry_all :: "(critical_op \<Rightarrow> raft \<Rightarrow> (string + consensus_result) \<times> raft) \<Rightarrow> failed_operation list \<Rightarrow> raft \<Rightarrow> raft" where
  "retry_all propose [] rc = rc"
| "retry_all propose (op # ops) rc = retry_all propose ops (snd (retryOperation propose op rc))"

definition retryFailedOperations :: "(critical_op \<Rightarrow> raft \<Rightarrow> (string + consensus_result) \<times> raft) \<Rightarrow> nat \<Rightarrow> string list \<Rightarrow> raft \<Rightarrow> raft" where
  "retryFailedOperations propose priority ids rc =
     retry_all propose (retry_candidates priority ids (rc_recoveryManager rc)) rc"

section \<open>Network health\<close>

definition updateNetworkHealth :: "time \<Rightarrow> string list \<Rightarrow> recovery_manager \<Rightarrow> recovery_manager" where
  "updateNetworkHealth now ids rm =
     (case rm_partitionDetector rm of
        None \<Rightarrow> rm
      | Some pd \<Rightarrow>
          (let conn = (\<lambda>n. the (pd_nodeConnectivity pd n));
               up = rm_nodeID rm # filter (\<lambda>n. nc_IsReachable (conn n)) ids;
               down = filter (\<lambda>n. \<not> nc_IsReachable (conn n)) ids
           in rm\<lparr>rm_networkHealth := \<lparr>nh_ConnectedNodes = up, nh_DisconnectedNodes = down, nh_LastHealthCheck = now,
                nh_PartitionDetected = IsPartitioned pd,
                nh_QuorumAvailable = (length up \<ge> (length up + length down) div 2 + 1),
                nh_NodeLatencies = map_option nc_AverageLatency \<circ> pd_nodeConnectivity pd\<rparr>\<rparr>))"

definition checkNetworkHealth :: "string list \<Rightarrow> recovery_manager \<Rightarrow> string option" where
  "checkNetworkHealth ids rm =
     (case rm_partitionDetector rm of
        None \<Rightarrow> Some ''partition detector not initialized''
      | Some pd \<Rightarrow>
          (let bad = length (filter (\<lambda>n. \<not> nc_IsReachable (the (pd_nodeConnectivity pd n))) ids)
           in if bad > length ids div 2
              then Some (''majority of nodes unreachable: '' @ show_nat bad @ ''/'' @ show_nat (length ids)) else None))"

definition simulateReconnection :: "time \<Rightarrow> bool" where
  "simulateReconnection now \<longleftrightarrow> now mod 10 < 3"

definition attemptNodeReconnection :: "(nat \<Rightarrow> time) \<Rightarrow> recovery_manager \<Rightarrow> nat" where
  "attemptNodeReconnection clock rm =
     length (filter (\<lambda>i. simulateReconnection (clock i)) [0..<length (nh_DisconnectedNodes (rm_networkHealth rm))])"

definition triggerEmergencyProtocols :: "string option" where
  "triggerEmergencyProtocols = Some ''emergency protocols activated - manual intervention required''"

section \<open>Handling a trigger\<close>

text \<open>
  What the handler waits for or learns from elsewhere: the orders of the maps, whether a leader was
  established and the partition healed in time, the outcome of proposals and of the clock.
\<close>

record recovery_env =
  re_ids :: "string list"
  re_nodes :: "string list"
  re_order :: "string list"
  re_established :: bool
  re_healed :: bool
  re_propose :: "critical_op \<Rightarrow> raft \<Rightarrow> (string + consensus_result) \<times> raft"
  re_fl :: "rat \<Rightarrow> rat"
  re_clock :: "nat \<Rightarrow> time"

text \<open>A handler is finished, with an error or without, or ends by retrying the operations up to a priority.\<close>

datatype recovery_plan = Finished "string option" | RetryUpTo nat

definition retry :: "nat \<Rightarrow> raft \<Rightarrow> (recovery_plan \<times> raft) outcome" where
  "retry priority rc = Returns (RetryUpTo priority, rc)"

definition run_plan :: "recovery_env \<Rightarrow> recovery_plan \<Rightarrow> raft \<Rightarrow> string option \<times> raft" where
  "run_plan env plan rc =
     (case plan of
        Finished e \<Rightarrow> (e, rc)
      | RetryUpTo priority \<Rightarrow> (None, retryFailedOperations (re_propose env) priority (re_ids env) rc))"

definition recoverFromConsensusTimeout :: "recovery_env \<Rightarrow> raft \<Rightarrow> (recovery_plan \<times> raft) outcome" where
  "recoverFromConsensusTimeout env rc =
     (case checkNetworkHealth (re_nodes env) (rc_recoveryManager rc) of
        Some e \<Rightarrow> Returns (Finished (Some (''network health check failed: '' @ e)), rc)
      | None \<Rightarrow> retry CriticalRecovery rc)"

definition recoverFromQuorumLoss :: "recovery_env \<Rightarrow> raft \<Rightarrow> (recovery_plan \<times> raft) outcome" where
  "recoverFromQuorumLoss env rc =
     (if nh_QuorumAvailable (rm_networkHealth (rc_recoveryManager rc)) then retry CriticalRecovery rc
      else Returns (Finished triggerEmergencyProtocols, rc))"

definition recoverFromLeaderFailure :: "recovery_env \<Rightarrow> raft \<Rightarrow> (recovery_plan \<times> raft) outcome" where
  "recoverFromLeaderFailure env rc =
     (if \<not> re_established env
      then Returns (Finished (Some ''leader establishment timeout: timeout waiting for leader establishment''), rc)
      else retry HighRecovery rc)"

definition recoverFromNetworkPartition :: "recovery_env \<Rightarrow> raft \<Rightarrow> (recovery_plan \<times> raft) outcome" where
  "recoverFromNetworkPartition env rc =
     (let rm = rc_recoveryManager rc;
          after = (\<lambda>rc. if \<not> re_healed env
            then Returns (Finished (Some ''partition healing timeout: timeout waiting for partition healing''), rc)
            else retry CriticalRecovery rc)
      in case (rm_partitionDetector rm, rm_splitBrainResolver rm) of
           (Some pd, Some sbr) \<Rightarrow>
             (case DetectPartition pd of
                Inl e \<Rightarrow> Returns (Finished (Some (''partition detection failed: '' @ e)), rc)
              | Inr p \<Rightarrow>
                  (if np_HasSplitBrain p then
                     (case ResolveSplitBrain (re_fl env) (re_order env) (re_clock env) p sbr of
                        Returns (Some e, sbr') \<Rightarrow> Returns (Finished (Some (''split-brain resolution failed: '' @ e)),
                          rc\<lparr>rc_recoveryManager := rm\<lparr>rm_splitBrainResolver := Some sbr'\<rparr>\<rparr>)
                      | Returns (None, sbr') \<Rightarrow> after (rc\<lparr>rc_recoveryManager := rm\<lparr>rm_splitBrainResolver := Some sbr'\<rparr>\<rparr>)
                      | Blocks \<Rightarrow> Blocks
                      | Panics \<Rightarrow> Panics)
                   else after rc))
         | _ \<Rightarrow> Panics)"

text \<open>The audit finds nothing and the verification holds, whatever the state.\<close>

definition recoverFromStateInconsistency :: "raft \<Rightarrow> (recovery_plan \<times> raft) outcome" where
  "recoverFromStateInconsistency rc = Returns (Finished None, rc)"

definition forceCommitOperation :: "string \<Rightarrow> recovery_manager \<Rightarrow> string option" where
  "forceCommitOperation i rm =
     (if rm_failedOperations rm i = None then Some (''operation '' @ i @ '' not found in failed operations'') else None)"

definition resetConsensusState :: "recovery_manager \<Rightarrow> recovery_manager" where
  "resetConsensusState rm = rm\<lparr>rm_failedOperations := Map.empty, rm_recoveryAttempts := (\<lambda>i. 0)\<rparr>"

definition performManualRecovery :: "recovery_trigger \<Rightarrow> raft \<Rightarrow> (recovery_plan \<times> raft) outcome" where
  "performManualRecovery t rc =
     (case rt_Metadata t ''recovery_type'' of
        Some (AStr ty) \<Rightarrow>
          (if ty = ''force_commit'' then
             (case rt_Metadata t ''operation_id'' of
                Some (AStr i) \<Rightarrow> Returns (Finished (forceCommitOperation i (rc_recoveryManager rc)), rc)
              | _ \<Rightarrow> Returns (Finished (Some ''operation ID not specified for force commit''), rc))
           else if ty = ''reset_state'' then Returns (Finished None, rc\<lparr>rc_recoveryManager := resetConsensusState (rc_recoveryManager rc)\<rparr>)
           else if ty = ''emergency_shutdown'' then Returns (Finished (Some ''emergency shutdown initiated''), rc)
           else Returns (Finished (Some (''unknown manual recovery type: '' @ ty)), rc))
      | _ \<Rightarrow> Returns (Finished (Some ''manual recovery type not specified''), rc))"

definition count_attempt :: "time \<Rightarrow> raft \<Rightarrow> raft" where
  "count_attempt t rc = rc\<lparr>rc_recoveryManager := (rc_recoveryManager rc)\<lparr>rm_metrics := (rm_metrics (rc_recoveryManager rc))
     \<lparr>rx_RecoveryAttempts := rx_RecoveryAttempts (rm_metrics (rc_recoveryManager rc)) + 1, rx_LastRecoveryAttempt := t\<rparr>\<rparr>\<rparr>"

definition count_recovery :: "duration \<Rightarrow> bool \<Rightarrow> raft \<Rightarrow> raft" where
  "count_recovery d ok rc =
     (let rm = rc_recoveryManager rc; x = (rm_metrics rm)\<lparr>rx_AverageRecoveryTime := (rx_AverageRecoveryTime (rm_metrics rm) + d) div 2\<rparr>
      in rc\<lparr>rc_recoveryManager := rm\<lparr>rm_metrics := (if ok then x\<lparr>rx_SuccessfulRecoveries := rx_SuccessfulRecoveries x + 1\<rparr>
           else x\<lparr>rx_FailedRecoveries := rx_FailedRecoveries x + 1\<rparr>)\<rparr>\<rparr>)"

text \<open>
  What a trigger leads to, up to the retries. The type of a trigger is an enumeration; the source's
  default case, an error for a number that is none of its constants, has no trigger here.
\<close>

definition recover :: "recovery_env \<Rightarrow> recovery_trigger \<Rightarrow> raft \<Rightarrow> (recovery_plan \<times> raft) outcome" where
  "recover env t rc =
     (case rt_Type t of
        ConsensusTimeoutTrigger \<Rightarrow> recoverFromConsensusTimeout env rc
      | QuorumLossTrigger \<Rightarrow> recoverFromQuorumLoss env rc
      | LeaderFailureTrigger \<Rightarrow> recoverFromLeaderFailure env rc
      | NetworkPartitionTrigger \<Rightarrow> recoverFromNetworkPartition env rc
      | StateInconsistencyTrigger \<Rightarrow> recoverFromStateInconsistency rc
      | ManualRecoveryTrigger \<Rightarrow> performManualRecovery t rc)"

definition handleRecoveryTrigger :: "recovery_env \<Rightarrow> time \<Rightarrow> time \<Rightarrow> recovery_trigger \<Rightarrow> raft \<Rightarrow> raft outcome" where
  "handleRecoveryTrigger env t0 t1 t rc =
     (case recover env t (count_attempt t0 rc) of
        Returns (plan, rc') \<Rightarrow>
          (case run_plan env plan rc' of (err, rc2) \<Rightarrow> Returns (count_recovery (t1 - t0) (err = None) rc2))
      | Blocks \<Rightarrow> Blocks
      | Panics \<Rightarrow> Panics)"

text \<open>The worker takes the oldest trigger.\<close>

definition recovery_step :: "recovery_env \<Rightarrow> time \<Rightarrow> time \<Rightarrow> raft \<Rightarrow> raft outcome" where
  "recovery_step env t0 t1 rc =
     (case rm_recoveryTriggerCh (rc_recoveryManager rc) of
        [] \<Rightarrow> Blocks
      | t # ts \<Rightarrow> handleRecoveryTrigger env t0 t1 t
          (rc\<lparr>rc_recoveryManager := (rc_recoveryManager rc)\<lparr>rm_recoveryTriggerCh := ts\<rparr>\<rparr>))"

section \<open>The goroutines at work\<close>

text \<open>
  The coordinator with its consensus worker and its recovery worker each at a place of its own: between
  the stages of a vote, and between the retries of a recovery and while one waits for its proposal, the
  other goroutines run. Any proposal may be made and any operation reach the consensus worker at any
  time, and the outcome of a retry's proposal is anything, as which answer it gets depends on the queues.
  The record of a failure without a quorum and the trigger after it are one step, as are the reads of
  a handler before its retries; nobody else writes the resolver they may write.
\<close>

datatype vote_stage = VoteTaken | VoteRecorded | VoteTriggered | VoteClosed

datatype recovery_pc = RecoveryIdle | RecoveryPlanned nat | RecoveryRetrying "failed_operation list"
  | RecoveryProposing failed_operation "failed_operation list"

record raft_run =
  ru_raft :: raft
  ru_vote :: "(vote \<times> vote_stage) option"
  ru_recovery :: recovery_pc

inductive run_step :: "(duration \<Rightarrow> string) \<Rightarrow> (rat \<Rightarrow> rat) \<Rightarrow> (decimal \<Rightarrow> string) \<Rightarrow> raft_run \<Rightarrow> raft_run \<Rightarrow> bool"
  for show_duration fl show_dec where
  propose: "propose_start show_dec op (ru_raft s) = (e, rc) \<Longrightarrow> run_step show_duration fl show_dec s (s\<lparr>ru_raft := rc\<rparr>)"
| no_quorum: "ru_vote s = None \<Longrightarrow> rm_partitionDetector (rc_recoveryManager (ru_raft s)) = Some pd \<Longrightarrow>
    IsPartitioned pd \<and> \<not> pd_HasQuorum (length (rc_cluster (ru_raft s))) pd \<Longrightarrow>
    no_quorum_result clock op (ru_raft s) = (r, rc) \<Longrightarrow> run_step show_duration fl show_dec s (s\<lparr>ru_raft := rc\<rparr>)"
| votes: "ru_vote s = None \<Longrightarrow> rm_partitionDetector (rc_recoveryManager (ru_raft s)) = Some pd \<Longrightarrow>
    \<not> (IsPartitioned pd \<and> \<not> pd_HasQuorum (length (rc_cluster (ru_raft s))) pd) \<Longrightarrow>
    run_step show_duration fl show_dec s
      (s\<lparr>ru_vote := Some (take_votes show_duration fl clock op (ru_raft s), VoteTaken)\<rparr>)"
| vote_timeout: "ru_vote s = Some (v, VoteTaken) \<Longrightarrow> vt_TimedOut v \<Longrightarrow>
    run_step show_duration fl show_dec s (s\<lparr>ru_raft := record_timeout clock v (ru_raft s), ru_vote := Some (v, VoteRecorded)\<rparr>)"
| vote_trigger: "ru_vote s = Some (v, VoteRecorded) \<Longrightarrow>
    run_step show_duration fl show_dec s
      (s\<lparr>ru_raft := trigger_timeout show_duration clock v (ru_raft s), ru_vote := Some (v, VoteTriggered)\<rparr>)"
| vote_close: "ru_vote s = Some (v, stage) \<Longrightarrow> stage = VoteTriggered \<or> stage = VoteTaken \<and> \<not> vt_TimedOut v \<Longrightarrow>
    close_vote clock v (ru_raft s) = (r, rc) \<Longrightarrow>
    run_step show_duration fl show_dec s (s\<lparr>ru_raft := rc, ru_vote := Some (v\<lparr>vt_Result := r\<rparr>, VoteClosed)\<rparr>)"
| vote_store: "ru_vote s = Some (v, VoteClosed) \<Longrightarrow>
    run_step show_duration fl show_dec s (s\<lparr>ru_raft := store_result (vt_Result v) (ru_raft s), ru_vote := None\<rparr>)"
| leader: "leader_tick clock (ru_raft s, t) = (rc, t') \<Longrightarrow> run_step show_duration fl show_dec s (s\<lparr>ru_raft := rc\<rparr>)"
| force: "run_step show_duration fl show_dec s (s\<lparr>ru_raft := ForceRecovery ty md now (ru_raft s)\<rparr>)"
| monitor: "run_step show_duration fl show_dec s (s\<lparr>ru_raft := (ru_raft s)\<lparr>rc_recoveryManager := (rc_recoveryManager (ru_raft s))
    \<lparr>rm_partitionDetector := map_option (monitor_tick ps now (rc_cluster (ru_raft s)))
      (rm_partitionDetector (rc_recoveryManager (ru_raft s)))\<rparr>\<rparr>\<rparr>)"
| health: "run_step show_duration fl show_dec s
    (s\<lparr>ru_raft := (ru_raft s)\<lparr>rc_recoveryManager := updateNetworkHealth now ids (rc_recoveryManager (ru_raft s))\<rparr>\<rparr>)"
| recover_done: "ru_recovery s = RecoveryIdle \<Longrightarrow> rm_recoveryTriggerCh (rc_recoveryManager (ru_raft s)) = t # ts \<Longrightarrow>
    recover env t (count_attempt t0 ((ru_raft s)\<lparr>rc_recoveryManager := (rc_recoveryManager (ru_raft s))\<lparr>rm_recoveryTriggerCh := ts\<rparr>\<rparr>)) =
      Returns (Finished e, rc) \<Longrightarrow>
    run_step show_duration fl show_dec s (s\<lparr>ru_raft := count_recovery d (e = None) rc\<rparr>)"
| recover_retry: "ru_recovery s = RecoveryIdle \<Longrightarrow> rm_recoveryTriggerCh (rc_recoveryManager (ru_raft s)) = t # ts \<Longrightarrow>
    recover env t (count_attempt t0 ((ru_raft s)\<lparr>rc_recoveryManager := (rc_recoveryManager (ru_raft s))\<lparr>rm_recoveryTriggerCh := ts\<rparr>\<rparr>)) =
      Returns (RetryUpTo priority, rc) \<Longrightarrow>
    run_step show_duration fl show_dec s (s\<lparr>ru_raft := rc, ru_recovery := RecoveryPlanned priority\<rparr>)"
| retry_collect: "ru_recovery s = RecoveryPlanned priority \<Longrightarrow>
    set ids \<subseteq> dom (rm_failedOperations (rc_recoveryManager (ru_raft s))) \<Longrightarrow>
    run_step show_duration fl show_dec s
      (s\<lparr>ru_recovery := RecoveryRetrying (retry_candidates priority ids (rc_recoveryManager (ru_raft s)))\<rparr>)"
| retry_exceeded: "ru_recovery s = RecoveryRetrying (op # ops) \<Longrightarrow> rm = rc_recoveryManager (ru_raft s) \<Longrightarrow>
    rm_recoveryAttempts rm (co_ID (fo_Operation op)) \<ge> rm_maxRecoveryAttempts rm \<Longrightarrow>
    run_step show_duration fl show_dec s (s\<lparr>ru_recovery := RecoveryRetrying ops\<rparr>)"
| retry_propose: "ru_recovery s = RecoveryRetrying (op # ops) \<Longrightarrow> rm = rc_recoveryManager (ru_raft s) \<Longrightarrow>
    rm_recoveryAttempts rm (co_ID (fo_Operation op)) < rm_maxRecoveryAttempts rm \<Longrightarrow>
    run_step show_duration fl show_dec s (s\<lparr>ru_raft := count_retry op (ru_raft s), ru_recovery := RecoveryProposing op ops\<rparr>)"
| retry_settle: "ru_recovery s = RecoveryProposing op ops \<Longrightarrow> settle_retry op outcome (ru_raft s) = (e, rc) \<Longrightarrow>
    run_step show_duration fl show_dec s (s\<lparr>ru_raft := rc, ru_recovery := RecoveryRetrying ops\<rparr>)"
| retry_done: "ru_recovery s = RecoveryRetrying [] \<Longrightarrow>
    run_step show_duration fl show_dec s (s\<lparr>ru_raft := count_recovery d True (ru_raft s), ru_recovery := RecoveryIdle\<rparr>)"

inductive run_reach :: "(duration \<Rightarrow> string) \<Rightarrow> (rat \<Rightarrow> rat) \<Rightarrow> (decimal \<Rightarrow> string) \<Rightarrow> raft_run \<Rightarrow> bool" for sd fl show_dec where
  start: "run_reach sd fl show_dec \<lparr>ru_raft = rc_Start now (NewRaftCoordinator nodeID cluster), ru_vote = None, ru_recovery = RecoveryIdle\<rparr>"
| step: "run_reach sd fl show_dec s \<Longrightarrow> run_step sd fl show_dec s s' \<Longrightarrow> run_reach sd fl show_dec s'"

section \<open>Proposals and their answers\<close>

text \<open>
  A proposal waits in the first queue for the consensus worker, its result in the second queue for
  whoever receives it first: one of the waiting proposers or the commit worker, which only logs it.
  A call whose proposal finds the queue full for five seconds, or whose context ends before it is
  queued, returns an error without waiting; one whose context ends while it waits leaves without an
  answer from the wait, which are what \<open>rs_answers\<close> holds; and the worker drops a result that it cannot
  queue before its own context ends. A consensus call is one step here; what the other goroutines see
  of it is in \<open>raft_run\<close>.
\<close>

datatype answer = Answered consensus_result | TimedOut

record raft_sys =
  rs_raft :: raft
  rs_proposalCh :: "critical_op list"
  rs_commitCh :: "consensus_result list"
  rs_waiting :: "string list"
  rs_answers :: "(string \<times> answer) list"

definition answer_waiting :: "string \<Rightarrow> answer \<Rightarrow> raft_sys \<Rightarrow> raft_sys" where
  "answer_waiting w a s = s\<lparr>rs_waiting := remove1 w (rs_waiting s), rs_answers := rs_answers s @ [(w, a)]\<rparr>"

inductive raft_step :: "(duration \<Rightarrow> string) \<Rightarrow> (rat \<Rightarrow> rat) \<Rightarrow> (decimal \<Rightarrow> string) \<Rightarrow> raft_sys \<Rightarrow> raft_sys \<Rightarrow> bool"
  for show_duration fl show_dec where
  propose: "propose_start show_dec op (rs_raft s) = (None, rc) \<Longrightarrow> length (rs_proposalCh s) < 1000 \<Longrightarrow>
    raft_step show_duration fl show_dec s
      (s\<lparr>rs_raft := rc, rs_proposalCh := rs_proposalCh s @ [op], rs_waiting := co_ID op # rs_waiting s\<rparr>)"
| not_queued: "propose_start show_dec op (rs_raft s) = (None, rc) \<Longrightarrow> raft_step show_duration fl show_dec s (s\<lparr>rs_raft := rc\<rparr>)"
| work: "rs_proposalCh s = op # ops \<Longrightarrow> length (rs_commitCh s) < 1000 \<Longrightarrow>
    processConsensus show_duration fl clock op (rs_raft s) = Returns (r, rc) \<Longrightarrow>
    raft_step show_duration fl show_dec s (s\<lparr>rs_raft := rc, rs_proposalCh := ops, rs_commitCh := rs_commitCh s @ [r]\<rparr>)"
| work_cancelled: "rs_proposalCh s = op # ops \<Longrightarrow>
    processConsensus show_duration fl clock op (rs_raft s) = Returns (r, rc) \<Longrightarrow>
    raft_step show_duration fl show_dec s (s\<lparr>rs_raft := rc, rs_proposalCh := ops\<rparr>)"
| log_result: "rs_commitCh s = r # rest \<Longrightarrow> raft_step show_duration fl show_dec s (s\<lparr>rs_commitCh := rest\<rparr>)"
| receive: "rs_commitCh s = r # rest \<Longrightarrow> w \<in> set (rs_waiting s) \<Longrightarrow>
    raft_step show_duration fl show_dec s
      (if co_ID (cr_Operation r) = w then answer_waiting w (Answered r) (s\<lparr>rs_commitCh := rest\<rparr>) else s\<lparr>rs_commitCh := rest\<rparr>)"
| wait_ends: "w \<in> set (rs_waiting s) \<Longrightarrow> raft_step show_duration fl show_dec s (answer_waiting w TimedOut s)"
| wait_cancelled: "w \<in> set (rs_waiting s) \<Longrightarrow>
    raft_step show_duration fl show_dec s (s\<lparr>rs_waiting := remove1 w (rs_waiting s)\<rparr>)"
| leader: "leader_tick clock (rs_raft s, t) = (rc, t') \<Longrightarrow> raft_step show_duration fl show_dec s (s\<lparr>rs_raft := rc\<rparr>)"

end
