(* ===== verification/ConsensusTheorems.thy ===== *)
theory ConsensusTheorems
  imports PartitionTheorems ConsensusRecovery
begin

text \<open>
  Theorems on the consensus coordinator: what an approval means, what becomes of operations that failed,
  and which answers a proposer can get.
\<close>

section \<open>Votes\<close>

lemma vote_loop_count:
  assumes "distinct (map (\<lambda>i. cluster ! (i mod length cluster)) is)" and "finite {n. states n = Some ''approved''}"
    and "\<forall>i \<in> set is. states (cluster ! (i mod length cluster)) \<noteq> Some ''approved'' \<or> cluster ! (i mod length cluster) = me"
    and "vote_loop vote me cluster nodes is (votes, states) = (votes', states')" and "votes = card {n. states n = Some ''approved''}"
  shows "votes' = card {n. states' n = Some ''approved''} \<and> finite {n. states' n = Some ''approved''} \<and>
    {n. states' n = Some ''approved''} \<subseteq> {n. states n = Some ''approved''} \<union> (\<lambda>i. cluster ! (i mod length cluster)) ` set is"
  using assms
proof (induction "is" arbitrary: votes states)
  case Nil
  then show ?case by auto
next
  case (Cons i "is")
  let ?n = "cluster ! (i mod length cluster)"
  have dist: "distinct (map (\<lambda>i. cluster ! (i mod length cluster)) is)" "\<forall>j \<in> set is. cluster ! (j mod length cluster) \<noteq> ?n"
    using Cons.prems(1) by (auto simp: image_iff)
  show ?case
  proof (cases "?n = me")
    case True
    then show ?thesis using Cons.IH [OF dist(1) Cons.prems(2), of votes] Cons.prems(3-5) by auto
  next
    case False
    then have fresh: "states ?n \<noteq> Some ''approved''" using Cons.prems(3) by auto
    let ?v = "if ?n \<notin> set nodes then ''unreachable'' else if vote i then ''approved'' else ''rejected''"
    let ?states = "states(?n \<mapsto> ?v)"
    have next_votes: "vote_loop vote me cluster nodes is (if ?v = ''approved'' then votes + 1 else votes, ?states) = (votes', states')"
      using Cons.prems(4) False by (auto simp: Let_def split: if_splits)
    have set: "{n. ?states n = Some ''approved''} = (if ?v = ''approved'' then insert ?n {n. states n = Some ''approved''} else {n. states n = Some ''approved''})"
      using fresh by (auto split: if_splits)
    have fin: "finite {n. ?states n = Some ''approved''}" unfolding set using Cons.prems(2) by simp
    have card: "(if ?v = ''approved'' then votes + 1 else votes) = card {n. ?states n = Some ''approved''}"
      unfolding set using Cons.prems(2,5) fresh by simp
    have others: "\<forall>j \<in> set is. ?states (cluster ! (j mod length cluster)) \<noteq> Some ''approved'' \<or> cluster ! (j mod length cluster) = me"
      using Cons.prems(3) dist(2) by auto
    from Cons.IH [OF dist(1) fin others next_votes card] set show ?thesis by (auto split: if_splits)
  qed
qed

definition approvers :: "(nat \<Rightarrow> time) \<Rightarrow> critical_op \<Rightarrow> raft \<Rightarrow> string set" where
  "approvers clock op rc = {n. snd (collect_votes clock op rc) n = Some ''approved''}"

lemma collect_votes_card:
  assumes dist: "distinct (rc_cluster rc)" and me: "rc_nodeID rc \<in> set (rc_cluster rc)"
  shows "fst (collect_votes clock op rc) = card (approvers clock op rc) \<and> approvers clock op rc \<subseteq> set (rc_cluster rc)"
proof -
  let ?c = "rc_cluster rc" and ?is = "[1..<length (rc_cluster rc)]"
  have "map (\<lambda>i. ?c ! (i mod length ?c)) ?is = map (\<lambda>i. ?c ! i) ?is" by (rule map_cong) simp_all
  also have "distinct \<dots>" using dist by (simp add: distinct_map inj_on_def nth_eq_iff_index_eq)
  finally have d: "distinct (map (\<lambda>i. ?c ! (i mod length ?c)) ?is)" .
  have one: "{n. [rc_nodeID rc \<mapsto> ''approved''] n = Some ''approved''} = {rc_nodeID rc}" by auto
  obtain v s where vs: "collect_votes clock op rc = (v, s)" by fastforce
  have "v = card {n. s n = Some ''approved''} \<and> finite {n. s n = Some ''approved''} \<and>
      {n. s n = Some ''approved''} \<subseteq> {rc_nodeID rc} \<union> (\<lambda>i. ?c ! (i mod length ?c)) ` set ?is"
    using vote_loop_count [OF d _ _ vs [unfolded collect_votes_def], unfolded one] by auto
  then show ?thesis using vs me by (auto simp: approvers_def)
qed

lemma voted_result_facts:
  "voted_result sd fl clock op rc = (r, rc') \<Longrightarrow> cr_Operation r = op \<and>
     cr_Approved r = (fst (collect_votes clock op rc) \<ge> rc_quorumSize rc \<and> clock 3 - clock 0 \<le> rc_consensusTimeout rc) \<and>
     (cr_Error r = None \<longleftrightarrow> cr_Approved r) \<and> rc_committedOps rc' (co_ID op) = Some r \<and> rc_pendingOps rc' (co_ID op) = None"
  by (auto simp: voted_result_def take_votes_def close_vote_def Let_def store_result_def record_timeout_def trigger_timeout_def
      split: prod.splits if_splits)

lemma approval_iff:
  assumes "distinct (rc_cluster rc)" and "rc_nodeID rc \<in> set (rc_cluster rc)" and "rc_quorumSize rc = quorum_of (length (rc_cluster rc))"
    and "processConsensus sd fl clock op rc = Returns (r, rc')" and "rm_partitionDetector (rc_recoveryManager rc) = Some pd"
  shows "(cr_Approved r \<longleftrightarrow> (IsPartitioned pd \<longrightarrow> pd_HasQuorum (length (rc_cluster rc)) pd) \<and>
      clock 3 - clock 0 \<le> rc_consensusTimeout rc \<and> is_majority (rc_cluster rc) (approvers clock op rc)) \<and>
    (cr_Error r = None \<longleftrightarrow> cr_Approved r)"
proof (cases "IsPartitioned pd \<and> \<not> pd_HasQuorum (length (rc_cluster rc)) pd")
  case True
  then show ?thesis using assms(4,5) by (auto simp: processConsensus_def no_quorum_result_def)
next
  case False
  then have "voted_result sd fl clock op rc = (r, rc')" using assms(4,5) by (auto simp: processConsensus_def)
  from voted_result_facts [OF this] collect_votes_card [OF assms(1,2), of clock op] False assms(3) show ?thesis
    by (auto simp: is_majority_def)
qed

lemma approved_majority:
  assumes "distinct (rc_cluster rc)" and "rc_nodeID rc \<in> set (rc_cluster rc)" and "rc_quorumSize rc = quorum_of (length (rc_cluster rc))"
    and p: "processConsensus sd fl clock op rc = Returns (r, rc')" and "cr_Approved r"
  shows "is_majority (rc_cluster rc) (approvers clock op rc)"
proof -
  obtain pd where "rm_partitionDetector (rc_recoveryManager rc) = Some pd"
    using p by (auto simp: processConsensus_def split: option.splits)
  then show ?thesis using approval_iff [OF assms(1-3) p] assms(5) by blast
qed

text \<open>
  an operation is approved exactly if the node is not in a partition without a quorum, the votes
  came in time and the nodes that approved are a majority of the cluster; exactly then there is no error.
\<close>

theorem approval_exact:
  assumes "distinct (rc_cluster rc)" and "rc_nodeID rc \<in> set (rc_cluster rc)" and "rc_quorumSize rc = quorum_of (length (rc_cluster rc))"
    and "processConsensus sd fl clock op rc = Returns (r, rc')" and "rm_partitionDetector (rc_recoveryManager rc) = Some pd"
  shows "(cr_Approved r \<longleftrightarrow> (IsPartitioned pd \<longrightarrow> pd_HasQuorum (length (rc_cluster rc)) pd) \<and>
      clock 3 - clock 0 \<le> rc_consensusTimeout rc \<and> is_majority (rc_cluster rc) (approvers clock op rc)) \<and>
    (cr_Error r = None \<longleftrightarrow> cr_Approved r)"
  by (rule approval_iff [OF assms])

text \<open>
  C39: two operations that two coordinators of one cluster approved, at any times and whoever thinks it
  is the leader, have a node in common that approved both.
\<close>

theorem approvals_intersect:
  assumes "distinct cluster" and "rc_cluster rc = cluster" and "rc_cluster rc' = cluster"
    and "rc_nodeID rc \<in> set cluster" and "rc_nodeID rc' \<in> set cluster"
    and "rc_quorumSize rc = quorum_of (length cluster)" and "rc_quorumSize rc' = quorum_of (length cluster)"
    and "processConsensus sd fl clock op rc = Returns (r, s)" and "processConsensus sd fl clock' op' rc' = Returns (r', s')"
    and "cr_Approved r" and "cr_Approved r'"
  shows "approvers clock op rc \<inter> approvers clock' op' rc' \<noteq> {}"
proof (rule majority.intersect)
  show "is_majority cluster (approvers clock op rc)"
    using approved_majority [OF _ _ _ assms(8,10)] assms(1-7) by simp
  show "is_majority cluster (approvers clock' op' rc')"
    using approved_majority [OF _ _ _ assms(9,11)] assms(1-7) by simp
qed

text \<open>A started leader of three nodes, and an operation of the highest priority.\<close>

definition three :: "string list" where
  "three = [''A'', ''B'', ''C'']"

definition demo_raft :: raft where
  "demo_raft = promoteToLeader (rc_Start 0 (NewRaftCoordinator ''A'' three))"

definition demo_op :: critical_op where
  "demo_op = \<lparr>co_ID = ''op1'', co_Type = ''balance_transfer'', co_UserID = [], co_OrderID = [], co_TradeID = [], co_FromAccount = [],
     co_ToAccount = [], co_Amount = 5, co_Currency = ''USD'', co_Metadata = Map.empty, co_Timestamp = 0, co_Priority = 1\<rparr>"

lemmas demo_raft_defs = demo_raft_def three_def promoteToLeader_def rc_Start_def rm_Start_def NewRaftCoordinator_def
  NewRecoveryManager_def NewPartitionDetector_def StartMonitoring_def new_connectivity_def

lemma demo_raft_facts:
  "rc_cluster demo_raft = three" "rc_nodeID demo_raft = ''A''" "rc_quorumSize demo_raft = quorum_of (length three)"
  "distinct three" "''A'' \<in> set three" "rc_consensusTimeout demo_raft = 30 * second"
  by (simp_all add: demo_raft_defs quorum_of_def)

lemma demo_detector: "\<exists>pd. rm_partitionDetector (rc_recoveryManager demo_raft) = Some pd \<and> \<not> IsPartitioned pd"
  by (simp add: demo_raft_defs IsPartitioned_def)

lemma demo_votes: "approvers (\<lambda>i. 0) demo_op demo_raft = set three"
  by (auto simp: approvers_def collect_votes_def demo_raft_defs getConnectedNodes_def vote_at_def simulateNodeVoteWithTimeout_def
      simulateNodeVote_def demo_op_def Let_def upt_rec split: if_splits)

theorem approval_exact_witness:
  "\<exists>r rc'. processConsensus (\<lambda>d. []) id (\<lambda>i. 0) demo_op demo_raft = Returns (r, rc') \<and> cr_Approved r"
proof -
  obtain pd where pd: "rm_partitionDetector (rc_recoveryManager demo_raft) = Some pd" "\<not> IsPartitioned pd"
    using demo_detector by blast
  obtain r rc' where p: "processConsensus (\<lambda>d. []) id (\<lambda>i. 0) demo_op demo_raft = Returns (r, rc')"
    using pd by (auto simp: processConsensus_def) (metis surj_pair)
  have "is_majority three (set three)" by (simp add: is_majority_def three_def quorum_of_def)
  then show ?thesis using approval_exact [OF _ _ _ p pd(1)] pd(2) p by (simp add: demo_raft_facts demo_votes)
qed

lemma demo_approved: "\<exists>r rc'. processConsensus (\<lambda>d. []) id (\<lambda>i. 0) demo_op demo_raft = Returns (r, rc') \<and> cr_Approved r"
proof -
  obtain pd where pd: "rm_partitionDetector (rc_recoveryManager demo_raft) = Some pd" "\<not> IsPartitioned pd"
    using demo_detector by blast
  obtain r rc' where p: "processConsensus (\<lambda>d. []) id (\<lambda>i. 0) demo_op demo_raft = Returns (r, rc')"
    using pd by (auto simp: processConsensus_def) (metis surj_pair)
  have "is_majority three (set three)" by (simp add: is_majority_def three_def quorum_of_def)
  then show ?thesis using approval_iff [OF _ _ _ p pd(1)] pd(2) p by (simp add: demo_raft_facts demo_votes)
qed

theorem approvals_intersect_witness: "\<exists>n. n \<in> approvers (\<lambda>i. 0) demo_op demo_raft \<inter> approvers (\<lambda>i. 0) demo_op demo_raft"
proof -
  obtain r rc' where p: "processConsensus (\<lambda>d. []) id (\<lambda>i. 0) demo_op demo_raft = Returns (r, rc')" "cr_Approved r"
    using demo_approved by blast
  have "approvers (\<lambda>i. 0) demo_op demo_raft \<inter> approvers (\<lambda>i. 0) demo_op demo_raft \<noteq> {}"
    by (rule approvals_intersect [OF _ _ _ _ _ _ _ p(1) p(1) p(2) p(2), of three]) (simp_all add: demo_raft_facts)
  then show ?thesis by blast
qed

section \<open>Failed operations\<close>

text \<open>The reasons the coordinator finally records are none of the retryable ones, which are compared literally.\<close>

lemma reasons:
  "\<not> isRetryableFailure ''no quorum due to network partition''"
  "\<not> isRetryableFailure (''consensus timeout after '' @ x)"
  "\<not> isRetryableFailure (''quorum not reached: '' @ x)"
  "''consensus timeout after '' @ x \<noteq> ''consensus timeout''" "''quorum not reached: '' @ x \<noteq> ''consensus timeout''"
  by (auto simp: isRetryableFailure_def)

abbreviation failed_ops :: "raft \<Rightarrow> string \<rightharpoonup> failed_operation" where
  "failed_ops rc \<equiv> rm_failedOperations (rc_recoveryManager rc)"

lemma Trigger_failed [simp]: "rm_failedOperations (TriggerRecovery t rm) = rm_failedOperations rm"
  by (simp add: TriggerRecovery_def)

text \<open>
  The failures are filed under their operations' IDs, and only those among \<open>W\<close> are marked as retryable.
\<close>

definition filed :: "string set \<Rightarrow> (string \<rightharpoonup> failed_operation) \<Rightarrow> bool" where
  "filed W F \<longleftrightarrow> (\<forall>i fo. F i = Some fo \<longrightarrow> co_ID (fo_Operation fo) = i \<and> (fo_Retryable fo \<longrightarrow> i \<in> W))"

lemma filed_less: "filed W F \<Longrightarrow> F' \<subseteq>\<^sub>m F \<Longrightarrow> filed W F'"
  unfolding filed_def map_le_def by (metis domI)

lemma filed_record:
  "filed W (rm_failedOperations rm) \<Longrightarrow>
   filed (insert (co_ID op) W) (rm_failedOperations (RecordFailedOperation t op reason st rm))"
  "\<not> isRetryableFailure reason \<Longrightarrow> filed (insert (co_ID op) W) (rm_failedOperations rm) \<Longrightarrow>
   filed W (rm_failedOperations (RecordFailedOperation t op reason st rm))"
  by (auto simp: filed_def RecordFailedOperation_def)

lemma filed_candidates:
  assumes "filed W (rm_failedOperations rm)" and "set ids \<subseteq> dom (rm_failedOperations rm)"
    and "fo \<in> set (retry_candidates priority ids rm)"
  shows "co_ID (fo_Operation fo) \<in> W"
proof -
  obtain i where i: "i \<in> set ids" "fo = the (rm_failedOperations rm i)" "fo_Retryable fo"
    using assms(3) by (auto simp: retry_candidates_def)
  then have "rm_failedOperations rm i = Some fo" using assms(2) by auto
  then show ?thesis using assms(1) i(3) by (auto simp: filed_def)
qed

text \<open>What the recovery does to the failures: its handlers remove all or none, a retry at most its own.\<close>

lemma manual_failed:
  assumes "performManualRecovery t rc = Returns (plan, rc')"
  shows "failed_ops rc' \<subseteq>\<^sub>m failed_ops rc"
proof -
  have inner: "rc' = rc" if "(case x of Some (AStr i) \<Rightarrow> Returns (g i, rc) | _ \<Rightarrow> Returns (h, rc)) = Returns (plan, rc')"
    for x g and h :: recovery_plan
    using that by (cases x) (auto split: any.splits)
  have outer: "rc' = rc \<or> rc' = z" if "(if a then X else if b then Returns (n, z) else if c then Returns (u, rc) else Returns (v, rc)) = Returns (plan, rc')"
    and "X = Returns (plan, rc') \<Longrightarrow> rc' = rc" for a b c X z u v and n :: recovery_plan
    using that by (auto split: if_splits)
  have "rc' = rc \<or> rc' = rc\<lparr>rc_recoveryManager := resetConsensusState (rc_recoveryManager rc)\<rparr>"
  proof (cases "rt_Metadata t ''recovery_type''")
    case None
    then show ?thesis using assms by (simp add: performManualRecovery_def)
  next
    case (Some y)
    show ?thesis
    proof (cases y)
      case (AStr ty)
      from assms [unfolded performManualRecovery_def Some AStr option.case any.case] show ?thesis
        by (rule outer) (rule inner)
    qed (use assms Some in \<open>simp_all add: performManualRecovery_def\<close>)
  qed
  then show ?thesis by (auto simp: resetConsensusState_def)
qed

lemma partition_failed:
  assumes r: "recoverFromNetworkPartition env rc = Returns (plan, rc')"
  shows "failed_ops rc' = failed_ops rc"
proof -
  have after: "rc' = rc1" if "(if \<not> re_healed env then Returns (Finished x, rc1) else retry k rc1) = Returns (plan, rc')" for x rc1 k
    using that by (auto simp: retry_def split: if_splits)
  let ?with = "\<lambda>x. rc\<lparr>rc_recoveryManager := (rc_recoveryManager rc)\<lparr>rm_splitBrainResolver := x\<rparr>\<rparr>"
  obtain pd sbr where env: "rm_partitionDetector (rc_recoveryManager rc) = Some pd" "rm_splitBrainResolver (rc_recoveryManager rc) = Some sbr"
    using r by (auto simp: recoverFromNetworkPartition_def Let_def split: option.splits)
  note r' = r [unfolded recoverFromNetworkPartition_def env Let_def option.case prod.case]
  have "rc' = rc \<or> (\<exists>x. rc' = ?with x)"
  proof (cases "DetectPartition pd")
    case (Inl e)
    then show ?thesis using r' by simp
  next
    case (Inr p)
    note r'' = r' [unfolded Inr sum.case]
    show ?thesis
    proof (cases "np_HasSplitBrain p")
      case False
      then show ?thesis using r'' after by simp
    next
      case True
      note q = r'' [simplified True if_True]
      show ?thesis
      proof (cases "ResolveSplitBrain (re_fl env) (re_order env) (re_clock env) p sbr")
        case (Returns y)
        obtain err sbr' where y: "y = (err, sbr')" by fastforce
        show ?thesis
        proof (cases err)
          case None
          have "(if \<not> re_healed env then Returns (Finished (Some ''partition healing timeout: timeout waiting for partition healing''), ?with (Some sbr'))
              else retry 0 (?with (Some sbr'))) = Returns (plan, rc')"
            using q unfolding Returns y None by simp
          then show ?thesis using after by blast
        next
          case (Some x)
          then show ?thesis using q unfolding Returns y by auto
        qed
      qed (use q in simp_all)
    qed
  qed
  then show ?thesis by auto
qed

lemma recover_failed: "recover env t rc = Returns (plan, rc') \<Longrightarrow> failed_ops rc' \<subseteq>\<^sub>m failed_ops rc"
  using manual_failed [of t rc plan rc'] partition_failed [of env rc plan rc']
  by (auto simp: recover_def recoverFromConsensusTimeout_def recoverFromQuorumLoss_def recoverFromLeaderFailure_def
      recoverFromStateInconsistency_def retry_def split: trigger_type.splits option.splits if_splits)

lemma settle_failed: "settle_retry op outcome rc = (e, rc') \<Longrightarrow> failed_ops rc' \<subseteq>\<^sub>m failed_ops rc"
  by (auto simp: settle_retry_def Let_def map_le_def split: sum.splits if_splits)

lemma count_failed [simp]:
  "failed_ops (count_recovery d ok rc) = failed_ops rc" "failed_ops (count_attempt t rc) = failed_ops rc"
  "failed_ops (count_retry op rc) = failed_ops rc" "failed_ops (store_result r rc) = failed_ops rc"
  "failed_ops (ForceRecovery ty md now rc) = failed_ops rc" "failed_ops (trigger_timeout sd clock v rc) = failed_ops rc"
  by (simp_all add: count_recovery_def count_attempt_def count_retry_def store_result_def ForceRecovery_def trigger_timeout_def Let_def)

lemma health_failed [simp]: "rm_failedOperations (updateNetworkHealth now ids rm) = rm_failedOperations rm"
  by (simp add: updateNetworkHealth_def Let_def split: option.splits)

lemma propose_failed: "propose_start show_dec op rc = (e, rc') \<Longrightarrow> failed_ops rc' = failed_ops rc"
  by (auto simp: propose_start_def split: if_splits option.splits)

lemma leader_failed: "leader_tick clock (rc, t) = (rc', t') \<Longrightarrow> failed_ops rc' = failed_ops rc"
  by (auto simp: leader_tick_def Let_def stepDownAsLeader_def promoteToLeader_def split: if_splits)

text \<open>The operation of a vote that timed out, from the record of the timeout to the end of the call's records.\<close>

definition timeout_open :: "raft_run \<Rightarrow> string set" where
  "timeout_open s = (case ru_vote s of
     Some (v, stage) \<Rightarrow> if stage = VoteRecorded \<or> stage = VoteTriggered then {co_ID (cr_Operation (vt_Result v))} else {}
   | None \<Rightarrow> {})"

definition vote_sound :: "raft_run \<Rightarrow> bool" where
  "vote_sound s \<longleftrightarrow> (\<forall>v stage. ru_vote s = Some (v, stage) \<longrightarrow> stage \<noteq> VoteClosed \<longrightarrow>
     (if vt_TimedOut v then \<not> cr_Approved (vt_Result v) \<and> (\<exists>x. cr_Error (vt_Result v) = Some (''consensus timeout after '' @ x))
      else cr_Error (vt_Result v) = None \<and> stage = VoteTaken))"

definition run_inv :: "raft_run \<Rightarrow> bool" where
  "run_inv s \<longleftrightarrow> filed (timeout_open s) (failed_ops (ru_raft s)) \<and> vote_sound s"

lemma take_votes_sound:
  "vote_sound (s\<lparr>ru_vote := Some (take_votes sd fl clock op rc, VoteTaken)\<rparr>)"
  by (auto simp: vote_sound_def take_votes_def Let_def split: prod.splits)

lemma close_vote_filed:
  assumes "filed (insert (co_ID (cr_Operation (vt_Result v))) {}) (failed_ops rc)"
    and "vt_TimedOut v \<Longrightarrow> \<not> cr_Approved (vt_Result v) \<and> (\<exists>x. cr_Error (vt_Result v) = Some (''consensus timeout after '' @ x))"
    and "\<not> vt_TimedOut v \<Longrightarrow> cr_Error (vt_Result v) = None \<and> filed {} (failed_ops rc)"
    and "close_vote clock v rc = (r, rc')"
  shows "filed {} (failed_ops rc')"
proof (cases "cr_Approved (vt_Result v)")
  case True
  then have "filed {} (failed_ops rc)" using assms(2,3) by blast
  then show ?thesis using True assms(4) by (auto simp: close_vote_def Let_def)
next
  case False
  obtain reason where r: "\<not> isRetryableFailure reason" "reason \<noteq> ''consensus timeout''"
    "failed_ops rc' = rm_failedOperations (RecordFailedOperation (clock 9) (cr_Operation (vt_Result v)) reason (vt_States v) (rc_recoveryManager rc))"
  proof (cases "vt_TimedOut v")
    case True
    then obtain x where "cr_Error (vt_Result v) = Some (''consensus timeout after '' @ x)" using assms(2) by blast
    then show ?thesis using that [of "''consensus timeout after '' @ x"] assms(4) False reasons
      by (auto simp: close_vote_def Let_def RecordFailedOperation_def simp del: append_Cons append.simps)
  next
    case nt: False
    let ?x = "show_nat (vt_Approvals v) @ ''/'' @ show_nat (rc_quorumSize rc) @ '' votes''"
    show ?thesis using that [of "''quorum not reached: '' @ ?x"] assms(3) [OF nt] assms(4) False reasons
      by (auto simp: close_vote_def Let_def RecordFailedOperation_def simp del: append_Cons append.simps)
  qed
  then show ?thesis using filed_record(2) [OF r(1) assms(1)] by simp
qed

text \<open>Steps that leave the consensus worker where it is and add no failure.\<close>

lemma run_inv_less:
  assumes "run_inv s" and "ru_vote s' = ru_vote s" and "failed_ops (ru_raft s') \<subseteq>\<^sub>m failed_ops (ru_raft s)"
  shows "run_inv s'"
proof -
  have "timeout_open s' = timeout_open s" "vote_sound s' = vote_sound s"
    using assms(2) by (simp_all add: timeout_open_def vote_sound_def)
  then show ?thesis using assms(1) filed_less [OF _ assms(3)] by (simp add: run_inv_def)
qed

lemma run_step_inv: "run_step sd fl show_dec s s' \<Longrightarrow> run_inv s \<Longrightarrow> run_inv s'"
proof (induction rule: run_step.induct)
  case (propose op s e rc)
  then show ?case using propose_failed [OF propose.hyps] by - (rule run_inv_less [of s], simp_all)
next
  case (no_quorum s pd clock op r rc)
  have o: "timeout_open s = {}" using no_quorum.hyps(1) by (simp add: timeout_open_def)
  have "filed {} (rm_failedOperations (rc_recoveryManager (ru_raft s)))" using no_quorum.prems o by (simp add: run_inv_def)
  then have "filed {} (rm_failedOperations (RecordFailedOperation (clock 1) op ''no quorum due to network partition'' Map.empty
      (rc_recoveryManager (ru_raft s))))"
    by (intro filed_record(2) reasons) (auto simp: filed_def)
  then show ?case using no_quorum.hyps(1,4)
    by (auto simp: run_inv_def timeout_open_def vote_sound_def no_quorum_result_def)
next
  case (votes s pd clock op)
  have "timeout_open s = {}" using votes.hyps(1) by (simp add: timeout_open_def)
  then show ?case using votes.prems take_votes_sound by (auto simp: run_inv_def timeout_open_def)
next
  case (vote_timeout s v clock)
  have "timeout_open s = {}" using vote_timeout.hyps(1) by (simp add: timeout_open_def)
  then have "filed {} (rm_failedOperations (rc_recoveryManager (ru_raft s)))" using vote_timeout.prems by (simp add: run_inv_def)
  then have "filed {co_ID (cr_Operation (vt_Result v))} (failed_ops (record_timeout clock v (ru_raft s)))"
    using filed_record(1) by (simp add: record_timeout_def)
  then show ?case using vote_timeout by (auto simp: run_inv_def timeout_open_def vote_sound_def)
next
  case (vote_trigger s v clock)
  then show ?case by (auto simp: run_inv_def timeout_open_def vote_sound_def split: if_splits)
next
  case (vote_close s v stage clock r rc)
  have v: "if vt_TimedOut v then \<not> cr_Approved (vt_Result v) \<and> (\<exists>x. cr_Error (vt_Result v) = Some (''consensus timeout after '' @ x))
      else cr_Error (vt_Result v) = None \<and> stage = VoteTaken"
    using vote_close.prems vote_close.hyps(1,2) unfolding run_inv_def vote_sound_def by blast
  have f: "filed (timeout_open s) (failed_ops (ru_raft s))" using vote_close.prems by (simp add: run_inv_def)
  have "filed {} (failed_ops rc)"
  proof (rule close_vote_filed [OF _ _ _ vote_close.hyps(3)])
    show "filed {co_ID (cr_Operation (vt_Result v))} (failed_ops (ru_raft s))"
      using f vote_close.hyps(1) by (auto simp: timeout_open_def filed_def split: if_splits)
    show "cr_Error (vt_Result v) = None \<and> filed {} (failed_ops (ru_raft s))" if "\<not> vt_TimedOut v"
      using f v that vote_close.hyps(1) by (simp add: timeout_open_def)
  qed (use v in simp_all)
  then show ?case by (simp add: run_inv_def timeout_open_def vote_sound_def)
next
  case (vote_store s v)
  then show ?case by (simp add: run_inv_def timeout_open_def vote_sound_def)
next
  case (leader clock s t rc t')
  then show ?case using leader_failed [OF leader.hyps] by - (rule run_inv_less [of s], simp_all)
next
  case (recover_done s t ts env t0 e rc d)
  then show ?case using recover_failed [OF recover_done.hyps(3)] by - (rule run_inv_less [of s], simp_all)
next
  case (recover_retry s t ts env t0 priority rc)
  then show ?case using recover_failed [OF recover_retry.hyps(3)] by - (rule run_inv_less [of s], simp_all)
next
  case (retry_settle s op ops outcome e rc)
  then show ?case using settle_failed [OF retry_settle.hyps(2)] by - (rule run_inv_less [of s], simp_all)
qed (erule run_inv_less; simp)+

lemma run_reach_inv: "run_reach sd fl show_dec s \<Longrightarrow> run_inv s"
proof (induction rule: run_reach.induct)
  case (start now nodeID cluster)
  then show ?case
    by (simp add: run_inv_def filed_def timeout_open_def vote_sound_def rc_Start_def rm_Start_def NewRaftCoordinator_def
        NewRecoveryManager_def Let_def)
next
  case (step s s')
  then show ?case using run_step_inv by blast
qed

text \<open>Without interference the stages are the whole call.\<close>

lemma votes_uninterrupted:
  assumes "ru_vote s = None" and "processConsensus sd fl clock op (ru_raft s) = Returns (r, rc)"
  shows "(run_step sd fl show_dec)\<^sup>*\<^sup>* s (s\<lparr>ru_raft := rc\<rparr>)"
proof -
  obtain pd where pd: "rm_partitionDetector (rc_recoveryManager (ru_raft s)) = Some pd"
    using assms(2) by (auto simp: processConsensus_def split: option.splits)
  show ?thesis
  proof (cases "IsPartitioned pd \<and> \<not> pd_HasQuorum (length (rc_cluster (ru_raft s))) pd")
    case True
    then have "no_quorum_result clock op (ru_raft s) = (r, rc)" using assms(2) pd by (simp add: processConsensus_def)
    from run_step.no_quorum [OF assms(1) pd True this] show ?thesis by (rule r_into_rtranclp)
  next
    case False
    let ?v = "take_votes sd fl clock op (ru_raft s)"
    let ?rc = "if vt_TimedOut ?v then trigger_timeout sd clock ?v (record_timeout clock ?v (ru_raft s)) else ru_raft s"
    obtain rc2 where c: "close_vote clock ?v ?rc = (r, rc2)" "rc = store_result r rc2"
      using assms(2) pd False by (auto simp: processConsensus_def voted_result_def Let_def split: prod.splits if_splits)
    let ?s1 = "s\<lparr>ru_vote := Some (?v, VoteTaken)\<rparr>"
    let ?s2 = "s\<lparr>ru_raft := ?rc, ru_vote := Some (?v, if vt_TimedOut ?v then VoteTriggered else VoteTaken)\<rparr>"
    let ?s3 = "s\<lparr>ru_raft := rc2, ru_vote := Some (?v\<lparr>vt_Result := r\<rparr>, VoteClosed)\<rparr>"
    have "run_step sd fl show_dec s ?s1" by (rule run_step.votes [OF assms(1) pd False])
    moreover have "(run_step sd fl show_dec)\<^sup>*\<^sup>* ?s1 ?s2"
    proof (cases "vt_TimedOut ?v")
      case True
      let ?t = "s\<lparr>ru_raft := record_timeout clock ?v (ru_raft s), ru_vote := Some (?v, VoteRecorded)\<rparr>"
      have "run_step sd fl show_dec ?s1 ?t"
        using run_step.vote_timeout [of ?s1 ?v sd fl show_dec clock] True by simp
      moreover have "run_step sd fl show_dec ?t ?s2"
        using run_step.vote_trigger [of ?t ?v sd fl show_dec clock] True by simp
      ultimately show ?thesis by (meson converse_rtranclp_into_rtranclp rtranclp.rtrancl_refl)
    qed simp
    moreover have "run_step sd fl show_dec ?s2 ?s3"
      using run_step.vote_close [of ?s2 ?v "if vt_TimedOut ?v then VoteTriggered else VoteTaken" clock r rc2 sd fl show_dec] c(1) by simp
    moreover have "run_step sd fl show_dec ?s3 (s\<lparr>ru_raft := rc\<rparr>)"
      using run_step.vote_store [of ?s3 "?v\<lparr>vt_Result := r\<rparr>" sd fl show_dec] c(2) assms(1)
      by (cases s) simp
    ultimately show ?thesis
      by (meson converse_rtranclp_into_rtranclp rtranclp.rtrancl_into_rtrancl)
  qed
qed

text \<open>
  C37: what is ever retried. In every interleaving of the coordinator's goroutines a failed operation is
  marked as retryable only after the consensus call on it has recorded its timeout and before that call
  has made its last record, because that one replaces the entry with a reason that carries details, and
  reasons are compared literally with short texts. So a recovery that collects its retries outside of
  this time finds none and does nothing, and one within it finds at most the operation whose consensus
  call is still under way, which it then proposes a second time.
\<close>

theorem retry_window:
  assumes "run_reach sd fl show_dec s" and "set ids \<subseteq> dom (rm_failedOperations (rc_recoveryManager (ru_raft s)))"
  shows "(\<forall>i fo. rm_failedOperations (rc_recoveryManager (ru_raft s)) i = Some fo \<and> fo_Retryable fo \<longrightarrow>
      (\<exists>v. (ru_vote s = Some (v, VoteRecorded) \<or> ru_vote s = Some (v, VoteTriggered)) \<and> vt_TimedOut v \<and>
        co_ID (cr_Operation (vt_Result v)) = i)) \<and>
    (\<forall>fo \<in> set (retry_candidates priority ids (rc_recoveryManager (ru_raft s))).
      \<exists>v. (ru_vote s = Some (v, VoteRecorded) \<or> ru_vote s = Some (v, VoteTriggered)) \<and>
        co_ID (fo_Operation fo) = co_ID (cr_Operation (vt_Result v))) \<and>
    ((\<forall>v. ru_vote s \<noteq> Some (v, VoteRecorded) \<and> ru_vote s \<noteq> Some (v, VoteTriggered)) \<longrightarrow>
      retryFailedOperations propose priority ids (ru_raft s) = ru_raft s)"
proof -
  have inv: "filed (timeout_open s) (failed_ops (ru_raft s))" "vote_sound s"
    using run_reach_inv [OF assms(1)] by (simp_all add: run_inv_def)
  have open_vote: "\<exists>v. (ru_vote s = Some (v, VoteRecorded) \<or> ru_vote s = Some (v, VoteTriggered)) \<and> vt_TimedOut v \<and>
      co_ID (cr_Operation (vt_Result v)) = i" if i: "i \<in> timeout_open s" for i
  proof -
    from i obtain v stage where v: "ru_vote s = Some (v, stage)" "stage = VoteRecorded \<or> stage = VoteTriggered"
      "co_ID (cr_Operation (vt_Result v)) = i" by (auto simp: timeout_open_def split: option.splits prod.splits if_splits)
    moreover have "vt_TimedOut v" using inv(2) v(1,2) by (auto simp: vote_sound_def split: if_splits)
    ultimately show ?thesis by blast
  qed
  have marked: "i \<in> timeout_open s" if "failed_ops (ru_raft s) i = Some fo" "fo_Retryable fo" for i fo
    using inv(1) that by (simp add: filed_def)
  have chosen: "co_ID (fo_Operation fo) \<in> timeout_open s"
    if "fo \<in> set (retry_candidates priority ids (rc_recoveryManager (ru_raft s)))" for fo
    by (rule filed_candidates [OF inv(1) assms(2) that])
  have "retryFailedOperations propose priority ids (ru_raft s) = ru_raft s"
    if "\<forall>v. ru_vote s \<noteq> Some (v, VoteRecorded) \<and> ru_vote s \<noteq> Some (v, VoteTriggered)"
  proof -
    have "timeout_open s = {}" using open_vote that by blast
    then have "retry_candidates priority ids (rc_recoveryManager (ru_raft s)) = []"
      using chosen by (metis empty_iff last_in_set)
    then show ?thesis by (simp add: retryFailedOperations_def)
  qed
  moreover have "\<exists>v. (ru_vote s = Some (v, VoteRecorded) \<or> ru_vote s = Some (v, VoteTriggered)) \<and>
      co_ID (fo_Operation fo) = co_ID (cr_Operation (vt_Result v))"
    if "fo \<in> set (retry_candidates priority ids (rc_recoveryManager (ru_raft s)))" for fo
    using open_vote [OF chosen [OF that]] by metis
  ultimately show ?thesis using marked open_vote by blast
qed

lemma run_reach_steps: "(run_step sd fl show_dec)\<^sup>*\<^sup>* s s' \<Longrightarrow> run_reach sd fl show_dec s \<Longrightarrow> run_reach sd fl show_dec s'"
  by (induction rule: rtranclp_induct) (auto intro: run_reach.step)

text \<open>A vote that takes 31 seconds: in the window a retry takes its operation, after the call none does.\<close>

definition late :: "nat \<Rightarrow> time" where
  "late n = (if n = 3 then 31 * second else 0)"

definition run_start :: raft_run where
  "run_start = \<lparr>ru_raft = rc_Start 0 (NewRaftCoordinator ''A'' three), ru_vote = None, ru_recovery = RecoveryIdle\<rparr>"

definition late_vote :: vote where
  "late_vote = take_votes (\<lambda>d. []) id late demo_op (ru_raft run_start)"

lemma late_vote_facts: "vt_TimedOut late_vote" "cr_Operation (vt_Result late_vote) = demo_op"
  by (simp_all add: late_vote_def take_votes_def late_def run_start_def demo_raft_defs Let_def split: prod.splits)

lemma start_detector: "\<exists>pd. rm_partitionDetector (rc_recoveryManager (ru_raft run_start)) = Some pd \<and> \<not> IsPartitioned pd"
  by (simp add: run_start_def demo_raft_defs IsPartitioned_def)

definition in_window :: raft_run where
  "in_window = run_start\<lparr>ru_raft := record_timeout late late_vote (ru_raft run_start), ru_vote := Some (late_vote, VoteRecorded)\<rparr>"

lemma start_reach: "run_reach (\<lambda>d. []) id (\<lambda>x. []) run_start"
  unfolding run_start_def by (rule run_reach.start)

lemma window_reach: "run_reach (\<lambda>d. []) id (\<lambda>x. []) in_window"
proof -
  obtain pd where pd: "rm_partitionDetector (rc_recoveryManager (ru_raft run_start)) = Some pd" "\<not> IsPartitioned pd"
    using start_detector by blast
  have "run_step (\<lambda>d. []) id (\<lambda>x. []) run_start (run_start\<lparr>ru_vote := Some (late_vote, VoteTaken)\<rparr>)"
    unfolding late_vote_def by (rule run_step.votes [OF _ pd(1)]) (simp_all add: pd(2), simp add: run_start_def)
  moreover have "run_step (\<lambda>d. []) id (\<lambda>x. []) (run_start\<lparr>ru_vote := Some (late_vote, VoteTaken)\<rparr>) in_window"
    using run_step.vote_timeout [of "run_start\<lparr>ru_vote := Some (late_vote, VoteTaken)\<rparr>" late_vote "\<lambda>d. []" id "\<lambda>x. []" late]
    by (simp add: late_vote_facts in_window_def)
  ultimately show ?thesis using start_reach by (meson run_reach.step)
qed

theorem retry_window_witness:
  "\<exists>s. run_reach (\<lambda>d. []) id (\<lambda>x. []) s \<and> ru_vote s = None \<and>
     map (\<lambda>fo. co_ID (fo_Operation fo)) (retry_candidates CriticalRecovery [''op1''] (rc_recoveryManager (ru_raft in_window))) = [''op1''] \<and>
     ''op1'' \<in> dom (rm_failedOperations (rc_recoveryManager (ru_raft s))) \<and>
     retryFailedOperations (\<lambda>op rc. (Inl [], rc)) LowRecovery [''op1''] (ru_raft s) = ru_raft s"
proof -
  let ?call = "processConsensus (\<lambda>d. []) id late demo_op (ru_raft run_start)"
  obtain pd where pd: "rm_partitionDetector (rc_recoveryManager (ru_raft run_start)) = Some pd" "\<not> IsPartitioned pd"
    using start_detector by blast
  obtain r rc where v: "voted_result (\<lambda>d. []) id late demo_op (ru_raft run_start) = (r, rc)" by fastforce
  then have call: "?call = Returns (r, rc)" using pd by (simp add: processConsensus_def)
  have none: "ru_vote run_start = None" by (simp add: run_start_def)
  let ?s = "run_start\<lparr>ru_raft := rc\<rparr>"
  have reach: "run_reach (\<lambda>d. []) id (\<lambda>x. []) ?s" by (rule run_reach_steps [OF votes_uninterrupted [OF none call] start_reach])
  have "cr_Approved r = False" "cr_Operation r = demo_op" using voted_result_facts [OF v] by (simp_all add: late_def run_start_def demo_raft_defs)
  moreover have "failed_ops rc (co_ID demo_op) \<noteq> None"
  proof -
    have "failed_ops rc = failed_ops (snd (close_vote late late_vote (trigger_timeout (\<lambda>d. []) late late_vote (record_timeout late late_vote (ru_raft run_start)))))"
      using v late_vote_facts(1) unfolding voted_result_def late_vote_def [symmetric] by (auto simp: Let_def split: prod.splits)
    then show ?thesis
      by (simp add: close_vote_def record_timeout_def RecordFailedOperation_def late_vote_facts Let_def)
  qed
  ultimately have dom: "set [''op1''] \<subseteq> dom (failed_ops (ru_raft ?s))" by (simp add: demo_op_def domIff)
  have "retryFailedOperations (\<lambda>op rc. (Inl [], rc)) LowRecovery [''op1''] (ru_raft ?s) = ru_raft ?s"
    using retry_window [OF reach dom] none by simp
  moreover have "map (\<lambda>fo. co_ID (fo_Operation fo)) (retry_candidates CriticalRecovery [''op1''] (rc_recoveryManager (ru_raft in_window))) = [''op1'']"
    by (simp add: retry_candidates_def in_window_def record_timeout_def RecordFailedOperation_def late_vote_facts demo_op_def
        isRetryableFailure_def determineRecoveryPriority_def)
  ultimately show ?thesis using reach none dom by (intro exI [of _ ?s]) simp
qed

section \<open>Answers\<close>

text \<open>Nothing about the operation \<open>w\<close> is under way.\<close>

definition quiet :: "string \<Rightarrow> raft_sys \<Rightarrow> bool" where
  "quiet w s \<longleftrightarrow> w \<notin> co_ID ` set (rs_proposalCh s) \<and> w \<notin> (\<lambda>r. co_ID (cr_Operation r)) ` set (rs_commitCh s)"

text \<open>Steps after which the operation \<open>w\<close> is not among the proposals, so that it was not proposed anew.\<close>

definition step_without :: "(duration \<Rightarrow> string) \<Rightarrow> (rat \<Rightarrow> rat) \<Rightarrow> (decimal \<Rightarrow> string) \<Rightarrow> string \<Rightarrow> raft_sys \<Rightarrow> raft_sys \<Rightarrow> bool" where
  "step_without sd fl show_dec w s s' \<longleftrightarrow> raft_step sd fl show_dec s s' \<and> w \<notin> co_ID ` set (rs_proposalCh s')"

lemma result_operation: "processConsensus sd fl clock op rc = Returns (r, rc') \<Longrightarrow> cr_Operation r = op"
  by (auto simp: processConsensus_def no_quorum_result_def dest: voted_result_facts split: option.splits if_splits)

definition only_timeouts :: "string \<Rightarrow> nat \<Rightarrow> raft_sys \<Rightarrow> bool" where
  "only_timeouts w k s \<longleftrightarrow> k \<le> length (rs_answers s) \<and> (\<forall>(v, a) \<in> set (drop k (rs_answers s)). v = w \<longrightarrow> a = TimedOut)"

lemma only_timeouts_answer:
  "only_timeouts w k s \<Longrightarrow> v \<noteq> w \<or> a = TimedOut \<Longrightarrow> only_timeouts w k (answer_waiting v a s)"
  by (auto simp: only_timeouts_def answer_waiting_def)

lemma quiet_step:
  assumes "raft_step sd fl show_dec s s'" and "w \<notin> co_ID ` set (rs_proposalCh s')" and q: "quiet w s" and "only_timeouts w k s"
  shows "quiet w s' \<and> only_timeouts w k s'"
  using assms
proof (induction rule: raft_step.induct)
  case (work s op ops clock r rc)
  then show ?case using result_operation [OF work.hyps(3)] by (auto simp: quiet_def only_timeouts_def)
next
  case (receive s r rest v)
  have "co_ID (cr_Operation r) \<noteq> w" using receive by (auto simp: quiet_def)
  then show ?case using receive only_timeouts_answer [of w k "s\<lparr>rs_commitCh := rest\<rparr>" v "Answered r"]
    by (auto simp: quiet_def only_timeouts_def answer_waiting_def)
next
  case (wait_ends v s)
  then show ?case using only_timeouts_answer [of w k s v TimedOut] by (auto simp: quiet_def answer_waiting_def)
qed (auto simp: quiet_def only_timeouts_def)

text \<open>
  C40: the result of an approved operation may be taken from the queue by the worker that only logs it;
  from then on the proposer, unless the operation is proposed again, gets no other answer than a timeout,
  although the operation counts as committed.
\<close>

theorem approved_but_timed_out:
  assumes "rs_commitCh s = r # rest" and "cr_Approved r" and "co_ID (cr_Operation r) = w"
    and "w \<notin> co_ID ` set (rs_proposalCh s)" and "w \<notin> (\<lambda>r. co_ID (cr_Operation r)) ` set rest"
    and "(step_without sd fl show_dec w)\<^sup>*\<^sup>* (s\<lparr>rs_commitCh := rest\<rparr>) s'"
  shows "raft_step sd fl show_dec s (s\<lparr>rs_commitCh := rest\<rparr>) \<and>
    (\<forall>a. (w, a) \<in> set (drop (length (rs_answers s)) (rs_answers s')) \<longrightarrow> a = TimedOut)"
proof
  show "raft_step sd fl show_dec s (s\<lparr>rs_commitCh := rest\<rparr>)" using assms(1) by (rule raft_step.log_result)
  have "quiet w s' \<and> only_timeouts w (length (rs_answers s)) s'"
    using assms(6)
  proof (induction rule: rtranclp_induct)
    case base
    show ?case using assms(4,5) by (simp add: quiet_def only_timeouts_def)
  next
    case (step s1 s2)
    then show ?case using quiet_step unfolding step_without_def by blast
  qed
  then show "\<forall>a. (w, a) \<in> set (drop (length (rs_answers s)) (rs_answers s')) \<longrightarrow> a = TimedOut"
    by (auto simp: only_timeouts_def)
qed

text \<open>The proposer of the approved operation waits while the worker logs the result.\<close>

theorem approved_but_timed_out_witness:
  "\<exists>s s'. rs_waiting s = [''op1''] \<and> (\<exists>r. rs_commitCh s = [r] \<and> cr_Approved r) \<and>
     (step_without (\<lambda>d. []) id (\<lambda>x. []) ''op1'')\<^sup>*\<^sup>* (s\<lparr>rs_commitCh := []\<rparr>) s' \<and>
     (\<forall>a. (''op1'', a) \<in> set (rs_answers s') \<longrightarrow> a = TimedOut) \<and> rs_answers s' \<noteq> []"
proof -
  obtain r rc where r: "processConsensus (\<lambda>d. []) id (\<lambda>i. 0) demo_op demo_raft = Returns (r, rc)" "cr_Approved r"
    using demo_approved by blast
  let ?s = "\<lparr>rs_raft = rc, rs_proposalCh = [], rs_commitCh = [r], rs_waiting = [''op1''], rs_answers = []\<rparr>"
  let ?t = "answer_waiting ''op1'' TimedOut (?s\<lparr>rs_commitCh := []\<rparr>)"
  have "raft_step (\<lambda>d. []) id (\<lambda>x. []) (?s\<lparr>rs_commitCh := []\<rparr>) ?t" by (rule raft_step.wait_ends) simp
  then have run: "(step_without (\<lambda>d. []) id (\<lambda>x. []) ''op1'')\<^sup>*\<^sup>* (?s\<lparr>rs_commitCh := []\<rparr>) ?t"
    by (intro r_into_rtranclp) (simp add: step_without_def answer_waiting_def)
  have "co_ID (cr_Operation r) = ''op1''" using result_operation [OF r(1)] by (simp add: demo_op_def)
  then have "\<forall>a. (''op1'', a) \<in> set (drop 0 (rs_answers ?t)) \<longrightarrow> a = TimedOut"
    using approved_but_timed_out [OF _ r(2) _ _ _ run] by simp
  then show ?thesis using r(2) run by (intro exI [of _ ?s] exI [of _ ?t]) (simp add: answer_waiting_def)
qed

end
