(* ===== verification/Spec2Isabelle.thy ===== *)
theory Spec2Isabelle
  imports Prelude OrderQueue XaProtocol XaManager WalletXa OrderModel TradingXa CrossPair CrossPairResources SlidingWindow
    CircuitBreaker LockManager BookTheorems BookkeeperTheorems FeeTheorems WalletTheorems BalanceTheorems LifecycleTheorems
    ServiceTheorems LockSagaTheorems PriorityTheorems ConsensusTheorems
begin

text \<open>
  A verification library for the exchange in this repository: models of its trading, accounting and
  rate-limiting components as HOL definitions, translated from the Go sources function by function,
  and the theorems that say what they do. Definitions carry the names of the source, with a prefix
  where a name occurs in several files, and are executable, so that every theorem with a hypothesis
  has a witness in which it is applied to a computed example.

  \<^bold>\<open>The parts of the program and their theories.\<close>

  \<^item> \<open>Prelude\<close>: the value types (decimals as \<open>rat\<close>, UUIDs, times), \<open>outcome\<close> for calls that may panic or
    wait forever, the formatting verbs of \<open>fmt\<close>, and facts on lists and maps.
  \<^item> \<open>OrderQueue\<close>: \<open>internal/trading/orderqueue/inmemory_queue.go\<close>. The state is the slice, the index
    by ID and the closed flag; the locale \<open>queue_provider\<close> is the contract of a queue, interpreted
    on the in-memory queue.
  \<^item> \<open>XaProtocol\<close>, \<open>XaManager\<close>: \<open>internal/accounts/transaction/xa_manager.go\<close>, the two-phase commit.
    A resource is a record of functions over a world; the manager's state holds its registry, its
    counters, which locks are held and which cleanup goroutines wait. \<open>XaVotes\<close> states in the locales
    \<open>refusing_resource\<close>, \<open>quiet_resource\<close> and \<open>silent_resource\<close> what a resource's vote does to a
    transaction.
  \<^item> \<open>WalletXa\<close>, \<open>TradingXa\<close>, \<open>CrossPairResources\<close>: three files of resources the manager drives
    (\<open>accounts/transaction/wallet_xa.go\<close>, \<open>accounts/transaction/trading_xa.go\<close>,
    \<open>trading/crosspair/transaction/resources.go\<close>), the last interpreting the vote locales.
    \<open>OrderModel\<close> and \<open>CrossPair\<close> are the data models they share with the engine
    (\<open>trading/model/model.go\<close>, \<open>trading/crosspair/models.go\<close>).
  \<^item> \<open>PriceLevel\<close>, \<open>OrderBook\<close>, \<open>BookMatching\<close>, \<open>BookProperties\<close>, \<open>BookInstance\<close>, \<open>BookTheorems\<close>:
    \<open>internal/trading/orderbook/orderbook.go\<close>. A price level is a chain of ring buffers over a heap of
    orders; matching visits the levels of the other side; the reference is a greedy match against one
    list of makers, and the histories of a book are an inductive relation.
  \<^item> \<open>Bookkeeper\<close>, \<open>BookkeeperLaws\<close>, \<open>BookkeeperHistory\<close>, \<open>BookkeeperTheorems\<close>:
    \<open>internal/accounts/bookkeeper/service.go\<close>. Accounts, their transactions, the enhanced and batched
    operations and the distributed ones, with the database as a record of statements. The locale
    \<open>undone_attempts\<close> is the contract of an attempt that fails without effect, interpreted on the
    attempts of every retry loop.
  \<^item> \<open>BalanceManager\<close>, \<open>BalanceTheorems\<close>: \<open>internal/trading/consistency/balance_manager.go\<close>, transfers and
    locks under account mutexes and consensus, on top of the bookkeeper.
  \<^item> \<open>BalanceService\<close>, \<open>ServiceTheorems\<close>: \<open>internal/trading/balance/service.go\<close>, the service on top of
    both, with its cache of responses and transfers of several assets. A call is its outcome and the state it leaves.
  \<^item> \<open>FeeEngine\<close>, \<open>FeeTheorems\<close>: \<open>internal/trading/engine/fee_engine.go\<close>, fees of orders and routes,
    and the read-write mutex they are computed under, as an inductive relation of its steps.
  \<^item> \<open>WalletState\<close>, \<open>WalletTheorems\<close>: \<open>internal/wallet/state/transaction_state.go\<close>, the state machine of
    a wallet transaction, with the fund locks and the workers of \<open>internal/wallet\<close> that drive it.
  \<^item> \<open>OrderLifecycle\<close>, \<open>OrderValidators\<close>, \<open>LifecycleTheorems\<close>: \<open>internal/trading/lifecycle\<close>, the
    submission, acceptance, filling and cancellation of orders in database transactions, with
    idempotency keys, the validators and the log of the transitions.
  \<^item> \<open>DistributedLocks\<close>, \<open>LockSagaTheorems\<close>: \<open>internal/accounts/transaction/distributed_locks.go\<close>, locks as
    rows of a table several managers share, and sagas as lists of actions and compensations on a world.
  \<^item> \<open>PriorityQueue\<close>, \<open>RingTheorems\<close>, \<open>PriorityTheorems\<close>:
    \<open>internal/marketmaking/marketdata/backpressure/priority_queue.go\<close>, the queue of market-data messages, with
    ring buffers of 64-bit positions; the locale \<open>bounded_fifo\<close> is their contract.
  \<^item> \<open>Partitions\<close>, \<open>PartitionTheorems\<close>, \<open>RaftCoordinator\<close>, \<open>ConsensusRecovery\<close>, \<open>ConsensusTheorems\<close>:
    \<open>internal/trading/consensus\<close>, the partition detector, the split-brain resolver, the coordinator's votes and
    the recovery. Two inductive relations let its goroutines run interleaved: \<open>raft_run\<close> has the consensus
    worker at each stage of a vote and the recovery worker at each retry, \<open>raft_step\<close> the two queues with
    the proposers that wait; the locale \<open>quorum_system\<close> is what majorities are for.
  \<^item> \<open>SlidingWindow\<close>, \<open>CircuitBreaker\<close>: \<open>internal/infrastructure/ratelimit\<close>, the second also at the
    grain of its atomic operations, where calls overlap.
  \<^item> \<open>LockManager\<close>: \<open>internal/trading/migration/lock_manager.go\<close>, the locks of a market migration.

  \<^bold>\<open>What the lemmas show.\<close> Each component has preservation lemmas for its invariant, the effect of each
  operation on every branch, and then its properties: for the transaction manager the outcome of
  \<open>Commit\<close> and of the retrying commit, and which transactions the registry holds; for the order book
  the refinement of the greedy match, the invariant of its histories, soundness and priority of
  trades, exact cancelling and cleaning; for the bookkeeper the invariant of the balances, the totals
  of a currency, what an error and a success mean; for the balance manager when a call blocks, what
  it did when it returns, and what its transfers do to a ledger; for the balance service what a key used again does and
  what transfers of several assets do and keep; which failed operations a consensus coordinator retries and who
  gets the answer of an approved one; the bounds and the sum of a fee; which
  states a wallet transaction reaches; for the lifecycle of orders the audit trail, the type of what is
  validated and the effect of fills, cancellations and keys; exclusion of the migration locks; exact bounds of the limiters. Where the code does something it cannot mean, the theorem states what it does.

  \<^bold>\<open>Hypotheses on code that is not in the repository.\<close> The B-tree and the printing of decimals of
  the order book are a record with \<open>env_laws\<close> (ordered visits, lookup after insertion and deletion);
  the databases behind gorm are records of statements with laws on the rows a statement finds and
  writes; UUIDs, clock readings and the order in which a Go map is ranged over are inputs. Each law
  has an instance on which the witnesses compute.

  \<^bold>\<open>Bounds.\<close> Counters and sums of durations are \<open>int\<close>, as an overflow would take 2^63 steps. Loops
  are structural or have a termination proof. A call that waits for a lock nobody releases is the
  value \<open>Blocks\<close>, so that theorems about a return are not vacuous.

  \<^bold>\<open>Not modelled.\<close> Servers, configuration, messaging, metrics, logging and generated code, which hold no
  logic of their own; the components that the manifest lists as not modelled, left to later extensions;
  goroutines are modelled where calls overlap (the queue, the manager's cleanups, the circuit breaker,
  the bookkeeper's reads and writes), other operations are one step because they hold their mutex.
\<close>

end
